(* ===== verification/StableSort.thy ===== *)
theory StableSort
  imports Main "HOL-Library.Multiset"
begin

text \<open>
  \<open>Array.prototype.sort\<close> with a comparison function: the stable order, by insertion. With a
  comparison that is a total preorder the result is the only one the language allows.
\<close>

fun insert_by :: "('a \<Rightarrow> 'a \<Rightarrow> int) \<Rightarrow> 'a \<Rightarrow> 'a list \<Rightarrow> 'a list" where
  "insert_by cmp x [] = [x]"
| "insert_by cmp x (y # ys) = (if cmp x y \<le> 0 then x # y # ys else y # insert_by cmp x ys)"

definition sort_by :: "('a \<Rightarrow> 'a \<Rightarrow> int) \<Rightarrow> 'a list \<Rightarrow> 'a list" where
  "sort_by cmp xs = foldr (insert_by cmp) xs []"

lemma sort_by_simps [simp]: "sort_by cmp [] = []" "sort_by cmp (x # xs) = insert_by cmp x (sort_by cmp xs)"
  by (simp_all add: sort_by_def)

lemma mset_insert_by: "mset (insert_by cmp x xs) = add_mset x (mset xs)"
  by (induction xs) auto

lemma mset_sort_by [simp]: "mset (sort_by cmp xs) = mset xs"
  by (induction xs) (simp_all add: mset_insert_by)

lemma set_sort_by [simp]: "set (sort_by cmp xs) = set xs"
  by (metis mset_sort_by set_mset_mset)

lemma set_insert_by: "set (insert_by cmp x xs) = insert x (set xs)"
  by (induction xs) auto

lemma distinct_map_mset: "mset xs = mset ys \<Longrightarrow> distinct (map f xs) = distinct (map f ys)"
  by (metis mset_eq_imp_distinct_iff mset_map)

section \<open>Order\<close>

definition preorder_by :: "('a \<Rightarrow> 'a \<Rightarrow> int) \<Rightarrow> bool" where
  "preorder_by cmp \<longleftrightarrow>
     (\<forall>a b. cmp a b \<le> 0 \<or> cmp b a \<le> 0) \<and> (\<forall>a b c. cmp a b \<le> 0 \<longrightarrow> cmp b c \<le> 0 \<longrightarrow> cmp a c \<le> 0)"

abbreviation ordered_by :: "('a \<Rightarrow> 'a \<Rightarrow> int) \<Rightarrow> 'a list \<Rightarrow> bool" where
  "ordered_by cmp \<equiv> sorted_wrt (\<lambda>a b. cmp a b \<le> 0)"

lemma ordered_insert_by:
  assumes "preorder_by cmp" "ordered_by cmp xs"
  shows "ordered_by cmp (insert_by cmp x xs)"
  using assms(2)
proof (induction xs)
  case (Cons y ys)
  show ?case
  proof (cases "cmp x y \<le> 0")
    case True
    then have "\<forall>z \<in> set ys. cmp x z \<le> 0" using Cons.prems assms(1) unfolding preorder_by_def sorted_wrt.simps by blast
    then show ?thesis using True Cons.prems by simp
  next
    case False
    then have "cmp y x \<le> 0" using assms(1) unfolding preorder_by_def by blast
    then show ?thesis using False Cons by (simp add: set_insert_by)
  qed
qed simp

lemma ordered_sort_by: "preorder_by cmp \<Longrightarrow> ordered_by cmp (sort_by cmp xs)"
  by (induction xs) (simp_all add: ordered_insert_by)

lemma sort_by_ordered: "ordered_by cmp xs \<Longrightarrow> sort_by cmp xs = xs"
proof (induction xs)
  case (Cons x xs)
  then show ?case by (cases xs) auto
qed simp

text \<open>A symmetric relation between any two elements survives sorting.\<close>

lemma pairwise_insert_by:
  assumes "\<And>a b. P a b \<Longrightarrow> P b a"
  shows "sorted_wrt P (insert_by cmp x xs) \<longleftrightarrow> sorted_wrt P (x # xs)"
proof (induction xs)
  case (Cons y ys)
  then show ?case using assms by (auto simp: set_insert_by)
qed simp

lemma pairwise_sort_by:
  assumes "\<And>a b. P a b \<Longrightarrow> P b a"
  shows "sorted_wrt P (sort_by cmp xs) \<longleftrightarrow> sorted_wrt P xs"
  by (induction xs) (simp_all add: pairwise_insert_by [of P, OF assms] del: sorted_wrt.simps, simp)

text \<open>Without ties the order is determined by the elements.\<close>

lemma ordered_unique:
  assumes "ordered_by cmp xs" "ordered_by cmp ys" "mset xs = mset ys"
    "\<And>a b. a \<in> set xs \<Longrightarrow> b \<in> set xs \<Longrightarrow> cmp a b \<le> 0 \<Longrightarrow> cmp b a \<le> 0 \<Longrightarrow> a = b"
  shows "xs = ys"
  using assms
proof (induction xs arbitrary: ys)
  case (Cons x xs)
  obtain y zs where ys: "ys = y # zs" using Cons.prems(3) by (cases ys) auto
  have sets: "set (x # xs) = set (y # zs)" using mset_eq_setD [OF Cons.prems(3)] ys by simp
  have "x = y"
  proof (rule ccontr)
    assume ne: "x \<noteq> y"
    then have "cmp x y \<le> 0" "cmp y x \<le> 0" using sets Cons.prems(1,2) ys by auto
    moreover have "y \<in> set (x # xs)" unfolding sets by simp
    ultimately show False using Cons.prems(4) [of x y] ne by simp
  qed
  then have "mset xs = mset zs" using Cons.prems(3) ys by simp
  moreover have "ordered_by cmp xs" "ordered_by cmp zs" using Cons.prems(1,2) ys by simp_all
  moreover have "\<And>a b. a \<in> set xs \<Longrightarrow> b \<in> set xs \<Longrightarrow> cmp a b \<le> 0 \<Longrightarrow> cmp b a \<le> 0 \<Longrightarrow> a = b" using Cons.prems(4) by simp
  ultimately have "xs = zs" using Cons.IH by blast
  then show ?case using \<open>x = y\<close> ys by simp
qed simp

end
