(* ===== verification/JsText.thy ===== *)
theory JsText
  imports Prelude
begin

text \<open>
  JavaScript strings as lists of UTF-16 code units, and the parts of the language's string
  library the program uses on owner text: white space and \<open>trim\<close>, iteration by code
  point, and the small regular expressions of the command grammar with their \<open>iu\<close> flags.
\<close>

type_synonym utext = "nat list"

definition js :: "string \<Rightarrow> utext" where
  "js s = map of_char s"

lemma js_simps [simp]: "js [] = []" "js (c # s) = of_char c # js s"
  by (simp_all add: js_def)

lemma js_append [simp]: "js (s @ t) = js s @ js t"
  by (simp add: js_def)

lemma js_inj: "js s = js t \<longleftrightarrow> s = t"
proof -
  have "inj (of_char :: char \<Rightarrow> nat)" by (rule inj_of_char)
  then show ?thesis by (simp add: js_def inj_map_eq_map)
qed

section \<open>White space and trimming\<close>

definition is_space :: "nat \<Rightarrow> bool" where
  \<comment> \<open>\<open>\\s\<close>: ECMAScript white space and line terminators.\<close>
  "is_space c \<longleftrightarrow> c \<in> {9, 10, 11, 12, 13, 32, 160, 5760, 8232, 8233, 8239, 8287, 12288, 65279} \<or>
     (8192 \<le> c \<and> c \<le> 8202)"

definition trim_start :: "utext \<Rightarrow> utext" where
  "trim_start s = dropWhile is_space s"

definition trim_end :: "utext \<Rightarrow> utext" where
  "trim_end s = rev (dropWhile is_space (rev s))"

definition trim :: "utext \<Rightarrow> utext" where
  "trim s = trim_end (trim_start s)"

definition search_nonspace :: "utext \<Rightarrow> nat option" where
  \<comment> \<open>\<open>text.search(/\\S/u)\<close>, with None for -1.\<close>
  "search_nonspace s =
     (let n = length (takeWhile is_space s) in if n < length s then Some n else None)"

lemma search_nonspace_Some:
  assumes "search_nonspace s = Some n"
  shows "n < length s \<and> \<not> is_space (s ! n) \<and> (\<forall>i < n. is_space (s ! i))"
proof -
  from assms have n: "n = length (takeWhile is_space s)" and lt: "n < length s"
    by (auto simp: search_nonspace_def Let_def split: if_splits)
  have "\<not> is_space (s ! n)" using lt unfolding n by (rule nth_length_takeWhile)
  moreover have "\<forall>i < n. is_space (s ! i)"
  proof (intro allI impI)
    fix i assume "i < n"
    then have i: "i < length (takeWhile is_space s)" using n by simp
    then have "takeWhile is_space s ! i \<in> set (takeWhile is_space s)" by (rule nth_mem)
    then have "is_space (takeWhile is_space s ! i)" by (blast dest: set_takeWhileD)
    then show "is_space (s ! i)" using i by (simp add: takeWhile_nth)
  qed
  ultimately show ?thesis using lt by simp
qed

lemma search_nonspace_None: "search_nonspace s = None \<longleftrightarrow> (\<forall>c \<in> set s. is_space c)"
proof -
  have "length (takeWhile is_space s) < length s \<longleftrightarrow> (\<exists>c \<in> set s. \<not> is_space c)"
    by (induction s) auto
  then show ?thesis by (auto simp: search_nonspace_def Let_def)
qed

lemma all_dropWhile: "(\<forall>c \<in> set (dropWhile P s). P c) \<longleftrightarrow> (\<forall>c \<in> set s. P c)"
  by (induction s) auto

lemma trim_Nil_iff: "trim s = [] \<longleftrightarrow> (\<forall>c \<in> set s. is_space c)"
proof -
  have "trim s = [] \<longleftrightarrow> (\<forall>c \<in> set (rev (dropWhile is_space s)). is_space c)"
    unfolding trim_def trim_end_def trim_start_def rev_is_Nil_conv dropWhile_eq_Nil_conv ..
  then show ?thesis unfolding set_rev all_dropWhile .
qed

section \<open>Code points\<close>

definition is_high :: "nat \<Rightarrow> bool" where "is_high c \<longleftrightarrow> 55296 \<le> c \<and> c \<le> 56319"

definition is_low :: "nat \<Rightarrow> bool" where "is_low c \<longleftrightarrow> 56320 \<le> c \<and> c \<le> 57343"

fun code_points :: "utext \<Rightarrow> utext list" where
  \<comment> \<open>\<open>for (const character of text)\<close>: a surrogate pair is one character.\<close>
  "code_points [] = []"
| "code_points [a] = [[a]]"
| "code_points (a # b # r) =
     (if is_high a \<and> is_low b then [a, b] # code_points r else [a] # code_points (b # r))"

lemma concat_code_points [simp]: "concat (code_points s) = s"
  by (induction s rule: code_points.induct) auto

lemma code_points_length: "p \<in> set (code_points s) \<Longrightarrow> length p = 1 \<or> length p = 2"
  by (induction s rule: code_points.induct) (auto split: if_splits)

section \<open>Case folding of the \<open>iu\<close> flags\<close>

definition fold_case :: "nat \<Rightarrow> nat" where
  \<comment> \<open>Simple case folding on the ASCII and Cyrillic letters the grammar uses.\<close>
  "fold_case c =
     (if 65 \<le> c \<and> c \<le> 90 then c + 32
      else if 1040 \<le> c \<and> c \<le> 1071 then c + 32
      else if 1024 \<le> c \<and> c \<le> 1039 then c + 80
      else if c = 383 then 115
      else if c = 8490 then 107
      else if c = 7296 then 1074
      else if c = 7297 then 1076
      else if c = 7298 then 1086
      else if c = 7299 then 1089
      else if c = 7300 \<or> c = 7301 then 1090
      else if c = 7302 then 1098
      else c)"

lemma fold_case_idem [simp]: "fold_case (fold_case c) = fold_case c"
  by (simp add: fold_case_def)

section \<open>Regular expressions\<close>

datatype rx =
    Lit utext                 \<comment> \<open>a literal, compared up to case folding\<close>
  | One "nat \<Rightarrow> bool"      \<comment> \<open>one unit of a class\<close>
  | Many "nat \<Rightarrow> bool"     \<comment> \<open>\<open>[...]*\<close>, greedy\<close>
  | Seq "rx list"
  | Alt "rx list"
  | Opt rx
  | EndOfText

fun strip_lit :: "utext \<Rightarrow> utext \<Rightarrow> utext list" where
  "strip_lit [] s = [s]"
| "strip_lit (p # ps) [] = []"
| "strip_lit (p # ps) (c # s) = (if fold_case p = fold_case c then strip_lit ps s else [])"

fun greedy :: "(nat \<Rightarrow> bool) \<Rightarrow> utext \<Rightarrow> utext list" where
  "greedy P [] = [[]]"
| "greedy P (c # s) = (if P c then greedy P s @ [c # s] else [c # s])"

fun rests :: "rx \<Rightarrow> utext \<Rightarrow> utext list"
  and rests_seq :: "rx list \<Rightarrow> utext \<Rightarrow> utext list"
  and rests_alt :: "rx list \<Rightarrow> utext \<Rightarrow> utext list" where
  \<comment> \<open>What is left after each way of matching a prefix, in backtracking order.\<close>
  "rests (Lit p) s = strip_lit p s"
| "rests (One P) s = (case s of [] \<Rightarrow> [] | c # r \<Rightarrow> if P c then [r] else [])"
| "rests (Many P) s = greedy P s"
| "rests (Seq rs) s = rests_seq rs s"
| "rests (Alt rs) s = rests_alt rs s"
| "rests (Opt r) s = rests r s @ [s]"
| "rests EndOfText s = (if s = [] then [[]] else [])"
| "rests_seq [] s = [s]"
| "rests_seq (r # rs) s = concat (map (rests_seq rs) (rests r s))"
| "rests_alt [] s = []"
| "rests_alt (r # rs) s = rests r s @ rests_alt rs s"

definition rx_test :: "rx \<Rightarrow> utext \<Rightarrow> bool" where
  \<comment> \<open>\<open>/^.../.test(s)\<close> for an anchored expression.\<close>
  "rx_test r s \<longleftrightarrow> rests r s \<noteq> []"

lemma strip_lit_suffix: "t \<in> set (strip_lit p s) \<Longrightarrow> \<exists>u. s = u @ t \<and> map fold_case u = map fold_case p"
proof (induction p s rule: strip_lit.induct)
  case (3 p ps c s)
  then obtain u where "s = u @ t" and "map fold_case u = map fold_case ps"
    by (auto split: if_splits)
  with "3.prems" show ?case
    by (intro exI [of _ "c # u"]) (auto split: if_splits)
qed auto

lemma greedy_suffix: "t \<in> set (greedy P s) \<Longrightarrow> \<exists>u. s = u @ t \<and> (\<forall>c \<in> set u. P c)"
proof (induction s)
  case (Cons c s)
  then show ?case
  proof (cases "P c \<and> t \<in> set (greedy P s)")
    case True
    with Cons.IH obtain u where "s = u @ t" "\<forall>c \<in> set u. P c" by auto
    with True show ?thesis by (intro exI [of _ "c # u"]) auto
  next
    case False
    with Cons.prems have "t = c # s" by (auto split: if_splits)
    then show ?thesis by auto
  qed
qed auto

lemma rests_suffix:
  "t \<in> set (rests r s) \<Longrightarrow> \<exists>u. s = u @ t"
  "t \<in> set (rests_seq rs s) \<Longrightarrow> \<exists>u. s = u @ t"
  "t \<in> set (rests_alt rs s) \<Longrightarrow> \<exists>u. s = u @ t"
proof (induction r s and rs s and rs s arbitrary: t and t and t rule: rests_rests_seq_rests_alt.induct)
  case (2 P s)
  then show ?case by (cases s) (auto split: if_splits)
next
  case (9 r rs s)
  then obtain m where m: "m \<in> set (rests r s)" "t \<in> set (rests_seq rs m)" by auto
  with "9.IH" obtain u v where "s = u @ m" "m = v @ t" by blast
  then show ?case by auto
qed (auto dest: strip_lit_suffix greedy_suffix split: if_splits)

section \<open>Literals of the command grammar\<close>

definition ru_status :: utext where
  "ru_status = [1089, 1090, 1072, 1090, 1091, 1089]"

definition ru_kak_tam :: utext where
  "ru_kak_tam = [1082, 1072, 1082, 32, 1090, 1072, 1084]"

definition ru_tam :: utext where
  "ru_tam = [32, 1090, 1072, 1084]"

definition ru_stop :: utext where
  "ru_stop = [1089, 1090, 1086, 1087]"

definition ru_otmeni :: utext where
  "ru_otmeni = [1086, 1090, 1084, 1077, 1085, 1080]"

definition ru_isprav :: utext where
  "ru_isprav = [1080, 1089, 1087, 1088, 1072, 1074, 1100]"

definition ru_poprav :: utext where
  "ru_poprav = [1087, 1086, 1087, 1088, 1072, 1074, 1100]"

definition ru_otvet_zdes :: utext where
  "ru_otvet_zdes = [1086, 1090, 1074, 1077, 1090, 1100, 32, 1079, 1076, 1077, 1089, 1100]"

definition ru_v_ishodny_chat :: utext where
  "ru_v_ishodny_chat = [1074, 32, 1080, 1089, 1093, 1086, 1076, 1085, 1099, 1081, 32, 1095, 1072, 1090]"

definition bro_prefix :: utext where
  "bro_prefix = [47, 1073, 1088, 1086]"

definition ru_davai :: utext where
  "ru_davai = [1076, 1072, 1074, 1072, 1081]"

definition ru_tolko :: utext where
  "ru_tolko = [1090, 1086, 1083, 1100, 1082, 1086]"

definition ru_et :: utext where
  "ru_et = [1101, 1090]"

definition ru_proveryai :: utext where
  "ru_proveryai = [1087, 1088, 1086, 1074, 1077, 1088, 1103, 1081]"

definition ru_proveryat :: utext where
  "ru_proveryat = [1087, 1088, 1086, 1074, 1077, 1088, 1103, 1090, 1100]"

definition ru_svodku :: utext where
  "ru_svodku = [1089, 1074, 1086, 1076, 1082, 1091]"

definition ru_svodka :: utext where
  "ru_svodka = [1089, 1074, 1086, 1076, 1082, 1072]"

definition ru_obnovlyai :: utext where
  "ru_obnovlyai = [1086, 1073, 1085, 1086, 1074, 1083, 1103, 1081]"

definition ru_obnovlyat :: utext where
  "ru_obnovlyat = [1086, 1073, 1085, 1086, 1074, 1083, 1103, 1090, 1100]"

definition ru_raz :: utext where
  "ru_raz = [1088, 1072, 1079]"

definition ru_v :: utext where
  "ru_v = [1074]"

definition ru_paru :: utext where
  "ru_paru = [1087, 1072, 1088, 1091]"

definition ru_dva :: utext where
  "ru_dva = [1076, 1074, 1072]"

definition ru_dve :: utext where
  "ru_dve = [1076, 1074, 1077]"

definition ru_tri :: utext where
  "ru_tri = [1090, 1088, 1080]"

definition ru_chetyre :: utext where
  "ru_chetyre = [1095, 1077, 1090, 1099, 1088, 1077]"

definition ru_pyat :: utext where
  "ru_pyat = [1087, 1103, 1090, 1100]"

definition ru_shest :: utext where
  "ru_shest = [1096, 1077, 1089, 1090, 1100]"

definition ru_chas :: utext where
  "ru_chas = [1095, 1072, 1089]"

definition ru_a :: utext where
  "ru_a = [1072]"

definition ru_ov :: utext where
  "ru_ov = [1086, 1074]"

definition ru_minut :: utext where
  "ru_minut = [1084, 1080, 1085, 1091, 1090]"

definition ru_u :: utext where
  "ru_u = [1091]"

definition ru_y :: utext where
  "ru_y = [1099]"

definition ru_d :: utext where
  "ru_d = [1076]"

definition ru_n :: utext where
  "ru_n = [1085]"

definition ru_dn :: utext where
  "ru_dn = [1076, 1085]"

definition ru_ya :: utext where
  "ru_ya = [1103]"

definition ru_ei :: utext where
  "ru_ei = [1077, 1081]"

definition ru_o :: utext where
  "ru_o = [1086]"

definition ack_text :: utext where
  "ack_text = [55358, 56598, 32, 1053, 1077, 1081, 1088, 1086, 1073, 1088, 1072, 1090, 1080, 1082, 10, 10, 1055, 1086, 1085, 1103, 1083, 44, 32, 1073, 1088, 1086, 46, 32, 1057, 1077, 1081, 1095, 1072, 1089, 32, 1075, 1083, 1103, 1085, 1091, 46]"

definition brand_head :: utext where
  "brand_head = [55358, 56598, 32, 1053, 1077, 1081, 1088, 1086, 1073, 1088, 1072, 1090, 1080, 1082]"

definition attach_text :: utext where
  "attach_text = [1056, 1072, 1079, 1073, 1077, 1088, 1080, 32, 1087, 1088, 1080, 1083, 1086, 1078, 1077, 1085, 1085, 1099, 1081, 32, 1084, 1072, 1090, 1077, 1088, 1080, 1072, 1083, 46]"

definition stale_reason :: utext where
  "stale_reason = [1041, 1086, 1083, 1077, 1077, 32, 1085, 1086, 1074, 1086, 1077, 32, 1091, 1090, 1086, 1095, 1085, 1077, 1085, 1080, 1077, 32, 1091, 1078, 1077, 32, 1089, 1086, 1093, 1088, 1072, 1085, 1077, 1085, 1086, 59, 32, 1087, 1088, 1077, 1078, 1085, 1103, 1103, 32, 1088, 1077, 1076, 1072, 1082, 1094, 1080, 1103, 32, 1085, 1077, 32, 1087, 1088, 1080, 1084, 1077, 1085, 1103, 1077, 1090, 1089, 1103, 46]"

definition quoted_reason :: utext where
  "quoted_reason = [1062, 1080, 1090, 1072, 1090, 1072, 32, 1080, 1083, 1080, 32, 1082, 1086, 1076, 32, 1085, 1077, 32, 1103, 1074, 1083, 1103, 1077, 1090, 1089, 1103, 32, 1087, 1088, 1103, 1084, 1099, 1084, 32, 1087, 1086, 1088, 1091, 1095, 1077, 1085, 1080, 1077, 1084, 32, 1074, 1083, 1072, 1076, 1077, 1083, 1100, 1094, 1072, 46]"

definition cadence_reason :: utext where
  "cadence_reason = [1054, 1090, 1074, 1077, 1090, 1100, 32, 1085, 1072, 32, 1089, 1086, 1086, 1073, 1097, 1077, 1085, 1080, 1077, 32, 1086, 32, 1085, 1091, 1078, 1085, 1086, 1081, 32, 1079, 1072, 1076, 1072, 1095, 1077, 44, 32, 1095, 1090, 1086, 1073, 1099, 32, 1091, 1090, 1086, 1095, 1085, 1080, 1090, 1100, 32, 1077, 1105, 32, 1087, 1077, 1088, 1080, 1086, 1076, 46]"

definition part_mark :: utext where
  "part_mark = [32, 183, 32]"

end
