(* ===== verification/Json.thy ===== *)
theory Json
  imports JsText "HOL-Library.List_Lexorder"
begin

text \<open>
  JSON values, the text \<open>JSON.stringify\<close> gives for strings and integers, and the canonical
  printer of the effect broker (\<open>core/broker.ts\<close>, \<open>canonicalJson\<close>): object keys in
  code-unit order, no white space, refusal of non-finite numbers. The lemmas show that the
  printer is unambiguous: two values print to the same text exactly when they differ only in
  the order of object keys.
\<close>

datatype json =
    JNull
  | JBool bool
  | JInt int             \<comment> \<open>an integer that \<open>Number.prototype.toString\<close> prints in full\<close>
  | JDec utext           \<comment> \<open>any other finite number, by the text it prints as\<close>
  | JNonFinite
  | JStr utext
  | JArr "json list"
  | JObj "(utext \<times> json) list"

section \<open>Strings and numbers\<close>

definition hexd :: "nat \<Rightarrow> nat" where
  "hexd n = (if n < 10 then 48 + n else 87 + n)"

definition unhexd :: "nat \<Rightarrow> nat" where
  "unhexd d = (if d < 58 then d - 48 else d - 87)"

definition hex4 :: "nat \<Rightarrow> utext" where
  "hex4 c = [hexd (c div 4096), hexd (c div 256 mod 16), hexd (c div 16 mod 16), hexd (c mod 16)]"

definition esc_unit :: "nat \<Rightarrow> utext" where
  "esc_unit c =
     (if c = 34 then [92, 34] else if c = 92 then [92, 92]
      else if c = 8 then [92, 98] else if c = 12 then [92, 102] else if c = 10 then [92, 110]
      else if c = 13 then [92, 114] else if c = 9 then [92, 116]
      else if c < 32 \<or> (55296 \<le> c \<and> c \<le> 57343) then 92 # 117 # hex4 c
      else [c])"

fun json_units :: "utext \<Rightarrow> utext" where
  "json_units [] = []"
| "json_units [a] = esc_unit a"
| "json_units (a # b # r) =
     (if is_high a \<and> is_low b then a # b # json_units r else esc_unit a @ json_units (b # r))"

definition json_string :: "utext \<Rightarrow> utext" where
  "json_string s = 34 # json_units s @ [34]"

fun show_nat :: "nat \<Rightarrow> utext" where
  "show_nat n = (if n < 10 then [48 + n] else show_nat (n div 10) @ [48 + n mod 10])"

declare show_nat.simps [simp del]

definition show_int :: "int \<Rightarrow> utext" where
  "show_int i = (if i < 0 then 45 # show_nat (nat (- i)) else show_nat (nat i))"

definition num_char :: "nat \<Rightarrow> bool" where
  "num_char c \<longleftrightarrow> (48 \<le> c \<and> c \<le> 57) \<or> c = 43 \<or> c = 45 \<or> c = 46 \<or> c = 101"

section \<open>The canonical printer\<close>

fun join :: "utext list \<Rightarrow> utext" where
  "join [] = []"
| "join [p] = p"
| "join (p # q # ps) = p @ 44 # join (q # ps)"

fun canonicalJson :: "json \<Rightarrow> utext option" where
  \<comment> \<open>None is the TypeError for a non-finite number.\<close>
  "canonicalJson JNull = Some (js ''null'')"
| "canonicalJson (JBool b) = Some (if b then js ''true'' else js ''false'')"
| "canonicalJson (JInt i) = Some (show_int i)"
| "canonicalJson (JDec t) = Some t"
| "canonicalJson JNonFinite = None"
| "canonicalJson (JStr s) = Some (json_string s)"
| "canonicalJson (JArr vs) =
     map_option (\<lambda>ps. 91 # join ps @ [93]) (opt_all (map canonicalJson vs))"
| "canonicalJson (JObj kvs) =
     map_option (\<lambda>ps. 123 # join ps @ [125])
       (opt_all (map (\<lambda>(k, po). map_option (\<lambda>p. json_string k @ 58 # p) po)
          (sort_key fst (map (\<lambda>(k, v). (k, canonicalJson v)) kvs))))"

fun norm :: "json \<Rightarrow> json" where
  \<comment> \<open>The value with the entries of every object in key order.\<close>
  "norm (JArr vs) = JArr (map norm vs)"
| "norm (JObj kvs) = JObj (sort_key fst (map (\<lambda>(k, v). (k, norm v)) kvs))"
| "norm v = v"

fun json_wf :: "json \<Rightarrow> bool" where
  \<comment> \<open>What a JavaScript value satisfies: property names are distinct, and a number that is not
     printed as an integer shows a decimal point or an exponent.\<close>
  "json_wf (JDec t) =
     (t \<noteq> [] \<and> (\<forall>c \<in> set t. num_char c) \<and> (46 \<in> set t \<or> 101 \<in> set t))"
| "json_wf (JArr vs) = (\<forall>v \<in> set vs. json_wf v)"
| "json_wf (JObj kvs) = (distinct (map fst kvs) \<and> (\<forall>(k, v) \<in> set kvs. json_wf v))"
| "json_wf v = True"

section \<open>Strings are read back uniquely\<close>

definition hex_value :: "nat \<Rightarrow> nat \<Rightarrow> nat \<Rightarrow> nat \<Rightarrow> nat" where
  "hex_value h1 h2 h3 h4 =
     ((unhexd h1 * 16 + unhexd h2) * 16 + unhexd h3) * 16 + unhexd h4"

fun read_string :: "utext \<Rightarrow> (utext \<times> utext) option" where
  "read_string [] = None"
| "read_string (c # r) =
     (if c = 34 then Some ([], r)
      else if c = 92 then
        (case r of
           [] \<Rightarrow> None
         | e # r' \<Rightarrow>
             if e = 117 then
               (case r' of
                  h1 # h2 # h3 # h4 # r'' \<Rightarrow>
                    map_option (\<lambda>(s, t). (hex_value h1 h2 h3 h4 # s, t)) (read_string r'')
                | _ \<Rightarrow> None)
             else map_option (\<lambda>(s, t).
               ((if e = 98 then 8 else if e = 102 then 12 else if e = 110 then 10
                 else if e = 114 then 13 else if e = 116 then 9 else e) # s, t)) (read_string r'))
      else map_option (\<lambda>(s, t). (c # s, t)) (read_string r))"

declare read_string.simps [simp del]

lemma unhexd_hexd: "n < 16 \<Longrightarrow> unhexd (hexd n) = n"
  by (auto simp: unhexd_def hexd_def)

lemma hex4_value:
  assumes "c < 65536" "hex4 c = [h1, h2, h3, h4]"
  shows "hex_value h1 h2 h3 h4 = c"
proof -
  have "c div 4096 < 16" using assms(1) by simp
  then have "unhexd h1 = c div 4096" "unhexd h2 = c div 256 mod 16"
    "unhexd h3 = c div 16 mod 16" "unhexd h4 = c mod 16"
    using assms(2) by (auto simp: hex4_def unhexd_hexd)
  moreover have "c div 256 = c div 16 div 16" "c div 4096 = c div 16 div 16 div 16"
    by (simp_all add: div_mult2_eq [symmetric])
  moreover have "16 * (c div 16) + c mod 16 = c"
    "16 * (c div 16 div 16) + c div 16 mod 16 = c div 16"
    "16 * (c div 16 div 16 div 16) + c div 16 div 16 mod 16 = c div 16 div 16"
    by (simp_all only: mult_div_mod_eq)
  ultimately show ?thesis by (simp add: hex_value_def)
qed

lemma read_plain:
  "c \<noteq> 34 \<Longrightarrow> c \<noteq> 92 \<Longrightarrow> read_string (c # r) = map_option (\<lambda>(s, t). (c # s, t)) (read_string r)"
  by (subst read_string.simps) simp

lemma read_esc_unit:
  "read_string (esc_unit c @ r) = map_option (\<lambda>(s, t). (c # s, t)) (read_string r)"
proof (cases "c \<in> {34, 92, 8, 12, 10, 13, 9}")
  case True
  then show ?thesis
    by (auto simp: esc_unit_def read_string.simps(2) [of 92])
next
  case False
  show ?thesis
  proof (cases "c < 32 \<or> (55296 \<le> c \<and> c \<le> 57343)")
    case True
    then have lt: "c < 65536" by auto
    obtain h1 h2 h3 h4 where h: "hex4 c = [h1, h2, h3, h4]" by (simp add: hex4_def)
    from True False have "esc_unit c = [92, 117, h1, h2, h3, h4]"
      by (simp add: esc_unit_def h)
    then show ?thesis
      by (simp add: read_string.simps(2) [of 92] hex4_value [OF lt h])
  next
    case False
    with \<open>c \<notin> _\<close> have "esc_unit c = [c]" by (auto simp: esc_unit_def)
    with \<open>c \<notin> _\<close> show ?thesis by (simp add: read_plain)
  qed
qed

lemma read_json_units: "read_string (json_units s @ 34 # r) = Some (s, r)"
proof (induction s rule: json_units.induct)
  case 1
  then show ?case by (simp add: read_string.simps(2) [of 34])
next
  case (2 a)
  then show ?case by (simp add: read_esc_unit read_string.simps(2) [of 34])
next
  case (3 a b r')
  show ?case
  proof (cases "is_high a \<and> is_low b")
    case True
    then have "a \<noteq> 34" "a \<noteq> 92" "b \<noteq> 34" "b \<noteq> 92" by (auto simp: is_high_def is_low_def)
    with True 3 show ?thesis by (simp add: read_plain)
  next
    case False
    then have "json_units (a # b # r') = esc_unit a @ json_units (b # r')" by auto
    with "3.IH"(2) [OF False] show ?thesis by (simp add: read_esc_unit)
  qed
qed

lemma json_string_unique:
  assumes "json_string s @ r = json_string t @ r'"
  shows "s = t \<and> r = r'"
proof -
  from assms have "json_units s @ 34 # r = json_units t @ 34 # r'"
    by (simp add: json_string_def)
  then have "Some (s, r) = Some (t, r')"
    using read_json_units [of s r] read_json_units [of t r'] by metis
  then show ?thesis by simp
qed

section \<open>Integers are read back uniquely\<close>

lemma show_nat_nonempty: "show_nat n \<noteq> []"
  by (subst show_nat.simps) simp

lemma show_nat_digits: "c \<in> set (show_nat n) \<Longrightarrow> 48 \<le> c \<and> c \<le> 57"
proof (induction n rule: show_nat.induct)
  case (1 n)
  show ?case
  proof (cases "n < 10")
    case True
    with "1.prems" show ?thesis by (simp add: show_nat.simps [of n])
  next
    case False
    with "1.prems" have "c \<in> set (show_nat (n div 10)) \<or> c = 48 + n mod 10"
      by (auto simp: show_nat.simps [of n])
    moreover have "n mod 10 < 10" by simp
    ultimately show ?thesis using "1.IH" [OF False] by linarith
  qed
qed

fun read_nat :: "utext \<Rightarrow> nat \<Rightarrow> nat" where
  "read_nat [] acc = acc"
| "read_nat (c # r) acc = read_nat r (acc * 10 + (c - 48))"

lemma read_nat_append: "read_nat (p @ q) acc = read_nat q (read_nat p acc)"
  by (induction p arbitrary: acc) auto

lemma read_show_nat: "read_nat (show_nat n) 0 = n"
proof (induction n rule: show_nat.induct)
  case (1 n)
  then show ?case
    by (cases "n < 10") (simp_all add: show_nat.simps [of n] read_nat_append)
qed

lemma show_nat_inj: "show_nat m = show_nat n \<Longrightarrow> m = n"
  by (metis read_show_nat)

lemma show_int_chars: "c \<in> set (show_int i) \<Longrightarrow> num_char c \<and> c \<noteq> 46 \<and> c \<noteq> 101"
  by (auto simp: show_int_def num_char_def dest: show_nat_digits split: if_splits)

lemma show_int_nonempty: "show_int i \<noteq> []"
  by (simp add: show_int_def show_nat_nonempty)

lemma show_int_inj: "show_int i = show_int j \<Longrightarrow> i = j"
proof -
  have neg: "45 # show_nat m \<noteq> show_nat n" for m n
  proof
    assume "45 # show_nat m = show_nat n"
    then have "45 \<in> set (show_nat n)" by (metis list.set_intros(1))
    then show False using show_nat_digits [of 45 n] by simp
  qed
  assume eq: "show_int i = show_int j"
  show "i = j"
  proof (cases "i < 0"; cases "j < 0")
    assume "i < 0" "j < 0"
    with eq have "nat (- i) = nat (- j)" by (auto simp: show_int_def dest: show_nat_inj)
    with \<open>i < 0\<close> \<open>j < 0\<close> show ?thesis by simp
  next
    assume "\<not> i < 0" "\<not> j < 0"
    with eq have "nat i = nat j" by (auto simp: show_int_def dest: show_nat_inj)
    with \<open>\<not> i < 0\<close> \<open>\<not> j < 0\<close> show ?thesis by simp
  next
    assume "i < 0" "\<not> j < 0"
    with eq neg show ?thesis by (simp add: show_int_def)
  next
    assume "\<not> i < 0" "j < 0"
    with eq neg [symmetric] show ?thesis by (simp add: show_int_def)
  qed
qed

lemma num_unique:
  assumes "p @ r = q @ s" and "\<forall>c \<in> set p. num_char c" and "\<forall>c \<in> set q. num_char c"
    and "r = [] \<or> \<not> num_char (hd r)" and "s = [] \<or> \<not> num_char (hd s)"
  shows "p = q \<and> r = s"
proof -
  have "takeWhile num_char (p @ r) = p" using assms(2,4) by (cases r) auto
  moreover have "takeWhile num_char (q @ s) = q" using assms(3,5) by (cases s) auto
  ultimately show ?thesis using assms(1) by simp
qed

section \<open>The canonical text determines the value up to key order\<close>

definition closing :: "utext \<Rightarrow> bool" where
  "closing r \<longleftrightarrow> r = [] \<or> hd r \<in> {44, 93, 125}"

text \<open>
  A printer of list items with what makes a joined list of them readable: an item is
  determined by any text it starts, and no item starts with a separator.
\<close>

locale item_printer =
  fixes pr :: "'x \<Rightarrow> utext option" and nf :: "'x \<Rightarrow> 'y" and ok :: "'x \<Rightarrow> bool"
    and good :: "'x \<Rightarrow> bool"
  assumes unique: "good x \<Longrightarrow> ok y \<Longrightarrow> pr x = Some p \<Longrightarrow> pr y = Some q \<Longrightarrow> p @ r = q @ s \<Longrightarrow>
      closing r \<Longrightarrow> closing s \<Longrightarrow> nf x = nf y \<and> r = s"
    and starts: "ok y \<Longrightarrow> pr y = Some q \<Longrightarrow> q \<noteq> [] \<and> hd q \<notin> {44, 93, 125}"
    and good_ok: "good x \<Longrightarrow> ok x"
begin

lemma join_head:
  assumes "map pr ys = map Some qs" "\<forall>y \<in> set ys. ok y" "ys \<noteq> []"
  shows "\<exists>q t. join qs = q @ t \<and> q \<noteq> [] \<and> hd q \<notin> {44, 93, 125}"
proof -
  from assms obtain y ys' q qs' where "ys = y # ys'" "qs = q # qs'" "pr y = Some q"
    by (cases ys; cases qs) auto
  moreover from this assms have "q \<noteq> [] \<and> hd q \<notin> {44, 93, 125}" using starts by auto
  moreover have "\<exists>t. join (q # qs') = q @ t" by (cases qs') auto
  ultimately show ?thesis by blast
qed

lemma join_not_closing:
  assumes "map pr ys = map Some qs" "\<forall>y \<in> set ys. ok y" "ys \<noteq> []" "e \<in> {93, 125}"
  shows "e # r \<noteq> join qs @ s"
proof
  assume eq: "e # r = join qs @ s"
  obtain q t where "join qs = q @ t" "q \<noteq> []" "hd q \<notin> {44, 93, 125}"
    using join_head [OF assms(1-3)] by blast
  with eq assms(4) show False by (cases q) auto
qed

lemma join_unique:
  assumes "map pr xs = map Some ps" "map pr ys = map Some qs"
    and "\<forall>x \<in> set xs. good x" "\<forall>y \<in> set ys. ok y"
    and "join ps @ e # r = join qs @ e # s" "e \<in> {93, 125}"
  shows "map nf xs = map nf ys \<and> r = s"
  using assms
proof (induction xs arbitrary: ps ys qs)
  case Nil
  show ?case
  proof (cases ys)
    case Nil
    with Nil.prems show ?thesis by auto
  next
    case (Cons y ys')
    then have "ys \<noteq> []" by simp
    from join_not_closing [OF Nil.prems(2,4) this Nil.prems(6), of r "e # s"] Nil.prems(1,5)
    show ?thesis by simp
  qed
next
  case (Cons x xs)
  then obtain p ps' where ps: "ps = p # ps'" "pr x = Some p" "map pr xs = map Some ps'"
    by (cases ps) auto
  have oks: "\<forall>x \<in> set (x # xs). ok x" using Cons.prems(3) good_ok by blast
  show ?case
  proof (cases ys)
    case Nil
    with Cons.prems(2) have "qs = []" by simp
    with join_not_closing [OF Cons.prems(1) oks _ Cons.prems(6), of s "e # r"] Cons.prems(5)
    show ?thesis by simp
  next
    case (Cons y ys')
    with \<open>map pr ys = map Some qs\<close> obtain q qs' where
      qs: "qs = q # qs'" "pr y = Some q" "map pr ys' = map Some qs'"
      by (cases qs) auto
    define P where "P = (if ps' = [] then e # r else 44 # join ps' @ e # r)"
    define Q where "Q = (if qs' = [] then e # s else 44 # join qs' @ e # s)"
    have "join ps @ e # r = p @ P" by (cases ps') (auto simp: ps P_def)
    moreover have "join qs @ e # s = q @ Q" by (cases qs') (auto simp: qs Q_def)
    ultimately have eq: "p @ P = q @ Q" using Cons.prems(5) by simp
    have cl: "closing P" "closing Q" using Cons.prems(6) by (auto simp: closing_def P_def Q_def)
    have "good x" "ok y" using Cons.prems(3,4) \<open>ys = y # ys'\<close> by auto
    from unique [OF this ps(2) qs(2) eq cl] have "nf x = nf y" "P = Q" by auto
    show ?thesis
    proof (cases "ps' = []")
      case True
      with \<open>P = Q\<close> Cons.prems(6) have "qs' = []" "r = s" by (auto simp: P_def Q_def split: if_splits)
      with True ps qs \<open>nf x = nf y\<close> \<open>ys = y # ys'\<close> show ?thesis by auto
    next
      case False
      with \<open>P = Q\<close> Cons.prems(6) have "qs' \<noteq> []" "join ps' @ e # r = join qs' @ e # s"
        by (auto simp: P_def Q_def split: if_splits)
      with Cons.IH [OF ps(3) qs(3)] Cons.prems(3,4,6) \<open>ys = y # ys'\<close> \<open>nf x = nf y\<close>
      show ?thesis by simp
    qed
  qed
qed

end

subsection \<open>Heads of printed values\<close>

fun head_ok :: "json \<Rightarrow> nat \<Rightarrow> bool" where
  "head_ok JNull c = (c = 110)"
| "head_ok (JBool b) c = (c = (if b then 116 else 102))"
| "head_ok (JInt i) c = num_char c"
| "head_ok (JDec t) c = num_char c"
| "head_ok JNonFinite c = False"
| "head_ok (JStr s) c = (c = 34)"
| "head_ok (JArr vs) c = (c = 91)"
| "head_ok (JObj kvs) c = (c = 123)"

lemma canon_head:
  assumes "canonicalJson v = Some p" "json_wf v"
  shows "\<exists>c p'. p = c # p' \<and> head_ok v c"
proof (cases v)
  case (JInt i)
  then have p: "p = show_int i" using assms by simp
  obtain c p' where "show_int i = c # p'"
    using show_int_nonempty [of i] by (cases "show_int i") auto
  with p have "p = c # p'" by simp
  moreover from this p have "num_char c" using show_int_chars [of c i] by simp
  ultimately show ?thesis using JInt by simp
next
  case (JDec t)
  then show ?thesis using assms by (cases t) auto
qed (use assms in \<open>auto simp: json_string_def\<close>)

lemma head_not_closing: "head_ok v c \<Longrightarrow> c \<notin> {44, 93, 125}"
  by (cases v) (auto simp: num_char_def)

lemma canon_starts:
  assumes "json_wf v" "canonicalJson v = Some p"
  shows "p \<noteq> [] \<and> hd p \<notin> {44, 93, 125}"
  using canon_head [OF assms(2,1)] head_not_closing by auto

definition pr_entry :: "utext \<times> json \<Rightarrow> utext option" where
  "pr_entry kv = map_option (\<lambda>p. json_string (fst kv) @ 58 # p) (canonicalJson (snd kv))"

lemma insort_map:
  "insort_key fst (k, f v) (map (\<lambda>(k, v). (k, f v)) xs) =
     map (\<lambda>(k, v). (k, f v)) (insort_key fst (k, v) xs)"
  by (induction xs) auto

lemma sort_key_map:
  "sort_key fst (map (\<lambda>(k, v). (k, f v)) xs) = map (\<lambda>(k, v). (k, f v)) (sort_key fst xs)"
proof (induction xs)
  case (Cons x xs)
  then show ?case
    by (cases x) (simp only: list.map sort_key_simps prod.case insort_map)
qed simp

lemma canonicalJson_JObj:
  "canonicalJson (JObj kvs) =
     map_option (\<lambda>ps. 123 # join ps @ [125]) (opt_all (map pr_entry (sort_key fst kvs)))"
proof -
  have "pr_entry = (\<lambda>(k, v). map_option (\<lambda>p. json_string k @ 58 # p) (canonicalJson v))"
    by (rule ext) (simp add: pr_entry_def case_prod_beta)
  show ?thesis
    unfolding canonicalJson.simps(8) sort_key_map \<open>pr_entry = _\<close>
    by (simp add: comp_def case_prod_unfold)
qed

lemma norm_JObj: "norm (JObj kvs) = JObj (map (\<lambda>(k, v). (k, norm v)) (sort_key fst kvs))"
  by (simp add: sort_key_map)

declare canonicalJson.simps(8) [simp del] norm.simps(2) [simp del]

definition canon_unique_at :: "json \<Rightarrow> bool" where
  "canon_unique_at v \<longleftrightarrow> json_wf v \<and>
     (\<forall>w p q r s. json_wf w \<longrightarrow> canonicalJson v = Some p \<longrightarrow> canonicalJson w = Some q \<longrightarrow>
        p @ r = q @ s \<longrightarrow> closing r \<longrightarrow> closing s \<longrightarrow> norm v = norm w \<and> r = s)"

lemma canon_uniqueD:
  assumes "canon_unique_at v" "json_wf w" "canonicalJson v = Some p" "canonicalJson w = Some q"
    "p @ r = q @ s" "closing r" "closing s"
  shows "norm v = norm w \<and> r = s"
  using assms unfolding canon_unique_at_def by blast

lemma array_items: "item_printer canonicalJson norm json_wf canon_unique_at"
proof unfold_locales
  fix x y p q r s
  assume "canon_unique_at x" "json_wf y" "canonicalJson x = Some p" "canonicalJson y = Some q"
    "p @ r = q @ s" "closing r" "closing s"
  then show "norm x = norm y \<and> r = s" by (rule canon_uniqueD)
next
  fix y q
  assume "json_wf y" "canonicalJson y = Some q"
  then show "q \<noteq> [] \<and> hd q \<notin> {44, 93, 125}" by (rule canon_starts)
next
  fix x
  assume "canon_unique_at x"
  then show "json_wf x" by (simp add: canon_unique_at_def)
qed

lemma object_items:
  "item_printer pr_entry (\<lambda>(k, v). (k, norm v)) (json_wf \<circ> snd) (canon_unique_at \<circ> snd)"
proof unfold_locales
  fix x y p q r s
  assume good: "(canon_unique_at \<circ> snd) x" and ok: "(json_wf \<circ> snd) y"
    and pr: "pr_entry x = Some p" "pr_entry y = Some q"
    and eq: "p @ r = q @ s" and cl: "closing r" "closing s"
  obtain k v l w where xy: "x = (k, v)" "y = (l, w)" by (cases x; cases y) auto
  from pr obtain a b where ab: "canonicalJson v = Some a" "canonicalJson w = Some b"
    "p = json_string k @ 58 # a" "q = json_string l @ 58 # b"
    by (auto simp: xy pr_entry_def)
  with eq have "json_string k @ (58 # a @ r) = json_string l @ (58 # b @ s)" by simp
  then have "k = l \<and> 58 # a @ r = 58 # b @ s" by (rule json_string_unique)
  then have "k = l" "a @ r = b @ s" by auto
  moreover have "canon_unique_at v" "json_wf w" using good ok by (simp_all add: xy)
  ultimately have "norm v = norm w \<and> r = s" using canon_uniqueD ab(1,2) cl by blast
  with \<open>k = l\<close> show "(case x of (k, v) \<Rightarrow> (k, norm v)) = (case y of (k, v) \<Rightarrow> (k, norm v)) \<and> r = s"
    by (simp add: xy)
next
  fix y q
  assume "(json_wf \<circ> snd) y" "pr_entry y = Some q"
  then show "q \<noteq> [] \<and> hd q \<notin> {44, 93, 125}"
    by (auto simp: pr_entry_def json_string_def)
next
  fix x
  assume "(canon_unique_at \<circ> snd) x"
  then show "(json_wf \<circ> snd) x" by (simp add: canon_unique_at_def)
qed

subsection \<open>The induction\<close>

lemma JArr_text:
  "canonicalJson (JArr vs) = Some p \<longleftrightarrow>
     (\<exists>ps. map canonicalJson vs = map Some ps \<and> p = 91 # join ps @ [93])"
  by (auto simp: opt_all_Some_iff)

lemma JObj_text:
  "canonicalJson (JObj kvs) = Some p \<longleftrightarrow>
     (\<exists>ps. map pr_entry (sort_key fst kvs) = map Some ps \<and> p = 123 # join ps @ [125])"
  by (auto simp: canonicalJson_JObj opt_all_Some_iff)

lemma canon_same_head:
  assumes "canonicalJson v = Some p" "canonicalJson w = Some q" "json_wf v" "json_wf w"
    "p @ r = q @ s"
  shows "\<exists>c. head_ok v c \<and> head_ok w c"
  using canon_head [OF assms(1,3)] canon_head [OF assms(2,4)] assms(5) by auto

lemma same_shape_JArr: "head_ok (JArr vs) c \<Longrightarrow> head_ok w c \<Longrightarrow> \<exists>ws. w = JArr ws"
  by (cases w) (auto simp: num_char_def split: if_splits)

lemma same_shape_JObj: "head_ok (JObj kvs) c \<Longrightarrow> head_ok w c \<Longrightarrow> \<exists>ws. w = JObj ws"
  by (cases w) (auto simp: num_char_def split: if_splits)

lemma same_shape_JStr: "head_ok (JStr t) c \<Longrightarrow> head_ok w c \<Longrightarrow> \<exists>u. w = JStr u"
  by (cases w) (auto simp: num_char_def split: if_splits)

lemma same_shape_literal:
  "head_ok JNull c \<Longrightarrow> head_ok w c \<Longrightarrow> w = JNull"
  "head_ok (JBool b) c \<Longrightarrow> head_ok w c \<Longrightarrow> w = JBool b"
  by (cases w; auto simp: num_char_def split: if_splits)+

lemma same_shape_number:
  "head_ok v c \<Longrightarrow> head_ok w c \<Longrightarrow> v = JInt i \<or> v = JDec t \<Longrightarrow> \<exists>j u. w = JInt j \<or> w = JDec u"
  by (cases w; cases v) (auto simp: num_char_def split: if_splits)

lemma closing_not_num: "closing r \<Longrightarrow> r = [] \<or> \<not> num_char (hd r)"
  by (auto simp: closing_def num_char_def)

lemma canon_num_chars:
  "canonicalJson (JInt i) = Some p \<Longrightarrow> \<forall>c \<in> set p. num_char c"
  "canonicalJson (JDec t) = Some p \<Longrightarrow> json_wf (JDec t) \<Longrightarrow> \<forall>c \<in> set p. num_char c"
  by (auto dest: show_int_chars)

lemma number_unique:
  assumes v: "v = JInt i \<or> v = JDec t" and w: "w = JInt j \<or> w = JDec u"
    and wf: "json_wf v" "json_wf w" and pr: "canonicalJson v = Some p" "canonicalJson w = Some q"
    and eq: "p @ r = q @ s" "closing r" "closing s"
  shows "norm v = norm w \<and> r = s"
proof -
  have "\<forall>c \<in> set p. num_char c" "\<forall>c \<in> set q. num_char c"
    using v w wf pr by (auto dest: show_int_chars)
  from num_unique [OF eq(1) this closing_not_num [OF eq(2)] closing_not_num [OF eq(3)]]
  have pq: "p = q" "r = s" by auto
  from v w wf pr pq(1) have "v = w"
    by (auto dest: show_int_inj show_int_chars)
  with pq show ?thesis by simp
qed

lemma int_wf: "json_wf (JInt i)" and bool_wf: "json_wf (JBool b)"
  by simp_all

lemma canon_unique: "json_wf v \<Longrightarrow> canon_unique_at v"
proof (induction v)
  case (JArr vs)
  then have good: "\<forall>v \<in> set vs. canon_unique_at v" by simp
  show ?case
    unfolding canon_unique_at_def
  proof (intro conjI allI impI)
    show "json_wf (JArr vs)" by fact
    fix w p q r s
    assume w: "json_wf w" and pr: "canonicalJson (JArr vs) = Some p" "canonicalJson w = Some q"
      and eq: "p @ r = q @ s" and cl: "closing r" "closing s"
    obtain ws where ws: "w = JArr ws"
      using canon_same_head [OF pr \<open>json_wf (JArr vs)\<close> w eq] same_shape_JArr by blast
    obtain ps qs where ps: "map canonicalJson vs = map Some ps" "p = 91 # join ps @ [93]"
      and qs: "map canonicalJson ws = map Some qs" "q = 91 # join qs @ [93]"
      using pr JArr_text unfolding ws by blast
    from w have "\<forall>y \<in> set ws. json_wf y" by (simp add: ws)
    moreover from eq ps qs have "join ps @ 93 # r = join qs @ 93 # s" by simp
    ultimately have "map norm vs = map norm ws \<and> r = s"
      using item_printer.join_unique [OF array_items ps(1) qs(1) good] by blast
    then show "norm (JArr vs) = norm w" "r = s" by (simp_all add: ws)
  qed
next
  case (JObj kvs)
  then have good: "\<forall>x \<in> set (sort_key fst kvs). (canon_unique_at \<circ> snd) x" by fastforce
  show ?case
    unfolding canon_unique_at_def
  proof (intro conjI allI impI)
    show "json_wf (JObj kvs)" by fact
    fix w p q r s
    assume w: "json_wf w" and pr: "canonicalJson (JObj kvs) = Some p" "canonicalJson w = Some q"
      and eq: "p @ r = q @ s" and cl: "closing r" "closing s"
    obtain ws where ws: "w = JObj ws"
      using canon_same_head [OF pr \<open>json_wf (JObj kvs)\<close> w eq] same_shape_JObj by blast
    obtain ps qs where ps: "map pr_entry (sort_key fst kvs) = map Some ps" "p = 123 # join ps @ [125]"
      and qs: "map pr_entry (sort_key fst ws) = map Some qs" "q = 123 # join qs @ [125]"
      using pr JObj_text unfolding ws by blast
    from w have "\<forall>y \<in> set (sort_key fst ws). (json_wf \<circ> snd) y" by (auto simp: ws)
    moreover from eq ps qs have "join ps @ 125 # r = join qs @ 125 # s" by simp
    ultimately have "map (\<lambda>(k, v). (k, norm v)) (sort_key fst kvs) =
        map (\<lambda>(k, v). (k, norm v)) (sort_key fst ws) \<and> r = s"
      using item_printer.join_unique [OF object_items ps(1) qs(1) good] by blast
    then show "norm (JObj kvs) = norm w" "r = s" by (simp_all add: ws norm_JObj)
  qed
next
  case (JStr t)
  show ?case
    unfolding canon_unique_at_def
  proof (intro conjI allI impI)
    fix w p q r s
    assume w: "json_wf w" and pr: "canonicalJson (JStr t) = Some p" "canonicalJson w = Some q"
      and eq: "p @ r = q @ s"
    obtain u where u: "w = JStr u"
      using canon_same_head [OF pr _ w eq] same_shape_JStr by auto
    from pr eq have "json_string t @ r = json_string u @ s" by (simp add: u)
    then have "t = u \<and> r = s" by (rule json_string_unique)
    then show "norm (JStr t) = norm w" "r = s" by (simp_all add: u)
  qed simp
next
  case (JInt i)
  show ?case
    unfolding canon_unique_at_def
  proof (intro conjI allI impI)
    fix w p q r s
    assume w: "json_wf w" and pr: "canonicalJson (JInt i) = Some p" "canonicalJson w = Some q"
      and eq: "p @ r = q @ s" "closing r" "closing s"
    obtain j u where "w = JInt j \<or> w = JDec u"
      using canon_same_head [OF pr int_wf w eq(1)] same_shape_number by blast
    from number_unique [OF disjI1 [OF refl] this int_wf w pr eq] show "norm (JInt i) = norm w" "r = s" by blast+
  qed simp
next
  case (JDec t)
  show ?case
    unfolding canon_unique_at_def
  proof (intro conjI allI impI)
    show "json_wf (JDec t)" by fact
    fix w p q r s
    assume w: "json_wf w" and pr: "canonicalJson (JDec t) = Some p" "canonicalJson w = Some q"
      and eq: "p @ r = q @ s" "closing r" "closing s"
    obtain j u where "w = JInt j \<or> w = JDec u"
      using canon_same_head [OF pr \<open>json_wf (JDec t)\<close> w eq(1)] same_shape_number by blast
    from number_unique [OF disjI2 [OF refl] this \<open>json_wf (JDec t)\<close> w pr eq] show "norm (JDec t) = norm w" "r = s" by blast+
  qed
next
  case JNull
  show ?case
    unfolding canon_unique_at_def
  proof (intro conjI allI impI)
    fix w p q r s
    assume w: "json_wf w" and pr: "canonicalJson JNull = Some p" "canonicalJson w = Some q"
      and eq: "p @ r = q @ s"
    have "w = JNull" using canon_same_head [OF pr _ w eq] same_shape_literal(1) by auto
    with pr eq show "norm JNull = norm w" "r = s" by auto
  qed simp
next
  case (JBool b)
  show ?case
    unfolding canon_unique_at_def
  proof (intro conjI allI impI)
    fix w p q r s
    assume w: "json_wf w" and pr: "canonicalJson (JBool b) = Some p" "canonicalJson w = Some q"
      and eq: "p @ r = q @ s"
    have "w = JBool b" using canon_same_head [OF pr bool_wf w eq] same_shape_literal(2) by blast
    with pr eq show "norm (JBool b) = norm w" "r = s" by auto
  qed simp
next
  case JNonFinite
  show ?case by (simp add: canon_unique_at_def)
qed

text \<open>The two kinds of lists the printer prints, as instances of the printer contract.\<close>

interpretation arrays: item_printer canonicalJson norm json_wf canon_unique_at
  by (rule array_items)

interpretation objects: item_printer pr_entry "\<lambda>(k, v). (k, norm v)" "json_wf \<circ> snd" "canon_unique_at \<circ> snd"
  by (rule object_items)

lemma canonicalJson_unique:
  assumes "json_wf v" "json_wf w" "canonicalJson v = Some p" "canonicalJson w = Some p"
  shows "norm v = norm w"
  using canon_uniqueD [OF canon_unique [OF assms(1)] assms(2-4), of "[]" "[]"]
  by (simp add: closing_def)

lemma canonicalJson_norm: "canonicalJson (norm v) = canonicalJson v"
proof (induction v)
  case (JObj kvs)
  have IH: "canonicalJson (norm v) = canonicalJson v" if "(k, v) \<in> set kvs" for k v
    using JObj.IH [OF that] by simp
  have sorted: "sort_key fst (map (\<lambda>(k, v). (k, norm v)) (sort_key fst kvs)) =
      map (\<lambda>(k, v). (k, norm v)) (sort_key fst kvs)"
    by (simp add: sort_key_map sorted_sort_id sort_key_id_if_sorted)
  have "map pr_entry (map (\<lambda>(k, v). (k, norm v)) (sort_key fst kvs)) = map pr_entry (sort_key fst kvs)"
    using IH by (auto simp: pr_entry_def)
  then show ?case unfolding norm_JObj canonicalJson_JObj sorted by (rule arg_cong)
qed (auto cong: map_cong simp: comp_def)

end
