(* ===== verification/Store.thy ===== *)
theory Store
  imports Json "HOL-Library.AList" "HOL-Library.Countable"
begin

text \<open>
  The encrypted record store of the personal agent (\<open>core/store.ts\<close>).

  Three layers. \<open>rows\<close> is one collection as its SELECT lists it: identifiers with their
  decoded values, in the order of the keyed digest of the identifier. The envelope functions
  translate \<open>encrypt\<close> and \<open>decrypt\<close> over a parameter for AES-256-GCM. \<open>pstore\<close>
  is the store object with its transaction stack, over sealed payloads; \<open>open_store\<close> is
  the constructor. The typed collections the broker and the controller work on
  (theory Contracts) are built from \<open>rows\<close>; what they rely on is the locale
  \<open>keyed_table\<close>, interpreted here on the row operations.
\<close>

declare js_simps [simp del] js_append [simp del] js_inj [simp]

section \<open>Collections as ordered rows\<close>

type_synonym 'v rows = "(utext \<times> 'v) list"

definition kv_get :: "'v rows \<Rightarrow> utext \<Rightarrow> 'v option" where
  "kv_get t k = map_of t k"

fun kv_place :: "(utext \<Rightarrow> nat) \<Rightarrow> utext \<Rightarrow> 'v \<Rightarrow> 'v rows \<Rightarrow> 'v rows" where
  "kv_place ix k v [] = [(k, v)]"
| "kv_place ix k v ((l, w) # t) =
     (if ix k < ix l then (k, v) # (l, w) # t else (l, w) # kv_place ix k v t)"

definition kv_put :: "(utext \<Rightarrow> nat) \<Rightarrow> utext \<Rightarrow> 'v \<Rightarrow> 'v rows \<Rightarrow> 'v rows" where
  \<comment> \<open>INSERT ... ON CONFLICT DO UPDATE.\<close>
  "kv_put ix k v t =
     (if k \<in> fst ` set t then map (\<lambda>(l, w). if l = k then (l, v) else (l, w)) t
      else kv_place ix k v t)"

definition kv_insert :: "(utext \<Rightarrow> nat) \<Rightarrow> utext \<Rightarrow> 'v \<Rightarrow> 'v rows \<Rightarrow> bool \<times> 'v rows" where
  \<comment> \<open>INSERT ... ON CONFLICT DO NOTHING, with \<open>changes === 1\<close>.\<close>
  "kv_insert ix k v t = (if k \<in> fst ` set t then (False, t) else (True, kv_place ix k v t))"

definition kv_delete :: "utext \<Rightarrow> 'v rows \<Rightarrow> 'v rows" where
  "kv_delete k t = filter (\<lambda>(l, w). l \<noteq> k) t"

definition kv_list :: "'v rows \<Rightarrow> 'v list" where
  "kv_list t = map snd t"

definition kv_ok :: "'v rows \<Rightarrow> bool" where
  "kv_ok t \<longleftrightarrow> distinct (map fst t)"

lemma set_kv_place: "set (kv_place ix k v t) = insert (k, v) (set t)"
  by (induction ix k v t rule: kv_place.induct) auto

lemma kv_place_fst: "fst ` set (kv_place ix k v t) = insert k (fst ` set t)"
  by (simp add: set_kv_place)

lemma kv_place_ok: "kv_ok t \<Longrightarrow> k \<notin> fst ` set t \<Longrightarrow> kv_ok (kv_place ix k v t)"
proof (induction ix k v t rule: kv_place.induct)
  case (2 ix k v l w t)
  then have "l \<notin> fst ` set (kv_place ix k v t)"
    unfolding kv_place_fst by (auto simp: kv_ok_def)
  with 2 show ?case by (auto simp: kv_ok_def)
qed (simp add: kv_ok_def)

lemma map_of_kv_place:
  "k \<notin> fst ` set t \<Longrightarrow> map_of (kv_place ix k v t) = (map_of t)(k \<mapsto> v)"
  by (induction ix k v t rule: kv_place.induct) (auto simp: fun_eq_iff)

lemma map_of_replace:
  "k \<in> fst ` set t \<Longrightarrow>
     map_of (map (\<lambda>(l, w). if l = k then (l, v) else (l, w)) t) = (map_of t)(k \<mapsto> v)"
proof (induction t)
  case (Cons x t)
  obtain l w where x: "x = (l, w)" by (cases x)
  show ?case
  proof (cases "k \<in> fst ` set t")
    case True
    with Cons.IH show ?thesis by (auto simp: x fun_eq_iff)
  next
    case False
    then have "map (\<lambda>(l, w). if l = k then (l, v) else (l, w)) t = t"
      by (induction t) auto
    with False Cons.prems show ?thesis by (auto simp: x fun_eq_iff)
  qed
qed simp

lemma kv_get_put: "kv_get (kv_put ix k v t) = (kv_get t)(k \<mapsto> v)"
proof -
  have "kv_get u = map_of u" for u :: "'a rows" by (rule ext) (simp add: kv_get_def)
  then show ?thesis by (simp add: kv_put_def map_of_replace map_of_kv_place)
qed

lemma kv_get_delete: "kv_get (kv_delete k t) l = (if l = k then None else kv_get t l)"
  by (induction t) (auto simp: kv_get_def kv_delete_def)

lemma kv_get_None: "kv_get t k = None \<longleftrightarrow> k \<notin> fst ` set t"
  by (simp add: kv_get_def map_of_eq_None_iff)

lemma kv_insert_fresh:
  "kv_get t k = None \<Longrightarrow> kv_insert ix k v t = (True, kv_put ix k v t)"
  by (simp add: kv_insert_def kv_put_def kv_get_None)

lemma kv_insert_taken:
  "kv_get t k = Some w \<Longrightarrow> kv_insert ix k v t = (False, t)"
proof -
  assume "kv_get t k = Some w"
  then have "k \<in> fst ` set t" by (metis kv_get_None option.distinct(1))
  then show ?thesis by (simp add: kv_insert_def)
qed

lemma kv_put_ok:
  assumes "kv_ok t"
  shows "kv_ok (kv_put ix k v t)"
proof (cases "k \<in> fst ` set t")
  case True
  have "map fst (map (\<lambda>(l, w). if l = k then (l, v) else (l, w)) t) = map fst t"
    by (induction t) auto
  then have "map fst (kv_put ix k v t) = map fst t" unfolding kv_put_def if_P [OF True] .
  with assms show ?thesis by (simp add: kv_ok_def)
next
  case False
  with assms show ?thesis by (simp add: kv_put_def kv_place_ok)
qed

lemma kv_delete_ok: "kv_ok t \<Longrightarrow> kv_ok (kv_delete k t)"
  unfolding kv_ok_def kv_delete_def by (induction t) auto

lemma kv_list_get: "kv_ok t \<Longrightarrow> set (kv_list t) = ran (kv_get t)"
proof -
  assume "kv_ok t"
  then have "ran (map_of t) = snd ` set t" by (simp add: kv_ok_def ran_distinct)
  moreover have "kv_get t = map_of t" by (rule ext) (simp add: kv_get_def)
  ultimately show ?thesis by (simp add: kv_list_def)
qed

section \<open>What the clients of a collection rely on\<close>

locale keyed_table =
  fixes get :: "'t \<Rightarrow> utext \<Rightarrow> 'v option"
    and put :: "utext \<Rightarrow> 'v \<Rightarrow> 't \<Rightarrow> 't"
    and ins :: "utext \<Rightarrow> 'v \<Rightarrow> 't \<Rightarrow> bool \<times> 't"
    and del :: "utext \<Rightarrow> 't \<Rightarrow> 't"
    and entries :: "'t \<Rightarrow> 'v list"
    and ok :: "'t \<Rightarrow> bool"
  assumes get_put: "get (put k v t) = (get t)(k \<mapsto> v)"
    and ins_fresh: "get t k = None \<Longrightarrow> ins k v t = (True, put k v t)"
    and ins_taken: "get t k = Some w \<Longrightarrow> ins k v t = (False, t)"
    and get_del: "get (del k t) l = (if l = k then None else get t l)"
    and put_ok: "ok t \<Longrightarrow> ok (put k v t)"
    and del_ok: "ok t \<Longrightarrow> ok (del k t)"
    and entries_get: "ok t \<Longrightarrow> set (entries t) = ran (get t)"
begin

lemma ins_never_overwrites: "get t k = Some w \<Longrightarrow> get (snd (ins l v t)) k = Some w"
  by (cases "get t l") (auto simp: ins_fresh ins_taken get_put)

lemma ins_claims: "get (snd (ins k v t)) k \<noteq> None"
  by (cases "get t k") (auto simp: ins_fresh ins_taken get_put)

lemma ins_twice: "fst (ins k w (snd (ins k v t))) = False"
proof -
  obtain u where "get (snd (ins k v t)) k = Some u" using ins_claims [of k v t] by auto
  then show ?thesis by (simp add: ins_taken)
qed

lemma ins_ok: "ok t \<Longrightarrow> ok (snd (ins k v t))"
  by (cases "get t k") (auto simp: ins_fresh ins_taken put_ok)

lemma entries_put:
  "ok t \<Longrightarrow> set (entries (put k v t)) \<subseteq> insert v (set (entries t))"
  by (auto simp: entries_get put_ok get_put ran_def split: if_splits)

lemma entries_memI: "ok t \<Longrightarrow> get t k = Some v \<Longrightarrow> v \<in> set (entries t)"
  by (auto simp: entries_get ran_def)

lemma entries_memE: "ok t \<Longrightarrow> v \<in> set (entries t) \<Longrightarrow> \<exists>k. get t k = Some v"
  by (auto simp: entries_get ran_def)

text \<open>A loop that stores a list of changed records.\<close>

lemma get_put_all:
  "get (fold (\<lambda>(k, v). put k v) kvs t) = (get t) ++ map_of (rev kvs)"
proof (induction kvs arbitrary: t)
  case (Cons kv kvs)
  then show ?case
    by (cases kv) (auto simp: get_put map_add_def fun_eq_iff split: option.splits)
qed simp

lemma put_all_ok: "ok t \<Longrightarrow> ok (fold (\<lambda>(k, v). put k v) kvs t)"
  by (induction kvs arbitrary: t) (auto simp: put_ok)

end

interpretation kv: keyed_table kv_get "kv_put ix" "kv_insert ix" kv_delete kv_list kv_ok
  for ix
  by unfold_locales
    (simp_all add: kv_get_put kv_insert_fresh kv_insert_taken kv_get_delete kv_put_ok
      kv_delete_ok kv_list_get)

section \<open>The sealed envelope\<close>

type_synonym bytes = "nat list"

datatype store_error =
    KeyRequired | PathRequired | UnrecognizedSchema | UnsupportedSchema | AuthenticationFailed
  | StoreClosed | AsyncCallback | PromiseResult | CloseInTransaction | EmptyIdentifier
  | NotSerializable
  | Thrown utext              \<comment> \<open>any other exception a transaction callback throws\<close>

text \<open>
  \<open>node:crypto\<close> and the JSON text codec as parameters: \<open>seal key nonce aad plain\<close> is
  the GCM tag and ciphertext, \<open>unseal\<close> its inverse with authentication, \<open>hmac\<close> the
  keyed digest in hex; \<open>stringify\<close> gives None where \<open>JSON.stringify\<close> with the refusing
  replacer throws or returns undefined.
\<close>

record 'v crypto =
  seal :: "bytes \<Rightarrow> bytes \<Rightarrow> utext \<Rightarrow> bytes \<Rightarrow> bytes \<times> bytes"
  unseal :: "bytes \<Rightarrow> bytes \<Rightarrow> utext \<Rightarrow> bytes \<Rightarrow> bytes \<Rightarrow> bytes option"
  hmac :: "bytes \<Rightarrow> utext \<Rightarrow> utext"
  stringify :: "'v \<Rightarrow> bytes option"
  parse :: "bytes \<Rightarrow> 'v option"

definition crypto_laws :: "'v crypto \<Rightarrow> bool" where
  \<comment> \<open>Documented behaviour of the libraries: a 16-byte tag, opening what was sealed under the
     same key, nonce and additional data, and reading back JSON text.\<close>
  "crypto_laws c \<longleftrightarrow>
     (\<forall>k n a m t x. seal c k n a m = (t, x) \<longrightarrow>
        length t = 16 \<and> length x = length m \<and> unseal c k n a t x = Some m) \<and>
     (\<forall>v b. stringify c v = Some b \<longrightarrow> b \<noteq> [] \<and> parse c b = Some v)"

definition encrypt :: "'v crypto \<Rightarrow> bytes \<Rightarrow> bytes \<Rightarrow> 'v \<Rightarrow> utext \<Rightarrow> store_error + bytes" where
  \<comment> \<open>\<open>nonce\<close> is the result of \<open>randomBytes(12)\<close>.\<close>
  "encrypt c key nonce v aad =
     (case stringify c v of
        None \<Rightarrow> Inl NotSerializable
      | Some plain \<Rightarrow>
          (case seal c key nonce aad plain of
             (tag, ciphertext) \<Rightarrow> Inr ([1] @ nonce @ tag @ ciphertext)))"

definition decrypt :: "'v crypto \<Rightarrow> bytes \<Rightarrow> bytes \<Rightarrow> utext \<Rightarrow> store_error + 'v" where
  "decrypt c key blob aad =
     (if length blob < 30 \<or> blob ! 0 \<noteq> 1 then Inl AuthenticationFailed
      else
        (case unseal c key (take 12 (drop 1 blob)) aad (take 16 (drop 13 blob)) (drop 29 blob) of
           None \<Rightarrow> Inl AuthenticationFailed
         | Some plain \<Rightarrow>
             (case parse c plain of
                None \<Rightarrow> Inl AuthenticationFailed
              | Some v \<Rightarrow> Inr v)))"

lemma decrypt_encrypt:
  assumes "crypto_laws c" "length nonce = 12" "encrypt c key nonce v aad = Inr blob"
  shows "decrypt c key blob aad = Inr v"
    and "length blob \<ge> 30"
proof -
  obtain plain where plain: "stringify c v = Some plain"
    using assms(3) by (cases "stringify c v") (auto simp: encrypt_def)
  obtain tag x where tx: "seal c key nonce aad plain = (tag, x)"
    by (cases "seal c key nonce aad plain")
  have laws: "length tag = 16" "length x = length plain" "unseal c key nonce aad tag x = Some plain"
    "plain \<noteq> []" "parse c plain = Some v"
    using assms(1) tx plain unfolding crypto_laws_def by blast+
  have blob: "blob = [1] @ nonce @ tag @ x"
    using assms(3) by (simp add: encrypt_def plain tx)
  show "length blob \<ge> 30" using laws assms(2) by (cases plain) (auto simp: blob)
  then show "decrypt c key blob aad = Inr v"
    using laws assms(2) by (simp add: decrypt_def blob)
qed

section \<open>Locations\<close>

definition index_of :: "'v crypto \<Rightarrow> bytes \<Rightarrow> utext \<Rightarrow> utext \<Rightarrow> store_error + utext" where
  "index_of c key domain value =
     (if value = [] then Inl EmptyIdentifier
      else Inr (hmac c key (js ''personal-agent/store/index/v1/'' @ domain @ [0] @ value)))"

definition location :: "'v crypto \<Rightarrow> bytes \<Rightarrow> utext \<Rightarrow> utext \<Rightarrow> store_error + (utext \<times> utext)" where
  "location c key coll k =
     rbind (index_of c key (js ''collection'') coll) (\<lambda>a.
       rbind (index_of c key (js ''record/'' @ coll) k) (\<lambda>b. Inr (a, b)))"

definition aad :: "utext \<times> utext \<Rightarrow> utext" where
  "aad loc = js ''personal-agent/store/record/v1/'' @ fst loc @ js ''/'' @ snd loc"

section \<open>The store object\<close>

type_synonym table = "((utext \<times> utext) \<times> bytes) list"

record pstore =
  ps_key :: bytes
  ps_table :: table                \<comment> \<open>the rows as the open transaction sees them\<close>
  ps_saved :: "table list"         \<comment> \<open>what each open BEGIN or SAVEPOINT restores\<close>
  ps_closed :: bool
  ps_depth :: nat
  ps_seq :: nat

type_synonym ('v, 'a) store_op = "pstore \<Rightarrow> (store_error + 'a) \<times> pstore"

definition st_get :: "'v crypto \<Rightarrow> utext \<Rightarrow> utext \<Rightarrow> pstore \<Rightarrow> store_error + 'v option" where
  "st_get c coll k st =
     (if ps_closed st then Inl StoreClosed
      else rbind (location c (ps_key st) coll k) (\<lambda>loc.
        (case map_of (ps_table st) loc of
           None \<Rightarrow> Inr None
         | Some blob \<Rightarrow> rbind (decrypt c (ps_key st) blob (aad loc)) (\<lambda>v. Inr (Some v)))))"

definition st_put :: "'v crypto \<Rightarrow> bytes \<Rightarrow> utext \<Rightarrow> utext \<Rightarrow> 'v \<Rightarrow> ('v, unit) store_op" where
  "st_put c nonce coll k v st =
     (if ps_closed st then (Inl StoreClosed, st)
      else
        (case rbind (location c (ps_key st) coll k) (\<lambda>loc.
            rbind (encrypt c (ps_key st) nonce v (aad loc)) (\<lambda>blob. Inr (loc, blob))) of
           Inl e \<Rightarrow> (Inl e, st)
         | Inr (loc, blob) \<Rightarrow> (Inr (), st\<lparr>ps_table := AList.update loc blob (ps_table st)\<rparr>)))"

definition st_insert :: "'v crypto \<Rightarrow> bytes \<Rightarrow> utext \<Rightarrow> utext \<Rightarrow> 'v \<Rightarrow> ('v, bool) store_op" where
  "st_insert c nonce coll k v st =
     (if ps_closed st then (Inl StoreClosed, st)
      else
        (case rbind (location c (ps_key st) coll k) (\<lambda>loc.
            rbind (encrypt c (ps_key st) nonce v (aad loc)) (\<lambda>blob. Inr (loc, blob))) of
           Inl e \<Rightarrow> (Inl e, st)
         | Inr (loc, blob) \<Rightarrow>
             (case map_of (ps_table st) loc of
                Some _ \<Rightarrow> (Inr False, st)
              | None \<Rightarrow> (Inr True, st\<lparr>ps_table := AList.update loc blob (ps_table st)\<rparr>))))"

definition st_delete :: "'v crypto \<Rightarrow> utext \<Rightarrow> utext \<Rightarrow> ('v, unit) store_op" where
  "st_delete c coll k st =
     (if ps_closed st then (Inl StoreClosed, st)
      else
        (case location c (ps_key st) coll k of
           Inl e \<Rightarrow> (Inl e, st)
         | Inr loc \<Rightarrow> (Inr (), st\<lparr>ps_table := AList.delete loc (ps_table st)\<rparr>)))"

definition st_list :: "'v crypto \<Rightarrow> utext \<Rightarrow> pstore \<Rightarrow> store_error + 'v list" where
  "st_list c coll st =
     (if ps_closed st then Inl StoreClosed
      else rbind (index_of c (ps_key st) (js ''collection'') coll) (\<lambda>a.
        rmap (\<lambda>(loc, blob). decrypt c (ps_key st) blob (aad loc))
          (sort_key (snd \<circ> fst) (filter (\<lambda>(loc, blob). fst loc = a) (ps_table st)))))"

definition begin_savepoint :: "pstore \<Rightarrow> pstore" where
  "begin_savepoint st =
     st\<lparr>ps_seq := Suc (ps_seq st), ps_saved := ps_table st # ps_saved st, ps_depth := Suc (ps_depth st)\<rparr>"

definition commit_savepoint :: "pstore \<Rightarrow> pstore" where
  \<comment> \<open>COMMIT or RELEASE: the saved rows are dropped, the current rows stay.\<close>
  "commit_savepoint st = st\<lparr>ps_saved := tl (ps_saved st), ps_depth := ps_depth st - 1\<rparr>"

definition rollback_savepoint :: "pstore \<Rightarrow> pstore" where
  "rollback_savepoint st =
     st\<lparr>ps_table := (case ps_saved st of [] \<Rightarrow> ps_table st | t # _ \<Rightarrow> t),
        ps_saved := tl (ps_saved st), ps_depth := ps_depth st - 1\<rparr>"

definition transaction ::
  "bool \<Rightarrow> ('a \<Rightarrow> bool) \<Rightarrow> ('v, 'a) store_op \<Rightarrow> ('v, 'a) store_op" where
  \<comment> \<open>\<open>is_async\<close> is \<open>types.isAsyncFunction(fn)\<close>; \<open>thenable\<close> recognises a promise result.\<close>
  "transaction is_async thenable fn st =
     (if ps_closed st then (Inl StoreClosed, st)
      else if is_async then (Inl AsyncCallback, st)
      else
        (case fn (begin_savepoint st) of
           (Inr x, st') \<Rightarrow>
             if thenable x then (Inl PromiseResult, rollback_savepoint st')
             else (Inr x, commit_savepoint st')
         | (Inl e, st') \<Rightarrow> (Inl e, rollback_savepoint st')))"

definition st_close :: "('v, unit) store_op" where
  "st_close st =
     (if ps_closed st then (Inr (), st)
      else if ps_depth st \<noteq> 0 then (Inl CloseInTransaction, st)
      else (Inr (), st\<lparr>ps_key := replicate (length (ps_key st)) 0, ps_closed := True\<rparr>))"

section \<open>Transactions are atomic\<close>

text \<open>
  A callback is balanced when it leaves the transaction stack as it found it. The store
  operations are balanced, and so is a transaction over a balanced callback, so every
  composition of them is.
\<close>

definition balanced :: "('v, 'a) store_op \<Rightarrow> bool" where
  "balanced f \<longleftrightarrow>
     (\<forall>st r st'. f st = (r, st') \<longrightarrow>
        ps_saved st' = ps_saved st \<and> (0 < ps_depth st \<longrightarrow> ps_depth st' = ps_depth st) \<and>
        (0 < ps_depth st \<longrightarrow> ps_closed st' = ps_closed st \<and> ps_key st' = ps_key st))"

lemma balancedD:
  assumes "balanced f" "f st = (r, st')"
  shows "ps_saved st' = ps_saved st" "0 < ps_depth st \<Longrightarrow> ps_depth st' = ps_depth st"
    "0 < ps_depth st \<Longrightarrow> ps_closed st' = ps_closed st" "0 < ps_depth st \<Longrightarrow> ps_key st' = ps_key st"
  using assms unfolding balanced_def by blast+

lemma balanced_put: "balanced (st_put c n coll k v)"
  by (auto simp: balanced_def st_put_def split: if_splits sum.splits)

lemma balanced_insert: "balanced (st_insert c n coll k v)"
  by (auto simp: balanced_def st_insert_def split: if_splits sum.splits option.splits)

lemma balanced_delete: "balanced (st_delete c coll k)"
  by (auto simp: balanced_def st_delete_def split: if_splits sum.splits)

lemma balanced_close: "balanced st_close"
  by (auto simp: balanced_def st_close_def split: if_splits)

lemma balanced_seq:
  assumes "balanced f" "\<And>x. balanced (g x)"
  shows "balanced (\<lambda>st. case f st of (Inl e, st') \<Rightarrow> (Inl e, st') | (Inr x, st') \<Rightarrow> g x st')"
  unfolding balanced_def
proof (intro allI impI)
  fix st r st'
  assume run: "(case f st of (Inl e, st') \<Rightarrow> (Inl e, st') | (Inr x, st') \<Rightarrow> g x st') = (r, st')"
  obtain q st1 where f: "f st = (q, st1)" by (cases "f st")
  note F = balancedD [OF assms(1) f]
  show "ps_saved st' = ps_saved st \<and> (0 < ps_depth st \<longrightarrow> ps_depth st' = ps_depth st) \<and>
      (0 < ps_depth st \<longrightarrow> ps_closed st' = ps_closed st \<and> ps_key st' = ps_key st)"
  proof (cases q)
    case (Inl e)
    with run f F show ?thesis by auto
  next
    case (Inr x)
    with run f have g: "g x st1 = (r, st')" by simp
    from F balancedD [OF assms(2) g] show ?thesis by auto
  qed
qed

lemma begin_savepoint_simps [simp]:
  "ps_table (begin_savepoint st) = ps_table st"
  "ps_saved (begin_savepoint st) = ps_table st # ps_saved st"
  "ps_depth (begin_savepoint st) = Suc (ps_depth st)"
  "ps_closed (begin_savepoint st) = ps_closed st"
  "ps_key (begin_savepoint st) = ps_key st"
  by (simp_all add: begin_savepoint_def)

lemma balanced_transaction:
  assumes "balanced f"
  shows "balanced (transaction a th f)"
  unfolding balanced_def
proof (intro allI impI)
  fix st r st'
  assume run: "transaction a th f st = (r, st')"
  obtain q st1 where f: "f (begin_savepoint st) = (q, st1)" by (cases "f (begin_savepoint st)")
  from balancedD [OF assms f] run f
  show "ps_saved st' = ps_saved st \<and> (0 < ps_depth st \<longrightarrow> ps_depth st' = ps_depth st) \<and>
      (0 < ps_depth st \<longrightarrow> ps_closed st' = ps_closed st \<and> ps_key st' = ps_key st)"
    by (cases q)
      (auto simp: transaction_def commit_savepoint_def rollback_savepoint_def split: if_splits)
qed

lemma transaction_error_restores:
  assumes "balanced f" "transaction a th f st = (Inl e, st')"
  shows "ps_table st' = ps_table st \<and> ps_saved st' = ps_saved st \<and> ps_depth st' = ps_depth st"
proof -
  obtain q st1 where f: "f (begin_savepoint st) = (q, st1)" by (cases "f (begin_savepoint st)")
  from balancedD [OF assms(1) f] assms(2) f show ?thesis
    by (cases q)
      (auto simp: transaction_def commit_savepoint_def rollback_savepoint_def split: if_splits)
qed

section \<open>Opening\<close>

record disk =
  dk_version :: nat
  dk_tables :: bool                \<comment> \<open>some table that is not SQLite's own exists\<close>
  dk_meta :: "bytes option"        \<comment> \<open>\<open>store_meta\<close> row 1\<close>
  dk_rows :: table

definition schema_version :: nat where "schema_version = 1"

definition sentinel_aad :: utext where "sentinel_aad = js ''personal-agent/store/key-check/v1''"

definition open_store ::
  "'v crypto \<Rightarrow> 'v \<Rightarrow> bytes \<Rightarrow> bytes option \<Rightarrow> utext \<Rightarrow> disk \<Rightarrow> (store_error + pstore) \<times> disk" where
  \<comment> \<open>\<open>sentinel\<close> is the key-check text as a value; the key is None when it is not a byte
     array. The version check, the tables and the sentinel are one SQLite transaction.\<close>
  "open_store c sentinel nonce key path d =
     (case key of
        None \<Rightarrow> (Inl KeyRequired, d)
      | Some k \<Rightarrow>
          if length k \<noteq> 32 then (Inl KeyRequired, d)
          else if path = [] then (Inl PathRequired, d)
          else
            (case
              (if dk_version d = 0 then
                 (if dk_tables d then Inl UnrecognizedSchema
                  else rbind (encrypt c k nonce sentinel sentinel_aad) (\<lambda>blob.
                    Inr (d\<lparr>dk_version := schema_version, dk_tables := True,
                            dk_meta := Some blob, dk_rows := []\<rparr>)))
               else if dk_version d \<noteq> schema_version then Inl UnsupportedSchema
               else Inr d) of
               Inl e \<Rightarrow> (Inl e, d)
             | Inr d' \<Rightarrow>
                 (case dk_meta d' of
                    None \<Rightarrow> (Inl AuthenticationFailed, d)
                  | Some blob \<Rightarrow>
                      (case decrypt c k blob sentinel_aad of
                         Inl e \<Rightarrow> (Inl e, d)
                       | Inr v \<Rightarrow>
                           if v = sentinel
                           then (Inr \<lparr>ps_key = k, ps_table = dk_rows d', ps_saved = [],
                                      ps_closed = False, ps_depth = 0, ps_seq = 0\<rparr>, d')
                           else (Inl AuthenticationFailed, d)))))"

lemma open_store_error_keeps_disk:
  "open_store c s n key path d = (Inl e, d') \<Longrightarrow> d' = d"
  by (auto simp: open_store_def split: option.splits if_splits sum.splits)

lemma open_store_ok:
  assumes "open_store c s n key path d = (Inr st, d')"
  shows "dk_version d' = schema_version" "dk_version d \<noteq> 0 \<Longrightarrow> d' = d"
    "ps_table st = dk_rows d'" "\<not> ps_closed st" "ps_saved st = []" "ps_depth st = 0"
    "length (ps_key st) = 32" "key = Some (ps_key st)"
  using assms
  by (auto simp: open_store_def schema_version_def rbind_eq_Inr
      split: option.splits if_splits sum.splits)

section \<open>Properties\<close>

subsection \<open>Reading and writing through the envelope\<close>

lemma st_put_ok:
  assumes "st_put c n coll k v st = (Inr (), st')"
  obtains loc blob where "location c (ps_key st) coll k = Inr loc"
    "encrypt c (ps_key st) n v (aad loc) = Inr blob" "\<not> ps_closed st"
    "st' = st\<lparr>ps_table := AList.update loc blob (ps_table st)\<rparr>"
  using assms by (auto simp: st_put_def rbind_eq_Inr split: if_splits sum.splits)

lemma st_get_after_put:
  assumes "crypto_laws c" "length n = 12" "st_put c n coll k v st = (Inr (), st')"
  shows "st_get c coll k st' = Inr (Some v)"
proof -
  obtain loc blob where put: "location c (ps_key st) coll k = Inr loc"
    "encrypt c (ps_key st) n v (aad loc) = Inr blob" "\<not> ps_closed st"
    "st' = st\<lparr>ps_table := AList.update loc blob (ps_table st)\<rparr>"
    using st_put_ok [OF assms(3)] .
  then show ?thesis
    by (simp add: st_get_def update_conv' decrypt_encrypt(1) [OF assms(1,2) put(2)])
qed

lemma st_get_after_put_other:
  assumes "st_put c n coll k v st = (Inr (), st')"
    and "location c (ps_key st) coll' k' \<noteq> location c (ps_key st) coll k"
  shows "st_get c coll' k' st' = st_get c coll' k' st"
proof -
  obtain loc blob where put: "location c (ps_key st) coll k = Inr loc"
    "encrypt c (ps_key st) n v (aad loc) = Inr blob" "\<not> ps_closed st"
    "st' = st\<lparr>ps_table := AList.update loc blob (ps_table st)\<rparr>"
    using st_put_ok [OF assms(1)] .
  then show ?thesis using assms(2)
    by (cases "location c (ps_key st) coll' k'")
      (auto simp: st_get_def update_conv' split: option.splits)
qed

text \<open>
  C9 A synchronous transaction whose callback fails leaves the rows, the savepoint stack and the
  nesting depth exactly as they were, whatever the callback had written and however deeply it
  nested further transactions, and a successful one keeps what the callback wrote.
\<close>

theorem transaction_atomic:
  assumes "balanced f" "transaction a th f st = (r, st')"
  shows "(\<forall>e. r = Inl e \<longrightarrow> ps_table st' = ps_table st) \<and>
    (\<forall>x. r = Inr x \<longrightarrow>
      (\<exists>st1. f (begin_savepoint st) = (Inr x, st1) \<and> ps_table st' = ps_table st1)) \<and>
    ps_saved st' = ps_saved st \<and> ps_depth st' = ps_depth st"
proof (cases r)
  case (Inl e)
  then show ?thesis using transaction_error_restores [OF assms(1)] assms(2) by blast
next
  case (Inr x)
  obtain q st1 where f: "f (begin_savepoint st) = (q, st1)" by (cases "f (begin_savepoint st)")
  from balancedD [OF assms(1) f] assms(2) f Inr show ?thesis
    by (cases q) (auto simp: transaction_def commit_savepoint_def split: if_splits)
qed

definition demo_crypto :: "bytes crypto" where
  \<comment> \<open>A concrete instance of the library laws, for the witnesses: the tag encodes key, nonce
     and additional data, the ciphertext is the plaintext.\<close>
  "demo_crypto =
     \<lparr>seal = (\<lambda>k n a m. ([list_encode k, list_encode n, list_encode a] @ replicate 13 0, m)),
      unseal = (\<lambda>k n a t x.
        if t = [list_encode k, list_encode n, list_encode a] @ replicate 13 0 then Some x else None),
      hmac = (\<lambda>k x. x),
      stringify = (\<lambda>v. Some (0 # v)),
      parse = (\<lambda>b. case b of [] \<Rightarrow> None | _ # v \<Rightarrow> Some v)\<rparr>"

lemma demo_crypto_laws: "crypto_laws demo_crypto"
  by (auto simp: crypto_laws_def demo_crypto_def)

definition demo_store :: pstore where
  "demo_store = \<lparr>ps_key = replicate 32 7, ps_table = [], ps_saved = [], ps_closed = False,
     ps_depth = 0, ps_seq = 0\<rparr>"

definition demo_failing :: "(bytes, unit) store_op" where
  "demo_failing = (\<lambda>st. case st_put demo_crypto (replicate 12 1) [99] [107] [5] st of
      (Inl e, st') \<Rightarrow> (Inl e, st') | (Inr x, st') \<Rightarrow> (Inl (Thrown [120]), st'))"

lemma demo_failing_balanced: "balanced demo_failing"
proof -
  have "balanced (\<lambda>st. (Inl (Thrown [120]), st))" by (simp add: balanced_def)
  from balanced_seq [OF balanced_put this] show ?thesis unfolding demo_failing_def .
qed

lemma demo_failing_run:
  "transaction False (\<lambda>_. False) demo_failing demo_store = (Inl (Thrown [120]), demo_store\<lparr>ps_seq := 1\<rparr>)"
  by (simp add: transaction_def demo_failing_def demo_store_def st_put_def location_def index_of_def
      encrypt_def demo_crypto_def begin_savepoint_def rollback_savepoint_def js_simps)

theorem transaction_atomic_witness:
  "ps_table (snd (transaction False (\<lambda>_. False) demo_failing demo_store)) = []"
proof -
  have "ps_table (demo_store\<lparr>ps_seq := 1\<rparr>) = ps_table demo_store"
    using transaction_atomic [OF demo_failing_balanced demo_failing_run] by blast
  then show ?thesis by (simp add: demo_failing_run) (simp add: demo_store_def)
qed



definition aad_authenticated :: "'v crypto \<Rightarrow> bool" where
  \<comment> \<open>Documented behaviour of GCM: opening with other additional data fails.\<close>
  "aad_authenticated c \<longleftrightarrow>
     (\<forall>k n a m t x a'. seal c k n a m = (t, x) \<longrightarrow> a' \<noteq> a \<longrightarrow> unseal c k n a' t x = None)"

text \<open>
  A sealed record cannot be read at another location: a payload copied into the row of a
  different record makes every read of that row fail authentication.
\<close>

theorem relocated_record_refused:
  assumes laws: "crypto_laws c" "aad_authenticated c" and n: "length n = 12"
    and put: "st_put c n coll k v st = (Inr (), st')"
    and loc: "location c (ps_key st) coll k = Inr loc" "location c (ps_key st) coll' k' = Inr loc'"
    and other: "aad loc' \<noteq> aad loc"
    and blob: "map_of (ps_table st') loc = Some blob"
  shows "st_get c coll' k' (st'\<lparr>ps_table := AList.update loc' blob (ps_table st')\<rparr>) =
    Inl AuthenticationFailed"
proof -
  obtain loc1 b where put': "location c (ps_key st) coll k = Inr loc1"
    "encrypt c (ps_key st) n v (aad loc1) = Inr b" "\<not> ps_closed st"
    "st' = st\<lparr>ps_table := AList.update loc1 b (ps_table st)\<rparr>"
    using st_put_ok [OF put] .
  with loc blob have b: "b = blob" "loc1 = loc" by (auto simp: update_conv')
  with put' obtain plain tag x where enc: "stringify c v = Some plain"
    "seal c (ps_key st) n (aad loc) plain = (tag, x)" "blob = [1] @ n @ tag @ x"
    by (auto simp: encrypt_def split: option.splits prod.splits)
  from laws(1) enc have len: "length tag = 16" unfolding crypto_laws_def by blast
  from laws(2) enc(2) other have "unseal c (ps_key st) n (aad loc') tag x = None"
    unfolding aad_authenticated_def by blast
  with len n have "decrypt c (ps_key st) blob (aad loc') = Inl AuthenticationFailed"
    by (auto simp: decrypt_def enc(3))
  with put' loc(2) show ?thesis by (simp add: st_get_def update_conv')
qed

lemma demo_crypto_aad: "aad_authenticated demo_crypto"
  by (auto simp: aad_authenticated_def demo_crypto_def list_encode_eq)

lemma demo_locations:
  "location demo_crypto k [99] [107] = Inr (js ''personal-agent/store/index/v1/'' @ js ''collection'' @ [0, 99],
     js ''personal-agent/store/index/v1/'' @ js ''record/'' @ [99, 0, 107])"
  "location demo_crypto k [99] [107, 107] = Inr (js ''personal-agent/store/index/v1/'' @ js ''collection'' @ [0, 99],
     js ''personal-agent/store/index/v1/'' @ js ''record/'' @ [99, 0, 107, 107])"
  by (simp_all add: location_def index_of_def demo_crypto_def)

theorem relocated_record_refused_witness:
  "\<exists>blob loc'. st_get demo_crypto [99] [107, 107]
     ((snd (st_put demo_crypto (replicate 12 1) [99] [107] [5] demo_store))
        \<lparr>ps_table := AList.update loc' blob
            (ps_table (snd (st_put demo_crypto (replicate 12 1) [99] [107] [5] demo_store)))\<rparr>) =
     Inl AuthenticationFailed"
proof -
  let ?st' = "snd (st_put demo_crypto (replicate 12 1) [99] [107] [5] demo_store)"
  have run: "st_put demo_crypto (replicate 12 1) [99] [107] [5] demo_store = (Inr (), ?st')"
    by (simp add: st_put_def demo_store_def location_def index_of_def encrypt_def demo_crypto_def js_simps)
  obtain loc blob where put: "location demo_crypto (ps_key demo_store) [99] [107] = Inr loc"
    "?st' = demo_store\<lparr>ps_table := AList.update loc blob (ps_table demo_store)\<rparr>"
    using st_put_ok [OF run] by blast
  have blob: "map_of (ps_table ?st') loc = Some blob"
    unfolding put(2) by (simp add: update_conv')
  have other: "aad (js ''personal-agent/store/index/v1/'' @ js ''collection'' @ [0, 99],
      js ''personal-agent/store/index/v1/'' @ js ''record/'' @ [99, 0, 107, 107]) \<noteq> aad loc"
    using put(1) by (auto simp: demo_locations aad_def)
  show ?thesis
    using relocated_record_refused [OF demo_crypto_laws demo_crypto_aad _ run put(1)
        demo_locations(2) other blob] by auto
qed

definition key_authenticated :: "'v crypto \<Rightarrow> bool" where
  \<comment> \<open>Documented behaviour of GCM: opening with another key fails.\<close>
  "key_authenticated c \<longleftrightarrow>
     (\<forall>k n a m t x k'. seal c k n a m = (t, x) \<longrightarrow> k' \<noteq> k \<longrightarrow> unseal c k' n a t x = None)"

text \<open>
  Opening a new database writes a key check under the given key. The same key opens the
  database again with the rows it has by then and leaves the disk alone; any other key is
  refused, with nothing on disk changed.
\<close>

theorem open_store_key_check:
  assumes laws: "crypto_laws c" "key_authenticated c" and n: "length n = 12"
    and fresh: "dk_version d = 0" "open_store c s n (Some k) path d = (Inr st, d1)"
    and later: "d2 = d1\<lparr>dk_rows := rows\<rparr>" and path: "path' \<noteq> []"
  shows "(\<exists>st'. open_store c s n' (Some k) path' d2 = (Inr st', d2) \<and> ps_table st' = rows) \<and>
    (\<forall>k'. length k' = 32 \<and> k' \<noteq> k \<longrightarrow>
       open_store c s n' (Some k') path' d2 = (Inl AuthenticationFailed, d2))"
proof -
  from fresh have k: "length k = 32"
    by (auto simp: open_store_def split: if_splits)
  from fresh k obtain blob where enc: "encrypt c k n s sentinel_aad = Inr blob"
    and d1: "d1 = d\<lparr>dk_version := schema_version, dk_tables := True, dk_meta := Some blob, dk_rows := []\<rparr>"
    by (auto simp: open_store_def rbind_eq_Inr split: if_splits sum.splits)
  have d2: "dk_version d2 = 1" "dk_meta d2 = Some blob" "dk_rows d2 = rows"
    by (simp_all add: later d1 schema_version_def)
  have "decrypt c k blob sentinel_aad = Inr s" by (rule decrypt_encrypt(1) [OF laws(1) n enc])
  then have same: "\<exists>st'. open_store c s n' (Some k) path' d2 = (Inr st', d2) \<and> ps_table st' = rows"
    using k path d2 by (simp add: open_store_def schema_version_def)
  from enc obtain plain tag x where sealed: "seal c k n sentinel_aad plain = (tag, x)"
    "blob = [1] @ n @ tag @ x"
    by (auto simp: encrypt_def split: option.splits prod.splits)
  have len: "length tag = 16" using laws(1) sealed(1) unfolding crypto_laws_def by blast
  have "decrypt c k' blob sentinel_aad = Inl AuthenticationFailed" if "k' \<noteq> k" for k'
  proof -
    have "unseal c k' n sentinel_aad tag x = None"
      using laws(2) sealed(1) that unfolding key_authenticated_def by blast
    with len n show ?thesis by (auto simp: decrypt_def sealed(2))
  qed
  then have "\<forall>k'. length k' = 32 \<and> k' \<noteq> k \<longrightarrow>
      open_store c s n' (Some k') path' d2 = (Inl AuthenticationFailed, d2)"
    using path d2 by (auto simp: open_store_def schema_version_def)
  with same show ?thesis by blast
qed

definition demo_disk :: disk where
  "demo_disk = \<lparr>dk_version = 0, dk_tables = False, dk_meta = None, dk_rows = []\<rparr>"

theorem open_store_key_check_witness:
  "\<exists>d1. open_store demo_crypto [1] (replicate 12 3) (Some (replicate 32 8)) [47] d1 =
     (Inl AuthenticationFailed, d1)"
proof -
  have key: "key_authenticated demo_crypto"
    by (auto simp: key_authenticated_def demo_crypto_def list_encode_eq)
  define run where "run = open_store demo_crypto [1] (replicate 12 1) (Some (replicate 32 7)) [47] demo_disk"
  have run: "open_store demo_crypto [1] (replicate 12 1) (Some (replicate 32 7)) [47] demo_disk =
      (Inr (projr (fst run)), snd run)"
    by (simp add: run_def open_store_def demo_disk_def encrypt_def decrypt_def demo_crypto_def)
  have fresh: "dk_version demo_disk = 0" by (simp add: demo_disk_def)
  have diff: "length (replicate 32 8) = 32 \<and> replicate 32 8 \<noteq> (replicate 32 7 :: nat list)"
    by (simp add: numeral_eq_Suc)
  have n: "length (replicate 12 (1::nat)) = 12" by simp
  from open_store_key_check [OF demo_crypto_laws key n fresh run refl,
      where path' = "[47]" and rows = "[]" and n' = "replicate 12 3"]
  have "\<forall>k'. length k' = 32 \<and> k' \<noteq> replicate 32 7 \<longrightarrow>
      open_store demo_crypto [1] (replicate 12 3) (Some k') [47] (snd run\<lparr>dk_rows := []\<rparr>) =
      (Inl AuthenticationFailed, snd run\<lparr>dk_rows := []\<rparr>)"
    by blast
  with diff show ?thesis by blast
qed

end
