(* ===== verification/Contracts.thy ===== *)
theory Contracts
  imports Store
begin

text \<open>
  The domain records of the personal agent (\<open>contracts.ts\<close>) and the typed view of its
  record store: one field of \<open>db\<close> per collection the broker and the controller use.

  Identifiers and all other strings are \<open>utext\<close>. A timestamp string is a \<open>stamp\<close>:
  \<open>Iso t\<close> is the string \<open>toISOString\<close> gives for the time \<open>t\<close> in
  milliseconds, \<open>Raw s m\<close> any other string \<open>s\<close> with what \<open>Date.parse\<close> makes of
  it (None for NaN). A message reference is used as a key through \<open>refKey\<close>.
\<close>

section \<open>Time\<close>

datatype stamp = Iso int | Raw utext "int option"

fun date_parse :: "stamp \<Rightarrow> int option" where
  "date_parse (Iso t) = Some t"
| "date_parse (Raw s m) = m"

definition passed :: "stamp \<Rightarrow> int \<Rightarrow> bool" where
  \<comment> \<open>\<open>Date.parse(s) <= now\<close>; a comparison with NaN is false.\<close>
  "passed s now = (case date_parse s of None \<Rightarrow> False | Some t \<Rightarrow> t \<le> now)"

definition opt_passed :: "stamp option \<Rightarrow> int \<Rightarrow> bool" where
  \<comment> \<open>\<open>s && Date.parse(s) <= now\<close>\<close>
  "opt_passed s now = (case s of None \<Rightarrow> False | Some x \<Rightarrow> passed x now)"

lemma passed_simps [simp]:
  "passed (Iso t) now \<longleftrightarrow> t \<le> now" "opt_passed None now = False"
  "opt_passed (Some s) now = passed s now"
  by (simp_all add: passed_def opt_passed_def)

section \<open>Messages and tasks\<close>

record message_ref =
  mr_account :: utext
  mr_peer :: utext
  mr_message :: utext
  mr_thread :: "utext option"

record route =
  rt_peer :: utext
  rt_thread :: "utext option"
  rt_reply :: "utext option"

record capability_grant =
  cg_capability :: utext
  cg_resources :: "utext list"

record grant =
  g_id :: utext
  g_task :: utext
  g_revision :: int
  g_capabilities :: "capability_grant list"
  g_expires :: "stamp option"
  g_revoked :: "stamp option"

record task_intent =
  ti_id :: utext
  ti_owner :: utext
  ti_account :: utext
  ti_source :: message_ref
  ti_instruction :: utext
  ti_revision :: int
  ti_route :: route
  ti_created :: stamp
  ti_updated :: stamp
  ti_contexts :: "utext list"
  ti_artifacts :: "utext list"
  ti_grant :: utext
  ti_control_only :: bool          \<comment> \<open>\<open>InternalIntent.controlOnly\<close>\<close>

datatype run_state =
    RQueued | RRunning | RWaiting | RCompleted | RFailed | RInterrupted | RCancelled | RUnknown
  | ROther utext                   \<comment> \<open>a string outside the declared union, which the engine may send\<close>

record run_binding =
  rb_run :: utext
  rb_session :: "utext option"
  rb_task :: utext
  rb_revision :: int
  rb_key :: utext

record run_snapshot =
  rs_binding :: run_binding
  rs_state :: run_state
  rs_observed :: stamp
  rs_output :: "utext option"
  rs_artifacts :: "utext list option"
  rs_reason :: "utext option"
  rs_progress :: "utext option"

datatype effect_state = EPrepared | EDispatching | EVerified | EFailed | EUnknown | ECancelled

record effect =
  e_id :: utext
  e_task :: utext
  e_revision :: int
  e_grant :: utext
  e_grant_revision :: int
  e_capability :: utext
  e_resource :: utext
  e_payload :: json
  e_hash :: utext
  e_state :: effect_state
  e_created :: stamp
  e_updated :: stamp
  e_receipt :: "json option"
  e_reason :: "utext option"

datatype result_state = RsVerified | RsFailed | RsUnknown | RsOther utext

record effect_result =
  er_state :: result_state
  er_receipt :: "json option"
  er_reason :: "utext option"

record tool_context =
  tc_task :: utext
  tc_revision :: int
  tc_grant :: utext
  tc_grant_revision :: int
  tc_run :: utext

datatype obs_kind = OMessage | OEdit | ODelete

datatype span_kind = SpanQuote | SpanCode | SpanOther utext

record text_span =
  sp_offset :: "int option"        \<comment> \<open>None when not a safe integer\<close>
  sp_length :: "int option"
  sp_kind :: span_kind

record observation =
  o_id :: utext
  o_kind :: obs_kind
  o_ref :: message_ref
  o_author :: "utext option"
  o_outgoing :: bool
  o_text :: "utext option"
  o_sent :: stamp
  o_observed :: stamp
  o_reply :: "message_ref option"
  o_forwarded :: bool
  o_via_bot :: bool
  o_effect :: "utext option"
  o_attachments :: nat             \<comment> \<open>how many attachments\<close>
  o_version :: "utext option"
  o_edited :: "stamp option"
  o_spans :: "text_span option list option"   \<comment> \<open>an entry is None when falsy\<close>
  o_artifacts :: "utext list option"
  o_contexts :: "utext list option"

definition ref_json :: "message_ref \<Rightarrow> json" where
  "ref_json r = JArr [JStr (mr_account r), JStr (mr_peer r), JStr (mr_message r)]"

definition refKey :: "message_ref \<Rightarrow> utext" where
  "refKey r = (case canonicalJson (ref_json r) of Some t \<Rightarrow> t | None \<Rightarrow> [])"

lemma refKey_text: "canonicalJson (ref_json r) = Some (refKey r)"
  by (simp add: refKey_def ref_json_def)

lemma refKey_inj:
  "refKey a = refKey b \<longleftrightarrow>
     mr_account a = mr_account b \<and> mr_peer a = mr_peer b \<and> mr_message a = mr_message b"
proof
  assume "refKey a = refKey b"
  then have "canonicalJson (ref_json b) = Some (refKey a)" by (simp add: refKey_text)
  moreover have "json_wf (ref_json a)" "json_wf (ref_json b)" by (simp_all add: ref_json_def)
  ultimately have "norm (ref_json a) = norm (ref_json b)"
    using canonicalJson_unique refKey_text by blast
  then show "mr_account a = mr_account b \<and> mr_peer a = mr_peer b \<and> mr_message a = mr_message b"
    by (simp add: ref_json_def)
qed (simp add: refKey_def ref_json_def)

definition admissionKey :: "utext \<Rightarrow> int \<Rightarrow> utext" where
  "admissionKey task revision = task @ 58 # show_int revision"

lemma show_int_no_colon: "58 \<notin> set (show_int i)"
  using show_int_chars [of 58 i] by (auto simp: num_char_def)

lemma split_at_last:
  assumes "a @ c # p = b @ c # q" "c \<notin> set p" "c \<notin> set q"
  shows "a = b \<and> p = q"
proof -
  have "rev p @ c # rev a = rev q @ c # rev b"
    using arg_cong [OF assms(1), of rev] by simp
  moreover have "takeWhile (\<lambda>x. x \<noteq> c) (rev p @ c # rev a) = rev p"
    "takeWhile (\<lambda>x. x \<noteq> c) (rev q @ c # rev b) = rev q"
    using assms(2,3) by (auto simp: takeWhile_append)
  ultimately have "rev p = rev q" by simp
  with assms(1) show ?thesis by simp
qed

lemma admissionKey_inj: "admissionKey a i = admissionKey b j \<longleftrightarrow> a = b \<and> i = j"
proof
  assume "admissionKey a i = admissionKey b j"
  then have "a @ 58 # show_int i = b @ 58 # show_int j" by (simp add: admissionKey_def)
  from split_at_last [OF this show_int_no_colon show_int_no_colon]
  show "a = b \<and> i = j" by (auto dest: show_int_inj)
qed simp

definition sameRef :: "message_ref \<Rightarrow> message_ref \<Rightarrow> bool" where
  "sameRef a b \<longleftrightarrow> refKey a = refKey b"

fun terminal :: "run_state \<Rightarrow> bool" where
  "terminal s = (s \<in> {RCompleted, RFailed, RInterrupted, RCancelled})"

section \<open>The records the core keeps\<close>

record context_record =
  cr_context :: tool_context
  cr_expires :: stamp
  cr_revoked :: "stamp option"

datatype admission_state = AReserved | ABound | AUnknown | ABlocked

record admission =
  ad_task :: utext
  ad_revision :: int
  ad_key :: utext
  ad_token :: utext
  ad_state :: admission_state
  ad_created :: stamp
  ad_reason :: "utext option"

record control =
  ct_task :: utext
  ct_cancelled :: "stamp option"
  ct_held :: "stamp option"
  ct_reason :: "utext option"
  ct_resume :: bool

datatype stop_state = SPending | SSettled | SUnknown

record child_stop =
  cs_task :: utext
  cs_revision :: int
  cs_state :: stop_state
  cs_reason :: "utext option"

record own_output =
  oo_ref :: message_ref
  oo_task :: utext
  oo_effect :: "utext option"
  oo_control_only :: bool

record origin_deadline =
  od_task :: utext
  od_peer :: "utext option"
  od_expires :: stamp

record owner_change =
  oc_ref :: message_ref
  oc_authorized :: stamp

record acknowledgement =
  ak_task :: utext
  ak_revision :: int
  ak_effect :: utext

record correction =
  co_task :: utext
  co_revision :: int
  co_instruction :: utext
  co_refresh :: bool               \<comment> \<open>\<open>kind === 'context_refresh'\<close>\<close>
  co_created :: stamp
  co_source :: "message_ref option"
  co_authorized :: "stamp option"

record received_observation =
  ro_key :: utext
  ro_observation :: observation
  ro_received :: stamp
  ro_sequence :: int

datatype task_state = TAccepted | TWorking | TReady | TFailed | TPaused | TCancelled | TUnknown

record task_status =
  ts_intent :: task_intent
  ts_run :: "run_snapshot option"
  ts_admission :: "(admission_state \<times> utext option) option"
  ts_cancelled :: "stamp option"
  ts_held :: "stamp option"
  ts_reason :: "utext option"
  ts_effects :: "effect list"
  ts_state :: task_state

datatype disposition =
    Ignored | Duplicate | Accepted | Status | Cancelled | Corrected | Held | Ambiguous

datatype status_report = NoStatus | OneStatus "task_status option" | AllStatus "task_status list"

record ingest_result =
  ir_disposition :: disposition
  ir_task :: "utext option"
  ir_reason :: "utext option"
  ir_status :: status_report

record identity =
  id_account :: utext
  id_owner :: utext
  id_route :: route

record db =
  db_index :: "utext \<Rightarrow> utext \<Rightarrow> nat"   \<comment> \<open>the keyed digest of a collection's identifiers, as a number\<close>
  contexts :: "context_record rows"
  tasks :: "task_intent rows"
  grants :: "grant rows"
  effects :: "effect rows"
  acknowledgements :: "acknowledgement rows"      \<comment> \<open>\<open>taskAcknowledgements\<close>\<close>
  control_targets :: "utext rows"                 \<comment> \<open>\<open>controlTargets\<close>: the target task\<close>
  admissions :: "admission rows"
  runs :: "run_snapshot rows"
  controls :: "control rows"
  child_stops :: "child_stop rows"                \<comment> \<open>\<open>childStops\<close>\<close>
  own_outputs :: "own_output rows"                \<comment> \<open>\<open>ownOutputs\<close>\<close>
  sources :: "utext rows"                         \<comment> \<open>\<open>sources\<close>: the task of a message\<close>
  owner_changes :: "owner_change rows"            \<comment> \<open>\<open>taskOwnerChanges\<close>\<close>
  origin_deadlines :: "origin_deadline rows"      \<comment> \<open>\<open>originDeadlines\<close>\<close>
  origin_reviews :: "message_ref rows"            \<comment> \<open>\<open>originReview\<close>\<close>
  grant_baselines :: "stamp rows"                 \<comment> \<open>\<open>grantBaselines\<close>: the expiry\<close>
  corrections :: "correction rows"
  applied_changes :: "utext rows"                 \<comment> \<open>\<open>appliedChanges\<close>: the task\<close>
  observations :: "received_observation rows"
  results :: "ingest_result rows"                 \<comment> \<open>\<open>observationResults\<close>\<close>
  identities :: "identity rows"                   \<comment> \<open>\<open>metadata\<close>, key \<open>identity\<close>\<close>
  sequences :: "int rows"                         \<comment> \<open>\<open>metadata\<close>, key \<open>observationSequence\<close>\<close>

text \<open>\<open>put\<close> on each collection, and the \<open>insert\<close> and \<open>delete\<close> calls the core makes.\<close>

definition put_context :: "utext \<Rightarrow> context_record \<Rightarrow> db \<Rightarrow> db" where
  "put_context k v d = d\<lparr>contexts := kv_put (db_index d (js ''contexts'')) k v (contexts d)\<rparr>"

definition put_task :: "utext \<Rightarrow> task_intent \<Rightarrow> db \<Rightarrow> db" where
  "put_task k v d = d\<lparr>tasks := kv_put (db_index d (js ''tasks'')) k v (tasks d)\<rparr>"

definition put_grant :: "utext \<Rightarrow> grant \<Rightarrow> db \<Rightarrow> db" where
  "put_grant k v d = d\<lparr>grants := kv_put (db_index d (js ''grants'')) k v (grants d)\<rparr>"

definition put_effect :: "utext \<Rightarrow> effect \<Rightarrow> db \<Rightarrow> db" where
  "put_effect k v d = d\<lparr>effects := kv_put (db_index d (js ''effects'')) k v (effects d)\<rparr>"

definition put_acknowledgement :: "utext \<Rightarrow> acknowledgement \<Rightarrow> db \<Rightarrow> db" where
  "put_acknowledgement k v d = d\<lparr>acknowledgements := kv_put (db_index d (js ''taskAcknowledgements'')) k v (acknowledgements d)\<rparr>"

definition put_control_target :: "utext \<Rightarrow> utext \<Rightarrow> db \<Rightarrow> db" where
  "put_control_target k v d = d\<lparr>control_targets := kv_put (db_index d (js ''controlTargets'')) k v (control_targets d)\<rparr>"

definition put_admission :: "utext \<Rightarrow> admission \<Rightarrow> db \<Rightarrow> db" where
  "put_admission k v d = d\<lparr>admissions := kv_put (db_index d (js ''admissions'')) k v (admissions d)\<rparr>"

definition put_run :: "utext \<Rightarrow> run_snapshot \<Rightarrow> db \<Rightarrow> db" where
  "put_run k v d = d\<lparr>runs := kv_put (db_index d (js ''runs'')) k v (runs d)\<rparr>"

definition put_control :: "utext \<Rightarrow> control \<Rightarrow> db \<Rightarrow> db" where
  "put_control k v d = d\<lparr>controls := kv_put (db_index d (js ''controls'')) k v (controls d)\<rparr>"

definition put_child_stop :: "utext \<Rightarrow> child_stop \<Rightarrow> db \<Rightarrow> db" where
  "put_child_stop k v d = d\<lparr>child_stops := kv_put (db_index d (js ''childStops'')) k v (child_stops d)\<rparr>"

definition put_own_output :: "utext \<Rightarrow> own_output \<Rightarrow> db \<Rightarrow> db" where
  "put_own_output k v d = d\<lparr>own_outputs := kv_put (db_index d (js ''ownOutputs'')) k v (own_outputs d)\<rparr>"

definition put_source :: "utext \<Rightarrow> utext \<Rightarrow> db \<Rightarrow> db" where
  "put_source k v d = d\<lparr>sources := kv_put (db_index d (js ''sources'')) k v (sources d)\<rparr>"

definition put_owner_change :: "utext \<Rightarrow> owner_change \<Rightarrow> db \<Rightarrow> db" where
  "put_owner_change k v d = d\<lparr>owner_changes := kv_put (db_index d (js ''taskOwnerChanges'')) k v (owner_changes d)\<rparr>"

definition put_origin_deadline :: "utext \<Rightarrow> origin_deadline \<Rightarrow> db \<Rightarrow> db" where
  "put_origin_deadline k v d = d\<lparr>origin_deadlines := kv_put (db_index d (js ''originDeadlines'')) k v (origin_deadlines d)\<rparr>"

definition put_origin_review :: "utext \<Rightarrow> message_ref \<Rightarrow> db \<Rightarrow> db" where
  "put_origin_review k v d = d\<lparr>origin_reviews := kv_put (db_index d (js ''originReview'')) k v (origin_reviews d)\<rparr>"

definition put_grant_baseline :: "utext \<Rightarrow> stamp \<Rightarrow> db \<Rightarrow> db" where
  "put_grant_baseline k v d = d\<lparr>grant_baselines := kv_put (db_index d (js ''grantBaselines'')) k v (grant_baselines d)\<rparr>"

definition put_correction :: "utext \<Rightarrow> correction \<Rightarrow> db \<Rightarrow> db" where
  "put_correction k v d = d\<lparr>corrections := kv_put (db_index d (js ''corrections'')) k v (corrections d)\<rparr>"

definition put_applied_change :: "utext \<Rightarrow> utext \<Rightarrow> db \<Rightarrow> db" where
  "put_applied_change k v d = d\<lparr>applied_changes := kv_put (db_index d (js ''appliedChanges'')) k v (applied_changes d)\<rparr>"

definition put_observation :: "utext \<Rightarrow> received_observation \<Rightarrow> db \<Rightarrow> db" where
  "put_observation k v d = d\<lparr>observations := kv_put (db_index d (js ''observations'')) k v (observations d)\<rparr>"

definition put_result :: "utext \<Rightarrow> ingest_result \<Rightarrow> db \<Rightarrow> db" where
  "put_result k v d = d\<lparr>results := kv_put (db_index d (js ''observationResults'')) k v (results d)\<rparr>"

definition put_identity :: "utext \<Rightarrow> identity \<Rightarrow> db \<Rightarrow> db" where
  "put_identity k v d = d\<lparr>identities := kv_put (db_index d (js ''metadata'')) k v (identities d)\<rparr>"

definition put_sequence :: "utext \<Rightarrow> int \<Rightarrow> db \<Rightarrow> db" where
  "put_sequence k v d = d\<lparr>sequences := kv_put (db_index d (js ''metadata'')) k v (sequences d)\<rparr>"

definition insert_effect :: "utext \<Rightarrow> effect \<Rightarrow> db \<Rightarrow> bool \<times> db" where
  "insert_effect k v d =
     (case kv_insert (db_index d (js ''effects'')) k v (effects d) of (fresh, t) \<Rightarrow> (fresh, d\<lparr>effects := t\<rparr>))"

definition insert_admission :: "utext \<Rightarrow> admission \<Rightarrow> db \<Rightarrow> bool \<times> db" where
  "insert_admission k v d =
     (case kv_insert (db_index d (js ''admissions'')) k v (admissions d) of (fresh, t) \<Rightarrow> (fresh, d\<lparr>admissions := t\<rparr>))"

definition insert_source :: "utext \<Rightarrow> utext \<Rightarrow> db \<Rightarrow> bool \<times> db" where
  "insert_source k v d =
     (case kv_insert (db_index d (js ''sources'')) k v (sources d) of (fresh, t) \<Rightarrow> (fresh, d\<lparr>sources := t\<rparr>))"

definition insert_grant_baseline :: "utext \<Rightarrow> stamp \<Rightarrow> db \<Rightarrow> bool \<times> db" where
  "insert_grant_baseline k v d =
     (case kv_insert (db_index d (js ''grantBaselines'')) k v (grant_baselines d) of (fresh, t) \<Rightarrow> (fresh, d\<lparr>grant_baselines := t\<rparr>))"

definition insert_applied_change :: "utext \<Rightarrow> utext \<Rightarrow> db \<Rightarrow> bool \<times> db" where
  "insert_applied_change k v d =
     (case kv_insert (db_index d (js ''appliedChanges'')) k v (applied_changes d) of (fresh, t) \<Rightarrow> (fresh, d\<lparr>applied_changes := t\<rparr>))"

definition insert_observation :: "utext \<Rightarrow> received_observation \<Rightarrow> db \<Rightarrow> bool \<times> db" where
  "insert_observation k v d =
     (case kv_insert (db_index d (js ''observations'')) k v (observations d) of (fresh, t) \<Rightarrow> (fresh, d\<lparr>observations := t\<rparr>))"

definition insert_identity :: "utext \<Rightarrow> identity \<Rightarrow> db \<Rightarrow> bool \<times> db" where
  "insert_identity k v d =
     (case kv_insert (db_index d (js ''metadata'')) k v (identities d) of (fresh, t) \<Rightarrow> (fresh, d\<lparr>identities := t\<rparr>))"

definition delete_control :: "utext \<Rightarrow> db \<Rightarrow> db" where
  "delete_control k d = d\<lparr>controls := kv_delete k (controls d)\<rparr>"

definition delete_origin_review :: "utext \<Rightarrow> db \<Rightarrow> db" where
  "delete_origin_review k d = d\<lparr>origin_reviews := kv_delete k (origin_reviews d)\<rparr>"

end
