(* ===== verification/Broker.thy ===== *)
theory Broker
  imports Contracts
begin

text \<open>
  The effect broker (\<open>core/broker.ts\<close>, \<open>core/owner-account.ts\<close>): tool contexts and
  their tokens, the check of a capability against a grant, the identity of an effect, the
  execution of an effect in two halves around the awaited dispatch, settlement and recovery.

  \<open>broker_cfg\<close> holds the broker's collaborators: SHA-256 and the URL parser of the
  platform, the token lifetime, and the optional hooks of the constructor (a hook returns the
  error it throws, None when it passes or is absent). A handler takes the time its clock
  reports as an argument.
\<close>

datatype broker_error =
    InvalidToolContext | ContextUnavailable | NotAuthorized | ContextInvalidated utext
  | BindingMismatch | OutsideGrant | EffectOutsideGrant | AcknowledgementReserved
  | AcknowledgementMismatch | CapabilityRequired | LogicalIdReused | ConcurrentlyPrepared
  | NonFiniteNumber | InvalidSettlement
  | HookRefused utext          \<comment> \<open>an \<open>AuthorityError\<close> a hook throws\<close>
  | HookError utext

record effect_request =
  rq_id :: "utext option"
  rq_capability :: utext
  rq_resource :: utext
  rq_payload :: json

record url_parts =
  url_protocol :: utext
  url_username :: utext
  url_password :: utext
  url_origin :: utext

record broker_cfg =
  sha256 :: "utext \<Rightarrow> utext"
  parse_url :: "utext \<Rightarrow> url_parts option"      \<comment> \<open>None when \<open>new URL\<close> throws\<close>
  context_ttl :: int
  check_context :: "db \<Rightarrow> int \<Rightarrow> tool_context \<Rightarrow> utext option"
  check_resource :: "db \<Rightarrow> int \<Rightarrow> tool_context \<Rightarrow> utext \<Rightarrow> utext \<Rightarrow> broker_error option"
  check_effect :: "db \<Rightarrow> int \<Rightarrow> tool_context \<Rightarrow> effect_request \<Rightarrow> broker_error option"
  on_verified :: "effect \<Rightarrow> db \<Rightarrow> db"

section \<open>The owner account wildcard\<close>

definition owner_account_resource :: utext where
  "owner_account_resource = js ''owner-account-chats''"

definition owner_account_reads :: "utext list" where
  "owner_account_reads = map js
     [''telegram.history'', ''telegram.search'', ''telegram.message.get'', ''telegram.context'',
      ''telegram.file.get'', ''telegram.participants'', ''telegram.poll.results'',
      ''telegram.reactions.get'', ''telegram.bot.buttons'', ''telegram.schedule.list'',
      ''telegram.peer.inspect'', ''telegram.channels.related'']"

definition owner_account_actions :: "utext list" where
  "owner_account_actions = map js
     [''telegram.folder.create'', ''telegram.folder.update'', ''telegram.source.join'']"

definition is_digit :: "nat \<Rightarrow> bool" where "is_digit c \<longleftrightarrow> 48 \<le> c \<and> c \<le> 57"

fun peer_digits :: "utext \<Rightarrow> bool" where
  \<comment> \<open>\<open>[1-9][0-9]{0,19}\<close>\<close>
  "peer_digits [] = False"
| "peer_digits (c # r) = (49 \<le> c \<and> c \<le> 57 \<and> length r \<le> 19 \<and> (\<forall>d \<in> set r. is_digit d))"

definition peer_number :: "utext \<Rightarrow> bool" where
  "peer_number s = (case s of [] \<Rightarrow> False | c # r \<Rightarrow> if c = 45 then peer_digits r else peer_digits s)"

definition permitsOwnerAccountResource :: "utext \<Rightarrow> utext \<Rightarrow> bool" where
  "permitsOwnerAccountResource capability resource \<longleftrightarrow>
     peer_number resource \<and> capability \<in> set (owner_account_reads @ owner_account_actions)"

section \<open>Grants\<close>

definition permits :: "broker_cfg \<Rightarrow> grant \<Rightarrow> utext \<Rightarrow> utext \<Rightarrow> bool" where
  "permits cfg g capability resource \<longleftrightarrow>
     (\<exists>c \<in> set (g_capabilities g).
        cg_capability c = capability \<and>
        (if resource \<in> set (cg_resources c) then True
         else if owner_account_resource \<in> set (cg_resources c) \<and>
                 permitsOwnerAccountResource capability resource then True
         else if capability \<notin> {js ''web.fetch'', js ''web.download''} \<or>
                 js ''public-web'' \<notin> set (cg_resources c) then False
         else (case parse_url cfg resource of
                 None \<Rightarrow> False
               | Some u \<Rightarrow> url_protocol u \<in> {js ''http:'', js ''https:''} \<and> url_username u = [] \<and>
                   url_password u = [] \<and> url_origin u = resource)))"

definition starts_with :: "utext \<Rightarrow> utext \<Rightarrow> bool" where
  "starts_with s p \<longleftrightarrow> take (length p) s = p"

definition operation_identity :: "broker_cfg \<Rightarrow> tool_context \<Rightarrow> effect_request \<Rightarrow> json option" where
  "operation_identity cfg ctx rq =
     (case (case rq_id rq of
              Some i \<Rightarrow> Some i
            | None \<Rightarrow> map_option (sha256 cfg) (canonicalJson (rq_payload rq))) of
        None \<Rightarrow> None
      | Some logical \<Rightarrow>
          Some (JArr ([JStr (tc_task ctx), JInt (tc_revision ctx)] @
            (if starts_with (tc_run ctx) (js ''cron:'') then [JStr (tc_run ctx)] else []) @
            [JStr logical, JStr (rq_capability rq), JStr (rq_resource rq)])))"

definition effectOperationId :: "broker_cfg \<Rightarrow> tool_context \<Rightarrow> effect_request \<Rightarrow> utext option" where
  \<comment> \<open>None when the canonical printer throws.\<close>
  "effectOperationId cfg ctx rq =
     Option.bind (operation_identity cfg ctx rq) (\<lambda>j. map_option (sha256 cfg) (canonicalJson j))"

section \<open>Contexts and tokens\<close>

definition validateContext ::
  "broker_cfg \<Rightarrow> int \<Rightarrow> db \<Rightarrow> tool_context \<Rightarrow> bool \<Rightarrow> broker_error + (task_intent \<times> grant)" where
  "validateContext cfg now d ctx additional =
     (case (kv_get (tasks d) (tc_task ctx), kv_get (grants d) (tc_grant ctx)) of
        (Some i, Some g) \<Rightarrow>
          if ti_grant i \<noteq> g_id g \<or> g_task g \<noteq> ti_id i \<or> ti_revision i \<noteq> tc_revision ctx \<or>
             g_revision g \<noteq> tc_grant_revision ctx \<or> g_revoked g \<noteq> None \<or> opt_passed (g_expires g) now
          then Inl NotAuthorized
          else if additional then
            (case check_context cfg d now ctx of
               Some m \<Rightarrow> Inl (ContextInvalidated m)
             | None \<Rightarrow> Inr (i, g))
          else Inr (i, g)
      | _ \<Rightarrow> Inl NotAuthorized)"

definition issue ::
  "broker_cfg \<Rightarrow> int \<Rightarrow> utext \<Rightarrow> tool_context \<Rightarrow> db \<Rightarrow> (broker_error + utext) \<times> db" where
  \<comment> \<open>\<open>token\<close> is the fresh random token.\<close>
  "issue cfg now token ctx d =
     (case validateContext cfg now d ctx False of
        Inl e \<Rightarrow> (Inl e, d)
      | Inr _ \<Rightarrow> (Inr token, put_context (sha256 cfg token)
          \<lparr>cr_context = ctx, cr_expires = Iso (now + context_ttl cfg), cr_revoked = None\<rparr> d))"

definition resolve :: "broker_cfg \<Rightarrow> int \<Rightarrow> db \<Rightarrow> utext \<Rightarrow> broker_error + context_record" where
  "resolve cfg now d token =
     (if length token > 256 then Inl InvalidToolContext
      else
        (case kv_get (contexts d) (sha256 cfg token) of
           None \<Rightarrow> Inl ContextUnavailable
         | Some r \<Rightarrow>
             if cr_revoked r \<noteq> None \<or> passed (cr_expires r) now then Inl ContextUnavailable
             else rbind (validateContext cfg now d (cr_context r) True) (\<lambda>_. Inr r)))"

definition bindToken ::
  "broker_cfg \<Rightarrow> int \<Rightarrow> utext \<Rightarrow> run_binding \<Rightarrow> db \<Rightarrow> (broker_error + unit) \<times> db" where
  "bindToken cfg now token b d =
     (case resolve cfg now d token of
        Inl e \<Rightarrow> (Inl e, d)
      | Inr r \<Rightarrow>
          if tc_task (cr_context r) \<noteq> rb_task b \<or> tc_revision (cr_context r) \<noteq> rb_revision b
          then (Inl BindingMismatch, d)
          else (Inr (), put_context (sha256 cfg token)
            (r\<lparr>cr_context := (cr_context r)\<lparr>tc_run := rb_run b\<rparr>\<rparr>) d))"

definition revokeToken :: "broker_cfg \<Rightarrow> int \<Rightarrow> utext \<Rightarrow> db \<Rightarrow> (broker_error + unit) \<times> db" where
  "revokeToken cfg now token d =
     (if length token > 256 then (Inl InvalidToolContext, d)
      else
        (case kv_get (contexts d) (sha256 cfg token) of
           None \<Rightarrow> (Inr (), d)
         | Some r \<Rightarrow>
             if cr_revoked r \<noteq> None then (Inr (), d)
             else (Inr (), put_context (sha256 cfg token) (r\<lparr>cr_revoked := Some (Iso now)\<rparr>) d)))"

definition authorize ::
  "broker_cfg \<Rightarrow> int \<Rightarrow> db \<Rightarrow> utext \<Rightarrow> utext \<Rightarrow> utext \<Rightarrow> broker_error + tool_context" where
  "authorize cfg now d token capability resource =
     rbind (resolve cfg now d token) (\<lambda>r.
       rbind (validateContext cfg now d (cr_context r) True) (\<lambda>(i, g).
         if \<not> permits cfg g capability resource then Inl OutsideGrant
         else
           (case check_resource cfg d now (cr_context r) capability resource of
              Some e \<Rightarrow> Inl e
            | None \<Rightarrow> Inr (cr_context r))))"

definition validateExecutionContext ::
  "broker_cfg \<Rightarrow> int \<Rightarrow> db \<Rightarrow> tool_context \<Rightarrow> broker_error + tool_context" where
  "validateExecutionContext cfg now d ctx = rbind (validateContext cfg now d ctx True) (\<lambda>_. Inr ctx)"

definition validateAuthority ::
  "broker_cfg \<Rightarrow> int \<Rightarrow> db \<Rightarrow> tool_context \<Rightarrow> broker_error + tool_context" where
  "validateAuthority cfg now d ctx = rbind (validateContext cfg now d ctx False) (\<lambda>_. Inr ctx)"

definition cancel_prepared :: "int \<Rightarrow> utext \<Rightarrow> effect \<Rightarrow> db \<Rightarrow> db" where
  "cancel_prepared now task e d =
     (if e_task e = task \<and> e_state e = EPrepared
      then put_effect (e_id e) (e\<lparr>e_state := ECancelled, e_updated := Iso now,
             e_reason := Some (js ''Task authority revoked before dispatch'')\<rparr>) d
      else d)"

definition revokeTask :: "int \<Rightarrow> utext \<Rightarrow> db \<Rightarrow> db" where
  "revokeTask now task d = fold (cancel_prepared now task) (kv_list (effects d)) d"

section \<open>Executing an effect\<close>

fun field :: "json option \<Rightarrow> string \<Rightarrow> json option" where
  \<comment> \<open>\<open>value?.key\<close> on a JSON value.\<close>
  "field (Some (JObj kvs)) k = map_of kvs (js k)"
| "field _ k = None"

fun truthy :: "json option \<Rightarrow> bool" where
  "truthy None = False"
| "truthy (Some JNull) = False"
| "truthy (Some (JBool b)) = b"
| "truthy (Some (JInt i)) = (i \<noteq> 0)"
| "truthy (Some (JStr s)) = (s \<noteq> [])"
| "truthy (Some JNonFinite) = True"
| "truthy (Some _) = True"

fun same_value :: "json option \<Rightarrow> json option \<Rightarrow> bool" where
  \<comment> \<open>\<open>===\<close> between values of different objects: by value on primitives, never on objects.\<close>
  "same_value None None = True"
| "same_value (Some (JArr _)) _ = False"
| "same_value (Some (JObj _)) _ = False"
| "same_value (Some JNonFinite) _ = False"
| "same_value (Some a) (Some b) = (a = b)"
| "same_value _ _ = False"

definition new_effect :: "int \<Rightarrow> utext \<Rightarrow> utext \<Rightarrow> tool_context \<Rightarrow> effect_request \<Rightarrow> effect" where
  "new_effect now i h ctx rq =
     \<lparr>e_id = i, e_task = tc_task ctx, e_revision = tc_revision ctx, e_grant = tc_grant ctx,
      e_grant_revision = tc_grant_revision ctx, e_capability = rq_capability rq,
      e_resource = rq_resource rq, e_payload = rq_payload rq, e_hash = h, e_state = EPrepared,
      e_created = Iso now, e_updated = Iso now, e_receipt = None, e_reason = None\<rparr>"

definition run_hooks ::
  "broker_cfg \<Rightarrow> db \<Rightarrow> int \<Rightarrow> tool_context \<Rightarrow> effect_request \<Rightarrow> broker_error + unit" where
  "run_hooks cfg d now ctx rq =
     (case check_resource cfg d now ctx (rq_capability rq) (rq_resource rq) of
        Some e \<Rightarrow> Inl e
      | None \<Rightarrow> (case check_effect cfg d now ctx rq of Some e \<Rightarrow> Inl e | None \<Rightarrow> Inr ()))"

definition prepare_effect ::
  "broker_cfg \<Rightarrow> int \<Rightarrow> tool_context \<Rightarrow> effect_request \<Rightarrow> utext \<Rightarrow> utext \<Rightarrow> db \<Rightarrow> broker_error + (effect \<times> db)" where
  \<comment> \<open>The transaction of \<open>executeBound\<close>: revalidate, claim the identity, mark dispatching.\<close>
  "prepare_effect cfg now ctx rq i h d =
     rbind (validateContext cfg now d ctx True) (\<lambda>_.
       rbind (run_hooks cfg d now ctx rq) (\<lambda>_.
         (case insert_effect i (new_effect now i h ctx rq) d of
            (False, _) \<Rightarrow> Inl ConcurrentlyPrepared
          | (True, d') \<Rightarrow>
              let e = (new_effect now i h ctx rq)\<lparr>e_state := EDispatching\<rparr>
              in Inr (e, put_effect i e d'))))"

definition begin_effect ::
  "broker_cfg \<Rightarrow> int \<Rightarrow> utext \<Rightarrow> effect_request \<Rightarrow> db \<Rightarrow> (broker_error + (effect \<times> bool)) \<times> db" where
  \<comment> \<open>\<open>executeBound\<close> up to the dispatch; the flag says that the effect is to be dispatched.\<close>
  "begin_effect cfg now token rq d =
     (if rq_capability rq = [] \<or> rq_resource rq = [] then (Inl CapabilityRequired, d)
      else
        (case
          rbind (resolve cfg now d token) (\<lambda>r.
            rbind (validateContext cfg now d (cr_context r) True) (\<lambda>(i, g).
              if \<not> permits cfg g (rq_capability rq) (rq_resource rq) then Inl EffectOutsideGrant
              else rbind (run_hooks cfg d now (cr_context r) rq) (\<lambda>_.
                (case canonicalJson (rq_payload rq) of
                   None \<Rightarrow> Inl NonFiniteNumber
                 | Some text \<Rightarrow>
                     (case effectOperationId cfg (cr_context r) rq of
                        None \<Rightarrow> Inl NonFiniteNumber
                      | Some i \<Rightarrow> Inr (cr_context r, i, sha256 cfg text)))))) of
           Inl e \<Rightarrow> (Inl e, d)
         | Inr (ctx, i, h) \<Rightarrow>
             (case kv_get (effects d) i of
                Some e \<Rightarrow>
                  if e_hash e \<noteq> h \<or> e_capability e \<noteq> rq_capability rq \<or> e_resource e \<noteq> rq_resource rq
                  then (Inl LogicalIdReused, d)
                  else (Inr (e, False), d)
              | None \<Rightarrow>
                  (case prepare_effect cfg now ctx rq i h d of
                     Inl e \<Rightarrow> (Inl e, d)
                   | Inr (e, d') \<Rightarrow> (Inr (e, True), d')))))"

definition settled_effect :: "int \<Rightarrow> effect \<Rightarrow> effect_result \<Rightarrow> effect_state \<Rightarrow> effect" where
  "settled_effect now e r s =
     e\<lparr>e_state := s,
       e_receipt := (case er_receipt r of None \<Rightarrow> e_receipt e | Some x \<Rightarrow> Some x),
       e_reason := (case er_reason r of
         Some x \<Rightarrow> Some x
       | None \<Rightarrow> if s = EVerified then None else e_reason e),
       e_updated := Iso now\<rparr>"

fun settled_state :: "result_state \<Rightarrow> effect_state option" where
  "settled_state RsVerified = Some EVerified"
| "settled_state RsFailed = Some EFailed"
| "settled_state RsUnknown = Some EUnknown"
| "settled_state (RsOther _) = None"

definition settle ::
  "broker_cfg \<Rightarrow> int \<Rightarrow> effect \<Rightarrow> effect_result \<Rightarrow> db \<Rightarrow> (broker_error + effect) \<times> db" where
  "settle cfg now e r d =
     (case settled_state (er_state r) of
        None \<Rightarrow> (Inl InvalidSettlement, d)
      | Some s \<Rightarrow>
          (case kv_get (effects d) (e_id e) of
             Some old \<Rightarrow>
               if e_state old = EVerified then (Inr old, d)
               else
                 (let t = settled_effect now e r s; d' = put_effect (e_id e) t d
                  in (Inr t, if s = EVerified then on_verified cfg t d' else d'))
           | None \<Rightarrow>
               (let t = settled_effect now e r s; d' = put_effect (e_id e) t d
                in (Inr t, if s = EVerified then on_verified cfg t d' else d'))))"

type_synonym executor = "effect \<Rightarrow> utext + effect_result"   \<comment> \<open>\<open>Inl\<close>: the call throws\<close>

definition outcome :: "utext + effect_result \<Rightarrow> effect_result" where
  "outcome x =
     (case x of
        Inl m \<Rightarrow> \<lparr>er_state = RsUnknown, er_receipt = None, er_reason = Some m\<rparr>
      | Inr r \<Rightarrow> r)"

definition executeBound ::
  "broker_cfg \<Rightarrow> executor \<Rightarrow> int \<Rightarrow> int \<Rightarrow> utext \<Rightarrow> effect_request \<Rightarrow> db \<Rightarrow> (broker_error + effect) \<times> db" where
  \<comment> \<open>Both halves with nothing in between; \<open>now'\<close> is the time of settlement.\<close>
  "executeBound cfg dispatch now now' token rq d =
     (case begin_effect cfg now token rq d of
        (Inl e, d') \<Rightarrow> (Inl e, d')
      | (Inr (e, False), d') \<Rightarrow> (Inr e, d')
      | (Inr (e, True), d') \<Rightarrow> settle cfg now' e (outcome (dispatch e)) d')"

definition execute ::
  "broker_cfg \<Rightarrow> executor \<Rightarrow> int \<Rightarrow> int \<Rightarrow> utext \<Rightarrow> effect_request \<Rightarrow> db \<Rightarrow> (broker_error + effect) \<times> db" where
  "execute cfg dispatch now now' token rq d =
     (if field (Some (rq_payload rq)) ''replaceAcknowledgement'' \<noteq> None
      then (Inl AcknowledgementReserved, d)
      else executeBound cfg dispatch now now' token rq d)"

definition acknowledgement_bound ::
  "db \<Rightarrow> tool_context \<Rightarrow> effect_request \<Rightarrow> json option \<Rightarrow> bool" where
  "acknowledgement_bound d ctx rq replacement =
     (let binding = kv_get (acknowledgements d) (tc_task ctx);
          original = (case field replacement ''effectId'' of
             Some (JStr i) \<Rightarrow> kv_get (effects d) i | _ \<Rightarrow> None)
      in rq_id rq = Some (js ''delivery:'' @ tc_run ctx @ js '':part:0'') \<and>
         rq_capability rq = js ''telegram.send'' \<and>
         (case (binding, original) of
            (Some b, Some e) \<Rightarrow>
              ak_revision b = tc_revision ctx \<and> ak_effect b = e_id e \<and>
              kv_get (control_targets d) (e_task e) = Some (tc_task ctx) \<and>
              e_state e = EVerified \<and> e_resource e = rq_resource rq \<and>
              same_value (field replacement ''payloadHash'') (Some (JStr (e_hash e))) \<and>
              same_value (field (e_receipt e) ''peerId'') (Some (JStr (rq_resource rq))) \<and>
              same_value (field (e_receipt e) ''messageId'') (field replacement ''messageId'') \<and>
              same_value (field replacement ''expectedText'') (Some (JStr ack_text))
          | _ \<Rightarrow> False))"

definition executeDelivery ::
  "broker_cfg \<Rightarrow> executor \<Rightarrow> int \<Rightarrow> int \<Rightarrow> utext \<Rightarrow> effect_request \<Rightarrow> db \<Rightarrow> (broker_error + effect) \<times> db" where
  "executeDelivery cfg dispatch now now' token rq d =
     (case resolve cfg now d token of
        Inl e \<Rightarrow> (Inl e, d)
      | Inr r \<Rightarrow>
          let replacement = field (Some (rq_payload rq)) ''replaceAcknowledgement'' in
          if truthy replacement \<and> \<not> acknowledgement_bound d (cr_context r) rq replacement
          then (Inl AcknowledgementMismatch, d)
          else executeBound cfg dispatch now now' token rq d)"

section \<open>Recovery\<close>

definition interrupted :: "int \<Rightarrow> effect \<Rightarrow> effect" where
  "interrupted now e =
     e\<lparr>e_state := EUnknown,
       e_reason := Some (or_else (e_reason e) (js ''Interrupted during dispatch'')),
       e_updated := Iso now\<rparr>"

definition needs_recovery :: "utext set \<Rightarrow> effect \<Rightarrow> bool" where
  "needs_recovery in_flight e \<longleftrightarrow> e_state e \<in> {EDispatching, EUnknown} \<and> e_id e \<notin> in_flight"

definition recover_one ::
  "broker_cfg \<Rightarrow> executor \<Rightarrow> utext set \<Rightarrow> int \<Rightarrow> int \<Rightarrow> effect \<Rightarrow> db \<Rightarrow> db" where
  "recover_one cfg reconcile in_flight now now' stored d =
     (if needs_recovery in_flight stored
      then
        (let e = interrupted now stored;
             d' = put_effect (e_id e) e d
         in snd (settle cfg now' e (outcome (reconcile e)) d'))
      else d)"

definition recover ::
  "broker_cfg \<Rightarrow> executor \<Rightarrow> utext set \<Rightarrow> int \<Rightarrow> int \<Rightarrow> db \<Rightarrow> db" where
  \<comment> \<open>The whole loop with nothing interleaved; a settlement that throws ends it in the code, and
     the executors are assumed to return one of the three declared states.\<close>
  "recover cfg reconcile in_flight now now' d =
     fold (recover_one cfg reconcile in_flight now now') (kv_list (effects d)) d"

definition task_effects :: "utext option \<Rightarrow> db \<Rightarrow> effect list" where
  "task_effects task d =
     filter (\<lambda>e. case task of None \<Rightarrow> True | Some t \<Rightarrow> t = [] \<or> e_task e = t) (kv_list (effects d))"

end
