(* ===== verification/BrokerProps.thy ===== *)
theory BrokerProps
  imports Broker
begin

text \<open>
  What the effect broker guarantees: the lemmas on each handler of theory Broker, a step
  relation that interleaves the halves of every asynchronous handler (executions in flight,
  recovery loops, restarts), and the properties of its reachable states.
\<close>

section \<open>The effect rows\<close>

abbreviation stored :: "db \<Rightarrow> utext \<Rightarrow> effect option" where
  "stored d \<equiv> kv_get (effects d)"

lemma stored_put_effect [simp]: "stored (put_effect k e d) = (stored d)(k \<mapsto> e)"
  by (simp add: put_effect_def kv.get_put)

lemma stored_put_other [simp]:
  "effects (put_context k c d) = effects d" "effects (put_task k t d) = effects d"
  "effects (put_grant k g d) = effects d"
  by (simp_all add: put_context_def put_task_def put_grant_def)

lemma other_put_effect [simp]:
  "contexts (put_effect k e d) = contexts d" "tasks (put_effect k e d) = tasks d"
  "grants (put_effect k e d) = grants d" "db_index (put_effect k e d) = db_index d"
  by (simp_all add: put_effect_def)

lemma insert_effect_fresh:
  "stored d k = None \<Longrightarrow> insert_effect k e d = (True, put_effect k e d)"
  by (simp add: insert_effect_def put_effect_def kv.ins_fresh)

lemma insert_effect_taken:
  "stored d k = Some e' \<Longrightarrow> insert_effect k e d = (False, d)"
  by (simp add: insert_effect_def kv.ins_taken)

lemma put_effect_twice: "stored (put_effect k e (put_effect k e' d)) = stored (put_effect k e d)"
  by simp

definition keyed :: "db \<Rightarrow> bool" where
  \<comment> \<open>Effects are stored under their own identifier, one row each.\<close>
  "keyed d \<longleftrightarrow> kv_ok (effects d) \<and> (\<forall>k e. stored d k = Some e \<longrightarrow> e_id e = k)"

lemma keyed_put_effect: "keyed d \<Longrightarrow> e_id e = k \<Longrightarrow> keyed (put_effect k e d)"
  by (auto simp: keyed_def) (simp add: put_effect_def kv.put_ok)

lemma keyed_list: "keyed d \<Longrightarrow> e \<in> set (kv_list (effects d)) \<Longrightarrow> stored d (e_id e) = Some e"
  unfolding keyed_def using kv.entries_memE by metis

lemma keyed_effects: "effects d' = effects d \<Longrightarrow> keyed d' = keyed d"
  by (simp add: keyed_def)

section \<open>Contexts\<close>

lemma validateContext_ok:
  "validateContext cfg now d ctx additional = Inr (i, g) \<longleftrightarrow>
     kv_get (tasks d) (tc_task ctx) = Some i \<and> kv_get (grants d) (tc_grant ctx) = Some g \<and>
     ti_grant i = g_id g \<and> g_task g = ti_id i \<and> ti_revision i = tc_revision ctx \<and>
     g_revision g = tc_grant_revision ctx \<and> g_revoked g = None \<and>
     \<not> opt_passed (g_expires g) now \<and> (additional \<longrightarrow> check_context cfg d now ctx = None)"
  by (auto simp: validateContext_def split: option.splits)

lemma resolve_ok:
  "resolve cfg now d token = Inr r \<longleftrightarrow>
     length token \<le> 256 \<and> kv_get (contexts d) (sha256 cfg token) = Some r \<and>
     cr_revoked r = None \<and> \<not> passed (cr_expires r) now \<and>
     (\<exists>i g. validateContext cfg now d (cr_context r) True = Inr (i, g))"
  by (auto simp: resolve_def rbind_eq_Inr split: option.splits)

section \<open>The first half of an execution\<close>

lemma new_effect_simps [simp]:
  "e_id (new_effect now i h ctx rq) = i" "e_state (new_effect now i h ctx rq) = EPrepared"
  "e_task (new_effect now i h ctx rq) = tc_task ctx" "e_hash (new_effect now i h ctx rq) = h"
  "e_capability (new_effect now i h ctx rq) = rq_capability rq"
  "e_resource (new_effect now i h ctx rq) = rq_resource rq"
  "e_payload (new_effect now i h ctx rq) = rq_payload rq"
  "e_grant (new_effect now i h ctx rq) = tc_grant ctx"
  "e_revision (new_effect now i h ctx rq) = tc_revision ctx"
  "e_grant_revision (new_effect now i h ctx rq) = tc_grant_revision ctx"
  by (simp_all add: new_effect_def)

lemma prepare_effect_ok:
  assumes "prepare_effect cfg now ctx rq i h d = Inr (e, d')"
  shows "e = (new_effect now i h ctx rq)\<lparr>e_state := EDispatching\<rparr>" "stored d i = None"
    "d' = put_effect i e (put_effect i (new_effect now i h ctx rq) d)"
    "run_hooks cfg d now ctx rq = Inr ()"
proof -
  have "stored d i = None"
    using assms by (cases "stored d i")
      (auto simp: prepare_effect_def rbind_eq_Inr insert_effect_taken)
  with assms show "e = (new_effect now i h ctx rq)\<lparr>e_state := EDispatching\<rparr>" "stored d i = None"
    "d' = put_effect i e (put_effect i (new_effect now i h ctx rq) d)"
    "run_hooks cfg d now ctx rq = Inr ()"
    by (auto simp: prepare_effect_def rbind_eq_Inr insert_effect_fresh Let_def)
qed

lemma begin_effect_cases:
  assumes "begin_effect cfg now token rq d = (r, d')"
  obtains (refused) e where "r = Inl e" "d' = d"
  | (known) c ctx i h e where "r = Inr (e, False)" "d' = d"
      "resolve cfg now d token = Inr c" "ctx = cr_context c"
      "effectOperationId cfg ctx rq = Some i" "map_option (sha256 cfg) (canonicalJson (rq_payload rq)) = Some h"
      "stored d i = Some e" "e_hash e = h" "e_capability e = rq_capability rq" "e_resource e = rq_resource rq"
  | (fresh) c ctx t g i h e where "r = Inr (e, True)" "resolve cfg now d token = Inr c" "ctx = cr_context c"
      "validateContext cfg now d ctx True = Inr (t, g)"
      "permits cfg g (rq_capability rq) (rq_resource rq)" "run_hooks cfg d now ctx rq = Inr ()"
      "effectOperationId cfg ctx rq = Some i" "map_option (sha256 cfg) (canonicalJson (rq_payload rq)) = Some h"
      "stored d i = None" "prepare_effect cfg now ctx rq i h d = Inr (e, d')"
proof -
  define m where "m = rbind (resolve cfg now d token) (\<lambda>r.
            rbind (validateContext cfg now d (cr_context r) True) (\<lambda>(i, g).
              if \<not> permits cfg g (rq_capability rq) (rq_resource rq) then Inl EffectOutsideGrant
              else rbind (run_hooks cfg d now (cr_context r) rq) (\<lambda>_.
                (case canonicalJson (rq_payload rq) of
                   None \<Rightarrow> Inl NonFiniteNumber
                 | Some text \<Rightarrow>
                     (case effectOperationId cfg (cr_context r) rq of
                        None \<Rightarrow> Inl NonFiniteNumber
                      | Some i \<Rightarrow> Inr (cr_context r, i, sha256 cfg text))))))"
  show thesis
  proof (cases "rq_capability rq = [] \<or> rq_resource rq = []")
    case True
    with assms show thesis by (auto simp: begin_effect_def intro: refused)
  next
    case False
    show thesis
    proof (cases m)
      case (Inl e)
      with assms False show thesis
        by (auto simp: begin_effect_def m_def [symmetric] intro: refused)
    next
      case (Inr y)
      obtain ctx i h where y: "y = (ctx, i, h)" by (cases y)
      obtain c t g where m: "resolve cfg now d token = Inr c" "ctx = cr_context c"
        "validateContext cfg now d ctx True = Inr (t, g)"
        "permits cfg g (rq_capability rq) (rq_resource rq)" "run_hooks cfg d now ctx rq = Inr ()"
        "effectOperationId cfg ctx rq = Some i" "map_option (sha256 cfg) (canonicalJson (rq_payload rq)) = Some h"
        using Inr unfolding m_def y
        by (auto simp: rbind_eq_Inr split: if_splits option.splits)
      have run: "begin_effect cfg now token rq d =
          (case stored d i of
                Some e \<Rightarrow>
                  if e_hash e \<noteq> h \<or> e_capability e \<noteq> rq_capability rq \<or> e_resource e \<noteq> rq_resource rq
                  then (Inl LogicalIdReused, d)
                  else (Inr (e, False), d)
              | None \<Rightarrow>
                  (case prepare_effect cfg now ctx rq i h d of
                     Inl e \<Rightarrow> (Inl e, d)
                   | Inr (e, d') \<Rightarrow> (Inr (e, True), d')))"
        using False Inr unfolding y by (simp add: begin_effect_def m_def [symmetric])
      show thesis
      proof (cases "stored d i")
        case None
        show thesis
        proof (cases "prepare_effect cfg now ctx rq i h d")
          case (Inl e)
          with run assms None show thesis by (auto intro: refused)
        next
          case p: (Inr z)
          obtain e d1 where "z = (e, d1)" by (cases z)
          with run assms None p m show thesis by (auto intro: fresh)
        qed
      next
        case (Some e)
        with run assms m show thesis
          by (auto split: if_splits intro: refused known)
      qed
    qed
  qed
qed


lemma begin_effect_db:
  assumes "begin_effect cfg now token rq d = (r, d')" "\<not> (\<exists>e. r = Inr (e, True))"
  shows "d' = d"
  using assms(1) by (cases rule: begin_effect_cases) (use assms(2) in auto)

lemma begin_effect_dispatches:
  assumes "begin_effect cfg now token rq d = (Inr (e, True), d')"
  shows "stored d (e_id e) = None" "stored d' = (stored d)(e_id e \<mapsto> e)" "e_state e = EDispatching"
    "keyed d \<Longrightarrow> keyed d'"
proof -
  from assms obtain c ctx t g i h where "prepare_effect cfg now ctx rq i h d = Inr (e, d')"
    by (cases rule: begin_effect_cases) auto
  from prepare_effect_ok [OF this]
  show "stored d (e_id e) = None" "stored d' = (stored d)(e_id e \<mapsto> e)" "e_state e = EDispatching"
    "keyed d \<Longrightarrow> keyed d'"
    by (auto intro!: keyed_put_effect)
qed

section \<open>Settlement\<close>

definition hook_keeps_effects :: "broker_cfg \<Rightarrow> bool" where
  \<comment> \<open>The controller's hook (\<open>captureOwnReceipt\<close>) records the delivered message, no effect.\<close>
  "hook_keeps_effects cfg \<longleftrightarrow> (\<forall>e d. effects (on_verified cfg e d) = effects d)"

lemma settled_effect_simps [simp]:
  "e_id (settled_effect now e r s) = e_id e" "e_state (settled_effect now e r s) = s"
  "e_task (settled_effect now e r s) = e_task e" "e_hash (settled_effect now e r s) = e_hash e"
  by (simp_all add: settled_effect_def)

lemma settled_state_cases: "settled_state x = Some s \<Longrightarrow> s \<in> {EVerified, EFailed, EUnknown}"
  by (cases x) auto

lemma settle_cases:
  assumes "settle cfg now e r d = (x, d')" "hook_keeps_effects cfg"
  obtains (invalid) "x = Inl InvalidSettlement" "d' = d" "settled_state (er_state r) = None"
  | (verified) old where "x = Inr old" "d' = d" "stored d (e_id e) = Some old" "e_state old = EVerified"
  | (written) s where "settled_state (er_state r) = Some s" "x = Inr (settled_effect now e r s)"
      "effects d' = effects (put_effect (e_id e) (settled_effect now e r s) d)"
      "\<forall>old. stored d (e_id e) = Some old \<longrightarrow> e_state old \<noteq> EVerified"
  using assms
  by (auto simp: settle_def hook_keeps_effects_def Let_def split: option.splits if_splits
      intro: that)

lemma settle_keyed:
  assumes "settle cfg now e r d = (x, d')" "hook_keeps_effects cfg" "keyed d"
  shows "keyed d'"
  using assms(1,2)
proof (cases rule: settle_cases)
  case (written s)
  then show ?thesis using assms(3) keyed_put_effect [OF assms(3), of "settled_effect now e r s"]
    by (simp add: keyed_effects [OF written(3)])
qed (use assms(3) in auto)

lemma settle_others:
  assumes "settle cfg now e r d = (x, d')" "hook_keeps_effects cfg" "k \<noteq> e_id e"
  shows "stored d' k = stored d k"
  using assms(1,2) by (cases rule: settle_cases) (use assms(3) in auto)

lemma settle_keeps_verified:
  assumes "settle cfg now e r d = (x, d')" "hook_keeps_effects cfg"
    "stored d k = Some old" "e_state old = EVerified"
  shows "stored d' k = Some old"
  using assms(1,2) by (cases rule: settle_cases) (use assms(3,4) in auto)

lemma settle_keeps_known:
  assumes "settle cfg now e r d = (x, d')" "hook_keeps_effects cfg" "stored d k \<noteq> None"
  shows "stored d' k \<noteq> None"
  using assms(1,2) by (cases rule: settle_cases) (use assms(3) in auto)

section \<open>Interleaved handlers\<close>

text \<open>
  A broker process with its database. \<open>bs_flight\<close> are the executions whose dispatch is
  awaited (\<open>inFlight\<close> is the set of their identifiers), \<open>bs_loops\<close> the running
  \<open>recover\<close> loops: the effect whose reconciliation is awaited, if any, and the part of the
  list the loop has still to visit. \<open>bs_trace\<close> is a ghost: every identifier handed to
  \<open>executor.dispatch\<close> so far. A step runs one handler between two awaits. \<open>Restart\<close> is a
  crash: the database survives, the process state does not.
\<close>

record broker_sys =
  bs_db :: db
  bs_flight :: "effect list"
  bs_loops :: "(effect option \<times> effect list) list"
  bs_trace :: "utext list"

definition flight_ids :: "broker_sys \<Rightarrow> utext set" where
  "flight_ids s = e_id ` set (bs_flight s)"

inductive broker_step :: "broker_cfg \<Rightarrow> broker_sys \<Rightarrow> broker_sys \<Rightarrow> bool" for cfg where
  Begin: "begin_effect cfg now token rq (bs_db s) = (Inr (e, True), d') \<Longrightarrow>
    broker_step cfg s (s\<lparr>bs_db := d', bs_flight := e # bs_flight s, bs_trace := bs_trace s @ [e_id e]\<rparr>)"
| Finish: "e \<in> set (bs_flight s) \<Longrightarrow> settle cfg now e (outcome x) (bs_db s) = (r, d') \<Longrightarrow>
    broker_step cfg s (s\<lparr>bs_db := d', bs_flight := remove1 e (bs_flight s)\<rparr>)"
| RecoverStart: "broker_step cfg s (s\<lparr>bs_loops := bs_loops s @ [(None, kv_list (effects (bs_db s)))]\<rparr>)"
| RecoverSkip: "bs_loops s = ls @ (None, e # es) # ls' \<Longrightarrow> \<not> needs_recovery (flight_ids s) e \<Longrightarrow>
    broker_step cfg s (s\<lparr>bs_loops := ls @ (None, es) # ls'\<rparr>)"
| RecoverItem: "bs_loops s = ls @ (None, e # es) # ls' \<Longrightarrow> needs_recovery (flight_ids s) e \<Longrightarrow>
    broker_step cfg s (s\<lparr>bs_db := put_effect (e_id e) (interrupted now e) (bs_db s),
      bs_loops := ls @ (Some (interrupted now e), es) # ls'\<rparr>)"
| RecoverSettle: "bs_loops s = ls @ (Some e, es) # ls' \<Longrightarrow>
    settle cfg now e (outcome x) (bs_db s) = (r, d') \<Longrightarrow>
    broker_step cfg s (s\<lparr>bs_db := d', bs_loops := ls @ (None, if is_ok r then es else []) # ls'\<rparr>)"
| Revoke: "broker_step cfg s (s\<lparr>bs_db := revokeTask now task (bs_db s)\<rparr>)"
| Elsewhere: "effects d' = effects (bs_db s) \<Longrightarrow> broker_step cfg s (s\<lparr>bs_db := d'\<rparr>)"
| Restart: "broker_step cfg s (s\<lparr>bs_flight := [], bs_loops := []\<rparr>)"

inductive_cases broker_stepE: "broker_step cfg s s'"

inductive broker_reachable :: "broker_cfg \<Rightarrow> broker_sys \<Rightarrow> broker_sys \<Rightarrow> bool" for cfg s where
  start: "broker_reachable cfg s s"
| step: "broker_reachable cfg s t \<Longrightarrow> broker_step cfg t u \<Longrightarrow> broker_reachable cfg s u"

definition broker_idle :: "broker_sys \<Rightarrow> bool" where
  \<comment> \<open>A process that has just started on a database of keyed, non-prepared effects.\<close>
  "broker_idle s \<longleftrightarrow> bs_flight s = [] \<and> bs_loops s = [] \<and> bs_trace s = [] \<and> keyed (bs_db s) \<and>
     (\<forall>k e. stored (bs_db s) k = Some e \<longrightarrow> e_state e \<noteq> EPrepared)"

definition loop_effects :: "effect option \<times> effect list \<Rightarrow> effect set" where
  "loop_effects l = set (snd l) \<union> (case fst l of None \<Rightarrow> {} | Some e \<Rightarrow> {e})"

definition broker_inv :: "broker_sys \<Rightarrow> bool" where
  "broker_inv s \<longleftrightarrow>
     keyed (bs_db s) \<and> distinct (bs_trace s) \<and>
     (\<forall>k \<in> set (bs_trace s). stored (bs_db s) k \<noteq> None) \<and>
     flight_ids s \<subseteq> set (bs_trace s) \<and>
     (\<forall>l \<in> set (bs_loops s). \<forall>e \<in> loop_effects l. stored (bs_db s) (e_id e) \<noteq> None) \<and>
     (\<forall>k e. stored (bs_db s) k = Some e \<longrightarrow> e_state e \<noteq> EPrepared)"

definition broker_grows :: "db \<Rightarrow> db \<Rightarrow> bool" where
  \<comment> \<open>What every handler keeps of the effect rows.\<close>
  "broker_grows d d' \<longleftrightarrow>
     (keyed d \<longrightarrow> keyed d') \<and>
     (\<forall>k. stored d k \<noteq> None \<longrightarrow> stored d' k \<noteq> None) \<and>
     (\<forall>k e. stored d' k = Some e \<longrightarrow> e_state e = EPrepared \<longrightarrow> stored d k = Some e)"

lemma broker_grows_refl: "effects d' = effects d \<Longrightarrow> broker_grows d d'"
  unfolding broker_grows_def keyed_def by simp

lemma broker_grows_settle:
  assumes "settle cfg now e r d = (x, d')" "hook_keeps_effects cfg"
  shows "broker_grows d d'"
proof -
  have "e_state f = EPrepared \<longrightarrow> stored d k = Some f" if "stored d' k = Some f" for k f
    using assms
  proof (cases rule: settle_cases)
    case (written s)
    with that settled_state_cases [OF written(1)] show ?thesis by (auto split: if_splits)
  qed (use that in auto)
  then show ?thesis unfolding broker_grows_def
    using settle_keyed [OF assms] settle_keeps_known [OF assms] by blast
qed

lemma broker_grows_begin:
  assumes "begin_effect cfg now token rq d = (Inr (e, True), d')"
  shows "broker_grows d d'"
proof -
  note b = begin_effect_dispatches [OF assms]
  have "stored d' k = Some f \<Longrightarrow> e_state f = EPrepared \<Longrightarrow> stored d k = Some f" for k f
    using b(3) unfolding b(2) by (cases "k = e_id e") auto
  moreover have "stored d k \<noteq> None \<Longrightarrow> stored d' k \<noteq> None" for k unfolding b(2) by simp
  ultimately show ?thesis using b(4) unfolding broker_grows_def by blast
qed

lemma broker_grows_item: "e_id e = k \<Longrightarrow> broker_grows d (put_effect k (interrupted now e) d)"
proof -
  assume k: "e_id e = k"
  have i: "e_id (interrupted now e) = e_id e" "e_state (interrupted now e) = EUnknown"
    by (simp_all add: interrupted_def)
  have "keyed d \<Longrightarrow> keyed (put_effect k (interrupted now e) d)" using k i by (simp add: keyed_put_effect)
  moreover have "stored (put_effect k (interrupted now e) d) l = Some f \<Longrightarrow> e_state f = EPrepared \<Longrightarrow>
      stored d l = Some f" for l f
    using i by (cases "l = k") auto
  ultimately show ?thesis unfolding broker_grows_def by simp
qed

lemma cancel_prepared_noop:
  "e_state e \<noteq> EPrepared \<Longrightarrow> cancel_prepared now task e d = d"
  by (simp add: cancel_prepared_def)

lemma revokeTask_noop:
  assumes "keyed d" "\<forall>k e. stored d k = Some e \<longrightarrow> e_state e \<noteq> EPrepared"
  shows "revokeTask now task d = d"
proof -
  have "\<forall>e \<in> set (kv_list (effects d)). e_state e \<noteq> EPrepared"
    using keyed_list [OF assms(1)] assms(2) by blast
  then have "fold (cancel_prepared now task) es d = d" if "set es \<subseteq> set (kv_list (effects d))" for es
    using that by (induction es) (simp_all add: cancel_prepared_noop)
  then show ?thesis by (simp add: revokeTask_def)
qed

lemma broker_inv_grows:
  assumes "broker_inv s" "broker_grows (bs_db s) d'"
  shows "broker_inv (s\<lparr>bs_db := d'\<rparr>)"
proof -
  have "stored d' k = Some e \<Longrightarrow> e_state e \<noteq> EPrepared" for k e
    using assms unfolding broker_inv_def broker_grows_def by blast
  with assms show ?thesis
    unfolding broker_inv_def broker_grows_def by (simp add: flight_ids_def)
qed


lemma broker_inv_cong:
  assumes "broker_inv s" "bs_db t = bs_db s" "bs_trace t = bs_trace s" "set (bs_flight t) \<subseteq> set (bs_flight s)"
    "\<forall>l \<in> set (bs_loops t). \<forall>e \<in> loop_effects l. stored (bs_db s) (e_id e) \<noteq> None"
  shows "broker_inv t"
proof -
  have "flight_ids t \<subseteq> flight_ids s" using assms(4) unfolding flight_ids_def by blast
  then have "flight_ids t \<subseteq> set (bs_trace s)" using assms(1) unfolding broker_inv_def by blast
  with assms(1,2,3,5) show ?thesis unfolding broker_inv_def by simp
qed

lemma in_set_remove1D: "x \<in> set (remove1 e xs) \<Longrightarrow> x \<in> set xs"
  using set_remove1_subset by fast

lemma loop_at:
  assumes "broker_inv s" "bs_loops s = ls @ l # ls'"
  shows "\<forall>e \<in> loop_effects l. stored (bs_db s) (e_id e) \<noteq> None"
    "\<forall>l \<in> set ls \<union> set ls'. \<forall>e \<in> loop_effects l. stored (bs_db s) (e_id e) \<noteq> None"
  using assms by (simp_all add: broker_inv_def)

lemma interrupted_id [simp]: "e_id (interrupted now e) = e_id e"
  by (simp add: interrupted_def)

lemma broker_inv_begin:
  assumes inv: "broker_inv s" and run: "begin_effect cfg now token rq (bs_db s) = (Inr (e, True), d')"
  shows "broker_inv (s\<lparr>bs_db := d', bs_flight := e # bs_flight s, bs_trace := bs_trace s @ [e_id e]\<rparr>)"
proof -
  note b = begin_effect_dispatches [OF run]
  have "e_id e \<notin> set (bs_trace s)" using inv b(1) unfolding broker_inv_def by metis
  moreover have "broker_inv (s\<lparr>bs_db := d'\<rparr>)"
    by (rule broker_inv_grows [OF inv broker_grows_begin [OF run]])
  moreover have "stored d' (e_id e) = Some e" using b(2) by simp
  ultimately show ?thesis unfolding broker_inv_def flight_ids_def by auto
qed

lemma broker_step_inv:
  assumes "broker_step cfg s s'" "hook_keeps_effects cfg" "broker_inv s"
  shows "broker_inv s'"
  using assms(1)
proof cases
  case (Begin now token rq e d')
  then show ?thesis using broker_inv_begin [OF assms(3)] by simp
next
  case (Finish e now x r d')
  have "broker_inv (s\<lparr>bs_db := d'\<rparr>)"
    by (rule broker_inv_grows [OF assms(3) broker_grows_settle [OF Finish(3) assms(2)]])
  then show ?thesis unfolding Finish(1)
    by (rule broker_inv_cong)
      (use \<open>broker_inv (s\<lparr>bs_db := d'\<rparr>)\<close> in \<open>auto simp: broker_inv_def dest: in_set_remove1D\<close>)
next
  case RecoverStart
  have "\<forall>e \<in> set (kv_list (effects (bs_db s))). stored (bs_db s) (e_id e) \<noteq> None"
    using keyed_list assms(3) unfolding broker_inv_def by fastforce
  then show ?thesis unfolding RecoverStart using assms(3)
    by (intro broker_inv_cong [OF assms(3)]) (auto simp: broker_inv_def loop_effects_def)
next
  case (RecoverSkip ls e es ls')
  show ?thesis unfolding RecoverSkip(1)
    by (rule broker_inv_cong [OF assms(3)])
      (use loop_at [OF assms(3) RecoverSkip(2)] in \<open>auto simp: loop_effects_def\<close>)
next
  case (RecoverItem ls e es ls' now)
  let ?d = "put_effect (e_id e) (interrupted now e) (bs_db s)"
  have inv: "broker_inv (s\<lparr>bs_db := ?d\<rparr>)"
    by (rule broker_inv_grows [OF assms(3) broker_grows_item]) simp
  show ?thesis unfolding RecoverItem(1)
    by (rule broker_inv_cong [OF inv])
      (use loop_at [OF assms(3) RecoverItem(2)] in \<open>auto simp: loop_effects_def\<close>)
next
  case (RecoverSettle ls e es ls' now x r d')
  have inv: "broker_inv (s\<lparr>bs_db := d'\<rparr>)"
    by (rule broker_inv_grows [OF assms(3) broker_grows_settle [OF RecoverSettle(3) assms(2)]])
  have "bs_loops (s\<lparr>bs_db := d'\<rparr>) = ls @ (Some e, es) # ls'" using RecoverSettle(2) by simp
  note at = loop_at [OF inv this]
  show ?thesis unfolding RecoverSettle(1)
    by (rule broker_inv_cong [OF inv]) (use at in \<open>auto simp: loop_effects_def\<close>)
next
  case (Revoke now task)
  have "revokeTask now task (bs_db s) = bs_db s"
    using assms(3) unfolding broker_inv_def by (intro revokeTask_noop) auto
  with Revoke assms(3) show ?thesis by simp
next
  case (Elsewhere d')
  show ?thesis unfolding Elsewhere(1)
    by (rule broker_inv_grows [OF assms(3) broker_grows_refl [OF Elsewhere(2)]])
next
  case Restart
  then show ?thesis by (intro broker_inv_cong [OF assms(3)]) auto
qed

lemma broker_reachable_inv:
  assumes "broker_reachable cfg s t" "hook_keeps_effects cfg" "broker_idle s"
  shows "broker_inv t"
  using assms
proof induction
  case start
  then show ?case by (auto simp: broker_idle_def broker_inv_def flight_ids_def)
next
  case (step t u)
  then show ?case using broker_step_inv by blast
qed

section \<open>A concrete broker\<close>

text \<open>For the witnesses: one task with a grant to send to one chat, one token, SHA-256
  replaced by the identity (which has no collisions).\<close>

definition demo_cfg :: broker_cfg where
  "demo_cfg = \<lparr>sha256 = (\<lambda>x. x), parse_url = (\<lambda>_. None), context_ttl = 1000,
     check_context = (\<lambda>_ _ _. None), check_resource = (\<lambda>_ _ _ _ _. None),
     check_effect = (\<lambda>_ _ _ _. None), on_verified = (\<lambda>_ d. d)\<rparr>"

lemma demo_cfg_hook: "hook_keeps_effects demo_cfg"
  by (simp add: hook_keeps_effects_def demo_cfg_def)

definition demo_ref :: message_ref where
  "demo_ref = \<lparr>mr_account = [65], mr_peer = [80], mr_message = [49], mr_thread = None\<rparr>"

definition demo_task :: task_intent where
  "demo_task = \<lparr>ti_id = [84], ti_owner = [79], ti_account = [65], ti_source = demo_ref,
     ti_instruction = [120], ti_revision = 1,
     ti_route = \<lparr>rt_peer = [80], rt_thread = None, rt_reply = None\<rparr>, ti_created = Iso 0,
     ti_updated = Iso 0, ti_contexts = [], ti_artifacts = [], ti_grant = [71], ti_control_only = False\<rparr>"

definition demo_grant :: grant where
  "demo_grant = \<lparr>g_id = [71], g_task = [84], g_revision = 1,
     g_capabilities = [\<lparr>cg_capability = [83], cg_resources = [[80]]\<rparr>], g_expires = None, g_revoked = None\<rparr>"

definition demo_ctx :: tool_context where
  "demo_ctx = \<lparr>tc_task = [84], tc_revision = 1, tc_grant = [71], tc_grant_revision = 1, tc_run = [82]\<rparr>"

definition empty_db :: db where
  "empty_db = \<lparr>db_index = (\<lambda>_ _. 0), contexts = [], tasks = [], grants = [], effects = [],
     acknowledgements = [], control_targets = [], admissions = [], runs = [], controls = [],
     child_stops = [], own_outputs = [], sources = [], owner_changes = [], origin_deadlines = [],
     origin_reviews = [], grant_baselines = [], corrections = [], applied_changes = [],
     observations = [], results = [], identities = [], sequences = []\<rparr>"

definition demo_db :: db where
  "demo_db = empty_db\<lparr>tasks := [([84], demo_task)], grants := [([71], demo_grant)],
     contexts := [([42], \<lparr>cr_context = demo_ctx, cr_expires = Iso 1000, cr_revoked = None\<rparr>)]\<rparr>"

definition demo_request :: effect_request where
  "demo_request = \<lparr>rq_id = Some [105], rq_capability = [83], rq_resource = [80], rq_payload = JNull\<rparr>"

definition demo_sys :: broker_sys where
  "demo_sys = \<lparr>bs_db = demo_db, bs_flight = [], bs_loops = [], bs_trace = []\<rparr>"

lemma demo_sys_idle: "broker_idle demo_sys"
  by (simp add: broker_idle_def demo_sys_def demo_db_def empty_db_def keyed_def kv_ok_def kv_get_def)


definition demo_id :: utext where
  "demo_id = or_else (effectOperationId demo_cfg demo_ctx demo_request) []"

definition demo_effect :: effect where
  "demo_effect = (new_effect 0 demo_id (js ''null'') demo_ctx demo_request)\<lparr>e_state := EDispatching\<rparr>"

lemma demo_id_eq: "effectOperationId demo_cfg demo_ctx demo_request = Some demo_id"
  by (simp add: demo_id_def effectOperationId_def operation_identity_def demo_request_def
      demo_ctx_def demo_cfg_def starts_with_def)

lemmas demo_defs = demo_cfg_def demo_task_def demo_grant_def demo_ctx_def demo_db_def empty_db_def
  demo_request_def demo_effect_def

lemma demo_payload: "canonicalJson (rq_payload demo_request) = Some (js ''null'')"
  by (simp add: demo_request_def)

lemma demo_validate:
  "validateContext demo_cfg 0 demo_db demo_ctx b = Inr (demo_task, demo_grant)"
  by (simp add: validateContext_ok) (simp add: demo_defs kv_get_def)

lemma demo_resolve:
  "resolve demo_cfg 0 demo_db [42] = Inr \<lparr>cr_context = demo_ctx, cr_expires = Iso 1000, cr_revoked = None\<rparr>"
  unfolding resolve_ok using demo_validate [of True]
  by (simp add: demo_cfg_def demo_db_def kv_get_def)

lemma demo_permits: "permits demo_cfg demo_grant (rq_capability demo_request) (rq_resource demo_request)"
  by (simp add: permits_def demo_grant_def demo_request_def)

lemma demo_hooks: "run_hooks demo_cfg d now ctx rq = Inr ()"
  by (simp add: run_hooks_def demo_cfg_def)

lemma demo_stored: "stored demo_db k = None"
  by (simp add: demo_db_def empty_db_def kv_get_def)

lemma demo_begin:
  "begin_effect demo_cfg 0 [42] demo_request demo_db =
     (Inr (demo_effect, True),
      put_effect demo_id demo_effect (put_effect demo_id (new_effect 0 demo_id (js ''null'') demo_ctx demo_request) demo_db))"
proof -
  have "rq_capability demo_request \<noteq> []" "rq_resource demo_request \<noteq> []"
    by (simp_all add: demo_request_def)
  moreover have "sha256 demo_cfg x = x" for x by (simp add: demo_cfg_def)
  ultimately show ?thesis
    by (simp add: begin_effect_def demo_resolve demo_validate demo_permits demo_hooks demo_payload
        demo_id_eq demo_stored prepare_effect_def insert_effect_fresh Let_def)
      (simp add: demo_effect_def)
qed

section \<open>Properties\<close>

text \<open>
  C2 No effect is dispatched twice: over any interleaving of executions, settlements, recovery
  loops, task revocations, unrelated writes and crash restarts, the identifiers handed to the
  executor are pairwise distinct, each of them has its row in the database, and whatever is in
  flight was dispatched by this history.
\<close>

theorem dispatch_at_most_once:
  assumes "broker_idle s" "hook_keeps_effects cfg" "broker_reachable cfg s t"
  shows "distinct (bs_trace t) \<and> (\<forall>k \<in> set (bs_trace t). stored (bs_db t) k \<noteq> None) \<and>
    flight_ids t \<subseteq> set (bs_trace t)"
  using broker_reachable_inv [OF assms(3,2,1)] unfolding broker_inv_def by blast

lemma demo_step:
  "broker_step demo_cfg demo_sys (demo_sys\<lparr>bs_db := snd (begin_effect demo_cfg 0 [42] demo_request demo_db),
     bs_flight := [demo_effect], bs_trace := [demo_id]\<rparr>)"
  using Begin [where s = demo_sys and cfg = demo_cfg and now = 0 and token = "[42]" and rq = demo_request]
    demo_begin
  by (simp add: demo_sys_def) (simp add: demo_effect_def)

theorem dispatch_at_most_once_witness:
  "stored (snd (begin_effect demo_cfg 0 [42] demo_request demo_db)) demo_id \<noteq> None"
proof -
  have "broker_reachable demo_cfg demo_sys (demo_sys\<lparr>bs_db := snd (begin_effect demo_cfg 0 [42] demo_request demo_db),
      bs_flight := [demo_effect], bs_trace := [demo_id]\<rparr>)"
    by (rule broker_reachable.step [OF broker_reachable.start demo_step])
  from dispatch_at_most_once [OF demo_sys_idle demo_cfg_hook this]
  show ?thesis by simp
qed

text \<open>
  C4 Nothing reaches the executor without authority at that moment: a dispatched effect comes
  from an unrevoked, unexpired token whose task and grant are the current ones at the revisions
  the token names, whose grant is live and permits the capability on the resource, with every
  hook passing; the effect records exactly the requested capability, resource and payload with
  the hash of its canonical text, and it is on disk as dispatching before the executor runs.
\<close>

theorem dispatch_authorized:
  assumes "begin_effect cfg now token rq d = (Inr (e, True), d')"
  shows "\<exists>c i g. kv_get (contexts d) (sha256 cfg token) = Some c \<and> cr_revoked c = None \<and>
      \<not> passed (cr_expires c) now \<and>
      kv_get (tasks d) (tc_task (cr_context c)) = Some i \<and> ti_revision i = tc_revision (cr_context c) \<and>
      kv_get (grants d) (tc_grant (cr_context c)) = Some g \<and> ti_grant i = g_id g \<and> g_task g = ti_id i \<and>
      g_revision g = tc_grant_revision (cr_context c) \<and> g_revoked g = None \<and>
      \<not> opt_passed (g_expires g) now \<and> permits cfg g (rq_capability rq) (rq_resource rq) \<and>
      check_context cfg d now (cr_context c) = None \<and>
      check_resource cfg d now (cr_context c) (rq_capability rq) (rq_resource rq) = None \<and>
      check_effect cfg d now (cr_context c) rq = None \<and>
      effectOperationId cfg (cr_context c) rq = Some (e_id e) \<and>
      map_option (sha256 cfg) (canonicalJson (rq_payload rq)) = Some (e_hash e) \<and>
      e_capability e = rq_capability rq \<and> e_resource e = rq_resource rq \<and> e_payload e = rq_payload rq \<and>
      e_task e = tc_task (cr_context c) \<and> stored d (e_id e) = None \<and>
      stored d' (e_id e) = Some e \<and> e_state e = EDispatching"
proof -
  from assms obtain c t g i h where c: "resolve cfg now d token = Inr c"
    "validateContext cfg now d (cr_context c) True = Inr (t, g)"
    "permits cfg g (rq_capability rq) (rq_resource rq)" "run_hooks cfg d now (cr_context c) rq = Inr ()"
    "effectOperationId cfg (cr_context c) rq = Some i"
    "map_option (sha256 cfg) (canonicalJson (rq_payload rq)) = Some h"
    and p: "prepare_effect cfg now (cr_context c) rq i h d = Inr (e, d')"
    by (cases rule: begin_effect_cases) auto
  have hooks: "check_resource cfg d now (cr_context c) (rq_capability rq) (rq_resource rq) = None"
    "check_effect cfg d now (cr_context c) rq = None"
    using c(4) by (auto simp: run_hooks_def split: option.splits)
  note e = prepare_effect_ok(1) [OF p]
  have "e_id e = i" "e_hash e = h" "e_capability e = rq_capability rq" "e_resource e = rq_resource rq"
    "e_payload e = rq_payload rq" "e_task e = tc_task (cr_context c)"
    by (simp_all add: e)
  with c hooks begin_effect_dispatches [OF assms] show ?thesis
    unfolding validateContext_ok resolve_ok by auto
qed

theorem dispatch_authorized_witness:
  "\<exists>g. kv_get (grants demo_db) (tc_grant demo_ctx) = Some g \<and> g_revoked g = None \<and>
     permits demo_cfg g (rq_capability demo_request) (rq_resource demo_request)"
proof -
  have "kv_get (contexts demo_db) (sha256 demo_cfg [42]) =
      Some \<lparr>cr_context = demo_ctx, cr_expires = Iso 1000, cr_revoked = None\<rparr>"
    by (simp add: demo_db_def demo_cfg_def kv_get_def)
  with dispatch_authorized [OF demo_begin] show ?thesis by auto
qed


text \<open>
  An operation that already has an effect is never dispatched again, whatever state that
  effect is in (dispatching, failed, unknown or verified): the stored effect is the answer when
  the payload is the same, and a different payload under the same identity is an error. In both
  cases the database is untouched.
\<close>

theorem known_operation_not_redispatched:
  assumes "resolve cfg now d token = Inr c" "effectOperationId cfg (cr_context c) rq = Some i"
    and "stored d i = Some e" "begin_effect cfg now token rq d = (r, d')"
  shows "d' = d \<and> (\<forall>x fresh. r = Inr (x, fresh) \<longrightarrow> \<not> fresh \<and> x = e \<and>
      map_option (sha256 cfg) (canonicalJson (rq_payload rq)) = Some (e_hash e))"
  using assms(4) by (cases rule: begin_effect_cases) (use assms(1-3) in auto)

theorem known_operation_not_redispatched_witness:
  "\<exists>r d. begin_effect demo_cfg 0 [42] demo_request (put_effect demo_id demo_effect demo_db) = (r, d) \<and>
     d = put_effect demo_id demo_effect demo_db"
proof -
  let ?d = "put_effect demo_id demo_effect demo_db"
  obtain r d where run: "begin_effect demo_cfg 0 [42] demo_request ?d = (r, d)"
    by (cases "begin_effect demo_cfg 0 [42] demo_request ?d")
  have v: "validateContext demo_cfg 0 ?d demo_ctx True = Inr (demo_task, demo_grant)"
    using demo_validate [of True] by (simp add: validateContext_ok) (simp add: demo_cfg_def)
  have "resolve demo_cfg 0 ?d [42] = Inr \<lparr>cr_context = demo_ctx, cr_expires = Iso 1000, cr_revoked = None\<rparr>"
    unfolding resolve_ok using v by (simp add: demo_cfg_def) (simp add: demo_db_def kv_get_def)
  from known_operation_not_redispatched [OF this _ _ run, of demo_id demo_effect] demo_id_eq run
  show ?thesis by simp
qed

definition context_dead :: "int \<Rightarrow> db \<Rightarrow> tool_context \<Rightarrow> bool" where
  "context_dead now d ctx \<longleftrightarrow>
     (case kv_get (grants d) (tc_grant ctx) of
        None \<Rightarrow> True
      | Some g \<Rightarrow> g_revoked g \<noteq> None \<or> opt_passed (g_expires g) now \<or> g_revision g \<noteq> tc_grant_revision ctx) \<or>
     (case kv_get (tasks d) (tc_task ctx) of
        None \<Rightarrow> True
      | Some i \<Rightarrow> ti_revision i \<noteq> tc_revision ctx)"

text \<open>
  Revoking, expiring or superseding the grant, or revising the task, stops every token that
  names it at once: no token resolves, nothing is authorized, no token can be bound, and no
  execution begins, whatever the token.
\<close>

theorem dead_context_refused:
  assumes "kv_get (contexts d) (sha256 cfg token) = Some c" "context_dead now d (cr_context c)"
  shows "\<not> is_ok (resolve cfg now d token) \<and> \<not> is_ok (authorize cfg now d token cap res) \<and>
    \<not> is_ok (fst (bindToken cfg now token b d)) \<and> snd (bindToken cfg now token b d) = d \<and>
    \<not> is_ok (fst (begin_effect cfg now token rq d)) \<and> snd (begin_effect cfg now token rq d) = d \<and>
    \<not> is_ok (fst (execute cfg dispatch now now' token rq d)) \<and>
    \<not> is_ok (fst (executeDelivery cfg dispatch now now' token rq d))"
proof -
  have no: "validateContext cfg now d (cr_context c) True \<noteq> Inr y" for y
  proof
    assume "validateContext cfg now d (cr_context c) True = Inr y"
    then show False using assms(2)
      by (cases y) (simp add: validateContext_ok context_dead_def)
  qed
  have "resolve cfg now d token \<noteq> Inr c'" for c'
    using no assms(1) unfolding resolve_ok by force
  then obtain e where e: "resolve cfg now d token = Inl e" by (cases "resolve cfg now d token") auto
  then obtain e' where "begin_effect cfg now token rq d = (Inl e', d)"
    by (cases "rq_capability rq = [] \<or> rq_resource rq = []") (simp_all add: begin_effect_def)
  with e show ?thesis
    by (simp add: authorize_def bindToken_def execute_def executeDelivery_def executeBound_def)
qed

theorem dead_context_refused_witness:
  "\<not> is_ok (resolve demo_cfg 0 (put_grant [71] (demo_grant\<lparr>g_revoked := Some (Iso 0)\<rparr>) demo_db) [42])"
proof -
  let ?d = "put_grant [71] (demo_grant\<lparr>g_revoked := Some (Iso 0)\<rparr>) demo_db"
  have "kv_get (contexts ?d) (sha256 demo_cfg [42]) =
      Some \<lparr>cr_context = demo_ctx, cr_expires = Iso 1000, cr_revoked = None\<rparr>"
    by (simp add: put_grant_def demo_db_def demo_cfg_def kv_get_def)
  moreover have "context_dead 0 ?d demo_ctx"
    by (simp add: context_dead_def put_grant_def demo_ctx_def kv.get_put)
  ultimately show ?thesis using dead_context_refused [where d = ?d and cfg = demo_cfg and now = 0] by simp
qed

definition logical_id :: "broker_cfg \<Rightarrow> effect_request \<Rightarrow> utext option" where
  "logical_id cfg rq = (case rq_id rq of
     Some i \<Rightarrow> Some i | None \<Rightarrow> map_option (sha256 cfg) (canonicalJson (rq_payload rq)))"

definition cron_run :: "tool_context \<Rightarrow> utext option" where
  "cron_run ctx = (if starts_with (tc_run ctx) (js ''cron:'') then Some (tc_run ctx) else None)"

lemma operation_identity_logical:
  "operation_identity cfg ctx rq = map_option (\<lambda>l. JArr ([JStr (tc_task ctx), JInt (tc_revision ctx)] @
     (case cron_run ctx of None \<Rightarrow> [] | Some r \<Rightarrow> [JStr r]) @
     [JStr l, JStr (rq_capability rq), JStr (rq_resource rq)])) (logical_id cfg rq)"
  by (cases "logical_id cfg rq") (simp_all add: operation_identity_def logical_id_def cron_run_def)


definition demo_swapped :: "bool \<Rightarrow> effect_request" where
  "demo_swapped b = demo_request\<lparr>rq_id := None,
     rq_payload := JObj (if b then [([97], JInt 1), ([98], JNull)] else [([98], JNull), ([97], JInt 1)])\<rparr>"

lemma demo_swapped_canonical:
  "canonicalJson (rq_payload (demo_swapped b)) =
     Some (123 # join [json_string [97] @ 58 # show_int 1, json_string [98] @ 58 # js ''null''] @ [125])"
  by (cases b) (simp_all add: demo_swapped_def canonicalJson.simps(8))

lemma demo_swapped_simps:
  "rq_id (demo_swapped b) = None" "rq_capability (demo_swapped b) = [83]" "rq_resource (demo_swapped b) = [80]"
  by (simp_all add: demo_swapped_def demo_request_def)



text \<open>
  A verified effect is final: no settlement, execution, revocation, restart or recovery step
  changes it, except a recovery loop that is about to visit a copy of that effect it listed
  while the effect was still unsettled.
\<close>

theorem verified_is_final:
  assumes "broker_idle s\<^sub>0" "hook_keeps_effects cfg" "broker_reachable cfg s\<^sub>0 s" "broker_step cfg s s'"
    and "stored (bs_db s) k = Some e" "e_state e = EVerified"
    and "\<forall>f es. (None, f # es) \<in> set (bs_loops s) \<longrightarrow> e_id f = k \<longrightarrow> \<not> needs_recovery (flight_ids s) f"
  shows "stored (bs_db s') k = Some e"
  using assms(4)
proof cases
  case (Begin now token rq f d')
  from begin_effect_dispatches(1,2) [OF Begin(2)] assms(5) show ?thesis unfolding Begin(1) by auto
next
  case (Finish f now x r d')
  from settle_keeps_verified [OF Finish(3) assms(2,5,6)] show ?thesis unfolding Finish(1) by simp
next
  case (RecoverItem ls f es ls' now)
  with assms(7) have "e_id f \<noteq> k" by auto
  with assms(5) show ?thesis unfolding RecoverItem(1) by simp
next
  case (RecoverSettle ls f es ls' now x r d')
  from settle_keeps_verified [OF RecoverSettle(3) assms(2,5,6)] show ?thesis unfolding RecoverSettle(1) by simp
next
  case (Revoke now task)
  have "broker_inv s" using broker_reachable_inv [OF assms(3,2,1)] .
  then have "revokeTask now task (bs_db s) = bs_db s" unfolding broker_inv_def by (intro revokeTask_noop) auto
  with assms(5) show ?thesis unfolding Revoke(1) by simp
qed (use assms(5) in simp_all)

definition demo_verified :: effect where
  "demo_verified = demo_effect\<lparr>e_state := EVerified\<rparr>"

definition demo_sys_verified :: broker_sys where
  "demo_sys_verified = demo_sys\<lparr>bs_db := put_effect demo_id demo_verified demo_db\<rparr>"

lemma demo_ids [simp]: "e_id demo_effect = demo_id" "e_id demo_verified = demo_id"
  by (simp_all add: demo_effect_def demo_verified_def)

theorem verified_is_final_witness:
  "stored (bs_db (demo_sys_verified\<lparr>bs_flight := [], bs_loops := []\<rparr>)) demo_id = Some demo_verified"
proof -
  have "keyed demo_db" using demo_sys_idle by (simp add: broker_idle_def demo_sys_def)
  then have "keyed (put_effect demo_id demo_verified demo_db)" by (simp add: keyed_put_effect)
  then have idle: "broker_idle demo_sys_verified"
    by (simp add: broker_idle_def demo_sys_verified_def demo_sys_def demo_stored demo_verified_def)
  show ?thesis
    by (rule verified_is_final [OF idle demo_cfg_hook broker_reachable.start broker_step.Restart])
      (simp_all add: demo_sys_verified_def demo_sys_def demo_verified_def)
qed

text \<open>
  C11 The exception is real: \<open>recover\<close> lists the effects once and judges every later one by that
  list. When the list holds an interrupted effect \<open>a\<close> and then \<open>b\<close>, whose dispatch is still
  awaited, and \<open>b\<close> settles verified while the reconciliation of \<open>a\<close> is awaited, then the loop
  takes \<open>b\<close> for interrupted, since its identifier is no longer in flight, and overwrites the
  verified record: it becomes unknown with the diagnostic of an interrupted dispatch, its
  receipt is lost, and an inconclusive reconciliation leaves it so.
\<close>

theorem recovery_overwrites_verified:
  assumes "keyed d" "hook_keeps_effects cfg" "kv_list (effects d) = [a, b]"
    and "needs_recovery {e_id b} a" "e_state b = EDispatching" "e_receipt b = None" "e_reason b = None"
    and "d1 = put_effect (e_id a) (interrupted now a) d"
    and "settle cfg now b \<lparr>er_state = RsVerified, er_receipt = Some receipt, er_reason = None\<rparr> d1 = (r1, d2)"
    and "settle cfg now (interrupted now a) a_result d2 = (r2, d3)"
    and "d4 = recover_one cfg (\<lambda>_. Inr \<lparr>er_state = RsUnknown, er_receipt = None, er_reason = None\<rparr>) {} now now b d3"
  shows "(\<exists>v. stored d3 (e_id b) = Some v \<and> e_state v = EVerified \<and> e_receipt v = Some receipt) \<and>
    (\<exists>u. stored d4 (e_id b) = Some u \<and> e_state u = EUnknown \<and> e_receipt u = None \<and>
       e_reason u = Some (js ''Interrupted during dispatch''))"
proof -
  have diff: "e_id a \<noteq> e_id b" using assms(4) by (auto simp: needs_recovery_def)
  have "b \<in> set (kv_list (effects d))" using assms(3) by simp
  then have "stored d (e_id b) = Some b" using keyed_list [OF assms(1)] by blast
  then have b1: "stored d1 (e_id b) = Some b" using diff assms(8) by simp
  obtain v where v: "stored d2 (e_id b) = Some v" "e_state v = EVerified" "e_receipt v = Some receipt"
    using assms(9,2)
  proof (cases rule: settle_cases)
    case (written s)
    then show thesis using that by (simp add: settled_effect_def)
  qed (use b1 assms(5) in auto)
  with settle_keeps_verified [OF assms(10,2)] have v3: "stored d3 (e_id b) = Some v" by blast
  have "needs_recovery {} b" using assms(5) by (simp add: needs_recovery_def)
  then have "\<exists>u. stored d4 (e_id b) = Some u \<and> e_state u = EUnknown \<and> e_receipt u = None \<and>
       e_reason u = Some (js ''Interrupted during dispatch'')"
    unfolding assms(11)
    by (simp add: recover_one_def settle_def outcome_def Let_def)
      (simp add: settled_effect_def interrupted_def assms(6,7))
  with v v3 show ?thesis by blast
qed

definition demo_other :: effect where
  "demo_other = demo_effect\<lparr>e_id := [97], e_state := EUnknown\<rparr>"

definition demo_db2 :: db where
  "demo_db2 = demo_db\<lparr>effects := [([97], demo_other), (demo_id, demo_effect)]\<rparr>"

lemma demo_id_other: "demo_id \<noteq> [97]"
proof
  assume "demo_id = [97]"
  with demo_id_eq have "effectOperationId demo_cfg demo_ctx demo_request = Some [97]" by simp
  then show False
    by (auto simp: demo_cfg_def effectOperationId_def operation_identity_def
      demo_request_def demo_ctx_def starts_with_def bind_eq_Some_conv)
qed

theorem recovery_overwrites_verified_witness:
  "\<exists>d3 d4 v u. stored d3 demo_id = Some v \<and> e_state v = EVerified \<and>
     d4 = recover_one demo_cfg (\<lambda>_. Inr \<lparr>er_state = RsUnknown, er_receipt = None, er_reason = None\<rparr>) {} 0 0
       demo_effect d3 \<and>
     stored d4 demo_id = Some u \<and> e_state u = EUnknown"
proof -
  have "keyed demo_db2"
    using demo_id_other by (auto simp: keyed_def demo_db2_def kv_ok_def kv_get_def demo_other_def)
  moreover have "kv_list (effects demo_db2) = [demo_other, demo_effect]"
    by (simp add: demo_db2_def kv_list_def)
  moreover have "needs_recovery {e_id demo_effect} demo_other"
    using demo_id_other by (auto simp: needs_recovery_def demo_other_def)
  moreover have "e_state demo_effect = EDispatching" "e_receipt demo_effect = None" "e_reason demo_effect = None"
    by (simp_all add: demo_effect_def new_effect_def)
  ultimately show ?thesis
    using recovery_overwrites_verified [OF _ demo_cfg_hook _ _ _ _ _ refl prod.collapse [symmetric]
        prod.collapse [symmetric] refl, where d = demo_db2 and a = demo_other and b = demo_effect and now = 0] by fastforce
qed


lemma recover_one_skip: "\<not> needs_recovery fl e \<Longrightarrow> recover_one cfg rc fl now now' e d = d"
  by (simp add: recover_one_def)

lemma recover_one_settles:
  assumes "hook_keeps_effects cfg" "needs_recovery fl e"
    and "settled_state (er_state (outcome (rc (interrupted now e)))) = Some s"
  shows "\<exists>x. stored (recover_one cfg rc fl now now' e d) = (stored d)(e_id e \<mapsto> x) \<and>
    e_state x \<in> {EVerified, EFailed, EUnknown}"
proof -
  let ?i = "interrupted now e" and ?d = "put_effect (e_id e) (interrupted now e) d"
  obtain r d' where run: "settle cfg now' ?i (outcome (rc ?i)) ?d = (r, d')"
    by (cases "settle cfg now' ?i (outcome (rc ?i)) ?d")
  have one: "recover_one cfg rc fl now now' e d = d'"
    using assms(2) run by (simp add: recover_one_def Let_def)
  from run assms(1)
  have "\<exists>x. stored d' = (stored d)(e_id e \<mapsto> x) \<and> e_state x \<in> {EVerified, EFailed, EUnknown}"
  proof (cases rule: settle_cases)
    case (verified old)
    then show ?thesis by (auto simp: interrupted_def)
  next
    case (written t)
    have "stored d' = (stored d)(e_id e \<mapsto> settled_effect now' ?i (outcome (rc ?i)) t)"
      unfolding written(3) by simp
    with settled_state_cases [OF written(1)] show ?thesis by auto
  qed (use assms(3) in simp)
  then show ?thesis unfolding one .
qed

lemma recover_fold:
  assumes "hook_keeps_effects cfg" "\<forall>e. settled_state (er_state (outcome (rc e))) \<noteq> None"
  shows "(k \<in> e_id ` {e \<in> set es. needs_recovery fl e} \<longrightarrow>
      (\<exists>x. stored (fold (recover_one cfg rc fl now now') es d) k = Some x \<and>
         e_state x \<in> {EVerified, EFailed, EUnknown})) \<and>
    (k \<notin> e_id ` {e \<in> set es. needs_recovery fl e} \<longrightarrow>
      stored (fold (recover_one cfg rc fl now now') es d) k = stored d k)"
proof (induction es arbitrary: d)
  case (Cons e es)
  let ?d = "recover_one cfg rc fl now now' e d"
  show ?case
  proof (cases "needs_recovery fl e")
    case False
    with Cons [of d] show ?thesis by (auto simp: recover_one_skip)
  next
    case True
    from assms(2) obtain s where "settled_state (er_state (outcome (rc (interrupted now e)))) = Some s" by blast
    from recover_one_settles [where rc = rc, OF assms(1) True this, where d = d and now' = now'] obtain x where
      x: "stored ?d = (stored d)(e_id e \<mapsto> x)" "e_state x \<in> {EVerified, EFailed, EUnknown}" by blast
    from Cons [of ?d] x True show ?thesis by (cases "k \<in> e_id ` {e \<in> set es. needs_recovery fl e}") auto
  qed
qed simp

text \<open>
  A recovery that is not interleaved leaves no interrupted dispatch behind: afterwards every
  effect that is not in flight is out of the dispatching state, the ones it visited are verified,
  failed or unknown, and every other effect, in particular each verified one, is as before.
\<close>

theorem recover_leaves_no_dispatch:
  assumes "keyed d" "hook_keeps_effects cfg" "\<forall>e. settled_state (er_state (outcome (rc e))) \<noteq> None"
    and "d' = recover cfg rc in_flight now now' d"
  shows "(\<forall>k e. stored d' k = Some e \<longrightarrow> k \<notin> in_flight \<longrightarrow> e_state e \<noteq> EDispatching) \<and>
    (\<forall>k e. stored d k = Some e \<longrightarrow> needs_recovery in_flight e \<longrightarrow>
       (\<exists>x. stored d' k = Some x \<and> e_state x \<in> {EVerified, EFailed, EUnknown})) \<and>
    (\<forall>k. (\<forall>e. stored d k = Some e \<longrightarrow> \<not> needs_recovery in_flight e) \<longrightarrow> stored d' k = stored d k)"
proof -
  let ?es = "kv_list (effects d)" and ?V = "e_id ` {e \<in> set (kv_list (effects d)). needs_recovery in_flight e}"
  have V: "k \<in> ?V \<longleftrightarrow> (\<exists>e. stored d k = Some e \<and> needs_recovery in_flight e)" for k
    using assms(1) keyed_list [OF assms(1)] kv.entries_memI unfolding keyed_def by fastforce
  have fold: "(k \<in> ?V \<longrightarrow> (\<exists>x. stored d' k = Some x \<and> e_state x \<in> {EVerified, EFailed, EUnknown})) \<and>
      (k \<notin> ?V \<longrightarrow> stored d' k = stored d k)" for k
    unfolding assms(4) recover_def by (rule recover_fold [OF assms(2,3)])
  have "e_state e \<noteq> EDispatching" if "stored d' k = Some e" "k \<notin> in_flight" for k e
  proof (cases "k \<in> ?V")
    case True
    with fold that show ?thesis by fastforce
  next
    case False
    with fold that have "stored d k = Some e" by metis
    with False V assms(1) that(2) show ?thesis
      unfolding keyed_def needs_recovery_def by blast
  qed
  moreover have "\<exists>x. stored d' k = Some x \<and> e_state x \<in> {EVerified, EFailed, EUnknown}"
    if "stored d k = Some e" "needs_recovery in_flight e" for k e
    using fold V that by blast
  moreover have "stored d' k = stored d k"
    if "\<forall>e. stored d k = Some e \<longrightarrow> \<not> needs_recovery in_flight e" for k
    using fold V that by blast
  ultimately show ?thesis by blast
qed

theorem recover_leaves_no_dispatch_witness:
  "\<exists>x. stored (recover demo_cfg (\<lambda>_. Inl []) {} 0 0 demo_db2) demo_id = Some x \<and>
     e_state x \<in> {EVerified, EFailed, EUnknown}"
proof -
  have "keyed demo_db2"
    using demo_id_other by (auto simp: keyed_def demo_db2_def kv_ok_def kv_get_def demo_other_def)
  moreover have "stored demo_db2 demo_id = Some demo_effect"
    using demo_id_other by (simp add: demo_db2_def kv_get_def)
  moreover have "needs_recovery {} demo_effect" by (simp add: needs_recovery_def demo_effect_def)
  ultimately show ?thesis
    using recover_leaves_no_dispatch [OF _ demo_cfg_hook _ refl, where d = demo_db2 and rc = "\<lambda>_. Inl []"
        and in_flight = "{}" and now = 0 and now' = 0]
    by (simp add: outcome_def)
qed

text \<open>
  The owner-account wildcard in a grant reaches the numbered chats only through the listed
  read and maintenance capabilities: it never permits sending, nor any other capability.
\<close>

theorem wildcard_scope:
  assumes "\<forall>c \<in> set (g_capabilities g). cg_resources c = [owner_account_resource]"
    and "resource \<noteq> owner_account_resource"
  shows "permits cfg g capability resource \<longleftrightarrow>
    capability \<in> cg_capability ` set (g_capabilities g) \<and> peer_number resource \<and>
    capability \<in> set (owner_account_reads @ owner_account_actions) \<and> capability \<noteq> js ''telegram.send''"
proof -
  have pub: "js ''public-web'' \<noteq> owner_account_resource" by (simp add: owner_account_resource_def)
  have send: "js ''telegram.send'' \<notin> set (owner_account_reads @ owner_account_actions)"
    by (simp add: owner_account_reads_def owner_account_actions_def)
  have "permits cfg g capability resource \<longleftrightarrow>
      (\<exists>c \<in> set (g_capabilities g). cg_capability c = capability \<and> permitsOwnerAccountResource capability resource)"
    unfolding permits_def
    by (rule bex_cong [OF refl]) (use assms pub in auto)
  with send show ?thesis unfolding permitsOwnerAccountResource_def by blast
qed

theorem wildcard_scope_witness:
  "\<not> permits demo_cfg (demo_grant\<lparr>g_capabilities :=
      [\<lparr>cg_capability = js ''telegram.send'', cg_resources = [owner_account_resource]\<rparr>]\<rparr>) (js ''telegram.send'') (js ''123'')"
  by (subst wildcard_scope) (simp_all add: owner_account_resource_def)

lemma same_value_string [simp]: "same_value x (Some (JStr s)) \<longleftrightarrow> x = Some (JStr s)"
  by (cases "(x, Some (JStr s))" rule: same_value.cases) auto

text \<open>
  Replacing an acknowledgement is reserved for the final delivery of the run: the
  model-facing entry refuses any payload that names it, and the delivery entry dispatches one
  only for part 0 of the token's own run, against the registered acknowledgement of this task
  revision, verified, in the same chat, with the same payload hash and message.
\<close>

theorem acknowledgement_replacement_reserved:
  assumes "field (Some (rq_payload rq)) ''replaceAcknowledgement'' = Some p" "truthy (Some p)"
  shows "execute cfg dispatch now now' token rq d = (Inl AcknowledgementReserved, d) \<and>
    (\<forall>e d'. executeDelivery cfg dispatch now now' token rq d = (Inr e, d') \<longrightarrow>
      (\<exists>c b i a. resolve cfg now d token = Inr c \<and>
         rq_id rq = Some (js ''delivery:'' @ tc_run (cr_context c) @ js '':part:0'') \<and>
         rq_capability rq = js ''telegram.send'' \<and>
         kv_get (acknowledgements d) (tc_task (cr_context c)) = Some b \<and>
         ak_revision b = tc_revision (cr_context c) \<and> ak_effect b = e_id a \<and>
         field (Some p) ''effectId'' = Some (JStr i) \<and>
         stored d i = Some a \<and> e_state a = EVerified \<and> e_resource a = rq_resource rq \<and>
         kv_get (control_targets d) (e_task a) = Some (tc_task (cr_context c)) \<and>
         field (Some p) ''payloadHash'' = Some (JStr (e_hash a)) \<and>
         field (e_receipt a) ''peerId'' = Some (JStr (rq_resource rq))))"
proof (intro conjI allI impI)
  show "execute cfg dispatch now now' token rq d = (Inl AcknowledgementReserved, d)"
    by (simp add: execute_def assms(1))
next
  fix e d' assume run: "executeDelivery cfg dispatch now now' token rq d = (Inr e, d')"
  then obtain c where c: "resolve cfg now d token = Inr c" "acknowledgement_bound d (cr_context c) rq (Some p)"
    using assms by (auto simp: executeDelivery_def Let_def split: sum.splits if_splits)
  define original where "original = (case field (Some p) ''effectId'' of
             Some (JStr i) \<Rightarrow> kv_get (effects d) i | _ \<Rightarrow> None)"
  from c(2) obtain b a where "kv_get (acknowledgements d) (tc_task (cr_context c)) = Some b" "original = Some a"
    "rq_id rq = Some (js ''delivery:'' @ tc_run (cr_context c) @ js '':part:0'')"
    "rq_capability rq = js ''telegram.send''"
    "ak_revision b = tc_revision (cr_context c)" "ak_effect b = e_id a"
    "kv_get (control_targets d) (e_task a) = Some (tc_task (cr_context c))"
    "e_state a = EVerified" "e_resource a = rq_resource rq"
    "field (Some p) ''payloadHash'' = Some (JStr (e_hash a))"
    "field (e_receipt a) ''peerId'' = Some (JStr (rq_resource rq))"
    unfolding acknowledgement_bound_def Let_def original_def [symmetric]
    by (cases "kv_get (acknowledgements d) (tc_task (cr_context c))"; cases original) auto
  moreover from \<open>original = Some a\<close> obtain i where "field (Some p) ''effectId'' = Some (JStr i)" "stored d i = Some a"
    unfolding original_def by (auto split: option.splits json.splits)
  ultimately show "\<exists>c b i a. resolve cfg now d token = Inr c \<and>
         rq_id rq = Some (js ''delivery:'' @ tc_run (cr_context c) @ js '':part:0'') \<and>
         rq_capability rq = js ''telegram.send'' \<and>
         kv_get (acknowledgements d) (tc_task (cr_context c)) = Some b \<and>
         ak_revision b = tc_revision (cr_context c) \<and> ak_effect b = e_id a \<and>
         field (Some p) ''effectId'' = Some (JStr i) \<and>
         stored d i = Some a \<and> e_state a = EVerified \<and> e_resource a = rq_resource rq \<and>
         kv_get (control_targets d) (e_task a) = Some (tc_task (cr_context c)) \<and>
         field (Some p) ''payloadHash'' = Some (JStr (e_hash a)) \<and>
         field (e_receipt a) ''peerId'' = Some (JStr (rq_resource rq))"
    using c(1) by blast
qed

theorem acknowledgement_replacement_reserved_witness:
  "execute demo_cfg (\<lambda>_. Inl []) 0 0 [42]
     (demo_request\<lparr>rq_payload := JObj [(js ''replaceAcknowledgement'', JObj [])]\<rparr>) demo_db =
   (Inl AcknowledgementReserved, demo_db)"
  by (rule acknowledgement_replacement_reserved [where p = "JObj []", THEN conjunct1]) simp_all

end
