(* ===== verification/CommandText.thy ===== *)
theory CommandText
  imports Contracts
begin

text \<open>
  How owner text is read: native quote and code ranges (\<open>core/authority-text.ts\<close>), and the
  text functions of \<open>core/controller.ts\<close>: the command prefix, the directives of the command
  grammar, task tags, the cadence follow-up and the split of a reply into message parts.
\<close>

section \<open>Quoted material\<close>

fun span_ok :: "nat \<Rightarrow> text_span option \<Rightarrow> (nat \<times> nat) option" where
  "span_ok n None = None"
| "span_ok n (Some sp) =
     (case (sp_offset sp, sp_length sp) of
        (Some off, Some len) \<Rightarrow>
          if 0 \<le> off \<and> 0 < len \<and> off + len \<le> int n \<and> sp_kind sp \<in> {SpanQuote, SpanCode}
          then Some (nat off, nat len) else None
      | _ \<Rightarrow> None)"

definition ranges :: "observation \<Rightarrow> (nat \<times> nat) list option" where
  \<comment> \<open>None for malformed provenance.\<close>
  "ranges ob =
     (case o_spans ob of
        None \<Rightarrow> Some []
      | Some spans \<Rightarrow> opt_all (map (span_ok (length (or_else (o_text ob) []))) spans))"

definition has_nonspace :: "utext \<Rightarrow> bool" where
  "has_nonspace s \<longleftrightarrow> (\<exists>c \<in> set s. \<not> is_space c)"

definition hasQuotedAuthorityText :: "observation \<Rightarrow> bool" where
  "hasQuotedAuthorityText ob =
     (case ranges ob of
        None \<Rightarrow> True
      | Some spans \<Rightarrow>
          (\<exists>(off, len) \<in> set spans. has_nonspace (take len (drop off (or_else (o_text ob) [])))))"

definition in_span :: "(nat \<times> nat) list \<Rightarrow> nat \<Rightarrow> bool" where
  "in_span spans i \<longleftrightarrow> (\<exists>(off, len) \<in> set spans. off \<le> i \<and> i < off + len)"

definition prefix_of :: "utext \<Rightarrow> utext \<Rightarrow> bool" where
  \<comment> \<open>\<open>text.startsWith(prefix)\<close>\<close>
  "prefix_of p s \<longleftrightarrow> take (length p) s = p"

definition ends_word :: "utext \<Rightarrow> bool" where
  \<comment> \<open>\<open>/\\s|^$/u\<close> on the next unit, or on the empty string at the end.\<close>
  "ends_word s = (case s of [] \<Rightarrow> True | c # _ \<Rightarrow> is_space c)"

definition beginsWithQuotedCommand :: "observation \<Rightarrow> utext \<Rightarrow> bool" where
  "beginsWithQuotedCommand ob prefix =
     (case ranges ob of
        None \<Rightarrow> True
      | Some spans \<Rightarrow>
          (let text = or_else (o_text ob) [] in
           (case search_nonspace text of
              None \<Rightarrow> False
            | Some offset \<Rightarrow>
                if in_span spans offset then True
                else if prefix_of prefix (drop offset text) \<and> ends_word (drop (offset + length prefix) text) then
                  (case search_nonspace (drop (offset + length prefix) text) of
                     None \<Rightarrow> False
                   | Some content \<Rightarrow> in_span spans (offset + length prefix + content))
                else in_span spans offset)))"

section \<open>Commands\<close>

definition space_or_end :: rx where
  "space_or_end = Alt [One is_space, EndOfText]"

definition match_prefix :: "utext \<Rightarrow> utext \<Rightarrow> utext option" where
  \<comment> \<open>\<open>text.match(/^prefix(?:\\s+|$)/iu)\<close>: the text after the match.\<close>
  "match_prefix prefix text =
     (case rests (Seq [Lit prefix, Alt [Seq [One is_space, Many is_space], EndOfText]]) text of
        [] \<Rightarrow> None | r # _ \<Rightarrow> Some r)"

definition is_status_command :: "utext \<Rightarrow> bool" where
  "is_status_command = rx_test (Seq
     [Alt [Lit ru_status, Lit ru_kak_tam, Seq [Lit [1095], One (\<lambda>c. fold_case c \<in> {1077, 1105}), Lit ru_tam],
           Lit (js ''status'')],
      Alt [One is_space, EndOfText, One (\<lambda>c. c = 63)]])"

definition is_cancel_command :: "utext \<Rightarrow> bool" where
  "is_cancel_command = rx_test (Seq
     [Alt [Lit ru_stop, Lit ru_otmeni, Lit (js ''cancel''), Lit (js ''stop'')], space_or_end])"

definition is_correct_command :: "utext \<Rightarrow> bool" where
  "is_correct_command = rx_test (Seq
     [Alt [Lit ru_isprav, Lit ru_poprav, Lit (js ''correct'')], space_or_end])"

definition word_unit :: "nat \<Rightarrow> bool" where
  \<comment> \<open>\<open>[\\w-]\<close>\<close>
  "word_unit c \<longleftrightarrow> (48 \<le> c \<and> c \<le> 57) \<or> (65 \<le> c \<and> c \<le> 90) \<or> (97 \<le> c \<and> c \<le> 122) \<or> c = 95 \<or> c = 45"

fun find_tag :: "utext \<Rightarrow> utext option" where
  \<comment> \<open>\<open>command.match(/#([\\w-]+)/)?.[1]\<close>\<close>
  "find_tag [] = None"
| "find_tag (c # s) =
     (if c = 35 \<and> takeWhile word_unit s \<noteq> [] then Some (takeWhile word_unit s) else find_tag s)"

function strip_tags :: "utext \<Rightarrow> utext" where
  \<comment> \<open>\<open>command.replace(/#[\\w-]+/g, '')\<close>\<close>
  "strip_tags [] = []"
| "strip_tags (c # s) =
     (if c = 35 \<and> takeWhile word_unit s \<noteq> [] then strip_tags (dropWhile word_unit s) else c # strip_tags s)"
  by pat_completeness auto

termination
  by (relation "measure length") (auto simp: le_imp_less_Suc length_dropWhile_le)

section \<open>Route directives\<close>

definition dashes :: rx where
  "dashes = Alt [Lit (js ''--''), Lit [8212], Lit [8211]]"

definition colon :: rx where
  "colon = Seq [Many is_space, Lit [58]]"

definition is_here_directive :: "utext \<Rightarrow> bool" where
  "is_here_directive = rx_test (Alt
     [Seq [dashes, Lit (js ''here''), space_or_end],
      Seq [Alt [Lit ru_otvet_zdes, Lit (js ''reply here'')], colon]])"

definition is_origin_directive :: "utext \<Rightarrow> bool" where
  "is_origin_directive = rx_test (Alt
     [Seq [dashes, Lit (js ''origin''), space_or_end],
      Seq [Alt [Lit ru_v_ishodny_chat,
          Seq [Lit (js ''to ''), Opt (Lit (js ''the '')), Lit (js ''origin''), Opt (Lit (js ''al'')), Lit (js '' chat'')]],
        colon]])"

definition strip_prefix :: "utext \<Rightarrow> utext \<Rightarrow> utext" where
  "strip_prefix prefix text = or_else (match_prefix prefix text) text"

section \<open>The cadence follow-up\<close>

definition spaces :: rx where
  "spaces = Seq [One is_space, Many is_space]"

definition digit_unit :: "nat \<Rightarrow> bool" where
  "digit_unit c \<longleftrightarrow> 48 \<le> c \<and> c \<le> 57"

definition stop_mark :: rx where
  "stop_mark = Opt (One (\<lambda>c. c = 46 \<or> c = 33))"

definition cadence_rx :: rx where
  "cadence_rx = Seq
     [Opt (Seq [Opt (Seq [Lit ru_davai, spaces]), Lit ru_tolko, spaces, Lit ru_et, Opt (Lit ru_o), stop_mark,
         Many is_space]),
      Opt (Seq [Alt [Lit ru_proveryai, Lit ru_proveryat, Lit ru_svodku, Lit ru_svodka, Lit ru_obnovlyai,
         Lit ru_obnovlyat], spaces]),
      Lit ru_raz, spaces, Lit ru_v, spaces,
      Alt [Lit ru_paru, Lit ru_dva, Lit ru_dve, Lit ru_tri, Lit ru_chetyre, Lit ru_pyat, Lit ru_shest,
         Seq [One digit_unit, Opt (One digit_unit), Opt (One digit_unit)]],
      spaces,
      Alt [Seq [Lit ru_chas, Opt (Alt [Lit ru_a, Lit ru_ov])], Seq [Lit ru_minut, Opt (Alt [Lit ru_u, Lit ru_y])],
         Seq [Lit ru_dn, Alt [Lit ru_ya, Lit ru_ei]]],
      stop_mark, EndOfText]"

definition isCadenceFollowup :: "utext \<Rightarrow> bool" where
  "isCadenceFollowup command \<longleftrightarrow> length command \<le> 256 \<and> rx_test cadence_rx (trim command)"

section \<open>Parts of a reply\<close>

fun delivery_loop :: "nat \<Rightarrow> utext list \<Rightarrow> utext \<Rightarrow> utext list" where
  "delivery_loop limit [] part = (if part = [] then [] else [part])"
| "delivery_loop limit (ch # chs) part =
     (if limit < length part + length ch then part # delivery_loop limit chs ch
      else delivery_loop limit chs (part @ ch))"

definition deliveryParts :: "utext \<Rightarrow> nat \<Rightarrow> utext list" where
  "deliveryParts text limit = delivery_loop limit (code_points text) []"


lemma delivery_loop_parts:
  assumes "length part \<le> limit" "\<forall>ch \<in> set chs. ch \<noteq> [] \<and> length ch \<le> limit"
  shows "(\<forall>p \<in> set (delivery_loop limit chs part). p \<noteq> [] \<and> length p \<le> limit)"
  using assms by (induction limit chs part rule: delivery_loop.induct) auto

lemma delivery_loop_groups:
  assumes "\<forall>ch \<in> set chs. ch \<noteq> []" "concat g = part" "\<forall>ch \<in> set g. ch \<noteq> []"
  shows "\<exists>gs. concat gs = g @ chs \<and> map concat gs = delivery_loop limit chs part"
  using assms
proof (induction limit chs part arbitrary: g rule: delivery_loop.induct)
  case (1 limit part)
  show ?case
  proof (cases "part = []")
    case True
    with 1 have "g = []" by (cases g) auto
    with True show ?thesis by (intro exI [of _ "[]"]) simp
  next
    case False
    with 1 show ?thesis by (intro exI [of _ "[g]"]) simp
  qed
next
  case (2 limit ch chs part)
  show ?case
  proof (cases "limit < length part + length ch")
    case True
    from 2(1) [OF True, of "[ch]"] 2(3) obtain gs where
      "concat gs = ch # chs" "map concat gs = delivery_loop limit chs ch" by auto
    with True 2(4) show ?thesis by (intro exI [of _ "g # gs"]) simp
  next
    case False
    from 2(2) [OF False, of "g @ [ch]"] 2(3,4,5) obtain gs where
      "concat gs = (g @ [ch]) @ chs" "map concat gs = delivery_loop limit chs (part @ ch)" by auto
    with False show ?thesis by (intro exI [of _ gs]) simp
  qed
qed

lemma code_points_nonempty: "ch \<in> set (code_points s) \<Longrightarrow> ch \<noteq> []"
  using code_points_length by fastforce

lemma concat_concat_map: "concat (map concat gs) = concat (concat gs)"
  by (induction gs) auto

section \<open>Properties\<close>

text \<open>
  C13 Splitting a reply loses nothing and breaks no character: for every limit of at least two
  units the parts concatenate to the text, each is non-empty and within the limit, and the
  boundaries fall between code points, so no surrogate pair is cut.
\<close>

theorem delivery_parts_sound:
  assumes "2 \<le> limit"
  shows "concat (deliveryParts text limit) = text \<and>
    (\<forall>p \<in> set (deliveryParts text limit). p \<noteq> [] \<and> length p \<le> limit) \<and>
    (\<exists>gs. concat gs = code_points text \<and> map concat gs = deliveryParts text limit)"
proof -
  have chars: "\<forall>ch \<in> set (code_points text). ch \<noteq> [] \<and> length ch \<le> limit"
    using code_points_length code_points_nonempty assms by fastforce
  then obtain gs where gs: "concat gs = code_points text" "map concat gs = deliveryParts text limit"
    using delivery_loop_groups [of "code_points text" "[]" "[]" limit] unfolding deliveryParts_def by auto
  have "concat (deliveryParts text limit) = text"
    unfolding gs(2) [symmetric] by (simp add: concat_concat_map gs(1))
  with gs delivery_loop_parts [OF _ chars, of "[]"] show ?thesis unfolding deliveryParts_def by auto
qed

theorem delivery_parts_sound_witness:
  "deliveryParts [65, 55357, 56832, 66] 2 = [[65], [55357, 56832], [66]] \<and>
     concat (deliveryParts [65, 55357, 56832, 66] 2) = [65, 55357, 56832, 66]"
  using delivery_parts_sound [of 2 "[65, 55357, 56832, 66]"]
  by (simp add: deliveryParts_def is_high_def is_low_def)

text \<open>
  Quoted material cannot command: malformed provenance always counts as quoted, and when a
  message is accepted as the owner's own words its spans are well formed, the first visible
  unit lies outside every quote and code span and, after a command prefix, so does the first
  visible unit of the command.
\<close>

theorem quoted_text_cannot_command:
  "(ranges ob = None \<longrightarrow> beginsWithQuotedCommand ob prefix \<and> hasQuotedAuthorityText ob) \<and>
   (\<forall>offset. \<not> beginsWithQuotedCommand ob prefix \<and> search_nonspace (or_else (o_text ob) []) = Some offset \<longrightarrow>
     (\<exists>spans. ranges ob = Some spans \<and> \<not> in_span spans offset \<and>
       (\<forall>content. prefix_of prefix (drop offset (or_else (o_text ob) [])) \<longrightarrow>
          ends_word (drop (offset + length prefix) (or_else (o_text ob) [])) \<longrightarrow>
          search_nonspace (drop (offset + length prefix) (or_else (o_text ob) [])) = Some content \<longrightarrow>
          \<not> in_span spans (offset + length prefix + content))))"
  by (auto simp: beginsWithQuotedCommand_def hasQuotedAuthorityText_def Let_def
      split: option.splits if_splits)

definition demo_quoted :: "text_span option list option \<Rightarrow> observation" where
  "demo_quoted spans = \<lparr>o_id = [1], o_kind = OMessage,
     o_ref = \<lparr>mr_account = [65], mr_peer = [80], mr_message = [49], mr_thread = None\<rparr>,
     o_author = Some [79], o_outgoing = True, o_text = Some [47, 98, 32, 120], o_sent = Iso 0, o_observed = Iso 0,
     o_reply = None, o_forwarded = False, o_via_bot = False, o_effect = None, o_attachments = 0, o_version = None,
     o_edited = None, o_spans = spans, o_artifacts = None, o_contexts = None\<rparr>"

theorem quoted_text_cannot_command_witness:
  "beginsWithQuotedCommand (demo_quoted (Some [None])) [47, 98] \<and>
   (\<exists>spans. ranges (demo_quoted None) = Some spans \<and> \<not> in_span spans 0)"
proof -
  have "ranges (demo_quoted (Some [None])) = None" by (simp add: ranges_def demo_quoted_def)
  moreover have "\<not> beginsWithQuotedCommand (demo_quoted None) [47, 98]"
    by (simp add: beginsWithQuotedCommand_def ranges_def demo_quoted_def search_nonspace_def is_space_def in_span_def
      Let_def prefix_of_def ends_word_def)
  moreover have "search_nonspace (or_else (o_text (demo_quoted None)) []) = Some 0"
    by (simp add: demo_quoted_def search_nonspace_def is_space_def)
  ultimately show ?thesis
    using quoted_text_cannot_command [of "demo_quoted (Some [None])" "[47, 98]"]
      quoted_text_cannot_command [of "demo_quoted None" "[47, 98]"] by blast
qed

end
