(* ===== verification/AgentState.thy ===== *)
theory AgentState
  imports Broker CommandText
begin

text \<open>
  The personal agent's environment and the parts of \<open>core/controller.ts\<close> that only read the
  store: authentication, receipts, task resolution, routes, status, and the resource check
  the broker calls back.

  \<open>env\<close> collects the options of the agent and everything that is outside the process: the
  host callbacks, the engine, the executors, fresh identifiers and the clock. A callback gets
  the database as it is when the call is made, so its answers may be different each time;
  \<open>Inl m\<close> means that it throws an error with message \<open>m\<close>. An action is a function on the
  database that may fail; what it wrote before failing stays unless it runs in a transaction
  (\<open>atomically\<close>, whose roll-back is theorem \<open>transaction_atomic\<close> of theory Store).
\<close>

datatype agent_error =
    UnknownTask | MissingGrant | InvalidTime | EmptyCorrection | FollowUpBound | EngineMismatch
  | BadSnapshotDate | InvalidRunState | DifferentRun | InspectedOther | RevokedAuthority | TaskChanged
  | InvalidDeadline | BindingNotRegistered | BadAcknowledgement | ReplyUnauthenticated
  | OtherAccount | NotDurable | OtherIdentity | BadPayload | Broker broker_error | Host utext

fun broker_text :: "broker_error \<Rightarrow> utext" where
  "broker_text InvalidToolContext = js ''Invalid tool context''"
| "broker_text ContextUnavailable = js ''Tool context missing, expired or revoked''"
| "broker_text NotAuthorized = js ''Current task intention or grant does not authorize this context''"
| "broker_text (ContextInvalidated m) = js ''Execution context invalidated: '' @ m"
| "broker_text BindingMismatch = js ''Run binding does not belong to token''"
| "broker_text OutsideGrant = js ''Capability/resource is outside the trusted grant''"
| "broker_text EffectOutsideGrant = js ''Effect capability/resource is outside the trusted grant''"
| "broker_text AcknowledgementReserved = js ''Acknowledgement replacement is reserved for host final delivery''"
| "broker_text AcknowledgementMismatch = js ''Final delivery acknowledgement binding mismatch''"
| "broker_text CapabilityRequired = js ''Capability and resource are required''"
| "broker_text LogicalIdReused = js ''Effect logical ID reused with a different payload''"
| "broker_text ConcurrentlyPrepared = js ''Effect was concurrently prepared''"
| "broker_text NonFiniteNumber = js ''Effect payload contains non-finite number''"
| "broker_text InvalidSettlement = js ''Invalid effect settlement''"
| "broker_text (HookRefused m) = m"
| "broker_text (HookError m) = m"

fun error_text :: "agent_error \<Rightarrow> utext" where
  \<comment> \<open>The message kept in a reason; for the errors the language itself throws, its stable part.\<close>
  "error_text UnknownTask = js ''Unknown task ID''"
| "error_text MissingGrant = js ''Cannot read properties of undefined''"
| "error_text InvalidTime = js ''Invalid time value''"
| "error_text EmptyCorrection = js ''Correction instruction is empty''"
| "error_text FollowUpBound = js ''Owner follow-up is already bound to another task''"
| "error_text EngineMismatch = js ''Engine response does not match the submitted task/revision/operation''"
| "error_text BadSnapshotDate = js ''Engine snapshot lacks a valid observation date''"
| "error_text InvalidRunState = js ''Invalid engine run state''"
| "error_text DifferentRun = js ''Cancel returned a different run''"
| "error_text InspectedOther = js ''Inspected engine run changed its registered binding''"
| "error_text RevokedAuthority = js ''Revoked authority cannot be refreshed''"
| "error_text TaskChanged = js ''Task changed during authority preparation''"
| "error_text InvalidDeadline = js ''Prepared authority deadline is invalid''"
| "error_text BindingNotRegistered = js ''Run binding is not registered''"
| "error_text BadAcknowledgement = js ''Acknowledgement must be an exact host control reply for this task''"
| "error_text ReplyUnauthenticated = js ''Control replies require an authenticated owner observation''"
| "error_text OtherAccount = js ''Own output belongs to a different account''"
| "error_text NotDurable = js ''Engine must provide durable runs and sessions; admission is disabled''"
| "error_text OtherIdentity = js ''Database belongs to a different owner/account/route''"
| "error_text BadPayload = js ''Cannot read properties of null''"
| "error_text (Broker e) = broker_text e"
| "error_text (Host m) = m"

record authority =
  au_capabilities :: "capability_grant list"
  au_expires :: "stamp option option"      \<comment> \<open>None: undefined, \<open>Some None\<close>: null\<close>

record prepared_input =
  pi_context :: "utext option"
  pi_staged :: "utext list option"
  pi_fresh :: bool

datatype submit_context =
    Prepared utext
  | Derived message_ref "utext list" "utext list" "utext option" "utext option"
    \<comment> \<open>source, context and artifact references, previous output and run\<close>

record submission =
  sb_task :: utext
  sb_revision :: int
  sb_key :: utext
  sb_instruction :: utext
  sb_token :: utext
  sb_session :: "utext option"
  sb_staged :: "utext list option"
  sb_context :: submit_context

record env =
  en_account :: utext
  en_owner :: utext
  en_route :: route
  en_natural :: "utext option"
  en_prefix :: utext
  en_grant_ttl :: int
  en_origin_ttl :: int
  en_policy :: "(task_intent \<Rightarrow> capability_grant list) option"
  en_prepare :: "(db \<Rightarrow> task_intent \<Rightarrow> utext + authority) option"
  en_input :: "(db \<Rightarrow> task_intent \<Rightarrow> utext + prepared_input) option"
  en_restore :: "(db \<Rightarrow> run_binding \<Rightarrow> utext \<Rightarrow> agent_error option) option"
  en_submit :: "db \<Rightarrow> submission \<Rightarrow> utext + run_snapshot"
  en_inspect :: "db \<Rightarrow> run_binding \<Rightarrow> utext + run_snapshot"
  en_cancel :: "db \<Rightarrow> run_binding \<Rightarrow> utext + run_snapshot"
  en_durable :: bool                       \<comment> \<open>\<open>capabilities()\<close> reports durable runs and sessions\<close>
  en_stop :: "(db \<Rightarrow> utext \<Rightarrow> utext \<Rightarrow> int \<Rightarrow> utext + bool \<times> utext option) option"
  en_read :: "(db \<Rightarrow> message_ref \<Rightarrow> utext + observation option) option"
  en_correctable :: "db \<Rightarrow> utext \<Rightarrow> bool"
  en_task_id :: "db \<Rightarrow> utext"
  en_grant_id :: "db \<Rightarrow> utext"
  en_token :: "db \<Rightarrow> utext"
  en_dispatch :: executor
  en_reconcile :: executor
  en_broker :: broker_cfg
  en_now :: int

section \<open>Actions\<close>

type_synonym 'a action = "db \<Rightarrow> (agent_error + 'a) \<times> db"

definition ret :: "'a \<Rightarrow> 'a action" where "ret x d = (Inr x, d)"

definition throw :: "agent_error \<Rightarrow> 'a action" where "throw e d = (Inl e, d)"

definition andthen :: "'a action \<Rightarrow> ('a \<Rightarrow> 'b action) \<Rightarrow> 'b action" where
  "andthen m f d = (case m d of (Inl e, d') \<Rightarrow> (Inl e, d') | (Inr x, d') \<Rightarrow> f x d')"

definition attempt :: "'a action \<Rightarrow> (agent_error \<Rightarrow> 'a action) \<Rightarrow> 'a action" where
  \<comment> \<open>try ... catch\<close>
  "attempt m h d = (case m d of (Inl e, d') \<Rightarrow> h e d' | (Inr x, d') \<Rightarrow> (Inr x, d'))"

definition reads :: "(db \<Rightarrow> 'a) \<Rightarrow> 'a action" where "reads f d = (Inr (f d), d)"

definition lifts :: "agent_error + 'a \<Rightarrow> 'a action" where "lifts r d = (r, d)"

definition upd :: "(db \<Rightarrow> db) \<Rightarrow> unit action" where "upd f d = (Inr (), f d)"

definition atomically :: "'a action \<Rightarrow> 'a action" where
  \<comment> \<open>\<open>store.transaction\<close>\<close>
  "atomically m d = (case m d of (Inl e, _) \<Rightarrow> (Inl e, d) | r \<Rightarrow> r)"

fun foreach :: "('x \<Rightarrow> unit action) \<Rightarrow> 'x list \<Rightarrow> unit action" where
  "foreach f [] d = (Inr (), d)"
| "foreach f (x # xs) d = andthen (f x) (\<lambda>_. foreach f xs) d"

definition via_broker :: "(db \<Rightarrow> (broker_error + 'a) \<times> db) \<Rightarrow> 'a action" where
  "via_broker f d = (case f d of (Inl e, d') \<Rightarrow> (Inl (Broker e), d') | (Inr x, d') \<Rightarrow> (Inr x, d'))"

lemma action_simps [simp]:
  "ret x d = (Inr x, d)" "throw e d = (Inl e, d)" "reads f d = (Inr (f d), d)" "upd g d = (Inr (), g d)"
  by (simp_all add: ret_def throw_def reads_def upd_def)

lemma lifts_simp [simp]: "lifts r d = (r, d)"
  by (simp add: lifts_def)

lemma andthen_Inr: "m d = (Inr x, d') \<Longrightarrow> andthen m f d = f x d'"
  by (simp add: andthen_def)

lemma andthen_Inl: "m d = (Inl e, d') \<Longrightarrow> andthen m f d = (Inl e, d')"
  by (simp add: andthen_def)

lemma andthen_simps [simp]:
  "andthen (ret x) f d = f x d" "andthen (throw e) f d = (Inl e, d)" "andthen (reads g) f d = f (g d) d"
  "andthen (lifts (Inr x)) f d = f x d" "andthen (lifts (Inl e)) f d = (Inl e, d)"
  by (simp_all add: andthen_def)

lemma andthen_upd [simp]: "andthen (upd h) f d = f () (h d)"
  by (simp add: andthen_def)

lemma andthen_ok:
  "andthen m f d = (Inr y, d'') \<longleftrightarrow> (\<exists>x d'. m d = (Inr x, d') \<and> f x d' = (Inr y, d''))"
  by (auto simp: andthen_def split: prod.splits sum.splits)

lemma atomically_ok: "atomically m d = (Inr x, d') \<longleftrightarrow> m d = (Inr x, d')"
  by (auto simp: atomically_def split: prod.splits sum.splits)

lemma atomically_fail: "atomically m d = (Inl e, d') \<Longrightarrow> d' = d"
  by (auto simp: atomically_def split: prod.splits sum.splits)

section \<open>Identity\<close>

definition requireTask :: "db \<Rightarrow> utext \<Rightarrow> agent_error + task_intent" where
  "requireTask d task = (case kv_get (tasks d) task of None \<Rightarrow> Inl UnknownTask | Some i \<Rightarrow> Inr i)"

definition requireGrant :: "db \<Rightarrow> utext \<Rightarrow> agent_error + grant" where
  \<comment> \<open>\<open>store.get('grants', id)!\<close>, whose first use throws on undefined.\<close>
  "requireGrant d g = (case kv_get (grants d) g of None \<Rightarrow> Inl MissingGrant | Some x \<Rightarrow> Inr x)"

definition authenticate :: "env \<Rightarrow> observation \<Rightarrow> bool" where
  "authenticate env ob \<longleftrightarrow>
     mr_account (o_ref ob) = en_account env \<and> o_author ob = Some (en_owner env) \<and>
     o_outgoing ob \<and> \<not> o_forwarded ob \<and> \<not> o_via_bot ob"

definition receipt_capabilities :: "utext list" where
  "receipt_capabilities = map js
     [''telegram.send'', ''telegram.message.send'', ''message.send'', ''telegram.media.send'',
      ''telegram.poll.create'', ''telegram.schedule.create'']"

definition matchesOwnMessageReceipt :: "effect \<Rightarrow> observation \<Rightarrow> bool" where
  "matchesOwnMessageReceipt e ob \<longleftrightarrow>
     e_capability e \<in> set receipt_capabilities \<and> o_outgoing ob \<and>
     e_resource e = mr_peer (o_ref ob) \<and>
     (case e_receipt e of
        Some (JObj kvs) \<Rightarrow>
          map_of kvs (js ''peerId'') = Some (JStr (mr_peer (o_ref ob))) \<and>
          (map_of kvs (js ''messageId'') = Some (JStr (mr_message (o_ref ob))) \<or>
           map_of kvs (js ''tempMessageId'') = Some (JStr (mr_message (o_ref ob))))
      | _ \<Rightarrow> False)"

definition ownOutput :: "db \<Rightarrow> observation \<Rightarrow> own_output option" where
  "ownOutput d ob =
     (let of_effect = (\<lambda>e. \<lparr>oo_ref = o_ref ob, oo_task = e_task e, oo_effect = Some (e_id e), oo_control_only = False\<rparr>)
      in (case kv_get (own_outputs d) (refKey (o_ref ob)) of
            Some saved \<Rightarrow> Some saved
          | None \<Rightarrow>
              (case (case o_effect ob of
                       None \<Rightarrow> None
                     | Some i \<Rightarrow> if i = [] then None else kv_get (effects d) i) of
                 Some e \<Rightarrow> Some (of_effect e)
               | None \<Rightarrow>
                   map_option of_effect (find (\<lambda>e. matchesOwnMessageReceipt e ob) (task_effects None d)))))"

definition taskForSource :: "db \<Rightarrow> message_ref \<Rightarrow> task_intent option" where
  "taskForSource d r = Option.bind (kv_get (sources d) (refKey r)) (kv_get (tasks d))"

section \<open>Ordering of owner changes\<close>

definition digits :: "utext \<Rightarrow> bool" where
  "digits s \<longleftrightarrow> s \<noteq> [] \<and> (\<forall>c \<in> set s. digit_unit c)"

definition digits_value :: "utext \<Rightarrow> nat" where
  "digits_value s = foldl (\<lambda>n c. 10 * n + (c - 48)) 0 s"

definition authorized_at :: "observation \<Rightarrow> stamp" where
  \<comment> \<open>\<open>observation.editedAt ?? observation.sentAt\<close>\<close>
  "authorized_at ob = or_else (o_edited ob) (o_sent ob)"

definition staleOwnerChange :: "db \<Rightarrow> utext \<Rightarrow> observation \<Rightarrow> bool" where
  "staleOwnerChange d task ob =
     (case kv_get (owner_changes d) task of
        None \<Rightarrow> False
      | Some previous \<Rightarrow>
          (case (date_parse (authorized_at ob), date_parse (oc_authorized previous)) of
             (Some issued, Some prior) \<Rightarrow>
               if issued \<noteq> prior then issued < prior
               else o_kind ob \<noteq> OEdit \<and> mr_peer (o_ref ob) = mr_peer (oc_ref previous) \<and>
                 digits (mr_message (o_ref ob)) \<and> digits (mr_message (oc_ref previous)) \<and>
                 digits_value (mr_message (o_ref ob)) < digits_value (mr_message (oc_ref previous))
           | _ \<Rightarrow> False))"


section \<open>Status\<close>

definition unsettled_stop :: "db \<Rightarrow> utext \<Rightarrow> child_stop option" where
  "unsettled_stop d task = find (\<lambda>s. cs_task s = task \<and> cs_state s \<noteq> SSettled) (kv_list (child_stops d))"

definition run_is :: "run_snapshot option \<Rightarrow> run_state \<Rightarrow> bool" where
  "run_is r s \<longleftrightarrow> (case r of None \<Rightarrow> False | Some x \<Rightarrow> rs_state x = s)"

definition uncertain_effect :: "effect \<Rightarrow> bool" where
  "uncertain_effect e \<longleftrightarrow> e_state e \<in> {EUnknown, EDispatching}"

definition state_of ::
  "bool \<Rightarrow> admission option \<Rightarrow> run_snapshot option \<Rightarrow> control option \<Rightarrow> task_state" where
  "state_of uncertainty adm run ctl =
     (if uncertainty \<or> map_option ad_state adm = Some AUnknown \<or> run_is run RUnknown then TUnknown
      else if Option.bind ctl ct_cancelled \<noteq> None \<or> run_is run RCancelled then TCancelled
      else if Option.bind ctl ct_held \<noteq> None then TPaused
      else if run_is run RInterrupted then TUnknown
      else if run_is run RCompleted then TReady
      else if run_is run RFailed then TFailed
      else if run \<noteq> None then TWorking
      else TAccepted)"

definition status_of :: "db \<Rightarrow> task_intent \<Rightarrow> task_status" where
  "status_of d i =
     (let run = kv_get (runs d) (admissionKey (ti_id i) (ti_revision i));
          adm = kv_get (admissions d) (admissionKey (ti_id i) (ti_revision i));
          ctl = kv_get (controls d) (ti_id i);
          es = filter (\<lambda>e. e_task e = ti_id i) (kv_list (effects d));
          stop = unsettled_stop d (ti_id i)
      in \<lparr>ts_intent = i, ts_run = run, ts_admission = map_option (\<lambda>a. (ad_state a, ad_reason a)) adm,
          ts_cancelled = Option.bind ctl ct_cancelled, ts_held = Option.bind ctl ct_held,
          ts_reason = (case stop of
             Some c \<Rightarrow> Some (or_else (cs_reason c) (js ''Owned child settlement is unresolved''))
           | None \<Rightarrow> Option.bind ctl ct_reason),
          ts_effects = es,
          ts_state = state_of (list_ex uncertain_effect es \<or> stop \<noteq> None) adm run ctl\<rparr>)"

definition user_tasks :: "db \<Rightarrow> task_intent list" where
  "user_tasks d = filter (\<lambda>i. \<not> ti_control_only i) (kv_list (tasks d))"

definition all_status :: "db \<Rightarrow> task_status list" where
  "all_status d = map (status_of d) (user_tasks d)"

definition status :: "db \<Rightarrow> utext \<Rightarrow> task_status option" where
  "status d task =
     (case kv_get (tasks d) task of
        None \<Rightarrow> None
      | Some i \<Rightarrow> if ti_control_only i \<or> ti_id i \<noteq> task then None else Some (status_of d i))"

section \<open>Which task a command is about\<close>

datatype target = One "task_intent option" | NoTask | Several

fun target_task :: "target \<Rightarrow> task_intent option" where
  "target_task (One t) = t"
| "target_task _ = None"

definition target_of :: "task_intent list \<Rightarrow> target" where
  "target_of ts = (case ts of [] \<Rightarrow> NoTask | [t] \<Rightarrow> One (Some t) | _ \<Rightarrow> Several)"

definition active_tasks :: "db \<Rightarrow> task_intent list" where
  "active_tasks d = map ts_intent
     (filter (\<lambda>s. ts_state s \<notin> {TCancelled, TReady, TFailed}) (all_status d))"

definition resolveTask :: "db \<Rightarrow> observation \<Rightarrow> utext \<Rightarrow> target" where
  "resolveTask d ob command =
     (case find_tag command of
        Some i \<Rightarrow> target_of (filter (\<lambda>t. ti_id t = i \<or> prefix_of i (ti_id t)) (user_tasks d))
      | None \<Rightarrow>
          (case (case o_reply ob of
                   None \<Rightarrow> None
                 | Some r \<Rightarrow>
                     (case kv_get (own_outputs d) (refKey r) of
                        Some own \<Rightarrow>
                          if \<not> oo_control_only own then Some (One (kv_get (tasks d) (oo_task own)))
                          else map_option (One \<circ> Some) (taskForSource d r)
                      | None \<Rightarrow> map_option (One \<circ> Some) (taskForSource d r))) of
             Some t \<Rightarrow> t
           | None \<Rightarrow> target_of (active_tasks d)))"

section \<open>Routes\<close>

definition source_route :: "message_ref \<Rightarrow> route" where
  "source_route r = \<lparr>rt_peer = mr_peer r, rt_thread = mr_thread r, rt_reply = Some (mr_message r)\<rparr>"

definition routeFor :: "env \<Rightarrow> observation \<Rightarrow> utext \<Rightarrow> task_intent option \<Rightarrow> route" where
  "routeFor env ob instruction task =
     (let directive = strip_prefix (en_prefix env) (trim instruction) in
      if is_here_directive directive then source_route (o_ref ob)
      else (case task of
              Some t \<Rightarrow> if is_origin_directive directive then source_route (ti_source t) else en_route env
            | None \<Rightarrow> en_route env))"

definition is_public :: "env \<Rightarrow> route \<Rightarrow> bool" where
  "is_public env r \<longleftrightarrow> rt_peer r \<noteq> rt_peer (en_route env)"

section \<open>The reply deadline of a public origin\<close>

definition send_capabilities :: "utext list" where
  "send_capabilities = map js [''telegram.send'', ''telegram.media.send'']"

definition originResourceAllowed :: "env \<Rightarrow> db \<Rightarrow> int \<Rightarrow> task_intent \<Rightarrow> utext \<Rightarrow> utext \<Rightarrow> bool" where
  "originResourceAllowed env d now i capability resource =
     (if capability \<notin> set send_capabilities \<or> resource = rt_peer (en_route env) then True
      else
        (let deadline = kv_get (origin_deadlines d) (ti_id i);
             origin_peer = (case Option.bind deadline od_peer of
                Some p \<Rightarrow> p
              | None \<Rightarrow> if is_public env (ti_route i) then rt_peer (ti_route i) else mr_peer (ti_source i))
         in if resource \<noteq> origin_peer \<or> (deadline = None \<and> \<not> is_public env (ti_route i)) then True
            else
              (case deadline of
                 None \<Rightarrow> False
               | Some dl \<Rightarrow>
                   (case date_parse (od_expires dl) of None \<Rightarrow> False | Some t \<Rightarrow> now < t) \<and>
                   kv_get (origin_reviews d) (ti_id i) = None)))"

definition validateOriginResource ::
  "env \<Rightarrow> db \<Rightarrow> int \<Rightarrow> tool_context \<Rightarrow> utext \<Rightarrow> utext \<Rightarrow> broker_error option" where
  "validateOriginResource env d now ctx capability resource =
     (case requireTask d (tc_task ctx) of
        Inl e \<Rightarrow> Some (HookError (error_text e))
      | Inr i \<Rightarrow>
          if originResourceAllowed env d now i capability resource then None
          else Some (HookRefused (js ''Public reply deadline expired or origin draft requires a fresh owner instruction'')))"

section \<open>The broker the agent builds\<close>

definition captureOwnReceipt :: "env \<Rightarrow> effect \<Rightarrow> db \<Rightarrow> db" where
  "captureOwnReceipt env e d =
     (if e_capability e \<notin> set send_capabilities then d
      else
        (case e_receipt e of
           Some (JObj kvs) \<Rightarrow>
             (case map_of kvs (js ''messageId'') of
                Some (JStr m) \<Rightarrow>
                  (let r = \<lparr>mr_account = en_account env,
                       mr_peer = (case map_of kvs (js ''peerId'') of Some (JStr p) \<Rightarrow> p | _ \<Rightarrow> e_resource e),
                       mr_message = m,
                       mr_thread = (case map_of kvs (js ''threadId'') of Some (JStr t) \<Rightarrow> Some t | _ \<Rightarrow> None)\<rparr>;
                     target = kv_get (control_targets d) (e_task e)
                   in put_own_output (refKey r)
                        \<lparr>oo_ref = r, oo_task = or_else target (e_task e), oo_effect = Some (e_id e),
                         oo_control_only = (target = None \<and>
                           (case kv_get (tasks d) (e_task e) of None \<Rightarrow> False | Some i \<Rightarrow> ti_control_only i))\<rparr> d)
              | _ \<Rightarrow> d)
         | _ \<Rightarrow> d))"

definition broker_of :: "env \<Rightarrow> broker_cfg" where
  "broker_of env = (en_broker env)
     \<lparr>check_resource := (\<lambda>d now ctx capability resource.
        (case validateOriginResource env d now ctx capability resource of
           Some e \<Rightarrow> Some e
         | None \<Rightarrow> check_resource (en_broker env) d now ctx capability resource)),
      on_verified := captureOwnReceipt env\<rparr>"

end
