(* ===== verification/Agent.thy ===== *)
theory Agent
  imports AgentState
begin

text \<open>
  The operations of \<open>core/controller.ts\<close> that change state, each the whole method, composed as
  the code composes them: grants, holds, cancellation, admission of a revision to the engine,
  corrections and their resumption, delivery, control replies, ingestion and recovery.

  An awaited call is the callback of \<open>env\<close> applied to the database of that moment, with no
  other handler in between; the interleaving of the segments between awaits is the subject of
  theory AgentProps. A handler reads one clock value, \<open>en_now\<close>.
\<close>

section \<open>Grants\<close>

definition iso_of :: "int option \<Rightarrow> agent_error + stamp" where
  \<comment> \<open>\<open>new Date(t).toISOString()\<close>, which throws outside the range of \<open>Date\<close> and on NaN.\<close>
  "iso_of t = (case t of
     None \<Rightarrow> Inl InvalidTime
   | Some x \<Rightarrow> if \<bar>x\<bar> \<le> 8640000000000000 then Inr (Iso x) else Inl InvalidTime)"

definition capped_expiry :: "env \<Rightarrow> db \<Rightarrow> task_intent \<Rightarrow> int option \<Rightarrow> agent_error + stamp" where
  \<comment> \<open>The earlier of the given time and, for a public route, the origin deadline.\<close>
  "capped_expiry env d i expires =
     iso_of
       (if is_public env (ti_route i) then
          (case kv_get (origin_deadlines d) (ti_id i) of
             None \<Rightarrow> expires
           | Some dl \<Rightarrow>
               (case (expires, date_parse (od_expires dl)) of
                  (Some a, Some b) \<Rightarrow> Some (min a b) | _ \<Rightarrow> None))
        else expires)"

definition default_capabilities :: "env \<Rightarrow> task_intent \<Rightarrow> capability_grant list" where
  "default_capabilities env i =
     [\<lparr>cg_capability = js ''telegram.read'',
       cg_resources = dedup [mr_peer (ti_source i), rt_peer (en_route env)]\<rparr>,
      \<lparr>cg_capability = js ''telegram.send'', cg_resources = [rt_peer (ti_route i)]\<rparr>]"

definition makeGrant :: "env \<Rightarrow> task_intent \<Rightarrow> grant action" where
  "makeGrant env i d =
     (let caps = (case en_policy env of Some p \<Rightarrow> p i | None \<Rightarrow> default_capabilities env i) in
      andthen (lifts (capped_expiry env d i (Some (en_now env + en_grant_ttl env)))) (\<lambda>x.
        andthen (upd (put_grant_baseline (ti_grant i) x)) (\<lambda>_.
          ret \<lparr>g_id = ti_grant i, g_task = ti_id i, g_revision = ti_revision i,
               g_capabilities = caps, g_expires = Some x, g_revoked = None\<rparr>)) d)"

definition grantBaseline :: "env \<Rightarrow> task_intent \<Rightarrow> grant \<Rightarrow> stamp action" where
  "grantBaseline env i g d =
     (case kv_get (grant_baselines d) (g_id g) of
        Some saved \<Rightarrow> (Inr saved, d)
      | None \<Rightarrow>
          andthen (lifts (capped_expiry env d i
              (case g_expires g of
                 Some s \<Rightarrow> date_parse s
               | None \<Rightarrow> map_option (\<lambda>t. t + en_grant_ttl env) (date_parse (ti_created i))))) (\<lambda>x.
            andthen (upd (\<lambda>d. snd (insert_grant_baseline (g_id g) x d))) (\<lambda>_. ret x)) d)"

definition revoke_grant :: "env \<Rightarrow> bool \<Rightarrow> utext \<Rightarrow> stamp action" where
  \<comment> \<open>\<open>grant.revokedAt = now; grant.revision++; put\<close>, without the revision for a correction.\<close>
  "revoke_grant env bump gid d =
     andthen (lifts (requireGrant d gid)) (\<lambda>g.
       andthen (upd (put_grant (g_id g)
           (g\<lparr>g_revoked := Some (Iso (en_now env)),
              g_revision := g_revision g + (if bump then 1 else 0)\<rparr>))) (\<lambda>_.
         ret (Iso (en_now env)))) d"

section \<open>Stopping a task's children\<close>

definition journalChildStop :: "env \<Rightarrow> utext \<Rightarrow> utext \<Rightarrow> int \<Rightarrow> unit action" where
  "journalChildStop env task reason revision d =
     (case en_stop env of
        None \<Rightarrow> (Inr (), d)
      | Some _ \<Rightarrow> (Inr (), put_child_stop (admissionKey task revision)
          \<lparr>cs_task = task, cs_revision = revision, cs_state = SPending, cs_reason = Some reason\<rparr> d))"

definition stopChildren :: "env \<Rightarrow> utext \<Rightarrow> utext \<Rightarrow> int \<Rightarrow> bool action" where
  "stopChildren env task reason revision d =
     (let key = admissionKey task revision in
      (case en_stop env of
         None \<Rightarrow> (Inr (case kv_get (child_stops d) key of None \<Rightarrow> True | Some old \<Rightarrow> cs_state old = SSettled), d)
       | Some stop \<Rightarrow>
           (let d1 = put_child_stop key
                  \<lparr>cs_task = task, cs_revision = revision, cs_state = SPending, cs_reason = Some reason\<rparr> d
            in (case stop d1 task reason revision of
                  Inl m \<Rightarrow> (Inr False, put_child_stop key
                    \<lparr>cs_task = task, cs_revision = revision, cs_state = SUnknown,
                     cs_reason = Some (js ''Owned child stop unknown: '' @ m)\<rparr> d1)
                | Inr (settled, why) \<Rightarrow> (Inr settled, put_child_stop key
                    \<lparr>cs_task = task, cs_revision = revision,
                     cs_state = (if settled then SSettled else SUnknown),
                     cs_reason = (case why of
                       Some w \<Rightarrow> Some w
                     | None \<Rightarrow> if settled then None
                         else Some (js ''Owned child execution/effects settlement is unverified''))\<rparr> d1)))))"

definition hold :: "env \<Rightarrow> utext \<Rightarrow> utext \<Rightarrow> bool \<Rightarrow> unit action" where
  "hold env task reason resume d =
     andthen (lifts (requireTask d task)) (\<lambda>i.
       andthen (atomically (\<lambda>d.
           if Option.bind (kv_get (controls d) task) ct_cancelled \<noteq> None then (Inr (), d)
           else
             andthen (revoke_grant env True (ti_grant i)) (\<lambda>at.
               andthen (upd (revokeTask (en_now env) task)) (\<lambda>_.
                 andthen (upd (put_control task
                     \<lparr>ct_task = task, ct_cancelled = None, ct_held = Some at,
                      ct_reason = Some reason, ct_resume = resume\<rparr>)) (\<lambda>_.
                   journalChildStop env task reason (ti_revision i)))) d)) (\<lambda>_.
         andthen (stopChildren env task reason (ti_revision i)) (\<lambda>_. ret ()))) d"

section \<open>Engine runs\<close>

definition acceptSnapshot :: "run_snapshot \<Rightarrow> utext \<Rightarrow> int \<Rightarrow> utext \<Rightarrow> unit action" where
  "acceptSnapshot s task revision key d =
     (let b = rs_binding s in
      if rb_task b \<noteq> task \<or> rb_revision b \<noteq> revision \<or> rb_key b \<noteq> key \<or> rb_run b = []
      then (Inl EngineMismatch, d)
      else if date_parse (rs_observed s) = None then (Inl BadSnapshotDate, d)
      else (case rs_state s of
              ROther _ \<Rightarrow> (Inl InvalidRunState, d)
            | _ \<Rightarrow> (Inr (), put_run (admissionKey task revision) s d)))"

definition from_host :: "utext + 'a \<Rightarrow> 'a action" where
  "from_host r d = (case r of Inl m \<Rightarrow> (Inl (Host m), d) | Inr x \<Rightarrow> (Inr x, d))"

definition mark_unknown :: "env \<Rightarrow> run_snapshot \<Rightarrow> utext \<Rightarrow> run_snapshot" where
  "mark_unknown env s reason =
     s\<lparr>rs_state := RUnknown, rs_observed := Iso (en_now env), rs_reason := Some reason\<rparr>"

definition refresh :: "env \<Rightarrow> run_snapshot \<Rightarrow> run_snapshot action" where
  "refresh env s d =
     (let b = rs_binding s in
      attempt (\<lambda>d.
          andthen (from_host (en_inspect env d b)) (\<lambda>u.
            if rb_run (rs_binding u) \<noteq> rb_run b then throw InspectedOther
            else andthen (acceptSnapshot u (rb_task b) (rb_revision b) (rb_key b)) (\<lambda>_. ret u)) d)
        (\<lambda>e. andthen (upd (put_run (admissionKey (rb_task b) (rb_revision b))
            (mark_unknown env s (error_text e)))) (\<lambda>_. ret (mark_unknown env s (error_text e)))) d)"

definition cancel_run :: "env \<Rightarrow> run_snapshot \<Rightarrow> run_snapshot action" where
  \<comment> \<open>Ask the engine to cancel a run and register its answer.\<close>
  "cancel_run env s d =
     (let b = rs_binding s in
      andthen (from_host (en_cancel env d b)) (\<lambda>u.
        if rb_run (rs_binding u) \<noteq> rb_run b then throw DifferentRun
        else andthen (acceptSnapshot u (rb_task b) (rb_revision b) (rb_key b)) (\<lambda>_. ret u)) d)"

definition task_runs :: "db \<Rightarrow> utext \<Rightarrow> run_snapshot list" where
  "task_runs d task = filter (\<lambda>s. rb_task (rs_binding s) = task) (kv_list (runs d))"

definition applyCancellation :: "env \<Rightarrow> utext \<Rightarrow> task_status option action" where
  "applyCancellation env task d =
     andthen (lifts (requireTask d task)) (\<lambda>i.
       andthen (atomically
           (andthen (revoke_grant env True (ti_grant i)) (\<lambda>at.
             andthen (upd (put_control task
                 \<lparr>ct_task = task, ct_cancelled = Some at, ct_held = None,
                  ct_reason = Some (js ''Owner cancelled task; new effects revoked''), ct_resume = False\<rparr>)) (\<lambda>_.
               andthen (upd (revokeTask (en_now env) task)) (\<lambda>_.
                 journalChildStop env task (js ''Owner cancelled task'') (ti_revision i)))))) (\<lambda>_.
         andthen (stopChildren env task (js ''Owner cancelled task'') (ti_revision i)) (\<lambda>_.
           andthen (\<lambda>d. foreach (\<lambda>s.
               attempt (andthen (cancel_run env s) (\<lambda>_. ret ()))
                 (\<lambda>e. upd (put_run (admissionKey task (rb_revision (rs_binding s)))
                    (mark_unknown env s (js ''Cancel settlement unknown: '' @ error_text e)))))
               (filter (\<lambda>s. \<not> terminal (rs_state s)) (task_runs d task)) d) (\<lambda>_.
             reads (\<lambda>d. status d task))))) d"


section \<open>Preparing a task's authority\<close>

definition caps_json :: "capability_grant list \<Rightarrow> json" where
  "caps_json cs = JArr (map (\<lambda>c. JObj
     [(js ''capability'', JStr (cg_capability c)),
      (js ''resources'', JArr (map JStr (cg_resources c)))]) cs)"

definition authority_tx ::
  "env \<Rightarrow> task_intent \<Rightarrow> grant \<Rightarrow> stamp \<Rightarrow> authority option \<Rightarrow> unit action" where
  \<comment> \<open>The transaction after the awaited \<open>prepareAuthority\<close>.\<close>
  "authority_tx env i g baseline prepared =
     atomically (\<lambda>d.
       andthen (lifts (requireTask d (ti_id i))) (\<lambda>actual.
         andthen (lifts (requireGrant d (ti_grant actual))) (\<lambda>current.
           if ti_revision actual \<noteq> ti_revision i \<or> g_id current \<noteq> g_id g \<or>
              g_revision current \<noteq> g_revision g \<or> g_revoked current \<noteq> None
           then throw TaskChanged
           else
             (let caps = map (\<lambda>c. c\<lparr>cg_resources := filter
                    (originResourceAllowed env d (en_now env) actual (cg_capability c)) (cg_resources c)\<rparr>)
                    (case prepared of Some a \<Rightarrow> au_capabilities a | None \<Rightarrow> g_capabilities current);
                  expires = (case prepared of
                      None \<Rightarrow> g_expires current
                    | Some a \<Rightarrow> (case au_expires a of None \<Rightarrow> Some baseline | Some x \<Rightarrow> x))
              in if (case expires of None \<Rightarrow> False | Some x \<Rightarrow> date_parse x = None) then throw InvalidDeadline
                 else if canonicalJson (caps_json (g_capabilities current)) \<noteq> canonicalJson (caps_json caps) \<or>
                         expires \<noteq> g_expires current
                 then upd (put_grant (g_id current)
                        (current\<lparr>g_revision := g_revision current + 1, g_capabilities := caps,
                           g_expires := expires\<rparr>))
                 else ret ()))) d)"

definition prepareTaskAuthority :: "env \<Rightarrow> utext \<Rightarrow> tool_context action" where
  "prepareTaskAuthority env task d =
     andthen (lifts (requireTask d task)) (\<lambda>i.
       andthen (lifts (requireGrant d (ti_grant i))) (\<lambda>g.
         if g_revoked g \<noteq> None then throw RevokedAuthority
         else
           andthen (grantBaseline env i g) (\<lambda>baseline.
             andthen (\<lambda>d. case en_prepare env of
                 None \<Rightarrow> (Inr None, d)
               | Some f \<Rightarrow> andthen (from_host (f d i)) (\<lambda>a. ret (Some a)) d) (\<lambda>prepared.
               andthen (authority_tx env i g baseline prepared) (\<lambda>_ d.
                 andthen (lifts (requireGrant d (ti_grant i))) (\<lambda>current.
                   ret \<lparr>tc_task = task, tc_revision = ti_revision i, tc_grant = g_id current,
                     tc_grant_revision = g_revision current,
                     tc_run = (case kv_get (runs d) (admissionKey task (ti_revision i)) of
                        Some s \<Rightarrow> rb_run (rs_binding s)
                      | None \<Rightarrow> js ''authority:'' @ task @ js '':'' @ show_int (ti_revision i))\<rparr>) d))))) d"

section \<open>Admission to the engine\<close>

definition previous_run :: "db \<Rightarrow> task_intent \<Rightarrow> run_snapshot option" where
  "previous_run d i =
     (let rs = filter (\<lambda>s. rb_revision (rs_binding s) < ti_revision i) (task_runs d (ti_id i))
      in find (\<lambda>s. \<forall>r \<in> set rs. rb_revision (rs_binding r) \<le> rb_revision (rs_binding s)) rs)"

definition submission_for ::
  "env \<Rightarrow> task_intent \<Rightarrow> utext \<Rightarrow> utext \<Rightarrow> prepared_input option \<Rightarrow> run_snapshot option \<Rightarrow> submission" where
  "submission_for env i key token prepared previous =
     (let fresh = (case prepared of None \<Rightarrow> False | Some p \<Rightarrow> pi_fresh p);
          kept = (if fresh then None else previous)
      in \<lparr>sb_task = ti_id i, sb_revision = ti_revision i, sb_key = key,
          sb_instruction = ti_instruction i, sb_token = token,
          sb_session = Option.bind kept (\<lambda>s. rb_session (rs_binding s)),
          sb_staged = Option.bind prepared pi_staged,
          sb_context = (case Option.bind prepared pi_context of
             Some c \<Rightarrow> Prepared c
           | None \<Rightarrow> Derived (ti_source i) (ti_contexts i) (ti_artifacts i)
               (Option.bind kept rs_output) (map_option (\<lambda>s. rb_run (rs_binding s)) kept))\<rparr>)"

definition bind_or_cancel :: "env \<Rightarrow> utext \<Rightarrow> run_snapshot \<Rightarrow> unit action" where
  \<comment> \<open>Bind the run to the token; when authority was lost meanwhile, stop the run instead.\<close>
  "bind_or_cancel env token s =
     attempt (via_broker (bindToken (broker_of env) (en_now env) token (rs_binding s)))
       (\<lambda>_. attempt (andthen (cancel_run env s) (\<lambda>_. ret ())) (\<lambda>_. ret ()))"

definition dispatch_admission ::
  "env \<Rightarrow> task_intent \<Rightarrow> utext \<Rightarrow> utext \<Rightarrow> admission \<Rightarrow> prepared_input option \<Rightarrow> unit action" where
  \<comment> \<open>From \<open>engine.submit\<close> on: an error from here leaves the admission unknown.\<close>
  "dispatch_admission env i key token a prepared d =
     attempt (\<lambda>d.
         andthen (from_host (en_submit env d (submission_for env i key token prepared (previous_run d i)))) (\<lambda>s.
           andthen (acceptSnapshot s (ti_id i) (ti_revision i) key) (\<lambda>_.
             andthen (upd (put_admission (admissionKey (ti_id i) (ti_revision i)) (a\<lparr>ad_state := ABound\<rparr>))) (\<lambda>_.
               bind_or_cancel env token s))) d)
       (\<lambda>e. upd (put_admission (admissionKey (ti_id i) (ti_revision i))
          (a\<lparr>ad_state := AUnknown, ad_reason := Some (error_text e)\<rparr>))) d"

definition prepared_input_of :: "env \<Rightarrow> task_intent \<Rightarrow> utext \<Rightarrow> prepared_input option action" where
  \<comment> \<open>\<open>prepareInput\<close>, then the recheck of the token before the provider can start.\<close>
  "prepared_input_of env i token d =
     andthen (\<lambda>d. case en_input env of
         None \<Rightarrow> (Inr None, d)
       | Some f \<Rightarrow> andthen (from_host (f d i)) (\<lambda>p. ret (Some p)) d) (\<lambda>p d.
       andthen (via_broker (\<lambda>d. (resolve (broker_of env) (en_now env) d token, d))) (\<lambda>_. ret p) d) d"

definition admission_key :: "task_intent \<Rightarrow> utext" where
  "admission_key i = js ''neurobro:'' @ ti_id i @ js '':'' @ show_int (ti_revision i)"

definition admit_prepared :: "env \<Rightarrow> task_intent \<Rightarrow> unit action" where
  \<comment> \<open>\<open>admit\<close> after authority preparation: issue the token, reserve the admission, submit.\<close>
  "admit_prepared env i d =
     andthen (lifts (requireTask d (ti_id i))) (\<lambda>actual d.
       if ti_revision actual \<noteq> ti_revision i then (Inr (), d)
       else
         andthen (lifts (requireGrant d (ti_grant i))) (\<lambda>g.
           if g_revoked g \<noteq> None \<or> opt_passed (g_expires g) (en_now env)
           then hold env (ti_id i) (js ''Task authority expired before admission'') False
           else (\<lambda>d.
             let key = admission_key i; token = en_token env d in
             andthen (via_broker (issue (broker_of env) (en_now env) token
                 \<lparr>tc_task = ti_id i, tc_revision = ti_revision i, tc_grant = g_id g,
                  tc_grant_revision = g_revision g, tc_run = js ''admission:'' @ key\<rparr>)) (\<lambda>_ d.
               let a = \<lparr>ad_task = ti_id i, ad_revision = ti_revision i, ad_key = key, ad_token = token,
                        ad_state = AReserved, ad_created = Iso (en_now env), ad_reason = None\<rparr>
               in (case insert_admission (admissionKey (ti_id i) (ti_revision i)) a d of
                     (False, _) \<Rightarrow> (Inr (), d)
                   | (True, d1) \<Rightarrow>
                       (case prepared_input_of env i token d1 of
                          (Inr p, d2) \<Rightarrow> dispatch_admission env i key token a p d2
                        | (Inl e, d2) \<Rightarrow>
                            andthen (upd (put_admission (admissionKey (ti_id i) (ti_revision i))
                                (a\<lparr>ad_state := ABlocked, ad_reason := Some (error_text e)\<rparr>))) (\<lambda>_.
                              hold env (ti_id i) (js ''Input preparation blocked: '' @ error_text e) False) d2))) d)) d) d"

definition admit :: "env \<Rightarrow> task_intent \<Rightarrow> unit action" where
  "admit env i d =
     andthen (lifts (requireTask d (ti_id i))) (\<lambda>actual d.
       if ti_revision actual \<noteq> ti_revision i then (Inr (), d)
       else if unsettled_stop d (ti_id i) \<noteq> None
       then hold env (ti_id i) (js ''Owned child execution/effects settlement is unresolved'') True d
       else
         (case prepareTaskAuthority env (ti_id i) d of
            (Inr _, d1) \<Rightarrow> admit_prepared env i d1
          | (Inl e, d1) \<Rightarrow>
              andthen (lifts (requireTask d1 (ti_id i))) (\<lambda>now_actual.
                if ti_revision now_actual \<noteq> ti_revision i then ret ()
                else hold env (ti_id i) (js ''Authority preparation blocked: '' @ error_text e) False) d1)) d"


section \<open>Corrections\<close>

definition unresolved_admission :: "admission \<Rightarrow> bool" where
  "unresolved_admission a \<longleftrightarrow> ad_state a \<in> {AUnknown, AReserved}"

definition unresolvedPriorWork :: "db \<Rightarrow> task_intent \<Rightarrow> bool" where
  "unresolvedPriorWork d i \<longleftrightarrow>
     list_ex (\<lambda>a. ad_task a = ti_id i \<and> ad_revision a < ti_revision i \<and> unresolved_admission a) (kv_list (admissions d)) \<or>
     list_ex (\<lambda>s. rb_revision (rs_binding s) < ti_revision i \<and> \<not> terminal (rs_state s)) (task_runs d (ti_id i)) \<or>
     list_ex uncertain_effect (task_effects (Some (ti_id i)) d)"

record change =
  ch_instruction :: utext
  ch_route :: "route option"
  ch_id :: "utext option"
  ch_authorized :: stamp
  ch_refresh :: bool
  ch_source :: "observation option"

definition corrected_intent :: "env \<Rightarrow> db \<Rightarrow> task_intent \<Rightarrow> change \<Rightarrow> task_intent" where
  "corrected_intent env d i c =
     i\<lparr>ti_instruction := (if ch_refresh c then ti_instruction i
          else ti_instruction i @ [10, 10] @ js ''Owner correction: '' @ trim (ch_instruction c)),
       ti_contexts := dedup (ti_contexts i @
          (case ch_source c of None \<Rightarrow> []
           | Some ob \<Rightarrow> or_else (o_contexts ob) [] @ (case o_reply ob of None \<Rightarrow> [] | Some r \<Rightarrow> [refKey r]))),
       ti_artifacts := dedup (ti_artifacts i @
          (case ch_source c of None \<Rightarrow> [] | Some ob \<Rightarrow> or_else (o_artifacts ob) [])),
       ti_revision := ti_revision i + 1,
       ti_route := or_else (ch_route c) (ti_route i),
       ti_updated := Iso (en_now env),
       ti_grant := en_grant_id env d\<rparr>"

definition link_source :: "env \<Rightarrow> utext \<Rightarrow> observation option \<Rightarrow> unit action" where
  "link_source env task source d =
     (case source of
        None \<Rightarrow> (Inr (), d)
      | Some ob \<Rightarrow>
          (case taskForSource d (o_ref ob) of
             Some t \<Rightarrow> if ti_id t \<noteq> task then (Inl FollowUpBound, d)
               else (Inr (), put_owner_change task \<lparr>oc_ref = o_ref ob, oc_authorized = authorized_at ob\<rparr>
                 (put_source (refKey (o_ref ob)) task d))
           | None \<Rightarrow> (Inr (), put_owner_change task \<lparr>oc_ref = o_ref ob, oc_authorized = authorized_at ob\<rparr>
                 (put_source (refKey (o_ref ob)) task d))))"

definition claim_change :: "utext option \<Rightarrow> utext \<Rightarrow> bool action" where
  \<comment> \<open>\<open>changeId && !insert('appliedChanges', ...)\<close>: whether this change is new.\<close>
  "claim_change c task d =
     (case c of
        None \<Rightarrow> (Inr True, d)
      | Some k \<Rightarrow> if k = [] then (Inr True, d) else
          (case insert_applied_change k task d of (fresh, d') \<Rightarrow> (Inr fresh, d')))"

definition renew_deadline :: "env \<Rightarrow> utext \<Rightarrow> change \<Rightarrow> unit action" where
  "renew_deadline env task c d =
     (case ch_route c of
        Some r \<Rightarrow>
          if \<not> ch_refresh c \<and> is_public env r then
            andthen (lifts (iso_of (map_option (\<lambda>t. t + en_origin_ttl env) (date_parse (ch_authorized c))))) (\<lambda>x.
              upd (\<lambda>d. delete_origin_review task (put_origin_deadline task
                \<lparr>od_task = task, od_peer = Some (rt_peer r), od_expires = x\<rparr> d))) d
          else (Inr (), d)
      | None \<Rightarrow> (Inr (), d))"

definition carry_over :: "env \<Rightarrow> task_intent \<Rightarrow> grant \<Rightarrow> grant \<Rightarrow> grant action" where
  \<comment> \<open>A context refresh keeps the scope, the expiry and the baseline of the grant it replaces.\<close>
  "carry_over env i old g =
     andthen (grantBaseline env i old) (\<lambda>x.
       andthen (upd (put_grant_baseline (g_id g) x)) (\<lambda>_.
         ret (g\<lparr>g_capabilities := g_capabilities old, g_expires := g_expires old\<rparr>)))"

definition save_correction ::
  "env \<Rightarrow> utext \<Rightarrow> int \<Rightarrow> change \<Rightarrow> task_intent \<Rightarrow> grant \<Rightarrow> task_intent action" where
  "save_correction env task before c next g =
     andthen (upd (\<lambda>d. put_control task
         \<lparr>ct_task = task, ct_cancelled = None, ct_held = Some (ti_updated next),
          ct_reason = Some (js ''Correction saved; checking prior execution settlement''), ct_resume = True\<rparr>
         (put_grant (ti_grant next) g (put_task task next d)))) (\<lambda>_.
       andthen (journalChildStop env task (js ''Parent task corrected'') before) (\<lambda>_.
         andthen (upd (put_correction (admissionKey task (ti_revision next))
             \<lparr>co_task = task, co_revision = ti_revision next, co_instruction = ch_instruction c,
              co_refresh = ch_refresh c, co_created = ti_updated next,
              co_source = map_option o_ref (ch_source c),
              co_authorized = map_option authorized_at (ch_source c)\<rparr>)) (\<lambda>_.
           ret next)))"

definition revise :: "env \<Rightarrow> utext \<Rightarrow> int \<Rightarrow> change \<Rightarrow> task_intent \<Rightarrow> task_intent action" where
  "revise env task before c actual d =
     andthen (lifts (requireGrant d (ti_grant actual))) (\<lambda>old.
       andthen (revoke_grant env False (ti_grant actual)) (\<lambda>_.
         andthen (upd (revokeTask (en_now env) task)) (\<lambda>_ d.
           (let next = corrected_intent env d actual c in
            andthen (renew_deadline env task c) (\<lambda>_.
              andthen (makeGrant env next) (\<lambda>g.
                andthen (if ch_refresh c then carry_over env actual old g else ret g)
                  (save_correction env task before c next))) d)))) d"

definition correction_tx :: "env \<Rightarrow> utext \<Rightarrow> int \<Rightarrow> change \<Rightarrow> task_intent action" where
  "correction_tx env task before c =
     atomically (\<lambda>d.
       andthen (lifts (requireTask d task)) (\<lambda>actual.
         andthen (link_source env task (ch_source c)) (\<lambda>_.
           andthen (claim_change (ch_id c) task) (\<lambda>fresh.
             if fresh then revise env task before c actual else ret actual))) d)"

definition engine_settled :: "env \<Rightarrow> utext \<Rightarrow> run_snapshot option \<Rightarrow> bool action" where
  \<comment> \<open>Stop the current run: True when the correction may go on, False when the task is held.\<close>
  "engine_settled env task current d =
     (case current of
        None \<Rightarrow> (Inr True, d)
      | Some s \<Rightarrow>
          if terminal (rs_state s) then (Inr True, d)
          else
            attempt (andthen (cancel_run env s) (\<lambda>ended.
                if terminal (rs_state ended) then ret True
                else andthen (hold env task (js ''Correction saved; old engine execution has not settled'') True)
                  (\<lambda>_. ret False)))
              (\<lambda>_. andthen (hold env task (js ''Correction saved; old engine cancellation is unknown'') True)
                (\<lambda>_. ret False)) d)"

definition correction_settle ::
  "env \<Rightarrow> bool \<Rightarrow> utext \<Rightarrow> int \<Rightarrow> run_snapshot option \<Rightarrow> task_intent \<Rightarrow> unit action" where
  \<comment> \<open>After the transaction: settle the old execution, then resume or stay held.\<close>
  "correction_settle env replaying task before current i d =
     andthen (stopChildren env task (js ''Parent task corrected'') before) (\<lambda>settled.
       andthen (engine_settled env task current) (\<lambda>go d.
         if \<not> go then (Inr (), d)
         else if list_ex uncertain_effect (task_effects (Some task) d)
         then hold env task (js ''Correction saved; possible external effects must be reconciled'') True d
         else if current = None \<and>
                 (case kv_get (admissions d) (admissionKey task before) of
                    None \<Rightarrow> False | Some a \<Rightarrow> unresolved_admission a)
         then hold env task (js ''Correction saved; original engine admission is unresolved'') True d
         else if \<not> settled then (Inr (), d)
         else
           andthen (lifts (requireTask d task)) (\<lambda>now_actual d.
             if ti_revision now_actual \<noteq> ti_revision i then (Inr (), d)
             else if unresolvedPriorWork d i
             then hold env task (js ''Correction saved; earlier execution or admission is unresolved'') True d
             else if replaying then (Inr (), delete_control task d)
             else admit env i (delete_control task d)) d)) d"

definition applyCorrection :: "env \<Rightarrow> bool \<Rightarrow> utext \<Rightarrow> change \<Rightarrow> task_status option action" where
  "applyCorrection env replaying task c d =
     (if \<not> ch_refresh c \<and> trim (ch_instruction c) = [] then (Inl EmptyCorrection, d)
      else
        andthen (lifts (requireTask d task)) (\<lambda>before d.
          if (case ch_id c of None \<Rightarrow> False | Some k \<Rightarrow> k \<noteq> [] \<and> kv_get (applied_changes d) k \<noteq> None)
          then (Inr (status d task), d)
          else
            (let current = kv_get (runs d) (admissionKey task (ti_revision before)) in
             andthen (correction_tx env task (ti_revision before) c) (\<lambda>i.
               andthen (correction_settle env replaying task (ti_revision before) current i) (\<lambda>_.
                 reads (\<lambda>d. status d task))) d)) d)"

definition refreshContext :: "env \<Rightarrow> utext \<Rightarrow> task_status option action" where
  "refreshContext env task = applyCorrection env False task
     \<lparr>ch_instruction = [], ch_route = None, ch_id = None, ch_authorized = Iso (en_now env),
      ch_refresh = True, ch_source = None\<rparr>"

definition correct :: "env \<Rightarrow> utext \<Rightarrow> utext \<Rightarrow> route option \<Rightarrow> task_status option action" where
  "correct env task instruction r = applyCorrection env False task
     \<lparr>ch_instruction = instruction, ch_route = r, ch_id = None, ch_authorized = Iso (en_now env),
      ch_refresh = False, ch_source = None\<rparr>"

definition resume_one :: "env \<Rightarrow> control \<Rightarrow> unit action" where
  "resume_one env ctl d =
     (if \<not> ct_resume ctl \<or> ct_cancelled ctl \<noteq> None then (Inr (), d)
      else
        andthen (lifts (requireTask d (ct_task ctl))) (\<lambda>i d.
          if unsettled_stop d (ti_id i) \<noteq> None \<or>
             list_ex (\<lambda>a. ad_task a = ti_id i \<and> ad_revision a < ti_revision i \<and> unresolved_admission a)
               (kv_list (admissions d)) \<or>
             list_ex (\<lambda>s. \<not> terminal (rs_state s)) (task_runs d (ti_id i)) \<or>
             list_ex uncertain_effect (task_effects (Some (ti_id i)) d)
          then (Inr (), d)
          else
            andthen (atomically (\<lambda>d.
                let restored = i\<lparr>ti_grant := en_grant_id env d\<rparr> in
                andthen (makeGrant env restored) (\<lambda>g d.
                  andthen
                    (if (case kv_get (corrections d) (admissionKey (ti_id i) (ti_revision i)) of
                           None \<Rightarrow> False | Some co \<Rightarrow> co_refresh co)
                     then andthen (lifts (requireGrant d (ti_grant i))) (\<lambda>old. carry_over env i old g)
                     else ret g)
                    (\<lambda>g. upd (\<lambda>d. delete_control (ti_id i)
                       (put_grant (ti_grant restored) g (put_task (ti_id i) restored d)))) d) d))
              (\<lambda>_ d. andthen (lifts (requireTask d (ti_id i))) (admit env) d) d) d)"

definition resumeSettledCorrections :: "env \<Rightarrow> unit action" where
  "resumeSettledCorrections env d = foreach (resume_one env) (kv_list (controls d)) d"


section \<open>Origin drafts, contexts and receipts\<close>

definition invalidate_one :: "env \<Rightarrow> observation \<Rightarrow> task_intent \<Rightarrow> unit action" where
  "invalidate_one env ob i d =
     (if mr_peer (ti_source i) \<noteq> mr_peer (o_ref ob) \<or> \<not> is_public env (ti_route i) \<or> sameRef (ti_source i) (o_ref ob)
      then (Inr (), d)
      else
        andthen (lifts (requireGrant d (ti_grant i))) (\<lambda>g.
          if g_revoked g \<noteq> None then ret ()
          else
            andthen (upd (put_grant (g_id g)
                (g\<lparr>g_revision := g_revision g + 1,
                   g_capabilities := map (\<lambda>c.
                     if cg_capability c \<in> set send_capabilities
                     then c\<lparr>cg_resources := filter (\<lambda>r. r \<noteq> mr_peer (o_ref ob)) (cg_resources c)\<rparr>
                     else c) (g_capabilities g)\<rparr>))) (\<lambda>_.
              upd (\<lambda>d. put_origin_review (ti_id i) (o_ref ob) (revokeTask (en_now env) (ti_id i) d)))) d)"

definition invalidateOriginDrafts :: "env \<Rightarrow> observation \<Rightarrow> unit action" where
  "invalidateOriginDrafts env ob d = foreach (invalidate_one env ob) (kv_list (tasks d)) d"

definition issueToolContext :: "env \<Rightarrow> run_binding \<Rightarrow> utext action" where
  "issueToolContext env b d =
     (case kv_get (runs d) (admissionKey (rb_task b) (rb_revision b)) of
        None \<Rightarrow> (Inl BindingNotRegistered, d)
      | Some s \<Rightarrow>
          if rs_binding s \<noteq> b then (Inl BindingNotRegistered, d)
          else
            andthen (lifts (requireTask d (rb_task b))) (\<lambda>i d.
              andthen (lifts (requireGrant d (ti_grant i))) (\<lambda>g.
                via_broker (issue (broker_of env) (en_now env) (en_token env d)
                  \<lparr>tc_task = ti_id i, tc_revision = rb_revision b, tc_grant = g_id g,
                   tc_grant_revision = g_revision g, tc_run = rb_run b\<rparr>)) d) d)"

definition issueExecutionContext :: "env \<Rightarrow> tool_context \<Rightarrow> utext action" where
  "issueExecutionContext env ctx d =
     (case validateExecutionContext (broker_of env) (en_now env) d ctx of
        Inl e \<Rightarrow> (Inl (Broker e), d)
      | Inr _ \<Rightarrow> via_broker (issue (broker_of env) (en_now env) (en_token env d) ctx) d)"

definition executeEffect :: "env \<Rightarrow> utext \<Rightarrow> effect_request \<Rightarrow> effect action" where
  "executeEffect env token rq =
     via_broker (execute (broker_of env) (en_dispatch env) (en_now env) (en_now env) token rq)"

definition registerOwnOutput :: "env \<Rightarrow> message_ref \<Rightarrow> utext \<Rightarrow> utext option \<Rightarrow> unit action" where
  "registerOwnOutput env r task e d =
     andthen (lifts (requireTask d task)) (\<lambda>_.
       if mr_account r \<noteq> en_account env then throw OtherAccount
       else upd (put_own_output (refKey r)
         \<lparr>oo_ref = r, oo_task = task, oo_effect = e, oo_control_only = False\<rparr>)) d"

section \<open>Acknowledgements\<close>

definition registerAcknowledgement :: "env \<Rightarrow> utext \<Rightarrow> effect \<Rightarrow> unit action" where
  "registerAcknowledgement env task e d =
     andthen (lifts (requireTask d task)) (\<lambda>i d.
       if e_payload e = JNull then (Inl BadPayload, d)
       else if kv_get (control_targets d) (e_task e) \<noteq> Some task \<or> e_capability e \<noteq> js ''telegram.send'' \<or>
          e_resource e \<noteq> rt_peer (en_route env) \<or> field (Some (e_payload e)) ''text'' \<noteq> Some (JStr ack_text)
       then (Inl BadAcknowledgement, d)
       else if kv_get (acknowledgements d) task \<noteq> None then (Inr (), d)
       else (Inr (), put_acknowledgement task
         \<lparr>ak_task = task, ak_revision = ti_revision i, ak_effect = e_id e\<rparr> d)) d"

definition opt_str :: "utext option \<Rightarrow> json option" where
  "opt_str x = map_option JStr x"

definition same_thread :: "json option \<Rightarrow> utext option \<Rightarrow> bool" where
  "same_thread v t \<longleftrightarrow> same_value v (opt_str t)"

definition acknowledgementReplacement :: "env \<Rightarrow> db \<Rightarrow> task_intent \<Rightarrow> json option" where
  "acknowledgementReplacement env d i =
     (case (en_read env, kv_get (acknowledgements d) (ti_id i)) of
        (Some readback, Some b) \<Rightarrow>
          if ak_revision b \<noteq> ti_revision i then None
          else
            (case kv_get (effects d) (ak_effect b) of
               None \<Rightarrow> None
             | Some e \<Rightarrow>
                 (case field (e_receipt e) ''messageId'' of
                    Some (JStr m) \<Rightarrow>
                      if e_state e \<noteq> EVerified \<or> e_resource e \<noteq> rt_peer (ti_route i) \<or>
                         field (e_receipt e) ''peerId'' \<noteq> Some (JStr (e_resource e)) then None
                      else
                        (let r = \<lparr>mr_account = en_account env, mr_peer = e_resource e, mr_message = m, mr_thread = None\<rparr>
                         in (case kv_get (own_outputs d) (refKey r) of
                               None \<Rightarrow> None
                             | Some own \<Rightarrow>
                                 if oo_task own \<noteq> ti_id i \<or> oo_effect own \<noteq> Some (e_id e) \<or>
                                    \<not> same_thread (field (Some (e_payload e)) ''threadId'') (rt_thread (ti_route i)) \<or>
                                    \<not> same_thread (field (Some (e_payload e)) ''replyToMessageId'') (rt_reply (ti_route i))
                                 then None
                                 else
                                   (case readback d r of
                                      Inr (Some ob) \<Rightarrow>
                                        if sameRef (o_ref ob) r \<and> o_outgoing ob \<and> o_author ob = Some (en_account env) \<and>
                                           \<not> o_forwarded ob \<and> \<not> o_via_bot ob \<and> o_effect ob = Some (e_id e) \<and>
                                           same_thread (field (Some (e_payload e)) ''text'') (o_text ob) \<and>
                                           mr_thread (o_ref ob) = rt_thread (ti_route i)
                                        then Some (JObj ([(js ''effectId'', JStr (e_id e)), (js ''payloadHash'', JStr (e_hash e)),
                                            (js ''messageId'', JStr m)] @
                                            (case field (Some (e_payload e)) ''text'' of
                                               None \<Rightarrow> [] | Some t \<Rightarrow> [(js ''expectedText'', t)])))
                                        else None
                                    | _ \<Rightarrow> None)))
                  | _ \<Rightarrow> None))
      | _ \<Rightarrow> None)"

section \<open>Delivery\<close>

definition part_head :: "nat \<Rightarrow> nat \<Rightarrow> utext" where
  "part_head parts_no index = brand_head @
     (if 1 < parts_no then part_mark @ show_nat (index + 1) @ js ''/'' @ show_nat parts_no else []) @ [10, 10]"

definition message_payload :: "route \<Rightarrow> bool \<Rightarrow> utext \<Rightarrow> json" where
  \<comment> \<open>Empty thread and reply identifiers are falsy and left out.\<close>
  "message_payload r with_reply text = JObj
     ([(js ''peerId'', JStr (rt_peer r))] @
      (case rt_thread r of None \<Rightarrow> [] | Some t \<Rightarrow> if t = [] then [] else [(js ''threadId'', JStr t)]) @
      (case rt_reply r of None \<Rightarrow> [] | Some t \<Rightarrow>
         if t = [] \<or> \<not> with_reply then [] else [(js ''replyToMessageId'', JStr t)]) @
      [(js ''text'', JStr text)])"

definition delivery_request :: "task_status \<Rightarrow> run_snapshot \<Rightarrow> nat \<Rightarrow> nat \<Rightarrow> utext \<Rightarrow> effect_request" where
  "delivery_request st s parts_no index part =
     \<lparr>rq_id = Some (js ''delivery:'' @ rb_run (rs_binding s) @ js '':part:'' @ show_nat index),
      rq_capability = js ''telegram.send'', rq_resource = rt_peer (ti_route (ts_intent st)),
      rq_payload = message_payload (ti_route (ts_intent st)) True (part_head parts_no index @ part)\<rparr>"

fun with_replacement :: "json \<Rightarrow> json option \<Rightarrow> json" where
  "with_replacement (JObj kvs) (Some r) = JObj (kvs @ [(js ''replaceAcknowledgement'', r)])"
| "with_replacement p _ = p"

definition deliver_part ::
  "env \<Rightarrow> task_status \<Rightarrow> run_snapshot \<Rightarrow> utext \<Rightarrow> nat \<Rightarrow> nat \<Rightarrow> utext \<Rightarrow> effect action" where
  "deliver_part env st s token parts_no index part d =
     (case resolve (broker_of env) (en_now env) d token of
        Inl e \<Rightarrow> (Inl (Broker e), d)
      | Inr c \<Rightarrow>
          let rq = delivery_request st s parts_no index part in
          (case effectOperationId (broker_of env) (cr_context c) rq of
             None \<Rightarrow> (Inl (Broker NonFiniteNumber), d)
           | Some k \<Rightarrow>
               let payload = (case kv_get (effects d) k of
                     Some previous \<Rightarrow> e_payload previous
                   | None \<Rightarrow> if index = 0
                       then with_replacement (rq_payload rq) (acknowledgementReplacement env d (ts_intent st))
                       else rq_payload rq)
               in via_broker (executeDelivery (broker_of env) (en_dispatch env) (en_now env) (en_now env) token
                    (rq\<lparr>rq_payload := payload\<rparr>)) d))"

fun is_authority_error :: "agent_error \<Rightarrow> bool" where
  \<comment> \<open>\<open>error instanceof AuthorityError\<close>, for the errors the broker throws\<close>
  "is_authority_error (Broker NonFiniteNumber) = False"
| "is_authority_error (Broker InvalidSettlement) = False"
| "is_authority_error (Broker (HookError _)) = False"
| "is_authority_error (Broker _) = True"
| "is_authority_error e = (e \<in> {EngineMismatch, FollowUpBound, DifferentRun, InspectedOther, RevokedAuthority,
     TaskChanged, InvalidDeadline, BindingNotRegistered, BadAcknowledgement, ReplyUnauthenticated,
     OtherAccount, OtherIdentity})"

fun deliver_parts ::
  "env \<Rightarrow> task_status \<Rightarrow> run_snapshot \<Rightarrow> utext \<Rightarrow> nat \<Rightarrow> nat \<Rightarrow> utext list \<Rightarrow> effect list action" where
  "deliver_parts env st s token parts_no index [] d = (Inr [], d)"
| "deliver_parts env st s token parts_no index (p # ps) d =
     (case deliver_part env st s token parts_no index p d of
        (Inl e, d1) \<Rightarrow> (if is_authority_error e then Inr [] else Inl e, d1)
      | (Inr e, d1) \<Rightarrow>
          if e_state e \<noteq> EVerified then (Inr [e], d1)
          else andthen (deliver_parts env st s token parts_no (Suc index) ps) (\<lambda>es. ret (e # es)) d1)"

definition deliver_status :: "env \<Rightarrow> task_status \<Rightarrow> effect list action" where
  "deliver_status env st d =
     (case ts_run st of
        None \<Rightarrow> (Inr [], d)
      | Some s \<Rightarrow>
          if ts_cancelled st \<noteq> None \<or> ts_held st \<noteq> None \<or> rs_state s \<noteq> RCompleted \<or>
             or_else (rs_output s) [] = [] \<or> rb_revision (rs_binding s) \<noteq> ti_revision (ts_intent st)
          then (Inr [], d)
          else
            andthen (lifts (requireGrant d (ti_grant (ts_intent st)))) (\<lambda>g d.
              if g_revoked g \<noteq> None \<or> opt_passed (g_expires g) (en_now env) then (Inr [], d)
              else
                andthen (issueToolContext env (rs_binding s)) (\<lambda>token.
                  let parts = deliveryParts (or_else (rs_output s) []) 3500
                  in deliver_parts env st s token (length parts) 0 parts) d) d)"

fun deliver_all :: "env \<Rightarrow> task_status list \<Rightarrow> effect list action" where
  "deliver_all env [] d = (Inr [], d)"
| "deliver_all env (st # sts) d =
     andthen (deliver_status env st) (\<lambda>es. andthen (deliver_all env sts) (\<lambda>fs. ret (es @ fs))) d"

definition poll :: "env \<Rightarrow> utext set \<Rightarrow> (task_status list \<times> effect list) action" where
  \<comment> \<open>\<open>in_flight\<close>: the executions other calls are awaiting. The concurrent \<open>refresh\<close> calls run in turn.\<close>
  "poll env in_flight d =
     andthen (upd (recover (broker_of env) (en_reconcile env) in_flight (en_now env) (en_now env))) (\<lambda>_ d.
       andthen (foreach (\<lambda>s. andthen (refresh env s) (\<lambda>_. ret ()))
           (filter (\<lambda>s. \<not> terminal (rs_state s)) (kv_list (runs d)))) (\<lambda>_ d.
         andthen (foreach (\<lambda>s. andthen
               (stopChildren env (cs_task s) (or_else (cs_reason s) (js ''Reconcile parent stop'')) (cs_revision s)) (\<lambda>_. ret ()))
             (filter (\<lambda>s. cs_state s \<noteq> SSettled) (kv_list (child_stops d)))) (\<lambda>_.
           andthen (resumeSettledCorrections env) (\<lambda>_ d.
             andthen (deliver_all env (all_status d)) (\<lambda>es. reads (\<lambda>d. (all_status d, es))) d)) d) d) d"


section \<open>Control replies\<close>

definition trusted_deletion :: "env \<Rightarrow> db \<Rightarrow> observation \<Rightarrow> bool" where
  "trusted_deletion env d ob \<longleftrightarrow>
     o_kind ob = ODelete \<and> mr_account (o_ref ob) = en_account env \<and> \<not> o_forwarded ob \<and> \<not> o_via_bot ob \<and>
     (o_author ob = None \<or> o_author ob = Some (en_owner env)) \<and> taskForSource d (o_ref ob) \<noteq> None"

fun kind_text :: "obs_kind \<Rightarrow> utext" where
  "kind_text OMessage = js ''message''"
| "kind_text OEdit = js ''edit''"
| "kind_text ODelete = js ''delete''"

definition control_task :: "env \<Rightarrow> utext \<Rightarrow> message_ref \<Rightarrow> utext \<Rightarrow> task_intent" where
  "control_task env k r gid =
     \<lparr>ti_id = k, ti_owner = en_owner env, ti_account = en_account env, ti_source = r,
      ti_instruction = js ''Private control response'', ti_revision = 1, ti_route = en_route env,
      ti_created = Iso (en_now env), ti_updated = Iso (en_now env), ti_contexts = [], ti_artifacts = [],
      ti_grant = gid, ti_control_only = True\<rparr>"

definition control_grant :: "env \<Rightarrow> utext \<Rightarrow> utext \<Rightarrow> grant" where
  "control_grant env k gid =
     \<lparr>g_id = gid, g_task = k, g_revision = 1,
      g_capabilities = [\<lparr>cg_capability = js ''telegram.send'', cg_resources = [rt_peer (en_route env)]\<rparr>],
      g_expires = Some (Iso (en_now env + 86400000)), g_revoked = None\<rparr>"

definition control_reply_key :: "observation \<Rightarrow> utext" where
  "control_reply_key ob = js ''control:'' @ refKey (o_ref ob) @ js '':'' @ kind_text (o_kind ob) @ js '':'' @
     or_else (o_version ob) []"

definition ensure_control_task :: "env \<Rightarrow> observation \<Rightarrow> utext option \<Rightarrow> db \<Rightarrow> task_intent \<times> db" where
  "ensure_control_task env ob target d =
     (let k = control_reply_key ob in
      (case kv_get (tasks d) k of
         Some i \<Rightarrow> (i, d)
       | None \<Rightarrow>
           (let gid = en_grant_id env d; i = control_task env k (o_ref ob) gid;
                d1 = put_grant gid (control_grant env k gid) (put_task k i d)
            in (i, case target of None \<Rightarrow> d1 | Some t \<Rightarrow> if t = [] then d1 else put_control_target k t d1))))"

definition journalControlReply :: "env \<Rightarrow> observation \<Rightarrow> utext \<Rightarrow> utext option \<Rightarrow> effect action" where
  "journalControlReply env ob text target d =
     (if \<not> authenticate env ob \<and> \<not> trusted_deletion env d ob then (Inl ReplyUnauthenticated, d)
      else if (case target of None \<Rightarrow> False | Some t \<Rightarrow> t \<noteq> [] \<and> kv_get (tasks d) t = None) then (Inl UnknownTask, d)
      else
        (case ensure_control_task env ob target d of
           (i, d1) \<Rightarrow>
             andthen (lifts (requireGrant d1 (ti_grant i))) (\<lambda>g d.
               andthen (via_broker (issue (broker_of env) (en_now env) (en_token env d)
                   \<lparr>tc_task = control_reply_key ob, tc_revision = 1, tc_grant = g_id g,
                    tc_grant_revision = g_revision g, tc_run = js ''control:'' @ o_id ob\<rparr>)) (\<lambda>token d.
                 (case task_effects (Some (control_reply_key ob)) d of
                    e # _ \<Rightarrow> (Inr e, d)
                  | [] \<Rightarrow>
                      via_broker (execute (broker_of env) (en_dispatch env) (en_now env) (en_now env) token
                        \<lparr>rq_id = Some (js ''control-reply''), rq_capability = js ''telegram.send'',
                         rq_resource = rt_peer (en_route env),
                         rq_payload = message_payload (en_route env) False (brand_head @ [10, 10] @ text)\<rparr>) d)) d) d1))"

section \<open>Observations\<close>

definition outcome_of :: "disposition \<Rightarrow> utext option \<Rightarrow> utext option \<Rightarrow> status_report \<Rightarrow> ingest_result" where
  "outcome_of k task reason st = \<lparr>ir_disposition = k, ir_task = task, ir_reason = reason, ir_status = st\<rparr>"

definition ignored :: "utext \<Rightarrow> ingest_result" where
  "ignored reason = outcome_of Ignored None (Some reason) NoStatus"

definition hold_source :: "env \<Rightarrow> utext \<Rightarrow> utext \<Rightarrow> bool \<Rightarrow> ingest_result action" where
  "hold_source env task reason with_status =
     andthen (hold env task reason False) (\<lambda>_.
       reads (\<lambda>d. outcome_of Held (Some task) None
         (if with_status then OneStatus (status d task) else NoStatus)))"

definition owner_correction ::
  "env \<Rightarrow> bool \<Rightarrow> utext \<Rightarrow> observation \<Rightarrow> utext \<Rightarrow> utext \<Rightarrow> stamp \<Rightarrow> route \<Rightarrow> ingest_result action" where
  \<comment> \<open>The stale check and the correction every amending branch performs.\<close>
  "owner_correction env replaying task ob event instruction at r d =
     (if staleOwnerChange d task ob
      then (Inr (outcome_of Ignored (Some task) (Some stale_reason) NoStatus), d)
      else
        andthen (applyCorrection env replaying task
            \<lparr>ch_instruction = instruction, ch_route = Some r, ch_id = Some event, ch_authorized = at,
             ch_refresh = False, ch_source = Some ob\<rparr>) (\<lambda>_.
          reads (\<lambda>d. outcome_of Corrected (Some task) None (OneStatus (status d task)))) d)"

definition process_delete :: "env \<Rightarrow> observation \<Rightarrow> ingest_result action" where
  "process_delete env ob d =
     (if o_forwarded ob \<or> o_via_bot ob \<or> (o_author ob \<noteq> None \<and> o_author ob \<noteq> Some (en_owner env))
      then (Inr (ignored (js ''Delete is not an authenticated account tombstone'')), d)
      else
        (case taskForSource d (o_ref ob) of
           None \<Rightarrow> (Inr (ignored (js ''Deleted message is not an accepted source'')), d)
         | Some t \<Rightarrow> hold_source env (ti_id t) (js ''Source command was deleted; future effects are suspended'') True d))"

definition new_intent :: "env \<Rightarrow> observation \<Rightarrow> utext \<Rightarrow> db \<Rightarrow> task_intent" where
  "new_intent env ob command d =
     \<lparr>ti_id = en_task_id env d, ti_owner = en_owner env, ti_account = en_account env,
      ti_source = o_ref ob, ti_instruction = command, ti_revision = 1,
      ti_route = routeFor env ob command None, ti_created = Iso (en_now env), ti_updated = Iso (en_now env),
      ti_contexts = or_else (o_contexts ob) [] @ (case o_reply ob of None \<Rightarrow> [] | Some r \<Rightarrow> [refKey r]),
      ti_artifacts = or_else (o_artifacts ob) [], ti_grant = en_grant_id env d, ti_control_only = False\<rparr>"

definition create_task :: "env \<Rightarrow> observation \<Rightarrow> task_intent \<Rightarrow> bool action" where
  "create_task env ob i =
     atomically (\<lambda>d.
       (case insert_source (refKey (o_ref ob)) (ti_id i) d of
          (False, _) \<Rightarrow> (Inr False, d)
        | (True, d1) \<Rightarrow>
            andthen (upd (put_task (ti_id i) i)) (\<lambda>_.
              andthen (makeGrant env i) (\<lambda>g.
                andthen (upd (\<lambda>d. put_owner_change (ti_id i) \<lparr>oc_ref = o_ref ob, oc_authorized = authorized_at ob\<rparr>
                    (put_grant (ti_grant i) g d))) (\<lambda>_.
                  if is_public env (ti_route i) then
                    andthen (lifts (iso_of (map_option (\<lambda>t. t + en_origin_ttl env) (date_parse (o_sent ob))))) (\<lambda>x.
                      andthen (upd (put_origin_deadline (ti_id i)
                          \<lparr>od_task = ti_id i, od_peer = Some (rt_peer (ti_route i)), od_expires = x\<rparr>)) (\<lambda>_.
                        andthen (makeGrant env i) (\<lambda>g.
                          andthen (upd (put_grant (ti_grant i) g)) (\<lambda>_. ret True))))
                  else ret True))) d1))"

definition accept_task :: "env \<Rightarrow> bool \<Rightarrow> observation \<Rightarrow> utext \<Rightarrow> ingest_result action" where
  "accept_task env replaying ob command d =
     (let i = new_intent env ob command d in
      andthen (create_task env ob i) (\<lambda>created d.
        if \<not> created
        then (Inr (outcome_of Duplicate (map_option ti_id (taskForSource d (o_ref ob))) None NoStatus), d)
        else
          andthen (if replaying then ret () else admit env i) (\<lambda>_.
            reads (\<lambda>d. outcome_of Accepted (Some (ti_id i)) None (OneStatus (status d (ti_id i))))) d) d)"


definition process_edit ::
  "env \<Rightarrow> bool \<Rightarrow> observation \<Rightarrow> utext \<Rightarrow> utext \<Rightarrow> utext option \<Rightarrow> bool \<Rightarrow> task_intent \<Rightarrow> ingest_result action" where
  "process_edit env replaying ob event text matched natural t =
     (if (matched = None \<and> \<not> natural) \<or> text = []
      then hold_source env (ti_id t) (js ''Accepted command was edited out'') False
      else owner_correction env replaying (ti_id t) ob event
        (case matched of Some r \<Rightarrow> trim r | None \<Rightarrow> text) (authorized_at ob) (routeFor env ob text None))"

definition process_command ::
  "env \<Rightarrow> bool \<Rightarrow> observation \<Rightarrow> utext \<Rightarrow> utext \<Rightarrow> bool \<Rightarrow> ingest_result action" where
  \<comment> \<open>An authenticated command that is neither an edit nor a repeated source.\<close>
  "process_command env replaying ob event command natural d =
     (let target = resolveTask d ob command;
          tagged = (find_tag command \<noteq> None);
          amend = (\<lambda>t text. owner_correction env replaying (ti_id t) ob event text (o_sent ob)
                     (routeFor env ob command (Some t)))
      in if is_status_command command then
           (if target = Several \<or> (tagged \<and> target_task target = None)
            then (Inr (outcome_of Ambiguous None (Some (js ''Choose a registered task ID or reply to its card'')) NoStatus), d)
            else (Inr (outcome_of Status (map_option ti_id (target_task target)) None
                   (case target_task target of
                      Some t \<Rightarrow> OneStatus (status d (ti_id t)) | None \<Rightarrow> AllStatus (all_status d))), d))
         else if is_cancel_command command then
           (case target_task target of
              None \<Rightarrow> (Inr (outcome_of Ambiguous None (Some (js ''Choose the task to cancel'')) NoStatus), d)
            | Some t \<Rightarrow>
                andthen (applyCancellation env (ti_id t)) (\<lambda>_.
                  reads (\<lambda>d. outcome_of Cancelled (Some (ti_id t)) None (OneStatus (status d (ti_id t))))) d)
         else if is_correct_command command \<or> (target_task target \<noteq> None \<and> tagged) then
           (case target_task target of
              None \<Rightarrow> (Inr (outcome_of Ambiguous None (Some (js ''Choose the task to correct'')) NoStatus), d)
            | Some t \<Rightarrow> amend t (trim (strip_tags command)) d)
         else
           (case (target_task target, o_reply ob) of
              (Some t, Some r) \<Rightarrow>
                if kv_get (own_outputs d) (refKey r) \<noteq> None \<or> taskForSource d r \<noteq> None
                then amend t command d
                else accept_task env replaying ob command d
            | (t, None) \<Rightarrow>
                if natural \<and> isCadenceFollowup command then
                  (if target = Several
                   then (Inr (outcome_of Ambiguous None (Some cadence_reason) NoStatus), d)
                   else
                     (case t of
                        Some t \<Rightarrow> if en_correctable env d (ti_id t) then amend t command d
                          else accept_task env replaying ob command d
                      | None \<Rightarrow> accept_task env replaying ob command d))
                else accept_task env replaying ob command d
            | _ \<Rightarrow> accept_task env replaying ob command d))"

definition process_owner :: "env \<Rightarrow> bool \<Rightarrow> observation \<Rightarrow> utext \<Rightarrow> ingest_result action" where
  \<comment> \<open>\<open>processObservation\<close> once the observation is an authenticated direct owner message.\<close>
  "process_owner env replaying ob event d =
     (let source_task = taskForSource d (o_ref ob);
          natural = (Some (mr_peer (o_ref ob)) = en_natural env);
          words = trim (or_else (o_text ob) []);
          text = (if words \<noteq> [] then words else if natural \<and> 0 < o_attachments ob then attach_text else []);
          matched = match_prefix (en_prefix env) text;
          reply_own = Option.bind (o_reply ob) (\<lambda>r. kv_get (own_outputs d) (refKey r));
          reply_source = Option.bind (o_reply ob) (taskForSource d)
      in if beginsWithQuotedCommand ob (en_prefix env) then
           (case source_task of
              Some t \<Rightarrow>
                if o_kind ob = OEdit
                then hold_source env (ti_id t) (js ''Accepted command was changed to quoted material; future effects are suspended'') True d
                else (Inr (ignored quoted_reason), d)
            | None \<Rightarrow> (Inr (ignored quoted_reason), d))
         else
           (case (o_kind ob = OEdit, source_task) of
              (True, Some t) \<Rightarrow> process_edit env replaying ob event text matched natural t d
            | _ \<Rightarrow>
                if matched = None \<and> \<not> natural \<and> reply_own = None \<and> reply_source = None
                then andthen (invalidateOriginDrafts env ob)
                  (\<lambda>_. ret (ignored (js ''No command prefix or task-bound agent reply''))) d
                else
                  (case source_task of
                     Some t \<Rightarrow> (Inr (outcome_of Duplicate (Some (ti_id t)) None NoStatus), d)
                   | None \<Rightarrow>
                       if matched = None \<and> \<not> natural \<and>
                          (case reply_own of None \<Rightarrow> False | Some own \<Rightarrow> oo_control_only own)
                       then (Inr (ignored (js ''Control response has no active task'')), d)
                       else
                         (let command = (case matched of Some r \<Rightarrow> trim r | None \<Rightarrow> text) in
                          if command = [] then (Inr (ignored (js ''Empty command'')), d)
                          else process_command env replaying ob event command natural d))))"

definition processObservation :: "env \<Rightarrow> bool \<Rightarrow> observation \<Rightarrow> utext \<Rightarrow> ingest_result action" where
  "processObservation env replaying ob event d =
     (if date_parse (o_sent ob) = None \<or> date_parse (o_observed ob) = None
      then (Inr (ignored (js ''Observation has an invalid timestamp'')), d)
      else if ownOutput d ob \<noteq> None
      then (Inr (ignored (js ''Own output cannot command the agent'')), d)
      else if o_kind ob = ODelete then process_delete env ob d
      else if \<not> authenticate env ob
      then (Inr (ignored (js ''Observation is not an authenticated direct owner command'')), d)
      else process_owner env replaying ob event d)"

definition event_key :: "observation \<Rightarrow> utext" where
  "event_key ob =
     (case canonicalJson (JArr [JStr (o_id ob), JStr (kind_text (o_kind ob)),
         JStr (case o_version ob of Some v \<Rightarrow> v | None \<Rightarrow> or_else (o_text ob) [])]) of
        Some t \<Rightarrow> t | None \<Rightarrow> [])"

definition journal_observation :: "env \<Rightarrow> observation \<Rightarrow> db \<Rightarrow> db" where
  "journal_observation env ob d =
     (if kv_get (observations d) (event_key ob) \<noteq> None then d
      else
        (let n = or_else (kv_get (sequences d) (js ''observationSequence'')) 0 + 1 in
         snd (insert_observation (event_key ob)
           \<lparr>ro_key = event_key ob, ro_observation = ob, ro_received = Iso (en_now env), ro_sequence = n\<rparr>
           (put_sequence (js ''observationSequence'') n d))))"

definition ingest :: "env \<Rightarrow> observation \<Rightarrow> ingest_result action" where
  "ingest env ob d =
     (if mr_account (o_ref ob) \<noteq> en_account env then (Inr (ignored (js ''Wrong account'')), d)
      else if kv_get (results d) (event_key ob) \<noteq> None
      then (Inr (outcome_of Duplicate None None NoStatus), d)
      else
        andthen (processObservation env False ob (event_key ob)) (\<lambda>r.
          andthen (upd (put_result (event_key ob) r)) (\<lambda>_. ret r)) (journal_observation env ob d))"

section \<open>Start and recovery\<close>

definition open_agent :: "env \<Rightarrow> unit action" where
  \<comment> \<open>The constructor's check that the database belongs to this account, owner and route.\<close>
  "open_agent env d =
     (let me = \<lparr>id_account = en_account env, id_owner = en_owner env, id_route = en_route env\<rparr> in
      if (case kv_get (identities d) (js ''identity'') of None \<Rightarrow> False | Some x \<Rightarrow> x \<noteq> me)
      then (Inl OtherIdentity, d)
      else (Inr (), snd (insert_identity (js ''identity'') me d)))"

definition interrupt_admission :: "admission \<Rightarrow> db \<Rightarrow> db" where
  "interrupt_admission a d =
     (if ad_state a = AReserved
      then put_admission (admissionKey (ad_task a) (ad_revision a))
        (a\<lparr>ad_state := AUnknown,
           ad_reason := Some (js ''Interrupted admission: original operation must be reconciled, never recreated'')\<rparr>) d
      else d)"

definition replay_one :: "env \<Rightarrow> received_observation \<Rightarrow> unit action" where
  "replay_one env p d =
     (if kv_get (results d) (ro_key p) \<noteq> None then (Inr (), d)
      else andthen (processObservation env True (ro_observation p) (ro_key p))
        (\<lambda>r. upd (put_result (ro_key p) r)) d)"

definition restore_run :: "env \<Rightarrow> run_snapshot \<Rightarrow> unit action" where
  "restore_run env s d =
     (let b = rs_binding s in
      andthen (\<lambda>d. case kv_get (admissions d) (admissionKey (rb_task b) (rb_revision b)) of
          None \<Rightarrow> (Inr (), d)
        | Some a \<Rightarrow>
            (case resolve (broker_of env) (en_now env) d (ad_token a) of
               Inl e \<Rightarrow> (if is_authority_error (Broker e) then Inr () else Inl (Broker e), d)
             | Inr _ \<Rightarrow>
                 (case en_restore env of
                    None \<Rightarrow> (Inr (), d)
                  | Some f \<Rightarrow>
                      (case f d b (ad_token a) of
                         None \<Rightarrow> (Inr (), d)
                       | Some e \<Rightarrow> (if is_authority_error e then Inr () else Inl e, d)))))
        (\<lambda>_. andthen (refresh env s) (\<lambda>_. ret ())) d)"

definition readmit :: "env \<Rightarrow> task_intent \<Rightarrow> unit action" where
  "readmit env i d =
     (if kv_get (admissions d) (admissionKey (ti_id i) (ti_revision i)) \<noteq> None \<or>
         kv_get (controls d) (ti_id i) \<noteq> None then (Inr (), d)
      else if unresolvedPriorWork d i
      then hold env (ti_id i) (js ''Recovery retained correction; prior execution is unresolved'') True d
      else admit env i d)"

definition recover_agent :: "env \<Rightarrow> unit action" where
  \<comment> \<open>\<open>recover\<close>; observations are replayed in the order of their sequence numbers.\<close>
  "recover_agent env d =
     (if \<not> en_durable env then (Inl NotDurable, d)
      else
        andthen (upd (\<lambda>d. fold interrupt_admission (kv_list (admissions d)) d)) (\<lambda>_ d.
          andthen (foreach (replay_one env) (sort_key ro_sequence (kv_list (observations d)))) (\<lambda>_.
            andthen (upd (recover (broker_of env) (en_reconcile env) {} (en_now env) (en_now env))) (\<lambda>_ d.
              andthen (foreach (\<lambda>s. andthen
                    (stopChildren env (cs_task s) (or_else (cs_reason s) (js ''Recover parent stop'')) (cs_revision s)) (\<lambda>_. ret ()))
                  (filter (\<lambda>s. cs_state s \<noteq> SSettled) (kv_list (child_stops d)))) (\<lambda>_ d.
                andthen (foreach (restore_run env) (kv_list (runs d))) (\<lambda>_ d.
                  foreach (readmit env) (user_tasks d) d) d) d)) d) d)"

end
