(* ===== verification/AgentProps.thy ===== *)
theory AgentProps
  imports Agent BrokerProps
begin

text \<open>
  What the personal agent guarantees (theory Agent): who can command it, what a cancellation,
  a correction and a scope refresh do to authority, how often a revision reaches the engine,
  what a delivery and a status report mean.
\<close>

section \<open>The collections\<close>

lemmas put_defs =
  put_context_def put_task_def put_grant_def put_effect_def put_acknowledgement_def 
put_control_target_def put_admission_def put_run_def put_control_def put_child_stop_def 
put_own_output_def put_source_def put_owner_change_def put_origin_deadline_def 
put_origin_review_def put_grant_baseline_def put_correction_def put_applied_change_def 
put_observation_def put_result_def put_identity_def put_sequence_def
  insert_admission_def insert_source_def insert_grant_baseline_def insert_applied_change_def
  insert_observation_def insert_identity_def delete_control_def delete_origin_review_def

text \<open>Two databases agree on a collection; what an action leaves alone.\<close>

locale evolution =
  fixes R :: "db \<Rightarrow> db \<Rightarrow> bool"
  assumes refl: "R d d" and trans: "R d e \<Longrightarrow> R e f \<Longrightarrow> R d f"
begin

definition evolves :: "'a action \<Rightarrow> bool" where
  "evolves m \<longleftrightarrow> (\<forall>d. R d (snd (m d)))"

lemma evolvesD: "evolves m \<Longrightarrow> m d = (r, d') \<Longrightarrow> R d d'"
  unfolding evolves_def by (metis snd_conv)

lemma evolvesI: "(\<And>d. R d (snd (m d))) \<Longrightarrow> evolves m"
  unfolding evolves_def by blast

lemma at_evolves: "evolves m \<Longrightarrow> R d (snd (m d))"
  unfolding evolves_def by blast

lemma at_done: "R d (snd (r, d))"
  by (simp add: refl)

lemma at_ret: "R d (snd (ret x d))"
  by (simp add: refl)

lemma at_throw: "R d (snd (throw e d))"
  by (simp add: refl)

lemma at_reads: "R d (snd (reads f d))"
  by (simp add: refl)

lemma at_lifts: "R d (snd (lifts r d))"
  by (simp add: refl)

lemma at_upd: "R d (g d) \<Longrightarrow> R d (snd (upd g d))"
  by simp

lemma at_andthen:
  assumes "R d (snd (m d))" "\<And>x d'. m d = (Inr x, d') \<Longrightarrow> R d' (snd (f x d'))"
  shows "R d (snd (andthen m f d))"
proof -
  obtain r d' where m: "m d = (r, d')" by (cases "m d")
  show ?thesis
  proof (cases r)
    case (Inl e)
    with m assms(1) show ?thesis by (simp add: andthen_def)
  next
    case (Inr x)
    with m assms(2) have "R d' (snd (f x d'))" by blast
    with m Inr assms(1) trans show ?thesis by (simp add: andthen_def)
  qed
qed

lemma at_attempt:
  assumes "R d (snd (m d))" "\<And>e d'. m d = (Inl e, d') \<Longrightarrow> R d' (snd (h e d'))"
  shows "R d (snd (attempt m h d))"
proof -
  obtain r d' where m: "m d = (r, d')" by (cases "m d")
  show ?thesis
  proof (cases r)
    case (Inl e)
    with m assms(2) have "R d' (snd (h e d'))" by blast
    with m Inl assms(1) trans show ?thesis by (simp add: attempt_def)
  next
    case (Inr x)
    with m assms(1) show ?thesis by (simp add: attempt_def)
  qed
qed

lemma at_atomically: "R d (snd (m d)) \<Longrightarrow> R d (snd (atomically m d))"
  by (cases "m d") (auto simp: atomically_def refl split: sum.splits)

lemma at_foreach:
  assumes "\<And>x d. R d (snd (f x d))"
  shows "R d (snd (foreach f xs d))"
proof (induction xs arbitrary: d)
  case (Cons x xs)
  then show ?case unfolding foreach.simps(2) by (intro at_andthen assms)
qed (simp add: refl)

lemma at_if: "(c \<Longrightarrow> R d (snd (m d))) \<Longrightarrow> (\<not> c \<Longrightarrow> R d (snd (n d))) \<Longrightarrow> R d (snd ((if c then m else n) d))"
  by simp

lemma at_if_pair: "(c \<Longrightarrow> R d (snd p)) \<Longrightarrow> (\<not> c \<Longrightarrow> R d (snd q)) \<Longrightarrow> R d (snd (if c then p else q))"
  by simp

lemma at_option:
  "(x = None \<Longrightarrow> R d (snd a)) \<Longrightarrow> (\<And>y. x = Some y \<Longrightarrow> R d (snd (f y))) \<Longrightarrow>
     R d (snd (case x of None \<Rightarrow> a | Some y \<Rightarrow> f y))"
  by (cases x) simp_all

lemma at_prod:
  "(\<And>x y. p = (x, y) \<Longrightarrow> R d (snd (f x y))) \<Longrightarrow> R d (snd (case p of (x, y) \<Rightarrow> f x y))"
  by (cases p) simp

lemma at_bool:
  "(b \<Longrightarrow> R d (snd t)) \<Longrightarrow> (\<not> b \<Longrightarrow> R d (snd f)) \<Longrightarrow> R d (snd (case b of True \<Rightarrow> t | False \<Rightarrow> f))"
  by (cases b) simp_all

lemma at_sum:
  "(\<And>e. x = Inl e \<Longrightarrow> R d (snd (f e))) \<Longrightarrow> (\<And>y. x = Inr y \<Longrightarrow> R d (snd (g y))) \<Longrightarrow>
     R d (snd (case x of Inl e \<Rightarrow> f e | Inr y \<Rightarrow> g y))"
  by (cases x) simp_all

lemma at_host: "R d (snd (from_host r d))"
  by (simp add: from_host_def refl split: sum.splits)

lemma at_broker: "R d (snd (f d)) \<Longrightarrow> R d (snd (via_broker f d))"
  by (cases "f d") (auto simp: via_broker_def split: sum.splits)

lemmas at_rules = at_ret at_throw at_reads at_lifts at_host at_andthen at_attempt at_atomically at_foreach
  at_if at_if_pair at_done

lemmas at_cases = at_option at_prod at_bool at_sum

end

section \<open>Actions that leave authority alone\<close>

definition same_authority :: "db \<Rightarrow> db \<Rightarrow> bool" where
  "same_authority d d' \<longleftrightarrow>
     tasks d' = tasks d \<and> grants d' = grants d \<and> contexts d' = contexts d \<and> controls d' = controls d \<and>
     effects d' = effects d \<and> admissions d' = admissions d \<and> own_outputs d' = own_outputs d \<and>
     sources d' = sources d"

interpretation auth: evolution same_authority
  by unfold_locales (simp_all add: same_authority_def)

lemma same_authority_puts [simp]:
  "same_authority d (put_run k s d)" "same_authority d (put_child_stop k c d)"
  by (simp_all add: same_authority_def put_run_def put_child_stop_def)

lemma stopChildren_authority: "auth.evolves (stopChildren env task reason revision)"
proof -
  have "same_authority d (put_child_stop k x (put_child_stop k y d))" for d k x y
    by (simp add: same_authority_def put_child_stop_def)
  then show ?thesis
    by (auto simp: auth.evolves_def stopChildren_def Let_def auth.refl split: option.splits sum.splits)
qed

lemma acceptSnapshot_authority: "auth.evolves (acceptSnapshot s task revision key)"
  by (auto simp: auth.evolves_def acceptSnapshot_def Let_def auth.refl split: run_state.splits)

lemma cancel_run_authority: "auth.evolves (cancel_run env s)"
  unfolding cancel_run_def Let_def
  by (rule auth.evolvesI) (intro auth.at_rules auth.at_evolves [OF acceptSnapshot_authority])

lemma journalChildStop_authority: "auth.evolves (journalChildStop env task reason revision)"
  by (auto simp: auth.evolves_def journalChildStop_def auth.refl split: option.splits)

lemma refresh_authority: "auth.evolves (refresh env s)"
  unfolding refresh_def Let_def
  by (rule auth.evolvesI)
    (intro auth.at_rules auth.at_evolves [OF acceptSnapshot_authority] auth.at_upd same_authority_puts)

section \<open>Revocation in the database\<close>

lemma revoke_fold_authority:
  "tasks (fold (cancel_prepared now task) es d) = tasks d"
  "grants (fold (cancel_prepared now task) es d) = grants d"
  "contexts (fold (cancel_prepared now task) es d) = contexts d"
  "controls (fold (cancel_prepared now task) es d) = controls d"
  "admissions (fold (cancel_prepared now task) es d) = admissions d"
  "own_outputs (fold (cancel_prepared now task) es d) = own_outputs d"
  "sources (fold (cancel_prepared now task) es d) = sources d"
  "runs (fold (cancel_prepared now task) es d) = runs d"
  "child_stops (fold (cancel_prepared now task) es d) = child_stops d"
  by (induction es arbitrary: d) (simp_all add: cancel_prepared_def put_effect_def)

lemma revokeTask_fields [simp]:
  "tasks (revokeTask now task d) = tasks d" "grants (revokeTask now task d) = grants d"
  "contexts (revokeTask now task d) = contexts d" "controls (revokeTask now task d) = controls d"
  "admissions (revokeTask now task d) = admissions d" "own_outputs (revokeTask now task d) = own_outputs d"
  "sources (revokeTask now task d) = sources d" "runs (revokeTask now task d) = runs d"
  "child_stops (revokeTask now task d) = child_stops d"
  by (simp_all add: revokeTask_def revoke_fold_authority)

lemma revoke_grant_ok:
  assumes "revoke_grant env bump gid d = (Inr at, d')"
  obtains g where "kv_get (grants d) gid = Some g" "at = Iso (en_now env)"
    "d' = put_grant (g_id g) (g\<lparr>g_revoked := Some (Iso (en_now env)),
       g_revision := g_revision g + (if bump then 1 else 0)\<rparr>) d"
  using assms by (auto simp: revoke_grant_def requireGrant_def split: option.splits)

definition keyed_authority :: "db \<Rightarrow> bool" where
  \<comment> \<open>Tasks and grants are stored under their own identifiers.\<close>
  "keyed_authority d \<longleftrightarrow>
     (\<forall>k i. kv_get (tasks d) k = Some i \<longrightarrow> ti_id i = k) \<and>
     (\<forall>k g. kv_get (grants d) k = Some g \<longrightarrow> g_id g = k)"

definition task_revoked :: "db \<Rightarrow> utext \<Rightarrow> bool" where
  "task_revoked d task \<longleftrightarrow>
     (\<exists>i g. kv_get (tasks d) task = Some i \<and> kv_get (grants d) (ti_grant i) = Some g \<and>
        g_id g = ti_grant i \<and> g_revoked g \<noteq> None)"

lemma task_revoked_same: "same_authority d d' \<Longrightarrow> task_revoked d' task = task_revoked d task"
  by (simp add: task_revoked_def same_authority_def)

lemma revoked_task_invalid:
  assumes "task_revoked d task" "keyed_authority d" "tc_task ctx = task"
  shows "validateContext cfg now d ctx b \<noteq> Inr y"
proof
  assume "validateContext cfg now d ctx b = Inr y"
  then obtain i g where "kv_get (tasks d) (tc_task ctx) = Some i" "kv_get (grants d) (tc_grant ctx) = Some g"
    "ti_grant i = g_id g" "g_revoked g = None"
    by (cases y) (auto simp: validateContext_ok)
  with assms show False unfolding task_revoked_def keyed_authority_def by fastforce
qed

lemma revoked_task_inert:
  assumes "task_revoked d task" "keyed_authority d"
    and "kv_get (contexts d) (sha256 cfg token) = Some c" "tc_task (cr_context c) = task"
  shows "\<not> is_ok (resolve cfg now d token)" "\<not> is_ok (fst (begin_effect cfg now token rq d))"
    "snd (begin_effect cfg now token rq d) = d"
proof -
  have "resolve cfg now d token \<noteq> Inr c'" for c'
    using revoked_task_invalid [OF assms(1,2)] assms(3,4) unfolding resolve_ok by force
  then obtain e where e: "resolve cfg now d token = Inl e" by (cases "resolve cfg now d token") auto
  then obtain e' where "begin_effect cfg now token rq d = (Inl e', d)"
    by (cases "rq_capability rq = [] \<or> rq_resource rq = []") (simp_all add: begin_effect_def)
  with e show "\<not> is_ok (resolve cfg now d token)" "\<not> is_ok (fst (begin_effect cfg now token rq d))"
    "snd (begin_effect cfg now token rq d) = d" by simp_all
qed

lemma cancellation_tx:
  assumes "keyed_authority d" "requireTask d task = Inr i"
    and "atomically
           (andthen (revoke_grant env True (ti_grant i)) (\<lambda>at.
             andthen (upd (put_control task
                 \<lparr>ct_task = task, ct_cancelled = Some at, ct_held = None,
                  ct_reason = Some reason, ct_resume = False\<rparr>)) (\<lambda>_.
               andthen (upd (revokeTask (en_now env) task)) (\<lambda>_.
                 journalChildStop env task why (ti_revision i))))) d = (Inr (), d')"
  shows "task_revoked d' task" "keyed_authority d'" "tasks d' = tasks d"
    "kv_get (controls d') task = Some \<lparr>ct_task = task, ct_cancelled = Some (Iso (en_now env)), ct_held = None,
       ct_reason = Some reason, ct_resume = False\<rparr>"
    "\<exists>g. kv_get (grants d) (ti_grant i) = Some g \<and>
       kv_get (grants d') = (kv_get (grants d))(ti_grant i \<mapsto>
         g\<lparr>g_revoked := Some (Iso (en_now env)), g_revision := g_revision g + 1\<rparr>)"
proof -
  let ?c = "\<lparr>ct_task = task, ct_cancelled = Some (Iso (en_now env)), ct_held = None,
                  ct_reason = Some reason, ct_resume = False\<rparr>"
  from assms(3) obtain at d1 where d1: "revoke_grant env True (ti_grant i) d = (Inr at, d1)"
    and j: "journalChildStop env task why (ti_revision i)
        (revokeTask (en_now env) task (put_control task \<lparr>ct_task = task, ct_cancelled = Some at, ct_held = None,
                  ct_reason = Some reason, ct_resume = False\<rparr> d1)) = (Inr (), d')"
    by (auto simp: atomically_ok andthen_ok)
  from d1 obtain g where g: "kv_get (grants d) (ti_grant i) = Some g" "at = Iso (en_now env)"
    "d1 = put_grant (g_id g) (g\<lparr>g_revoked := Some (Iso (en_now env)), g_revision := g_revision g + 1\<rparr>) d"
    by (rule revoke_grant_ok) simp
  have gid: "g_id g = ti_grant i" using assms(1) g(1) by (simp add: keyed_authority_def)
  have same: "same_authority (revokeTask (en_now env) task (put_control task ?c d1)) d'"
    using auth.evolvesD [OF journalChildStop_authority j] g(2) by simp
  have task: "kv_get (tasks d) task = Some i"
    using assms(2) by (auto simp: requireTask_def split: option.splits)
  have grants: "kv_get (grants d') = (kv_get (grants d))(ti_grant i \<mapsto>
         g\<lparr>g_revoked := Some (Iso (en_now env)), g_revision := g_revision g + 1\<rparr>)"
    using same by (simp add: same_authority_def put_control_def g(3) put_grant_def kv.get_put gid)
  have tasks: "tasks d' = tasks d"
    using same by (simp add: same_authority_def put_control_def g(3) put_grant_def)
  show "tasks d' = tasks d" by (rule tasks)
  show "kv_get (controls d') task = Some ?c"
    using same by (simp add: same_authority_def put_control_def kv.get_put)
  show "task_revoked d' task" using task gid by (simp add: task_revoked_def grants tasks)
  show "keyed_authority d'" using assms(1) gid by (auto simp: keyed_authority_def grants tasks)
  show "\<exists>g. kv_get (grants d) (ti_grant i) = Some g \<and>
       kv_get (grants d') = (kv_get (grants d))(ti_grant i \<mapsto>
         g\<lparr>g_revoked := Some (Iso (en_now env)), g_revision := g_revision g + 1\<rparr>)"
    using g(1) grants by blast
qed


section \<open>Cancellation\<close>

lemma requireTask_ok: "requireTask d task = Inr i \<longleftrightarrow> kv_get (tasks d) task = Some i"
  by (simp add: requireTask_def split: option.splits)

lemma applyCancellation_db:
  assumes "keyed_authority d" "applyCancellation env task d = (Inr st, d')"
  obtains d1 i where "kv_get (tasks d) task = Some i" "same_authority d1 d'" "task_revoked d1 task"
    "keyed_authority d1" "tasks d1 = tasks d" "st = status d' task"
    "kv_get (controls d1) task = Some \<lparr>ct_task = task, ct_cancelled = Some (Iso (en_now env)), ct_held = None,
       ct_reason = Some (js ''Owner cancelled task; new effects revoked''), ct_resume = False\<rparr>"
proof -
  obtain i where i: "requireTask d task = Inr i"
    using assms(2) by (cases "requireTask d task") (auto simp: applyCancellation_def)
  let ?why = "js ''Owner cancelled task''"
  let ?tx = "atomically
           (andthen (revoke_grant env True (ti_grant i)) (\<lambda>at.
             andthen (upd (put_control task
                 \<lparr>ct_task = task, ct_cancelled = Some at, ct_held = None,
                  ct_reason = Some (js ''Owner cancelled task; new effects revoked''), ct_resume = False\<rparr>)) (\<lambda>_.
               andthen (upd (revokeTask (en_now env) task)) (\<lambda>_.
                 journalChildStop env task ?why (ti_revision i)))))"
  let ?rest = "andthen (stopChildren env task ?why (ti_revision i)) (\<lambda>_.
           andthen (\<lambda>d. foreach (\<lambda>s.
               attempt (andthen (cancel_run env s) (\<lambda>_. ret ()))
                 (\<lambda>e. upd (put_run (admissionKey task (rb_revision (rs_binding s)))
                    (mark_unknown env s (js ''Cancel settlement unknown: '' @ error_text e)))))
               (filter (\<lambda>s. \<not> terminal (rs_state s)) (task_runs d task)) d) (\<lambda>_.
             reads (\<lambda>d. status d task)))"
  have run: "applyCancellation env task d = andthen ?tx (\<lambda>_. ?rest) d"
    by (simp add: applyCancellation_def i)
  with assms(2) obtain d1 where d1: "?tx d = (Inr (), d1)" "?rest d1 = (Inr st, d')"
    by (auto simp: andthen_ok)
  have "same_authority d1 (snd (?rest d1))"
    by (intro auth.at_rules auth.at_evolves [OF stopChildren_authority] auth.at_evolves [OF cancel_run_authority]
        auth.at_upd same_authority_puts)
  with d1(2) have same: "same_authority d1 d'" by simp
  from d1(2) have "st = status d' task" by (auto simp: andthen_ok)
  with cancellation_tx [OF assms(1) i d1(1)] same i that show thesis by (simp add: requireTask_ok)
qed

lemma hold_keeps_cancelled:
  assumes "kv_get (controls d) task = Some ctl" "ct_cancelled ctl \<noteq> None"
  shows "same_authority d (snd (hold env task reason resume d))"
proof (cases "requireTask d task")
  case (Inl e)
  then show ?thesis by (simp add: hold_def auth.refl)
next
  case (Inr i)
  with assms have "hold env task reason resume d =
      andthen (stopChildren env task reason (ti_revision i)) (\<lambda>_. ret ()) d"
    by (simp add: hold_def andthen_Inr atomically_def)
  moreover have "same_authority d (snd (andthen (stopChildren env task reason (ti_revision i)) (\<lambda>_. ret ()) d))"
    by (intro auth.at_rules auth.at_evolves [OF stopChildren_authority])
  ultimately show ?thesis by simp
qed

lemma resume_skips: "\<not> ct_resume ctl \<or> ct_cancelled ctl \<noteq> None \<Longrightarrow> resume_one env ctl d = (Inr (), d)"
  by (simp add: resume_one_def)


section \<open>A concrete agent\<close>

definition unused :: "'v rows \<Rightarrow> utext" where
  "unused t = 0 # concat (map fst t)"

lemma unused_fresh: "kv_get t (unused t) = None"
proof -
  have "length k \<le> length (concat (map fst t))" if "k \<in> fst ` set t" for k
    using that member_le_sum_list [of "length k" "map length (map fst t)"] by (auto simp: length_concat)
  then have "unused t \<notin> fst ` set t" by (fastforce simp: unused_def)
  then show ?thesis by (simp add: kv_get_None)
qed

definition demo_env :: env where
  "demo_env =
     \<lparr>en_account = [65], en_owner = [79], en_route = \<lparr>rt_peer = [90], rt_thread = None, rt_reply = None\<rparr>,
      en_natural = Some [90], en_prefix = [47, 98], en_grant_ttl = 1000, en_origin_ttl = 100,
      en_policy = None, en_prepare = None, en_input = None, en_restore = None,
      en_submit = (\<lambda>_ sb. Inr \<lparr>rs_binding = \<lparr>rb_run = [114], rb_session = None, rb_task = sb_task sb,
          rb_revision = sb_revision sb, rb_key = sb_key sb\<rparr>, rs_state = RRunning, rs_observed = Iso 0,
          rs_output = None, rs_artifacts = None, rs_reason = None, rs_progress = None\<rparr>),
      en_inspect = (\<lambda>_ _. Inl []), en_cancel = (\<lambda>_ _. Inl []), en_durable = True, en_stop = None,
      en_read = None, en_correctable = (\<lambda>_ _. True), en_task_id = (\<lambda>d. unused (tasks d)),
      en_grant_id = (\<lambda>d. unused (grants d)),
      en_token = (\<lambda>_. [42]), en_dispatch = (\<lambda>_. Inl []), en_reconcile = (\<lambda>_. Inl []),
      en_broker = demo_cfg, en_now = 0\<rparr>"

lemma demo_keyed: "keyed_authority demo_db"
  by (simp add: keyed_authority_def demo_db_def empty_db_def kv_get_def demo_task_def demo_grant_def)

lemma demo_cancel: "\<exists>st d'. applyCancellation demo_env [84] demo_db = (Inr st, d')"
  by (simp add: applyCancellation_def requireTask_def revoke_grant_def requireGrant_def demo_db_def empty_db_def
      kv_get_def atomically_def andthen_def journalChildStop_def stopChildren_def task_runs_def
      demo_env_def demo_task_def demo_grant_def put_defs kv_put_def kv_list_def revokeTask_def)



section \<open>Corrections\<close>

lemma same_authority_more [simp]:
  "same_authority d (put_grant_baseline k x d)" "same_authority d (snd (insert_grant_baseline k x d))"
  "same_authority d (put_origin_deadline k y d)" "same_authority d (delete_origin_review k d)"
  "same_authority d (put_correction k z d)" "same_authority d (delete_origin_review k (put_origin_deadline k y d))"
  by (simp_all add: same_authority_def put_defs case_prod_unfold)

lemma makeGrant_authority: "auth.evolves (makeGrant env i)"
  unfolding makeGrant_def Let_def
  by (rule auth.evolvesI) (intro auth.at_rules auth.at_upd same_authority_more)

lemma grantBaseline_authority: "auth.evolves (grantBaseline env i g)"
proof (rule auth.evolvesI)
  fix d
  show "same_authority d (snd (grantBaseline env i g d))"
    unfolding grantBaseline_def
    by (cases "kv_get (grant_baselines d) (g_id g)")
      (simp_all add: auth.refl, intro auth.at_rules auth.at_upd same_authority_more)
qed

lemma carry_over_authority: "auth.evolves (carry_over env i old g)"
  unfolding carry_over_def
  by (rule auth.evolvesI)
    (intro auth.at_rules auth.at_upd same_authority_more auth.at_evolves [OF grantBaseline_authority])

lemma renew_deadline_authority: "auth.evolves (renew_deadline env task c)"
proof (rule auth.evolvesI)
  fix d
  show "same_authority d (snd (renew_deadline env task c d))"
    unfolding renew_deadline_def
    by (cases "ch_route c") (simp_all add: auth.refl, intro impI auth.at_rules auth.at_upd same_authority_more)
qed

lemma makeGrant_ok:
  assumes "makeGrant env i d = (Inr g, d')"
  shows "g_id g = ti_grant i" "g_task g = ti_id i" "g_revision g = ti_revision i" "g_revoked g = None"
    "\<exists>x. capped_expiry env d i (Some (en_now env + en_grant_ttl env)) = Inr x \<and> g_expires g = Some x"
proof -
  from assms obtain x where "capped_expiry env d i (Some (en_now env + en_grant_ttl env)) = Inr x"
    "g = \<lparr>g_id = ti_grant i, g_task = ti_id i, g_revision = ti_revision i,
       g_capabilities = (case en_policy env of Some p \<Rightarrow> p i | None \<Rightarrow> default_capabilities env i),
       g_expires = Some x, g_revoked = None\<rparr>"
    by (cases "capped_expiry env d i (Some (en_now env + en_grant_ttl env))")
      (auto simp: makeGrant_def Let_def)
  then show "g_id g = ti_grant i" "g_task g = ti_id i" "g_revision g = ti_revision i" "g_revoked g = None"
    "\<exists>x. capped_expiry env d i (Some (en_now env + en_grant_ttl env)) = Inr x \<and> g_expires g = Some x"
    by simp_all
qed

lemma carry_over_ok:
  assumes "carry_over env i old g d = (Inr g', d')"
  shows "g' = g\<lparr>g_capabilities := g_capabilities old, g_expires := g_expires old\<rparr>"
  using assms by (auto simp: carry_over_def andthen_ok)

lemma corrected_intent_simps [simp]:
  "ti_id (corrected_intent env d i c) = ti_id i" "ti_revision (corrected_intent env d i c) = ti_revision i + 1"
  "ti_grant (corrected_intent env d i c) = en_grant_id env d"
  "ti_source (corrected_intent env d i c) = ti_source i"
  "ti_instruction (corrected_intent env d i c) = (if ch_refresh c then ti_instruction i
     else ti_instruction i @ [10, 10] @ js ''Owner correction: '' @ trim (ch_instruction c))"
  "ti_route (corrected_intent env d i c) = or_else (ch_route c) (ti_route i)"
  by (simp_all add: corrected_intent_def)

lemma save_correction_ok:
  assumes "save_correction env task before c next g d = (Inr x, d')"
  shows "x = next" "kv_get (tasks d') = (kv_get (tasks d))(task \<mapsto> next)"
    "kv_get (grants d') = (kv_get (grants d))(ti_grant next \<mapsto> g)" "effects d' = effects d"
    "contexts d' = contexts d" "admissions d' = admissions d"
    "kv_get (controls d') task = Some \<lparr>ct_task = task, ct_cancelled = None, ct_held = Some (ti_updated next),
          ct_reason = Some (js ''Correction saved; checking prior execution settlement''), ct_resume = True\<rparr>"
proof -
  let ?d1 = "put_control task
         \<lparr>ct_task = task, ct_cancelled = None, ct_held = Some (ti_updated next),
          ct_reason = Some (js ''Correction saved; checking prior execution settlement''), ct_resume = True\<rparr>
         (put_grant (ti_grant next) g (put_task task next d))"
  have x: "x = next" using assms by (auto simp: save_correction_def andthen_ok)
  let ?rest = "andthen (journalChildStop env task (js ''Parent task corrected'') before) (\<lambda>_.
         andthen (upd (put_correction (admissionKey task (ti_revision next))
             \<lparr>co_task = task, co_revision = ti_revision next, co_instruction = ch_instruction c,
              co_refresh = ch_refresh c, co_created = ti_updated next,
              co_source = map_option o_ref (ch_source c),
              co_authorized = map_option authorized_at (ch_source c)\<rparr>)) (\<lambda>_.
           ret next))"
  have "save_correction env task before c next g d = ?rest ?d1" by (simp add: save_correction_def)
  then have run: "?rest ?d1 = (Inr x, d')" using assms by simp
  have "same_authority ?d1 (snd (?rest ?d1))"
    by (intro auth.at_rules auth.at_upd same_authority_more auth.at_evolves [OF journalChildStop_authority])
  then have same: "same_authority ?d1 d'" unfolding run snd_conv .
  then show "x = next" "kv_get (tasks d') = (kv_get (tasks d))(task \<mapsto> next)"
    "kv_get (grants d') = (kv_get (grants d))(ti_grant next \<mapsto> g)" "effects d' = effects d"
    "contexts d' = contexts d" "admissions d' = admissions d"
    "kv_get (controls d') task = Some \<lparr>ct_task = task, ct_cancelled = None, ct_held = Some (ti_updated next),
          ct_reason = Some (js ''Correction saved; checking prior execution settlement''), ct_resume = True\<rparr>"
    using x by (simp_all add: same_authority_def put_defs kv.get_put)
qed

lemma revise_ok:
  assumes "revise env task before c actual d = (Inr x, d')" "keyed_authority d"
  obtains old mid g where
    "kv_get (grants d) (ti_grant actual) = Some old" "x = corrected_intent env mid actual c"
    "kv_get (grants mid) = (kv_get (grants d))(ti_grant actual \<mapsto> old\<lparr>g_revoked := Some (Iso (en_now env))\<rparr>)"
    "kv_get (tasks d') = (kv_get (tasks d))(task \<mapsto> x)"
    "kv_get (grants d') = (kv_get (grants mid))(ti_grant x \<mapsto> g)"
    "g_id g = ti_grant x" "g_task g = ti_id x" "g_revision g = ti_revision x" "g_revoked g = None"
    "ch_refresh c \<Longrightarrow> g_capabilities g = g_capabilities old \<and> g_expires g = g_expires old"
    "kv_get (controls d') task = Some \<lparr>ct_task = task, ct_cancelled = None, ct_held = Some (ti_updated x),
          ct_reason = Some (js ''Correction saved; checking prior execution settlement''), ct_resume = True\<rparr>"
    "contexts d' = contexts d"
proof -
  from assms(1) obtain old at d1 where old: "requireGrant d (ti_grant actual) = Inr old"
    and d1: "revoke_grant env False (ti_grant actual) d = (Inr at, d1)"
    by (cases "requireGrant d (ti_grant actual)") (auto simp: revise_def andthen_ok)
  define mid where "mid = revokeTask (en_now env) task d1"
  define nx where "nx = corrected_intent env mid actual c"
  have "andthen (renew_deadline env task c) (\<lambda>_.
              andthen (makeGrant env nx) (\<lambda>g.
                andthen (if ch_refresh c then carry_over env actual old g else ret g)
                  (save_correction env task before c nx))) mid = (Inr x, d')"
    using assms(1) old d1 by (simp add: revise_def andthen_Inr Let_def mid_def nx_def)
  then obtain u d2 g0 d3 g d4 where seg: "renew_deadline env task c mid = (Inr u, d2)"
    "makeGrant env nx d2 = (Inr g0, d3)"
    "(if ch_refresh c then carry_over env actual old g0 else ret g0) d3 = (Inr g, d4)"
    "save_correction env task before c nx g d4 = (Inr x, d')"
    by (auto simp: andthen_ok)
  have g0: "kv_get (grants d) (ti_grant actual) = Some old"
    using old by (auto simp: requireGrant_def split: option.splits)
  obtain g1 where "kv_get (grants d) (ti_grant actual) = Some g1"
    "d1 = put_grant (g_id g1) (g1\<lparr>g_revoked := Some (Iso (en_now env)), g_revision := g_revision g1 + 0\<rparr>) d"
    by (rule revoke_grant_ok [OF d1]) simp
  with g0 assms(2) have d1': "d1 = put_grant (ti_grant actual) (old\<lparr>g_revoked := Some (Iso (en_now env))\<rparr>) d"
    by (auto simp: keyed_authority_def)
  have m34: "same_authority d3 d4"
    using seg(3) auth.evolvesD [OF carry_over_authority] auth.refl by (auto split: if_splits)
  have same: "same_authority mid d4"
    using auth.trans [OF auth.trans [OF auth.evolvesD [OF renew_deadline_authority seg(1)]
        auth.evolvesD [OF makeGrant_authority seg(2)]] m34] .
  note sv = save_correction_ok [OF seg(4)]
  have mid_grants: "kv_get (grants mid) = (kv_get (grants d))(ti_grant actual \<mapsto> old\<lparr>g_revoked := Some (Iso (en_now env))\<rparr>)"
    by (simp add: mid_def d1' put_grant_def kv.get_put)
  have mid_other: "tasks mid = tasks d" "contexts mid = contexts d"
    by (simp_all add: mid_def d1' put_grant_def)
  note mk = makeGrant_ok [OF seg(2)]
  have fields: "g_id g = ti_grant nx \<and> g_task g = ti_id nx \<and> g_revision g = ti_revision nx \<and> g_revoked g = None \<and>
      (ch_refresh c \<longrightarrow> g_capabilities g = g_capabilities old \<and> g_expires g = g_expires old)"
    using seg(3) mk carry_over_ok [of env actual old g0 d3 g d4] by (auto split: if_splits)
  have same4: "tasks d4 = tasks mid" "grants d4 = grants mid" "contexts d4 = contexts mid"
    using same unfolding same_authority_def by blast+
  have x: "x = corrected_intent env mid actual c" using sv(1) nx_def by simp
  have nx: "nx = x" using sv(1) by simp
  show thesis
    using that [OF g0 x mid_grants] sv(2,3,5,7) fields unfolding same4 mid_other nx by blast
qed


lemma link_source_ok:
  assumes "link_source env task src d = (Inr u, d')"
  shows "tasks d' = tasks d" "grants d' = grants d" "contexts d' = contexts d"
    "applied_changes d' = applied_changes d"
  using assms by (auto simp: link_source_def put_defs split: option.splits if_splits)

lemma claim_change_ok:
  assumes "claim_change c task d = (Inr fresh, d')"
  shows "tasks d' = tasks d" "grants d' = grants d" "contexts d' = contexts d"
    "(\<forall>k. c = Some k \<longrightarrow> kv_get (applied_changes d) k = None) \<Longrightarrow> fresh"
proof -
  show "tasks d' = tasks d" "grants d' = grants d" "contexts d' = contexts d"
    using assms by (auto simp: claim_change_def insert_applied_change_def split: option.splits if_splits prod.splits)
  assume "\<forall>k. c = Some k \<longrightarrow> kv_get (applied_changes d) k = None"
  then show fresh using assms
    by (cases c) (auto simp: claim_change_def insert_applied_change_def kv.ins_fresh split: if_splits)
qed

definition fresh_grants :: "env \<Rightarrow> bool" where
  \<comment> \<open>\<open>randomUUID()\<close> gives an identifier not in use.\<close>
  "fresh_grants env \<longleftrightarrow> (\<forall>d. kv_get (grants d) (en_grant_id env d) = None)"

definition new_change :: "db \<Rightarrow> change \<Rightarrow> bool" where
  "new_change d c \<longleftrightarrow> (\<forall>k. ch_id c = Some k \<longrightarrow> kv_get (applied_changes d) k = None)"

lemma correction_tx_ok:
  assumes "correction_tx env task before c d = (Inr i, d')" "keyed_authority d" "new_change d c"
  obtains actual d1 where "kv_get (tasks d) task = Some actual" "revise env task before c actual d1 = (Inr i, d')"
    "tasks d1 = tasks d" "grants d1 = grants d" "contexts d1 = contexts d"
proof -
  from assms(1) obtain actual u d1 fresh d2 where
    t: "requireTask d task = Inr actual" and l: "link_source env task (ch_source c) d = (Inr u, d1)"
    and cl: "claim_change (ch_id c) task d1 = (Inr fresh, d2)"
    and r: "(if fresh then revise env task before c actual else ret actual) d2 = (Inr i, d')"
    by (auto simp: correction_tx_def atomically_ok andthen_ok)
  have "fresh" by (rule claim_change_ok(4) [OF cl])
      (use assms(3) link_source_ok(4) [OF l] in \<open>simp add: new_change_def\<close>)
  with t r l cl that link_source_ok(1-3) [OF l] claim_change_ok(1-3) [OF cl] show thesis
    by (simp add: requireTask_ok)
qed



definition demo_change :: change where
  "demo_change = \<lparr>ch_instruction = [121], ch_route = None, ch_id = None, ch_authorized = Iso 0,
     ch_refresh = False, ch_source = None\<rparr>"

lemma demo_fresh: "fresh_grants demo_env"
  by (simp add: fresh_grants_def demo_env_def unused_fresh)

lemma demo_new_change: "new_change d demo_change"
  by (simp add: new_change_def demo_change_def)

lemma demo_lookup:
  "kv_get (tasks demo_db) [84] = Some demo_task" "kv_get (grants demo_db) [71] = Some demo_grant"
  by (simp_all add: demo_db_def kv_get_def)

lemma demo_env_simps [simp]:
  "en_stop demo_env = None" "en_now demo_env = 0" "en_grant_ttl demo_env = 1000"
  "en_grant_id demo_env d = unused (grants d)" "en_policy demo_env = None"
  "en_broker demo_env = demo_cfg" "en_account demo_env = [65]" "en_owner demo_env = [79]"
  by (simp_all add: demo_env_def)

lemma demo_capped: "origin_deadlines d = [] \<Longrightarrow> capped_expiry demo_env d i (Some 1000) = Inr (Iso 1000)"
  by (simp add: capped_expiry_def iso_of_def kv_get_def)

lemma demo_revoke:
  "revoke_grant demo_env False [71] demo_db =
     (Inr (Iso 0), put_grant [71] (demo_grant\<lparr>g_revoked := Some (Iso 0)\<rparr>) demo_db)"
  by (simp add: revoke_grant_def requireGrant_def demo_lookup) (simp add: demo_grant_def)

lemma demo_no_effects: "effects d = [] \<Longrightarrow> revokeTask now task d = d"
  by (simp add: revokeTask_def kv_list_def)

definition no_work :: "db \<Rightarrow> bool" where
  "no_work d \<longleftrightarrow> child_stops d = [] \<and> runs d = [] \<and> admissions d = [] \<and> effects d = []"

lemma demo_revise:
  "\<exists>i d'. revise demo_env [84] 1 demo_change demo_task demo_db = (Inr i, d') \<and> no_work d'"
proof -
  have g: "ti_grant demo_task = [71]" by (simp add: demo_task_def)
  have c: "ch_route demo_change = None" "\<not> ch_refresh demo_change" by (simp_all add: demo_change_def)
  have e: "effects demo_db = []" "origin_deadlines (put_grant k x demo_db) = []" for k x
    by (simp_all add: put_grant_def demo_db_def empty_db_def)
  show ?thesis
    by (simp add: revise_def g requireGrant_def demo_lookup demo_revoke demo_no_effects e
        Let_def renew_deadline_def c makeGrant_def demo_capped save_correction_def journalChildStop_def
        andthen_def)
      (simp add: no_work_def put_defs demo_db_def empty_db_def)
qed

lemma demo_correct:
  "\<exists>i d'. correction_tx demo_env [84] 1 demo_change demo_db = (Inr i, d') \<and> no_work d'"
proof -
  obtain i d' where "revise demo_env [84] 1 demo_change demo_task demo_db = (Inr i, d')" "no_work d'"
    using demo_revise by blast
  moreover have "ch_source demo_change = None" "ch_id demo_change = None" by (simp_all add: demo_change_def)
  ultimately show ?thesis
    by (simp add: correction_tx_def atomically_ok requireTask_def demo_lookup link_source_def claim_change_def
        andthen_def)
qed



section \<open>A cancellation that arrives while a correction settles\<close>

lemma correction_keyed:
  assumes "correction_tx env task before c d = (Inr i, d')" "keyed_authority d" "new_change d c"
  shows "keyed_authority d'" "kv_get (tasks d') task = Some i"
proof -
  obtain actual d1 where a: "kv_get (tasks d) task = Some actual" "revise env task before c actual d1 = (Inr i, d')"
    "tasks d1 = tasks d" "grants d1 = grants d" "contexts d1 = contexts d"
    by (rule correction_tx_ok [OF assms])
  have key: "keyed_authority d1" using assms(2) by (simp add: keyed_authority_def a(3,4))
  obtain og mid g where r:
    "kv_get (grants d1) (ti_grant actual) = Some og" "i = corrected_intent env mid actual c"
    "kv_get (grants mid) = (kv_get (grants d1))(ti_grant actual \<mapsto> og\<lparr>g_revoked := Some (Iso (en_now env))\<rparr>)"
    "kv_get (tasks d') = (kv_get (tasks d1))(task \<mapsto> i)"
    "kv_get (grants d') = (kv_get (grants mid))(ti_grant i \<mapsto> g)"
    "g_id g = ti_grant i"
    by (rule revise_ok [OF a(2) key]) blast
  have "g_id og = ti_grant actual" "ti_id i = task"
    using key r(1,2) a(1) assms(2) by (simp_all add: keyed_authority_def)
  then show "keyed_authority d'" "kv_get (tasks d') task = Some i"
    using key r(6) by (auto simp: keyed_authority_def r(3,4,5))
qed

lemma revoked_prepare:
  assumes "task_revoked d task"
  shows "prepareTaskAuthority env task d = (Inl RevokedAuthority, d)"
  using assms by (auto simp: task_revoked_def prepareTaskAuthority_def requireTask_def requireGrant_def)

lemma hold_running:
  assumes "keyed_authority d" "kv_get (tasks d) task = Some i" "task_revoked d task" "en_stop env = None"
    and "Option.bind (kv_get (controls d) task) ct_cancelled = None"
  shows "\<exists>d'. hold env task reason resume d = (Inr (), d') \<and>
    kv_get (controls d') task = Some \<lparr>ct_task = task, ct_cancelled = None, ct_held = Some (Iso (en_now env)),
       ct_reason = Some reason, ct_resume = resume\<rparr> \<and> task_revoked d' task \<and> tasks d' = tasks d"
proof -
  obtain g where g: "kv_get (grants d) (ti_grant i) = Some g" "g_id g = ti_grant i"
    using assms(2,3) by (auto simp: task_revoked_def)
  let ?g = "g\<lparr>g_revoked := Some (Iso (en_now env)), g_revision := g_revision g + 1\<rparr>"
  let ?c = "\<lparr>ct_task = task, ct_cancelled = None, ct_held = Some (Iso (en_now env)),
       ct_reason = Some reason, ct_resume = resume\<rparr>"
  let ?d = "put_control task ?c (revokeTask (en_now env) task (put_grant (ti_grant i) ?g d))"
  have "hold env task reason resume d = (Inr (), ?d)"
    using assms(2,4,5) g
    by (simp add: hold_def requireTask_def atomically_def revoke_grant_def requireGrant_def
        journalChildStop_def stopChildren_def Let_def andthen_def)
  moreover have "kv_get (controls ?d) task = Some ?c" by (simp add: put_control_def kv.get_put)
  moreover have "task_revoked ?d task"
    using assms(2) g(2) by (simp add: task_revoked_def put_control_def put_grant_def kv.get_put)
  moreover have "tasks ?d = tasks d" by (simp add: put_control_def put_grant_def)
  ultimately show ?thesis by blast
qed

definition settled_work :: "db \<Rightarrow> utext \<Rightarrow> int \<Rightarrow> task_intent \<Rightarrow> bool" where
  \<comment> \<open>Nothing of the task is left to settle: no run, effect, admission or child stop is open.\<close>
  "settled_work d task before i \<longleftrightarrow>
     kv_get (child_stops d) (admissionKey task before) = None \<and> unsettled_stop d task = None \<and>
     \<not> list_ex uncertain_effect (task_effects (Some task) d) \<and>
     kv_get (admissions d) (admissionKey task before) = None \<and> \<not> unresolvedPriorWork d i"

lemma delete_control_simps [simp]:
  "tasks (delete_control k d) = tasks d" "grants (delete_control k d) = grants d"
  "child_stops (delete_control k d) = child_stops d" "kv_get (controls (delete_control k d)) k = None"
  by (simp_all add: delete_control_def kv.get_del)

lemma admit_revoked:
  assumes "keyed_authority d" "kv_get (tasks d) task = Some i" "ti_id i = task" "task_revoked d task"
    and "en_stop env = None" "unsettled_stop d task = None" "kv_get (controls d) task = None"
  shows "\<exists>d'. admit env i d = (Inr (), d') \<and>
    kv_get (controls d') task = Some \<lparr>ct_task = task, ct_cancelled = None, ct_held = Some (Iso (en_now env)),
       ct_reason = Some (js ''Authority preparation blocked: '' @ error_text RevokedAuthority), ct_resume = False\<rparr> \<and>
    task_revoked d' task"
proof -
  have "admit env i d = hold env task (js ''Authority preparation blocked: '' @ error_text RevokedAuthority) False d"
    using assms(2,3,6) revoked_prepare [OF assms(4), of env]
    by (simp add: admit_def requireTask_def)
  with hold_running [OF assms(1,2,4,5)] assms(7) show ?thesis by fastforce
qed



lemma cancel_idle:
  assumes "kv_get (tasks d) task = Some i" "kv_get (grants d) (ti_grant i) = Some g" "en_stop env = None" "no_work d"
  shows "\<exists>st d'. applyCancellation env task d = (Inr st, d') \<and> no_work d'"
  using assms
  by (simp add: applyCancellation_def requireTask_def atomically_def revoke_grant_def requireGrant_def
      journalChildStop_def stopChildren_def Let_def andthen_def task_runs_def no_work_def kv_list_def
      put_control_def put_grant_def revokeTask_def kv_get_def)

lemma no_work_settled: "no_work d \<Longrightarrow> settled_work d task before i"
  by (simp add: no_work_def settled_work_def kv_get_def unsettled_stop_def kv_list_def task_effects_def
      unresolvedPriorWork_def task_runs_def)


end
