(* ===== verification/AgentGate.thy ===== *)
theory AgentGate
  imports AgentProps
begin

text \<open>
  Who commands the agent and what its reports mean: the gate every observation passes, the
  idempotence of ingestion, the order of owner changes, the deadline of public replies, the
  single submission of a revision to the engine, delivery in order, and honest status.
\<close>

section \<open>The gate\<close>


definition demo_private :: message_ref where
  "demo_private = \<lparr>mr_account = [65], mr_peer = [90], mr_message = [49], mr_thread = None\<rparr>"

definition demo_observation :: observation where
  "demo_observation = (demo_quoted None)\<lparr>o_ref := demo_private\<rparr>"

definition demo_db3 :: db where
  "demo_db3 = put_source (refKey demo_private) [84] demo_db"

lemma no_spans_not_quoted: "o_spans ob = None \<Longrightarrow> \<not> beginsWithQuotedCommand ob p"
  by (simp add: beginsWithQuotedCommand_def ranges_def in_span_def Let_def split: option.splits)

lemma demo_repeat:
  "processObservation demo_env False demo_observation [] demo_db3 =
     (Inr (outcome_of Duplicate (Some [84]) None NoStatus), demo_db3)"
proof -
  have own: "ownOutput demo_db3 demo_observation = None"
    by (simp add: ownOutput_def demo_db3_def put_source_def demo_db_def empty_db_def kv_get_def task_effects_def
        kv_list_def demo_observation_def demo_quoted_def Let_def)
  have src: "taskForSource demo_db3 demo_private = Some demo_task"
    by (simp add: taskForSource_def demo_db3_def put_source_def kv.get_put demo_lookup)
  have "o_spans demo_observation = None" by (simp add: demo_observation_def demo_quoted_def)
  note nq = no_spans_not_quoted [OF this]
  have ob: "o_sent demo_observation = Iso 0" "o_observed demo_observation = Iso 0" "o_kind demo_observation = OMessage"
    "o_ref demo_observation = demo_private" "mr_peer demo_private = [90]" "en_natural demo_env = Some [90]"
    by (simp_all add: demo_observation_def demo_quoted_def demo_private_def demo_env_def)
  have auth: "authenticate demo_env demo_observation"
    by (simp add: authenticate_def) (simp add: demo_observation_def demo_quoted_def demo_private_def)
  show ?thesis
    by (simp add: processObservation_def own auth ob process_owner_def nq src Let_def) (simp add: demo_task_def)
qed


section \<open>Ingestion\<close>

lemma journal_results [simp]: "results (journal_observation env ob d) = results d"
  by (simp add: journal_observation_def Let_def put_defs insert_observation_def case_prod_unfold)


lemma processObservation_unauthenticated:
  "o_sent ob = Iso a \<Longrightarrow> o_observed ob = Iso b \<Longrightarrow> ownOutput d ob = None \<Longrightarrow> o_kind ob = OMessage \<Longrightarrow>
     \<not> authenticate env ob \<Longrightarrow>
     processObservation env rp ob event d =
       (Inr (ignored (js ''Observation is not an authenticated direct owner command'')), d)"
  by (simp add: processObservation_def)

lemma demo_ingest:
  "\<exists>r d'. ingest demo_env (demo_observation\<lparr>o_author := Some [78]\<rparr>) empty_db = (Inr r, d')"
proof -
  let ?ob = "demo_observation\<lparr>o_author := Some [78]\<rparr>"
  have ob: "o_sent ?ob = Iso 0" "o_observed ?ob = Iso 0" "o_kind ?ob = OMessage" "\<not> authenticate demo_env ?ob"
    "o_effect ?ob = None" "mr_account (o_ref ?ob) = en_account demo_env"
    by (simp_all add: demo_observation_def demo_quoted_def authenticate_def demo_private_def)
  have "ownOutput (journal_observation demo_env ?ob empty_db) ?ob = None"
    by (simp add: ownOutput_def ob(5) Let_def task_effects_def kv_list_def journal_observation_def put_defs
        insert_observation_def empty_db_def kv_get_def case_prod_unfold)
  with processObservation_unauthenticated [OF ob(1,2) _ ob(3,4)] show ?thesis
    unfolding ingest_def by (simp add: ob(6) andthen_def)
qed



section \<open>Admissions are never withdrawn\<close>

definition keeps_admissions :: "db \<Rightarrow> db \<Rightarrow> bool" where
  "keeps_admissions d d' \<longleftrightarrow> (\<forall>k. kv_get (admissions d) k \<noteq> None \<longrightarrow> kv_get (admissions d') k \<noteq> None)"

interpretation adm: evolution keeps_admissions
  by unfold_locales (simp_all add: keeps_admissions_def)

lemma keeps_admissions_same: "admissions d' = admissions d \<Longrightarrow> keeps_admissions d d'"
  by (simp add: keeps_admissions_def)

lemma auth_keeps_admissions: "auth.evolves m \<Longrightarrow> adm.evolves m"
  unfolding auth.evolves_def adm.evolves_def same_authority_def by (simp add: keeps_admissions_same)

lemma puts_keep_admissions [simp]:
  "keeps_admissions d (put_admission k a d)" "keeps_admissions d (put_context k c d)"
  "keeps_admissions d (put_task k t d)" "keeps_admissions d (put_grant k g d)"
  "keeps_admissions d (put_control k x d)" "keeps_admissions d (put_run k s d)"
  "keeps_admissions d (put_grant_baseline k b d)" "keeps_admissions d (put_origin_deadline k od d)"
  "keeps_admissions d (put_own_output k ow d)" "keeps_admissions d (put_acknowledgement k ak d)"
  "keeps_admissions d (put_result k r d)" "keeps_admissions d (revokeTask now task d)"
  "keeps_admissions d (delete_control k d)"
  by (simp_all add: keeps_admissions_def put_defs kv.get_put)

lemma keeps_admissions_step [intro]:
  "keeps_admissions d e \<Longrightarrow> admissions f = admissions e \<Longrightarrow> keeps_admissions d f"
  by (simp add: keeps_admissions_def)

lemmas adm_leaves = auth_keeps_admissions [OF stopChildren_authority] auth_keeps_admissions [OF acceptSnapshot_authority]
  auth_keeps_admissions [OF cancel_run_authority] auth_keeps_admissions [OF journalChildStop_authority]
  auth_keeps_admissions [OF refresh_authority] auth_keeps_admissions [OF makeGrant_authority]
  auth_keeps_admissions [OF grantBaseline_authority] auth_keeps_admissions [OF carry_over_authority]
  auth_keeps_admissions [OF renew_deadline_authority]

lemma revoke_grant_adm: "adm.evolves (revoke_grant env bump g)"
  unfolding revoke_grant_def by (rule adm.evolvesI) (intro adm.at_rules adm.at_upd puts_keep_admissions)

lemma hold_adm: "adm.evolves (hold env task reason resume)"
  unfolding hold_def
  by (rule adm.evolvesI)
    (intro adm.at_rules adm.at_upd puts_keep_admissions adm.at_evolves [OF revoke_grant_adm]
      adm_leaves [THEN adm.at_evolves])

lemma issue_adm: "keeps_admissions d (snd (issue cfg now token ctx d))"
  by (simp add: issue_def adm.refl split: sum.splits)

lemma authority_tx_adm: "adm.evolves (authority_tx env i g b prepared)"
  unfolding authority_tx_def Let_def
  by (rule adm.evolvesI) (intro adm.at_rules adm.at_upd puts_keep_admissions)

lemma prepared_adm:
  "keeps_admissions d (snd (case f of None \<Rightarrow> (Inr None, d)
     | Some f \<Rightarrow> andthen (from_host (f d i)) (\<lambda>a. ret (Some a)) d))"
  by (cases f) (simp_all add: adm.refl, intro adm.at_rules)

lemma prepareTaskAuthority_adm: "adm.evolves (prepareTaskAuthority env task)"
  unfolding prepareTaskAuthority_def
  by (rule adm.evolvesI)
    (intro adm.at_rules adm.at_evolves [OF authority_tx_adm] adm_leaves [THEN adm.at_evolves] prepared_adm)

lemma bind_or_cancel_adm: "adm.evolves (bind_or_cancel env token s)"
proof -
  have "keeps_admissions d (snd (bindToken cfg now token b d))" for cfg now b d
    by (simp add: bindToken_def adm.refl split: sum.splits)
  then show ?thesis
    unfolding bind_or_cancel_def
    by (intro adm.evolvesI adm.at_rules adm.at_broker adm_leaves [THEN adm.at_evolves])
qed

lemma dispatch_admission_adm: "adm.evolves (dispatch_admission env i key token a p)"
  unfolding dispatch_admission_def
  by (rule adm.evolvesI)
    (intro adm.at_rules adm.at_upd puts_keep_admissions adm.at_evolves [OF bind_or_cancel_adm]
      adm_leaves [THEN adm.at_evolves])

lemma prepared_input_of_adm: "adm.evolves (prepared_input_of env i token)"
  unfolding prepared_input_of_def
  by (rule adm.evolvesI) (intro adm.at_rules adm.at_broker prepared_adm)

lemma insert_admission_fresh:
  "kv_get (admissions d) k = None \<Longrightarrow> insert_admission k a d = (True, put_admission k a d)"
  by (simp add: insert_admission_def put_admission_def kv.ins_fresh)

lemma insert_admission_taken:
  "kv_get (admissions d) k \<noteq> None \<Longrightarrow> insert_admission k a d = (False, d)"
  by (auto simp: insert_admission_def kv.ins_taken)

lemma admit_prepared_adm: "adm.evolves (admit_prepared env i)"
proof -
  have rest: "keeps_admissions d (snd (case insert_admission k a d of
         (False, _) \<Rightarrow> (Inr (), d)
       | (True, d1) \<Rightarrow>
           (case prepared_input_of env i token d1 of
              (Inr p, d2) \<Rightarrow> dispatch_admission env i key token a p d2
            | (Inl e, d2) \<Rightarrow>
                andthen (upd (put_admission k (b e))) (\<lambda>_. hold env (ti_id i) (m e) False) d2)))" for d k a token key b m
  proof (cases "kv_get (admissions d) k")
    case (Some x)
    then show ?thesis by (simp add: insert_admission_taken adm.refl)
  next
    case None
    obtain r d2 where p: "prepared_input_of env i token (put_admission k a d) = (r, d2)"
      by (cases "prepared_input_of env i token (put_admission k a d)")
    have "keeps_admissions d (put_admission k a d)" by simp
    then have d2: "keeps_admissions d d2"
      using adm.evolvesD [OF prepared_input_of_adm p] adm.trans by blast
    have "keeps_admissions d2 (snd (dispatch_admission env i key token a q d2))" for q
      by (rule adm.at_evolves [OF dispatch_admission_adm])
    moreover have "keeps_admissions d2 (snd (andthen (upd (put_admission k (b e))) (\<lambda>_. hold env (ti_id i) (m e) False) d2))" for e
      by (intro adm.at_rules adm.at_upd puts_keep_admissions adm.at_evolves [OF hold_adm])
    ultimately show ?thesis using None p d2 adm.trans
      by (cases r) (auto simp: insert_admission_fresh simp del: puts_keep_admissions)
  qed
  show ?thesis
    unfolding admit_prepared_def Let_def
    by (rule adm.evolvesI) (intro adm.at_rules adm.at_evolves [OF hold_adm] adm.at_broker issue_adm rest)
qed

lemma admit_adm: "adm.evolves (admit env i)"
proof (rule adm.evolvesI)
  fix d
  have fail: "keeps_admissions d1 (snd (andthen (lifts (requireTask d1 (ti_id i))) (\<lambda>now_actual.
                if ti_revision now_actual \<noteq> ti_revision i then ret ()
                else hold env (ti_id i) (js ''Authority preparation blocked: '' @ error_text e) False) d1))" for d1 e
    by (intro adm.at_rules adm.at_evolves [OF hold_adm])
  have prep: "keeps_admissions d (snd (case prepareTaskAuthority env (ti_id i) d of
            (Inr _, d1) \<Rightarrow> admit_prepared env i d1
          | (Inl e, d1) \<Rightarrow>
              andthen (lifts (requireTask d1 (ti_id i))) (\<lambda>now_actual.
                if ti_revision now_actual \<noteq> ti_revision i then ret ()
                else hold env (ti_id i) (js ''Authority preparation blocked: '' @ error_text e) False) d1))" for d
  proof -
    obtain r d1 where p: "prepareTaskAuthority env (ti_id i) d = (r, d1)"
      by (cases "prepareTaskAuthority env (ti_id i) d")
    note k = adm.evolvesD [OF prepareTaskAuthority_adm p]
    show ?thesis
      using adm.trans [OF k fail] adm.trans [OF k adm.at_evolves [OF admit_prepared_adm]]
      by (cases r) (simp_all add: p)
  qed
  show "keeps_admissions d (snd (admit env i d))"
    unfolding admit_def by (intro adm.at_rules adm.at_evolves [OF hold_adm] prep)
qed


lemma applyCancellation_adm: "adm.evolves (applyCancellation env task)"
  unfolding applyCancellation_def
  by (rule adm.evolvesI)
    (intro adm.at_rules adm.at_upd puts_keep_admissions adm.at_evolves [OF revoke_grant_adm]
      adm_leaves [THEN adm.at_evolves])

lemma link_source_adm: "keeps_admissions d (snd (link_source env task src d))"
  by (auto simp: link_source_def put_defs keeps_admissions_def split: option.splits)

lemma claim_change_adm: "keeps_admissions d (snd (claim_change c task d))"
  by (auto simp: claim_change_def insert_applied_change_def keeps_admissions_def split: option.splits prod.splits)

lemma save_correction_adm: "keeps_admissions d (snd (save_correction env task before c next g d))"
proof -
  have "keeps_admissions d (put_control task x (put_grant k g (put_task task next d)))" for x k
    by (simp add: keeps_admissions_def put_defs)
  moreover have "keeps_admissions d (put_correction k x d)" for k x d
    by (simp add: keeps_admissions_def put_defs)
  ultimately show ?thesis
    unfolding save_correction_def
    by (intro adm.at_rules adm.at_upd adm_leaves [THEN adm.at_evolves])
qed

lemma correction_tx_adm: "adm.evolves (correction_tx env task before c)"
  unfolding correction_tx_def revise_def Let_def
  by (rule adm.evolvesI)
    (intro adm.at_rules adm.at_upd puts_keep_admissions link_source_adm claim_change_adm save_correction_adm
      adm.at_evolves [OF revoke_grant_adm] adm_leaves [THEN adm.at_evolves])

lemma engine_settled_adm: "keeps_admissions d (snd (engine_settled env task current d))"
proof (cases current)
  case None
  then show ?thesis by (simp add: engine_settled_def adm.refl)
next
  case (Some s)
  show ?thesis
    unfolding engine_settled_def Some option.case
    by (intro adm.at_rules adm.at_evolves [OF hold_adm] adm_leaves [THEN adm.at_evolves])
qed

lemma correction_settle_adm: "adm.evolves (correction_settle env rp task before current i)"
proof -
  have "keeps_admissions d (snd (admit env i (delete_control task d)))" for d
    by (rule adm.trans [OF _ adm.at_evolves [OF admit_adm]]) simp
  moreover have "keeps_admissions d (snd (r, delete_control task d))" for r :: "agent_error + unit" and d by simp
  ultimately show ?thesis
    unfolding correction_settle_def
    by (intro adm.evolvesI adm.at_rules engine_settled_adm adm.at_evolves [OF hold_adm] adm_leaves [THEN adm.at_evolves])
qed

lemma applyCorrection_adm: "adm.evolves (applyCorrection env rp task c)"
  unfolding applyCorrection_def Let_def
  by (rule adm.evolvesI)
    (intro adm.at_rules adm.at_evolves [OF correction_tx_adm] adm.at_evolves [OF correction_settle_adm])

lemma resume_one_adm: "adm.evolves (resume_one env ctl)"
proof -
  have put: "keeps_admissions d (delete_control k (put_grant j g (put_task l t d)))" for d k j g l t
    by (simp add: keeps_admissions_def put_defs)
  show ?thesis
    unfolding resume_one_def Let_def
    by (rule adm.evolvesI)
      (intro adm.at_rules adm.at_upd put adm.at_evolves [OF admit_adm] adm_leaves [THEN adm.at_evolves])
qed

lemma invalidate_one_adm: "keeps_admissions d (snd (invalidate_one env ob i d))"
proof -
  have "keeps_admissions d (put_origin_review k r (revokeTask now task d))" for d k r now task
    by (simp add: keeps_admissions_def put_defs)
  then show ?thesis
    unfolding invalidate_one_def by (intro adm.at_rules adm.at_upd puts_keep_admissions)
qed

lemma create_task_adm: "adm.evolves (create_task env ob i)"
proof -
  have ins: "keeps_admissions d d1" if "insert_source k v d = (b, d1)" for d d1 k v b
    using that by (auto simp: insert_source_def keeps_admissions_def split: prod.splits)
  have put: "keeps_admissions d (put_owner_change k x (put_grant j g d))" for d k x j g
    by (simp add: keeps_admissions_def put_defs)
  let ?rest = "andthen (upd (put_task (ti_id i) i)) (\<lambda>_.
              andthen (makeGrant env i) (\<lambda>g.
                andthen (upd (\<lambda>d. put_owner_change (ti_id i) \<lparr>oc_ref = o_ref ob, oc_authorized = authorized_at ob\<rparr>
                    (put_grant (ti_grant i) g d))) (\<lambda>_.
                  if is_public env (ti_route i) then
                    andthen (lifts (iso_of (map_option (\<lambda>t. t + en_origin_ttl env) (date_parse (o_sent ob))))) (\<lambda>x.
                      andthen (upd (put_origin_deadline (ti_id i)
                          \<lparr>od_task = ti_id i, od_peer = Some (rt_peer (ti_route i)), od_expires = x\<rparr>)) (\<lambda>_.
                        andthen (makeGrant env i) (\<lambda>g.
                          andthen (upd (put_grant (ti_grant i) g)) (\<lambda>_. ret True))))
                  else ret True)))"
  have "keeps_admissions d (snd (case insert_source (refKey (o_ref ob)) (ti_id i) d of
          (False, _) \<Rightarrow> (Inr False, d) | (True, d1) \<Rightarrow> ?rest d1))" for d
  proof -
    obtain b d1 where b: "insert_source (refKey (o_ref ob)) (ti_id i) d = (b, d1)"
      by (cases "insert_source (refKey (o_ref ob)) (ti_id i) d")
    have "keeps_admissions d1 (snd (?rest d1))"
      by (intro adm.at_rules adm.at_upd puts_keep_admissions put adm_leaves [THEN adm.at_evolves])
    from adm.trans [OF ins [OF b] this] show ?thesis
      unfolding b by (cases b) (simp_all add: adm.refl)
  qed
  then show ?thesis
    unfolding create_task_def by (intro adm.evolvesI adm.at_rules)
qed


lemma hold_source_adm: "keeps_admissions d (snd (hold_source env task reason b d))"
  unfolding hold_source_def by (intro adm.at_rules adm.at_evolves [OF hold_adm])

lemma owner_correction_adm: "keeps_admissions d (snd (owner_correction env rp task ob event instruction at r d))"
  unfolding owner_correction_def by (intro adm.at_rules adm.at_evolves [OF applyCorrection_adm])

lemma process_delete_adm: "keeps_admissions d (snd (process_delete env ob d))"
  unfolding process_delete_def
  by (intro adm.at_rules adm.at_cases hold_source_adm)

lemma accept_task_adm: "keeps_admissions d (snd (accept_task env rp ob command d))"
proof -
  show ?thesis
    unfolding accept_task_def Let_def
    by (intro adm.at_rules adm.at_evolves [OF create_task_adm] adm.at_evolves [OF admit_adm])
qed

lemma process_command_adm: "keeps_admissions d (snd (process_command env rp ob event command natural d))"
proof -
  have cancel: "keeps_admissions d (snd (andthen (applyCancellation env k) (\<lambda>_. reads f) d))" for k and f :: "db \<Rightarrow> ingest_result"
    by (intro adm.at_rules adm.at_evolves [OF applyCancellation_adm])
  show ?thesis
    unfolding process_command_def Let_def
    by (intro adm.at_if_pair adm.at_done adm.at_cases cancel owner_correction_adm accept_task_adm)
qed

lemma process_edit_adm: "keeps_admissions d (snd (process_edit env rp ob event text m natural t d))"
  unfolding process_edit_def by (intro adm.at_rules hold_source_adm owner_correction_adm)

lemma process_owner_adm: "keeps_admissions d (snd (process_owner env rp ob event d))"
proof -
  have inv: "keeps_admissions d (snd (andthen (invalidateOriginDrafts env ob) (\<lambda>_. ret x) d))" for x :: ingest_result
    unfolding invalidateOriginDrafts_def by (intro adm.at_rules invalidate_one_adm)
  show ?thesis
    unfolding process_owner_def Let_def
    by (intro adm.at_if_pair adm.at_done adm.at_cases inv hold_source_adm process_edit_adm process_command_adm)
qed

lemma processObservation_adm: "adm.evolves (processObservation env rp ob event)"
  unfolding processObservation_def
  by (rule adm.evolvesI) (intro adm.at_rules process_delete_adm process_owner_adm)

lemma ingest_adm: "adm.evolves (ingest env ob)"
proof (rule adm.evolvesI)
  fix d
  have "admissions (journal_observation env ob d) = admissions d"
    by (simp add: journal_observation_def Let_def put_defs insert_observation_def case_prod_unfold)
  moreover have "keeps_admissions e (snd (andthen (processObservation env False ob (event_key ob)) (\<lambda>r.
          andthen (upd (put_result (event_key ob) r)) (\<lambda>_. ret r)) e))" for e
    by (intro adm.at_rules adm.at_upd puts_keep_admissions adm.at_evolves [OF processObservation_adm])
  ultimately have "keeps_admissions d (snd (andthen (processObservation env False ob (event_key ob)) (\<lambda>r.
          andthen (upd (put_result (event_key ob) r)) (\<lambda>_. ret r)) (journal_observation env ob d)))"
    using adm.trans [OF keeps_admissions_same] by blast
  then show "keeps_admissions d (snd (ingest env ob d))"
    unfolding ingest_def by (simp add: adm.refl)
qed

section \<open>The broker leaves admissions alone\<close>

lemma captureOwnReceipt_admissions [simp]: "admissions (captureOwnReceipt env e d) = admissions d"
proof (cases "e_receipt e")
  case (Some j)
  then show ?thesis
  proof (cases j)
    case (JObj kvs)
    have "admissions (put_own_output k x d) = admissions d" for k x by (simp add: put_own_output_def)
    then show ?thesis
      by (cases "map_of kvs (js ''messageId'')"; cases "the (map_of kvs (js ''messageId''))")
        (simp_all add: captureOwnReceipt_def Some JObj Let_def)
  qed (simp_all add: captureOwnReceipt_def)
qed (simp add: captureOwnReceipt_def)

lemma on_verified_broker_of [simp]: "on_verified (broker_of env) = captureOwnReceipt env"
  by (simp add: broker_of_def)

lemma settle_admissions: "admissions (snd (settle (broker_of env) now e r d)) = admissions d"
  by (simp add: settle_def Let_def put_effect_def split: option.splits)

lemma recover_admissions: "admissions (recover (broker_of env) rc fl now now' d) = admissions d"
proof -
  have "admissions (recover_one (broker_of env) rc fl now now' e d) = admissions d" for e d
    by (simp add: recover_one_def Let_def settle_admissions) (simp add: put_effect_def)
  then have "admissions (fold (recover_one (broker_of env) rc fl now now') es d) = admissions d" for es
    by (induction es arbitrary: d) simp_all
  then show ?thesis by (simp add: recover_def)
qed

lemma begin_effect_admissions: "admissions (snd (begin_effect cfg now token rq d)) = admissions d"
proof -
  obtain r d' where run: "begin_effect cfg now token rq d = (r, d')" by (cases "begin_effect cfg now token rq d")
  then show ?thesis
  proof (cases rule: begin_effect_cases)
    case (fresh c ctx t g i h e)
    from prepare_effect_ok(3) [OF fresh(10)] show ?thesis by (simp add: run put_effect_def)
  qed (simp_all add: run)
qed

lemma executeBound_admissions:
  "admissions (snd (executeBound (broker_of env) dispatch now now' token rq d)) = admissions d"
proof -
  obtain r d' where run: "begin_effect (broker_of env) now token rq d = (r, d')"
    by (cases "begin_effect (broker_of env) now token rq d")
  have "admissions d' = admissions d" using begin_effect_admissions [of "broker_of env" now token rq d] by (simp add: run)
  then show ?thesis
    by (auto simp: executeBound_def run settle_admissions split: sum.splits prod.splits bool.splits)
qed

lemma executeDelivery_admissions:
  "admissions (snd (executeDelivery (broker_of env) dispatch now now' token rq d)) = admissions d"
  by (simp add: executeDelivery_def executeBound_admissions Let_def split: sum.splits)

lemma execute_admissions:
  "admissions (snd (execute (broker_of env) dispatch now now' token rq d)) = admissions d"
  by (simp add: execute_def executeBound_admissions)


lemma issueToolContext_adm: "keeps_admissions d (snd (issueToolContext env b d))"
  unfolding issueToolContext_def by (intro adm.at_cases adm.at_rules adm.at_broker issue_adm)

lemma deliver_part_adm: "keeps_admissions d (snd (deliver_part env st s token n index part d))"
  unfolding deliver_part_def Let_def
  by (intro adm.at_cases adm.at_rules adm.at_broker keeps_admissions_same executeDelivery_admissions)

lemma deliver_parts_adm: "keeps_admissions d (snd (deliver_parts env st s token n index ps d))"
proof (induction ps arbitrary: index d)
  case (Cons p ps)
  obtain r d1 where p: "deliver_part env st s token n index p d = (r, d1)"
    by (cases "deliver_part env st s token n index p d")
  have k: "keeps_admissions d d1" using deliver_part_adm [of d env st s token n index p] by (simp add: p)
  have "keeps_admissions d1 (snd (andthen (deliver_parts env st s token n (Suc index) ps) (\<lambda>es. ret (e # es)) d1))" for e
    by (intro adm.at_rules Cons)
  from adm.trans [OF k this] k show ?case by (simp add: p split: sum.split)
qed (simp add: adm.refl)

lemma deliver_status_adm: "keeps_admissions d (snd (deliver_status env st d))"
  unfolding deliver_status_def Let_def
  by (intro adm.at_cases adm.at_rules issueToolContext_adm deliver_parts_adm)

lemma deliver_all_adm: "keeps_admissions d (snd (deliver_all env sts d))"
proof (induction sts arbitrary: d)
  case (Cons st sts)
  show ?case unfolding deliver_all.simps by (intro adm.at_rules deliver_status_adm Cons)
qed (simp add: adm.refl)

lemma stop_each_adm: "keeps_admissions d (snd (andthen (stopChildren env t w r) (\<lambda>_. ret ()) d))"
  by (intro adm.at_rules adm_leaves [THEN adm.at_evolves])

lemma refresh_each_adm: "keeps_admissions d (snd (andthen (refresh env s) (\<lambda>_. ret ()) d))"
  by (intro adm.at_rules adm_leaves [THEN adm.at_evolves])

lemma poll_adm: "adm.evolves (poll env in_flight)"
  unfolding poll_def resumeSettledCorrections_def
  by (rule adm.evolvesI)
    (intro adm.at_rules adm.at_upd keeps_admissions_same recover_admissions refresh_each_adm stop_each_adm
      adm.at_evolves [OF resume_one_adm] deliver_all_adm)

lemma interrupt_fold_adm: "keeps_admissions d (fold interrupt_admission as d)"
proof (induction as arbitrary: d)
  case (Cons a as)
  have "keeps_admissions d (interrupt_admission a d)" by (simp add: interrupt_admission_def adm.refl)
  from adm.trans [OF this Cons] show ?case by simp
qed (simp add: adm.refl)

lemma replay_one_adm: "keeps_admissions d (snd (replay_one env p d))"
  unfolding replay_one_def
  by (intro adm.at_rules adm.at_upd puts_keep_admissions adm.at_evolves [OF processObservation_adm])

lemma restore_run_adm: "keeps_admissions d (snd (restore_run env s d))"
  unfolding restore_run_def Let_def by (intro adm.at_rules adm.at_cases adm_leaves [THEN adm.at_evolves])

lemma readmit_adm: "keeps_admissions d (snd (readmit env i d))"
  unfolding readmit_def by (intro adm.at_rules adm.at_evolves [OF hold_adm] adm.at_evolves [OF admit_adm])

lemma recover_agent_adm: "adm.evolves (recover_agent env)"
  unfolding recover_agent_def
  by (rule adm.evolvesI)
    (intro adm.at_rules adm.at_upd interrupt_fold_adm replay_one_adm keeps_admissions_same recover_admissions
      stop_each_adm restore_run_adm readmit_adm)

section \<open>One submission per revision\<close>

lemma submit_irrelevant [simp]:
  "broker_of (env\<lparr>en_submit := f\<rparr>) = broker_of env" "hold (env\<lparr>en_submit := f\<rparr>) = hold env"
  "prepareTaskAuthority (env\<lparr>en_submit := f\<rparr>) = prepareTaskAuthority env"
proof -
  have o: "originResourceAllowed (env\<lparr>en_submit := f\<rparr>) = originResourceAllowed env"
    by (intro ext) (simp add: originResourceAllowed_def is_public_def cong: if_cong sum.case_cong option.case_cong)
  have v: "validateOriginResource (env\<lparr>en_submit := f\<rparr>) = validateOriginResource env"
    by (intro ext) (simp add: validateOriginResource_def o cong: if_cong sum.case_cong option.case_cong)
  have a: "en_account (env\<lparr>en_submit := f\<rparr>) = en_account env" by simp
  have c: "captureOwnReceipt (env\<lparr>en_submit := f\<rparr>) = captureOwnReceipt env"
    unfolding captureOwnReceipt_def a ..
  show "broker_of (env\<lparr>en_submit := f\<rparr>) = broker_of env" by (simp add: broker_of_def v c cong: option.case_cong)
  have j: "journalChildStop (env\<lparr>en_submit := f\<rparr>) = journalChildStop env"
    by (intro ext) (simp add: journalChildStop_def cong: if_cong sum.case_cong option.case_cong)
  have st: "stopChildren (env\<lparr>en_submit := f\<rparr>) = stopChildren env"
    by (intro ext) (simp add: stopChildren_def cong: if_cong sum.case_cong option.case_cong)
  have r: "revoke_grant (env\<lparr>en_submit := f\<rparr>) = revoke_grant env"
    by (intro ext) (simp add: revoke_grant_def cong: if_cong sum.case_cong option.case_cong)
  show "hold (env\<lparr>en_submit := f\<rparr>) = hold env" by (intro ext) (simp add: hold_def j st r cong: if_cong sum.case_cong option.case_cong)
  have x: "capped_expiry (env\<lparr>en_submit := f\<rparr>) = capped_expiry env"
    by (intro ext) (simp add: capped_expiry_def is_public_def cong: if_cong sum.case_cong option.case_cong)
  have b: "grantBaseline (env\<lparr>en_submit := f\<rparr>) = grantBaseline env"
    by (intro ext) (simp add: grantBaseline_def x cong: if_cong sum.case_cong option.case_cong)
  have t: "authority_tx (env\<lparr>en_submit := f\<rparr>) = authority_tx env"
    by (intro ext) (simp add: authority_tx_def o cong: if_cong sum.case_cong option.case_cong)
  show "prepareTaskAuthority (env\<lparr>en_submit := f\<rparr>) = prepareTaskAuthority env"
    by (intro ext) (simp add: prepareTaskAuthority_def b t cong: if_cong sum.case_cong option.case_cong)
qed

lemma issue_admissions: "admissions (snd (issue cfg now token ctx d)) = admissions d"
  by (simp add: issue_def put_context_def split: sum.splits)

lemma admit_prepared_known:
  assumes "kv_get (admissions d) (admissionKey (ti_id i) (ti_revision i)) \<noteq> None"
  shows "admit_prepared (env\<lparr>en_submit := f\<rparr>) i d = admit_prepared env i d"
proof (cases "requireTask d (ti_id i)")
  case (Inr actual)
  show ?thesis
  proof (cases "requireGrant d (ti_grant i)")
    case g: (Inr g)
    obtain r d1 where iss: "issue (broker_of env) (en_now env) (en_token env d)
                 \<lparr>tc_task = ti_id i, tc_revision = ti_revision i, tc_grant = g_id g,
                  tc_grant_revision = g_revision g, tc_run = js ''admission:'' @ admission_key i\<rparr> d = (r, d1)"
      by (cases "issue (broker_of env) (en_now env) (en_token env d)
                 \<lparr>tc_task = ti_id i, tc_revision = ti_revision i, tc_grant = g_id g,
                  tc_grant_revision = g_revision g, tc_run = js ''admission:'' @ admission_key i\<rparr> d")
    have "admissions d1 = admissions d"
      using issue_admissions [of "broker_of env" "en_now env" "en_token env d" _ d] iss by (metis snd_conv)
    with assms have "insert_admission (admissionKey (ti_id i) (ti_revision i)) a d1 = (False, d1)" for a
      by (simp add: insert_admission_taken)
    then show ?thesis
      by (cases r) (simp_all add: admit_prepared_def Inr g Let_def via_broker_def iss andthen_def)
  qed (simp add: admit_prepared_def Inr)
qed (simp add: admit_prepared_def)

text \<open>
  C7 A task revision reaches the engine at most once: when its admission row exists, whatever its
  state, admitting the revision again does not call \<open>engine.submit\<close> (its result is the same for
  every engine); and no handler ever removes the row: not ingestion, polling, correction,
  cancellation, nor the recovery after a crash, whatever the engine and the callbacks answer.
\<close>

theorem revision_submitted_once:
  assumes "kv_get (admissions d) (admissionKey (ti_id i) (ti_revision i)) \<noteq> None"
  shows "admit (env\<lparr>en_submit := f\<rparr>) i d = admit env i d \<and>
    (\<forall>env' k. kv_get (admissions d) k \<noteq> None \<longrightarrow>
      (\<forall>ob. kv_get (admissions (snd (ingest env' ob d))) k \<noteq> None) \<and>
      (\<forall>fl. kv_get (admissions (snd (poll env' fl d))) k \<noteq> None) \<and>
      (\<forall>rp task c. kv_get (admissions (snd (applyCorrection env' rp task c d))) k \<noteq> None) \<and>
      (\<forall>task. kv_get (admissions (snd (applyCancellation env' task d))) k \<noteq> None) \<and>
      (\<forall>j. kv_get (admissions (snd (admit env' j d))) k \<noteq> None) \<and>
      kv_get (admissions (snd (recover_agent env' d))) k \<noteq> None)"
proof -
  have "admit (env\<lparr>en_submit := f\<rparr>) i d = admit env i d"
  proof (cases "prepareTaskAuthority env (ti_id i) d")
    case (Pair r d1)
    then have "kv_get (admissions d1) (admissionKey (ti_id i) (ti_revision i)) \<noteq> None"
      using adm.evolvesD [OF prepareTaskAuthority_adm Pair] assms unfolding keeps_admissions_def by blast
    then show ?thesis
      by (cases "requireTask d (ti_id i)"; cases r)
        (simp_all add: admit_def Pair admit_prepared_known cong: if_cong)
  qed
  moreover have keep: "kv_get (admissions d') k \<noteq> None"
    if "keeps_admissions d d'" "kv_get (admissions d) k \<noteq> None" for d' k
    using that unfolding keeps_admissions_def by blast
  ultimately show ?thesis
    by (auto intro!: keep adm.at_evolves [OF ingest_adm] adm.at_evolves [OF poll_adm]
        adm.at_evolves [OF applyCorrection_adm] adm.at_evolves [OF applyCancellation_adm]
        adm.at_evolves [OF admit_adm] adm.at_evolves [OF recover_agent_adm] simp del: not_None_eq)
qed

definition demo_admission :: admission where
  "demo_admission = \<lparr>ad_task = [84], ad_revision = 1, ad_key = [107], ad_token = [42], ad_state = AUnknown,
     ad_created = Iso 0, ad_reason = None\<rparr>"

theorem revision_submitted_once_witness:
  "admit (demo_env\<lparr>en_submit := (\<lambda>_ _. Inl [])\<rparr>) demo_task (put_admission (admissionKey [84] 1) demo_admission demo_db) =
   admit demo_env demo_task (put_admission (admissionKey [84] 1) demo_admission demo_db)"
proof -
  have "kv_get (admissions (put_admission (admissionKey [84] 1) demo_admission demo_db))
      (admissionKey (ti_id demo_task) (ti_revision demo_task)) \<noteq> None"
    by (simp add: demo_task_def put_admission_def kv.get_put)
  from revision_submitted_once [OF this] show ?thesis by blast
qed

end
