(* ===== verification/AgentReply.thy ===== *)
theory AgentReply
  imports AgentGate
begin

text \<open>
  What leaves the agent: deliveries in order, its own messages recognised, the deadline of public
  replies, the refresh of a task's scope, honest status, and what a restart makes of interrupted
  admissions.
\<close>

section \<open>Delivery\<close>

lemma deliver_parts_verified:
  assumes "deliver_parts env st s token n index ps d = (Inr es, d')"
  shows "length es \<le> length ps \<and> (\<forall>j. Suc j < length es \<longrightarrow> e_state (es ! j) = EVerified)"
  using assms
proof (induction ps arbitrary: index d es)
  case (Cons p ps)
  obtain r d1 where p: "deliver_part env st s token n index p d = (r, d1)"
    by (cases "deliver_part env st s token n index p d")
  show ?case
  proof (cases r)
    case (Inl e)
    with Cons.prems p show ?thesis by (auto split: if_splits)
  next
    case (Inr e)
    show ?thesis
    proof (cases "e_state e = EVerified")
      case False
      with Cons.prems p Inr show ?thesis by auto
    next
      case True
      with Cons.prems p Inr obtain fs where fs: "es = e # fs"
        "deliver_parts env st s token n (Suc index) ps d1 = (Inr fs, d')"
        by (auto simp: andthen_ok)
      from Cons.IH [OF fs(2)] True show ?thesis
        by (auto simp: fs(1) nth_Cons split: nat.split)
    qed
  qed
qed simp


lemma begin_effect_succeeds:
  assumes "rq_capability rq \<noteq> []" "rq_resource rq \<noteq> []" "resolve cfg now d token = Inr c"
    and "validateContext cfg now d (cr_context c) True = Inr (i, g)"
    and "permits cfg g (rq_capability rq) (rq_resource rq)" "run_hooks cfg d now (cr_context c) rq = Inr ()"
    and "canonicalJson (rq_payload rq) = Some text" "effectOperationId cfg (cr_context c) rq = Some k" "stored d k = None"
  shows "\<exists>e d'. begin_effect cfg now token rq d = (Inr (e, True), d')"
  using assms by (simp add: begin_effect_def prepare_effect_def insert_effect_fresh Let_def)

lemma executeBound_succeeds:
  assumes "begin_effect cfg now token rq d = (Inr (e, True), d')" "dispatch e = Inl m"
  shows "\<exists>x d''. executeBound cfg dispatch now now' token rq d = (Inr x, d'')"
  using assms by (simp add: executeBound_def outcome_def settle_def Let_def split: option.split)

definition demo_run :: run_snapshot where
  "demo_run = \<lparr>rs_binding = \<lparr>rb_run = [82], rb_session = None, rb_task = [84], rb_revision = 1, rb_key = [107]\<rparr>,
     rs_state = RCompleted, rs_observed = Iso 0, rs_output = Some [104, 105], rs_artifacts = None,
     rs_reason = None, rs_progress = None\<rparr>"

definition demo_private_task :: task_intent where
  "demo_private_task = demo_task\<lparr>ti_route := \<lparr>rt_peer = [90], rt_thread = None, rt_reply = None\<rparr>\<rparr>"

definition demo_send_grant :: grant where
  "demo_send_grant = demo_grant\<lparr>g_capabilities :=
     [\<lparr>cg_capability = js ''telegram.send'', cg_resources = [[90]]\<rparr>]\<rparr>"

definition demo_db4 :: db where
  "demo_db4 = empty_db\<lparr>tasks := [([84], demo_private_task)], grants := [([71], demo_send_grant)],
     runs := [(admissionKey [84] 1, demo_run)]\<rparr>"

lemma demo_db4_get:
  "kv_get (tasks demo_db4) [84] = Some demo_private_task" "kv_get (grants demo_db4) [71] = Some demo_send_grant"
  "kv_get (runs demo_db4) (admissionKey [84] 1) = Some demo_run"
  by (simp_all add: demo_db4_def kv_get_def)

lemma demo_broker_simps [simp]:
  "sha256 (broker_of demo_env) x = x" "context_ttl (broker_of demo_env) = 1000"
  "check_context (broker_of demo_env) d now ctx = None" "check_effect (broker_of demo_env) d now ctx rq = None"
  "en_token demo_env d = [42]" "rt_peer (en_route demo_env) = [90]"
  by (simp_all add: broker_of_def demo_cfg_def demo_env_def)

definition demo_ctx4 :: tool_context where
  "demo_ctx4 = \<lparr>tc_task = [84], tc_revision = 1, tc_grant = [71], tc_grant_revision = 1, tc_run = [82]\<rparr>"

definition demo_db5 :: db where
  "demo_db5 = put_context [42] \<lparr>cr_context = demo_ctx4, cr_expires = Iso 1000, cr_revoked = None\<rparr> demo_db4"

lemma demo_validate4:
  "validateContext (broker_of demo_env) 0 demo_db4 demo_ctx4 b = Inr (demo_private_task, demo_send_grant)"
  "validateContext (broker_of demo_env) 0 demo_db5 demo_ctx4 b = Inr (demo_private_task, demo_send_grant)"
  by (simp_all add: validateContext_ok demo_db5_def put_context_def demo_ctx4_def demo_db4_get)
    (simp_all add: demo_private_task_def demo_send_grant_def demo_task_def demo_grant_def)

lemma demo_issue4: "issueToolContext demo_env (rs_binding demo_run) demo_db4 = (Inr [42], demo_db5)"
proof -
  have b: "rb_task (rs_binding demo_run) = [84]" "rb_revision (rs_binding demo_run) = 1" "rb_run (rs_binding demo_run) = [82]"
    by (simp_all add: demo_run_def)
  have g: "ti_grant demo_private_task = [71]" "ti_id demo_private_task = [84]" "g_id demo_send_grant = [71]"
    "g_revision demo_send_grant = 1"
    by (simp_all add: demo_private_task_def demo_task_def demo_send_grant_def demo_grant_def)
  show ?thesis
    using demo_validate4(1) [of False]
    by (simp add: issueToolContext_def b demo_db4_get requireTask_def g requireGrant_def via_broker_def issue_def
        demo_ctx4_def demo_db5_def)
qed

lemma demo_resolve4:
  "resolve (broker_of demo_env) 0 demo_db5 [42] = Inr \<lparr>cr_context = demo_ctx4, cr_expires = Iso 1000, cr_revoked = None\<rparr>"
  unfolding resolve_ok using demo_validate4(2) [of True]
  by (simp add: demo_db5_def put_context_def kv.get_put)


lemma canonical_strings:
  assumes "\<forall>(k, v) \<in> set kvs. \<exists>x. v = JStr x"
  shows "\<exists>t. canonicalJson (JObj kvs) = Some t"
proof -
  have "\<forall>e \<in> set (sort_key fst kvs). pr_entry e \<noteq> None" using assms by (auto simp: pr_entry_def)
  then have "map pr_entry (sort_key fst kvs) = map Some (map (\<lambda>e. the (pr_entry e)) (sort_key fst kvs))" by auto
  then show ?thesis unfolding canonicalJson_JObj opt_all_Some_iff map_option_eq_Some by blast
qed

lemma operation_id_defined: "rq_id rq = Some i \<Longrightarrow> \<exists>k. effectOperationId cfg ctx rq = Some k"
  by (simp add: effectOperationId_def operation_identity_def)

definition demo_status :: task_status where
  "demo_status = status_of demo_db4 demo_private_task"

lemma demo_status_simps:
  "ts_intent demo_status = demo_private_task" "ts_run demo_status = Some demo_run"
  "ts_cancelled demo_status = None" "ts_held demo_status = None"
proof -
  have t: "ti_id demo_private_task = [84]" "ti_revision demo_private_task = 1"
    by (simp_all add: demo_private_task_def demo_task_def)
  have c: "kv_get (controls demo_db4) [84] = None" by (simp add: demo_db4_def empty_db_def kv_get_def)
  show "ts_intent demo_status = demo_private_task" "ts_run demo_status = Some demo_run"
    "ts_cancelled demo_status = None" "ts_held demo_status = None"
    by (simp_all add: demo_status_def status_of_def Let_def t c demo_db4_get)
qed

lemma demo_deliver:
  "\<exists>e d'. deliver_status demo_env demo_status demo_db4 = (Inr [e], d')"
proof -
  have run: "rs_output demo_run = Some [104, 105]" "rs_state demo_run = RCompleted" "rb_revision (rs_binding demo_run) = 1"
    by (simp_all add: demo_run_def)
  have t: "ti_grant demo_private_task = [71]" "ti_revision demo_private_task = 1" "rt_peer (ti_route demo_private_task) = [90]"
    by (simp_all add: demo_private_task_def demo_task_def)
  have g: "g_revoked demo_send_grant = None" "g_expires demo_send_grant = None"
    by (simp_all add: demo_send_grant_def demo_grant_def)
  have parts: "deliveryParts [104, 105] 3500 = [[104, 105]]" by (simp add: deliveryParts_def is_high_def)
  define rq where "rq = delivery_request demo_status demo_run (Suc 0) 0 [104, 105]"
  have rq: "rq_capability rq = js ''telegram.send''" "rq_resource rq = [90]"
    "rq_payload rq = JObj [(js ''peerId'', JStr [90]), (js ''text'', JStr (part_head (Suc 0) 0 @ [104, 105]))]"
    by (simp_all add: rq_def delivery_request_def demo_status_simps t message_payload_def)
      (simp add: demo_private_task_def)
  obtain k where k: "effectOperationId (broker_of demo_env) demo_ctx4 rq = Some k"
    using operation_id_defined unfolding rq_def delivery_request_def by fastforce
  obtain pt where pt: "canonicalJson (rq_payload rq) = Some pt"
    unfolding rq(3) using canonical_strings by fastforce
  have none: "stored demo_db5 k = None" for k
    by (simp add: demo_db5_def put_context_def demo_db4_def empty_db_def kv_get_def)
  have "originResourceAllowed demo_env demo_db5 0 demo_private_task (js ''telegram.send'') [90]"
    by (simp add: originResourceAllowed_def)
  moreover have "requireTask demo_db5 (tc_task demo_ctx4) = Inr demo_private_task"
    by (simp add: requireTask_def demo_db5_def put_context_def demo_ctx4_def demo_db4_get)
  ultimately have hooks: "run_hooks (broker_of demo_env) demo_db5 0 demo_ctx4 rq = Inr ()"
    by (simp add: run_hooks_def rq) (simp add: broker_of_def validateOriginResource_def demo_cfg_def)
  have permit: "permits (broker_of demo_env) demo_send_grant (rq_capability rq) (rq_resource rq)"
    by (simp add: permits_def rq demo_send_grant_def)
  have ne: "rq_capability rq \<noteq> []" "rq_resource rq \<noteq> []" by (simp_all add: rq js_def)
  let ?c = "\<lparr>cr_context = demo_ctx4, cr_expires = Iso 1000, cr_revoked = None\<rparr>"
  have c: "cr_context ?c = demo_ctx4" by simp
  have "\<exists>e d1. begin_effect (broker_of demo_env) 0 [42] rq demo_db5 = (Inr (e, True), d1)"
    by (rule begin_effect_succeeds [OF ne demo_resolve4, unfolded c, OF demo_validate4(2) permit hooks pt k none])
  then obtain e d1 where b: "begin_effect (broker_of demo_env) 0 [42] rq demo_db5 = (Inr (e, True), d1)"
    by (elim exE)
  have "\<exists>x d2. executeBound (broker_of demo_env) (\<lambda>_. Inl []) 0 0 [42] rq demo_db5 = (Inr x, d2)"
    by (rule executeBound_succeeds [OF b refl])
  then obtain x d2 where x: "executeBound (broker_of demo_env) (\<lambda>_. Inl []) 0 0 [42] rq demo_db5 = (Inr x, d2)"
    by (elim exE)
  have rep: "acknowledgementReplacement demo_env demo_db5 demo_private_task = None"
    by (simp add: acknowledgementReplacement_def demo_env_def)
  have "field (Some (rq_payload rq)) ''replaceAcknowledgement'' = None" by (simp add: rq)
  with x have del: "executeDelivery (broker_of demo_env) (\<lambda>_. Inl []) 0 0 [42] rq demo_db5 = (Inr x, d2)"
    by (simp add: executeDelivery_def demo_resolve4)
  have keep: "rq\<lparr>rq_payload := with_replacement (rq_payload rq) None\<rparr> = rq" by (simp add: rq)
  have d: "en_dispatch demo_env = (\<lambda>_. Inl [])" by (simp add: demo_env_def)
  have rq1: "delivery_request demo_status demo_run (Suc 0) 0 [104, 105] = rq" by (simp add: rq_def)
  have part: "deliver_part demo_env demo_status demo_run [42] (Suc 0) 0 [104, 105] demo_db5 = (Inr x, d2)"
    using k none keep del
    by (simp add: deliver_part_def demo_resolve4 rq1 demo_status_simps rep via_broker_def d Let_def)
  have "\<exists>e d'. deliver_parts demo_env demo_status demo_run [42] (Suc 0) 0 [[104, 105]] demo_db5 = (Inr [e], d')"
    by (simp add: part andthen_def)
  then show ?thesis
    by (simp add: deliver_status_def demo_status_simps run t demo_db4_get requireGrant_def g parts
        andthen_def demo_issue4)
qed



section \<open>The agent's own messages\<close>

text \<open>
  What the agent delivered can never command it: once a send effect settles verified with a
  receipt, an observation of the message the receipt names is ignored as the agent's own output
  and changes nothing, in whatever account role, kind or text it comes back.
\<close>

theorem own_delivery_never_commands:
  assumes "settle (broker_of env) now e r d = (Inr t, d')" "e_state t = EVerified"
    and "\<forall>old. stored d (e_id e) = Some old \<longrightarrow> e_state old \<noteq> EVerified"
    and "e_capability e \<in> set send_capabilities"
    and "e_receipt t = Some (JObj kvs)" "map_of kvs (js ''messageId'') = Some (JStr m)"
    and "map_of kvs (js ''peerId'') = Some (JStr p)"
    and "mr_account (o_ref ob) = en_account env" "mr_peer (o_ref ob) = p" "mr_message (o_ref ob) = m"
    and "date_parse (o_sent ob) \<noteq> None" "date_parse (o_observed ob) \<noteq> None"
  shows "processObservation env' replaying ob event d' =
    (Inr (ignored (js ''Own output cannot command the agent'')), d')"
proof -
  from assms(1-3) obtain s where t: "settled_state (er_state r) = Some s" "t = settled_effect now e r s"
    and d': "d' = captureOwnReceipt env t (put_effect (e_id e) t d)"
    by (auto simp: settle_def Let_def split: option.splits if_splits)
  have cap: "e_capability t \<in> set send_capabilities" using assms(4) t(2) by (simp add: settled_effect_def)
  have key: "refKey \<lparr>mr_account = en_account env, mr_peer = p, mr_message = m, mr_thread = x\<rparr> = refKey (o_ref ob)" for x
    using assms(8-10) by (simp add: refKey_inj)
  have "\<exists>x dd. d' = put_own_output (refKey (o_ref ob)) x dd"
    unfolding d' captureOwnReceipt_def using cap assms(5-7) by (auto simp: Let_def key)
  then have "kv_get (own_outputs d') (refKey (o_ref ob)) \<noteq> None"
    by (auto simp: put_own_output_def kv.get_put)
  then have "ownOutput d' ob \<noteq> None" by (auto simp: ownOutput_def)
  with assms(11,12) show ?thesis by (auto simp: processObservation_def)
qed

definition demo_sent :: effect where
  "demo_sent = demo_effect\<lparr>e_capability := js ''telegram.send'', e_resource := [80]\<rparr>"

definition demo_receipt :: effect_result where
  "demo_receipt = \<lparr>er_state = RsVerified,
     er_receipt = Some (JObj [(js ''peerId'', JStr [80]), (js ''messageId'', JStr [49])]), er_reason = None\<rparr>"

theorem own_delivery_never_commands_witness:
  "processObservation demo_env False (demo_quoted None) []
     (snd (settle (broker_of demo_env) 0 demo_sent demo_receipt demo_db)) =
   (Inr (ignored (js ''Own output cannot command the agent'')),
     snd (settle (broker_of demo_env) 0 demo_sent demo_receipt demo_db))"
proof -
  let ?t = "settled_effect 0 demo_sent demo_receipt EVerified"
  have run: "settle (broker_of demo_env) 0 demo_sent demo_receipt demo_db =
      (Inr ?t, snd (settle (broker_of demo_env) 0 demo_sent demo_receipt demo_db))"
    by (simp add: settle_def demo_receipt_def demo_stored Let_def)
  have t: "e_receipt ?t = Some (JObj [(js ''peerId'', JStr [80]), (js ''messageId'', JStr [49])])"
    by (simp add: settled_effect_def demo_receipt_def)
  have ob: "mr_account (o_ref (demo_quoted None)) = en_account demo_env" "mr_peer (o_ref (demo_quoted None)) = [80]"
    "mr_message (o_ref (demo_quoted None)) = [49]" "date_parse (o_sent (demo_quoted None)) \<noteq> None"
    "date_parse (o_observed (demo_quoted None)) \<noteq> None"
    by (simp_all add: demo_quoted_def)
  show ?thesis
    by (rule own_delivery_never_commands [OF run _ _ _ t _ _ ob])
      (simp_all add: demo_stored demo_sent_def send_capabilities_def)
qed


section \<open>Public replies\<close>

lemma validateOriginResource_None:
  "validateOriginResource env d now ctx cap res = None \<longleftrightarrow>
     (\<exists>i. kv_get (tasks d) (tc_task ctx) = Some i \<and> originResourceAllowed env d now i cap res)"
  by (auto simp: validateOriginResource_def requireTask_def split: option.splits)

text \<open>
  A reply to a public origin expires: no send to the origin of a task is dispatched unless the
  recorded reply deadline is a valid time still ahead and the owner has not spoken there since;
  and while the task's route is public, a missing deadline refuses the send too. The rule is
  checked again inside the transaction that claims the effect.
\<close>

theorem public_reply_deadline:
  assumes "begin_effect (broker_of env) now token rq d = (Inr (e, True), d')" "keyed_authority d"
    and "rq_capability rq \<in> set send_capabilities" "rq_resource rq \<noteq> rt_peer (en_route env)"
  shows "\<exists>i. kv_get (tasks d) (e_task e) = Some i \<and>
    (\<forall>dl. kv_get (origin_deadlines d) (e_task e) = Some dl \<longrightarrow> od_peer dl = Some (rq_resource rq) \<longrightarrow>
       (\<exists>t. date_parse (od_expires dl) = Some t \<and> now < t) \<and> kv_get (origin_reviews d) (e_task e) = None) \<and>
    (kv_get (origin_deadlines d) (e_task e) = None \<longrightarrow> is_public env (ti_route i) \<longrightarrow>
       rq_resource rq \<noteq> rt_peer (ti_route i))"
proof -
  obtain c :: context_record and k h where hooks: "run_hooks (broker_of env) d now (cr_context c) rq = Inr ()"
    and p: "prepare_effect (broker_of env) now (cr_context c) rq k h d = Inr (e, d')"
    using assms(1)
  proof (cases rule: begin_effect_cases)
    case (fresh c ctx t g i h f)
    from fresh(1) have "f = e" by simp
    with fresh(3,6,10) that show thesis by blast
  qed auto
  have task: "e_task e = tc_task (cr_context c)" unfolding prepare_effect_ok(1) [OF p] by simp
  from hooks have "validateOriginResource env d now (cr_context c) (rq_capability rq) (rq_resource rq) = None"
    by (auto simp: run_hooks_def broker_of_def split: option.splits)
  then obtain i where i: "kv_get (tasks d) (e_task e) = Some i"
    "originResourceAllowed env d now i (rq_capability rq) (rq_resource rq)"
    unfolding validateOriginResource_None task by blast
  have "ti_id i = e_task e" using i(1) assms(2) by (simp add: keyed_authority_def)
  with i assms(3,4) show ?thesis
    by (auto simp: originResourceAllowed_def Let_def split: option.splits if_splits)
qed

definition demo_public_grant :: grant where
  "demo_public_grant = demo_grant\<lparr>g_capabilities :=
     [\<lparr>cg_capability = js ''telegram.send'', cg_resources = [[80]]\<rparr>]\<rparr>"

definition demo_db6 :: db where
  "demo_db6 = empty_db\<lparr>tasks := [([84], demo_task)], grants := [([71], demo_public_grant)],
     contexts := [([42], \<lparr>cr_context = demo_ctx4, cr_expires = Iso 1000, cr_revoked = None\<rparr>)],
     origin_deadlines := [([84], \<lparr>od_task = [84], od_peer = Some [80], od_expires = Iso 50\<rparr>)]\<rparr>"

definition demo_public_request :: effect_request where
  "demo_public_request = \<lparr>rq_id = Some [105], rq_capability = js ''telegram.send'', rq_resource = [80], rq_payload = JNull\<rparr>"

lemma demo_db6_get:
  "kv_get (tasks demo_db6) [84] = Some demo_task" "kv_get (grants demo_db6) [71] = Some demo_public_grant"
  "kv_get (contexts demo_db6) [42] = Some \<lparr>cr_context = demo_ctx4, cr_expires = Iso 1000, cr_revoked = None\<rparr>"
  "kv_get (origin_deadlines demo_db6) [84] = Some \<lparr>od_task = [84], od_peer = Some [80], od_expires = Iso 50\<rparr>"
  "kv_get (origin_reviews demo_db6) k = None" "stored demo_db6 k = None"
  by (simp_all add: demo_db6_def empty_db_def kv_get_def)

lemma demo_begin6: "\<exists>e d'. begin_effect (broker_of demo_env) 0 [42] demo_public_request demo_db6 = (Inr (e, True), d')"
proof -
  have v: "validateContext (broker_of demo_env) 0 demo_db6 demo_ctx4 b = Inr (demo_task, demo_public_grant)" for b
    by (simp add: validateContext_ok demo_ctx4_def demo_db6_get)
      (simp add: demo_task_def demo_public_grant_def demo_grant_def)
  have r: "resolve (broker_of demo_env) 0 demo_db6 [42] = Inr \<lparr>cr_context = demo_ctx4, cr_expires = Iso 1000, cr_revoked = None\<rparr>"
    unfolding resolve_ok using v [of True] by (simp add: demo_db6_get)
  have q: "rq_capability demo_public_request = js ''telegram.send''" "rq_resource demo_public_request = [80]"
    "rq_payload demo_public_request = JNull"
    by (simp_all add: demo_public_request_def)
  have t: "ti_id demo_task = [84]" by (simp add: demo_task_def)
  have "originResourceAllowed demo_env demo_db6 0 demo_task (js ''telegram.send'') [80]"
    by (simp add: originResourceAllowed_def t demo_db6_get)
  moreover have "requireTask demo_db6 (tc_task demo_ctx4) = Inr demo_task"
    by (simp add: requireTask_def demo_ctx4_def demo_db6_get)
  ultimately have hooks: "run_hooks (broker_of demo_env) demo_db6 0 demo_ctx4 demo_public_request = Inr ()"
    by (simp add: run_hooks_def q) (simp add: broker_of_def validateOriginResource_def demo_cfg_def)
  have permit: "permits (broker_of demo_env) demo_public_grant (rq_capability demo_public_request) (rq_resource demo_public_request)"
    by (simp add: permits_def q demo_public_grant_def)
  have ne: "rq_capability demo_public_request \<noteq> []" "rq_resource demo_public_request \<noteq> []" by (simp_all add: q js_def)
  have c: "cr_context \<lparr>cr_context = demo_ctx4, cr_expires = Iso 1000, cr_revoked = None\<rparr> = demo_ctx4" by simp
  have pt: "canonicalJson (rq_payload demo_public_request) = Some (js ''null'')" by (simp add: q)
  have "rq_id demo_public_request = Some [105]" by (simp add: demo_public_request_def)
  from operation_id_defined [OF this]
  obtain k where k: "effectOperationId (broker_of demo_env) demo_ctx4 demo_public_request = Some k" by blast
  show ?thesis
    by (rule begin_effect_succeeds [OF ne r, unfolded c, OF v permit hooks pt k demo_db6_get(6)])
qed

theorem public_reply_deadline_witness:
  "\<exists>e d'. begin_effect (broker_of demo_env) 0 [42] demo_public_request demo_db6 = (Inr (e, True), d') \<and>
     (\<exists>i. kv_get (tasks demo_db6) (e_task e) = Some i)"
proof -
  obtain e d' where run: "begin_effect (broker_of demo_env) 0 [42] demo_public_request demo_db6 = (Inr (e, True), d')"
    using demo_begin6 by blast
  have "keyed_authority demo_db6"
    by (simp add: keyed_authority_def demo_db6_def empty_db_def kv_get_def demo_task_def demo_public_grant_def demo_grant_def)
  from public_reply_deadline [OF run this] run show ?thesis
    by (auto simp: demo_public_request_def send_capabilities_def)
qed


section \<open>Refreshing a task's scope\<close>

text \<open>
  A scope refresh cannot revive or silently widen authority: it commits only against the same
  unrevoked grant the preparation started from, and when it changes anything it changes that one
  grant, keeps it unrevoked and bumps its revision, so that every context issued before stops
  validating; a send to a public origin whose deadline has passed is filtered out of the new scope.
\<close>

theorem scope_refresh_invalidates_tokens:
  assumes "authority_tx env i g baseline prepared d = (Inr (), d')" "keyed_authority d" "d' \<noteq> d"
  shows "\<exists>actual cur cur'. kv_get (tasks d) (ti_id i) = Some actual \<and> ti_revision actual = ti_revision i \<and>
    kv_get (grants d) (ti_grant actual) = Some cur \<and> g_id cur = g_id g \<and> g_revision cur = g_revision g \<and>
    g_revoked cur = None \<and> d' = put_grant (g_id g) cur' d \<and> g_id cur' = g_id g \<and> g_revoked cur' = None \<and>
    g_revision cur' = g_revision g + 1 \<and>
    (\<forall>c \<in> set (g_capabilities cur'). \<forall>r \<in> set (cg_resources c).
       originResourceAllowed env d (en_now env) actual (cg_capability c) r) \<and>
    (\<forall>cfg now ctx b y. tc_grant ctx = g_id g \<longrightarrow> tc_grant_revision ctx \<le> g_revision g \<longrightarrow>
       validateContext cfg now d' ctx b \<noteq> Inr y)"
proof -
  from assms(1) obtain actual where a: "kv_get (tasks d) (ti_id i) = Some actual"
    by (cases "requireTask d (ti_id i)") (auto simp: authority_tx_def atomically_ok requireTask_ok)
  with assms(1) obtain cur where c: "kv_get (grants d) (ti_grant actual) = Some cur"
    by (cases "kv_get (grants d) (ti_grant actual)")
      (auto simp: authority_tx_def atomically_ok requireTask_def requireGrant_def)
  define caps where "caps = map (\<lambda>c. c\<lparr>cg_resources := filter
        (originResourceAllowed env d (en_now env) actual (cg_capability c)) (cg_resources c)\<rparr>)
        (case prepared of Some a \<Rightarrow> au_capabilities a | None \<Rightarrow> g_capabilities cur)"
  define expires where "expires = (case prepared of
        None \<Rightarrow> g_expires cur
      | Some a \<Rightarrow> (case au_expires a of None \<Rightarrow> Some baseline | Some x \<Rightarrow> x))"
  let ?new = "cur\<lparr>g_revision := g_revision cur + 1, g_capabilities := caps, g_expires := expires\<rparr>"
  have same: "ti_revision actual = ti_revision i" "g_id cur = g_id g" "g_revision cur = g_revision g" "g_revoked cur = None"
    and d': "d' = put_grant (g_id cur) ?new d"
    using assms(1,3) a c
    by (auto simp: authority_tx_def atomically_ok requireTask_def requireGrant_def Let_def
        caps_def [symmetric] expires_def [symmetric] split: if_splits)
  have caps: "originResourceAllowed env d (en_now env) actual (cg_capability x) r"
    if "x \<in> set caps" "r \<in> set (cg_resources x)" for x r
    using that by (auto simp: caps_def)
  have dead: "validateContext cfg now d' ctx b \<noteq> Inr y"
    if ctx: "tc_grant ctx = g_id g" "tc_grant_revision ctx \<le> g_revision g" for cfg now ctx b y
  proof
    assume "validateContext cfg now d' ctx b = Inr y"
    then obtain x where "kv_get (grants d') (g_id g) = Some x" "g_revision x = tc_grant_revision ctx"
      using ctx(1) by (cases y) (auto simp: validateContext_ok)
    with ctx(2) same show False by (auto simp: d' put_grant_def kv.get_put)
  qed
  show ?thesis
    by (intro exI [of _ actual] exI [of _ cur] exI [of _ ?new])
      (use a c same d' caps dead in auto)
qed

definition demo_authority :: authority where
  "demo_authority = \<lparr>au_capabilities = [], au_expires = Some None\<rparr>"

theorem scope_refresh_invalidates_tokens_witness:
  "\<exists>d'. authority_tx demo_env demo_task demo_grant (Iso 0) (Some demo_authority) demo_db = (Inr (), d') \<and>
     (\<forall>cfg now b y. validateContext cfg now d' demo_ctx b \<noteq> Inr y)"
proof -
  have t: "ti_id demo_task = [84]" "ti_grant demo_task = [71]" "g_revoked demo_grant = None" "g_id demo_grant = [71]"
    by (simp_all add: demo_task_def demo_grant_def)
  have caps: "canonicalJson (caps_json (g_capabilities demo_grant)) \<noteq> canonicalJson (caps_json [])"
  proof
    assume eq: "canonicalJson (caps_json (g_capabilities demo_grant)) = canonicalJson (caps_json [])"
    have wf: "json_wf (caps_json (g_capabilities demo_grant))" "json_wf (caps_json [])"
      by (simp_all add: caps_json_def demo_grant_def)
    have "canonicalJson (caps_json []) = Some [91, 93]" by (simp add: caps_json_def)
    with eq canonicalJson_unique [OF wf] have "norm (caps_json (g_capabilities demo_grant)) = norm (caps_json [])"
      by simp
    then show False by (simp add: caps_json_def demo_grant_def)
  qed
  have run: "authority_tx demo_env demo_task demo_grant (Iso 0) (Some demo_authority) demo_db =
      (Inr (), put_grant [71] (demo_grant\<lparr>g_revision := 2, g_capabilities := [], g_expires := None\<rparr>) demo_db)"
    using caps
    by (simp add: authority_tx_def atomically_def requireTask_def requireGrant_def demo_lookup t Let_def demo_authority_def)
      (simp add: demo_grant_def)
  have "put_grant [71] (demo_grant\<lparr>g_revision := 2, g_capabilities := [], g_expires := None\<rparr>) demo_db \<noteq> demo_db"
    by (simp add: put_grant_def demo_db_def empty_db_def kv_put_def demo_grant_def)
  from scope_refresh_invalidates_tokens [OF run demo_keyed this] run show ?thesis
    by (auto simp: demo_ctx_def t) (simp add: demo_grant_def)
qed

section \<open>Status\<close>

lemma state_of_ready:
  "state_of u adm run ctl = TReady \<longleftrightarrow>
     \<not> u \<and> map_option ad_state adm \<noteq> Some AUnknown \<and> run_is run RCompleted \<and>
     Option.bind ctl ct_cancelled = None \<and> Option.bind ctl ct_held = None"
  by (cases run) (auto simp: state_of_def run_is_def)

lemma state_of_unknown:
  "u \<or> map_option ad_state adm = Some AUnknown \<or> run_is run RUnknown \<Longrightarrow> state_of u adm run ctl = TUnknown"
  by (simp add: state_of_def)

lemma run_is_iff: "run_is r x \<longleftrightarrow> (\<exists>s. r = Some s \<and> rs_state s = x)"
  by (cases r) (simp_all add: run_is_def)

text \<open>
  Status is honest: a task is reported ready only when the run of its current revision completed,
  none of its effects is unknown or still dispatching, every child stop is settled, its admission
  is not unknown and it is neither held nor cancelled; and as long as an effect, a child stop, the
  admission or the run is unresolved the report is unknown, even for a held or cancelled task.
\<close>

theorem status_honest:
  "(ts_state (status_of d i) = TReady \<longrightarrow>
     (\<exists>s. kv_get (runs d) (admissionKey (ti_id i) (ti_revision i)) = Some s \<and> rs_state s = RCompleted) \<and>
     (\<forall>e \<in> set (kv_list (effects d)). e_task e = ti_id i \<longrightarrow> e_state e \<notin> {EUnknown, EDispatching}) \<and>
     (\<forall>c \<in> set (kv_list (child_stops d)). cs_task c = ti_id i \<longrightarrow> cs_state c = SSettled) \<and>
     ts_cancelled (status_of d i) = None \<and> ts_held (status_of d i) = None) \<and>
   ((\<exists>e \<in> set (kv_list (effects d)). e_task e = ti_id i \<and> e_state e \<in> {EUnknown, EDispatching}) \<or>
    (\<exists>c \<in> set (kv_list (child_stops d)). cs_task c = ti_id i \<and> cs_state c \<noteq> SSettled) \<or>
    (\<exists>a. kv_get (admissions d) (admissionKey (ti_id i) (ti_revision i)) = Some a \<and> ad_state a = AUnknown) \<or>
    (\<exists>s. kv_get (runs d) (admissionKey (ti_id i) (ti_revision i)) = Some s \<and> rs_state s = RUnknown) \<longrightarrow>
    ts_state (status_of d i) = TUnknown)"
proof -
  have stop: "unsettled_stop d (ti_id i) \<noteq> None \<longleftrightarrow>
      (\<exists>c \<in> set (kv_list (child_stops d)). cs_task c = ti_id i \<and> cs_state c \<noteq> SSettled)"
    unfolding unsettled_stop_def find_None_iff by blast
  have eff: "list_ex uncertain_effect (filter (\<lambda>e. e_task e = ti_id i) (kv_list (effects d))) \<longleftrightarrow>
      (\<exists>e \<in> set (kv_list (effects d)). e_task e = ti_id i \<and> e_state e \<in> {EUnknown, EDispatching})"
    unfolding list_ex_iff uncertain_effect_def set_filter by blast
  have st: "ts_state (status_of d i) =
      state_of (list_ex uncertain_effect (filter (\<lambda>e. e_task e = ti_id i) (kv_list (effects d))) \<or>
          unsettled_stop d (ti_id i) \<noteq> None)
        (kv_get (admissions d) (admissionKey (ti_id i) (ti_revision i)))
        (kv_get (runs d) (admissionKey (ti_id i) (ti_revision i))) (kv_get (controls d) (ti_id i))"
    "ts_cancelled (status_of d i) = Option.bind (kv_get (controls d) (ti_id i)) ct_cancelled"
    "ts_held (status_of d i) = Option.bind (kv_get (controls d) (ti_id i)) ct_held"
    by (simp_all only: status_of_def Let_def task_status.simps)
  show ?thesis
    unfolding st state_of_ready eff stop run_is_iff
    by (intro conjI impI state_of_unknown; (unfold run_is_iff)?) (blast, blast, blast, blast, blast, force)
qed

theorem status_honest_witness:
  "ts_state demo_status = TReady \<and> (\<exists>s. kv_get (runs demo_db4) (admissionKey [84] 1) = Some s \<and> rs_state s = RCompleted)"
proof -
  have t: "ti_id demo_private_task = [84]" "ti_revision demo_private_task = 1"
    by (simp_all add: demo_private_task_def demo_task_def)
  have "ts_state demo_status = TReady"
    by (simp add: demo_status_def status_of_def Let_def t demo_db4_get)
      (simp add: demo_db4_def empty_db_def kv_get_def kv_list_def unsettled_stop_def state_of_def run_is_def demo_run_def)
  with status_honest [of demo_db4 demo_private_task] show ?thesis unfolding demo_status_def t by blast
qed

end
