(* ===== verification/Guard.thy ===== *)
theory Guard
  imports Contracts "HOL-Library.Sublist"
begin

text \<open>
  The request guard of the Telegram gateway: \<open>guardrails.ts\<close>, \<open>errors.ts\<close>, the
  persistent state of \<open>types.ts\<close> and the store of \<open>state-store.ts\<close>.

  The world \<open>guard_world\<close> holds the cached state, the state file and the time. Every wait
  (a sleep, a retry delay, the request itself) moves the time. The field \<open>gw_log\<close> is
  written when a request is put on the wire and never read by the code: it is the history the
  properties speak about.
\<close>

section \<open>Types\<close>

record limit_config =
  lm_dialogs :: int
  lm_page :: int
  lm_max_pages :: int
  lm_max_messages :: int
  lm_max_sources :: int
  lm_lookback_days :: int
  lm_per_minute :: int
  lm_per_hour :: int
  lm_per_day :: int
  lm_interval :: int
  lm_retries :: int
  lm_retry_base :: int
  lm_retry_max :: int
  lm_flood_safety :: int
  lm_breaker_failures :: int
  lm_breaker_cooldown :: int
  lm_live_buffer :: int

record cursor =
  cu_last :: int
  cu_synced :: stamp

record persistent =
  ps_cursors :: "utext \<Rightarrow> cursor option"
  ps_requests :: "stamp list"
  ps_last :: "stamp option"
  ps_cooldown :: "stamp option"
  ps_cooldown_reason :: "utext option"
  ps_failures :: int
  ps_open :: "stamp option"

definition createEmptyState :: persistent where
  "createEmptyState = \<lparr>ps_cursors = (\<lambda>_. None), ps_requests = [], ps_last = None, ps_cooldown = None,
     ps_cooldown_reason = None, ps_failures = 0, ps_open = None\<rparr>"

section \<open>Telegram errors\<close>

datatype error_code = CodeNum int | CodeText utext

record remote_error =
  re_code :: "error_code option"
  re_error_message :: "utext option"
  re_message :: utext \<comment> \<open>\<open>candidate.message ?? errorMessage(error)\<close>\<close>
  re_seconds :: "int option" \<comment> \<open>a finite \<open>seconds\<close>\<close>

datatype error_kind = KFlood "int option" | KTransient | KFatal | KNonRetryable

fun upper_unit :: "nat \<Rightarrow> utext" where
  \<comment> \<open>\<open>toUpperCase\<close> on the units whose upper case has an ASCII letter; the tests below look at
    nothing else, so the other units stay as they are.\<close>
  "upper_unit c =
     (if 97 \<le> c \<and> c \<le> 122 then [c - 32]
      else if c = 223 then [83, 83]
      else if c = 305 then [73]
      else if c = 329 then [700, 78]
      else if c = 383 then [83]
      else if c = 496 then [74, 780]
      else if c = 7830 then [72, 817]
      else if c = 7831 then [84, 776]
      else if c = 7832 then [87, 778]
      else if c = 7833 then [89, 778]
      else if c = 7834 then [65, 702]
      else if c = 64256 then [70, 70]
      else if c = 64257 then [70, 73]
      else if c = 64258 then [70, 76]
      else if c = 64259 then [70, 70, 73]
      else if c = 64260 then [70, 70, 76]
      else if c = 64261 \<or> c = 64262 then [83, 84]
      else [c])"

definition upper :: "utext \<Rightarrow> utext" where
  "upper s = concat (map upper_unit s)"

definition str_includes :: "utext \<Rightarrow> utext \<Rightarrow> bool" where
  "str_includes s p \<longleftrightarrow> sublist p s"

definition is_digit_unit :: "nat \<Rightarrow> bool" where
  "is_digit_unit c \<longleftrightarrow> 48 \<le> c \<and> c \<le> 57"

definition decimal :: "utext \<Rightarrow> int" where
  \<comment> \<open>\<open>Number.parseInt(s, 10)\<close> of a string of digits.\<close>
  "decimal s = fold (\<lambda>c n. 10 * n + int (c - 48)) s 0"

definition after_prefix :: "utext \<Rightarrow> utext \<Rightarrow> utext option" where
  "after_prefix p s = (if take (length p) s = p then Some (drop (length p) s) else None)"

fun flood_match :: "utext \<Rightarrow> utext option" where
  \<comment> \<open>The digits after the first \<open>FLOOD_WAIT_\<close>, \<open>FLOOD_PREMIUM_WAIT_\<close> or
    \<open>A WAIT OF \<close> that has any.\<close>
  "flood_match [] = None"
| "flood_match (c # s) =
     (case filter (\<lambda>d. d \<noteq> []) (map (takeWhile is_digit_unit) (List.map_filter (\<lambda>p. after_prefix p (c # s))
         [js ''FLOOD_PREMIUM_WAIT_'', js ''FLOOD_WAIT_'', js ''A WAIT OF ''])) of
        d # _ \<Rightarrow> Some d | [] \<Rightarrow> flood_match s)"

definition rpc_text :: "remote_error \<Rightarrow> utext" where
  "rpc_text e = upper (or_else (re_error_message e) [] @ js '' '' @ re_message e)"

definition flood_seconds :: "remote_error \<Rightarrow> int option" where
  "flood_seconds e =
     (case re_seconds e of Some s \<Rightarrow> Some (max 0 s) | None \<Rightarrow> map_option decimal (flood_match (rpc_text e)))"

definition network_codes :: "utext list" where
  "network_codes = [js ''ETIMEDOUT'', js ''ECONNRESET'', js ''ECONNREFUSED'', js ''EPIPE'', js ''ENETUNREACH'',
     js ''EAI_AGAIN'']"

definition classifyTelegramError :: "remote_error \<Rightarrow> error_kind" where
  "classifyTelegramError e =
     (let rpc = rpc_text e; code = re_code e in
      if code = Some (CodeNum 420) \<or> flood_seconds e \<noteq> None \<or> str_includes rpc (js ''FLOOD_WAIT'')
      then (if str_includes rpc (js ''FROZEN_METHOD_INVALID'') then KFatal else KFlood (flood_seconds e))
      else if code \<in> {Some (CodeNum 401), Some (CodeNum 403), Some (CodeNum 406)} \<or>
              str_includes rpc (js ''AUTH_KEY_DUPLICATED'') \<or> str_includes rpc (js ''SESSION_REVOKED'') \<or>
              str_includes rpc (js ''SESSION_EXPIRED'') \<or> str_includes rpc (js ''USER_DEACTIVATED'')
      then KFatal
      else if (case code of Some (CodeNum n) \<Rightarrow> 500 \<le> \<bar>n\<bar> | _ \<Rightarrow> False) \<or>
              (case code of Some (CodeText t) \<Rightarrow> upper t \<in> set network_codes | _ \<Rightarrow> False) \<or>
              str_includes rpc (js ''RPC_CALL_FAIL'') \<or> str_includes rpc (js ''RPC_MCGET_FAIL'') \<or>
              str_includes rpc (js ''TIMEOUT'') \<or> str_includes rpc (js ''CONNECTION'')
      then KTransient
      else KNonRetryable)"

section \<open>The guarded executor\<close>

datatype stop_code =
    CooldownActive | CircuitOpen | RequestBudgetExhausted | FloodWait | TelegramFatal
  | TelegramNonRetryable | CircuitOpened | TransientRetryLimit

record guard_stop =
  gs_code :: stop_code
  gs_method :: utext
  gs_retry_at :: "int option"

datatype guard_error =
    Stop guard_stop         \<comment> \<open>\<open>GuardrailStopError\<close>\<close>
  | Raised remote_error     \<comment> \<open>any other error\<close>
  | BadDate                 \<comment> \<open>\<open>RangeError\<close> of \<open>toISOString\<close>\<close>

record guard_env =
  gv_wake :: "int \<Rightarrow> int \<Rightarrow> int" \<comment> \<open>when a sleep of so many milliseconds, begun at that time, ends\<close>
  gv_jitter :: "int \<Rightarrow> int \<Rightarrow> int" \<comment> \<open>\<open>Math.floor(random() * cap)\<close> at that time\<close>
  gv_save :: "persistent \<Rightarrow> remote_error option" \<comment> \<open>the error writing the state file raises\<close>

record guard_world =
  gw_mem :: persistent
  gw_disk :: persistent
  gw_now :: int
  gw_log :: "int list"

type_synonym 'a guarded = "guard_world \<Rightarrow> (guard_error + 'a) \<times> guard_world"

definition save_state :: "guard_env \<Rightarrow> unit guarded" where
  "save_state env w =
     (case gv_save env (gw_mem w) of
        Some e \<Rightarrow> (Inl (Raised e), w)
      | None \<Rightarrow> (Inr (), w\<lparr>gw_disk := gw_mem w\<rparr>))"

definition day_ms :: int where "day_ms = 24 * 60 * 60 * 1000"

definition parsed_requests :: "persistent \<Rightarrow> int \<Rightarrow> int list" where
  "parsed_requests p now =
     filter (\<lambda>t. now - day_ms < t) (List.map_filter date_parse (ps_requests p))"

definition in_window :: "int \<Rightarrow> int \<Rightarrow> int list \<Rightarrow> int list" where
  "in_window now w ts = filter (\<lambda>t. now - w < t) ts"

definition windows :: "limit_config \<Rightarrow> (int \<times> int) list" where
  "windows lim = [(60000, lm_per_minute lim), (3600000, lm_per_hour lim), (day_ms, lm_per_day lim)]"

definition newestRetryAt :: "int list \<Rightarrow> int \<Rightarrow> int option" where
  "newestRetryAt ts w = (if ts = [] then None else Some (Min (set ts) + w + 1))"

definition active :: "stamp option \<Rightarrow> int \<Rightarrow> int option" where
  \<comment> \<open>\<open>s && Date.parse(s) > now\<close>, with the time.\<close>
  "active s now = (case Option.bind s date_parse of Some t \<Rightarrow> if now < t then Some t else None | None \<Rightarrow> None)"

definition exhausted :: "limit_config \<Rightarrow> int \<Rightarrow> int list \<Rightarrow> (int \<times> int) option" where
  "exhausted lim now ts = find (\<lambda>(w, m). m \<le> int (length (in_window now w ts))) (windows lim)"

definition refusal :: "limit_config \<Rightarrow> utext \<Rightarrow> persistent \<Rightarrow> int \<Rightarrow> guard_stop option" where
  \<comment> \<open>The stop \<open>beforeRequest\<close> throws before it touches anything.\<close>
  "refusal lim method p now =
     (case active (ps_cooldown p) now of
        Some t \<Rightarrow> Some \<lparr>gs_code = CooldownActive, gs_method = method, gs_retry_at = Some t\<rparr>
      | None \<Rightarrow>
          (case active (ps_open p) now of
             Some t \<Rightarrow> Some \<lparr>gs_code = CircuitOpen, gs_method = method, gs_retry_at = Some t\<rparr>
           | None \<Rightarrow>
               (case exhausted lim now (parsed_requests p now) of
                  Some (w, m) \<Rightarrow> Some \<lparr>gs_code = RequestBudgetExhausted, gs_method = method,
                    gs_retry_at = newestRetryAt (in_window now w (parsed_requests p now)) w\<rparr>
                | None \<Rightarrow> None)))"

definition issue_time :: "guard_env \<Rightarrow> limit_config \<Rightarrow> persistent \<Rightarrow> int \<Rightarrow> int" where
  \<comment> \<open>The clock after the wait for the minimal interval.\<close>
  "issue_time env lim p now =
     gv_wake env now (case Option.bind (ps_last p) date_parse of
       None \<Rightarrow> 0 | Some t \<Rightarrow> max 0 (t + lm_interval lim - now))"

definition beforeRequest :: "guard_env \<Rightarrow> limit_config \<Rightarrow> utext \<Rightarrow> unit guarded" where
  "beforeRequest env lim method w =
     (let p = gw_mem w; now = gw_now w in
      case refusal lim method p now of
        Some s \<Rightarrow> (Inl (Stop s), w)
      | None \<Rightarrow>
          (let t = issue_time env lim p now in
           save_state env (w\<lparr>gw_now := t,
             gw_mem := p\<lparr>ps_requests := map Iso (parsed_requests p now) @ [Iso t], ps_last := Some (Iso t)\<rparr>\<rparr>)))"

definition record_success :: "guard_env \<Rightarrow> unit guarded" where
  "record_success env w =
     (if ps_failures (gw_mem w) \<noteq> 0 \<or> ps_open (gw_mem w) \<noteq> None
      then save_state env (w\<lparr>gw_mem := (gw_mem w)\<lparr>ps_failures := 0, ps_open := None\<rparr>\<rparr>)
      else (Inr (), w))"

definition date_ok :: "int \<Rightarrow> bool" where
  "date_ok t \<longleftrightarrow> \<bar>t\<bar> \<le> 8640000000000000"

definition flood_reason :: "utext \<Rightarrow> int \<Rightarrow> utext" where
  "flood_reason method seconds =
     js ''Telegram FLOOD_WAIT on '' @ method @ js ''; server wait='' @ show_int seconds @ js ''s.''"

definition record_flood :: "guard_env \<Rightarrow> limit_config \<Rightarrow> utext \<Rightarrow> int \<Rightarrow> unit guarded" where
  "record_flood env lim method seconds w =
     (let t = gw_now w + (seconds + lm_flood_safety lim) * 1000 in
      if \<not> date_ok t then (Inl BadDate, w)
      else
        (case save_state env (w\<lparr>gw_mem := (gw_mem w)\<lparr>ps_cooldown := Some (Iso t),
             ps_cooldown_reason := Some (flood_reason method seconds)\<rparr>\<rparr>) of
           (Inl e, w') \<Rightarrow> (Inl e, w')
         | (Inr _, w') \<Rightarrow>
             (Inl (Stop \<lparr>gs_code = FloodWait, gs_method = method, gs_retry_at = Some t\<rparr>), w')))"

definition retry_delay :: "guard_env \<Rightarrow> limit_config \<Rightarrow> nat \<Rightarrow> int \<Rightarrow> int" where
  "retry_delay env lim attempt now =
     max 1 (gv_jitter env now (min (lm_retry_max lim) (lm_retry_base lim * 2 ^ attempt)))"

definition record_transient :: "guard_env \<Rightarrow> limit_config \<Rightarrow> utext \<Rightarrow> nat \<Rightarrow> unit guarded" where
  "record_transient env lim method attempt w =
     (let p = (gw_mem w)\<lparr>ps_failures := ps_failures (gw_mem w) + 1\<rparr>; t = gw_now w + lm_breaker_cooldown lim * 1000 in
      if lm_breaker_failures lim \<le> ps_failures p then
        (if \<not> date_ok t then (Inl BadDate, w\<lparr>gw_mem := p\<rparr>)
         else
           (case save_state env (w\<lparr>gw_mem := p\<lparr>ps_open := Some (Iso t)\<rparr>\<rparr>) of
              (Inl e, w') \<Rightarrow> (Inl e, w')
            | (Inr _, w') \<Rightarrow>
                (Inl (Stop \<lparr>gs_code = CircuitOpened, gs_method = method, gs_retry_at = Some t\<rparr>), w')))
      else
        (case save_state env (w\<lparr>gw_mem := p\<rparr>) of
           (Inl e, w') \<Rightarrow> (Inl e, w')
         | (Inr _, w') \<Rightarrow>
             if lm_retries lim \<le> int attempt
             then (Inl (Stop \<lparr>gs_code = TransientRetryLimit, gs_method = method, gs_retry_at = None\<rparr>), w')
             else (Inr (), w'\<lparr>gw_now := gv_wake env (gw_now w') (retry_delay env lim attempt (gw_now w'))\<rparr>)))"

definition record_failure ::
  "guard_env \<Rightarrow> limit_config \<Rightarrow> utext \<Rightarrow> nat \<Rightarrow> guard_error \<Rightarrow> unit guarded" where
  \<comment> \<open>The catch clause of \<open>execute\<close>: \<open>Inr\<close> after the delay before the next attempt.\<close>
  "record_failure env lim method attempt e w =
     (case e of
        Raised r \<Rightarrow>
          (case classifyTelegramError r of
             KFlood s \<Rightarrow> record_flood env lim method (or_else s 3600) w
           | KTransient \<Rightarrow> record_transient env lim method attempt w
           | KFatal \<Rightarrow> (Inl (Stop \<lparr>gs_code = TelegramFatal, gs_method = method, gs_retry_at = None\<rparr>), w)
           | KNonRetryable \<Rightarrow>
               (Inl (Stop \<lparr>gs_code = TelegramNonRetryable, gs_method = method, gs_retry_at = None\<rparr>), w))
      | Stop s \<Rightarrow> (Inl (Stop s), w)
      | BadDate \<Rightarrow>
          (Inl (Stop \<lparr>gs_code = TelegramNonRetryable, gs_method = method, gs_retry_at = None\<rparr>), w))"

type_synonym 'a operation = "nat \<Rightarrow> int \<Rightarrow> (guard_error + 'a) \<times> int"
  \<comment> \<open>A request: attempt number and start time to its answer and the time of the answer.\<close>

definition run_operation :: "guard_env \<Rightarrow> 'a operation \<Rightarrow> nat \<Rightarrow> 'a guarded" where
  \<comment> \<open>The try block after \<open>beforeRequest\<close>.\<close>
  "run_operation env op attempt w =
     (case op attempt (gw_now w) of
        (Inl e, t) \<Rightarrow> (Inl e, w\<lparr>gw_log := gw_log w @ [gw_now w], gw_now := t\<rparr>)
      | (Inr x, t) \<Rightarrow>
          (case record_success env (w\<lparr>gw_log := gw_log w @ [gw_now w], gw_now := t\<rparr>) of
             (Inl e, w') \<Rightarrow> (Inl e, w')
           | (Inr _, w') \<Rightarrow> (Inr x, w')))"

lemma save_state_time: "save_state env w = (r, w') \<Longrightarrow> gw_now w' = gw_now w \<and> gw_log w' = gw_log w"
  by (auto simp: save_state_def split: option.splits)

lemma record_failure_retry:
  "record_failure env lim method attempt e w = (Inr u, w') \<Longrightarrow> int attempt < lm_retries lim"
  by (auto simp: record_failure_def record_flood_def record_transient_def Let_def
      split: guard_error.splits error_kind.splits if_splits prod.splits sum.splits)

function guard_execute ::
  "guard_env \<Rightarrow> limit_config \<Rightarrow> utext \<Rightarrow> 'a operation \<Rightarrow> nat \<Rightarrow> 'a guarded" where
  "guard_execute env lim method op attempt w =
     (case beforeRequest env lim method w of
        (Inl e, w1) \<Rightarrow> (Inl e, w1)
      | (Inr _, w1) \<Rightarrow>
          (case run_operation env op attempt w1 of
             (Inr x, w2) \<Rightarrow> (Inr x, w2)
           | (Inl e, w2) \<Rightarrow>
               (case record_failure env lim method attempt e w2 of
                  (Inl e', w3) \<Rightarrow> (Inl e', w3)
                | (Inr _, w3) \<Rightarrow> guard_execute env lim method op (Suc attempt) w3)))"
  by pat_completeness auto
termination
proof (relation "measure (\<lambda>(env, lim, method, op, attempt, w). nat (lm_retries lim - int attempt))", goal_cases)
  case (2 env lim m op attempt w)
  then have "int attempt < lm_retries lim" by (metis record_failure_retry)
  then show ?case by simp
qed simp

declare guard_execute.simps [simp del]

end
