(* ===== verification/GuardProps.thy ===== *)
theory GuardProps
  imports Guard "HOL-Library.Multiset"
begin

text \<open>
  The request guard keeps its budgets over any sequence of requests, waits, state updates and
  restarts, honours flood waits and the circuit breaker, and retries boundedly.
\<close>

section \<open>What the gateway does over time\<close>

definition clock_ok :: "guard_env \<Rightarrow> bool" where
  \<comment> \<open>A sleep lasts at least as long as asked.\<close>
  "clock_ok env \<longleftrightarrow> (\<forall>t ms. 0 \<le> ms \<longrightarrow> t + ms \<le> gv_wake env t ms)"

definition remote_call :: "'a operation \<Rightarrow> bool" where
  \<comment> \<open>A call to Telegram takes time forwards and raises errors of its own only.\<close>
  "remote_call op \<longleftrightarrow> (\<forall>n t. t \<le> snd (op n t) \<and> (\<forall>e. fst (op n t) = Inl e \<longrightarrow> (\<exists>r. e = Raised r)))"

inductive gateway_step :: "'a operation set \<Rightarrow> guard_env \<Rightarrow> limit_config \<Rightarrow> guard_world \<Rightarrow> guard_world \<Rightarrow> bool"
  for ops env lim where
  request: "op \<in> ops \<Longrightarrow> guard_execute env lim method op 0 w = (r, w') \<Longrightarrow> gateway_step ops env lim w w'"
| elapse: "gw_now w \<le> t \<Longrightarrow> gateway_step ops env lim w (w\<lparr>gw_now := t\<rparr>)"
| restart: "gateway_step ops env lim w (w\<lparr>gw_mem := gw_disk w\<rparr>)"
| cursors: "save_state env (w\<lparr>gw_mem := (gw_mem w)\<lparr>ps_cursors := c\<rparr>\<rparr>) = (r, w') \<Longrightarrow> gateway_step ops env lim w w'"

abbreviation "gateway_run ops env lim \<equiv> (gateway_step ops env lim)\<^sup>*\<^sup>*"

section \<open>Frames\<close>

definition same_requests :: "persistent \<Rightarrow> persistent \<Rightarrow> bool" where
  "same_requests p q \<longleftrightarrow> ps_requests p = ps_requests q \<and> ps_last p = ps_last q"

definition frame :: "guard_world \<Rightarrow> guard_world \<Rightarrow> bool" where
  \<comment> \<open>Time passes; both copies of the state keep request times known before; nothing is sent.\<close>
  "frame w w' \<longleftrightarrow> gw_now w \<le> gw_now w' \<and> gw_log w' = gw_log w \<and>
     (\<forall>p \<in> {gw_mem w', gw_disk w'}. \<exists>q \<in> {gw_mem w, gw_disk w}. same_requests p q)"

lemma frame_refl [simp]: "frame w w"
  by (auto simp: frame_def same_requests_def)

lemma frame_trans: "frame w v \<Longrightarrow> frame v u \<Longrightarrow> frame w u"
  unfolding frame_def same_requests_def by (metis (no_types, opaque_lifting) order_trans)

lemma save_frame:
  assumes "save_state env v = (r, v')" "gw_now w \<le> gw_now v" "gw_log v = gw_log w"
    and "same_requests (gw_mem v) (gw_mem w)" "gw_disk v = gw_disk w"
  shows "frame w v'"
  using assms by (auto simp: save_state_def frame_def same_requests_def split: option.splits)

lemma record_success_frame: "record_success env w = (r, w') \<Longrightarrow> frame w w'"
  by (auto simp: record_success_def same_requests_def split: if_splits intro: save_frame)

lemma record_flood_frame: "record_flood env lim m s w = (r, w') \<Longrightarrow> frame w w'"
  by (auto simp: record_flood_def Let_def same_requests_def split: if_splits prod.splits sum.splits
      elim!: save_frame)

lemma frame_mem: "same_requests p (gw_mem w) \<Longrightarrow> frame w (w\<lparr>gw_mem := p\<rparr>)"
  by (auto simp: frame_def same_requests_def)

lemma frame_time: "gw_now w \<le> t \<Longrightarrow> frame w (w\<lparr>gw_now := t\<rparr>)"
  by (auto simp: frame_def same_requests_def)

lemma delay_pos: "1 \<le> retry_delay env lim attempt now"
  by (simp add: retry_delay_def)

lemma record_transient_frame:
  assumes "clock_ok env" "record_transient env lim m attempt w = (r, w')"
  shows "frame w w'"
proof -
  let ?p = "(gw_mem w)\<lparr>ps_failures := ps_failures (gw_mem w) + 1\<rparr>"
  have same: "same_requests ?p (gw_mem w)" "same_requests (?p\<lparr>ps_open := x\<rparr>) (gw_mem w)" for x
    by (simp_all add: same_requests_def)
  have saved: "frame w v" if "save_state env (w\<lparr>gw_mem := q\<rparr>) = (x, v)" "same_requests q (gw_mem w)" for q x v
    using save_frame [OF that(1), of w] that(2) by simp
  have later: "frame v (v\<lparr>gw_now := gv_wake env (gw_now v) (retry_delay env lim attempt (gw_now v))\<rparr>)" for v
    using assms(1) delay_pos [of env lim attempt "gw_now v"]
    by (intro frame_time) (smt (verit, best) clock_ok_def)
  show ?thesis
  proof (cases "lm_breaker_failures lim \<le> ps_failures ?p")
    case True
    with assms(2) show ?thesis
      by (auto simp: record_transient_def Let_def split: if_splits prod.splits sum.splits
          intro: saved same frame_mem)
  next
    case False
    obtain x v where s: "save_state env (w\<lparr>gw_mem := ?p\<rparr>) = (x, v)" by fastforce
    have "frame w v" by (rule saved [OF s same(1)])
    moreover have "w' = v \<or> w' = v\<lparr>gw_now := gv_wake env (gw_now v) (retry_delay env lim attempt (gw_now v))\<rparr>"
      using assms(2) False s by (auto simp: record_transient_def Let_def split: if_splits prod.splits sum.splits)
    ultimately show ?thesis using later frame_trans by blast
  qed
qed

lemma record_failure_frame:
  "clock_ok env \<Longrightarrow> record_failure env lim m attempt e w = (r, w') \<Longrightarrow> frame w w'"
  by (auto simp: record_failure_def split: guard_error.splits error_kind.splits
      dest: record_flood_frame record_transient_frame)

lemma run_operation_frame:
  assumes "remote_call op" "run_operation env op attempt w = (r, w')"
  shows "frame (w\<lparr>gw_log := gw_log w @ [gw_now w]\<rparr>) w'"
proof -
  obtain a t where o: "op attempt (gw_now w) = (a, t)" by fastforce
  let ?v = "w\<lparr>gw_log := gw_log w @ [gw_now w]\<rparr>"
  have "gw_now w \<le> t" using assms(1) o unfolding remote_call_def by (metis snd_conv)
  then have f: "frame ?v (?v\<lparr>gw_now := t\<rparr>)" by (intro frame_time) simp
  show ?thesis
  proof (cases a)
    case (Inl e)
    with assms(2) o f show ?thesis by (auto simp: run_operation_def)
  next
    case (Inr x)
    with assms(2) o have "\<exists>u. record_success env (?v\<lparr>gw_now := t\<rparr>) = (u, w')"
      by (auto simp: run_operation_def split: prod.splits sum.splits)
    with f show ?thesis using record_success_frame frame_trans by blast
  qed
qed

section \<open>The budget\<close>

definition known_requests :: "persistent \<Rightarrow> int list" where
  "known_requests p = List.map_filter date_parse (ps_requests p)"

definition budget_inv :: "limit_config \<Rightarrow> guard_world \<Rightarrow> bool" where
  "budget_inv lim w \<longleftrightarrow>
     (\<forall>t \<in> set (gw_log w). t \<le> gw_now w) \<and>
     (\<forall>p \<in> {gw_mem w, gw_disk w}.
        mset (filter (\<lambda>t. gw_now w - day_ms < t) (gw_log w)) \<subseteq># mset (known_requests p) \<and>
        (\<forall>t \<in> set (gw_log w). \<exists>s. Option.bind (ps_last p) date_parse = Some s \<and> t \<le> s)) \<and>
     (\<forall>(v, m) \<in> set (windows lim). \<forall>T.
        int (length (filter (\<lambda>t. T - v < t \<and> t \<le> T) (gw_log w))) \<le> max 0 m) \<and>
     sorted_wrt (\<lambda>a b. a + lm_interval lim \<le> b) (gw_log w)"

lemma filter_weaker_mset:
  "(\<And>x. P x \<Longrightarrow> Q x) \<Longrightarrow> mset (filter P xs) \<subseteq># mset (filter Q xs)"
  by (induction xs) (auto intro: subset_mset.order_trans)

lemma budget_frame:
  assumes "budget_inv lim w" "frame w w'"
  shows "budget_inv lim w'"
proof -
  from assms(2) have n: "gw_now w \<le> gw_now w'" and l: "gw_log w' = gw_log w"
    and p: "\<forall>p \<in> {gw_mem w', gw_disk w'}. \<exists>q \<in> {gw_mem w, gw_disk w}. same_requests p q"
    by (simp_all add: frame_def)
  have recent: "mset (filter (\<lambda>t. gw_now w' - day_ms < t) (gw_log w)) \<subseteq>#
      mset (filter (\<lambda>t. gw_now w - day_ms < t) (gw_log w))"
    using n by (intro filter_weaker_mset) simp
  show ?thesis unfolding budget_inv_def l
  proof (intro conjI)
    show "\<forall>t \<in> set (gw_log w). t \<le> gw_now w'" using assms(1) n unfolding budget_inv_def by fastforce
    show "\<forall>p \<in> {gw_mem w', gw_disk w'}.
        mset (filter (\<lambda>t. gw_now w' - day_ms < t) (gw_log w)) \<subseteq># mset (known_requests p) \<and>
        (\<forall>t \<in> set (gw_log w). \<exists>s. Option.bind (ps_last p) date_parse = Some s \<and> t \<le> s)"
    proof
      fix r assume "r \<in> {gw_mem w', gw_disk w'}"
      with p obtain q where q: "q \<in> {gw_mem w, gw_disk w}" "same_requests r q" by blast
      from q(1) assms(1) have
        "mset (filter (\<lambda>t. gw_now w - day_ms < t) (gw_log w)) \<subseteq># mset (known_requests q)"
        "\<forall>t \<in> set (gw_log w). \<exists>s. Option.bind (ps_last q) date_parse = Some s \<and> t \<le> s"
        unfolding budget_inv_def by blast+
      with recent q(2) show "mset (filter (\<lambda>t. gw_now w' - day_ms < t) (gw_log w)) \<subseteq># mset (known_requests r) \<and>
          (\<forall>t \<in> set (gw_log w). \<exists>s. Option.bind (ps_last r) date_parse = Some s \<and> t \<le> s)"
        by (auto simp: same_requests_def known_requests_def intro: subset_mset.order_trans)
    qed
  qed (use assms(1) in \<open>simp_all add: budget_inv_def\<close>)
qed

lemma not_exhausted:
  assumes "exhausted lim now ts = None" "(v, m) \<in> set (windows lim)"
  shows "int (length (in_window now v ts)) < m"
  using assms unfolding exhausted_def find_None_iff by fastforce

lemma window_le_day: "(v, m) \<in> set (windows lim) \<Longrightarrow> v \<le> day_ms"
  by (auto simp: windows_def day_ms_def)

lemma map_filter_Iso [simp]: "List.map_filter date_parse (map Iso ts) = ts"
  by (induction ts) (simp_all add: List.map_filter_def)

lemma map_filter_snoc [simp]: "List.map_filter f (xs @ ys) = List.map_filter f xs @ List.map_filter f ys"
  by (simp add: List.map_filter_def)

lemma parsed_known: "parsed_requests p now = filter (\<lambda>t. now - day_ms < t) (known_requests p)"
  by (simp add: parsed_requests_def known_requests_def)

lemma issue_later:
  assumes "clock_ok env"
  shows "now \<le> issue_time env lim p now"
    "Option.bind (ps_last p) date_parse = Some s \<Longrightarrow> s + lm_interval lim \<le> issue_time env lim p now"
proof -
  have "now + ms \<le> gv_wake env now ms" if "0 \<le> ms" for ms
    using assms that by (simp add: clock_ok_def)
  from this [of "case Option.bind (ps_last p) date_parse of None \<Rightarrow> 0 | Some t \<Rightarrow> max 0 (t + lm_interval lim - now)"]
  have w: "now + (case Option.bind (ps_last p) date_parse of None \<Rightarrow> 0 | Some t \<Rightarrow> max 0 (t + lm_interval lim - now))
      \<le> issue_time env lim p now"
    unfolding issue_time_def by (simp split: option.split)
  then show "now \<le> issue_time env lim p now" by (simp split: option.splits)
  assume "Option.bind (ps_last p) date_parse = Some s"
  with w show "s + lm_interval lim \<le> issue_time env lim p now" by simp
qed

definition stamped :: "guard_env \<Rightarrow> limit_config \<Rightarrow> guard_world \<Rightarrow> guard_world" where
  \<comment> \<open>The request time entered in the cached state.\<close>
  "stamped env lim w =
     (let p = gw_mem w; now = gw_now w; t = issue_time env lim p now in
      w\<lparr>gw_now := t, gw_mem := p\<lparr>ps_requests := map Iso (parsed_requests p now) @ [Iso t], ps_last := Some (Iso t)\<rparr>\<rparr>)"

lemma beforeRequest_cases:
  assumes "beforeRequest env lim m w = (r, w')"
  obtains (refused) s where "refusal lim m (gw_mem w) (gw_now w) = Some s" "r = Inl (Stop s)" "w' = w"
  | (admitted) "refusal lim m (gw_mem w) (gw_now w) = None" "save_state env (stamped env lim w) = (r, w')"
  using assms by (auto simp: beforeRequest_def stamped_def Let_def split: option.splits)

lemma stamped_inv:
  assumes "clock_ok env" "budget_inv lim w"
  shows "budget_inv lim (stamped env lim w)"
proof -
  define t where "t = issue_time env lim (gw_mem w) (gw_now w)"
  let ?w = "stamped env lim w"
  have t: "gw_now w \<le> t" unfolding t_def by (rule issue_later [OF assms(1)])
  have fields: "gw_now ?w = t" "gw_log ?w = gw_log w" "gw_disk ?w = gw_disk w"
    "known_requests (gw_mem ?w) = parsed_requests (gw_mem w) (gw_now w) @ [t]"
    "Option.bind (ps_last (gw_mem ?w)) date_parse = Some t"
    by (simp_all add: stamped_def Let_def t_def known_requests_def List.map_filter_def comp_def)
  have mono: "mset (filter (\<lambda>x. t - day_ms < x) (gw_log w)) \<subseteq># mset (filter (\<lambda>x. gw_now w - day_ms < x) (gw_log w))"
    using t by (intro filter_weaker_mset) simp
  have known: "mset (filter (\<lambda>x. gw_now w - day_ms < x) (gw_log w)) \<subseteq># mset (known_requests p)"
    if "p \<in> {gw_mem w, gw_disk w}" for p using assms(2) that by (auto simp: budget_inv_def)
  have "mset (filter (\<lambda>x. gw_now w - day_ms < x) (gw_log w)) \<subseteq># mset (parsed_requests (gw_mem w) (gw_now w))"
    using multiset_filter_mono [OF known [of "gw_mem w"], of "\<lambda>x. gw_now w - day_ms < x"]
    by (simp add: parsed_known filter_filter_mset)
  then have "mset (filter (\<lambda>x. t - day_ms < x) (gw_log w)) \<subseteq># mset (parsed_requests (gw_mem w) (gw_now w) @ [t])"
    using mono by (simp add: subset_mset.add_increasing2 subset_mset.order_trans)
  moreover have "mset (filter (\<lambda>x. t - day_ms < x) (gw_log w)) \<subseteq># mset (known_requests (gw_disk w))"
    using mono known [of "gw_disk w"] by (auto intro: subset_mset.order_trans)
  moreover have "x \<le> t" if "x \<in> set (gw_log w)" for x
    using assms(2) that t unfolding budget_inv_def by fastforce
  moreover have "\<forall>x \<in> set (gw_log w). \<exists>s. Option.bind (ps_last (gw_disk w)) date_parse = Some s \<and> x \<le> s"
    using assms(2) unfolding budget_inv_def by blast
  moreover have "\<forall>(v, m) \<in> set (windows lim). \<forall>T.
        int (length (filter (\<lambda>t. T - v < t \<and> t \<le> T) (gw_log w))) \<le> max 0 m"
    "sorted_wrt (\<lambda>a b. a + lm_interval lim \<le> b) (gw_log w)"
    using assms(2) by (simp_all add: budget_inv_def)
  ultimately show ?thesis unfolding budget_inv_def using fields by simp
qed


lemma in_window_known:
  assumes "budget_inv lim w" "v \<le> day_ms" "gw_now w \<le> T"
  shows "length (filter (\<lambda>x. T - v < x \<and> x \<le> T) (gw_log w)) \<le>
    length (in_window (gw_now w) v (parsed_requests (gw_mem w) (gw_now w)))"
proof -
  let ?n = "gw_now w"
  have known: "mset (filter (\<lambda>x. ?n - day_ms < x) (gw_log w)) \<subseteq># mset (known_requests (gw_mem w))"
    using assms(1) by (simp add: budget_inv_def)
  have a: "mset (filter (\<lambda>x. T - v < x \<and> x \<le> T) (gw_log w)) \<subseteq># mset (filter (\<lambda>x. ?n - v < x) (gw_log w))"
    using assms(3) by (intro filter_weaker_mset) simp
  have b: "mset (filter (\<lambda>x. ?n - v < x) (gw_log w)) =
      filter_mset (\<lambda>x. ?n - v < x) (mset (filter (\<lambda>x. ?n - day_ms < x) (gw_log w)))"
    using assms(2) by (simp add: filter_filter_mset) (rule filter_mset_cong, auto)
  have c: "filter_mset (\<lambda>x. ?n - v < x) (mset (filter (\<lambda>x. ?n - day_ms < x) (gw_log w))) \<subseteq># filter_mset (\<lambda>x. ?n - v < x) (mset (known_requests (gw_mem w)))"
    by (rule multiset_filter_mono [OF known])
  have d: "filter_mset (\<lambda>x. ?n - v < x) (mset (known_requests (gw_mem w))) = mset (in_window ?n v (parsed_requests (gw_mem w) ?n))"
    using assms(2) unfolding in_window_def parsed_known
    by (simp add: filter_filter_mset) (rule filter_mset_cong, auto)
  from subset_mset.order_trans [OF a [unfolded b] c] have "mset (filter (\<lambda>x. T - v < x \<and> x \<le> T) (gw_log w)) \<subseteq>#
      mset (in_window ?n v (parsed_requests (gw_mem w) ?n))" unfolding d .
  from size_mset_mono [OF this] show ?thesis unfolding size_mset .
qed

lemma sent_inv:
  assumes "clock_ok env" "budget_inv lim w" "beforeRequest env lim m w = (Inr u, w')"
  shows "budget_inv lim (w'\<lparr>gw_log := gw_log w' @ [gw_now w']\<rparr>)"
proof -
  define t where "t = issue_time env lim (gw_mem w) (gw_now w)"
  from assms(3) have ref: "refusal lim m (gw_mem w) (gw_now w) = None"
    and sv: "save_state env (stamped env lim w) = (Inr u, w')"
    by (cases rule: beforeRequest_cases; simp)+
  then have w': "w' = (stamped env lim w)\<lparr>gw_disk := gw_mem (stamped env lim w)\<rparr>"
    by (simp add: save_state_def split: option.splits)
  have t: "gw_now w \<le> t" unfolding t_def by (rule issue_later [OF assms(1)])
  have fields: "gw_now w' = t" "gw_log w' = gw_log w" "gw_disk w' = gw_mem w'"
    "known_requests (gw_mem w') = parsed_requests (gw_mem w) (gw_now w) @ [t]"
    "Option.bind (ps_last (gw_mem w')) date_parse = Some t"
    by (simp_all add: w' stamped_def Let_def t_def known_requests_def List.map_filter_def comp_def)
  have old: "x \<le> gw_now w" if "x \<in> set (gw_log w)" for x
    using assms(2) that unfolding budget_inv_def by blast
  have spaced: "x + lm_interval lim \<le> t" if x: "x \<in> set (gw_log w)" for x
  proof -
    from assms(2) x obtain s where s: "Option.bind (ps_last (gw_mem w)) date_parse = Some s" "x \<le> s"
      unfolding budget_inv_def by blast
    from issue_later(2) [OF assms(1) s(1), of lim "gw_now w"] s(2) show ?thesis unfolding t_def by linarith
  qed
  have none: "exhausted lim (gw_now w) (parsed_requests (gw_mem w) (gw_now w)) = None"
    using ref by (auto simp: refusal_def split: option.splits)
  have windows: "int (length (filter (\<lambda>x. T - v < x \<and> x \<le> T) (gw_log w @ [t]))) \<le> max 0 m"
    if vm: "(v, m) \<in> set (windows lim)" for v m T
  proof (cases "T - v < t \<and> t \<le> T")
    case True
    with in_window_known [OF assms(2) window_le_day [OF vm], of T] t not_exhausted [OF none vm]
    show ?thesis by simp
  next
    case False
    then have "filter (\<lambda>x. T - v < x \<and> x \<le> T) (gw_log w @ [t]) = filter (\<lambda>x. T - v < x \<and> x \<le> T) (gw_log w)"
      by simp
    moreover have "int (length (filter (\<lambda>x. T - v < x \<and> x \<le> T) (gw_log w))) \<le> max 0 m"
      using assms(2) vm unfolding budget_inv_def by blast
    ultimately show ?thesis by (simp only:)
  qed
  have "mset (filter (\<lambda>x. gw_now w - day_ms < x) (gw_log w)) \<subseteq># mset (known_requests (gw_mem w))"
    using assms(2) by (simp add: budget_inv_def)
  from multiset_filter_mono [OF this, of "\<lambda>x. gw_now w - day_ms < x"]
  have "mset (filter (\<lambda>x. gw_now w - day_ms < x) (gw_log w)) \<subseteq># mset (parsed_requests (gw_mem w) (gw_now w))"
    by (simp add: parsed_known filter_filter_mset)
  moreover have "mset (filter (\<lambda>x. t - day_ms < x) (gw_log w)) \<subseteq># mset (filter (\<lambda>x. gw_now w - day_ms < x) (gw_log w))"
    using t by (intro filter_weaker_mset) simp
  ultimately have "mset (filter (\<lambda>x. t - day_ms < x) (gw_log w)) \<subseteq># mset (parsed_requests (gw_mem w) (gw_now w))"
    by (metis subset_mset.order_trans)
  then have recent: "mset (filter (\<lambda>x. t - day_ms < x) (gw_log w @ [t])) \<subseteq># mset (known_requests (gw_mem w'))"
    by (simp add: fields day_ms_def)
  have "sorted_wrt (\<lambda>a b. a + lm_interval lim \<le> b) (gw_log w)" using assms(2) by (simp add: budget_inv_def)
  then have "sorted_wrt (\<lambda>a b. a + lm_interval lim \<le> b) (gw_log w @ [t])" using spaced by (simp add: sorted_wrt_append)
  then show ?thesis unfolding budget_inv_def using recent windows old t fields by fastforce
qed

lemma before_inv:
  assumes "clock_ok env" "budget_inv lim w" "beforeRequest env lim m w = (Inl e, w')"
  shows "budget_inv lim w'"
  using assms(3)
proof (cases rule: beforeRequest_cases)
  case admitted
  then have "w' = stamped env lim w" by (simp add: save_state_def split: option.splits)
  with stamped_inv [OF assms(1,2)] show ?thesis by simp
qed (simp add: assms(2))

lemma guard_execute_cases:
  assumes "guard_execute env lim m op n w = (r, w')"
  obtains (blocked) e where "beforeRequest env lim m w = (Inl e, w')" "r = Inl e"
  | (answered) x w1 where "beforeRequest env lim m w = (Inr (), w1)"
      "run_operation env op n w1 = (Inr x, w')" "r = Inr x"
  | (failed) e e' w1 w2 where "beforeRequest env lim m w = (Inr (), w1)"
      "run_operation env op n w1 = (Inl e, w2)" "record_failure env lim m n e w2 = (Inl e', w')" "r = Inl e'"
  | (retried) e w1 w2 w3 where "beforeRequest env lim m w = (Inr (), w1)"
      "run_operation env op n w1 = (Inl e, w2)" "record_failure env lim m n e w2 = (Inr (), w3)"
      "guard_execute env lim m op (Suc n) w3 = (r, w')"
  using assms by (subst (asm) guard_execute.simps) (auto split: prod.splits sum.splits)

lemma guard_execute_rel:
  assumes "\<And>w x v. beforeRequest env lim m w = (x, v) \<Longrightarrow> R w v"
    and "\<And>n w x v. run_operation env op n w = (x, v) \<Longrightarrow> R w v"
    and "\<And>n e w x v. record_failure env lim m n e w = (x, v) \<Longrightarrow> R w v"
    and "\<And>a b c. R a b \<Longrightarrow> R b c \<Longrightarrow> R a c"
  shows "guard_execute env lim m op n w = (r, w') \<Longrightarrow> R w w'"
proof (induction "nat (lm_retries lim - int n)" arbitrary: n w rule: less_induct)
  case less
  from less.prems show ?case
  proof (cases rule: guard_execute_cases)
    case (blocked e)
    then show ?thesis by (intro assms(1))
  next
    case (answered x w1)
    show ?thesis by (rule assms(4) [OF assms(1) [OF answered(1)] assms(2) [OF answered(2)]])
  next
    case (failed e e' w1 w2)
    show ?thesis
      by (rule assms(4) [OF assms(4) [OF assms(1) [OF failed(1)] assms(2) [OF failed(2)]] assms(3) [OF failed(3)]])
  next
    case (retried e w1 w2 w3)
    have "nat (lm_retries lim - int (Suc n)) < nat (lm_retries lim - int n)"
      using record_failure_retry [OF retried(3)] by simp
    then have "R w3 w'" using less.hyps retried(4) by blast
    then show ?thesis
      by (rule assms(4) [OF assms(4) [OF assms(4) [OF assms(1) [OF retried(1)] assms(2) [OF retried(2)]]
            assms(3) [OF retried(3)]]])
  qed
qed

lemma sent_frame_inv:
  assumes "clock_ok env" "remote_call op" "budget_inv lim w" "beforeRequest env lim m w = (Inr (), w1)"
    "run_operation env op n w1 = (x, w2)"
  shows "budget_inv lim w2"
  using budget_frame [OF sent_inv [OF assms(1,3,4)] run_operation_frame [OF assms(2,5)]] .

lemma execute_inv:
  "clock_ok env \<Longrightarrow> remote_call op \<Longrightarrow> budget_inv lim w \<Longrightarrow> guard_execute env lim m op n w = (r, w') \<Longrightarrow>
   budget_inv lim w'"
proof (induction "nat (lm_retries lim - int n)" arbitrary: n w rule: less_induct)
  case less
  from less.prems(4) show ?case
  proof (cases rule: guard_execute_cases)
    case (blocked e)
    then show ?thesis using before_inv less.prems by blast
  next
    case (answered x w1)
    then show ?thesis using sent_frame_inv less.prems by blast
  next
    case (failed e e' w1 w2)
    then show ?thesis using sent_frame_inv record_failure_frame budget_frame less.prems by blast
  next
    case (retried e w1 w2 w3)
    then have "budget_inv lim w3" using sent_frame_inv record_failure_frame budget_frame less.prems by blast
    moreover have "nat (lm_retries lim - int (Suc n)) < nat (lm_retries lim - int n)"
      using record_failure_retry [OF retried(3)] by simp
    ultimately show ?thesis using less.hyps less.prems retried(4) by blast
  qed
qed

lemma step_inv:
  assumes "gateway_step ops env lim w w'" "clock_ok env" "\<forall>op \<in> ops. remote_call op" "budget_inv lim w"
  shows "budget_inv lim w'"
  using assms(1)
proof cases
  case (request op m r)
  then show ?thesis using execute_inv assms by blast
next
  case (elapse t)
  then show ?thesis using budget_frame [OF assms(4) frame_time] by blast
next
  case restart
  have "frame w (w\<lparr>gw_mem := gw_disk w\<rparr>)" by (auto simp: frame_def same_requests_def)
  then show ?thesis using budget_frame assms(4) restart by blast
next
  case (cursors c r)
  have "frame w w'" by (rule save_frame [OF cursors]) (simp_all add: same_requests_def)
  then show ?thesis using budget_frame assms(4) by blast
qed

text \<open>
  C15 The request budget holds over every period, not only at the checks: through any sequence of
  requests, waits, cursor updates and restarts, at most the configured number of requests is sent
  in any minute, any hour and any day, and two requests are at least the minimal interval apart.
\<close>

theorem request_budget_respected:
  assumes "clock_ok env" "\<forall>op \<in> ops. remote_call op" "gw_log w0 = []" "gateway_run ops env lim w0 w"
    and "(v, m) \<in> {(60000, lm_per_minute lim), (3600000, lm_per_hour lim), (86400000, lm_per_day lim)}"
  shows "int (length (filter (\<lambda>t. T - v < t \<and> t \<le> T) (gw_log w))) \<le> max 0 m \<and>
    sorted_wrt (\<lambda>a b. a + lm_interval lim \<le> b) (gw_log w)"
proof -
  have "budget_inv lim w0" using assms(3) by (auto simp: budget_inv_def)
  with assms(4) have "budget_inv lim w"
    by (induction rule: rtranclp_induct) (use step_inv assms(1,2) in blast)+
  moreover have "(v, m) \<in> set (windows lim)" using assms(5) by (auto simp: windows_def day_ms_def)
  ultimately show ?thesis unfolding budget_inv_def by blast
qed

definition demo_limits :: limit_config where
  "demo_limits = \<lparr>lm_dialogs = 100, lm_page = 50, lm_max_pages = 5, lm_max_messages = 100, lm_max_sources = 5,
     lm_lookback_days = 30, lm_per_minute = 20, lm_per_hour = 200, lm_per_day = 1000, lm_interval = 1000,
     lm_retries = 2, lm_retry_base = 500, lm_retry_max = 30000, lm_flood_safety = 30, lm_breaker_failures = 3,
     lm_breaker_cooldown = 900, lm_live_buffer = 100\<rparr>"

definition demo_guard :: guard_env where
  "demo_guard = \<lparr>gv_wake = (\<lambda>t ms. t + ms), gv_jitter = (\<lambda>t cap. cap div 2), gv_save = (\<lambda>_. None)\<rparr>"

definition demo_world :: guard_world where
  "demo_world = \<lparr>gw_mem = createEmptyState, gw_disk = createEmptyState, gw_now = 1000000, gw_log = []\<rparr>"

definition demo_answer :: "nat \<Rightarrow> int \<Rightarrow> (guard_error + unit) \<times> int" where
  "demo_answer n t = (Inr (), t + 5)"

definition demo_flood :: "nat \<Rightarrow> int \<Rightarrow> (guard_error + unit) \<times> int" where
  "demo_flood n t = (Inl (Raised \<lparr>re_code = Some (CodeNum 420), re_error_message = None, re_message = [],
     re_seconds = Some 30\<rparr>), t + 5)"

definition demo_sent :: guard_world where
  "demo_sent = snd (guard_execute demo_guard demo_limits [109] demo_answer 0 demo_world)"

lemma demo_clock: "clock_ok demo_guard"
  by (simp add: clock_ok_def demo_guard_def)

lemma demo_calls: "remote_call demo_answer" "remote_call demo_flood"
  by (simp_all add: remote_call_def demo_answer_def demo_flood_def)

lemma demo_before:
  "beforeRequest demo_guard demo_limits [109] demo_world = (Inr (), demo_world\<lparr>
     gw_mem := createEmptyState\<lparr>ps_requests := [Iso 1000000], ps_last := Some (Iso 1000000)\<rparr>,
     gw_disk := createEmptyState\<lparr>ps_requests := [Iso 1000000], ps_last := Some (Iso 1000000)\<rparr>\<rparr>)"
  by (simp add: beforeRequest_def refusal_def demo_world_def createEmptyState_def active_def exhausted_def
      windows_def in_window_def parsed_requests_def demo_limits_def issue_time_def demo_guard_def save_state_def
      List.map_filter_def Let_def)

lemma demo_sent_log: "gw_log demo_sent = [1000000]"
  unfolding demo_sent_def
  by (subst guard_execute.simps, subst demo_before)
    (simp add: run_operation_def demo_answer_def record_success_def createEmptyState_def demo_world_def)

theorem request_budget_respected_witness:
  "gw_log demo_sent = [1000000] \<and> (\<forall>T. int (length (filter (\<lambda>t. T - 60000 < t \<and> t \<le> T) (gw_log demo_sent))) \<le> 20)"
proof -
  obtain r where "guard_execute demo_guard demo_limits [109] demo_answer 0 demo_world = (r, demo_sent)"
    unfolding demo_sent_def by (metis prod.collapse)
  then have "gateway_run {demo_answer} demo_guard demo_limits demo_world demo_sent"
    by (intro r_into_rtranclp) (rule gateway_step.request, simp)
  from request_budget_respected [OF demo_clock _ _ this, of 60000 20] demo_calls show ?thesis
    by (simp add: demo_sent_log demo_world_def demo_limits_def)
qed

section \<open>Stops\<close>

definition stopped_until :: "int \<Rightarrow> persistent \<Rightarrow> bool" where
  "stopped_until t p \<longleftrightarrow> Option.bind (ps_cooldown p) date_parse = Some t \<or> Option.bind (ps_open p) date_parse = Some t"

lemma stopped_refusal: "stopped_until t p \<Longrightarrow> now < t \<Longrightarrow> \<exists>s. refusal lim m p now = Some s"
  by (auto simp: stopped_until_def refusal_def active_def split: option.splits)

lemma stopped_execute:
  assumes "stopped_until t (gw_mem w)" "gw_now w < t"
  shows "\<exists>e. guard_execute env lim m op n w = (Inl e, w)"
proof -
  obtain s where "refusal lim m (gw_mem w) (gw_now w) = Some s" using stopped_refusal [OF assms] by blast
  then show ?thesis by (subst guard_execute.simps) (simp add: beforeRequest_def Let_def)
qed

lemma before_time:
  assumes "clock_ok env" "beforeRequest env lim m w = (x, v)"
  shows "gw_now w \<le> gw_now v"
  using assms(2)
proof (cases rule: beforeRequest_cases)
  case admitted
  then have "gw_now v = gw_now (stamped env lim w)" using save_state_time by blast
  with issue_later(1) [OF assms(1), of "gw_now w" lim "gw_mem w"] show ?thesis
    by (simp add: stamped_def Let_def)
qed simp

lemma execute_time:
  assumes "clock_ok env" "remote_call op" "guard_execute env lim m op n w = (r, w')"
  shows "gw_now w \<le> gw_now w'"
proof (rule guard_execute_rel [where R = "\<lambda>w v. gw_now w \<le> gw_now v", OF _ _ _ _ assms(3)])
  show "gw_now w \<le> gw_now v" if "run_operation env op n w = (x, v)" for n w v x
    using run_operation_frame [OF assms(2) that] by (simp add: frame_def)
  show "gw_now w \<le> gw_now v" if "record_failure env lim m n e w = (x, v)" for n w v x e
    using record_failure_frame [OF assms(1) that] by (simp add: frame_def)
qed (use before_time [OF assms(1)] in auto)

lemma step_time:
  assumes "gateway_step ops env lim w w'" "clock_ok env" "\<forall>op \<in> ops. remote_call op"
  shows "gw_now w \<le> gw_now w'"
  using assms(1)
proof cases
  case (request op m r)
  then show ?thesis using execute_time assms(2,3) by blast
next
  case (cursors c r)
  then show ?thesis using save_state_time by fastforce
qed simp_all

lemma stopped_step:
  assumes "gateway_step ops env lim w w'" "clock_ok env" "\<forall>op \<in> ops. remote_call op" "gw_now w' < t"
    and "stopped_until t (gw_mem w)" "stopped_until t (gw_disk w)"
  shows "stopped_until t (gw_mem w') \<and> stopped_until t (gw_disk w') \<and> gw_log w' = gw_log w"
  using assms(1)
proof cases
  case (request op m r)
  have "gw_now w < t" using step_time [OF assms(1-3)] assms(4) by simp
  then show ?thesis using stopped_execute [OF assms(5)] request(2) assms(5,6) by (metis snd_conv)
next
  case (cursors c r)
  then show ?thesis using assms(5,6) by (auto simp: save_state_def stopped_until_def split: option.splits)
qed (use assms in auto)

lemma stop_recorded:
  assumes "\<forall>n t. \<forall>s. fst (op n t) \<noteq> Inl (Stop s)" "guard_execute env lim m op n w = (Inl (Stop s), w')"
    and "gs_code s \<in> {FloodWait, CircuitOpened}" "gs_retry_at s = Some t"
  shows "stopped_until t (gw_mem w') \<and> stopped_until t (gw_disk w')"
  using assms(2)
proof (induction "nat (lm_retries lim - int n)" arbitrary: n w rule: less_induct)
  case less
  from less.prems show ?case
  proof (cases rule: guard_execute_cases)
    case (blocked e)
    then show ?thesis using assms(3)
      by (auto simp: beforeRequest_def refusal_def Let_def save_state_def split: option.splits)
  next
    case (failed e e' w1 w2)
    have "e \<noteq> Stop s'" for s'
    proof
      assume "e = Stop s'"
      then have "fst (op n (gw_now w1)) = Inl (Stop s')" using failed(2)
        by (auto simp: run_operation_def record_success_def save_state_def
            split: prod.splits sum.splits if_splits option.splits)
      with assms(1) show False by blast
    qed
    then show ?thesis using failed(3,4) assms(3,4)
      by (auto simp: record_failure_def record_flood_def record_transient_def Let_def save_state_def stopped_until_def
          split: guard_error.splits error_kind.splits if_splits option.splits)
  next
    case (retried e w1 w2 w3)
    have "nat (lm_retries lim - int (Suc n)) < nat (lm_retries lim - int n)"
      using record_failure_retry [OF retried(3)] by simp
    with less.hyps retried(4) show ?thesis by blast
  qed simp
qed

text \<open>
  C16 A flood wait and an open circuit breaker are honoured: once a request ends in one of these
  stops, nothing more is sent before its deadline, whatever is requested meanwhile and however
  often the process restarts.
\<close>

theorem stop_honoured:
  assumes "clock_ok env" "\<forall>op \<in> ops. remote_call op" "op \<in> ops"
    and "guard_execute env lim m op 0 w = (Inl (Stop s), w')" "gs_code s \<in> {FloodWait, CircuitOpened}"
    and "gs_retry_at s = Some t" "gateway_run ops env lim w' v" "gw_now v < t"
  shows "gw_log v = gw_log w'"
proof -
  have "\<forall>n t s. fst (op n t) \<noteq> Inl (Stop s)" using assms(2,3) unfolding remote_call_def by (metis guard_error.distinct(1) sum.inject(1))
  from stop_recorded [OF this assms(4-6)]
  have stop: "stopped_until t (gw_mem w') \<and> stopped_until t (gw_disk w')" .
  have "gw_now v < t \<longrightarrow> stopped_until t (gw_mem v) \<and> stopped_until t (gw_disk v) \<and> gw_log v = gw_log w'"
    using assms(7)
  proof (induction rule: rtranclp_induct)
    case base
    with stop show ?case by simp
  next
    case (step y z)
    then show ?case using stopped_step [OF step(2) assms(1,2)] step_time [OF step(2) assms(1,2)]
      by (metis order_le_less_trans)
  qed
  with assms(8) show ?thesis by blast
qed


definition demo_flooded :: guard_world where
  "demo_flooded = snd (guard_execute demo_guard demo_limits [109] demo_flood 0 demo_world)"

lemma demo_flood_kind:
  "classifyTelegramError \<lparr>re_code = Some (CodeNum 420), re_error_message = None, re_message = [], re_seconds = Some 30\<rparr> =
     KFlood (Some 30)"
proof -
  have "upper (js '' '') = [32]" by (simp add: upper_def js_def)
  moreover have "\<not> str_includes [32] (js ''FROZEN_METHOD_INVALID'')"
    unfolding str_includes_def by (auto simp: js_def dest: set_mono_sublist)
  ultimately show ?thesis
    by (simp add: classifyTelegramError_def Let_def flood_seconds_def rpc_text_def del: js_simps)
qed

definition demo_flood_state :: persistent where
  "demo_flood_state = createEmptyState\<lparr>ps_requests := [Iso 1000000], ps_last := Some (Iso 1000000),
     ps_cooldown := Some (Iso 1060005), ps_cooldown_reason := Some (flood_reason [109] 30)\<rparr>"

lemma demo_flood_eval:
  "guard_execute demo_guard demo_limits [109] demo_flood 0 demo_world =
     (Inl (Stop \<lparr>gs_code = FloodWait, gs_method = [109], gs_retry_at = Some 1060005\<rparr>),
      \<lparr>gw_mem = demo_flood_state, gw_disk = demo_flood_state, gw_now = 1000005, gw_log = [1000000]\<rparr>)"
  by (subst guard_execute.simps, subst demo_before)
    (simp add: run_operation_def demo_flood_def record_failure_def demo_flood_kind record_flood_def
      demo_world_def demo_limits_def Let_def date_ok_def save_state_def demo_guard_def demo_flood_state_def)

lemma demo_flood_run:
  "\<exists>s. guard_execute demo_guard demo_limits [109] demo_flood 0 demo_world = (Inl (Stop s), demo_flooded) \<and>
     gs_code s = FloodWait \<and> gs_retry_at s = Some 1060005 \<and> gw_now demo_flooded = 1000005 \<and> gw_log demo_flooded = [1000000]"
  unfolding demo_flooded_def demo_flood_eval by simp

theorem stop_honoured_witness:
  "gw_log (snd (guard_execute demo_guard demo_limits [109] demo_answer 0 (demo_flooded\<lparr>gw_now := 1060000\<rparr>))) = [1000000]"
proof -
  let ?v = "demo_flooded\<lparr>gw_now := 1060000\<rparr>"
  let ?ops = "{demo_answer, demo_flood}"
  from demo_flood_run obtain s where run: "guard_execute demo_guard demo_limits [109] demo_flood 0 demo_world = (Inl (Stop s), demo_flooded)"
    and s: "gs_code s = FloodWait" "gs_retry_at s = Some 1060005" "gw_now demo_flooded = 1000005" "gw_log demo_flooded = [1000000]"
    by blast
  have "gateway_step ?ops demo_guard demo_limits demo_flooded ?v" using s by (intro gateway_step.elapse) simp
  have "\<forall>op \<in> ?ops. remote_call op" using demo_calls by simp
  from stop_recorded [OF _ run] s demo_calls(2) have "stopped_until 1060005 (gw_mem ?v)"
    by (auto simp: remote_call_def demo_flood_def)
  from stopped_execute [OF this, of demo_guard demo_limits "[109]" demo_answer 0] obtain e where
    e: "guard_execute demo_guard demo_limits [109] demo_answer 0 ?v = (Inl e, ?v)" by auto
  then have "gateway_step ?ops demo_guard demo_limits ?v ?v" by (intro gateway_step.request) auto
  with \<open>gateway_step ?ops demo_guard demo_limits demo_flooded ?v\<close>
  have "gateway_run ?ops demo_guard demo_limits demo_flooded ?v" by simp
  from stop_honoured [OF demo_clock \<open>\<forall>op \<in> ?ops. remote_call op\<close> _ run _ s(2) this] s e show ?thesis by simp
qed

section \<open>Retries\<close>

definition retried_after :: "'a operation \<Rightarrow> guard_env \<Rightarrow> nat \<Rightarrow> int \<Rightarrow> bool" where
  \<comment> \<open>Attempt \<open>n\<close>, sent at \<open>t\<close>, may be followed by another: it failed transiently, or it was
    answered but the state file could not be written for a reason that looks transient.\<close>
  "retried_after op env n t \<longleftrightarrow>
     (\<exists>e. fst (op n t) = Inl (Raised e) \<and> classifyTelegramError e = KTransient) \<or>
     ((\<exists>x. fst (op n t) = Inr x) \<and> (\<exists>p e. gv_save env p = Some e \<and> classifyTelegramError e = KTransient))"

lemma retry_reason:
  assumes "run_operation env op n w = (Inl e, w')" "record_failure env lim m n e w'' = (Inr u, v)"
  shows "retried_after op env n (gw_now w)"
proof -
  from assms(2) obtain r where r: "e = Raised r" "classifyTelegramError r = KTransient"
    by (auto simp: record_failure_def record_flood_def Let_def
        split: guard_error.splits error_kind.splits if_splits prod.splits sum.splits)
  show ?thesis
  proof (cases "fst (op n (gw_now w))")
    case (Inl e')
    then have "e' = e" using assms(1) by (auto simp: run_operation_def split: prod.splits)
    with Inl r show ?thesis by (simp add: retried_after_def)
  next
    case (Inr x)
    then have "\<exists>p. gv_save env p = Some r" using assms(1) r(1)
      by (auto simp: run_operation_def record_success_def save_state_def
          split: prod.splits sum.splits if_splits option.splits)
    with Inr r show ?thesis by (auto simp: retried_after_def)
  qed
qed

lemma execute_attempts:
  assumes "guard_execute env lim m op n w = (r, w')"
  shows "\<exists>ts. gw_log w' = gw_log w @ ts \<and> length ts \<le> nat (lm_retries lim - int n) + 1 \<and>
    (\<forall>i. Suc i < length ts \<longrightarrow> retried_after op env (n + i) (ts ! i)) \<and>
    (\<forall>x. r = Inr x \<longrightarrow> ts \<noteq> [] \<and> fst (op (n + length ts - 1) (last ts)) = Inr x)"
  using assms
proof (induction "nat (lm_retries lim - int n)" arbitrary: n w rule: less_induct)
    case less
    have before: "gw_log v = gw_log w" if "beforeRequest env lim m w = (x, v)" for x v
      using that by (cases rule: beforeRequest_cases) (auto dest: save_state_time simp: stamped_def Let_def)
    have sent: "gw_log v = gw_log w1 @ [gw_now w1] \<and> (\<forall>y. x = Inr y \<longrightarrow> fst (op n (gw_now w1)) = Inr y)"
      if "run_operation env op n w1 = (x, v)" for x v w1
      using that by (auto simp: run_operation_def record_success_def
          split: prod.splits sum.splits if_splits dest: save_state_time)
    have failure: "gw_log v = gw_log w2" if "record_failure env lim m n e w2 = (x, v)" for x v w2 e
      using that by (auto simp: record_failure_def record_flood_def record_transient_def Let_def
          split: guard_error.splits error_kind.splits prod.splits sum.splits if_splits dest!: save_state_time)
    from less.prems show ?case
    proof (cases rule: guard_execute_cases)
      case (blocked e)
      then show ?thesis using before by (intro exI [of _ "[]"]) simp
    next
      case (answered x w1)
      then show ?thesis using before sent [OF answered(2)] by (intro exI [of _ "[gw_now w1]"]) simp
    next
      case (failed e e' w1 w2)
      then show ?thesis using before sent [OF failed(2)] failure by (intro exI [of _ "[gw_now w1]"]) simp
    next
      case (retried e w1 w2 w3)
      have lt: "nat (lm_retries lim - int (Suc n)) < nat (lm_retries lim - int n)"
        using record_failure_retry [OF retried(3)] by simp
      from less.hyps [OF this retried(4)] obtain ts where ts: "gw_log w' = gw_log w3 @ ts"
        "length ts \<le> nat (lm_retries lim - int (Suc n)) + 1"
        "\<forall>i. Suc i < length ts \<longrightarrow> retried_after op env (Suc n + i) (ts ! i)"
        "\<forall>x. r = Inr x \<longrightarrow> ts \<noteq> [] \<and> fst (op (Suc n + length ts - 1) (last ts)) = Inr x" by blast
      have log: "gw_log w' = gw_log w @ gw_now w1 # ts"
        using ts(1) before [OF retried(1)] sent [OF retried(2)] failure [OF retried(3)] by simp
      have "retried_after op env (n + i) ((gw_now w1 # ts) ! i)" if "Suc i < length (gw_now w1 # ts)" for i
        using that ts(3) retry_reason [OF retried(2,3)] by (cases i) auto
      moreover have "\<forall>x. r = Inr x \<longrightarrow> fst (op (n + length (gw_now w1 # ts) - 1) (last (gw_now w1 # ts))) = Inr x"
        using ts(4) by (cases ts) auto
      ultimately show ?thesis using log ts(2) lt by (intro exI [of _ "gw_now w1 # ts"]) auto
    qed
qed

text \<open>
  A request ends after a bounded number of attempts: at most one more than the configured
  retries are sent, every attempt but the last was followed by a transient failure, and an answer
  is the answer of the last attempt.
\<close>

theorem retries_bounded:
  assumes "guard_execute env lim m op 0 w = (r, w')"
  shows "\<exists>ts. gw_log w' = gw_log w @ ts \<and> int (length ts) \<le> max 0 (lm_retries lim) + 1 \<and>
    (\<forall>i. Suc i < length ts \<longrightarrow> retried_after op env i (ts ! i)) \<and>
    (\<forall>x. r = Inr x \<longrightarrow> ts \<noteq> [] \<and> fst (op (length ts - 1) (last ts)) = Inr x)"
  using execute_attempts [OF assms] by force

theorem retries_bounded_witness:
  "\<exists>ts. gw_log demo_sent = ts \<and> int (length ts) \<le> 3"
proof -
  obtain r where "guard_execute demo_guard demo_limits [109] demo_answer 0 demo_world = (r, demo_sent)"
    unfolding demo_sent_def by (metis prod.collapse)
  from retries_bounded [OF this] show ?thesis by (auto simp: demo_world_def demo_limits_def)
qed

end
