(* ===== verification/Config.thy ===== *)
theory Config
  imports Guard Broker
begin

text \<open>
  The configuration of the read-only gateway (\<open>config.ts\<close>): the validation of the parsed
  JSON document, field by field in the order of the code, with the error of the first check that
  fails. \<open>path.resolve\<close> and \<open>path.dirname\<close> are the parameters of \<open>path_env\<close>.
\<close>

section \<open>Field validators\<close>

datatype config_error =
    NotObject utext
  | NotText utext
  | NotIntegerIn utext int int
  | NotExactlyTrue utext
  | SourcesNotArray
  | TooManySources nat int
  | BadPeerId nat
  | WildcardSource
  | BadSourceId nat
  | DuplicateSource nat
  | NotBoolean nat
  | BadSchema
  | BadMode
  | BadPurpose utext
  | RunExceedsPages

type_synonym 'a checked = "config_error + 'a"

definition want_object :: "json option \<Rightarrow> utext \<Rightarrow> json checked" where
  "want_object v label = (case v of Some (JObj kvs) \<Rightarrow> Inr (JObj kvs) | _ \<Rightarrow> Inl (NotObject label))"

definition want_string :: "json option \<Rightarrow> utext \<Rightarrow> utext checked" where
  "want_string v label =
     (case v of Some (JStr s) \<Rightarrow> if trim s = [] then Inl (NotText label) else Inr (trim s)
      | _ \<Rightarrow> Inl (NotText label))"

definition want_integer :: "json option \<Rightarrow> utext \<Rightarrow> int \<Rightarrow> int \<Rightarrow> int checked" where
  \<comment> \<open>An integral number that does not print as an integer is beyond every bound used here.\<close>
  "want_integer v label lo hi =
     (case v of Some (JInt i) \<Rightarrow> if i < lo \<or> hi < i then Inl (NotIntegerIn label lo hi) else Inr i
      | _ \<Rightarrow> Inl (NotIntegerIn label lo hi))"

definition exactTrue :: "json option \<Rightarrow> utext \<Rightarrow> unit checked" where
  "exactTrue v label = (if v = Some (JBool True) then Inr () else Inl (NotExactlyTrue label))"

section \<open>Limits\<close>

definition limit_field :: "json \<Rightarrow> string \<Rightarrow> int \<Rightarrow> int \<Rightarrow> int checked" where
  "limit_field v name lo hi = want_integer (field (Some v) name) (js ''limits.'' @ js name) lo hi"

definition parseLimits :: "json option \<Rightarrow> limit_config checked" where
  "parseLimits raw =
     rbind (want_object raw (js ''limits'')) (\<lambda>v.
     rbind (limit_field v ''dialogDiscoveryLimit'' 1 100) (\<lambda>dialogs.
     rbind (limit_field v ''historyPageSize'' 1 100) (\<lambda>page.
     rbind (limit_field v ''maxPagesPerSourcePerRun'' 1 10) (\<lambda>pages.
     rbind (limit_field v ''maxMessagesPerSourcePerRun'' 1 500) (\<lambda>messages.
     rbind (limit_field v ''maxSources'' 1 20) (\<lambda>max_sources.
     rbind (limit_field v ''lookbackDays'' 1 365) (\<lambda>lookback.
     rbind (limit_field v ''maxRequestsPerMinute'' 1 30) (\<lambda>minute.
     rbind (limit_field v ''maxRequestsPerHour'' 1 500) (\<lambda>hour.
     rbind (limit_field v ''maxRequestsPerRollingDay'' 1 5000) (\<lambda>day.
     rbind (limit_field v ''minRequestIntervalMs'' 1000 60000) (\<lambda>interval.
     rbind (limit_field v ''maxTransientRetries'' 0 3) (\<lambda>retries.
     rbind (limit_field v ''retryBaseMs'' 500 60000) (\<lambda>base.
     rbind (limit_field v ''retryMaxMs'' 1000 300000) (\<lambda>cap.
     rbind (limit_field v ''floodWaitSafetySeconds'' 5 600) (\<lambda>safety.
     rbind (limit_field v ''circuitBreakerFailures'' 1 10) (\<lambda>failures.
     rbind (limit_field v ''circuitBreakerCooldownSeconds'' 60 86400) (\<lambda>cooldown.
     rbind (limit_field v ''liveBufferSize'' 10 10000) (\<lambda>buffer.
       Inr \<lparr>lm_dialogs = dialogs, lm_page = page, lm_max_pages = pages, lm_max_messages = messages,
         lm_max_sources = max_sources, lm_lookback_days = lookback, lm_per_minute = minute, lm_per_hour = hour,
         lm_per_day = day, lm_interval = interval, lm_retries = retries, lm_retry_base = base,
         lm_retry_max = cap, lm_flood_safety = safety, lm_breaker_failures = failures,
         lm_breaker_cooldown = cooldown, lm_live_buffer = buffer\<rparr>))))))))))))))))))"

section \<open>Sources\<close>

record source_config =
  sc_id :: utext
  sc_peer :: utext
  sc_enabled :: bool
  sc_backfill :: int
  sc_text :: bool

definition numeric_peer :: "utext \<Rightarrow> bool" where
  \<comment> \<open>\<open>/^-?\\d+$/\<close>\<close>
  "numeric_peer s = (let r = (case s of c # t \<Rightarrow> if c = 45 then t else s | [] \<Rightarrow> s) in
     r \<noteq> [] \<and> (\<forall>c \<in> set r. is_digit c))"

definition id_char :: "bool \<Rightarrow> nat \<Rightarrow> bool" where
  "id_char first c \<longleftrightarrow> is_digit c \<or> (97 \<le> c \<and> c \<le> 122) \<or> (65 \<le> c \<and> c \<le> 90) \<or> (\<not> first \<and> c \<in> {45, 46, 95})"

definition source_id_ok :: "utext \<Rightarrow> bool" where
  \<comment> \<open>\<open>/^[a-z0-9][a-z0-9._-]{1,63}$/i\<close>\<close>
  "source_id_ok s = (case s of
     [] \<Rightarrow> False | c # r \<Rightarrow> id_char True c \<and> 1 \<le> length r \<and> length r \<le> 63 \<and> (\<forall>x \<in> set r. id_char False x))"

definition source_label :: "nat \<Rightarrow> string \<Rightarrow> utext" where
  "source_label i name = js ''sources['' @ show_nat i @ js ''].'' @ js name"

definition parse_source ::
  "nat \<Rightarrow> utext set \<Rightarrow> utext set \<Rightarrow> json \<Rightarrow> source_config checked" where
  \<comment> \<open>One entry, with the identifiers and peers of the entries before it.\<close>
  "parse_source i ids peers entry =
     rbind (want_object (Some entry) (js ''sources['' @ show_nat i @ js '']'')) (\<lambda>v.
     rbind (want_string (field (Some v) ''id'') (source_label i ''id'')) (\<lambda>sid.
     rbind (want_string (field (Some v) ''peerId'') (source_label i ''peerId'')) (\<lambda>peer.
       if \<not> numeric_peer peer \<or> peer = js ''0'' then Inl (BadPeerId i)
       else if 42 \<in> set peer \<or> 42 \<in> set sid then Inl WildcardSource
       else if \<not> source_id_ok sid then Inl (BadSourceId i)
       else if sid \<in> ids \<or> peer \<in> peers then Inl (DuplicateSource i)
       else
         (case (field (Some v) ''enabled'', field (Some v) ''includeText'') of
            (Some (JBool enabled), Some (JBool with_text)) \<Rightarrow>
              rbind (want_integer (field (Some v) ''initialBackfillMessages'')
                  (source_label i ''initialBackfillMessages'') 0 100) (\<lambda>backfill.
                Inr \<lparr>sc_id = sid, sc_peer = peer, sc_enabled = enabled, sc_backfill = backfill, sc_text = with_text\<rparr>)
          | _ \<Rightarrow> Inl (NotBoolean i)))))"

fun parse_entries ::
  "nat \<Rightarrow> utext set \<Rightarrow> utext set \<Rightarrow> json list \<Rightarrow> source_config list checked" where
  "parse_entries i ids peers [] = Inr []"
| "parse_entries i ids peers (e # es) =
     rbind (parse_source i ids peers e) (\<lambda>s.
     rbind (parse_entries (Suc i) (insert (sc_id s) ids) (insert (sc_peer s) peers) es) (\<lambda>ss. Inr (s # ss)))"

definition parseSources :: "json option \<Rightarrow> int \<Rightarrow> source_config list checked" where
  "parseSources raw max_sources =
     (case raw of
        Some (JArr es) \<Rightarrow>
          if max_sources < int (length es) then Inl (TooManySources (length es) max_sources)
          else parse_entries 0 {} {} es
      | _ \<Rightarrow> Inl SourcesNotArray)"

section \<open>The document\<close>

record path_env =
  pe_resolve :: "utext \<Rightarrow> utext \<Rightarrow> utext" \<comment> \<open>\<open>path.resolve(base, p)\<close>\<close>
  pe_absolute :: "utext \<Rightarrow> utext" \<comment> \<open>\<open>path.resolve(p)\<close>\<close>
  pe_dirname :: "utext \<Rightarrow> utext"

record app_config =
  ac_purpose :: utext
  ac_api_id_env :: utext
  ac_api_hash_env :: utext
  ac_passphrase_env :: utext
  ac_session_file :: utext
  ac_sources :: "source_config list"
  ac_output :: utext
  ac_export_env :: utext
  ac_retention :: int
  ac_state_file :: utext
  ac_lock_file :: utext
  ac_limits :: limit_config
  ac_path :: utext

definition purposes :: "utext list" where
  "purposes = [js ''personal-archive'', js ''authorized-research'', js ''moderation-export'']"

definition config_head :: "json \<Rightarrow> (utext \<times> json \<times> json \<times> json \<times> limit_config) checked" where
  \<comment> \<open>The checks before the paths: purpose, compliance, account, output and limits.\<close>
  "config_head v =
     ensure (field (Some v) ''schemaVersion'' = Some (JInt 1)) BadSchema
     (ensure (field (Some v) ''mode'' = Some (JStr (js ''read-only''))) BadMode
     (rbind (want_object (field (Some v) ''compliance'') (js ''compliance'')) (\<lambda>compliance.
      rbind (want_string (field (Some compliance) ''purpose'') (js ''compliance.purpose'')) (\<lambda>purpose.
      ensure (purpose \<in> set purposes) (BadPurpose purpose)
     (rbind (want_object (field (Some v) ''account'') (js ''account'')) (\<lambda>account.
      rbind (want_object (field (Some v) ''output'') (js ''output'')) (\<lambda>out.
      rbind (parseLimits (field (Some v) ''limits'')) (\<lambda>limits.
      ensure (lm_max_messages limits \<le> lm_page limits * lm_max_pages limits) RunExceedsPages
        (Inr (purpose, compliance, account, out, limits))))))))))"

definition parseConfig :: "path_env \<Rightarrow> json option \<Rightarrow> utext \<Rightarrow> app_config checked" where
  "parseConfig env raw config_path =
     rbind (want_object raw (js ''config'')) (\<lambda>v.
     rbind (config_head v) (\<lambda>(purpose, compliance, account, out, limits).
       let absolute = pe_absolute env config_path; base = pe_dirname env absolute in
     rbind (exactTrue (field (Some compliance) ''ownOrAuthorizedChatsOnly'') (js ''compliance.ownOrAuthorizedChatsOnly'')) (\<lambda>_.
     rbind (exactTrue (field (Some compliance) ''noAiMlTrainingDevelopmentOrDeployment'')
         (js ''compliance.noAiMlTrainingDevelopmentOrDeployment'')) (\<lambda>_.
     rbind (exactTrue (field (Some compliance) ''acceptedTelegramApiTerms'') (js ''compliance.acceptedTelegramApiTerms'')) (\<lambda>_.
     rbind (want_string (field (Some account) ''apiIdEnv'') (js ''account.apiIdEnv'')) (\<lambda>api_id.
     rbind (want_string (field (Some account) ''apiHashEnv'') (js ''account.apiHashEnv'')) (\<lambda>api_hash.
     rbind (want_string (field (Some account) ''sessionPassphraseEnv'') (js ''account.sessionPassphraseEnv'')) (\<lambda>passphrase.
     rbind (want_string (field (Some account) ''sessionFile'') (js ''account.sessionFile'')) (\<lambda>session.
     rbind (parseSources (field (Some v) ''sources'') (lm_max_sources limits)) (\<lambda>sources.
     rbind (want_string (field (Some out) ''directory'') (js ''output.directory'')) (\<lambda>directory.
     rbind (want_string (field (Some out) ''exportPassphraseEnv'') (js ''output.exportPassphraseEnv'')) (\<lambda>export_env.
     rbind (want_integer (field (Some out) ''retentionDays'') (js ''output.retentionDays'') 1 30) (\<lambda>retention.
     rbind (want_string (field (Some v) ''stateFile'') (js ''stateFile'')) (\<lambda>state_file.
     rbind (want_string (field (Some v) ''lockFile'') (js ''lockFile'')) (\<lambda>lock_file.
       Inr \<lparr>ac_purpose = purpose, ac_api_id_env = api_id, ac_api_hash_env = api_hash,
         ac_passphrase_env = passphrase, ac_session_file = pe_resolve env base session, ac_sources = sources,
         ac_output = pe_resolve env base directory, ac_export_env = export_env, ac_retention = retention,
         ac_state_file = pe_resolve env base state_file, ac_lock_file = pe_resolve env base lock_file,
         ac_limits = limits, ac_path = absolute\<rparr>)))))))))))))))"

section \<open>What an accepted configuration guarantees\<close>

definition limits_valid :: "limit_config \<Rightarrow> bool" where
  "limits_valid l \<longleftrightarrow>
     lm_dialogs l \<in> {1..100} \<and> lm_page l \<in> {1..100} \<and> lm_max_pages l \<in> {1..10} \<and> lm_max_messages l \<in> {1..500} \<and>
     lm_max_sources l \<in> {1..20} \<and> lm_lookback_days l \<in> {1..365} \<and> lm_per_minute l \<in> {1..30} \<and>
     lm_per_hour l \<in> {1..500} \<and> lm_per_day l \<in> {1..5000} \<and> lm_interval l \<in> {1000..60000} \<and>
     lm_retries l \<in> {0..3} \<and> lm_retry_base l \<in> {500..60000} \<and> lm_retry_max l \<in> {1000..300000} \<and>
     lm_flood_safety l \<in> {5..600} \<and> lm_breaker_failures l \<in> {1..10} \<and> lm_breaker_cooldown l \<in> {60..86400} \<and>
     lm_live_buffer l \<in> {10..10000}"

definition source_valid :: "source_config \<Rightarrow> bool" where
  "source_valid s \<longleftrightarrow> source_id_ok (sc_id s) \<and> numeric_peer (sc_peer s) \<and> sc_peer s \<noteq> js ''0'' \<and> sc_backfill s \<in> {0..100}"

lemma limit_field_ok: "limit_field v n lo hi = Inr i \<Longrightarrow> i \<in> {lo..hi}"
  by (auto simp: limit_field_def want_integer_def split: option.splits json.splits if_splits)

lemma parseLimits_valid: "parseLimits raw = Inr l \<Longrightarrow> limits_valid l"
  by (auto simp: parseLimits_def rbind_eq_Inr limits_valid_def dest!: limit_field_ok)

lemma parse_source_ok:
  assumes "parse_source i ids peers e = Inr s"
  shows "source_valid s \<and> sc_id s \<notin> ids \<and> sc_peer s \<notin> peers"
  using assms
  by (auto simp: parse_source_def rbind_eq_Inr source_valid_def want_integer_def
      split: if_splits option.splits json.splits)

lemma parse_entries_ok:
  "parse_entries i ids peers es = Inr ss \<Longrightarrow>
   length ss = length es \<and> (\<forall>s \<in> set ss. source_valid s) \<and> distinct (map sc_id ss) \<and> distinct (map sc_peer ss) \<and>
   sc_id ` set ss \<inter> ids = {} \<and> sc_peer ` set ss \<inter> peers = {}"
proof (induction es arbitrary: i ids peers ss)
  case (Cons e es)
  from Cons.prems obtain s ss' where s: "parse_source i ids peers e = Inr s"
    and r: "parse_entries (Suc i) (insert (sc_id s) ids) (insert (sc_peer s) peers) es = Inr ss'" and ss: "ss = s # ss'"
    by (auto simp: rbind_eq_Inr)
  from Cons.IH [OF r] parse_source_ok [OF s] show ?case unfolding ss by auto
qed simp

lemma parseSources_ok:
  "parseSources raw m = Inr ss \<Longrightarrow> int (length ss) \<le> m \<and> (\<forall>s \<in> set ss. source_valid s) \<and>
   distinct (map sc_id ss) \<and> distinct (map sc_peer ss)"
  by (auto simp: parseSources_def split: option.splits json.splits if_splits dest!: parse_entries_ok)

lemma config_head_ok:
  "config_head v = Inr (purpose, compliance, account, out, l) \<Longrightarrow>
   limits_valid l \<and> lm_max_messages l \<le> lm_page l * lm_max_pages l \<and> purpose \<in> set purposes"
  by (auto simp: config_head_def rbind_eq_Inr ensure_eq_Inr dest: parseLimits_valid)

text \<open>
  A configuration that is accepted is safe to run: every limit is within its documented range,
  a run fits its pages, sources are no more than allowed and have distinct well-formed identifiers
  and distinct numeric peers, the export is kept at most thirty days, and the three compliance
  statements are literally true in the document.
\<close>

theorem accepted_config_valid:
  assumes "parseConfig env raw path = Inr c"
  shows "limits_valid (ac_limits c) \<and> lm_max_messages (ac_limits c) \<le> lm_page (ac_limits c) * lm_max_pages (ac_limits c) \<and>
    int (length (ac_sources c)) \<le> lm_max_sources (ac_limits c) \<and> (\<forall>s \<in> set (ac_sources c). source_valid s) \<and>
    distinct (map sc_id (ac_sources c)) \<and> distinct (map sc_peer (ac_sources c)) \<and> ac_retention c \<in> {1..30} \<and>
    ac_purpose c \<in> set purposes \<and>
    (\<forall>k \<in> {''ownOrAuthorizedChatsOnly'', ''noAiMlTrainingDevelopmentOrDeployment'', ''acceptedTelegramApiTerms''}.
       field (field raw ''compliance'') k = Some (JBool True))"
proof -
  from assms obtain v purpose compliance account out l u1 u2 u3 where
    v: "want_object raw (js ''config'') = Inr v" "config_head v = Inr (purpose, compliance, account, out, l)"
    and t: "exactTrue (field (Some compliance) ''ownOrAuthorizedChatsOnly'') (js ''compliance.ownOrAuthorizedChatsOnly'') = Inr u1"
      "exactTrue (field (Some compliance) ''noAiMlTrainingDevelopmentOrDeployment'')
         (js ''compliance.noAiMlTrainingDevelopmentOrDeployment'') = Inr u2"
      "exactTrue (field (Some compliance) ''acceptedTelegramApiTerms'') (js ''compliance.acceptedTelegramApiTerms'') = Inr u3"
    and s: "parseSources (field (Some v) ''sources'') (lm_max_sources l) = Inr (ac_sources c)"
    and r: "want_integer (field (Some out) ''retentionDays'') (js ''output.retentionDays'') 1 30 = Inr (ac_retention c)"
    and c: "ac_limits c = l" "ac_purpose c = purpose"
    by (auto simp: parseConfig_def rbind_eq_Inr Let_def)
  have raw: "raw = Some v" using v(1) by (auto simp: want_object_def split: option.splits json.splits)
  have comp: "field (Some v) ''compliance'' = Some compliance" using v(2)
    by (auto simp: config_head_def rbind_eq_Inr ensure_eq_Inr want_object_def split: option.splits json.splits)
  have "ac_retention c \<in> {1..30}" using r by (auto simp: want_integer_def split: option.splits json.splits if_splits)
  moreover have "\<forall>k \<in> {''ownOrAuthorizedChatsOnly'', ''noAiMlTrainingDevelopmentOrDeployment'', ''acceptedTelegramApiTerms''}.
       field (field raw ''compliance'') k = Some (JBool True)"
    using t unfolding raw comp exactTrue_def by (auto split: if_splits)
  ultimately show ?thesis using config_head_ok [OF v(2)] parseSources_ok [OF s] c by blast
qed

definition demo_document :: json where
  "demo_document = (let n = (\<lambda>k i. (js k, JInt i)); t = (\<lambda>k s. (js k, JStr (js s))); b = (\<lambda>k v. (js k, JBool v)) in
     JObj [n ''schemaVersion'' 1, t ''mode'' ''read-only'',
       (js ''compliance'', JObj [t ''purpose'' ''personal-archive'', b ''ownOrAuthorizedChatsOnly'' True,
          b ''noAiMlTrainingDevelopmentOrDeployment'' True, b ''acceptedTelegramApiTerms'' True]),
       (js ''account'', JObj [t ''apiIdEnv'' ''ID'', t ''apiHashEnv'' ''HASH'', t ''sessionPassphraseEnv'' ''PASS'',
          t ''sessionFile'' ''s.enc'']),
       (js ''sources'', JArr [JObj [t ''id'' ''main'', t ''peerId'' ''-100123'', b ''enabled'' True, b ''includeText'' True,
          n ''initialBackfillMessages'' 20]]),
       (js ''output'', JObj [t ''directory'' ''out'', t ''exportPassphraseEnv'' ''EXPORT'', n ''retentionDays'' 14]),
       t ''stateFile'' ''state.json'', t ''lockFile'' ''run.lock'',
       (js ''limits'', JObj [n ''dialogDiscoveryLimit'' 100, n ''historyPageSize'' 50, n ''maxPagesPerSourcePerRun'' 5,
          n ''maxMessagesPerSourcePerRun'' 100, n ''maxSources'' 5, n ''lookbackDays'' 30, n ''maxRequestsPerMinute'' 20,
          n ''maxRequestsPerHour'' 200, n ''maxRequestsPerRollingDay'' 1000, n ''minRequestIntervalMs'' 1000,
          n ''maxTransientRetries'' 2, n ''retryBaseMs'' 500, n ''retryMaxMs'' 30000, n ''floodWaitSafetySeconds'' 30,
          n ''circuitBreakerFailures'' 3, n ''circuitBreakerCooldownSeconds'' 900, n ''liveBufferSize'' 100])])"

definition demo_paths :: path_env where
  "demo_paths = \<lparr>pe_resolve = (\<lambda>b p. b @ 47 # p), pe_absolute = (\<lambda>p. 47 # p), pe_dirname = (\<lambda>_. [47])\<rparr>"

lemma demo_fields:
  "field (Some (JObj ((js k, v) # kvs))) k' = (if k = k' then Some v else field (Some (JObj kvs)) k')"
  by (simp add: js_inj del: js_simps)

lemma want_string_js: "trim (js s) = js s \<Longrightarrow> s \<noteq> [] \<Longrightarrow> want_string (Some (JStr (js s))) l = Inr (js s)"
  by (cases s) (simp_all add: want_string_def js_def)

lemma demo_trim: "trim (js ''personal-archive'') = js ''personal-archive''" "trim (js ''ID'') = js ''ID''"
  "trim (js ''HASH'') = js ''HASH''" "trim (js ''PASS'') = js ''PASS''" "trim (js ''s.enc'') = js ''s.enc''"
  "trim (js ''main'') = js ''main''" "trim (js ''-100123'') = js ''-100123''" "trim (js ''out'') = js ''out''"
  "trim (js ''EXPORT'') = js ''EXPORT''" "trim (js ''state.json'') = js ''state.json''"
  "trim (js ''run.lock'') = js ''run.lock''"
  by (simp_all add: js_def trim_def trim_start_def trim_end_def is_space_def)

lemma demo_source: "numeric_peer (js ''-100123'')" "source_id_ok (js ''main'')" "42 \<notin> set (js ''-100123'')" "42 \<notin> set (js ''main'')"
  by (simp_all add: numeric_peer_def source_id_ok_def id_char_def is_digit_def js_def)

lemma demo_config_accepted: "is_ok (parseConfig demo_paths (Some demo_document) (js ''c.json''))"
  unfolding demo_document_def Let_def
  by (simp add: parseConfig_def config_head_def parseLimits_def limit_field_def want_object_def want_integer_def
      parseSources_def parse_source_def exactTrue_def purposes_def demo_fields want_string_js demo_trim demo_source
      js_inj Let_def del: js_simps field.simps)

theorem accepted_config_valid_witness:
  "\<exists>c. parseConfig demo_paths (Some demo_document) (js ''c.json'') = Inr c \<and> lm_flood_safety (ac_limits c) \<in> {5..600}"
proof -
  from demo_config_accepted obtain c where c: "parseConfig demo_paths (Some demo_document) (js ''c.json'') = Inr c"
    by (cases "parseConfig demo_paths (Some demo_document) (js ''c.json'')") auto
  with accepted_config_valid [OF c] show ?thesis unfolding limits_valid_def by blast
qed

end
