(* ===== verification/Ingest.thy ===== *)
theory Ingest
  imports GuardProps Config
begin

text \<open>
  The ingestor of the gateway (\<open>ingestor.ts\<close>) with its output file (\<open>jsonl-sink.ts\<close>):
  messages normalised, batches persisted before the cursor moves, the incremental synchronisation
  page by page, and live messages buffered until the synchronisation is done.

  The Telegram client is the parameter \<open>ie_iterate\<close>: the items one call of
  \<open>iterMessages\<close> yields. Every Telegram call goes through the request guard.
\<close>

section \<open>Messages\<close>

datatype date_value = Seconds int | DateObject "int option" | DateText utext "int option"

record tg_message =
  tm_id :: int
  tm_date :: date_value
  tm_edit :: "date_value option"
  tm_sender :: "utext option" \<comment> \<open>\<open>senderId ?? fromId\<close> as a string\<close>
  tm_text :: "utext option"
  tm_media :: "utext option"
  tm_reply :: "int option"
  tm_grouped :: "utext option"

datatype tg_item = Message tg_message | Service int

record exported_message =
  em_source :: utext
  em_peer :: utext
  em_id :: int
  em_date :: stamp
  em_edit :: "stamp option"
  em_sender :: "utext option"
  em_text :: "utext option"
  em_media :: "utext option"
  em_reply :: "int option"
  em_grouped :: "utext option"

fun toIsoDate :: "date_value \<Rightarrow> guard_error + stamp" where
  "toIsoDate (Seconds n) = (if date_ok (n * 1000) then Inr (Iso (n * 1000)) else Inl BadDate)"
| "toIsoDate (DateObject None) = Inl BadDate"
| "toIsoDate (DateObject (Some t)) = Inr (Iso t)"
| "toIsoDate (DateText s None) = Inr (Iso 0)"
| "toIsoDate (DateText s (Some t)) = Inr (Iso t)"

definition nonempty :: "utext option \<Rightarrow> utext option" where
  \<comment> \<open>\<open>...(x ? { x } : {})\<close>\<close>
  "nonempty x = (if x = Some [] then None else x)"

definition normalize_edit :: "tg_message \<Rightarrow> guard_error + stamp option" where
  "normalize_edit m =
     (case tm_edit m of
        None \<Rightarrow> Inr None
      | Some (Seconds n) \<Rightarrow> if n = 0 then Inr None else rbind (toIsoDate (Seconds n)) (\<lambda>x. Inr (Some x))
      | Some (DateText s t) \<Rightarrow> if s = [] then Inr None else rbind (toIsoDate (DateText s t)) (\<lambda>x. Inr (Some x))
      | Some v \<Rightarrow> rbind (toIsoDate v) (\<lambda>x. Inr (Some x)))"

definition normalizeMessage :: "source_config \<Rightarrow> tg_message \<Rightarrow> guard_error + exported_message" where
  "normalizeMessage src m =
     rbind (normalize_edit m) (\<lambda>edit.
     rbind (toIsoDate (tm_date m)) (\<lambda>date.
       Inr \<lparr>em_source = sc_id src, em_peer = sc_peer src, em_id = tm_id m, em_date = date, em_edit = edit,
         em_sender = nonempty (tm_sender m),
         em_text = (if sc_text src then Some (or_else (tm_text m) []) else None),
         em_media = nonempty (tm_media m), em_reply = tm_reply m, em_grouped = nonempty (tm_grouped m)\<rparr>))"

section \<open>World and output file\<close>

record ingest_env =
  ie_guard :: guard_env
  ie_limits :: limit_config
  ie_append :: "utext \<Rightarrow> exported_message list \<Rightarrow> remote_error option" \<comment> \<open>writing the lines to the file\<close>
  ie_iterate :: "source_config \<Rightarrow> int \<Rightarrow> int \<Rightarrow> bool \<Rightarrow> tg_item list operation"
    \<comment> \<open>\<open>iterMessages\<close> with \<open>limit\<close>, \<open>minId\<close>, \<open>reverse\<close>\<close>

record ingest_world =
  iw_guard :: guard_world
  iw_files :: "utext \<Rightarrow> exported_message list"
  iw_pending :: "remote_error option" \<comment> \<open>the rejection of the append queue, which never recovers\<close>

type_synonym 'a ingest_action = "ingest_world \<Rightarrow> (guard_error + 'a) \<times> ingest_world"

definition plain_error :: "utext \<Rightarrow> remote_error" where
  "plain_error m = \<lparr>re_code = None, re_error_message = None, re_message = m, re_seconds = None\<rparr>"

definition sink_append :: "ingest_env \<Rightarrow> exported_message list \<Rightarrow> unit ingest_action" where
  "sink_append env ms w =
     (case ms of
        [] \<Rightarrow> (Inr (), w)
      | m # _ \<Rightarrow>
          if em_source m = [] \<or> (\<exists>x \<in> set ms. em_source x \<noteq> em_source m)
          then (Inl (Raised (plain_error (js ''A JSONL append batch must contain exactly one source.''))), w)
          else
            (case iw_pending w of
               Some e \<Rightarrow> (Inl (Raised e), w)
             | None \<Rightarrow>
                 (case ie_append env (em_source m) ms of
                    Some e \<Rightarrow> (Inl (Raised e), w\<lparr>iw_pending := Some e\<rparr>)
                  | None \<Rightarrow> (Inr (), w\<lparr>iw_files := (iw_files w)(em_source m := iw_files w (em_source m) @ ms)\<rparr>))))"

definition sink_flush :: "unit ingest_action" where
  "sink_flush w = (case iw_pending w of Some e \<Rightarrow> (Inl (Raised e), w) | None \<Rightarrow> (Inr (), w))"

definition messages_of :: "tg_item list \<Rightarrow> tg_message list" where
  "messages_of xs = List.map_filter (\<lambda>i. case i of Message m \<Rightarrow> Some m | Service _ \<Rightarrow> None) xs"

definition collectMessages :: "ingest_env \<Rightarrow> source_config \<Rightarrow> int \<Rightarrow> int \<Rightarrow> bool \<Rightarrow> tg_message list operation" where
  "collectMessages env src limit min_id backwards n t =
     (case ie_iterate env src limit min_id backwards n t of
        (Inl e, t') \<Rightarrow> (Inl e, t')
      | (Inr xs, t') \<Rightarrow> (Inr (messages_of xs), t'))"

definition guarded_collect ::
  "ingest_env \<Rightarrow> source_config \<Rightarrow> string \<Rightarrow> int \<Rightarrow> int \<Rightarrow> bool \<Rightarrow> tg_message list ingest_action" where
  "guarded_collect env src name limit min_id backwards w =
     (case guard_execute (ie_guard env) (ie_limits env) (js ''messages.getHistory.'' @ js name @ js '':'' @ sc_id src)
         (collectMessages env src limit min_id backwards) 0 (iw_guard w) of
        (r, g) \<Rightarrow> (r, w\<lparr>iw_guard := g\<rparr>))"

definition set_cursor :: "ingest_env \<Rightarrow> source_config \<Rightarrow> int \<Rightarrow> unit ingest_action" where
  "set_cursor env src i w =
     (let g = iw_guard w;
          c = \<lparr>cu_last = i, cu_synced = Iso (gw_now g)\<rparr>;
          g1 = g\<lparr>gw_mem := (gw_mem g)\<lparr>ps_cursors := (ps_cursors (gw_mem g))(sc_id src := Some c)\<rparr>\<rparr> in
      case save_state (ie_guard env) g1 of (r, g2) \<Rightarrow> (r, w\<lparr>iw_guard := g2\<rparr>))"

definition cursor_of :: "ingest_world \<Rightarrow> source_config \<Rightarrow> int" where
  "cursor_of w src = (case ps_cursors (gw_mem (iw_guard w)) (sc_id src) of None \<Rightarrow> 0 | Some c \<Rightarrow> cu_last c)"

section \<open>Batches and pages\<close>

definition cutoff :: "ingest_env \<Rightarrow> int \<Rightarrow> int" where
  "cutoff env now = now - lm_lookback_days (ie_limits env) * 24 * 60 * 60 * 1000"

fun exportable :: "int \<Rightarrow> tg_message list \<Rightarrow> guard_error + tg_message list" where
  "exportable since [] = Inr []"
| "exportable since (m # ms) =
     rbind (toIsoDate (tm_date m)) (\<lambda>s.
     rbind (exportable since ms) (\<lambda>r.
       Inr (if (case date_parse s of None \<Rightarrow> False | Some t \<Rightarrow> since \<le> t) then m # r else r)))"

definition persistBatch :: "ingest_env \<Rightarrow> source_config \<Rightarrow> tg_message list \<Rightarrow> nat ingest_action" where
  "persistBatch env src ms w =
     (if ms = [] then (Inr 0, w)
      else
        (let ordered = sort_key tm_id ms in
         case rbind (exportable (cutoff env (gw_now (iw_guard w))) ordered) (rmap (normalizeMessage src)) of
           Inl e \<Rightarrow> (Inl e, w)
         | Inr es \<Rightarrow>
             (case sink_append env es w of
                (Inl e, w1) \<Rightarrow> (Inl e, w1)
              | (Inr _, w1) \<Rightarrow>
                  (case set_cursor env src (Max (set (map tm_id ordered))) w1 of
                     (Inl e, w2) \<Rightarrow> (Inl e, w2)
                   | (Inr _, w2) \<Rightarrow> (Inr (length ordered), w2)))))"

definition initialSync :: "ingest_env \<Rightarrow> source_config \<Rightarrow> nat ingest_action" where
  "initialSync env src w =
     (case guarded_collect env src ''initial'' (max 1 (sc_backfill src)) 0 False w of
        (Inl e, w1) \<Rightarrow> (Inl e, w1)
      | (Inr ms, w1) \<Rightarrow>
          if sc_backfill src = 0 \<and> ms \<noteq> [] then
            (case set_cursor env src (Max (set (map tm_id ms))) w1 of
               (Inl e, w2) \<Rightarrow> (Inl e, w2) | (Inr _, w2) \<Rightarrow> (Inr 0, w2))
          else persistBatch env src ms w1)"

fun sync_pages :: "ingest_env \<Rightarrow> source_config \<Rightarrow> nat \<Rightarrow> int \<Rightarrow> nat \<Rightarrow> nat ingest_action" where
  \<comment> \<open>The loop of \<open>syncSource\<close>: pages left, cursor, total.\<close>
  "sync_pages env src 0 cursor total_so_far w = (Inr total_so_far, w)"
| "sync_pages env src (Suc pages) cursor total_so_far w =
     (let remaining = lm_max_messages (ie_limits env) - int total_so_far;
          limit = min (lm_page (ie_limits env)) remaining in
      if remaining \<le> 0 then (Inr total_so_far, w)
      else
        (case guarded_collect env src ''incremental'' limit cursor True w of
           (Inl e, w1) \<Rightarrow> (Inl e, w1)
         | (Inr ms, w1) \<Rightarrow>
             if ms = [] then (Inr total_so_far, w1)
             else
               (case persistBatch env src ms w1 of
                  (Inl e, w2) \<Rightarrow> (Inl e, w2)
                | (Inr n, w2) \<Rightarrow>
                    if int (length ms) < limit then (Inr (total_so_far + n), w2)
                    else sync_pages env src pages (max cursor (Max (set (map tm_id ms)))) (total_so_far + n) w2)))"

definition syncSource :: "ingest_env \<Rightarrow> source_config \<Rightarrow> nat ingest_action" where
  "syncSource env src w =
     (if cursor_of w src = 0 then initialSync env src w
      else sync_pages env src (nat (lm_max_pages (ie_limits env))) (cursor_of w src) 0 w)"

fun sync_each :: "ingest_env \<Rightarrow> source_config list \<Rightarrow> (utext \<times> nat) list ingest_action" where
  "sync_each env [] w = (Inr [], w)"
| "sync_each env (s # ss) w =
     (case syncSource env s w of
        (Inl e, w1) \<Rightarrow> (Inl e, w1)
      | (Inr n, w1) \<Rightarrow>
          (case sync_each env ss w1 of
             (Inl e, w2) \<Rightarrow> (Inl e, w2)
           | (Inr r, w2) \<Rightarrow> (Inr ((sc_id s, n) # r), w2)))"

definition syncAll :: "ingest_env \<Rightarrow> source_config list \<Rightarrow> (utext \<times> nat) list ingest_action" where
  "syncAll env ss w =
     (case sync_each env ss w of
        (Inl e, w1) \<Rightarrow> (Inl e, w1)
      | (Inr r, w1) \<Rightarrow> (case sink_flush w1 of (Inl e, w2) \<Rightarrow> (Inl e, w2) | (Inr _, w2) \<Rightarrow> (Inr r, w2)))"

section \<open>Live messages\<close>

definition ingestLiveMessage :: "ingest_env \<Rightarrow> source_config list \<Rightarrow> utext option \<Rightarrow> tg_message \<Rightarrow> unit ingest_action" where
  \<comment> \<open>With the peer of the message (None when it has none).\<close>
  "ingestLiveMessage env ss peer m w =
     (case find (\<lambda>s. Some (sc_peer s) = peer) ss of
        None \<Rightarrow> (Inr (), w)
      | Some src \<Rightarrow>
          if tm_id m \<le> cursor_of w src then (Inr (), w)
          else (case persistBatch env src [m] w of (Inl e, w1) \<Rightarrow> (Inl e, w1) | (Inr _, w1) \<Rightarrow> (Inr (), w1)))"

record watch =
  wt_buffering :: bool
  wt_buffer :: "(utext option \<times> tg_message) list"
  wt_fatal :: "guard_error option"
  wt_broken :: bool \<comment> \<open>the chain of live messages is rejected\<close>

definition overflow_error :: guard_error where
  "overflow_error = Raised (plain_error
     (js ''Live update buffer overflowed; stopping without dropping messages silently.''))"

definition live_event ::
  "ingest_env \<Rightarrow> source_config list \<Rightarrow> utext option \<Rightarrow> tg_message \<Rightarrow> watch \<Rightarrow> ingest_world \<Rightarrow> watch \<times> ingest_world" where
  \<comment> \<open>The event handler of \<open>watch\<close>; after the buffering phase the messages are chained.\<close>
  "live_event env ss peer m st w =
     (if wt_buffering st then
        (if lm_live_buffer (ie_limits env) \<le> int (length (wt_buffer st))
         then (st\<lparr>wt_fatal := Some overflow_error\<rparr>, w)
         else (st\<lparr>wt_buffer := wt_buffer st @ [(peer, m)]\<rparr>, w))
      else
        (if wt_broken st then (st, w)
         else
           (case ingestLiveMessage env ss peer m w of
              (Inl e, w1) \<Rightarrow> (st\<lparr>wt_fatal := Some e, wt_broken := True\<rparr>, w1)
            | (Inr _, w1) \<Rightarrow> (st, w1))))"

fun drain :: "ingest_env \<Rightarrow> source_config list \<Rightarrow> (utext option \<times> tg_message) list \<Rightarrow> unit ingest_action" where
  "drain env ss [] w = (Inr (), w)"
| "drain env ss ((peer, m) # r) w =
     (case ingestLiveMessage env ss peer m w of
        (Inl e, w1) \<Rightarrow> (Inl e, w1)
      | (Inr _, w1) \<Rightarrow> drain env ss r w1)"

end
