(* ===== verification/IngestProps.thy ===== *)
theory IngestProps
  imports Ingest
begin

text \<open>
  What a synchronisation exports: under the contract of the client's paging, exactly the messages
  between the old and the new cursor, once and in order, save those older than the lookback window.
  The contract also shows a page without ordinary messages to stop the synchronisation for good.
\<close>

section \<open>The client's contract\<close>

fun item_id :: "tg_item \<Rightarrow> int" where
  "item_id (Message m) = tm_id m"
| "item_id (Service i) = i"

definition serves_history :: "ingest_env \<Rightarrow> source_config \<Rightarrow> tg_item list \<Rightarrow> bool" where
  \<comment> \<open>A chat's items in the order of their identifiers; a page from \<open>minId\<close> upwards holds the
    first \<open>limit\<close> items above it.\<close>
  "serves_history env src hist \<longleftrightarrow> sorted_wrt (<) (map item_id hist) \<and>
     (\<forall>limit min_id n t xs. fst (ie_iterate env src limit min_id True n t) = Inr xs \<longrightarrow>
        xs = take (nat limit) (filter (\<lambda>x. min_id < item_id x) hist)) \<and>
     (\<forall>limit min_id. remote_call (ie_iterate env src limit min_id True))"

definition id_range :: "int \<Rightarrow> int \<Rightarrow> tg_message list \<Rightarrow> tg_message list" where
  "id_range a b ms = filter (\<lambda>m. a < tm_id m \<and> tm_id m \<le> b) ms"

lemma messages_of_simps [simp]:
  "messages_of [] = []" "messages_of (Message m # xs) = m # messages_of xs" "messages_of (Service i # xs) = messages_of xs"
  "messages_of (xs @ ys) = messages_of xs @ messages_of ys"
  by (simp_all add: messages_of_def List.map_filter_def)

lemma messages_of_filter: "messages_of (filter (\<lambda>x. P (item_id x)) xs) = filter (\<lambda>m. P (tm_id m)) (messages_of xs)"
proof (induction xs)
  case (Cons x xs)
  then show ?case by (cases x) simp_all
qed simp

lemma messages_of_ids: "m \<in> set (messages_of xs) \<Longrightarrow> tm_id m \<in> item_id ` set xs"
proof (induction xs)
  case (Cons x xs)
  then show ?case by (cases x) auto
qed simp

lemma messages_of_length: "length (messages_of xs) \<le> length xs"
proof (induction xs)
  case (Cons x xs)
  then show ?case by (cases x) auto
qed simp

lemma messages_of_sorted: "sorted_wrt (<) (map item_id xs) \<Longrightarrow> sorted_wrt (<) (map tm_id (messages_of xs))"
proof (induction xs)
  case (Cons x xs)
  then show ?case by (cases x) (use messages_of_ids in fastforce)+
qed simp

lemma sorted_key_id: "sorted_wrt (<) (map f xs) \<Longrightarrow> sort_key f xs = xs" for f :: "'a \<Rightarrow> int"
  using sort_key_id_if_sorted strict_sorted_imp_sorted by blast

lemma page_range:
  assumes "sorted_wrt (<) (map item_id hist)" and ms: "ms = messages_of (take k (filter (\<lambda>x. c < item_id x) hist))"
    and "ms \<noteq> []"
  shows "ms = id_range c (Max (set (map tm_id ms))) (messages_of hist)" "c < Max (set (map tm_id ms))"
    "sorted_wrt (<) (map tm_id ms)" "length ms \<le> k"
proof -
  let ?X = "filter (\<lambda>x. c < item_id x) hist" and ?M = "Max (set (map tm_id ms))"
  have X: "sorted_wrt (<) (map item_id ?X)" using assms(1) by (simp add: sorted_wrt_map sorted_wrt_filter)
  let ?rest = "messages_of (drop k ?X)"
  have split: "messages_of ?X = ms @ ?rest" unfolding ms by (metis append_take_drop_id messages_of_simps(4))
  have "sorted_wrt (<) (map tm_id (ms @ ?rest))" using messages_of_sorted [OF X] unfolding split .
  then have s: "sorted_wrt (<) (map tm_id ms)" and less: "\<forall>a \<in> set ms. \<forall>b \<in> set ?rest. tm_id a < tm_id b"
    by (auto simp: sorted_wrt_append)
  have Mx: "tm_id m \<le> ?M" if "m \<in> set ms" for m using that by simp
  have "?M \<in> set (map tm_id ms)" using assms(3) by (intro Max_in) auto
  then obtain x where x: "x \<in> set ms" "?M = tm_id x" by auto
  have above: "c < tm_id m" if "m \<in> set ms" for m
    using messages_of_ids [of m "take k ?X"] that ms by (auto dest!: in_set_takeD)
  show "c < ?M" using x above by metis
  show "sorted_wrt (<) (map tm_id ms)" by (rule s)
  show "length ms \<le> k" unfolding ms using messages_of_length [of "take k ?X"] by simp
  have "id_range c ?M (messages_of hist) = filter (\<lambda>m. tm_id m \<le> ?M) (messages_of ?X)"
    unfolding id_range_def messages_of_filter by (simp add: conj_commute)
  also have "\<dots> = filter (\<lambda>m. tm_id m \<le> ?M) ms @ filter (\<lambda>m. tm_id m \<le> ?M) ?rest" unfolding split by simp
  also have "filter (\<lambda>m. tm_id m \<le> ?M) ms = ms" using Mx by (simp add: filter_id_conv)
  also have "filter (\<lambda>m. tm_id m \<le> ?M) ?rest = []" using less x by (fastforce simp: filter_empty_conv)
  finally show "ms = id_range c ?M (messages_of hist)" by simp
qed

lemma id_range_split:
  assumes "sorted_wrt (<) (map tm_id ms)" "a \<le> b" "b \<le> c"
  shows "id_range a c ms = id_range a b ms @ id_range b c ms"
  using assms(1)
proof (induction ms)
  case (Cons m ms)
  show ?case
  proof (cases "tm_id m \<le> b")
    case True
    with Cons assms(2,3) show ?thesis by (auto simp: id_range_def)
  next
    case False
    with Cons.prems have "id_range a b ms = []" by (force simp: id_range_def filter_empty_conv)
    with False Cons assms(2,3) show ?thesis by (auto simp: id_range_def)
  qed
qed (simp add: id_range_def)

section \<open>One page\<close>

definition guard_keeps :: "guard_world \<Rightarrow> guard_world \<Rightarrow> bool" where
  "guard_keeps w v \<longleftrightarrow> ps_cursors (gw_mem v) = ps_cursors (gw_mem w) \<and>
     ps_cursors (gw_disk v) \<in> {ps_cursors (gw_disk w), ps_cursors (gw_mem w)}"

lemma guard_keeps_trans: "guard_keeps a b \<Longrightarrow> guard_keeps b c \<Longrightarrow> guard_keeps a c"
  by (auto simp: guard_keeps_def)

lemma save_keeps:
  "save_state env v = (x, u) \<Longrightarrow> ps_cursors (gw_mem v) = ps_cursors (gw_mem w) \<Longrightarrow> gw_disk v = gw_disk w \<Longrightarrow> guard_keeps w u"
  by (auto simp: save_state_def guard_keeps_def split: option.splits)

lemma guard_keeps_refl [simp]: "guard_keeps w w"
  by (simp add: guard_keeps_def)

lemma record_success_keeps: "record_success env w = (x, v) \<Longrightarrow> guard_keeps w v"
  by (auto simp: record_success_def split: if_splits intro: save_keeps)

lemma record_failure_keeps: "record_failure env lim m n e w = (x, v) \<Longrightarrow> guard_keeps w v"
proof -
  assume r: "record_failure env lim m n e w = (x, v)"
  have saved: "guard_keeps w u" if "save_state env (w\<lparr>gw_mem := p\<rparr>) = (y, u)" "ps_cursors p = ps_cursors (gw_mem w)" for p y u
    by (rule save_keeps [OF that(1)]) (simp_all add: that(2))
  have same: "guard_keeps w (w\<lparr>gw_mem := p\<rparr>)" if "ps_cursors p = ps_cursors (gw_mem w)" for p
    using that by (simp add: guard_keeps_def)
  have later: "guard_keeps w (u\<lparr>gw_now := t\<rparr>)" if "guard_keeps w u" for u t
    using that by (simp add: guard_keeps_def)
  from r show ?thesis
    by (auto simp: record_failure_def record_flood_def record_transient_def Let_def
        split: guard_error.splits error_kind.splits prod.splits sum.splits if_splits
        intro: saved same saved [THEN later])
qed

lemma before_keeps: "beforeRequest env lim m w = (x, v) \<Longrightarrow> guard_keeps w v"
  by (erule beforeRequest_cases) (auto simp: stamped_def Let_def intro: save_keeps)

lemma run_operation_keeps: "run_operation env op n w = (x, v) \<Longrightarrow> guard_keeps w v"
proof -
  assume r: "run_operation env op n w = (x, v)"
  obtain a t where o: "op n (gw_now w) = (a, t)" by fastforce
  let ?u = "w\<lparr>gw_log := gw_log w @ [gw_now w], gw_now := t\<rparr>"
  have u: "guard_keeps w ?u" by (simp add: guard_keeps_def)
  from r o have "v = ?u \<or> (\<exists>y. record_success env ?u = (y, v))"
    by (auto simp: run_operation_def split: prod.splits sum.splits)
  with u show ?thesis using record_success_keeps guard_keeps_trans by blast
qed

lemma execute_keeps: "guard_execute env lim m op n w = (r, w') \<Longrightarrow> guard_keeps w w'"
  by (rule guard_execute_rel [where R = guard_keeps, OF before_keeps run_operation_keeps record_failure_keeps guard_keeps_trans])

lemma collected:
  assumes "guarded_collect env src name limit min_id True w = (Inr ms, w')" "serves_history env src hist"
    and "clock_ok (ie_guard env)"
  shows "ms = messages_of (take (nat limit) (filter (\<lambda>x. min_id < item_id x) hist))"
    "iw_files w' = iw_files w" "iw_pending w' = iw_pending w" "guard_keeps (iw_guard w) (iw_guard w')"
    "gw_now (iw_guard w) \<le> gw_now (iw_guard w')"
proof -
  let ?m = "js ''messages.getHistory.'' @ js name @ js '':'' @ sc_id src"
  let ?op = "collectMessages env src limit min_id True"
  from assms(1) obtain g where g: "guard_execute (ie_guard env) (ie_limits env) ?m ?op 0 (iw_guard w) = (Inr ms, g)"
    and w': "w' = w\<lparr>iw_guard := g\<rparr>"
    by (auto simp: guarded_collect_def split: prod.splits)
  from execute_attempts [OF g] obtain n t where "fst (?op n t) = Inr ms" by blast
  then obtain xs where "fst (ie_iterate env src limit min_id True n t) = Inr xs" "ms = messages_of xs"
    by (auto simp: collectMessages_def split: prod.splits sum.splits)
  with assms(2) show "ms = messages_of (take (nat limit) (filter (\<lambda>x. min_id < item_id x) hist))"
    unfolding serves_history_def by blast
  have "remote_call (ie_iterate env src limit min_id True)" using assms(2) unfolding serves_history_def by blast
  then have "remote_call ?op"
    unfolding remote_call_def collectMessages_def by (auto split: prod.splits sum.splits) (metis fst_conv snd_conv sum.inject(1))+
  from execute_time [OF assms(3) this g] show "gw_now (iw_guard w) \<le> gw_now (iw_guard w')" by (simp add: w')
  show "iw_files w' = iw_files w" "iw_pending w' = iw_pending w" "guard_keeps (iw_guard w) (iw_guard w')"
    using execute_keeps [OF g] by (simp_all add: w')
qed

section \<open>One batch\<close>

definition msg_time :: "tg_message \<Rightarrow> int option" where
  "msg_time m = (case toIsoDate (tm_date m) of Inl _ \<Rightarrow> None | Inr s \<Rightarrow> date_parse s)"

definition newer :: "int \<Rightarrow> tg_message \<Rightarrow> bool" where
  "newer t m \<longleftrightarrow> (case msg_time m of None \<Rightarrow> False | Some x \<Rightarrow> t \<le> x)"

lemma newer_mono: "newer t m \<Longrightarrow> t' \<le> t \<Longrightarrow> newer t' m"
  by (auto simp: newer_def split: option.splits)

lemma exportable_filter: "exportable t ms = Inr r \<Longrightarrow> r = filter (newer t) ms"
proof (induction ms arbitrary: r)
  case (Cons m ms)
  then show ?case by (auto simp: rbind_eq_Inr newer_def msg_time_def split: if_splits option.splits)
qed simp

lemma normalize_source: "normalizeMessage src m = Inr e \<Longrightarrow> em_source e = sc_id src"
  by (auto simp: normalizeMessage_def rbind_eq_Inr)

lemma normalized_sources:
  assumes "rmap (normalizeMessage src) ms = Inr es" "e \<in> set es"
  shows "em_source e = sc_id src"
  using rmap_all [OF assms] normalize_source by blast

lemma sink_append_ok:
  assumes "sink_append env es w = (Inr u, w')" "\<forall>e \<in> set es. em_source e = s"
  shows "iw_files w' = (iw_files w)(s := iw_files w s @ es) \<and> iw_guard w' = iw_guard w"
  using assms by (cases es) (auto simp: sink_append_def split: if_splits option.splits)

lemma set_cursor_ok:
  assumes "set_cursor env src i w = (Inr u, w')"
  shows "cursor_of w' src = i \<and> iw_files w' = iw_files w \<and> gw_now (iw_guard w') = gw_now (iw_guard w) \<and>
    ps_cursors (gw_disk (iw_guard w')) = ps_cursors (gw_mem (iw_guard w'))"
  using assms by (auto simp: set_cursor_def Let_def save_state_def cursor_of_def split: prod.splits option.splits)

lemma persisted:
  assumes "persistBatch env src ms w = (Inr n, w')" "ms \<noteq> []" "sorted_wrt (<) (map tm_id ms)"
  shows "n = length ms \<and> cursor_of w' src = Max (set (map tm_id ms)) \<and> gw_now (iw_guard w') = gw_now (iw_guard w) \<and>
    ps_cursors (gw_disk (iw_guard w')) = ps_cursors (gw_mem (iw_guard w')) \<and>
    (\<exists>es. rmap (normalizeMessage src) (filter (newer (cutoff env (gw_now (iw_guard w)))) ms) = Inr es \<and>
       iw_files w' = (iw_files w)(sc_id src := iw_files w (sc_id src) @ es))"
proof -
  have sorted: "sort_key tm_id ms = ms" by (rule sorted_key_id [OF assms(3)])
  from assms(1,2) obtain sel es w1 u1 where
    sel: "exportable (cutoff env (gw_now (iw_guard w))) ms = Inr sel" "rmap (normalizeMessage src) sel = Inr es"
    and a: "sink_append env es w = (Inr u1, w1)" and c: "set_cursor env src (Max (set (map tm_id ms))) w1 = (Inr (), w')"
    and n: "n = length ms"
    by (auto simp: persistBatch_def Let_def sorted rbind_eq_Inr split: sum.splits prod.splits)
  from sink_append_ok [OF a, of "sc_id src"] normalized_sources [OF sel(2)]
  have "iw_files w1 = (iw_files w)(sc_id src := iw_files w (sc_id src) @ es)" "iw_guard w1 = iw_guard w" by blast+
  with set_cursor_ok [OF c] n exportable_filter [OF sel(1)] sel(2)
  show ?thesis by auto
qed


section \<open>A synchronisation\<close>

definition exported_range ::
  "ingest_env \<Rightarrow> source_config \<Rightarrow> tg_message list \<Rightarrow> ingest_world \<Rightarrow> ingest_world \<Rightarrow> tg_message list \<Rightarrow> bool" where
  \<comment> \<open>The file grows by the normalised messages \<open>sel\<close> of \<open>range\<close>, in their order; none that is
    recent at the end is left out, none that was old at the start is included.\<close>
  "exported_range env src rng w w' sel \<longleftrightarrow>
     (\<exists>es. rmap (normalizeMessage src) sel = Inr es \<and>
        iw_files w' = (iw_files w)(sc_id src := iw_files w (sc_id src) @ es)) \<and>
     subseq sel rng \<and> (\<forall>m \<in> set rng. newer (cutoff env (gw_now (iw_guard w'))) m \<longrightarrow> m \<in> set sel) \<and>
     (\<forall>m \<in> set sel. newer (cutoff env (gw_now (iw_guard w))) m)"

lemma rmap_append: "rmap f xs = Inr ys \<Longrightarrow> rmap f xs' = Inr ys' \<Longrightarrow> rmap f (xs @ xs') = Inr (ys @ ys')"
  by (induction xs arbitrary: ys) (auto simp: rbind_eq_Inr)

lemma cutoff_mono: "t \<le> t' \<Longrightarrow> cutoff env t \<le> cutoff env t'"
  by (simp add: cutoff_def)

lemma exported_append:
  assumes "exported_range env src r1 w v s1" "exported_range env src r2 v u s2"
    and "gw_now (iw_guard w) \<le> gw_now (iw_guard v)" "gw_now (iw_guard v) \<le> gw_now (iw_guard u)"
  shows "exported_range env src (r1 @ r2) w u (s1 @ s2)"
  unfolding exported_range_def
proof (intro conjI ballI impI)
  from assms(1,2) show "\<exists>es. rmap (normalizeMessage src) (s1 @ s2) = Inr es \<and>
      iw_files u = (iw_files w)(sc_id src := iw_files w (sc_id src) @ es)"
    unfolding exported_range_def by (auto intro: rmap_append)
  from assms(1,2) show "subseq (s1 @ s2) (r1 @ r2)" unfolding exported_range_def by (blast intro: list_emb_append_mono)
next
  fix m assume "m \<in> set (r1 @ r2)" "newer (cutoff env (gw_now (iw_guard u))) m"
  then show "m \<in> set (s1 @ s2)"
    using assms(1,2) newer_mono cutoff_mono [OF assms(4)] unfolding exported_range_def by fastforce
next
  fix m assume "m \<in> set (s1 @ s2)"
  then show "newer (cutoff env (gw_now (iw_guard w))) m"
    using assms(1,2) newer_mono cutoff_mono [OF assms(3)] unfolding exported_range_def by fastforce
qed

lemma exported_Nil: "iw_files w' = iw_files w \<Longrightarrow> exported_range env src [] w w' []"
  by (simp add: exported_range_def)

lemma page_exported:
  assumes "guarded_collect env src name limit c True w = (Inr ms, w1)" "persistBatch env src ms w1 = (Inr n, w2)"
    and "ms \<noteq> []" "serves_history env src hist" "clock_ok (ie_guard env)"
  shows "exported_range env src (id_range c (cursor_of w2 src) (messages_of hist)) w w2
      (filter (newer (cutoff env (gw_now (iw_guard w1)))) ms)"
    "n = length (id_range c (cursor_of w2 src) (messages_of hist))" "int n \<le> max 0 limit" "n = length ms"
    "c < cursor_of w2 src" "cursor_of w2 src = Max (set (map tm_id ms))" "gw_now (iw_guard w) \<le> gw_now (iw_guard w2)"
    "ps_cursors (gw_disk (iw_guard w2)) = ps_cursors (gw_mem (iw_guard w2))"
proof -
  note col = collected [OF assms(1,4,5)]
  have hist: "sorted_wrt (<) (map item_id hist)" using assms(4) by (simp add: serves_history_def)
  note page = page_range [OF hist col(1) assms(3)]
  note per = persisted [OF assms(2,3) page(3)]
  have rng: "ms = id_range c (cursor_of w2 src) (messages_of hist)" using page(1) per by simp
  show "n = length (id_range c (cursor_of w2 src) (messages_of hist))" using rng per by simp
  show "int n \<le> max 0 limit" using page(4) per by simp
  show "n = length ms" "cursor_of w2 src = Max (set (map tm_id ms))" "c < cursor_of w2 src"
    "gw_now (iw_guard w) \<le> gw_now (iw_guard w2)" "ps_cursors (gw_disk (iw_guard w2)) = ps_cursors (gw_mem (iw_guard w2))"
    using per page(2) col(5) by simp_all
  let ?sel = "filter (newer (cutoff env (gw_now (iw_guard w1)))) ms"
  from per obtain es where es: "rmap (normalizeMessage src) ?sel = Inr es"
    "iw_files w2 = (iw_files w1)(sc_id src := iw_files w1 (sc_id src) @ es)" by blast
  have t: "gw_now (iw_guard w2) = gw_now (iw_guard w1)" using per by blast
  show "exported_range env src (id_range c (cursor_of w2 src) (messages_of hist)) w w2 ?sel"
    unfolding exported_range_def rng [symmetric]
  proof (intro conjI)
    show "\<exists>es. rmap (normalizeMessage src) ?sel = Inr es \<and> iw_files w2 = (iw_files w)(sc_id src := iw_files w (sc_id src) @ es)"
      using es col(2) by auto
    show "subseq ?sel ms" by simp
    show "\<forall>m \<in> set ?sel. newer (cutoff env (gw_now (iw_guard w))) m"
      using newer_mono cutoff_mono [OF col(5)] by auto
  qed (simp add: t)
qed

lemma pages_exported:
  assumes "serves_history env src hist" "clock_ok (ie_guard env)"
  shows "sync_pages env src k (cursor_of w src) tot w = (Inr n, w') \<Longrightarrow>
    int tot \<le> lm_max_messages (ie_limits env) \<Longrightarrow>
    cursor_of w src \<le> cursor_of w' src \<and> gw_now (iw_guard w) \<le> gw_now (iw_guard w') \<and>
    n = tot + length (id_range (cursor_of w src) (cursor_of w' src) (messages_of hist)) \<and>
    int n \<le> lm_max_messages (ie_limits env) \<and>
    (tot < n \<or> ps_cursors (gw_disk (iw_guard w)) = ps_cursors (gw_mem (iw_guard w)) \<longrightarrow>
       ps_cursors (gw_disk (iw_guard w')) = ps_cursors (gw_mem (iw_guard w'))) \<and>
    (\<exists>sel. exported_range env src (id_range (cursor_of w src) (cursor_of w' src) (messages_of hist)) w w' sel)"
proof (induction k arbitrary: w tot)
  case 0
  then show ?case using exported_Nil [of w w] by (auto simp: id_range_def)
next
  case (Suc k)
  let ?rem = "lm_max_messages (ie_limits env) - int tot" and ?c = "cursor_of w src"
  let ?limit = "min (lm_page (ie_limits env)) ?rem"
  have none: "id_range c c ms = []" for c ms by (simp add: id_range_def filter_empty_conv)
  show ?case
  proof (cases "?rem \<le> 0")
    case True
    with Suc.prems show ?thesis using exported_Nil [of w w] by (auto simp: none)
  next
    case False
    with Suc.prems(1) obtain ms w1 where col: "guarded_collect env src ''incremental'' ?limit ?c True w = (Inr ms, w1)"
      by (auto simp: Let_def split: prod.splits sum.splits)
    note keep = collected [OF col assms]
    have cur: "cursor_of w1 src = ?c" using keep(4) by (simp add: cursor_of_def guard_keeps_def)
    show ?thesis
    proof (cases "ms = []")
      case True
      with Suc.prems False col have n: "n = tot" "w' = w1" by (auto simp: Let_def)
      with Suc.prems(2) keep cur show ?thesis using exported_Nil [of w1 w] by (auto simp: none guard_keeps_def)
    next
      case ms: False
      with Suc.prems(1) False col obtain n1 w2 where per: "persistBatch env src ms w1 = (Inr n1, w2)"
        by (auto simp: Let_def split: prod.splits sum.splits)
      note page = page_exported [OF col per ms assms]
      show ?thesis
      proof (cases "int (length ms) < ?limit")
        case True
        with Suc.prems(1) False col ms per have "n = tot + n1" "w' = w2" by (auto simp: Let_def)
        with page False show ?thesis by auto
      next
        case more: False
        have mx: "max ?c (Max (set (map tm_id ms))) = cursor_of w2 src" using page(5,6) by simp
        from Suc.prems(1) False col ms per more
        have "sync_pages env src k (max ?c (Max (set (map tm_id ms)))) (tot + n1) w2 = (Inr n, w')"
          by (auto simp: Let_def split: if_splits)
        then have rec: "sync_pages env src k (cursor_of w2 src) (tot + n1) w2 = (Inr n, w')" unfolding mx .
        have "int (tot + n1) \<le> lm_max_messages (ie_limits env)" using page(3) False by simp
        note ih = Suc.IH [OF rec this]
        have split: "id_range ?c (cursor_of w' src) (messages_of hist) =
            id_range ?c (cursor_of w2 src) (messages_of hist) @ id_range (cursor_of w2 src) (cursor_of w' src) (messages_of hist)"
          using ih page(5) assms(1) by (intro id_range_split messages_of_sorted) (auto simp: serves_history_def)
        from ih obtain sel where "exported_range env src (id_range (cursor_of w2 src) (cursor_of w' src) (messages_of hist)) w2 w' sel"
          by blast
        from exported_append [OF page(1) this page(7)] ih
        have "\<exists>sel. exported_range env src (id_range ?c (cursor_of w' src) (messages_of hist)) w w' sel"
          unfolding split by blast
        moreover have "0 < n1" using page(4) ms by simp
        ultimately show ?thesis using ih page split by auto
      qed
    qed
  qed
qed



section \<open>A page of service messages\<close>

text \<open>
  C18 The contract also shows a gap: when the page above the cursor holds service messages only,
  the synchronisation returns without moving the cursor, however many ordinary messages follow,
  and since nothing has changed every later synchronisation does the same.
\<close>

theorem sync_stalls_on_service_page:
  assumes "serves_history env src hist" "clock_ok (ie_guard env)" "cursor_of w src \<noteq> 0"
    and "\<forall>x \<in> set (take (nat (min (lm_page (ie_limits env)) (lm_max_messages (ie_limits env))))
           (filter (\<lambda>x. cursor_of w src < item_id x) hist)). \<exists>i. x = Service i"
    and "syncSource env src w = (Inr n, w')"
  shows "n = 0 \<and> cursor_of w' src = cursor_of w src \<and> iw_files w' = iw_files w"
proof -
  have no: "messages_of xs = []" if "\<forall>x \<in> set xs. \<exists>i. x = Service i" for xs
    using that by (induction xs) auto
  let ?limit = "min (lm_page (ie_limits env)) (lm_max_messages (ie_limits env))"
  have pages: "sync_pages env src (nat (lm_max_pages (ie_limits env))) (cursor_of w src) 0 w = (Inr n, w')"
    using assms(3,5) by (simp add: syncSource_def)
  show ?thesis
  proof (cases "nat (lm_max_pages (ie_limits env)) = 0 \<or> lm_max_messages (ie_limits env) \<le> 0")
    case True
    with pages show ?thesis by (cases "nat (lm_max_pages (ie_limits env))") (auto simp: Let_def)
  next
    case False
    then obtain k where k: "nat (lm_max_pages (ie_limits env)) = Suc k" by (cases "nat (lm_max_pages (ie_limits env))") auto
    with pages False obtain ms w1 where col: "guarded_collect env src ''incremental'' ?limit (cursor_of w src) True w = (Inr ms, w1)"
      by (auto simp: Let_def split: prod.splits sum.splits)
    note keep = collected [OF col assms(1,2)]
    have "ms = []" using keep(1) no [OF assms(4)] by simp
    with pages k col False have "n = 0" "w' = w1" by (auto simp: Let_def)
    with keep show ?thesis by (simp add: cursor_of_def guard_keeps_def)
  qed
qed

section \<open>Witnesses\<close>

definition demo_text :: "int \<Rightarrow> tg_message" where
  "demo_text i = \<lparr>tm_id = i, tm_date = Seconds 999, tm_edit = None, tm_sender = None, tm_text = Some [104],
     tm_media = None, tm_reply = None, tm_grouped = None\<rparr>"

definition demo_history :: "bool \<Rightarrow> tg_item list" where
  "demo_history joined = (if joined then [Service 8, Service 9, Message (demo_text 10)]
     else [Message (demo_text 5), Message (demo_text 8), Message (demo_text 9)])"

definition demo_source_config :: source_config where
  "demo_source_config = \<lparr>sc_id = [109], sc_peer = [45, 49], sc_enabled = True, sc_backfill = 1, sc_text = True\<rparr>"

definition demo_gateway :: "bool \<Rightarrow> ingest_env" where
  "demo_gateway joined = \<lparr>ie_guard = demo_guard, ie_limits = demo_limits\<lparr>lm_page := 2\<rparr>, ie_append = (\<lambda>_ _. None),
     ie_iterate = (\<lambda>src limit min_id backwards n t.
       (Inr (take (nat limit) (filter (\<lambda>x. min_id < item_id x) (demo_history joined))), t + 5))\<rparr>"

definition demo_ingest_world :: ingest_world where
  "demo_ingest_world = \<lparr>iw_guard = demo_world\<lparr>gw_mem := createEmptyState\<lparr>ps_cursors :=
       [[109] \<mapsto> \<lparr>cu_last = 7, cu_synced = Iso 0\<rparr>]\<rparr>\<rparr>, iw_files = (\<lambda>_. []), iw_pending = None\<rparr>"

lemma demo_gateway_history: "serves_history (demo_gateway j) demo_source_config (demo_history j)"
  by (auto simp: serves_history_def demo_gateway_def demo_history_def demo_text_def remote_call_def)

lemma demo_gateway_clock: "clock_ok (ie_guard (demo_gateway j))"
  by (simp add: demo_gateway_def demo_clock)

lemma demo_cursor: "cursor_of demo_ingest_world demo_source_config = 7"
  by (simp add: cursor_of_def demo_ingest_world_def demo_source_config_def)

definition demo_synced :: "bool \<Rightarrow> ingest_world" where
  "demo_synced j = snd (syncSource (demo_gateway j) demo_source_config demo_ingest_world)"


lemma demo_run: "fst (syncSource (demo_gateway False) demo_source_config demo_ingest_world) = Inr 2"
  "fst (syncSource (demo_gateway True) demo_source_config demo_ingest_world) = Inr 0"
  "cursor_of (demo_synced False) demo_source_config = 9"
  by code_simp+


theorem sync_stalls_on_service_page_witness:
  "cursor_of (demo_synced True) demo_source_config = 7 \<and> Message (demo_text 10) \<in> set (demo_history True)"
proof -
  have run: "syncSource (demo_gateway True) demo_source_config demo_ingest_world = (Inr 0, demo_synced True)"
    unfolding demo_synced_def using demo_run(2) by (metis prod.collapse)
  from sync_stalls_on_service_page [OF demo_gateway_history demo_gateway_clock _ _ run] show ?thesis
    by (simp add: demo_cursor demo_gateway_def demo_limits_def demo_history_def demo_text_def)
qed

end
