(* ===== verification/JsonShape.thy ===== *)
theory JsonShape
  imports Config
begin

text \<open>
  Checks on untrusted JSON values the gateway and the runner share: objects with exactly the
  expected properties, bounded integers, well-formed UTF-16 and the size of its UTF-8 form, and
  the small character patterns of identifiers. An untrusted object is a JSON value: it has no
  getters, proxies or prototypes.
\<close>

section \<open>Objects\<close>

fun keys_of :: "json \<Rightarrow> utext list option" where
  "keys_of (JObj kvs) = Some (map fst kvs)"
| "keys_of _ = None"

definition exact_keys :: "json \<Rightarrow> string list \<Rightarrow> string list \<Rightarrow> bool" where
  \<comment> \<open>All required properties, and none besides the required and the optional ones.\<close>
  "exact_keys v required opt =
     (case keys_of v of
        None \<Rightarrow> False
      | Some ks \<Rightarrow> (\<forall>k \<in> set required. js k \<in> set ks) \<and> (\<forall>k \<in> set ks. k \<in> js ` set (required @ opt)))"

fun as_text :: "json option \<Rightarrow> utext option" where
  "as_text (Some (JStr s)) = Some s"
| "as_text _ = None"

fun as_int :: "json option \<Rightarrow> int option" where
  "as_int (Some (JInt i)) = Some i"
| "as_int _ = None"

fun as_bool :: "json option \<Rightarrow> bool option" where
  "as_bool (Some (JBool b)) = Some b"
| "as_bool _ = None"

definition max_safe :: int where "max_safe = 9007199254740991"

definition int_in :: "int option \<Rightarrow> int \<Rightarrow> int \<Rightarrow> bool" where
  "int_in i lo hi = (case i of None \<Rightarrow> False | Some x \<Rightarrow> lo \<le> x \<and> x \<le> hi)"

lemma int_in_Some [simp]: "int_in (Some x) lo hi \<longleftrightarrow> lo \<le> x \<and> x \<le> hi" "\<not> int_in None lo hi"
  by (simp_all add: int_in_def)

lemma field_Nil [simp]: "field (Some (JObj [])) k = None"
  by simp

lemma field_Cons: "field (Some (JObj ((js k, v) # kvs))) k' = (if k = k' then Some v else field (Some (JObj kvs)) k')"
  by (simp add: js_inj del: js_simps)

fun stringify :: "json \<Rightarrow> utext" where
  \<comment> \<open>\<open>JSON.stringify\<close>: properties in their order, no white space.\<close>
  "stringify JNull = js ''null''"
| "stringify (JBool b) = (if b then js ''true'' else js ''false'')"
| "stringify (JInt i) = show_int i"
| "stringify (JDec t) = t"
| "stringify JNonFinite = js ''null''"
| "stringify (JStr s) = json_string s"
| "stringify (JArr vs) = 91 # join (map stringify vs) @ [93]"
| "stringify (JObj kvs) = 123 # join (map (\<lambda>(k, v). json_string k @ 58 # stringify v) kvs) @ [125]"

section \<open>Text\<close>

fun point_size :: "utext \<Rightarrow> nat" where
  \<comment> \<open>Bytes of one code point in UTF-8; a lone surrogate is written as U+FFFD.\<close>
  "point_size [c] = (if c < 128 then 1 else if c < 2048 then 2 else 3)"
| "point_size _ = 4"

definition utf8_size :: "utext \<Rightarrow> nat" where
  "utf8_size s = sum_list (map point_size (code_points s))"

definition well_formed :: "utext \<Rightarrow> bool" where
  \<comment> \<open>\<open>Buffer.from(s, "utf8").toString("utf8") === s\<close>: no lone surrogate.\<close>
  "well_formed s \<longleftrightarrow>
     (\<forall>p \<in> set (code_points s). case p of [c] \<Rightarrow> \<not> is_high c \<and> \<not> is_low c | _ \<Rightarrow> True)"

definition hex_digit :: "nat \<Rightarrow> bool" where
  "hex_digit c \<longleftrightarrow> is_digit c \<or> (97 \<le> c \<and> c \<le> 102)"

definition digits_from :: "nat \<Rightarrow> nat \<Rightarrow> utext \<Rightarrow> bool" where
  \<comment> \<open>\<open>/^[1-9]\\d{0,n}$/\<close>, with the lower bound on the first digit a parameter.\<close>
  "digits_from n lo s = (case s of [] \<Rightarrow> False | c # r \<Rightarrow> lo \<le> c \<and> c \<le> 57 \<and> length r \<le> n \<and> (\<forall>d \<in> set r. is_digit d))"

definition positive_number :: "nat \<Rightarrow> utext \<Rightarrow> bool" where
  "positive_number n s = digits_from n 49 s"

definition negative_number :: "nat \<Rightarrow> utext \<Rightarrow> bool" where
  "negative_number n s = (case s of [] \<Rightarrow> False | c # r \<Rightarrow> c = 45 \<and> digits_from n 49 r)"

definition workspace_name :: "utext \<Rightarrow> bool" where
  \<comment> \<open>\<open>/^[a-z][a-z0-9_-]{0,127}$/\<close>\<close>
  "workspace_name s = (case s of [] \<Rightarrow> False
     | c # r \<Rightarrow> 97 \<le> c \<and> c \<le> 122 \<and> length r \<le> 127 \<and> (\<forall>d \<in> set r. (97 \<le> d \<and> d \<le> 122) \<or> is_digit d \<or> d \<in> {95, 45}))"

definition obs_ref :: "utext \<Rightarrow> bool" where
  \<comment> \<open>\<open>/^obs_[0-9a-f]{24}$/\<close>\<close>
  "obs_ref s \<longleftrightarrow> take 4 s = js ''obs_'' \<and> length s = 28 \<and> (\<forall>c \<in> set (drop 4 s). hex_digit c)"

end
