(* ===== verification/AlertOutbox.thy ===== *)
theory AlertOutbox
  imports JsonShape
begin

text \<open>
  The outbox of community alerts (\<open>standing-community-alert-outbox.ts\<close>): an encrypted ledger
  of cases, each reserved before anything is opened, marked \<open>sending\<close> before the last policy
  check, sent at most once, and settled with what is known.

  A delivery is split at the points where the process may stop: \<open>claim_case\<close> up to the
  reservation, \<open>open_lease\<close> up to the \<open>sending\<close> mark, \<open>last_check\<close> up to the wire,
  \<open>send_alert\<close> the one wire call, and \<open>finish_alert\<close> the readback and the settlement;
  \<open>deliver\<close> is their composition. The host's lease, policy, signal and clock are the fields of
  \<open>delivery\<close>. The file is the JSON document it holds; sealing it with the passphrase and the
  identity checks on directories are left out. Reading fails or not; writing succeeds, fails
  without effect, or fails after the file was replaced, as \<open>io\<close> says. The field
  \<open>ao_wire\<close> is the history of wire calls; the code never reads it.
\<close>

section \<open>Types\<close>

datatype outbox_error = OInput | OBinding | OConflict | OCapacity | OStorage | OClosed

record alert_binding =
  ab_workspace :: utext
  ab_account :: utext
  ab_internal :: utext
  ab_source :: utext

record alert_policy =
  ap_revision :: int
  ap_observation :: bool
  ap_alerts :: bool
  ap_source :: utext

datatype case_state = CReserved | CSending | CVerified | CNotSent | CUnknown

datatype alert_reason =
    AVerified | ACancelled | APolicyDisabled | APolicyChanged | APolicyUnavailable | ALeaseUnavailable
  | ALeaseRefused | AInterruptedBefore | AInterruptedAfter | ASendUnknown | AReadbackUnknown
  | ACloseUnknown | APersistenceUnknown

record stored_case =
  sk_key :: utext
  sk_revision :: int
  sk_text :: utext
  sk_hash :: utext
  sk_random :: utext
  sk_reserved :: int
  sk_state :: case_state
  sk_settled :: "int option"
  sk_reason :: "alert_reason option"
  sk_message :: "int option"

record ledger =
  lg_binding :: alert_binding
  lg_generation :: int
  lg_cases :: "stored_case list"

record alert_outcome =
  al_key :: utext
  al_revision :: int
  al_hash :: utext
  al_state :: case_state
  al_reason :: alert_reason
  al_reserved :: int
  al_settled :: int
  al_message :: "int option"

section \<open>Validation\<close>

definition unsafe_unit :: "nat \<Rightarrow> bool" where
  "unsafe_unit c \<longleftrightarrow> c \<le> 8 \<or> c = 11 \<or> c = 12 \<or> (14 \<le> c \<and> c \<le> 31) \<or> (127 \<le> c \<and> c \<le> 159) \<or>
     (8234 \<le> c \<and> c \<le> 8238) \<or> (8294 \<le> c \<and> c \<le> 8297)"

definition alert_text_ok :: "utext \<Rightarrow> bool" where
  "alert_text_ok s \<longleftrightarrow> 1 \<le> length s \<and> length s \<le> 900 \<and> trim s = s \<and> utf8_size s \<le> 4096 \<and> well_formed s \<and>
     (\<forall>c \<in> set s. \<not> unsafe_unit c)"

definition valid_message_id :: "int \<Rightarrow> bool" where
  "valid_message_id i \<longleftrightarrow> 1 \<le> i \<and> i \<le> 2147483647"

definition valid_time :: "int \<Rightarrow> bool" where
  "valid_time t \<longleftrightarrow> 1 \<le> t \<and> t \<le> 253402300799999"

definition valid_revision :: "int \<Rightarrow> bool" where
  "valid_revision i \<longleftrightarrow> 1 \<le> i \<and> i \<le> max_safe"

definition valid_random_id :: "utext \<Rightarrow> bool" where
  "valid_random_id s \<longleftrightarrow> positive_number 18 s \<and> decimal s \<le> 9223372036854775807"

definition binding_ok :: "alert_binding \<Rightarrow> bool" where
  "binding_ok b \<longleftrightarrow> workspace_name (ab_workspace b) \<and> positive_number 18 (ab_account b) \<and>
     negative_number 19 (ab_internal b) \<and> negative_number 19 (ab_source b) \<and> ab_internal b \<noteq> ab_source b"

definition bindingCopy :: "json \<Rightarrow> alert_binding option" where
  "bindingCopy v =
     (if \<not> exact_keys v [''workspaceId'', ''accountId'', ''internalPeerId'', ''observedSourcePeerId''] [] then None
      else
        (case (as_text (field (Some v) ''workspaceId''), as_text (field (Some v) ''accountId''),
               as_text (field (Some v) ''internalPeerId''), as_text (field (Some v) ''observedSourcePeerId'')) of
           (Some w, Some a, Some i, Some s) \<Rightarrow>
             (let b = \<lparr>ab_workspace = w, ab_account = a, ab_internal = i, ab_source = s\<rparr> in
              if binding_ok b then Some b else None)
         | _ \<Rightarrow> None))"

definition policyCopy :: "json \<Rightarrow> alert_policy option" where
  "policyCopy v =
     (if \<not> exact_keys v [''revision'', ''observationEnabled'', ''alertsEnabled'', ''observedSourcePeerId''] [] then None
      else
        (case (as_int (field (Some v) ''revision''), as_bool (field (Some v) ''observationEnabled''),
               as_bool (field (Some v) ''alertsEnabled''), as_text (field (Some v) ''observedSourcePeerId'')) of
           (Some r, Some ob, Some al, Some s) \<Rightarrow>
             if valid_revision r \<and> negative_number 19 s
             then Some \<lparr>ap_revision = r, ap_observation = ob, ap_alerts = al, ap_source = s\<rparr> else None
         | _ \<Rightarrow> None))"

fun state_text :: "case_state \<Rightarrow> string" where
  "state_text CReserved = ''reserved''"
| "state_text CSending = ''sending''"
| "state_text CVerified = ''verified''"
| "state_text CNotSent = ''not-sent''"
| "state_text CUnknown = ''unknown''"

definition case_states :: "case_state list" where
  "case_states = [CReserved, CSending, CVerified, CNotSent, CUnknown]"

fun reason_text :: "alert_reason \<Rightarrow> string" where
  "reason_text AVerified = ''verified''"
| "reason_text ACancelled = ''cancelled''"
| "reason_text APolicyDisabled = ''policy-disabled''"
| "reason_text APolicyChanged = ''policy-changed''"
| "reason_text APolicyUnavailable = ''policy-unavailable''"
| "reason_text ALeaseUnavailable = ''lease-unavailable''"
| "reason_text ALeaseRefused = ''lease-refused''"
| "reason_text AInterruptedBefore = ''interrupted-before-send''"
| "reason_text AInterruptedAfter = ''interrupted-after-dispatch-began''"
| "reason_text ASendUnknown = ''send-unknown''"
| "reason_text AReadbackUnknown = ''readback-unknown''"
| "reason_text ACloseUnknown = ''close-unknown''"
| "reason_text APersistenceUnknown = ''persistence-unknown''"

definition reasons :: "alert_reason list" where
  "reasons = [AVerified, ACancelled, APolicyDisabled, APolicyChanged, APolicyUnavailable, ALeaseUnavailable,
     ALeaseRefused, AInterruptedBefore, AInterruptedAfter, ASendUnknown, AReadbackUnknown, ACloseUnknown, APersistenceUnknown]"

fun allowed_reasons :: "case_state \<Rightarrow> alert_reason list" where
  "allowed_reasons CVerified = [AVerified]"
| "allowed_reasons CNotSent = [ACancelled, APolicyDisabled, APolicyChanged, APolicyUnavailable, ALeaseUnavailable,
     ALeaseRefused, AInterruptedBefore]"
| "allowed_reasons CUnknown = [AInterruptedAfter, ASendUnknown, AReadbackUnknown, ACloseUnknown, APersistenceUnknown]"
| "allowed_reasons _ = []"

definition terminal_case :: "case_state \<Rightarrow> bool" where
  "terminal_case s \<longleftrightarrow> s \<in> {CVerified, CNotSent, CUnknown}"

definition case_ok :: "(utext \<Rightarrow> utext) \<Rightarrow> stored_case \<Rightarrow> bool" where
  "case_ok sha c \<longleftrightarrow>
     alert_text_ok (sk_text c) \<and> obs_ref (sk_key c) \<and> valid_revision (sk_revision c) \<and> sk_hash c = sha (sk_text c) \<and>
     valid_random_id (sk_random c) \<and> valid_time (sk_reserved c) \<and>
     (if terminal_case (sk_state c) then
        (case (sk_settled c, sk_reason c) of
           (Some t, Some r) \<Rightarrow> valid_time t \<and> sk_reserved c \<le> t \<and> r \<in> set (allowed_reasons (sk_state c)) \<and>
             (case sk_message c of
                None \<Rightarrow> sk_state c \<noteq> CVerified
              | Some m \<Rightarrow> sk_state c \<noteq> CNotSent \<and> valid_message_id m)
         | _ \<Rightarrow> False)
      else sk_settled c = None \<and> sk_reason c = None \<and> sk_message c = None)"

definition opt_entry :: "string \<Rightarrow> json option \<Rightarrow> (utext \<times> json) list" where
  "opt_entry k v = (case v of None \<Rightarrow> [] | Some x \<Rightarrow> [(js k, x)])"

definition case_json :: "stored_case \<Rightarrow> json" where
  \<comment> \<open>The object \<open>JSON.stringify\<close> writes.\<close>
  "case_json c = JObj ([(js ''caseKey'', JStr (sk_key c)), (js ''policyRevision'', JInt (sk_revision c)),
      (js ''text'', JStr (sk_text c)), (js ''textHash'', JStr (sk_hash c)), (js ''randomId'', JStr (sk_random c)),
      (js ''reservedAt'', JInt (sk_reserved c)), (js ''state'', JStr (js (state_text (sk_state c))))] @
      opt_entry ''settledAt'' (map_option JInt (sk_settled c)) @
      opt_entry ''reason'' (map_option (\<lambda>r. JStr (js (reason_text r))) (sk_reason c)) @
      opt_entry ''messageId'' (map_option JInt (sk_message c)))"

definition parse_optional :: "('a \<Rightarrow> 'b option) \<Rightarrow> 'a option \<Rightarrow> 'b option option" where
  "parse_optional f v = (case v of None \<Rightarrow> Some None | Some x \<Rightarrow> map_option Some (f x))"

definition storedCaseCopy :: "(utext \<Rightarrow> utext) \<Rightarrow> json \<Rightarrow> stored_case option" where
  "storedCaseCopy sha v =
     (if \<not> exact_keys v [''caseKey'', ''policyRevision'', ''text'', ''textHash'', ''randomId'', ''reservedAt'', ''state'']
           [''settledAt'', ''reason'', ''messageId''] then None
      else
        (case (as_text (field (Some v) ''caseKey''), as_int (field (Some v) ''policyRevision''),
               as_text (field (Some v) ''text''), as_text (field (Some v) ''textHash''),
               as_text (field (Some v) ''randomId''), as_int (field (Some v) ''reservedAt''),
               as_text (field (Some v) ''state''),
               parse_optional (\<lambda>x. as_int (Some x)) (field (Some v) ''settledAt''),
               parse_optional (\<lambda>x. Option.bind (as_text (Some x)) (\<lambda>t. find (\<lambda>r. js (reason_text r) = t) reasons))
                 (field (Some v) ''reason''),
               parse_optional (\<lambda>x. as_int (Some x)) (field (Some v) ''messageId'')) of
           (Some k, Some r, Some t, Some h, Some i, Some at, Some st, Some se, Some re, Some m) \<Rightarrow>
             (case find (\<lambda>s. js (state_text s) = st) case_states of
                None \<Rightarrow> None
              | Some s \<Rightarrow>
                  (let c = \<lparr>sk_key = k, sk_revision = r, sk_text = t, sk_hash = h, sk_random = i, sk_reserved = at,
                      sk_state = s, sk_settled = se, sk_reason = re, sk_message = m\<rparr> in
                   if case_ok sha c then Some c else None))
         | _ \<Rightarrow> None))"

section \<open>The ledger\<close>

definition max_cases :: nat where "max_cases = 256"
definition max_plain :: nat where "max_plain = 2097152"

definition ledger_domain :: utext where
  "ledger_domain = js ''DecadansNeurobro/standing-community-alert-outbox/v1''"

definition binding_json :: "alert_binding \<Rightarrow> json" where
  "binding_json b = JObj [(js ''workspaceId'', JStr (ab_workspace b)), (js ''accountId'', JStr (ab_account b)),
     (js ''internalPeerId'', JStr (ab_internal b)), (js ''observedSourcePeerId'', JStr (ab_source b))]"

definition ledger_json :: "ledger \<Rightarrow> json" where
  "ledger_json l = JObj [(js ''domain'', JStr ledger_domain), (js ''binding'', binding_json (lg_binding l)),
     (js ''generation'', JInt (lg_generation l)), (js ''cases'', JArr (map case_json (lg_cases l)))]"

fun as_array :: "json option \<Rightarrow> json list option" where
  "as_array (Some (JArr vs)) = Some vs"
| "as_array _ = None"

definition ledgerCopy :: "(utext \<Rightarrow> utext) \<Rightarrow> alert_binding \<Rightarrow> json \<Rightarrow> outbox_error + ledger" where
  "ledgerCopy sha b v =
     (if \<not> exact_keys v [''domain'', ''binding'', ''generation'', ''cases''] [] then Inl OStorage
      else if field (Some v) ''domain'' \<noteq> Some (JStr ledger_domain) then Inl OStorage
      else
        (case as_int (field (Some v) ''generation'') of
           None \<Rightarrow> Inl OStorage
         | Some g \<Rightarrow>
             if g < 1 \<or> max_safe < g then Inl OStorage
             else
               (case Option.bind (field (Some v) ''binding'') bindingCopy of
                  None \<Rightarrow> Inl OStorage
                | Some b' \<Rightarrow>
                    (case as_array (field (Some v) ''cases'') of
                       None \<Rightarrow> Inl OBinding
                     | Some vs \<Rightarrow>
                         if b' \<noteq> b \<or> max_cases < length vs then Inl OBinding
                         else
                           (case opt_all (map (storedCaseCopy sha) vs) of
                              None \<Rightarrow> Inl OStorage
                            | Some cs \<Rightarrow>
                                if \<not> distinct (map sk_key cs) then Inl OStorage
                                else Inr \<lparr>lg_binding = b, lg_generation = g, lg_cases = cs\<rparr>)))))"

definition alert_outcome_of :: "stored_case \<Rightarrow> alert_outcome" where
  "alert_outcome_of c = \<lparr>al_key = sk_key c, al_revision = sk_revision c, al_hash = sk_hash c,
     al_state = (case sk_state c of CReserved \<Rightarrow> CNotSent | CSending \<Rightarrow> CUnknown | s \<Rightarrow> s),
     al_reason = (case sk_state c of CReserved \<Rightarrow> AInterruptedBefore | CSending \<Rightarrow> AInterruptedAfter
       | _ \<Rightarrow> or_else (sk_reason c) AInterruptedAfter),
     al_reserved = sk_reserved c, al_settled = or_else (sk_settled c) (sk_reserved c), al_message = sk_message c\<rparr>"

section \<open>The outbox\<close>

record outbox_cfg =
  oc_binding :: alert_binding
  oc_sha :: "utext \<Rightarrow> utext"

datatype write_result = WriteDone | WriteFailed | WriteMoved \<comment> \<open>replaced, but the check after it failed\<close>

record io =
  io_read :: bool
  io_write :: "int \<Rightarrow> write_result" \<comment> \<open>by the generation written\<close>

record outbox =
  ao_disk :: "json option"
  ao_current :: ledger
  ao_saved :: bool
  ao_broken :: bool
  ao_closed :: bool
  ao_wire :: "(utext \<times> utext \<times> utext) list" \<comment> \<open>case, text, random id of each wire call\<close>

type_synonym 'a outboxed = "outbox \<Rightarrow> (outbox_error + 'a) \<times> outbox"

definition empty_ledger :: "outbox_cfg \<Rightarrow> ledger" where
  "empty_ledger cfg = \<lparr>lg_binding = oc_binding cfg, lg_generation = 0, lg_cases = []\<rparr>"

definition readLedger :: "outbox_cfg \<Rightarrow> io \<Rightarrow> outbox \<Rightarrow> outbox_error + ledger option" where
  "readLedger cfg i w =
     (if \<not> io_read i then Inl OStorage
      else (case ao_disk w of None \<Rightarrow> Inr None
              | Some v \<Rightarrow> rbind (ledgerCopy (oc_sha cfg) (oc_binding cfg) v) (\<lambda>l. Inr (Some l))))"

definition refresh_ledger :: "outbox_cfg \<Rightarrow> io \<Rightarrow> unit outboxed" where
  "refresh_ledger cfg i w =
     (case readLedger cfg i w of
        Inl e \<Rightarrow> (Inl e, w)
      | Inr None \<Rightarrow> if ao_saved w \<or> lg_generation (ao_current w) \<noteq> 0 then (Inl OStorage, w) else (Inr (), w)
      | Inr (Some l) \<Rightarrow>
          if lg_generation l < lg_generation (ao_current w) \<or>
             lg_generation l = lg_generation (ao_current w) \<and> l \<noteq> ao_current w
          then (Inl OStorage, w)
          else (Inr (), w\<lparr>ao_current := l, ao_saved := True\<rparr>))"

definition writeLedger :: "outbox_cfg \<Rightarrow> io \<Rightarrow> stored_case list \<Rightarrow> unit outboxed" where
  "writeLedger cfg i cs w =
     (let l = \<lparr>lg_binding = oc_binding cfg, lg_generation = lg_generation (ao_current w) + 1, lg_cases = cs\<rparr>;
          w' = w\<lparr>ao_disk := Some (ledger_json l)\<rparr> in
      if max_plain < utf8_size (stringify (ledger_json l)) then (Inl OStorage, w)
      else
        (case io_write i (lg_generation l) of
           WriteFailed \<Rightarrow> (Inl OStorage, w)
         | WriteMoved \<Rightarrow> (Inl OStorage, w')
         | WriteDone \<Rightarrow>
             (case readLedger cfg (i\<lparr>io_read := True\<rparr>) w' of
                Inr (Some l') \<Rightarrow>
                  if l' \<noteq> l then (Inl OStorage, w') else (Inr (), w'\<lparr>ao_current := l', ao_saved := True\<rparr>)
              | Inr None \<Rightarrow> (Inl OStorage, w')
              | Inl e \<Rightarrow> (Inl e, w'))))"

fun contain :: "(outbox_error + 'a) \<times> outbox \<Rightarrow> (outbox_error + 'a) \<times> outbox" where
  \<comment> \<open>A storage or binding error leaves the outbox broken.\<close>
  "contain (Inl e, w) = (Inl e, if e \<in> {OStorage, OBinding} then w\<lparr>ao_broken := True\<rparr> else w)"
| "contain (Inr x, w) = (Inr x, w)"

definition enqueue :: "outbox_cfg \<Rightarrow> io \<Rightarrow> 'a outboxed \<Rightarrow> 'a outboxed" where
  "enqueue cfg i work w =
     (if ao_closed w then (Inl OClosed, w)
      else if ao_broken w then (Inl OStorage, w)
      else contain (case refresh_ledger cfg i w of (Inl e, w1) \<Rightarrow> (Inl e, w1) | (Inr _, w1) \<Rightarrow> work w1))"

definition replace_case :: "outbox_cfg \<Rightarrow> io \<Rightarrow> nat \<Rightarrow> stored_case \<Rightarrow> unit outboxed" where
  "replace_case cfg i n c w = writeLedger cfg i ((lg_cases (ao_current w))[n := c]) w"

definition settle_case ::
  "outbox_cfg \<Rightarrow> io \<Rightarrow> int \<Rightarrow> nat \<Rightarrow> case_state \<Rightarrow> alert_reason \<Rightarrow> int option \<Rightarrow> alert_outcome outboxed" where
  "settle_case cfg i now n s r m w =
     (let c = (lg_cases (ao_current w) ! n)\<lparr>sk_state := s, sk_settled := Some now, sk_reason := Some r\<rparr>;
          c = (case m of None \<Rightarrow> c | Some k \<Rightarrow> c\<lparr>sk_message := Some k\<rparr>) in
      if \<not> case_ok (oc_sha cfg) c then (Inl OStorage, w)
      else
        (case replace_case cfg i n c w of
           (Inr _, w') \<Rightarrow> (Inr (alert_outcome_of c), w')
         | (Inl _, w') \<Rightarrow>
             (Inr ((alert_outcome_of c)\<lparr>al_state := CUnknown, al_reason := APersistenceUnknown\<rparr>), w'\<lparr>ao_broken := True\<rparr>)))"

section \<open>Delivery\<close>

record lease =
  le_account :: utext
  le_peer :: utext
  le_sends :: bool          \<comment> \<open>\<open>sendOnce\<close> is a function\<close>
  le_reads :: bool          \<comment> \<open>\<open>readExact\<close> is a function\<close>
  le_closes :: "bool option" \<comment> \<open>\<open>close\<close> is a function, and calling it succeeds\<close>

datatype lease_answer = LeaseThrows | LeaseMalformed | Lease lease

record delivery =
  dl_key :: utext
  dl_revision :: int
  dl_text :: utext
  dl_random :: utext               \<comment> \<open>the random id drawn\<close>
  dl_clock :: "nat \<Rightarrow> int"         \<comment> \<open>\<open>Date.now()\<close> at the reservation and at the settlement\<close>
  dl_aborted :: "nat \<Rightarrow> bool"      \<comment> \<open>the caller's signal at the three checks\<close>
  dl_lease :: lease_answer
  dl_policy :: "json option"       \<comment> \<open>\<open>refreshPolicy()\<close>, None when it throws\<close>
  dl_ack :: "json option"          \<comment> \<open>\<open>sendOnce()\<close>, None when it throws\<close>
  dl_readback :: "int \<Rightarrow> json option" \<comment> \<open>\<open>readExact(id)\<close>, None when it throws or is null\<close>

datatype stage = Claimed nat | Leased nat bool | Checked nat bool | Sent nat bool
  \<comment> \<open>With the index of the case and whether closing the lease succeeds.\<close>

datatype progress = Finished "outbox_error + alert_outcome" | Going stage

fun finished :: "(outbox_error + alert_outcome) \<times> outbox \<Rightarrow> progress \<times> outbox" where
  "finished (r, w) = (Finished r, w)"

definition delivery_input_ok :: "delivery \<Rightarrow> bool" where
  "delivery_input_ok d \<longleftrightarrow> obs_ref (dl_key d) \<and> valid_revision (dl_revision d) \<and> alert_text_ok (dl_text d)"

definition find_case :: "outbox \<Rightarrow> utext \<Rightarrow> nat option" where
  "find_case w k = find (\<lambda>n. sk_key (lg_cases (ao_current w) ! n) = k) [0..<length (lg_cases (ao_current w))]"

definition claim_case :: "outbox_cfg \<Rightarrow> io \<Rightarrow> delivery \<Rightarrow> outbox \<Rightarrow> progress \<times> outbox" where
  "claim_case cfg i d w =
     (case find_case w (dl_key d) of
        Some n \<Rightarrow>
          (let c = lg_cases (ao_current w) ! n in
           if sk_revision c \<noteq> dl_revision d \<or> sk_text c \<noteq> dl_text d \<or> sk_hash c \<noteq> oc_sha cfg (dl_text d)
           then (Finished (Inl OConflict), w)
           else
             (case sk_state c of
                CReserved \<Rightarrow> finished (settle_case cfg i (dl_clock d 1) n CNotSent AInterruptedBefore None w)
              | CSending \<Rightarrow> finished (settle_case cfg i (dl_clock d 1) n CUnknown AInterruptedAfter None w)
              | _ \<Rightarrow> (Finished (Inr (alert_outcome_of c)), w)))
      | None \<Rightarrow>
          if max_cases \<le> length (lg_cases (ao_current w)) then (Finished (Inl OCapacity), w)
          else
            (let c = \<lparr>sk_key = dl_key d, sk_revision = dl_revision d, sk_text = dl_text d,
                 sk_hash = oc_sha cfg (dl_text d), sk_random = dl_random d, sk_reserved = dl_clock d 0,
                 sk_state = CReserved, sk_settled = None, sk_reason = None, sk_message = None\<rparr> in
             if \<not> case_ok (oc_sha cfg) c then (Finished (Inl OStorage), w)
             else
               (case writeLedger cfg i (lg_cases (ao_current w) @ [c]) w of
                  (Inl e, w') \<Rightarrow> (Finished (Inl e), w')
                | (Inr _, w') \<Rightarrow> (Going (Claimed (length (lg_cases (ao_current w') ) - 1)), w'))))"

definition aborted :: "delivery \<Rightarrow> nat \<Rightarrow> outbox \<Rightarrow> bool" where
  \<comment> \<open>The caller's signal or the outbox's own, which \<open>close\<close> aborts.\<close>
  "aborted d k w \<longleftrightarrow> dl_aborted d k \<or> ao_closed w"

definition settle_closed ::
  "outbox_cfg \<Rightarrow> io \<Rightarrow> delivery \<Rightarrow> nat \<Rightarrow> bool \<Rightarrow> alert_reason \<Rightarrow> alert_outcome outboxed" where
  \<comment> \<open>After \<open>closeLease\<close>: not sent for the reason, or unknown when closing failed.\<close>
  "settle_closed cfg i d n joined r w =
     (if joined then settle_case cfg i (dl_clock d 1) n CNotSent r None w
      else settle_case cfg i (dl_clock d 1) n CUnknown ACloseUnknown None w)"

definition lease_ok :: "outbox_cfg \<Rightarrow> lease \<Rightarrow> bool" where
  "lease_ok cfg l \<longleftrightarrow> le_account l = ab_account (oc_binding cfg) \<and> le_peer l = ab_internal (oc_binding cfg) \<and>
     le_sends l \<and> le_reads l \<and> le_closes l \<noteq> None"

definition open_lease :: "outbox_cfg \<Rightarrow> io \<Rightarrow> delivery \<Rightarrow> nat \<Rightarrow> outbox \<Rightarrow> progress \<times> outbox" where
  "open_lease cfg i d n w =
     (if aborted d 0 w then finished (settle_case cfg i (dl_clock d 1) n CNotSent ACancelled None w)
      else
        (case dl_lease d of
           LeaseThrows \<Rightarrow> finished (settle_case cfg i (dl_clock d 1) n CNotSent ALeaseUnavailable None w)
         | LeaseMalformed \<Rightarrow> finished (settle_closed cfg i d n False ALeaseRefused w)
         | Lease l \<Rightarrow>
             if \<not> lease_ok cfg l then finished (settle_closed cfg i d n (le_closes l = Some True) ALeaseRefused w)
             else if aborted d 1 w then finished (settle_closed cfg i d n (le_closes l = Some True) ACancelled w)
             else
               (let c = (lg_cases (ao_current w) ! n)\<lparr>sk_state := CSending\<rparr> in
                if \<not> case_ok (oc_sha cfg) c then (Finished (Inl OStorage), w)
                else
                  (case replace_case cfg i n c w of
                     (Inl e, w') \<Rightarrow> (Finished (Inl e), w')
                   | (Inr _, w') \<Rightarrow> (Going (Leased n (le_closes l = Some True)), w')))))"

definition last_check :: "outbox_cfg \<Rightarrow> io \<Rightarrow> delivery \<Rightarrow> nat \<Rightarrow> bool \<Rightarrow> outbox \<Rightarrow> progress \<times> outbox" where
  "last_check cfg i d n joined w =
     (case Option.bind (dl_policy d) policyCopy of
        None \<Rightarrow> finished (settle_closed cfg i d n joined APolicyUnavailable w)
      | Some p \<Rightarrow>
          if aborted d 2 w then finished (settle_closed cfg i d n joined ACancelled w)
          else if \<not> ap_observation p \<or> \<not> ap_alerts p
          then finished (settle_closed cfg i d n joined APolicyDisabled w)
          else if ap_revision p \<noteq> dl_revision d \<or> ap_source p \<noteq> ab_source (oc_binding cfg)
          then finished (settle_closed cfg i d n joined APolicyChanged w)
          else (Going (Checked n joined), w))"

definition send_alert :: "delivery \<Rightarrow> nat \<Rightarrow> bool \<Rightarrow> outbox \<Rightarrow> progress \<times> outbox" where
  "send_alert d n joined w =
     (Going (Sent n joined),
      w\<lparr>ao_wire := ao_wire w @ [(dl_key d, dl_text d, sk_random (lg_cases (ao_current w) ! n))]\<rparr>)"

definition send_acknowledgement :: "json option \<Rightarrow> int option" where
  "send_acknowledgement v =
     (case v of
        None \<Rightarrow> None
      | Some x \<Rightarrow>
          if exact_keys x [''messageId''] [] then
            (case as_int (field (Some x) ''messageId'') of
               Some m \<Rightarrow> if valid_message_id m then Some m else None | None \<Rightarrow> None)
          else None)"

definition readback_exact :: "outbox_cfg \<Rightarrow> utext \<Rightarrow> int \<Rightarrow> json option \<Rightarrow> bool" where
  "readback_exact cfg body m v \<longleftrightarrow>
     (case v of
        None \<Rightarrow> False
      | Some x \<Rightarrow>
          exact_keys x [''messageId'', ''chatId'', ''accountId'', ''fromId'', ''out'', ''text'',
            ''replyToMessageId'', ''media'', ''post''] [] \<and>
          field v ''messageId'' = Some (JInt m) \<and> field v ''chatId'' = Some (JStr (ab_internal (oc_binding cfg))) \<and>
          field v ''accountId'' = Some (JStr (ab_account (oc_binding cfg))) \<and>
          field v ''fromId'' = Some (JStr (ab_account (oc_binding cfg))) \<and> field v ''out'' = Some (JBool True) \<and>
          field v ''text'' = Some (JStr body) \<and> field v ''replyToMessageId'' = Some JNull \<and>
          field v ''media'' = Some (JBool False) \<and> field v ''post'' = Some (JBool False))"

definition finish_alert :: "outbox_cfg \<Rightarrow> io \<Rightarrow> delivery \<Rightarrow> nat \<Rightarrow> bool \<Rightarrow> outbox \<Rightarrow> progress \<times> outbox" where
  "finish_alert cfg i d n joined w =
     (case send_acknowledgement (dl_ack d) of
        None \<Rightarrow> finished (settle_case cfg i (dl_clock d 1) n CUnknown (if joined then ASendUnknown else ACloseUnknown) None w)
      | Some m \<Rightarrow>
          if \<not> joined then finished (settle_case cfg i (dl_clock d 1) n CUnknown ACloseUnknown (Some m) w)
          else if \<not> readback_exact cfg (dl_text d) m (dl_readback d m)
          then finished (settle_case cfg i (dl_clock d 1) n CUnknown AReadbackUnknown (Some m) w)
          else finished (settle_case cfg i (dl_clock d 1) n CVerified AVerified (Some m) w))"

fun next_stage :: "outbox_cfg \<Rightarrow> io \<Rightarrow> delivery \<Rightarrow> stage \<Rightarrow> outbox \<Rightarrow> progress \<times> outbox" where
  "next_stage cfg i d (Claimed n) = open_lease cfg i d n"
| "next_stage cfg i d (Leased n joined) = last_check cfg i d n joined"
| "next_stage cfg i d (Checked n joined) = send_alert d n joined"
| "next_stage cfg i d (Sent n joined) = finish_alert cfg i d n joined"

fun and_then :: "outbox_cfg \<Rightarrow> io \<Rightarrow> delivery \<Rightarrow> progress \<times> outbox \<Rightarrow> progress \<times> outbox" where
  "and_then cfg i d (Going st, w) = next_stage cfg i d st w"
| "and_then cfg i d (Finished r, w) = (Finished r, w)"

fun settled :: "progress \<times> outbox \<Rightarrow> (outbox_error + alert_outcome) \<times> outbox" where
  "settled (Finished r, w) = (r, w)"
| "settled (Going st, w) = (Inl OStorage, w)" \<comment> \<open>never: \<open>finish_alert\<close> finishes\<close>

definition deliver :: "outbox_cfg \<Rightarrow> io \<Rightarrow> delivery \<Rightarrow> alert_outcome outboxed" where
  "deliver cfg i d w =
     (if \<not> delivery_input_ok d then (Inl OInput, w)
      else enqueue cfg i (\<lambda>w1. settled (((and_then cfg i d) ^^ 4) (claim_case cfg i d w1))) w)"

section \<open>Queries, closing and opening\<close>

definition inspect :: "outbox_cfg \<Rightarrow> io \<Rightarrow> utext \<Rightarrow> (case_state \<times> alert_outcome) option outboxed" where
  \<comment> \<open>None is the state \<open>absent\<close>.\<close>
  "inspect cfg i k w =
     (if \<not> obs_ref k then (Inl OInput, w)
      else enqueue cfg i (\<lambda>w1. (Inr (map_option (\<lambda>c. (sk_state c, alert_outcome_of c))
             (find (\<lambda>c. sk_key c = k) (lg_cases (ao_current w1)))), w1)) w)"

definition recent :: "outbox_cfg \<Rightarrow> io \<Rightarrow> int \<Rightarrow> alert_outcome list outboxed" where
  "recent cfg i limit w =
     (if limit < 1 \<or> 32 < limit then (Inl OInput, w)
      else enqueue cfg i (\<lambda>w1. (Inr (map alert_outcome_of (take (nat limit) (rev (lg_cases (ao_current w1))))), w1)) w)"

definition outbox_status :: "outbox_cfg \<Rightarrow> io \<Rightarrow> (nat \<times> bool) outboxed" where
  "outbox_status cfg i = enqueue cfg i (\<lambda>w1. (Inr (length (lg_cases (ao_current w1)),
     length (lg_cases (ao_current w1)) = max_cases), w1))"

definition close_outbox :: "outbox \<Rightarrow> outbox" where
  "close_outbox w = w\<lparr>ao_closed := True\<rparr>"

definition openStandingCommunityAlertOutbox :: "outbox_cfg \<Rightarrow> io \<Rightarrow> unit outboxed" where
  \<comment> \<open>A new process on the file of the old one.\<close>
  "openStandingCommunityAlertOutbox cfg i w =
     (if \<not> binding_ok (oc_binding cfg) then (Inl OInput, w)
      else refresh_ledger cfg i (w\<lparr>ao_current := empty_ledger cfg, ao_saved := False, ao_broken := False, ao_closed := False\<rparr>))"

end
