(* ===== verification/AlertProps.thy ===== *)
theory AlertProps
  imports AlertOutbox "HOL-Library.Code_Target_Nat"
begin

text \<open>
  What the alert outbox promises. The ledger on disk always reads back as the ledger that was
  written (\<open>ledger_read_back\<close>); \<open>alert_step\<close> interleaves deliveries, queries, closing, crashes
  and restarts at every point where the code awaits; the invariant \<open>consistent\<close> ties the
  ledger on disk to the history of wire calls.
\<close>

section \<open>What is written reads back\<close>

lemma optional_entries:
  "map_of (opt_entry a x @ opt_entry b y @ opt_entry c z) (js k) =
     (if k = a \<and> x \<noteq> None then x else if k = b \<and> y \<noteq> None then y else if k = c then z else None)"
  by (auto simp: opt_entry_def js_inj simp del: js_simps split: option.splits)

lemma case_field:
  "field (Some (case_json c)) k =
     (if k = ''caseKey'' then Some (JStr (sk_key c)) else if k = ''policyRevision'' then Some (JInt (sk_revision c))
      else if k = ''text'' then Some (JStr (sk_text c)) else if k = ''textHash'' then Some (JStr (sk_hash c))
      else if k = ''randomId'' then Some (JStr (sk_random c)) else if k = ''reservedAt'' then Some (JInt (sk_reserved c))
      else if k = ''state'' then Some (JStr (js (state_text (sk_state c))))
      else if k = ''settledAt'' then map_option JInt (sk_settled c)
      else if k = ''reason'' then map_option (\<lambda>r. JStr (js (reason_text r))) (sk_reason c)
      else if k = ''messageId'' then map_option JInt (sk_message c) else None)"
  by (simp add: case_json_def js_inj map_of_append opt_entry_def del: js_simps split: option.splits)

lemma case_keys:
  "exact_keys (case_json c) [''caseKey'', ''policyRevision'', ''text'', ''textHash'', ''randomId'', ''reservedAt'', ''state'']
     [''settledAt'', ''reason'', ''messageId'']"
  by (cases "sk_settled c"; cases "sk_reason c"; cases "sk_message c")
    (simp_all add: exact_keys_def case_json_def opt_entry_def js_inj del: js_simps)

lemma find_state: "find (\<lambda>s. state_text s = state_text x) case_states = Some x"
  by (cases x) (simp_all add: case_states_def js_inj del: js_simps)

lemma find_reason: "find (\<lambda>r. reason_text r = reason_text x) reasons = Some x"
  by (cases x) (simp_all add: reasons_def js_inj del: js_simps)

lemma parse_reason:
  "parse_optional (\<lambda>x. Option.bind (as_text (Some x)) (\<lambda>t. find (\<lambda>r. js (reason_text r) = t) reasons))
     (map_option (\<lambda>r. JStr (js (reason_text r))) r) = Some r"
  by (cases r) (simp_all add: parse_optional_def find_reason del: js_simps)

lemma parse_number: "parse_optional (\<lambda>x. as_int (Some x)) (map_option JInt i) = Some i"
  by (cases i) (simp_all add: parse_optional_def)

lemma case_read_back: "storedCaseCopy sha (case_json c) = (if case_ok sha c then Some c else None)"
  by (cases c) (simp add: storedCaseCopy_def case_keys case_field find_state parse_reason parse_number Let_def del: js_simps field.simps)

lemma binding_read_back: "bindingCopy (binding_json b) = (if binding_ok b then Some b else None)"
proof -
  have "exact_keys (binding_json b) [''workspaceId'', ''accountId'', ''internalPeerId'', ''observedSourcePeerId''] []"
    by (simp add: exact_keys_def binding_json_def js_inj del: js_simps)
  moreover have "field (Some (binding_json b)) k =
     (if k = ''workspaceId'' then Some (JStr (ab_workspace b)) else if k = ''accountId'' then Some (JStr (ab_account b))
      else if k = ''internalPeerId'' then Some (JStr (ab_internal b))
      else if k = ''observedSourcePeerId'' then Some (JStr (ab_source b)) else None)" for k
    by (simp add: binding_json_def js_inj del: js_simps)
  ultimately show ?thesis by (cases b) (simp add: bindingCopy_def Let_def del: js_simps field.simps)
qed

definition ledger_ok :: "outbox_cfg \<Rightarrow> ledger \<Rightarrow> bool" where
  "ledger_ok cfg l \<longleftrightarrow> lg_binding l = oc_binding cfg \<and> binding_ok (oc_binding cfg) \<and>
     1 \<le> lg_generation l \<and> lg_generation l \<le> max_safe \<and> length (lg_cases l) \<le> max_cases \<and>
     (\<forall>c \<in> set (lg_cases l). case_ok (oc_sha cfg) c) \<and> distinct (map sk_key (lg_cases l))"

lemma ledger_fields:
  "field (Some (ledger_json l)) ''domain'' = Some (JStr ledger_domain)"
  "field (Some (ledger_json l)) ''binding'' = Some (binding_json (lg_binding l))"
  "field (Some (ledger_json l)) ''generation'' = Some (JInt (lg_generation l))"
  "field (Some (ledger_json l)) ''cases'' = Some (JArr (map case_json (lg_cases l)))"
  "exact_keys (ledger_json l) [''domain'', ''binding'', ''generation'', ''cases''] []"
  by (simp_all add: ledger_json_def exact_keys_def js_inj del: js_simps)

lemma cases_read_back:
  "opt_all (map (storedCaseCopy sha) (map case_json cs)) = (if \<forall>c \<in> set cs. case_ok sha c then Some cs else None)"
  by (induction cs) (auto simp: case_read_back)

lemma ledger_read_back:
  assumes "lg_binding l = b"
  shows "ledgerCopy sha b (ledger_json l) =
     (if ledger_ok \<lparr>oc_binding = b, oc_sha = sha\<rparr> l then Inr l
      else Inl (if (1 \<le> lg_generation l \<and> lg_generation l \<le> max_safe) \<and> binding_ok b \<and> max_cases < length (lg_cases l)
                then OBinding else OStorage))"
  using assms
  by (auto simp: ledgerCopy_def ledger_fields binding_read_back cases_read_back ledger_ok_def
      simp del: js_simps field.simps map_map)

lemma ledger_read_unique:
  assumes "ledgerCopy (oc_sha cfg) (oc_binding cfg) (ledger_json l) = Inr l'" "lg_binding l = oc_binding cfg"
  shows "l' = l \<and> ledger_ok cfg l"
proof -
  have "ledger_ok \<lparr>oc_binding = oc_binding cfg, oc_sha = oc_sha cfg\<rparr> l = ledger_ok cfg l"
    by (simp add: ledger_ok_def)
  then show ?thesis using assms ledger_read_back [OF assms(2), of "oc_sha cfg"]
    by (auto split: if_splits)
qed

section \<open>Steps\<close>

type_synonym alert_system = "outbox \<times> (delivery \<times> stage) option"

fun running :: "delivery \<Rightarrow> progress \<times> outbox \<Rightarrow> alert_system" where
  "running d (Going st, w) = (w, Some (d, st))"
| "running d (Finished r, w) = (snd (contain (r, w)), None)"

definition admit_delivery :: "outbox_cfg \<Rightarrow> io \<Rightarrow> delivery \<Rightarrow> outbox \<Rightarrow> alert_system" where
  "admit_delivery cfg i d w =
     (if \<not> delivery_input_ok d \<or> ao_closed w \<or> ao_broken w then (w, None)
      else (case refresh_ledger cfg i w of (Inl e, w1) \<Rightarrow> running d (Finished (Inl e), w1) | (Inr _, w1) \<Rightarrow> running d (claim_case cfg i d w1)))"

inductive alert_step :: "outbox_cfg \<Rightarrow> alert_system \<Rightarrow> alert_system \<Rightarrow> bool" for cfg where
  admit: "alert_step cfg (w, None) (admit_delivery cfg i d w)"
| advance: "alert_step cfg (w, Some (d, st)) (running d (next_stage cfg i d st w))"
| query: "alert_step cfg (w, None) (snd (enqueue cfg i (\<lambda>w1. (Inr (), w1)) w), None)"
| close: "alert_step cfg (w, run) (close_outbox w, run)"
| restart: "openStandingCommunityAlertOutbox cfg i w = (Inr (), w') \<Longrightarrow> alert_step cfg (w, run) (w', None)"

abbreviation alert_steps :: "outbox_cfg \<Rightarrow> alert_system \<Rightarrow> alert_system \<Rightarrow> bool" where
  "alert_steps cfg \<equiv> (alert_step cfg)\<^sup>*\<^sup>*"

definition fresh_outbox :: "outbox_cfg \<Rightarrow> outbox" where
  "fresh_outbox cfg = \<lparr>ao_disk = None, ao_current = empty_ledger cfg, ao_saved = False, ao_broken = False,
     ao_closed = False, ao_wire = []\<rparr>"

section \<open>The ledger and the wire\<close>

definition sent_state :: "case_state \<Rightarrow> bool" where
  "sent_state s \<longleftrightarrow> s \<in> {CSending, CVerified, CUnknown}"

definition wire_of :: "stored_case \<Rightarrow> utext \<times> utext \<times> utext" where
  "wire_of c = (sk_key c, sk_text c, sk_random c)"

definition fit :: "(utext \<times> utext \<times> utext) list \<Rightarrow> stored_case list \<Rightarrow> bool" where
  "fit wire cs \<longleftrightarrow> distinct (map sk_key cs) \<and> distinct (map fst wire) \<and>
     (\<forall>x \<in> set wire. \<exists>c \<in> set cs. wire_of c = x \<and> sent_state (sk_state c)) \<and>
     (\<forall>c \<in> set cs. sk_state c = CVerified \<longrightarrow> wire_of c \<in> set wire)"

definition kept :: "stored_case list \<Rightarrow> stored_case list \<Rightarrow> bool" where
  "kept cs cs' \<longleftrightarrow> (\<forall>c \<in> set cs. terminal_case (sk_state c) \<longrightarrow> c \<in> set cs')"

lemma kept_refl [simp]: "kept cs cs"
  by (simp add: kept_def)

lemma kept_trans: "kept a b \<Longrightarrow> kept b c \<Longrightarrow> kept a c"
  by (auto simp: kept_def)

lemma kept_append [simp]: "kept cs (cs @ ds)"
  by (simp add: kept_def)

lemma kept_update:
  assumes "n < length cs" "\<not> terminal_case (sk_state (cs ! n))"
  shows "kept cs (cs[n := c])"
  unfolding kept_def
proof (intro ballI impI)
  fix x assume "x \<in> set cs" "terminal_case (sk_state x)"
  then obtain k where k: "k < length cs" "x = cs ! k" by (auto simp: in_set_conv_nth)
  with \<open>terminal_case (sk_state x)\<close> assms have "k \<noteq> n" by auto
  with k show "x \<in> set (cs[n := c])" by (metis length_list_update nth_list_update_neq nth_mem)
qed

lemma unsent_wire: "sk_key c \<notin> fst ` set wire \<Longrightarrow> wire_of c \<notin> set wire"
  by (force simp: wire_of_def)

lemma fit_append:
  assumes "fit wire cs" "sk_key c \<notin> sk_key ` set cs" "sk_state c = CReserved"
  shows "fit wire (cs @ [c])"
  unfolding fit_def
proof (intro conjI ballI)
  show "distinct (map sk_key (cs @ [c]))" "distinct (map fst wire)"
    using assms by (auto simp: fit_def)
  show "\<exists>c \<in> set (cs @ [c]). wire_of c = x \<and> sent_state (sk_state c)" if "x \<in> set wire" for x
    using assms(1) that by (auto simp: fit_def)
  show "sk_state e = CVerified \<longrightarrow> wire_of e \<in> set wire" if "e \<in> set (cs @ [c])" for e
    using assms that by (auto simp: fit_def)
qed

lemma fit_key_unique:
  assumes "fit wire cs" "c \<in> set cs" "d \<in> set cs" "sk_key c = sk_key d"
  shows "c = d"
  using assms by (auto simp: fit_def distinct_map inj_on_def)

lemma fit_update:
  assumes "fit wire cs" "n < length cs" "wire_of c = wire_of (cs ! n)" "\<not> terminal_case (sk_state (cs ! n))"
    and "wire_of c \<in> set wire \<longrightarrow> sent_state (sk_state c)" "sk_state c = CVerified \<longrightarrow> wire_of c \<in> set wire"
  shows "fit wire (cs[n := c])"
proof -
  have key: "sk_key c = sk_key (cs ! n)" using assms(3) by (simp add: wire_of_def)
  have "map sk_key (cs[n := c]) = map sk_key cs"
    using key assms(2) by (metis list_update_id map_update nth_map)
  moreover have "\<exists>e \<in> set (cs[n := c]). wire_of e = x \<and> sent_state (sk_state e)" if x: "x \<in> set wire" for x
  proof -
    obtain e where e: "e \<in> set cs" "wire_of e = x" "sent_state (sk_state e)" using assms(1) x by (auto simp: fit_def)
    then obtain k where k: "k < length cs" "e = cs ! k" by (auto simp: in_set_conv_nth)
    show ?thesis
    proof (cases "k = n")
      case True
      then have "wire_of c = x" using e k assms(3) by simp
      then show ?thesis using assms(2,5) x by (metis length_list_update nth_list_update_eq nth_mem)
    next
      case False
      then show ?thesis using e k by (metis length_list_update nth_list_update_neq nth_mem)
    qed
  qed
  moreover have "wire_of e \<in> set wire" if "e \<in> set (cs[n := c])" "sk_state e = CVerified" for e
    using that assms(1,6) set_update_subset_insert [of cs n c] by (auto simp: fit_def)
  ultimately show ?thesis using assms(1) by (auto simp: fit_def)
qed

lemma fit_send:
  assumes "fit wire cs" "c \<in> set cs" "sk_state c = CSending" "sk_key c \<notin> fst ` set wire"
  shows "fit (wire @ [wire_of c]) cs"
  unfolding fit_def
proof (intro conjI ballI impI)
  show "distinct (map sk_key cs)" using assms(1) by (simp add: fit_def)
  show "distinct (map fst (wire @ [wire_of c]))" using assms(1,4) by (simp add: fit_def wire_of_def)
  show "\<exists>c \<in> set cs. wire_of c = x \<and> sent_state (sk_state c)" if "x \<in> set (wire @ [wire_of c])" for x
    using that assms(1-3) by (auto simp: fit_def sent_state_def)
  show "wire_of e \<in> set (wire @ [wire_of c])" if "e \<in> set cs" "sk_state e = CVerified" for e
    using that assms(1) by (simp add: fit_def)
qed

lemma fit_not_sent:
  assumes "fit wire cs" "c \<in> set cs" "\<not> sent_state (sk_state c)"
  shows "sk_key c \<notin> fst ` set wire"
proof
  assume "sk_key c \<in> fst ` set wire"
  then obtain x where x: "x \<in> set wire" "fst x = sk_key c" by auto
  moreover have "\<forall>x \<in> set wire. \<exists>e \<in> set cs. wire_of e = x \<and> sent_state (sk_state e)"
    using assms(1) unfolding fit_def by blast
  ultimately obtain e where e: "e \<in> set cs" "wire_of e = x" "sent_state (sk_state e)" by blast
  then have "sk_key c = sk_key e" using x by (auto simp: wire_of_def)
  then show False using fit_key_unique [OF assms(1,2) e(1)] e(3) assms(3) by simp
qed

section \<open>The invariant\<close>

definition consistent :: "outbox_cfg \<Rightarrow> outbox \<Rightarrow> ledger \<Rightarrow> bool" where
  \<comment> \<open>The file holds this ledger, and the ledger agrees with what was sent.\<close>
  "consistent cfg w l \<longleftrightarrow> lg_binding l = oc_binding cfg \<and> 0 \<le> lg_generation l \<and>
     (lg_generation l = 0 \<longrightarrow> lg_cases l = []) \<and>
     ao_disk w = (if lg_generation l = 0 then None else Some (ledger_json l)) \<and> fit (ao_wire w) (lg_cases l)"

definition live :: "outbox \<Rightarrow> ledger \<Rightarrow> bool" where
  "live w l \<longleftrightarrow> ao_current w = l \<and> ao_saved w = (lg_generation l \<noteq> 0)"

fun stage_index :: "stage \<Rightarrow> nat" where
  "stage_index (Claimed n) = n"
| "stage_index (Leased n _) = n"
| "stage_index (Checked n _) = n"
| "stage_index (Sent n _) = n"

fun stage_state :: "(utext \<times> utext \<times> utext) list \<Rightarrow> stage \<Rightarrow> stored_case \<Rightarrow> bool" where
  "stage_state wire (Claimed _) c = (sk_state c = CReserved)"
| "stage_state wire (Leased _ _) c = (sk_state c = CSending \<and> sk_key c \<notin> fst ` set wire)"
| "stage_state wire (Checked _ _) c = (sk_state c = CSending \<and> sk_key c \<notin> fst ` set wire)"
| "stage_state wire (Sent _ _) c = (sk_state c = CSending \<and> wire_of c \<in> set wire)"

definition at_stage :: "outbox \<Rightarrow> ledger \<Rightarrow> delivery \<Rightarrow> stage \<Rightarrow> bool" where
  "at_stage w l d st \<longleftrightarrow> stage_index st < length (lg_cases l) \<and>
     (let c = lg_cases l ! stage_index st in sk_key c = dl_key d \<and> sk_text c = dl_text d \<and> stage_state (ao_wire w) st c)"

definition recorded :: "ledger \<Rightarrow> delivery \<Rightarrow> alert_outcome \<Rightarrow> bool" where
  "recorded l d x \<longleftrightarrow> al_state x = CUnknown \<or>
     (\<exists>c \<in> set (lg_cases l). sk_key c = dl_key d \<and> sk_text c = dl_text d \<and> sk_state c = al_state x \<and> terminal_case (sk_state c))"

fun after :: "outbox_cfg \<Rightarrow> delivery \<Rightarrow> progress \<times> outbox \<Rightarrow> ledger \<Rightarrow> bool" where
  "after cfg d (Going st, w) l = (consistent cfg w l \<and> live w l \<and> at_stage w l d st)"
| "after cfg d (Finished (Inr x), w) l = (consistent cfg w l \<and> (ao_broken w \<or> live w l) \<and> recorded l d x)"
| "after cfg d (Finished (Inl e), w) l = (consistent cfg w l \<and> (e \<in> {OStorage, OBinding} \<or> live w l))"

lemma read_consistent:
  assumes "consistent cfg w l" "readLedger cfg i w = Inr (Some l')"
  shows "l' = l \<and> lg_generation l \<noteq> 0"
  using assms ledger_read_unique
  by (auto simp: readLedger_def consistent_def rbind_eq_Inr split: if_splits option.splits)

lemma refresh_live:
  assumes "consistent cfg w l" "live w l" "refresh_ledger cfg i w = (r, w')"
  shows "w' = w"
  using assms(3) read_consistent [OF assms(1), of i] assms(2)
  by (auto simp: refresh_ledger_def live_def split: sum.splits option.splits if_splits)

lemma write_cases:
  assumes "writeLedger cfg i cs w = (r, w')"
  defines "l' \<equiv> \<lparr>lg_binding = oc_binding cfg, lg_generation = lg_generation (ao_current w) + 1, lg_cases = cs\<rparr>"
  obtains (unchanged) e where "r = Inl e" "e \<in> {OStorage, OBinding}" "w' = w"
    | (moved) e where "r = Inl e" "e \<in> {OStorage, OBinding}" "w' = w\<lparr>ao_disk := Some (ledger_json l')\<rparr>"
    | (written) "r = Inr ()" "w' = w\<lparr>ao_disk := Some (ledger_json l'), ao_current := l', ao_saved := True\<rparr>"
proof -
  have *: "ledgerCopy sha b v = Inl e \<Longrightarrow> e \<in> {OStorage, OBinding}" for sha b v e
    by (auto simp: ledgerCopy_def split: if_splits option.splits)
  show ?thesis
    using assms(1) that *
    by (auto simp: writeLedger_def Let_def l'_def readLedger_def rbind_eq_Inl rbind_eq_Inr
        split: if_splits write_result.splits sum.splits option.splits)
qed

lemma write_consistent:
  assumes "writeLedger cfg i cs w = (r, w')" "consistent cfg w l" "live w l" "fit (ao_wire w) cs" "kept (lg_cases l) cs"
  shows "ao_wire w' = ao_wire w \<and> ao_broken w' = ao_broken w \<and> ao_closed w' = ao_closed w \<and>
    (\<exists>l'. consistent cfg w' l' \<and> kept (lg_cases l) (lg_cases l') \<and>
       (case r of Inl e \<Rightarrow> e \<in> {OStorage, OBinding} | Inr _ \<Rightarrow> live w' l' \<and> lg_cases l' = cs))"
proof -
  define l' where "l' = \<lparr>lg_binding = oc_binding cfg, lg_generation = lg_generation (ao_current w) + 1, lg_cases = cs\<rparr>"
  have *: "consistent cfg (w\<lparr>ao_disk := Some (ledger_json l')\<rparr>) l'"
    using assms(2-4) by (auto simp: consistent_def live_def l'_def)
  then have **: "consistent cfg (w\<lparr>ao_disk := Some (ledger_json l'), ao_current := l', ao_saved := True\<rparr>) l'"
    by (simp add: consistent_def)
  have gen: "lg_generation l' \<noteq> 0" "lg_cases l' = cs" using assms(2,3) by (auto simp: consistent_def live_def l'_def)
  from assms(1) show ?thesis
  proof (cases rule: write_cases)
    case (unchanged e)
    then show ?thesis using assms(2) by (auto intro!: exI [of _ l])
  next
    case (moved e)
    then show ?thesis using * assms(5) gen by (auto simp: l'_def [symmetric] intro!: exI [of _ l'])
  next
    case written
    then show ?thesis using ** assms(5) gen by (auto simp: l'_def [symmetric] live_def intro!: exI [of _ l'])
  qed
qed

definition may_settle :: "(utext \<times> utext \<times> utext) list \<Rightarrow> stored_case \<Rightarrow> case_state \<Rightarrow> bool" where
  "may_settle wire c s \<longleftrightarrow> \<not> terminal_case (sk_state c) \<and>
     (s = CUnknown \<or> (s = CNotSent \<and> wire_of c \<notin> set wire) \<or> (s = CVerified \<and> wire_of c \<in> set wire))"

lemma settle_after:
  assumes "settle_case cfg i t n s r m w = (x, w')" "consistent cfg w l" "live w l"
    and "n < length (lg_cases l)" "sk_key (lg_cases l ! n) = dl_key d" "sk_text (lg_cases l ! n) = dl_text d"
    and "may_settle (ao_wire w) (lg_cases l ! n) s"
  shows "\<exists>l'. after cfg d (Finished x, w') l' \<and> kept (lg_cases l) (lg_cases l') \<and> ao_wire w' = ao_wire w"
proof -
  define c0 where "c0 = (lg_cases l ! n)\<lparr>sk_state := s, sk_settled := Some t, sk_reason := Some r\<rparr>"
  define c where "c = (case m of None \<Rightarrow> c0 | Some k \<Rightarrow> c0\<lparr>sk_message := Some k\<rparr>)"
  have c: "sk_key c = dl_key d" "sk_text c = dl_text d" "sk_state c = s" "wire_of c = wire_of (lg_cases l ! n)"
    using assms(5,6) by (auto simp: c_def c0_def wire_of_def split: option.splits)
  have cur: "ao_current w = l" using assms(3) by (simp add: live_def)
  show ?thesis
  proof (cases "case_ok (oc_sha cfg) c")
    case False
    then have "x = Inl OStorage" "w' = w"
      using assms(1) unfolding settle_case_def cur Let_def c0_def [symmetric] c_def [symmetric] by auto
    then show ?thesis using assms(2) by (auto intro!: exI [of _ l])
  next
    case True
    obtain y w1 where w1: "writeLedger cfg i ((lg_cases l)[n := c]) w = (y, w1)" by fastforce
    have fits: "fit (ao_wire w) ((lg_cases l)[n := c])" "kept (lg_cases l) ((lg_cases l)[n := c])"
      using assms(2,4,7) c
      by (auto intro!: fit_update kept_update simp: consistent_def may_settle_def sent_state_def)
    from write_consistent [OF w1 assms(2,3) fits] obtain l' where
      l': "consistent cfg w1 l'" "kept (lg_cases l) (lg_cases l')" "ao_wire w1 = ao_wire w"
        "case y of Inl e \<Rightarrow> e \<in> {OStorage, OBinding} | Inr _ \<Rightarrow> live w1 l' \<and> lg_cases l' = (lg_cases l)[n := c]"
      by blast
    have x: "(x, w') = (case y of Inr _ \<Rightarrow> (Inr (alert_outcome_of c), w1)
        | Inl _ \<Rightarrow> (Inr ((alert_outcome_of c)\<lparr>al_state := CUnknown, al_reason := APersistenceUnknown\<rparr>), w1\<lparr>ao_broken := True\<rparr>))"
      using assms(1) True w1 unfolding settle_case_def cur Let_def c0_def [symmetric] c_def [symmetric] replace_case_def
      by (auto split: sum.splits)
    show ?thesis
    proof (cases y)
      case (Inl e)
      have "consistent cfg (w1\<lparr>ao_broken := True\<rparr>) l'" using l'(1) by (simp add: consistent_def)
      then show ?thesis using x l' Inl by (auto simp: recorded_def intro!: exI [of _ l'])
    next
      case (Inr u)
      have "c \<in> set (lg_cases l')" using l'(4) Inr assms(4) by (simp add: set_update_memI)
      moreover have "terminal_case s" using assms(7) by (auto simp: may_settle_def terminal_case_def)
      ultimately have "recorded l' d (alert_outcome_of c)"
        using c by (auto simp: recorded_def alert_outcome_of_def terminal_case_def intro!: bexI [of _ c] split: case_state.splits)
      then show ?thesis using x l' Inr by (auto intro!: exI [of _ l'])
    qed
  qed
qed

lemmas finished_defs = settle_closed_def aborted_def lease_ok_def

definition settles :: "outbox_cfg \<Rightarrow> outbox \<Rightarrow> nat \<Rightarrow> progress \<times> outbox \<Rightarrow> case_state set \<Rightarrow> bool" where
  \<comment> \<open>The segment ends by settling the case in one of these states.\<close>
  "settles cfg w n p ss \<longleftrightarrow> (\<exists>i t s r m. s \<in> ss \<and> p = finished (settle_case cfg i t n s r m w))"

lemma settlesI [intro]: "s \<in> ss \<Longrightarrow> settles cfg w n (finished (settle_case cfg i t n s r m w)) ss"
  unfolding settles_def by blast

lemma settle_closed_settles [intro]: "settles cfg w n (finished (settle_closed cfg i d n joined r w)) {CNotSent, CUnknown}"
  by (auto simp: settle_closed_def)

lemma settles_after:
  assumes "settles cfg w n p ss" "consistent cfg w l" "live w l" "n < length (lg_cases l)"
    and "sk_key (lg_cases l ! n) = dl_key d" "sk_text (lg_cases l ! n) = dl_text d"
    and "\<forall>s \<in> ss. may_settle (ao_wire w) (lg_cases l ! n) s"
  shows "\<exists>l'. after cfg d p l' \<and> kept (lg_cases l) (lg_cases l') \<and> ao_wire (snd p) = ao_wire w"
proof -
  obtain i t s r m where s: "s \<in> ss" and p: "p = finished (settle_case cfg i t n s r m w)"
    using assms(1) by (auto simp: settles_def)
  obtain x w' where x: "settle_case cfg i t n s r m w = (x, w')" by fastforce
  show ?thesis using settle_after [OF x assms(2-6)] assms(7) s by (auto simp: p x)
qed

lemma open_lease_cases:
  "settles cfg w n (open_lease cfg i d n w) {CNotSent, CUnknown} \<or>
   open_lease cfg i d n w = (Finished (Inl OStorage), w) \<or>
   (let c = (lg_cases (ao_current w) ! n)\<lparr>sk_state := CSending\<rparr> in
    \<exists>x w' joined. replace_case cfg i n c w = (x, w') \<and>
      open_lease cfg i d n w = (case x of Inl e \<Rightarrow> (Finished (Inl e), w') | Inr _ \<Rightarrow> (Going (Leased n joined), w')))"
proof -
  obtain x w' where "replace_case cfg i n ((lg_cases (ao_current w) ! n)\<lparr>sk_state := CSending\<rparr>) w = (x, w')" by fastforce
  then show ?thesis
    by (auto simp: open_lease_def Let_def split: lease_answer.splits sum.splits)
qed

lemma last_check_cases:
  "settles cfg w n (last_check cfg i d n joined w) {CNotSent, CUnknown} \<or>
   last_check cfg i d n joined w = (Going (Checked n joined), w)"
  by (auto simp: last_check_def split: option.splits)

lemma finish_alert_cases: "settles cfg w n (finish_alert cfg i d n joined w) {CVerified, CUnknown}"
  by (auto simp: finish_alert_def split: option.splits)

lemma open_lease_after:
  assumes "consistent cfg w l" "live w l" "at_stage w l d (Claimed n)"
  shows "\<exists>l'. after cfg d (open_lease cfg i d n w) l' \<and> kept (lg_cases l) (lg_cases l') \<and>
    ao_wire (snd (open_lease cfg i d n w)) = ao_wire w"
proof -
  have at: "n < length (lg_cases l)" "sk_key (lg_cases l ! n) = dl_key d" "sk_text (lg_cases l ! n) = dl_text d"
    "sk_state (lg_cases l ! n) = CReserved" and cur: "ao_current w = l"
    using assms(2,3) by (auto simp: at_stage_def Let_def live_def)
  have fit: "fit (ao_wire w) (lg_cases l)" using assms(1) by (simp add: consistent_def)
  have key: "dl_key d \<notin> fst ` set (ao_wire w)"
    using fit_not_sent [OF fit nth_mem [OF at(1)]] at by (simp add: sent_state_def)
  then have unsent: "wire_of (lg_cases l ! n) \<notin> set (ao_wire w)" using unsent_wire at(2) by metis
  define c where "c = (lg_cases l ! n)\<lparr>sk_state := CSending\<rparr>"
  from open_lease_cases [of cfg w n i d, unfolded cur, folded c_def] consider
    (settled) "settles cfg w n (open_lease cfg i d n w) {CNotSent, CUnknown}"
    | (bad) "open_lease cfg i d n w = (Finished (Inl OStorage), w)"
    | (marked) x w' joined where "replace_case cfg i n c w = (x, w')"
      "open_lease cfg i d n w = (case x of Inl e \<Rightarrow> (Finished (Inl e), w') | Inr _ \<Rightarrow> (Going (Leased n joined), w'))"
    by (auto simp: Let_def)
  then show ?thesis
  proof cases
    case settled
    show ?thesis by (rule settles_after [OF settled assms(1,2) at(1-3)])
      (use at unsent in \<open>auto simp: may_settle_def terminal_case_def\<close>)
  next
    case bad
    then show ?thesis using assms(1) by (auto intro: exI [of _ l])
  next
    case (marked x w' joined)
    have c: "wire_of c = wire_of (lg_cases l ! n)" "sk_state c = CSending" "sk_key c = dl_key d" "sk_text c = dl_text d"
      using at by (auto simp: c_def wire_of_def)
    have fits: "fit (ao_wire w) ((lg_cases l)[n := c])"
      by (rule fit_update [OF fit at(1) c(1)]) (use at(4) c in \<open>auto simp: terminal_case_def sent_state_def\<close>)
    have k: "kept (lg_cases l) ((lg_cases l)[n := c])"
      by (rule kept_update [OF at(1)]) (simp add: at(4) terminal_case_def)
    from marked(1) have w': "writeLedger cfg i ((lg_cases l)[n := c]) w = (x, w')"
      by (simp add: replace_case_def cur)
    from write_consistent [OF w' assms(1,2) fits k] obtain l' where
      l': "consistent cfg w' l'" "kept (lg_cases l) (lg_cases l')" "ao_wire w' = ao_wire w"
        "case x of Inl e \<Rightarrow> e \<in> {OStorage, OBinding} | Inr _ \<Rightarrow> live w' l' \<and> lg_cases l' = (lg_cases l)[n := c]"
      by blast
    show ?thesis
    proof (cases x)
      case (Inl e)
      then show ?thesis using marked(2) l' by (auto intro!: exI [of _ l'])
    next
      case (Inr u)
      have "at_stage w' l' d (Leased n joined)"
        using l' Inr at(1) c key by (simp add: at_stage_def)
      then show ?thesis using marked(2) l' Inr by (auto intro!: exI [of _ l'])
    qed
  qed
qed

lemma stage_after:
  assumes "consistent cfg w l" "live w l" "at_stage w l d st"
  shows "\<exists>l'. after cfg d (next_stage cfg i d st w) l' \<and> kept (lg_cases l) (lg_cases l')"
proof (cases st)
  case (Claimed n)
  then show ?thesis using open_lease_after [OF assms(1,2)] assms(3)
    unfolding Claimed next_stage.simps by blast
next
  case (Leased n joined)
  then have at: "n < length (lg_cases l)" "sk_key (lg_cases l ! n) = dl_key d" "sk_text (lg_cases l ! n) = dl_text d"
    "sk_state (lg_cases l ! n) = CSending" "dl_key d \<notin> fst ` set (ao_wire w)"
    using assms(3) by (simp_all add: at_stage_def Let_def, metis)
  then have unsent: "wire_of (lg_cases l ! n) \<notin> set (ao_wire w)" using unsent_wire at(2) by metis
  from last_check_cases [of cfg w n i d joined] show ?thesis
  proof
    assume settled: "settles cfg w n (last_check cfg i d n joined w) {CNotSent, CUnknown}"
    have "\<exists>l'. after cfg d (last_check cfg i d n joined w) l' \<and> kept (lg_cases l) (lg_cases l') \<and>
      ao_wire (snd (last_check cfg i d n joined w)) = ao_wire w"
      by (rule settles_after [OF settled assms(1,2) at(1-3)])
        (use at unsent in \<open>auto simp: may_settle_def terminal_case_def\<close>)
    then show ?thesis using Leased by auto
  next
    assume "last_check cfg i d n joined w = (Going (Checked n joined), w)"
    then show ?thesis using Leased assms by (auto simp: at_stage_def Let_def intro!: exI [of _ l])
  qed
next
  case (Checked n joined)
  let ?c = "lg_cases l ! n"
  have at: "n < length (lg_cases l)" "sk_key ?c = dl_key d" "sk_text ?c = dl_text d"
    "sk_state ?c = CSending" "dl_key d \<notin> fst ` set (ao_wire w)" and cur: "ao_current w = l"
    using Checked assms(2,3) by (simp_all add: at_stage_def Let_def live_def, metis)
  have sent: "send_alert d n joined w = (Going (Sent n joined), w\<lparr>ao_wire := ao_wire w @ [wire_of ?c]\<rparr>)"
    using at(2,3) by (simp add: send_alert_def cur wire_of_def)
  have "fit (ao_wire w @ [wire_of ?c]) (lg_cases l)"
    by (rule fit_send [OF _ nth_mem [OF at(1)] at(4)]) (use assms(1) at in \<open>auto simp: consistent_def\<close>)
  then show ?thesis using Checked sent assms at
    by (auto simp: at_stage_def Let_def consistent_def live_def intro!: exI [of _ l])
next
  case (Sent n joined)
  then have at: "n < length (lg_cases l)" "sk_key (lg_cases l ! n) = dl_key d" "sk_text (lg_cases l ! n) = dl_text d"
    "sk_state (lg_cases l ! n) = CSending" "wire_of (lg_cases l ! n) \<in> set (ao_wire w)"
    using assms(3) by (auto simp: at_stage_def Let_def)
  have "\<exists>l'. after cfg d (finish_alert cfg i d n joined w) l' \<and> kept (lg_cases l) (lg_cases l') \<and>
      ao_wire (snd (finish_alert cfg i d n joined w)) = ao_wire w"
    by (rule settles_after [OF finish_alert_cases assms(1,2) at(1-3)])
      (use at in \<open>auto simp: may_settle_def terminal_case_def\<close>)
  then show ?thesis using Sent by auto
qed

lemma find_case_Some: "find_case w k = Some n \<Longrightarrow> n < length (lg_cases (ao_current w)) \<and> sk_key (lg_cases (ao_current w) ! n) = k"
  by (auto simp: find_case_def find_Some_iff)

lemma find_case_None: "find_case w k = None \<Longrightarrow> k \<notin> sk_key ` set (lg_cases (ao_current w))"
  by (auto simp: find_case_def find_None_iff in_set_conv_nth)

lemma claim_existing:
  assumes "consistent cfg w l" "live w l" "find_case w (dl_key d) = Some n"
  shows "\<exists>l'. after cfg d (claim_case cfg i d w) l' \<and> kept (lg_cases l) (lg_cases l')"
proof -
  let ?c = "lg_cases l ! n"
  have cur: "ao_current w = l" using assms(2) by (simp add: live_def)
  have n: "n < length (lg_cases l)" "sk_key ?c = dl_key d" using find_case_Some [OF assms(3)] by (simp_all add: cur)
  have fit: "fit (ao_wire w) (lg_cases l)" using assms(1) by (simp add: consistent_def)
  have claim: "claim_case cfg i d w =
    (if sk_revision ?c \<noteq> dl_revision d \<or> sk_text ?c \<noteq> dl_text d \<or> sk_hash ?c \<noteq> oc_sha cfg (dl_text d)
     then (Finished (Inl OConflict), w)
     else (case sk_state ?c of
             CReserved \<Rightarrow> finished (settle_case cfg i (dl_clock d 1) n CNotSent AInterruptedBefore None w)
           | CSending \<Rightarrow> finished (settle_case cfg i (dl_clock d 1) n CUnknown AInterruptedAfter None w)
           | _ \<Rightarrow> (Finished (Inr (alert_outcome_of ?c)), w)))"
    by (simp add: claim_case_def assms(3) cur Let_def)
  have going: "\<exists>l'. after cfg d (finished (settle_case cfg i t n s r m w)) l' \<and> kept (lg_cases l) (lg_cases l')"
    if "may_settle (ao_wire w) ?c s" "sk_text ?c = dl_text d" for t s r m
    using settles_after [OF settlesI assms(1,2) n(1,2) that(2), of s "{s}"] that(1) by blast
  have unsent: "wire_of ?c \<notin> set (ao_wire w)" if "sk_state ?c = CReserved"
    using fit_not_sent [OF fit nth_mem [OF n(1)]] that by (force simp: sent_state_def wire_of_def)
  show ?thesis
  proof (cases "sk_revision ?c \<noteq> dl_revision d \<or> sk_text ?c \<noteq> dl_text d \<or> sk_hash ?c \<noteq> oc_sha cfg (dl_text d)")
    case True
    then have "claim_case cfg i d w = (Finished (Inl OConflict), w)" unfolding claim by (rule if_P)
    then show ?thesis using assms(1,2) by (auto intro!: exI [of _ l])
  next
    case False
    then have same: "sk_text ?c = dl_text d" by simp
    have claim': "claim_case cfg i d w = (case sk_state ?c of
             CReserved \<Rightarrow> finished (settle_case cfg i (dl_clock d 1) n CNotSent AInterruptedBefore None w)
           | CSending \<Rightarrow> finished (settle_case cfg i (dl_clock d 1) n CUnknown AInterruptedAfter None w)
           | _ \<Rightarrow> (Finished (Inr (alert_outcome_of ?c)), w))" unfolding claim using False by (rule if_not_P)
    show ?thesis
    proof (cases "terminal_case (sk_state ?c)")
      case True
      then have "recorded l d (alert_outcome_of ?c)"
        using n same by (auto simp: recorded_def alert_outcome_of_def terminal_case_def intro!: bexI [of _ ?c])
      moreover have "claim_case cfg i d w = (Finished (Inr (alert_outcome_of ?c)), w)"
        using True unfolding claim' by (auto simp: terminal_case_def)
      ultimately show ?thesis using assms(1,2) by (auto intro!: exI [of _ l])
    next
      case False
      then consider "sk_state ?c = CReserved" | "sk_state ?c = CSending"
        by (cases "sk_state ?c") (auto simp: terminal_case_def)
      then show ?thesis using going same unsent
        by cases (simp_all add: claim' may_settle_def terminal_case_def)
    qed
  qed
qed

lemma claim_new:
  assumes "consistent cfg w l" "live w l" "find_case w (dl_key d) = None"
  shows "\<exists>l'. after cfg d (claim_case cfg i d w) l' \<and> kept (lg_cases l) (lg_cases l')"
proof -
  have cur: "ao_current w = l" using assms(2) by (simp add: live_def)
  define c where "c = \<lparr>sk_key = dl_key d, sk_revision = dl_revision d, sk_text = dl_text d,
    sk_hash = oc_sha cfg (dl_text d), sk_random = dl_random d, sk_reserved = dl_clock d 0,
    sk_state = CReserved, sk_settled = None, sk_reason = None, sk_message = None\<rparr>"
  obtain x w' where x: "writeLedger cfg i (lg_cases l @ [c]) w = (x, w')" by fastforce
  have claim: "claim_case cfg i d w =
    (if max_cases \<le> length (lg_cases l) then (Finished (Inl OCapacity), w)
     else if \<not> case_ok (oc_sha cfg) c then (Finished (Inl OStorage), w)
     else (case x of Inl e \<Rightarrow> (Finished (Inl e), w')
             | Inr _ \<Rightarrow> (Going (Claimed (length (lg_cases (ao_current w')) - 1)), w')))"
    by (simp add: claim_case_def assms(3) cur Let_def c_def [symmetric] x)
  have fits: "fit (ao_wire w) (lg_cases l @ [c])"
    using assms(1) find_case_None [OF assms(3)] by (intro fit_append) (auto simp: consistent_def cur c_def)
  from write_consistent [OF x assms(1,2) fits kept_append] obtain l' where
    l': "consistent cfg w' l'" "kept (lg_cases l) (lg_cases l')"
      "case x of Inl e \<Rightarrow> e \<in> {OStorage, OBinding} | Inr _ \<Rightarrow> live w' l' \<and> lg_cases l' = lg_cases l @ [c]"
    by blast
  show ?thesis
  proof (cases x)
    case (Inl e)
    then show ?thesis using l' assms(1,2) unfolding claim by (auto intro: exI [of _ l] exI [of _ l'])
  next
    case (Inr u)
    then have "ao_current w' = l'" "lg_cases l' = lg_cases l @ [c]" using l' by (auto simp: live_def)
    then have "at_stage w' l' d (Claimed (length (lg_cases (ao_current w')) - 1))"
      by (simp add: at_stage_def c_def)
    then show ?thesis using Inr l' assms(1,2) unfolding claim by (auto intro: exI [of _ l] exI [of _ l'])
  qed
qed

lemma claim_after:
  assumes "consistent cfg w l" "live w l"
  shows "\<exists>l'. after cfg d (claim_case cfg i d w) l' \<and> kept (lg_cases l) (lg_cases l')"
  using claim_existing [OF assms] claim_new [OF assms] by (cases "find_case w (dl_key d)") blast+

section \<open>Whole deliveries and interleavings\<close>

definition system_ok :: "outbox_cfg \<Rightarrow> alert_system \<Rightarrow> ledger \<Rightarrow> bool" where
  "system_ok cfg s l \<longleftrightarrow> consistent cfg (fst s) l \<and>
     (case snd s of
        None \<Rightarrow> ao_broken (fst s) \<or> live (fst s) l
      | Some (d, st) \<Rightarrow> live (fst s) l \<and> at_stage (fst s) l d st)"

lemma contain_ok:
  assumes "after cfg d (Finished r, w) l"
  shows "system_ok cfg (snd (contain (r, w)), None) l"
  using assms by (cases r) (auto simp: system_ok_def consistent_def live_def)

lemma contain_error_ok:
  assumes "consistent cfg w l" "e \<in> {OStorage, OBinding}"
  shows "system_ok cfg (snd (contain (Inl e :: outbox_error + 'a, w)), None) l"
  using assms by (auto simp: system_ok_def consistent_def)

lemma running_ok: "after cfg d p l \<Longrightarrow> system_ok cfg (running d p) l"
  using contain_ok by (cases "(d, p)" rule: running.cases) (simp_all add: system_ok_def)

lemma refresh_error: "refresh_ledger cfg i w = (Inl e, w') \<Longrightarrow> e \<in> {OStorage, OBinding}"
  by (auto simp: refresh_ledger_def readLedger_def ledgerCopy_def rbind_eq_Inl rbind_eq_Inr split: sum.splits option.splits if_splits)

lemma admitted_ok:
  assumes "system_ok cfg (w, None) l"
  shows "\<exists>l'. system_ok cfg (admit_delivery cfg i d w) l' \<and> kept (lg_cases l) (lg_cases l')"
proof (cases "\<not> delivery_input_ok d \<or> ao_closed w \<or> ao_broken w")
  case True
  then show ?thesis using assms by (auto simp: admit_delivery_def)
next
  case False
  then have ok: "consistent cfg w l" "live w l" using assms by (auto simp: system_ok_def)
  obtain x w1 where x: "refresh_ledger cfg i w = (x, w1)" by fastforce
  have w1: "w1 = w" by (rule refresh_live [OF ok x])
  show ?thesis
  proof (cases x)
    case (Inl e)
    have "system_ok cfg (running d (Finished (Inl e), w)) l"
      using contain_error_ok [OF ok(1)] refresh_error [of cfg i w e w1] x Inl by simp
    moreover have "admit_delivery cfg i d w = running d (Finished (Inl e), w)"
      using False x Inl w1 by (simp add: admit_delivery_def)
    ultimately show ?thesis using kept_refl by metis
  next
    case (Inr u)
    then show ?thesis using False x w1 claim_after [OF ok] running_ok by (fastforce simp: admit_delivery_def)
  qed
qed

lemma query_ok:
  assumes "system_ok cfg (w, None) l"
  shows "system_ok cfg (snd (enqueue cfg i (\<lambda>w1. (Inr x, w1)) w), None) l"
proof (cases "ao_closed w \<or> ao_broken w")
  case True
  then show ?thesis using assms by (auto simp: enqueue_def)
next
  case False
  then have ok: "consistent cfg w l" "live w l" using assms by (auto simp: system_ok_def)
  obtain y w1 where y: "refresh_ledger cfg i w = (y, w1)" by fastforce
  have w1: "w1 = w" by (rule refresh_live [OF ok y])
  show ?thesis
  proof (cases y)
    case (Inl e)
    then have "e \<in> {OStorage, OBinding}" using refresh_error y by blast
    moreover have "enqueue cfg i (\<lambda>w1. (Inr x, w1)) w = contain (Inl e, w)"
      using False y w1 Inl by (simp add: enqueue_def)
    ultimately show ?thesis using contain_error_ok [OF ok(1)] by metis
  next
    case (Inr u)
    then show ?thesis using False y w1 ok by (auto simp: enqueue_def system_ok_def)
  qed
qed

lemma restarted_ok:
  assumes "consistent cfg w l" "openStandingCommunityAlertOutbox cfg i w = (Inr (), w')"
  shows "system_ok cfg (w', None) l"
proof -
  let ?w = "w\<lparr>ao_current := empty_ledger cfg, ao_saved := False, ao_broken := False, ao_closed := False\<rparr>"
  have c: "consistent cfg ?w l" using assms(1) by (simp add: consistent_def)
  have r: "refresh_ledger cfg i ?w = (Inr (), w')"
    using assms(2) by (auto simp: openStandingCommunityAlertOutbox_def split: if_splits)
  show ?thesis
  proof (cases "lg_generation l = 0")
    case True
    then have "l = empty_ledger cfg" using c by (cases l) (auto simp: consistent_def empty_ledger_def)
    moreover have "w' = ?w" using r True c by (auto simp: refresh_ledger_def readLedger_def consistent_def split: if_splits)
    ultimately show ?thesis using c True by (simp add: system_ok_def live_def)
  next
    case False
    then obtain l' where "readLedger cfg i ?w = Inr (Some l')" "w' = ?w\<lparr>ao_current := l', ao_saved := True\<rparr>"
      using r c by (auto simp: refresh_ledger_def consistent_def readLedger_def rbind_eq_Inr split: sum.splits option.splits if_splits)
    with read_consistent [OF c] have "w' = ?w\<lparr>ao_current := l, ao_saved := True\<rparr>" by blast
    then show ?thesis using c False by (simp add: system_ok_def live_def consistent_def)
  qed
qed

lemma step_ok:
  assumes "alert_step cfg s s'" "system_ok cfg s l"
  shows "\<exists>l'. system_ok cfg s' l' \<and> kept (lg_cases l) (lg_cases l')"
  using assms(1)
proof cases
  case (admit w i d)
  then show ?thesis using admitted_ok assms(2) by simp
next
  case (advance w d st i)
  then show ?thesis using stage_after [of cfg w l d st i] running_ok assms(2) by (fastforce simp: system_ok_def)
next
  case (query w i)
  then show ?thesis using query_ok assms(2) by (auto intro!: exI [of _ l])
next
  case (close w run)
  then have "system_ok cfg s' l" using assms(2)
    by (auto simp: system_ok_def close_outbox_def consistent_def live_def at_stage_def split: option.splits)
  then show ?thesis by (auto intro!: exI [of _ l])
next
  case (restart i w w' run)
  then have "consistent cfg w l" using assms(2) by (simp add: system_ok_def)
  then show ?thesis using restarted_ok restart by (auto intro!: exI [of _ l])
qed

lemma steps_ok:
  assumes "alert_steps cfg s s'" "system_ok cfg s l"
  shows "\<exists>l'. system_ok cfg s' l' \<and> kept (lg_cases l) (lg_cases l')"
  using assms
proof (induction arbitrary: l rule: rtranclp_induct)
  case base
  then show ?case by (auto intro: exI [of _ l])
next
  case (step s1 s2)
  from step.IH [OF step.prems] obtain l1 where "system_ok cfg s1 l1" "kept (lg_cases l) (lg_cases l1)" by blast
  then show ?case using step_ok [OF step.hyps(2)] kept_trans by blast
qed

lemma fresh_ok: "system_ok cfg (fresh_outbox cfg, None) (empty_ledger cfg)"
  by (simp add: system_ok_def consistent_def live_def fresh_outbox_def empty_ledger_def fit_def)

lemma and_then_after:
  assumes "after cfg d p l"
  shows "\<exists>l'. after cfg d (and_then cfg i d p) l' \<and> kept (lg_cases l) (lg_cases l')"
proof (cases p)
  case (Pair pr w)
  then show ?thesis using assms stage_after by (cases pr) auto
qed

lemma and_then_pow_after:
  assumes "after cfg d p l"
  shows "\<exists>l'. after cfg d ((and_then cfg i d ^^ k) p) l' \<and> kept (lg_cases l) (lg_cases l')"
  using assms
proof (induction k)
  case (Suc k)
  then obtain l1 where l1: "after cfg d ((and_then cfg i d ^^ k) p) l1" "kept (lg_cases l) (lg_cases l1)" by blast
  from and_then_after [OF l1(1), of i] l1(2) kept_trans show ?case by (simp, blast)
qed (auto intro: exI [of _ l])

lemma deliver_ok:
  assumes "deliver cfg i d w = (Inr x, w')" "system_ok cfg (w, None) l"
  shows "\<exists>l'. system_ok cfg (w', None) l' \<and> recorded l' d x"
proof -
  from assms(1) have idle: "\<not> ao_closed w" "\<not> ao_broken w" and
    e: "enqueue cfg i (\<lambda>w1. settled ((and_then cfg i d ^^ 4) (claim_case cfg i d w1))) w = (Inr x, w')"
    by (auto simp: deliver_def enqueue_def split: if_splits)
  then have ok: "consistent cfg w l" "live w l" using assms(2) by (auto simp: system_ok_def)
  obtain y w1 where y: "refresh_ledger cfg i w = (y, w1)" by fastforce
  have w1: "w1 = w" by (rule refresh_live [OF ok y])
  from claim_after [OF ok] obtain l1 where "after cfg d (claim_case cfg i d w) l1" by blast
  from and_then_pow_after [OF this] obtain l2 where
    l2: "after cfg d ((and_then cfg i d ^^ 4) (claim_case cfg i d w)) l2" by blast
  obtain p w2 where p: "(and_then cfg i d ^^ 4) (claim_case cfg i d w) = (p, w2)" by fastforce
  have "p = Finished (Inr x)" "w2 = w'"
    using e idle y w1 p by (cases y; cases p; fastforce simp: enqueue_def elim: contain.elims)+
  then have "after cfg d (Finished (Inr x), w') l2" using l2 p by simp
  then show ?thesis by (auto simp: system_ok_def)
qed

lemma filter_unique:
  assumes "distinct (map f xs)" "x \<in> set xs"
  shows "filter (\<lambda>y. f y = f x) xs = [x]"
  using assms
proof (induction xs)
  case (Cons a xs)
  show ?case
  proof (cases "a = x")
    case True
    then have "f x \<notin> f ` set xs" using Cons.prems(1) by simp
    then have "filter (\<lambda>y. f y = f x) xs = []" unfolding filter_empty_conv by (metis image_eqI)
    then show ?thesis using True by simp
  next
    case False
    then show ?thesis using Cons by force
  qed
qed simp

text \<open>
  C19 An alert is never sent twice: through any deliveries of any cases, crashes between any two
  awaits, restarts and failing writes, a case appears on the wire at most once. An outcome that
  says \<open>not-sent\<close> is true for ever after, whatever is delivered later, and one that says
  \<open>verified\<close> stands for exactly one wire call with the text of the request.
\<close>

theorem alert_sent_at_most_once:
  assumes "alert_steps cfg (fresh_outbox cfg, None) (w, None)" "deliver cfg i d w = (Inr x, w1)"
    and "alert_steps cfg (w1, None) s"
  shows "distinct (map fst (ao_wire (fst s))) \<and>
    (al_state x = CNotSent \<longrightarrow> dl_key d \<notin> fst ` set (ao_wire (fst s))) \<and>
    (al_state x = CVerified \<longrightarrow> (\<exists>r. filter (\<lambda>y. fst y = dl_key d) (ao_wire (fst s)) = [(dl_key d, dl_text d, r)]))"
proof -
  obtain l where "system_ok cfg (w, None) l" using steps_ok [OF assms(1) fresh_ok] by blast
  then obtain l1 where l1: "system_ok cfg (w1, None) l1" "recorded l1 d x" using deliver_ok [OF assms(2)] by blast
  then obtain l2 where l2: "system_ok cfg s l2" "kept (lg_cases l1) (lg_cases l2)" using steps_ok [OF assms(3)] by blast
  then have fit: "fit (ao_wire (fst s)) (lg_cases l2)" by (simp add: system_ok_def consistent_def)
  then have once: "distinct (map fst (ao_wire (fst s)))" by (simp add: fit_def)
  have found: "\<exists>c \<in> set (lg_cases l2). sk_key c = dl_key d \<and> sk_text c = dl_text d \<and> sk_state c = al_state x"
    if "al_state x \<noteq> CUnknown" using l1(2) l2(2) that by (auto simp: recorded_def kept_def)
  show ?thesis
  proof (intro conjI impI)
    assume "al_state x = CNotSent"
    then obtain c where "c \<in> set (lg_cases l2)" "sk_key c = dl_key d" "sk_state c = CNotSent" using found by auto
    then show "dl_key d \<notin> fst ` set (ao_wire (fst s))" using fit_not_sent [OF fit, of c] by (simp add: sent_state_def)
  next
    assume "al_state x = CVerified"
    then obtain c where c: "c \<in> set (lg_cases l2)" "sk_key c = dl_key d" "sk_text c = dl_text d" "sk_state c = CVerified"
      using found by auto
    then have "wire_of c \<in> set (ao_wire (fst s))" using fit by (simp add: fit_def)
    then show "\<exists>r. filter (\<lambda>y. fst y = dl_key d) (ao_wire (fst s)) = [(dl_key d, dl_text d, r)]"
      using filter_unique [OF once] c by (force simp: wire_of_def)
  qed (rule once)
qed

definition demo_outbox_cfg :: outbox_cfg where
  "demo_outbox_cfg = \<lparr>oc_binding = \<lparr>ab_workspace = js ''lab'', ab_account = js ''5'', ab_internal = js ''-7'', ab_source = js ''-8''\<rparr>,
     oc_sha = rev\<rparr>"

definition demo_io :: io where "demo_io = \<lparr>io_read = True, io_write = (\<lambda>_. WriteDone)\<rparr>"

definition demo_delivery :: delivery where
  "demo_delivery = \<lparr>dl_key = js ''obs_0123456789abcdef01234567'', dl_revision = 3, dl_text = js ''late'', dl_random = js ''77'',
     dl_clock = (\<lambda>n. 1000 + int n), dl_aborted = (\<lambda>_. False),
     dl_lease = Lease \<lparr>le_account = js ''5'', le_peer = js ''-7'', le_sends = True, le_reads = True, le_closes = Some True\<rparr>,
     dl_policy = Some (JObj [(js ''revision'', JInt 3), (js ''observationEnabled'', JBool True),
       (js ''alertsEnabled'', JBool True), (js ''observedSourcePeerId'', JStr (js ''-8''))]),
     dl_ack = Some (JObj [(js ''messageId'', JInt 41)]),
     dl_readback = (\<lambda>m. Some (JObj [(js ''messageId'', JInt m), (js ''chatId'', JStr (js ''-7'')),
       (js ''accountId'', JStr (js ''5'')), (js ''fromId'', JStr (js ''5'')), (js ''out'', JBool True),
       (js ''text'', JStr (js ''late'')), (js ''replyToMessageId'', JNull), (js ''media'', JBool False),
       (js ''post'', JBool False)]))\<rparr>"

definition demo_delivered :: outbox where
  "demo_delivered = snd (deliver demo_outbox_cfg demo_io demo_delivery (fresh_outbox demo_outbox_cfg))"

lemma demo_alert_deliver:
  "map_sum id al_state (fst (deliver demo_outbox_cfg demo_io demo_delivery (fresh_outbox demo_outbox_cfg))) = Inr CVerified"
  "ao_wire demo_delivered = [(js ''obs_0123456789abcdef01234567'', js ''late'', js ''77'')]"
  by code_simp+

lemma demo_alert_verified:
  obtains x where "deliver demo_outbox_cfg demo_io demo_delivery (fresh_outbox demo_outbox_cfg) = (Inr x, demo_delivered)"
    "al_state x = CVerified"
  using demo_alert_deliver(1) unfolding demo_delivered_def
  by (cases "deliver demo_outbox_cfg demo_io demo_delivery (fresh_outbox demo_outbox_cfg)"; cases "fst (deliver demo_outbox_cfg demo_io demo_delivery (fresh_outbox demo_outbox_cfg))") auto

theorem alert_sent_at_most_once_witness:
  "filter (\<lambda>y. fst y = js ''obs_0123456789abcdef01234567'') (ao_wire demo_delivered) =
     [(js ''obs_0123456789abcdef01234567'', js ''late'', js ''77'')]"
proof -
  obtain x where x: "deliver demo_outbox_cfg demo_io demo_delivery (fresh_outbox demo_outbox_cfg) = (Inr x, demo_delivered)"
    "al_state x = CVerified" by (rule demo_alert_verified)
  have "dl_key demo_delivery = js ''obs_0123456789abcdef01234567''" by (simp add: demo_delivery_def del: js_simps)
  then obtain r where "filter (\<lambda>y. fst y = js ''obs_0123456789abcdef01234567'') (ao_wire demo_delivered) =
      [(js ''obs_0123456789abcdef01234567'', dl_text demo_delivery, r)]"
    using alert_sent_at_most_once [OF rtranclp.rtrancl_refl x(1) rtranclp.rtrancl_refl] x(2) by auto
  then show ?thesis using demo_alert_deliver(2) by simp
qed

end
