(* ===== verification/AlertSize.thy ===== *)
theory AlertSize
  imports AlertProps
begin

text \<open>
  How large a ledger can get: bounds on the UTF-8 size of \<open>JSON.stringify\<close>'s text, and from
  them that a ledger within its capacity of cases is always small enough to be written.
\<close>

section \<open>The size of a text\<close>

lemma utf8_Nil [simp]: "utf8_size [] = 0"
  by (simp add: utf8_size_def)

lemma utf8_single: "utf8_size [c] \<le> 3"
  by (simp add: utf8_size_def)

lemma utf8_Cons2:
  "utf8_size (a # b # r) = (if is_high a \<and> is_low b then 4 + utf8_size r else utf8_size [a] + utf8_size (b # r))"
  by (simp add: utf8_size_def)

lemma low_not_high: "is_low c \<Longrightarrow> \<not> is_high c"
  by (simp add: is_low_def is_high_def)

lemma utf8_low: "is_low d \<Longrightarrow> utf8_size (d # r) = 3 + utf8_size r"
  by (cases r) (auto simp: utf8_Cons2 low_not_high, auto simp: utf8_size_def is_low_def)

lemma utf8_high: "is_high c \<Longrightarrow> utf8_size [c] = 3"
  by (auto simp: utf8_size_def is_high_def)

lemma utf8_append: "utf8_size (a @ b) \<le> utf8_size a + utf8_size b"
proof (induction a rule: code_points.induct)
  case (2 c)
  show ?case
  proof (cases b)
    case (Cons d r)
    then show ?thesis by (cases "is_high c \<and> is_low d") (simp_all add: utf8_Cons2 utf8_low utf8_high)
  qed simp
qed (auto simp: utf8_Cons2)

lemma utf8_Cons: "utf8_size (c # s) \<le> utf8_size [c] + utf8_size s"
  using utf8_append [of "[c]" s] by simp

lemma utf8_length: "utf8_size s \<le> 3 * length s"
proof (induction s)
  case (Cons c s)
  then show ?case using utf8_Cons [of c s] utf8_single [of c] by simp
qed simp

lemma esc_length: "length (esc_unit c) \<le> 6"
  by (simp add: esc_unit_def hex4_def)

lemma units_length: "length (json_units s) \<le> 6 * length s"
proof (induction s rule: json_units.induct)
  case (3 a b r)
  then show ?case using esc_length [of a] by auto
qed (use esc_length in auto)

lemma quote_size: "utf8_size (json_string s) \<le> utf8_size (json_units s) + 2"
proof -
  have "utf8_size (json_string s) \<le> utf8_size [34] + utf8_size (json_units s @ [34])"
    unfolding json_string_def by (rule utf8_Cons)
  moreover have "utf8_size (json_units s @ [34]) \<le> utf8_size (json_units s) + utf8_size [34]"
    by (rule utf8_append)
  ultimately show ?thesis by (simp add: utf8_size_def)
qed

lemma string_size: "utf8_size (json_string s) \<le> 18 * length s + 2"
  using quote_size [of s] utf8_length [of "json_units s"] units_length [of s] by simp

lemma safe_unit_size:
  assumes "\<not> unsafe_unit c" "\<not> is_high c" "\<not> is_low c"
  shows "utf8_size (esc_unit c) \<le> 3"
proof -
  have "\<not> (55296 \<le> c \<and> c \<le> 57343)" using assms by (auto simp: is_high_def is_low_def)
  moreover have "c = 9 \<or> c = 10 \<or> c = 13" if "c < 32" using assms(1) that unfolding unsafe_unit_def by presburger
  moreover have "c \<noteq> 8" "c \<noteq> 12" using assms(1) unfolding unsafe_unit_def by presburger+
  ultimately have "c = 34 \<or> c = 92 \<or> c = 9 \<or> c = 10 \<or> c = 13 \<or> esc_unit c = [c]"
    unfolding esc_unit_def by argo
  then consider "c = 34 \<or> c = 92 \<or> c = 9 \<or> c = 10 \<or> c = 13" | "esc_unit c = [c]" by blast
  then show ?thesis
  proof cases
    case 1
    then show ?thesis by (elim disjE) (simp_all add: esc_unit_def utf8_size_def is_high_def)
  next
    case 2
    then show ?thesis using utf8_single by simp
  qed
qed

lemma safe_units_size:
  assumes "well_formed s" "\<forall>c \<in> set s. \<not> unsafe_unit c"
  shows "utf8_size (json_units s) \<le> 3 * length s"
  using assms
proof (induction s rule: json_units.induct)
  case (2 a)
  then show ?case using safe_unit_size [of a] by (simp add: well_formed_def)
next
  case (3 a b r)
  show ?case
  proof (cases "is_high a \<and> is_low b")
    case True
    then show ?thesis using 3 by (auto simp: well_formed_def utf8_Cons2)
  next
    case False
    then have w: "\<not> is_high a" "\<not> is_low a" "well_formed (b # r)" using "3.prems"(1) by (auto simp: well_formed_def)
    have "utf8_size (json_units (a # b # r)) \<le> utf8_size (esc_unit a) + utf8_size (json_units (b # r))"
      unfolding json_units.simps if_not_P [OF False] by (rule utf8_append)
    then show ?thesis using 3 False w safe_unit_size [of a] by simp
  qed
qed simp

lemma join_size: "utf8_size (join ps) \<le> sum_list (map utf8_size ps) + length ps"
proof (induction ps rule: join.induct)
  case (3 p q ps)
  have "utf8_size (join (p # q # ps)) \<le> utf8_size p + utf8_size (44 # join (q # ps))"
    by (simp add: utf8_append)
  also have "utf8_size (44 # join (q # ps)) \<le> 1 + utf8_size (join (q # ps))"
    using utf8_Cons [of 44 "join (q # ps)"] by (simp add: utf8_size_def)
  finally show ?case using 3 by simp
qed simp_all

lemma wrapped_size: "a < 128 \<Longrightarrow> b < 128 \<Longrightarrow> utf8_size (a # s @ [b]) \<le> utf8_size s + 2"
  using utf8_Cons [of a "s @ [b]"] utf8_append [of s "[b]"] by (simp add: utf8_size_def)

lemma array_size: "utf8_size (stringify (JArr vs)) \<le> sum_list (map (\<lambda>v. utf8_size (stringify v) + 1) vs) + 2"
proof -
  have "utf8_size (join (map stringify vs)) \<le> sum_list (map (\<lambda>v. utf8_size (stringify v) + 1) vs)"
    using join_size [of "map stringify vs"] unfolding sum_list_addf by (simp add: comp_def sum_list_triv)
  then show ?thesis using wrapped_size [of 91 93 "join (map stringify vs)"] by simp
qed

lemma entry_size: "utf8_size (json_string k @ 58 # t) \<le> 18 * length k + 3 + utf8_size t"
  using utf8_append [of "json_string k" "58 # t"] string_size [of k] utf8_Cons [of 58 t] by (simp add: utf8_size_def)

lemma object_size:
  "utf8_size (stringify (JObj kvs)) \<le> sum_list (map (\<lambda>(k, v). 18 * length k + 4 + utf8_size (stringify v)) kvs) + 2"
proof -
  let ?ps = "map (\<lambda>(k, v). json_string k @ 58 # stringify v) kvs"
  have "sum_list (map utf8_size ?ps) + length ?ps \<le> sum_list (map (\<lambda>(k, v). 18 * length k + 4 + utf8_size (stringify v)) kvs)"
  proof (induction kvs)
    case (Cons a kvs)
    then show ?case using entry_size [of "fst a" "stringify (snd a)"] by (cases a) auto
  qed simp
  then show ?thesis using wrapped_size [of 123 125 "join ?ps"] join_size [of ?ps] by simp
qed

lemma show_nat_length: "n < 10 ^ k \<Longrightarrow> 0 < k \<Longrightarrow> length (show_nat n) \<le> k"
proof (induction n arbitrary: k rule: show_nat.induct)
  case (1 n)
  show ?case
  proof (cases "n < 10")
    case True
    then show ?thesis using "1.prems"(2) by (simp add: show_nat.simps)
  next
    case False
    then obtain j where k: "k = Suc j" using "1.prems"(2) by (cases k) auto
    with False "1.prems"(1) have "0 < j" by (cases j) auto
    have "n div 10 < 10 ^ j" using "1.prems"(1) k by (simp add: div_less_iff_less_mult mult.commute)
    then show ?thesis using "1.IH" [OF False, of j] \<open>0 < j\<close> False k by (simp add: show_nat.simps [of n])
  qed
qed

lemma show_int_size: "0 \<le> i \<Longrightarrow> i < 10 ^ 16 \<Longrightarrow> utf8_size (show_int i) \<le> 48"
  using show_nat_length [of "nat i" 16] utf8_length [of "show_nat (nat i)"]
  by (simp add: show_int_def nat_less_iff)

section \<open>The size of a ledger\<close>

lemma digits_length: "digits_from n lo s \<Longrightarrow> length s \<le> Suc n"
  by (auto simp: digits_from_def split: list.splits)

lemma text_value_size: "utf8_size (stringify (JStr s)) \<le> 18 * length s + 2"
  using string_size by simp

lemma number_value_size:
  assumes "1 \<le> i" "i < 10000000000000000"
  shows "utf8_size (stringify (JInt i)) \<le> 48"
  using show_int_size [of i] assms by simp

lemma state_size: "utf8_size (stringify (JStr (js (state_text s)))) \<le> 146"
proof -
  have "length (js (state_text s)) \<le> 8" by (cases s) (simp_all add: js_def)
  then show ?thesis using text_value_size [of "js (state_text s)"] by simp
qed

lemma reason_size: "utf8_size (stringify (JStr (js (reason_text r)))) \<le> 578"
proof -
  have "length (js (reason_text r)) \<le> 32" by (cases r) (simp_all add: js_def)
  then show ?thesis using text_value_size [of "js (reason_text r)"] by simp
qed

definition entries_size :: "(utext \<times> json) list \<Rightarrow> nat" where
  "entries_size kvs = sum_list (map (\<lambda>(k, v). 18 * length k + 4 + utf8_size (stringify v)) kvs)"

lemma entries_size_simps [simp]:
  "entries_size [] = 0"
  "entries_size ((k, v) # kvs) = 18 * length k + 4 + utf8_size (stringify v) + entries_size kvs"
  "entries_size (kvs @ kvs') = entries_size kvs + entries_size kvs'"
  by (simp_all add: entries_size_def)

lemma opt_entry_size:
  assumes "\<forall>x. v = Some x \<longrightarrow> utf8_size (stringify x) \<le> b"
  shows "entries_size (opt_entry k v) \<le> 18 * length k + 4 + b"
  using assms by (cases v) (simp_all add: opt_entry_def js_def)

lemma case_size:
  assumes "case_ok sha c" "length (sha (sk_text c)) = 64"
  shows "utf8_size (stringify (case_json c)) \<le> 7500"
proof -
  have key: "utf8_size (stringify (JStr (sk_key c))) \<le> 506"
    using text_value_size [of "sk_key c"] assms(1) by (simp add: case_ok_def obs_ref_def)
  have rev: "utf8_size (stringify (JInt (sk_revision c))) \<le> 48"
    using assms(1) by (intro number_value_size) (auto simp: case_ok_def valid_revision_def max_safe_def)
  have body: "utf8_size (stringify (JStr (sk_text c))) \<le> 2702"
    using quote_size [of "sk_text c"] safe_units_size [of "sk_text c"] assms(1)
    by (auto simp: case_ok_def alert_text_ok_def)
  have hash: "utf8_size (stringify (JStr (sk_hash c))) \<le> 1154"
    using text_value_size [of "sk_hash c"] assms by (simp add: case_ok_def)
  have rand: "utf8_size (stringify (JStr (sk_random c))) \<le> 344"
    using text_value_size [of "sk_random c"] digits_length [of 18 49 "sk_random c"] assms(1)
    by (simp add: case_ok_def valid_random_id_def positive_number_def)
  have at: "utf8_size (stringify (JInt (sk_reserved c))) \<le> 48"
    using assms(1) by (intro number_value_size) (auto simp: case_ok_def valid_time_def)
  have settled: "entries_size (opt_entry ''settledAt'' (map_option JInt (sk_settled c))) \<le> 18 * 9 + 4 + 48"
  proof -
    have *: "\<forall>x. map_option JInt (sk_settled c) = Some x \<longrightarrow> utf8_size (stringify x) \<le> 48"
      using assms(1) number_value_size by (auto simp: case_ok_def valid_time_def split: if_splits option.splits)
    from opt_entry_size [OF *, of "''settledAt''"] show ?thesis by simp
  qed
  have reason: "entries_size (opt_entry ''reason'' (map_option (\<lambda>r. JStr (js (reason_text r))) (sk_reason c))) \<le> 18 * 6 + 4 + 578"
  proof -
    have *: "\<forall>x. map_option (\<lambda>r. JStr (js (reason_text r))) (sk_reason c) = Some x \<longrightarrow> utf8_size (stringify x) \<le> 578"
      using reason_size by fastforce
    from opt_entry_size [OF *, of "''reason''"] show ?thesis by simp
  qed
  have message: "entries_size (opt_entry ''messageId'' (map_option JInt (sk_message c))) \<le> 18 * 9 + 4 + 48"
  proof -
    have *: "\<forall>x. map_option JInt (sk_message c) = Some x \<longrightarrow> utf8_size (stringify x) \<le> 48"
      using assms(1) number_value_size
      by (auto simp: case_ok_def valid_message_id_def split: if_splits option.splits)
    from opt_entry_size [OF *, of "''messageId''"] show ?thesis by simp
  qed
  have "utf8_size (stringify (case_json c)) \<le> entries_size ([(js ''caseKey'', JStr (sk_key c)), (js ''policyRevision'', JInt (sk_revision c)),
      (js ''text'', JStr (sk_text c)), (js ''textHash'', JStr (sk_hash c)), (js ''randomId'', JStr (sk_random c)),
      (js ''reservedAt'', JInt (sk_reserved c)), (js ''state'', JStr (js (state_text (sk_state c))))] @
      opt_entry ''settledAt'' (map_option JInt (sk_settled c)) @
      opt_entry ''reason'' (map_option (\<lambda>r. JStr (js (reason_text r))) (sk_reason c)) @
      opt_entry ''messageId'' (map_option JInt (sk_message c))) + 2"
    unfolding case_json_def entries_size_def by (rule object_size)
  then show ?thesis
    using key rev body hash rand at settled reason message state_size [of "sk_state c"]
    by (simp add: js_def del: stringify.simps)
qed

lemma binding_size:
  assumes "binding_ok b"
  shows "utf8_size (stringify (binding_json b)) \<le> 5000"
proof -
  have len: "length (ab_workspace b) \<le> 128" "length (ab_account b) \<le> 19" "length (ab_internal b) \<le> 21" "length (ab_source b) \<le> 21"
    using assms digits_length
    by (fastforce simp: binding_ok_def workspace_name_def positive_number_def negative_number_def split: list.splits)+
  have "utf8_size (stringify (binding_json b)) \<le> entries_size [(js ''workspaceId'', JStr (ab_workspace b)),
     (js ''accountId'', JStr (ab_account b)), (js ''internalPeerId'', JStr (ab_internal b)),
     (js ''observedSourcePeerId'', JStr (ab_source b))] + 2"
    unfolding binding_json_def entries_size_def by (rule object_size)
  then show ?thesis
    using len text_value_size [of "ab_workspace b"] text_value_size [of "ab_account b"]
      text_value_size [of "ab_internal b"] text_value_size [of "ab_source b"]
    by (simp add: js_def del: stringify.simps)
qed

lemma ledger_size:
  assumes "ledger_ok cfg l" "\<forall>t. length (oc_sha cfg t) = 64"
  shows "utf8_size (stringify (ledger_json l)) \<le> 2000000"
proof -
  let ?sum = "sum_list (map (\<lambda>v. utf8_size (stringify v) + 1) (map case_json (lg_cases l)))"
  have "?sum \<le> sum_list (map (\<lambda>_. 7501) (lg_cases l))"
    unfolding map_map using case_size assms by (intro sum_list_mono) (fastforce simp: ledger_ok_def)
  then have "?sum \<le> 7501 * 256" using assms(1) by (simp add: sum_list_triv ledger_ok_def max_cases_def)
  then have cases: "utf8_size (stringify (JArr (map case_json (lg_cases l)))) \<le> 7501 * 256 + 2"
    using array_size [of "map case_json (lg_cases l)"] by simp
  have gen: "utf8_size (stringify (JInt (lg_generation l))) \<le> 48"
    using assms(1) by (intro number_value_size) (auto simp: ledger_ok_def max_safe_def)
  have domain: "utf8_size (stringify (JStr ledger_domain)) \<le> 18 * 60 + 2"
    using text_value_size [of ledger_domain] by (simp add: ledger_domain_def js_def)
  have binding: "utf8_size (stringify (binding_json (lg_binding l))) \<le> 5000"
    using assms(1) by (intro binding_size) (simp add: ledger_ok_def)
  have "utf8_size (stringify (ledger_json l)) \<le> entries_size [(js ''domain'', JStr ledger_domain),
     (js ''binding'', binding_json (lg_binding l)), (js ''generation'', JInt (lg_generation l)),
     (js ''cases'', JArr (map case_json (lg_cases l)))] + 2"
    unfolding ledger_json_def entries_size_def by (rule object_size)
  then show ?thesis using cases gen domain binding by (simp add: js_def del: stringify.simps)
qed

text \<open>
  C20 Within its capacity the ledger never meets its byte ceiling: any list of at most 256 valid
  cases, with texts of any admitted length and content, prints to at most 2 MiB of UTF-8, so
  writing it succeeds whenever the disk does, and whoever opens the file afterwards reads exactly
  the ledger that was written.
\<close>

theorem ledger_write_reopens:
  assumes "binding_ok (oc_binding cfg)" "\<forall>c \<in> set cs. case_ok (oc_sha cfg) c" "distinct (map sk_key cs)"
    and "length cs \<le> max_cases" "0 \<le> lg_generation (ao_current w)" "lg_generation (ao_current w) < max_safe"
    and "io_write i (lg_generation (ao_current w) + 1) = WriteDone" "\<forall>t. length (oc_sha cfg t) = 64"
  shows "\<exists>w'. writeLedger cfg i cs w = (Inr (), w') \<and> lg_cases (ao_current w') = cs \<and>
    utf8_size (stringify (ledger_json (ao_current w'))) \<le> max_plain \<and>
    (\<forall>j. io_read j \<longrightarrow> (\<exists>w''. openStandingCommunityAlertOutbox cfg j w' = (Inr (), w'') \<and> ao_current w'' = ao_current w'))"
proof -
  define l where "l = \<lparr>lg_binding = oc_binding cfg, lg_generation = lg_generation (ao_current w) + 1, lg_cases = cs\<rparr>"
  let ?w = "w\<lparr>ao_disk := Some (ledger_json l), ao_current := l, ao_saved := True\<rparr>"
  have ok: "ledger_ok cfg l" using assms(1-6) by (simp add: ledger_ok_def l_def)
  have fits: "\<not> max_plain < utf8_size (stringify (ledger_json l))"
    using ledger_size [OF ok assms(8)] by (simp add: max_plain_def)
  have "ledger_ok \<lparr>oc_binding = oc_binding cfg, oc_sha = oc_sha cfg\<rparr> l" using ok by (simp add: ledger_ok_def)
  moreover have "lg_binding l = oc_binding cfg" by (simp add: l_def)
  ultimately have reads: "ledgerCopy (oc_sha cfg) (oc_binding cfg) (ledger_json l) = Inr l"
    using ledger_read_back [of l "oc_binding cfg" "oc_sha cfg"] by simp
  have gen: "lg_generation l = lg_generation (ao_current w) + 1" by (simp add: l_def)
  have "writeLedger cfg i cs w = (Inr (), ?w)"
    unfolding writeLedger_def Let_def l_def [symmetric] if_not_P [OF fits]
    using assms(7) reads gen by (simp add: readLedger_def)
  moreover have "\<exists>w''. openStandingCommunityAlertOutbox cfg j ?w = (Inr (), w'') \<and> ao_current w'' = l" if "io_read j" for j
    using that assms(1) reads ok
    by (simp add: openStandingCommunityAlertOutbox_def refresh_ledger_def readLedger_def empty_ledger_def ledger_ok_def)
  ultimately show ?thesis using fits by (auto simp: l_def)
qed

definition demo_hash_cfg :: outbox_cfg where
  "demo_hash_cfg = demo_outbox_cfg\<lparr>oc_sha := (\<lambda>_. replicate 64 97)\<rparr>"

definition demo_case :: stored_case where
  "demo_case = \<lparr>sk_key = js ''obs_0123456789abcdef01234567'', sk_revision = 3, sk_text = js ''late'',
     sk_hash = replicate 64 97, sk_random = js ''77'', sk_reserved = 1000, sk_state = CUnknown,
     sk_settled = Some 1001, sk_reason = Some ACloseUnknown, sk_message = Some 41\<rparr>"

lemma demo_case_ok: "case_ok (oc_sha demo_hash_cfg) demo_case" "binding_ok (oc_binding demo_hash_cfg)"
  by code_simp+

theorem ledger_write_reopens_witness:
  "\<exists>w'. writeLedger demo_hash_cfg demo_io [demo_case] (fresh_outbox demo_hash_cfg) = (Inr (), w') \<and>
     lg_cases (ao_current w') = [demo_case]"
proof -
  have "lg_generation (ao_current (fresh_outbox demo_hash_cfg)) = 0"
    by (simp add: fresh_outbox_def empty_ledger_def)
  then show ?thesis
    using ledger_write_reopens [OF demo_case_ok(2), of "[demo_case]" "fresh_outbox demo_hash_cfg" demo_io] demo_case_ok(1)
    by (auto simp: max_cases_def max_safe_def demo_io_def demo_hash_cfg_def)
qed

end
