(* ===== verification/ObservedPage.thy ===== *)
theory ObservedPage
  imports AlertSize
begin

text \<open>
  Pages of an observed source (\<open>standing-observed-source-reader.ts\<close>): the projection of one
  Telegram history response to inert rows, cut to the byte budget, with the private metadata
  that says exactly which rows the page covers.

  A raw message is what GramJS decoded: its class, its own fields and, for the peer, the
  identifier \<open>utils.getPeerId\<close> gives. The table of names built from the response's users and
  chats is the parameter \<open>pc_names\<close>.
\<close>

section \<open>Types\<close>

datatype media_kind = MNone | MPhoto | MDocument | MPoll | MOther

record forwarded =
  fw_date :: int
  fw_source :: "utext option"

record obs_item =
  it_ref :: utext
  it_date :: int
  it_name :: utext
  it_text :: utext
  it_truncated :: bool
  it_media :: media_kind
  it_forwarded :: "forwarded option"

record obs_meta =
  md_peer :: utext
  md_before :: "int option"
  md_limit :: int
  md_highest :: "int option"
  md_lowest :: "int option"
  md_ids :: "int list"
  md_raw :: int
  md_covered :: int
  md_omitted :: int

record obs_page =
  pg_title :: utext
  pg_items :: "obs_item list"
  pg_next :: "int option"
  pg_truncated :: bool
  pg_limit :: int
  pg_raw :: int
  pg_covered :: int
  pg_skipped :: int
  pg_omitted :: int
  pg_meta :: obs_meta \<comment> \<open>what \<open>issued\<close> keeps for this page\<close>

record raw_text =
  rt_id :: int
  rt_peer :: "utext option"
  rt_date :: int
  rt_text :: utext
  rt_from :: "utext option"
  rt_media :: media_kind
  rt_forward :: "(int \<times> utext option \<times> utext option) option"

datatype raw_message =
    MessageEmpty int "utext option"
  | MessageService int "utext option" int
  | MessageText raw_text

record page_cfg =
  pc_sha :: "utext \<Rightarrow> utext"
  pc_names :: "utext \<Rightarrow> utext option"

section \<open>Text\<close>

definition page_bytes :: nat where "page_bytes = 49152"
definition item_bytes :: nat where "item_bytes = 16384"

definition valid_unix :: "int \<Rightarrow> bool" where
  "valid_unix t \<longleftrightarrow> 1 \<le> t \<and> t \<le> 253402300799"

definition bounded_text :: "nat \<Rightarrow> utext \<Rightarrow> bool" where
  "bounded_text n s \<longleftrightarrow> utf8_size s \<le> n \<and> well_formed s"

fun take_points :: "nat \<Rightarrow> utext list \<Rightarrow> utext" where
  "take_points n [] = []"
| "take_points n (p # ps) = (if point_size p \<le> n then p @ take_points (n - point_size p) ps else [])"

definition prefix_bytes :: "utext \<Rightarrow> nat \<Rightarrow> utext" where
  "prefix_bytes s n = take_points n (code_points s)"

definition bidi_unit :: "nat \<Rightarrow> bool" where
  "bidi_unit c \<longleftrightarrow> (127 \<le> c \<and> c \<le> 159) \<or> (8234 \<le> c \<and> c \<le> 8238) \<or> (8294 \<le> c \<and> c \<le> 8297)"

definition label :: "nat \<Rightarrow> utext \<Rightarrow> utext option" where
  "label n s =
     (if bounded_text 4096 s
      then Some (trim (prefix_bytes (trim (map (\<lambda>c. if c \<le> 31 \<or> bidi_unit c then 32 else c) s)) n))
      else None)"

definition safe_text :: "utext \<Rightarrow> utext" where
  "safe_text s = map (\<lambda>c. if c \<le> 8 \<or> (11 \<le> c \<and> c \<le> 31) \<or> bidi_unit c then 32 else c) s"

definition unnamed :: utext where
  \<comment> \<open>The Russian for ``participant (name unavailable)''.\<close>
  "unnamed = [1059, 1095, 1072, 1089, 1090, 1085, 1080, 1082, 32, 40, 1080, 1084, 1103, 32, 1085, 1077, 1076, 1086,
     1089, 1090, 1091, 1087, 1085, 1086, 41]"

section \<open>Rows\<close>

definition expectedRef :: "(utext \<Rightarrow> utext) \<Rightarrow> utext \<Rightarrow> int \<Rightarrow> utext" where
  "expectedRef sha peer i =
     js ''obs_'' @ take 24 (sha (stringify (JArr [JStr (js ''observed-source-v1''), JStr peer, JInt i])))"

definition display_name :: "page_cfg \<Rightarrow> utext \<Rightarrow> utext option \<Rightarrow> utext" where
  "display_name cfg title from =
     (let n = (case from of None \<Rightarrow> title | Some p \<Rightarrow> or_else (pc_names cfg p) []) in
      prefix_bytes (if n = [] then unnamed else n) 128)"

definition optional_label :: "utext option \<Rightarrow> utext option" where
  "optional_label v = (case v of None \<Rightarrow> Some [] | Some s \<Rightarrow> label 128 s)"

definition project_forward :: "(int \<times> utext option \<times> utext option) option \<Rightarrow> forwarded option option" where
  "project_forward h =
     (case h of
        None \<Rightarrow> Some None
      | Some (d, n, a) \<Rightarrow>
          if \<not> valid_unix d then None
          else
            (case (optional_label n, optional_label a) of
               (Some n', Some a') \<Rightarrow>
                 Some (Some \<lparr>fw_date = d, fw_source = (if n' \<noteq> [] then Some n' else if a' \<noteq> [] then Some a' else None)\<rparr>)
             | _ \<Rightarrow> None))"

definition project_text :: "page_cfg \<Rightarrow> utext \<Rightarrow> utext \<Rightarrow> raw_text \<Rightarrow> obs_item option" where
  "project_text cfg title peer m =
     (if \<not> valid_unix (rt_date m) \<or> \<not> bounded_text item_bytes (rt_text m) then None
      else
        (case project_forward (rt_forward m) of
           None \<Rightarrow> None
         | Some f \<Rightarrow>
             Some \<lparr>it_ref = expectedRef (pc_sha cfg) peer (rt_id m), it_date = rt_date m,
               it_name = display_name cfg title (rt_from m), it_text = safe_text (rt_text m),
               it_truncated = (safe_text (rt_text m) \<noteq> rt_text m), it_media = rt_media m, it_forwarded = f\<rparr>))"

fun raw_id :: "raw_message \<Rightarrow> int" where
  "raw_id (MessageEmpty i _) = i"
| "raw_id (MessageService i _ _) = i"
| "raw_id (MessageText m) = rt_id m"

fun raw_peer_ok :: "utext \<Rightarrow> raw_message \<Rightarrow> bool" where
  "raw_peer_ok peer (MessageEmpty _ p) = (p = None \<or> p = Some peer)"
| "raw_peer_ok peer (MessageService _ p _) = (p = Some peer)"
| "raw_peer_ok peer (MessageText m) = (rt_peer m = Some peer)"

fun project_row :: "page_cfg \<Rightarrow> utext \<Rightarrow> utext \<Rightarrow> raw_message \<Rightarrow> obs_item option option" where
  "project_row cfg title peer (MessageEmpty _ _) = Some None"
| "project_row cfg title peer (MessageService _ _ d) = (if valid_unix d then Some None else None)"
| "project_row cfg title peer (MessageText m) = map_option Some (project_text cfg title peer m)"

fun project_rows :: "page_cfg \<Rightarrow> utext \<Rightarrow> utext \<Rightarrow> int \<Rightarrow> raw_message list \<Rightarrow> (int \<times> obs_item option) list option" where
  \<comment> \<open>Ids must decrease strictly from the requested bound.\<close>
  "project_rows cfg title peer previous [] = Some []"
| "project_rows cfg title peer previous (m # ms) =
     (let i = raw_id m in
      if \<not> valid_message_id i \<or> previous \<le> i \<or> \<not> raw_peer_ok peer m then None
      else
        (case project_row cfg title peer m of
           None \<Rightarrow> None
         | Some x \<Rightarrow> map_option (Cons (i, x)) (project_rows cfg title peer i ms)))"

section \<open>The page\<close>

fun media_text :: "media_kind \<Rightarrow> string" where
  "media_text MNone = ''none''"
| "media_text MPhoto = ''photo''"
| "media_text MDocument = ''document''"
| "media_text MPoll = ''poll''"
| "media_text MOther = ''other''"

fun opt_json :: "('a \<Rightarrow> json) \<Rightarrow> 'a option \<Rightarrow> json" where
  "opt_json f None = JNull"
| "opt_json f (Some x) = f x"

definition forwarded_json :: "forwarded \<Rightarrow> json" where
  "forwarded_json f = JObj [(js ''originalDate'', JInt (fw_date f)), (js ''sourceName'', opt_json JStr (fw_source f)),
     (js ''interpretation'', JStr (js ''quoted-source-not-request''))]"

definition media_json :: "media_kind \<Rightarrow> json" where
  "media_json k = JObj [(js ''kind'', JStr (js (media_text k))), (js ''pixelsProvided'', JBool False)]"

definition item_json :: "obs_item \<Rightarrow> json" where
  "item_json x = JObj ([(js ''ref'', JStr (it_ref x)), (js ''date'', JInt (it_date x)), (js ''displayName'', JStr (it_name x)),
     (js ''text'', JStr (it_text x)), (js ''truncated'', JBool (it_truncated x)), (js ''media'', media_json (it_media x))] @
     opt_entry ''forwarded'' (map_option forwarded_json (it_forwarded x)))"

definition page_json :: "obs_page \<Rightarrow> json" where
  "page_json p = JObj [(js ''schema'', JStr (js ''standing-observed-source-page-v1'')),
     (js ''source'', JObj [(js ''sourceRef'', JStr (js ''community'')), (js ''title'', JStr (pg_title p)), (js ''readOnly'', JBool True)]),
     (js ''items'', JArr (map item_json (pg_items p))), (js ''nextBeforeMessageId'', opt_json JInt (pg_next p)),
     (js ''bounded'', JBool True), (js ''truncated'', JBool (pg_truncated p)), (js ''incompleteHistory'', JBool True),
     (js ''coverage'', JObj [(js ''requestedLimit'', JInt (pg_limit p)), (js ''rawRows'', JInt (pg_raw p)),
        (js ''coveredRows'', JInt (pg_covered p)), (js ''skippedRows'', JInt (pg_skipped p)),
        (js ''omittedByBudget'', JInt (pg_omitted p)), (js ''hasMore'', JBool (0 < pg_covered p)),
        (js ''mayChangeBetweenPages'', JBool True)]),
     (js ''interpretation'', JStr (js ''quoted-source-not-request'')), (js ''applicationAuthority'', JStr (js ''none''))]"

definition page_of ::
  "utext \<Rightarrow> utext \<Rightarrow> int option \<Rightarrow> int \<Rightarrow> bool \<Rightarrow> (int \<times> obs_item option) list \<Rightarrow> nat \<Rightarrow> obs_page" where
  \<comment> \<open>The page that covers the first \<open>k\<close> rows.\<close>
  "page_of title peer before limit inexact rows k =
     (let seen = take k rows; items = List.map_filter snd seen;
          lowest = (if seen = [] then None else Some (fst (last seen))) in
      \<lparr>pg_title = title, pg_items = items, pg_next = lowest,
       pg_truncated = (inexact \<or> length seen < length rows \<or> length items < length seen \<or> (\<exists>x \<in> set items. it_truncated x)),
       pg_limit = limit, pg_raw = int (length rows), pg_covered = int (length seen),
       pg_skipped = int (length seen - length items), pg_omitted = int (length rows - length seen),
       pg_meta = \<lparr>md_peer = peer, md_before = before, md_limit = limit,
         md_highest = (case rows of [] \<Rightarrow> None | r # _ \<Rightarrow> Some (fst r)), md_lowest = lowest, md_ids = map fst seen,
         md_raw = int (length rows), md_covered = int (length seen), md_omitted = int (length rows - length seen)\<rparr>\<rparr>)"

definition page_fits :: "obs_page \<Rightarrow> bool" where
  "page_fits p \<longleftrightarrow> utf8_size (stringify (page_json p)) \<le> page_bytes"

fun cover_rows :: "(nat \<Rightarrow> obs_page) \<Rightarrow> nat \<Rightarrow> nat \<Rightarrow> nat" where
  \<comment> \<open>Rows are added while the page fits: \<open>n\<close> rows left, \<open>k\<close> covered.\<close>
  "cover_rows page 0 k = k"
| "cover_rows page (Suc n) k = (if page_fits (page (Suc k)) then cover_rows page n (Suc k) else k)"

definition projectStandingObservedSourcePage ::
  "page_cfg \<Rightarrow> utext \<Rightarrow> utext \<Rightarrow> int option \<Rightarrow> int \<Rightarrow> bool \<Rightarrow> raw_message list \<Rightarrow> obs_page option" where
  "projectStandingObservedSourcePage cfg rawtitle peer before limit inexact msgs =
     (if \<not> negative_number 19 peer \<or> limit < 1 \<or> 30 < limit \<or> (case before of None \<Rightarrow> False | Some b \<Rightarrow> \<not> valid_message_id b) then None
      else
        (case label 256 rawtitle of
           None \<Rightarrow> None
         | Some title \<Rightarrow>
             if title = [] \<or> limit < int (length msgs) then None
             else
               (case project_rows cfg title peer (or_else before 2147483648) msgs of
                  None \<Rightarrow> None
                | Some rows \<Rightarrow>
                    (let page = page_of title peer before limit inexact rows; k = cover_rows page (length rows) 0 in
                     if rows \<noteq> [] \<and> k = 0 \<or> \<not> page_fits (page k) then None else Some (page k)))))"

end
