(* ===== verification/ObserverState.thy ===== *)
theory ObserverState
  imports ObservedPage
begin

text \<open>
  The observer's state (\<open>standing-community-observer-state.ts\<close>): the rows seen recently, the
  cycle of pages being read, what was processed and how, kept in one sealed file that is
  replaced as a whole.

  \<open>obs_state\<close> is \<open>MutableState\<close>; \<open>envelope\<close> the document that is written and \<open>decode\<close> the
  reader with all its checks. \<open>commitPage\<close> and \<open>markProcessed\<close> work on a candidate and replace
  the state only when it was written. The file is the JSON document it holds; sealing it and the
  identity checks on directories are left out. A write succeeds, fails, or fails after the file
  was replaced, as its argument says.
\<close>

section \<open>Types\<close>

datatype observer_error = EInput | EBinding | EConflict | ELimit | EStorage | EClosed | EAborted

record obs_binding =
  obn_workspace :: utext
  obn_account :: utext
  obn_internal :: utext
  obn_source :: utext

record obs_row =
  rw_id :: int
  rw_seq :: int
  rw_at :: int
  rw_item :: obs_item

datatype cycle_kind = Bootstrap | Incremental

record obs_cycle =
  cy_kind :: cycle_kind
  cy_prior :: "int option"
  cy_high :: "int option"
  cy_before :: "int option"
  cy_remaining :: "int option"
  cy_pages :: int

datatype obs_disposition = DReserved | DDisabled | DSuppressed | DTooLarge | DSilent | DAlert | DUnknown

record processing =
  pr_from :: int
  pr_through :: int
  pr_disposition :: obs_disposition
  pr_revision :: int

datatype operation_kind = OpPage | OpProcessed

record last_operation =
  lo_kind :: operation_kind
  lo_expected :: int
  lo_digest :: utext

record obs_state =
  os_revision :: int
  os_next :: int
  os_initialized :: bool
  os_settled :: "int option"
  os_cycle :: "obs_cycle option"
  os_processed :: int
  os_recent :: "obs_row list"
  os_unread :: bool
  os_evicted :: int
  os_gaps :: int
  os_paused :: bool
  os_totals :: "obs_disposition \<Rightarrow> int"
  os_last :: "processing option"
  os_operation :: "last_operation option"

record obs_cfg =
  ob_binding :: obs_binding
  ob_rows :: nat   \<comment> \<open>\<open>maxRecentRows\<close>\<close>
  ob_bytes :: nat  \<comment> \<open>\<open>maxPlaintextBytes\<close>\<close>
  ob_sha :: "utext \<Rightarrow> utext"

definition obs_initial :: obs_state where
  "obs_initial = \<lparr>os_revision = 0, os_next = 0, os_initialized = False, os_settled = None, os_cycle = None,
     os_processed = 0, os_recent = [], os_unread = False, os_evicted = 0, os_gaps = 0, os_paused = False,
     os_totals = (\<lambda>_. 0), os_last = None, os_operation = None\<rparr>"

section \<open>Checked copies\<close>

definition obs_binding_ok :: "obs_binding \<Rightarrow> bool" where
  "obs_binding_ok b \<longleftrightarrow> workspace_name (obn_workspace b) \<and> positive_number 19 (obn_account b) \<and>
     negative_number 19 (obn_internal b) \<and> negative_number 19 (obn_source b) \<and> obn_internal b \<noteq> obn_source b"

definition obs_bindingCopy :: "json \<Rightarrow> obs_binding option" where
  "obs_bindingCopy v =
     (if \<not> exact_keys v [''workspaceId'', ''accountId'', ''internalPeerId'', ''sourcePeerId''] [] then None
      else
        (case (as_text (field (Some v) ''workspaceId''), as_text (field (Some v) ''accountId''),
               as_text (field (Some v) ''internalPeerId''), as_text (field (Some v) ''sourcePeerId'')) of
           (Some w, Some a, Some i, Some s) \<Rightarrow>
             (let b = \<lparr>obn_workspace = w, obn_account = a, obn_internal = i, obn_source = s\<rparr> in
              if obs_binding_ok b then Some b else None)
         | _ \<Rightarrow> None))"

fun nullable :: "(json \<Rightarrow> 'a option) \<Rightarrow> json option \<Rightarrow> 'a option option" where
  "nullable f None = None"
| "nullable f (Some JNull) = Some None"
| "nullable f (Some v) = map_option Some (f v)"

definition json_text :: "json \<Rightarrow> utext option" where "json_text v = as_text (Some v)"
definition json_int :: "json \<Rightarrow> int option" where "json_int v = as_int (Some v)"

definition media_kinds :: "media_kind list" where
  "media_kinds = [MNone, MPhoto, MDocument, MPoll, MOther]"

definition mediaCopy :: "json \<Rightarrow> media_kind option" where
  "mediaCopy v =
     (if \<not> exact_keys v [''kind'', ''pixelsProvided''] [] \<or> field (Some v) ''pixelsProvided'' \<noteq> Some (JBool False) then None
      else Option.bind (as_text (field (Some v) ''kind'')) (\<lambda>t. find (\<lambda>k. js (media_text k) = t) media_kinds))"

definition forwarded_ok :: "forwarded \<Rightarrow> bool" where
  "forwarded_ok f \<longleftrightarrow> valid_unix (fw_date f) \<and> (case fw_source f of None \<Rightarrow> True | Some s \<Rightarrow> bounded_text 128 s)"

definition forwardedCopy :: "json \<Rightarrow> forwarded option" where
  "forwardedCopy v =
     (if \<not> exact_keys v [''originalDate'', ''sourceName'', ''interpretation''] [] \<or>
         field (Some v) ''interpretation'' \<noteq> Some (JStr (js ''quoted-source-not-request'')) then None
      else
        (case (as_int (field (Some v) ''originalDate''), nullable json_text (field (Some v) ''sourceName'')) of
           (Some d, Some s) \<Rightarrow>
             (let f = \<lparr>fw_date = d, fw_source = s\<rparr> in if forwarded_ok f then Some f else None)
         | _ \<Rightarrow> None))"

definition item_ok :: "obs_item \<Rightarrow> bool" where
  "item_ok x \<longleftrightarrow> obs_ref (it_ref x) \<and> valid_unix (it_date x) \<and> bounded_text 128 (it_name x) \<and>
     bounded_text item_bytes (it_text x) \<and> (case it_forwarded x of None \<Rightarrow> True | Some f \<Rightarrow> forwarded_ok f)"

definition itemCopy :: "json \<Rightarrow> obs_item option" where
  "itemCopy v =
     (if \<not> exact_keys v [''ref'', ''date'', ''displayName'', ''text'', ''truncated'', ''media''] [''forwarded''] then None
      else
        (case (as_text (field (Some v) ''ref''), as_int (field (Some v) ''date''), as_text (field (Some v) ''displayName''),
               as_text (field (Some v) ''text''), as_bool (field (Some v) ''truncated''),
               Option.bind (field (Some v) ''media'') mediaCopy, parse_optional forwardedCopy (field (Some v) ''forwarded'')) of
           (Some r, Some d, Some n, Some t, Some u, Some m, Some f) \<Rightarrow>
             (let x = \<lparr>it_ref = r, it_date = d, it_name = n, it_text = t, it_truncated = u, it_media = m, it_forwarded = f\<rparr> in
              if item_ok x then Some x else None)
         | _ \<Rightarrow> None))"

definition row_ok :: "obs_cfg \<Rightarrow> obs_row \<Rightarrow> bool" where
  "row_ok cfg r \<longleftrightarrow> item_ok (rw_item r) \<and> valid_message_id (rw_id r) \<and> valid_revision (rw_seq r) \<and> valid_unix (rw_at r) \<and>
     it_ref (rw_item r) = expectedRef (ob_sha cfg) (obn_source (ob_binding cfg)) (rw_id r)"

definition row_json :: "obs_row \<Rightarrow> json" where
  "row_json r = JObj [(js ''messageId'', JInt (rw_id r)), (js ''sequence'', JInt (rw_seq r)),
     (js ''observedAt'', JInt (rw_at r)), (js ''item'', item_json (rw_item r))]"

definition rowCopy :: "obs_cfg \<Rightarrow> json \<Rightarrow> obs_row option" where
  "rowCopy cfg v =
     (if \<not> exact_keys v [''messageId'', ''sequence'', ''observedAt'', ''item''] [] then None
      else
        (case (as_int (field (Some v) ''messageId''), as_int (field (Some v) ''sequence''),
               as_int (field (Some v) ''observedAt''), Option.bind (field (Some v) ''item'') itemCopy) of
           (Some i, Some s, Some t, Some x) \<Rightarrow>
             (let r = \<lparr>rw_id = i, rw_seq = s, rw_at = t, rw_item = x\<rparr> in if row_ok cfg r then Some r else None)
         | _ \<Rightarrow> None))"

fun cycle_kind_text :: "cycle_kind \<Rightarrow> string" where
  "cycle_kind_text Bootstrap = ''bootstrap''"
| "cycle_kind_text Incremental = ''incremental''"

definition opt_in :: "int \<Rightarrow> int \<Rightarrow> int option \<Rightarrow> bool" where
  "opt_in lo hi i = (case i of None \<Rightarrow> True | Some x \<Rightarrow> lo \<le> x \<and> x \<le> hi)"

definition natural_in :: "int \<Rightarrow> bool" where
  "natural_in i \<longleftrightarrow> 0 \<le> i \<and> i \<le> max_safe"

definition cycle_ok :: "obs_cycle \<Rightarrow> bool" where
  "cycle_ok c \<longleftrightarrow> opt_in 1 2147483647 (cy_prior c) \<and> opt_in 1 2147483647 (cy_high c) \<and>
     opt_in 1 2147483647 (cy_before c) \<and> opt_in 0 30 (cy_remaining c) \<and> natural_in (cy_pages c) \<and>
     (if cy_kind c = Bootstrap then cy_prior c = None \<and> cy_remaining c \<noteq> None else cy_remaining c = None)"

definition cycle_json :: "obs_cycle \<Rightarrow> json" where
  "cycle_json c = JObj [(js ''kind'', JStr (js (cycle_kind_text (cy_kind c)))),
     (js ''priorHighWatermark'', opt_json JInt (cy_prior c)), (js ''highWatermark'', opt_json JInt (cy_high c)),
     (js ''beforeMessageId'', opt_json JInt (cy_before c)), (js ''remainingRows'', opt_json JInt (cy_remaining c)),
     (js ''pages'', JInt (cy_pages c))]"

definition cycleCopy :: "json \<Rightarrow> obs_cycle option" where
  "cycleCopy v =
     (if \<not> exact_keys v [''kind'', ''priorHighWatermark'', ''highWatermark'', ''beforeMessageId'', ''remainingRows'', ''pages''] []
      then None
      else
        (case (Option.bind (as_text (field (Some v) ''kind'')) (\<lambda>t. find (\<lambda>k. js (cycle_kind_text k) = t) [Bootstrap, Incremental]),
               nullable json_int (field (Some v) ''priorHighWatermark''), nullable json_int (field (Some v) ''highWatermark''),
               nullable json_int (field (Some v) ''beforeMessageId''), nullable json_int (field (Some v) ''remainingRows''),
               as_int (field (Some v) ''pages'')) of
           (Some k, Some p, Some h, Some b, Some r, Some n) \<Rightarrow>
             (let c = \<lparr>cy_kind = k, cy_prior = p, cy_high = h, cy_before = b, cy_remaining = r, cy_pages = n\<rparr> in
              if cycle_ok c then Some c else None)
         | _ \<Rightarrow> None))"

fun disposition_text :: "obs_disposition \<Rightarrow> string" where
  "disposition_text DReserved = ''attempt-reserved''"
| "disposition_text DDisabled = ''alerts-disabled''"
| "disposition_text DSuppressed = ''policy-suppressed''"
| "disposition_text DTooLarge = ''material-too-large''"
| "disposition_text DSilent = ''silent''"
| "disposition_text DAlert = ''alert''"
| "disposition_text DUnknown = ''unknown''"

definition dispositions :: "obs_disposition list" where
  "dispositions = [DReserved, DDisabled, DSuppressed, DTooLarge, DSilent, DAlert, DUnknown]"

definition processing_ok :: "processing \<Rightarrow> bool" where
  "processing_ok p \<longleftrightarrow> valid_revision (pr_from p) \<and> pr_from p \<le> pr_through p \<and> pr_through p \<le> max_safe \<and> valid_revision (pr_revision p)"

definition processing_json :: "processing \<Rightarrow> json" where
  "processing_json p = JObj [(js ''fromSequence'', JInt (pr_from p)), (js ''throughSequence'', JInt (pr_through p)),
     (js ''disposition'', JStr (js (disposition_text (pr_disposition p)))), (js ''revision'', JInt (pr_revision p))]"

definition processingCopy :: "json \<Rightarrow> processing option" where
  "processingCopy v =
     (if \<not> exact_keys v [''fromSequence'', ''throughSequence'', ''disposition'', ''revision''] [] then None
      else
        (case (as_int (field (Some v) ''fromSequence''), as_int (field (Some v) ''throughSequence''),
               Option.bind (as_text (field (Some v) ''disposition'')) (\<lambda>t. find (\<lambda>d. js (disposition_text d) = t) dispositions),
               as_int (field (Some v) ''revision'')) of
           (Some f, Some t, Some d, Some r) \<Rightarrow>
             (let p = \<lparr>pr_from = f, pr_through = t, pr_disposition = d, pr_revision = r\<rparr> in
              if processing_ok p then Some p else None)
         | _ \<Rightarrow> None))"

fun operation_text :: "operation_kind \<Rightarrow> string" where
  "operation_text OpPage = ''page''"
| "operation_text OpProcessed = ''processed''"

definition sha_hex :: "utext \<Rightarrow> bool" where
  "sha_hex s \<longleftrightarrow> length s = 64 \<and> (\<forall>c \<in> set s. hex_digit c)"

definition operation_ok :: "last_operation \<Rightarrow> bool" where
  "operation_ok p \<longleftrightarrow> natural_in (lo_expected p) \<and> sha_hex (lo_digest p)"

definition operation_json :: "last_operation \<Rightarrow> json" where
  "operation_json p = JObj [(js ''kind'', JStr (js (operation_text (lo_kind p)))),
     (js ''expectedRevision'', JInt (lo_expected p)), (js ''digest'', JStr (lo_digest p))]"

definition operationCopy :: "json \<Rightarrow> last_operation option" where
  "operationCopy v =
     (if \<not> exact_keys v [''kind'', ''expectedRevision'', ''digest''] [] then None
      else
        (case (Option.bind (as_text (field (Some v) ''kind'')) (\<lambda>t. find (\<lambda>k. js (operation_text k) = t) [OpPage, OpProcessed]),
               as_int (field (Some v) ''expectedRevision''), as_text (field (Some v) ''digest'')) of
           (Some k, Some e, Some d) \<Rightarrow>
             (let p = \<lparr>lo_kind = k, lo_expected = e, lo_digest = d\<rparr> in if operation_ok p then Some p else None)
         | _ \<Rightarrow> None))"

definition totals_json :: "(obs_disposition \<Rightarrow> int) \<Rightarrow> json" where
  "totals_json t = JObj (map (\<lambda>d. (js (disposition_text d), JInt (t d))) dispositions)"

definition totals_ok :: "(obs_disposition \<Rightarrow> int) \<Rightarrow> bool" where
  "totals_ok t \<longleftrightarrow> (\<forall>d \<in> set dispositions. natural_in (t d))"

definition total_of :: "json \<Rightarrow> obs_disposition \<Rightarrow> int" where
  \<comment> \<open>A missing \<open>material-too-large\<close> counts as zero.\<close>
  "total_of v d = or_else (as_int (field (Some v) (disposition_text d))) 0"

definition totalsCopy :: "json \<Rightarrow> (obs_disposition \<Rightarrow> int) option" where
  "totalsCopy v =
     (if \<not> exact_keys v [''attempt-reserved'', ''alerts-disabled'', ''policy-suppressed'', ''silent'', ''alert'', ''unknown'']
            [''material-too-large''] then None
      else if \<exists>d \<in> set dispositions. field (Some v) (disposition_text d) \<noteq> None \<and> as_int (field (Some v) (disposition_text d)) = None
      then None
      else if totals_ok (total_of v) then Some (total_of v) else None)"

section \<open>The document\<close>

definition observer_domain :: utext where
  "observer_domain = js ''DecadansNeurobro/standing-community-observer-state/v1''"

definition obs_binding_json :: "obs_binding \<Rightarrow> json" where
  "obs_binding_json b = JObj [(js ''workspaceId'', JStr (obn_workspace b)), (js ''accountId'', JStr (obn_account b)),
     (js ''internalPeerId'', JStr (obn_internal b)), (js ''sourcePeerId'', JStr (obn_source b))]"

definition envelope :: "obs_cfg \<Rightarrow> obs_state \<Rightarrow> json" where
  "envelope cfg s = JObj [(js ''domain'', JStr observer_domain), (js ''binding'', obs_binding_json (ob_binding cfg)),
     (js ''revision'', JInt (os_revision s)), (js ''nextSequence'', JInt (os_next s)),
     (js ''initialized'', JBool (os_initialized s)), (js ''settledHighWatermark'', opt_json JInt (os_settled s)),
     (js ''cycle'', opt_json cycle_json (os_cycle s)), (js ''processedThrough'', JInt (os_processed s)),
     (js ''recent'', JArr (map row_json (os_recent s))), (js ''historyBeforeObservationNotRead'', JBool (os_unread s)),
     (js ''retentionEvictedRows'', JInt (os_evicted s)), (js ''sourceWindowGaps'', JInt (os_gaps s)),
     (js ''capacityPaused'', JBool (os_paused s)), (js ''processingTotals'', totals_json (os_totals s)),
     (js ''lastProcessing'', opt_json processing_json (os_last s)), (js ''lastOperation'', opt_json operation_json (os_operation s))]"

definition envelope_keys :: "string list" where
  "envelope_keys = [''domain'', ''binding'', ''revision'', ''nextSequence'', ''initialized'', ''settledHighWatermark'', ''cycle'',
     ''processedThrough'', ''recent'', ''historyBeforeObservationNotRead'', ''retentionEvictedRows'', ''sourceWindowGaps'',
     ''capacityPaused'', ''processingTotals'', ''lastProcessing'', ''lastOperation'']"

definition scalars_ok :: "obs_cfg \<Rightarrow> obs_state \<Rightarrow> bool" where
  "scalars_ok cfg s \<longleftrightarrow> natural_in (os_revision s) \<and> natural_in (os_next s) \<and> opt_in 1 2147483647 (os_settled s) \<and>
     natural_in (os_processed s) \<and> os_processed s \<le> os_next s \<and> length (os_recent s) \<le> ob_rows cfg \<and>
     natural_in (os_evicted s) \<and> natural_in (os_gaps s)"

definition rows_distinct :: "obs_state \<Rightarrow> bool" where
  "rows_distinct s \<longleftrightarrow> (\<forall>r \<in> set (os_recent s). rw_seq r \<le> os_next s) \<and> distinct (map (it_ref \<circ> rw_item) (os_recent s)) \<and>
     distinct (map rw_id (os_recent s)) \<and> distinct (map rw_seq (os_recent s))"

definition pending_rows :: "obs_state \<Rightarrow> obs_row list" where
  "pending_rows s = sort_key rw_seq (filter (\<lambda>r. os_processed s < rw_seq r) (os_recent s))"

definition pending_ok :: "obs_state \<Rightarrow> bool" where
  \<comment> \<open>The unprocessed rows are exactly the sequence numbers after \<open>processedThrough\<close>, and every
    processed one is counted.\<close>
  "pending_ok s \<longleftrightarrow> os_next s - os_processed s = int (length (pending_rows s)) \<and>
     map rw_seq (pending_rows s) = map (\<lambda>i. os_processed s + int i + 1) [0..<length (pending_rows s)] \<and>
     sum_list (map (os_totals s) dispositions) = os_processed s"

definition cross_ok :: "obs_state \<Rightarrow> bool" where
  "cross_ok s \<longleftrightarrow>
     \<not> (\<not> os_initialized s \<and> os_settled s \<noteq> None) \<and>
     (case os_cycle s of None \<Rightarrow> \<not> os_paused s | Some c \<Rightarrow> (cy_kind c = Bootstrap) = (\<not> os_initialized s)) \<and>
     (case os_last s of
        None \<Rightarrow> True
      | Some p \<Rightarrow> pr_through p \<le> os_processed s \<and> pr_revision p \<le> os_revision s \<and>
          (pr_disposition p = DReserved \<longrightarrow>
             pr_through p = os_processed s \<and> pr_through p - pr_from p + 1 \<le> os_totals s DReserved))"

definition decode_scalars :: "json \<Rightarrow> obs_state option" where
  \<comment> \<open>The fields that are numbers and booleans; the others as in the empty state.\<close>
  "decode_scalars v =
     (case (as_int (field (Some v) ''revision''), as_int (field (Some v) ''nextSequence''), as_bool (field (Some v) ''initialized''),
            nullable json_int (field (Some v) ''settledHighWatermark''), as_int (field (Some v) ''processedThrough''),
            as_bool (field (Some v) ''historyBeforeObservationNotRead''), as_int (field (Some v) ''retentionEvictedRows''),
            as_int (field (Some v) ''sourceWindowGaps''), as_bool (field (Some v) ''capacityPaused'')) of
        (Some r, Some n, Some i, Some h, Some p, Some u, Some e, Some g, Some c) \<Rightarrow>
          Some (obs_initial\<lparr>os_revision := r, os_next := n, os_initialized := i, os_settled := h, os_processed := p,
            os_unread := u, os_evicted := e, os_gaps := g, os_paused := c\<rparr>)
      | _ \<Rightarrow> None)"

definition decode_parts :: "obs_cfg \<Rightarrow> json \<Rightarrow> obs_state \<Rightarrow> json list \<Rightarrow> observer_error + obs_state" where
  "decode_parts cfg v s0 vs =
     (case opt_all (map (rowCopy cfg) vs) of
        None \<Rightarrow> Inl EInput
      | Some rows \<Rightarrow>
          (let s = s0\<lparr>os_recent := rows\<rparr> in
           if \<not> rows_distinct s then Inl EStorage
           else
             (case (nullable cycleCopy (field (Some v) ''cycle''), Option.bind (field (Some v) ''processingTotals'') totalsCopy,
                    nullable processingCopy (field (Some v) ''lastProcessing''), nullable operationCopy (field (Some v) ''lastOperation'')) of
                (Some c, Some t, Some p, Some q) \<Rightarrow>
                  (let s = s\<lparr>os_cycle := c, os_totals := t, os_last := p, os_operation := q\<rparr> in
                   if \<not> pending_ok s then Inl EStorage else if \<not> cross_ok s then Inl EStorage else Inr s)
              | _ \<Rightarrow> Inl EInput)))"

definition decode :: "obs_cfg \<Rightarrow> json \<Rightarrow> observer_error + obs_state" where
  "decode cfg v =
     (if \<not> exact_keys v envelope_keys [] then Inl EInput
      else
        (case Option.bind (field (Some v) ''binding'') obs_bindingCopy of
           None \<Rightarrow> Inl EInput
         | Some b \<Rightarrow>
             if field (Some v) ''domain'' \<noteq> Some (JStr observer_domain) \<or> b \<noteq> ob_binding cfg then Inl EBinding
             else
               (case (decode_scalars v, as_array (field (Some v) ''recent'')) of
                  (Some s, Some vs) \<Rightarrow>
                    if \<not> scalars_ok cfg s \<or> ob_rows cfg < length vs then Inl EStorage else decode_parts cfg v s vs
                | _ \<Rightarrow> Inl EStorage)))"

section \<open>Operations\<close>

record observer =
  ow_state :: obs_state
  ow_disk :: "json option"
  ow_broken :: bool
  ow_closed :: bool

type_synonym 'a observed = "observer \<Rightarrow> (observer_error + 'a) \<times> observer"

record checkpoint =
  cp_revision :: int
  cp_before :: "int option"
  cp_status :: string
  cp_cycle :: "obs_cycle option"
  cp_rows :: nat
  cp_pending :: nat
  cp_latest :: int
  cp_processed :: int
  cp_last :: "processing option"
  cp_totals :: "obs_disposition \<Rightarrow> int"
  cp_unread :: bool
  cp_evicted :: int
  cp_gaps :: int

definition checkpoint_of :: "obs_state \<Rightarrow> checkpoint" where
  "checkpoint_of s = \<lparr>cp_revision = os_revision s, cp_before = Option.bind (os_cycle s) cy_before,
     cp_status = (if os_paused s then ''capacity-paused'' else if os_cycle s \<noteq> None then ''catching-up'' else ''idle''),
     cp_cycle = os_cycle s, cp_rows = length (os_recent s),
     cp_pending = length (filter (\<lambda>r. os_processed s < rw_seq r) (os_recent s)), cp_latest = os_next s,
     cp_processed = os_processed s, cp_last = os_last s, cp_totals = os_totals s, cp_unread = os_unread s,
     cp_evicted = os_evicted s, cp_gaps = os_gaps s\<rparr>"

definition envelope_fits :: "obs_cfg \<Rightarrow> obs_state \<Rightarrow> bool" where
  "envelope_fits cfg s \<longleftrightarrow> utf8_size (stringify (envelope cfg s)) \<le> ob_bytes cfg"

definition persist :: "obs_cfg \<Rightarrow> write_result \<Rightarrow> obs_state \<Rightarrow> unit observed" where
  \<comment> \<open>\<open>writeSnapshot\<close> and its error handling.\<close>
  "persist cfg wr s w =
     (if \<not> envelope_fits cfg s then (Inl ELimit, w)
      else
        (case wr of
           WriteDone \<Rightarrow> (Inr (), w\<lparr>ow_disk := Some (envelope cfg s), ow_state := s\<rparr>)
         | WriteFailed \<Rightarrow> (Inl EStorage, w\<lparr>ow_broken := True\<rparr>)
         | WriteMoved \<Rightarrow> (Inl EStorage, w\<lparr>ow_disk := Some (envelope cfg s), ow_broken := True\<rparr>)))"

definition observer_enqueue :: "bool \<Rightarrow> 'a observed \<Rightarrow> 'a observed" where
  \<comment> \<open>With the caller's abort signal.\<close>
  "observer_enqueue signal work w =
     (if ow_closed w then (Inl EClosed, w)
      else if ow_broken w then (Inl EStorage, w)
      else if signal then (Inl EAborted, w)
      else work w)"

definition observer_checkpoint :: "bool \<Rightarrow> checkpoint observed" where
  "observer_checkpoint signal = observer_enqueue signal (\<lambda>w. (Inr (checkpoint_of (ow_state w)), w))"

definition readPending :: "bool \<Rightarrow> int option \<Rightarrow> (obs_row list \<times> int option \<times> nat \<times> bool) observed" where
  \<comment> \<open>The rows, the last sequence number among them, how many are pending, and whether there are more.\<close>
  "readPending signal limit w =
     (let n = or_else limit 32 in
      if n < 1 \<or> 64 < n then (Inl EInput, w)
      else observer_enqueue signal (\<lambda>w.
        (let pending = pending_rows (ow_state w); selected = take (nat n) pending in
         (Inr (selected, (if selected = [] then None else Some (rw_seq (last selected))), length pending,
               length selected < length pending), w))) w)"

section \<open>Admitting a page\<close>

definition eviction :: "obs_state \<Rightarrow> obs_row option" where
  \<comment> \<open>The processed row with the lowest message id.\<close>
  "eviction s = (case sort_key rw_id (filter (\<lambda>r. rw_seq r \<le> os_processed s) (os_recent s)) of [] \<Rightarrow> None | r # _ \<Rightarrow> Some r)"

lemma eviction_mem: "eviction s = Some r \<Longrightarrow> r \<in> set (os_recent s) \<and> rw_seq r \<le> os_processed s"
proof -
  assume "eviction s = Some r"
  then obtain rs where "sort_key rw_id (filter (\<lambda>r. rw_seq r \<le> os_processed s) (os_recent s)) = r # rs"
    by (auto simp: eviction_def split: list.splits)
  then have "r \<in> set (sort_key rw_id (filter (\<lambda>r. rw_seq r \<le> os_processed s) (os_recent s)))" by (metis list.set_intros(1))
  then show ?thesis by simp
qed

function make_room :: "obs_cfg \<Rightarrow> obs_state \<Rightarrow> observer_error + obs_state option" where
  \<comment> \<open>None when only pending rows are left.\<close>
  "make_room cfg s =
     (if length (os_recent s) \<le> ob_rows cfg \<and> envelope_fits cfg s then Inr (Some s)
      else
        (case eviction s of
           None \<Rightarrow> Inr None
         | Some r \<Rightarrow>
             if max_safe \<le> os_evicted s then Inl ELimit
             else make_room cfg (s\<lparr>os_recent := remove1 r (os_recent s), os_evicted := os_evicted s + 1\<rparr>)))"
  by pat_completeness auto
termination
proof (relation "measure (\<lambda>(cfg, s). length (os_recent s))", goal_cases)
  case (2 cfg s r)
  then have "r \<in> set (os_recent s)" using eviction_mem by blast
  then have "0 < length (os_recent s)" by (rule length_pos_if_in_set)
  then show ?case using \<open>r \<in> set (os_recent s)\<close> by (simp add: length_remove1)
qed simp

declare make_room.simps [simp del]

definition start_cycle :: "obs_meta \<Rightarrow> obs_state \<Rightarrow> obs_state" where
  "start_cycle m s =
     (if os_cycle s \<noteq> None then s
      else if \<not> os_initialized s
      then s\<lparr>os_cycle := Some \<lparr>cy_kind = Bootstrap, cy_prior = None, cy_high = md_highest m, cy_before = None,
        cy_remaining = Some (md_raw m), cy_pages = 0\<rparr>\<rparr>
      else
        (case md_highest m of
           None \<Rightarrow> s
         | Some h \<Rightarrow>
             if (case os_settled s of None \<Rightarrow> True | Some t \<Rightarrow> t < h)
             then s\<lparr>os_cycle := Some \<lparr>cy_kind = Incremental, cy_prior = os_settled s, cy_high = Some h, cy_before = None,
               cy_remaining = None, cy_pages = 0\<rparr>\<rparr>
             else s))"

definition enter_page :: "obs_meta \<Rightarrow> obs_cycle \<Rightarrow> obs_state \<Rightarrow> observer_error + (obs_state \<times> bool)" where
  \<comment> \<open>Counts the page; the flag says that the cycle is already complete.\<close>
  "enter_page m c s =
     (if cy_before c \<noteq> md_before m then Inl EConflict
      else if max_safe \<le> cy_pages c then Inl ELimit
      else
        (let s = s\<lparr>os_cycle := Some (c\<lparr>cy_pages := cy_pages c + 1\<rparr>)\<rparr>;
             gap = (md_raw m = 0 \<and> (if cy_kind c = Bootstrap then 0 < or_else (cy_remaining c) 0 else cy_prior c \<noteq> None));
             complete = (if cy_kind c = Bootstrap then cy_remaining c = Some 0 \<or> md_raw m = 0 else md_raw m = 0) in
         if gap \<and> max_safe \<le> os_gaps s then Inl ELimit
         else Inr (if gap then s\<lparr>os_gaps := os_gaps s + 1\<rparr> else s, complete)))"

definition cycle_stops :: "obs_cycle \<Rightarrow> int \<Rightarrow> bool" where
  \<comment> \<open>The checks before a row.\<close>
  "cycle_stops c i \<longleftrightarrow> (cy_kind c = Bootstrap \<and> cy_remaining c = Some 0) \<or>
     (cy_kind c = Incremental \<and> (case cy_prior c of None \<Rightarrow> False | Some p \<Rightarrow> i \<le> p))"

definition pass_row :: "obs_cycle \<Rightarrow> int \<Rightarrow> obs_cycle" where
  "pass_row c i = c\<lparr>cy_before := Some i,
     cy_remaining := (if cy_kind c = Bootstrap then Some (or_else (cy_remaining c) 0 - 1) else None)\<rparr>"

definition admit_row :: "obs_cfg \<Rightarrow> int \<Rightarrow> int \<Rightarrow> obs_item \<Rightarrow> obs_state \<Rightarrow> observer_error + obs_state option" where
  "admit_row cfg at i x s =
     (if max_safe \<le> os_next s then Inl ELimit
      else make_room cfg (s\<lparr>os_next := os_next s + 1,
        os_recent := os_recent s @ [\<lparr>rw_id = i, rw_seq = os_next s + 1, rw_at = at, rw_item = x\<rparr>]\<rparr>))"

record visit =
  vs_state :: obs_state
  vs_cycle :: obs_cycle
  vs_admitted :: int
  vs_duplicates :: int
  vs_blocked :: bool
  vs_complete :: bool

definition visit_row :: "obs_cfg \<Rightarrow> int \<Rightarrow> obs_item option \<Rightarrow> int \<Rightarrow> visit \<Rightarrow> observer_error + visit" where
  \<comment> \<open>One row that has no cycle stop before it: stored, recognised, or blocked.\<close>
  "visit_row cfg at item i v =
     (let passed = (\<lambda>v. (let c = pass_row (vs_cycle v) i in
            v\<lparr>vs_cycle := c, vs_state := (vs_state v)\<lparr>os_cycle := Some c\<rparr>\<rparr>)) in
      case item of
        None \<Rightarrow> Inr (passed v)
      | Some x \<Rightarrow>
          (case find (\<lambda>r. rw_id r = i) (os_recent (vs_state v)) of
             Some r \<Rightarrow>
               if rw_item r \<noteq> x then Inl EConflict else Inr (passed (v\<lparr>vs_duplicates := vs_duplicates v + 1\<rparr>))
           | None \<Rightarrow>
               (case admit_row cfg at i x (vs_state v) of
                  Inl e \<Rightarrow> Inl e
                | Inr None \<Rightarrow> Inr (v\<lparr>vs_blocked := True\<rparr>)
                | Inr (Some s) \<Rightarrow> Inr (passed (v\<lparr>vs_state := s, vs_admitted := vs_admitted v + 1\<rparr>)))))"

fun visit_rows :: "obs_cfg \<Rightarrow> int \<Rightarrow> (int \<Rightarrow> obs_item option) \<Rightarrow> int list \<Rightarrow> visit \<Rightarrow> observer_error + visit" where
  "visit_rows cfg at items [] v = Inr v"
| "visit_rows cfg at items (i # is') v =
     (if cycle_stops (vs_cycle v) i then Inr (v\<lparr>vs_complete := True\<rparr>)
      else
        (case visit_row cfg at (items i) i v of
           Inl e \<Rightarrow> Inl e
         | Inr v' \<Rightarrow>
             if vs_blocked v' then Inr v'
             else if cy_kind (vs_cycle v') = Bootstrap \<and> cy_remaining (vs_cycle v') = Some 0 then Inr (v'\<lparr>vs_complete := True\<rparr>)
             else visit_rows cfg at items is' v'))"

definition finish_cycle :: "visit \<Rightarrow> obs_state" where
  "finish_cycle v =
     (if vs_complete v
      then (vs_state v)\<lparr>os_initialized := True, os_unread := True, os_settled := cy_high (vs_cycle v), os_cycle := None, os_paused := False\<rparr>
      else (vs_state v)\<lparr>os_cycle := Some (vs_cycle v), os_paused := vs_blocked v\<rparr>)"

definition page_items :: "obs_cfg \<Rightarrow> obs_page \<Rightarrow> observer_error + (int \<Rightarrow> obs_item option)" where
  \<comment> \<open>The page's items, found by message id.\<close>
  "page_items cfg p =
     (let refs = map it_ref (pg_items p); ref = expectedRef (ob_sha cfg) (obn_source (ob_binding cfg)) in
      if \<not> (\<forall>x \<in> set (pg_items p). item_ok x) \<or> \<not> distinct refs then Inl EInput
      else if \<not> set refs \<subseteq> ref ` set (md_ids (pg_meta p)) then Inl EBinding
      else Inr (\<lambda>i. find (\<lambda>x. it_ref x = ref i) (pg_items p)))"

definition seal_page :: "obs_meta \<Rightarrow> last_operation \<Rightarrow> obs_state \<Rightarrow> obs_state" where
  \<comment> \<open>The last lines of the commit: newest first, next revision, the operation.\<close>
  "seal_page m lo s =
     (let s = s\<lparr>os_recent := sort_key (\<lambda>r. - rw_id r) (os_recent s), os_revision := os_revision s + 1, os_operation := Some lo\<rparr> in
      if os_cycle s = None \<and> \<not> os_initialized s \<and> md_raw m = 0 then s\<lparr>os_initialized := True, os_unread := True\<rparr> else s)"

definition apply_page ::
  "obs_cfg \<Rightarrow> int \<Rightarrow> obs_page \<Rightarrow> obs_state \<Rightarrow> observer_error + (obs_state \<times> int \<times> int)" where
  "apply_page cfg at p s =
     (let m = pg_meta p in
      case page_items cfg p of
        Inl e \<Rightarrow> Inl e
      | Inr items \<Rightarrow>
          (let s = start_cycle m s in
           case os_cycle s of
             None \<Rightarrow> Inr (s, 0, 0)
           | Some c \<Rightarrow>
               (case enter_page m c s of
                  Inl e \<Rightarrow> Inl e
                | Inr (s, complete) \<Rightarrow>
                    (case visit_rows cfg at items (md_ids m) \<lparr>vs_state = s, vs_cycle = c\<lparr>cy_pages := cy_pages c + 1\<rparr>,
                         vs_admitted = 0, vs_duplicates = 0, vs_blocked = False, vs_complete = complete\<rparr> of
                       Inl e \<Rightarrow> Inl e
                     | Inr v \<Rightarrow>
                         if \<not> vs_blocked v \<and> \<not> vs_complete v \<and> md_ids m = [] \<and> 0 < md_raw m then Inl EInput
                         else Inr (finish_cycle v, vs_admitted v, vs_duplicates v)))))"

section \<open>Commits\<close>

definition meta_json :: "obs_meta \<Rightarrow> json" where
  "meta_json m = JObj [(js ''peerId'', JStr (md_peer m)), (js ''requestedBeforeMessageId'', opt_json JInt (md_before m)),
     (js ''requestedLimit'', JInt (md_limit m)), (js ''highestMessageId'', opt_json JInt (md_highest m)),
     (js ''lowestCoveredMessageId'', opt_json JInt (md_lowest m)), (js ''rowIds'', JArr (map JInt (md_ids m))),
     (js ''rawRows'', JInt (md_raw m)), (js ''coveredRows'', JInt (md_covered m)), (js ''omittedByBudget'', JInt (md_omitted m))]"

definition page_digest :: "obs_cfg \<Rightarrow> int \<Rightarrow> obs_page \<Rightarrow> utext" where
  "page_digest cfg at p =
     ob_sha cfg (stringify (JArr [JStr (js ''page''), JInt at, meta_json (pg_meta p), page_json p]))"

definition page_bound :: "obs_cfg \<Rightarrow> obs_page \<Rightarrow> bool" where
  \<comment> \<open>The page belongs to this source and says the same as its metadata.\<close>
  "page_bound cfg p \<longleftrightarrow>
     (let m = pg_meta p in
      md_peer m = obn_source (ob_binding cfg) \<and> md_limit m = 30 \<and> md_covered m = int (length (md_ids m)) \<and>
      md_raw m = md_covered m + md_omitted m \<and> pg_raw p = md_raw m \<and> pg_covered p = md_covered m \<and>
      pg_omitted p = md_omitted m \<and> pg_next p = md_lowest m)"

record commit_result =
  cr_checkpoint :: checkpoint
  cr_idempotent :: bool
  cr_admitted :: int
  cr_duplicates :: int

definition commit_page :: "obs_cfg \<Rightarrow> write_result \<Rightarrow> int \<Rightarrow> int \<Rightarrow> obs_page \<Rightarrow> commit_result observed" where
  \<comment> \<open>The admitted work of \<open>commitPage\<close>.\<close>
  "commit_page cfg wr expected at p w =
     (let s = ow_state w; lo = \<lparr>lo_kind = OpPage, lo_expected = expected, lo_digest = page_digest cfg at p\<rparr> in
      if os_operation s = Some lo
      then (Inr \<lparr>cr_checkpoint = checkpoint_of s, cr_idempotent = True, cr_admitted = 0, cr_duplicates = 0\<rparr>, w)
      else if os_revision s \<noteq> expected then (Inl EConflict, w)
      else if max_safe \<le> os_revision s then (Inl ELimit, w)
      else if md_before (pg_meta p) \<noteq> Option.bind (os_cycle s) cy_before then (Inl EConflict, w)
      else
        (case apply_page cfg at p s of
           Inl e \<Rightarrow> (Inl e, w)
         | Inr (s', n, d) \<Rightarrow>
             (let s' = seal_page (pg_meta p) lo s' in
              case persist cfg wr s' w of
                (Inl e, w') \<Rightarrow> (Inl e, w')
              | (Inr _, w') \<Rightarrow>
                  (Inr \<lparr>cr_checkpoint = checkpoint_of s', cr_idempotent = False, cr_admitted = n, cr_duplicates = d\<rparr>, w'))))"

definition commitPage :: "obs_cfg \<Rightarrow> bool \<Rightarrow> write_result \<Rightarrow> int \<Rightarrow> int \<Rightarrow> obs_page \<Rightarrow> commit_result observed" where
  "commitPage cfg signal wr expected at p w =
     (if \<not> natural_in expected \<or> \<not> valid_unix at then (Inl EInput, w)
      else if \<not> page_bound cfg p then (Inl EBinding, w)
      else observer_enqueue signal (commit_page cfg wr expected at p) w)"

definition processed_digest :: "obs_cfg \<Rightarrow> int \<Rightarrow> obs_disposition \<Rightarrow> utext" where
  "processed_digest cfg through d =
     ob_sha cfg (stringify (JArr [JStr (js ''processed''), JInt through, JStr (js (disposition_text d))]))"

definition mark_through :: "int \<Rightarrow> obs_disposition \<Rightarrow> obs_state \<Rightarrow> observer_error + obs_state" where
  "mark_through through d s =
     (let amount = int (length (filter (\<lambda>r. os_processed s + 1 \<le> rw_seq r \<and> rw_seq r \<le> through) (os_recent s))) in
      if os_processed s < through then
        (if (case os_last s of None \<Rightarrow> False | Some p \<Rightarrow> pr_disposition p = DReserved) then Inl EConflict
         else if amount \<noteq> through - os_processed s then Inl EConflict
         else if max_safe - amount < os_totals s d then Inl ELimit
         else Inr (s\<lparr>os_processed := through, os_totals := (os_totals s)(d := os_totals s d + amount),
           os_last := Some \<lparr>pr_from = os_processed s + 1, pr_through = through, pr_disposition = d, pr_revision = os_revision s + 1\<rparr>\<rparr>))
      else
        (case os_last s of
           Some p \<Rightarrow>
             if through = os_processed s \<and> pr_through p = through \<and> pr_disposition p = DReserved \<and> d \<in> {DSilent, DAlert, DUnknown}
             then (let amount = pr_through p - pr_from p + 1;
                       t = (os_totals s)(DReserved := os_totals s DReserved - amount) in
                   Inr (s\<lparr>os_totals := t(d := t d + amount),
                     os_last := Some (p\<lparr>pr_disposition := d, pr_revision := os_revision s + 1\<rparr>)\<rparr>))
             else Inl EConflict
         | None \<Rightarrow> Inl EConflict))"

definition mark_processed :: "obs_cfg \<Rightarrow> write_result \<Rightarrow> int \<Rightarrow> int \<Rightarrow> obs_disposition \<Rightarrow> (checkpoint \<times> bool) observed" where
  "mark_processed cfg wr expected through d w =
     (let s = ow_state w; lo = \<lparr>lo_kind = OpProcessed, lo_expected = expected, lo_digest = processed_digest cfg through d\<rparr> in
      if os_operation s = Some lo then (Inr (checkpoint_of s, True), w)
      else if os_revision s \<noteq> expected \<or> os_next s < through then (Inl EConflict, w)
      else if max_safe \<le> os_revision s then (Inl ELimit, w)
      else
        (case mark_through through d s of
           Inl e \<Rightarrow> (Inl e, w)
         | Inr s' \<Rightarrow>
             (let s' = s'\<lparr>os_paused := False, os_revision := os_revision s + 1, os_operation := Some lo\<rparr> in
              case persist cfg wr s' w of
                (Inl e, w') \<Rightarrow> (Inl e, w')
              | (Inr _, w') \<Rightarrow> (Inr (checkpoint_of s', False), w'))))"

definition markProcessed ::
  "obs_cfg \<Rightarrow> bool \<Rightarrow> write_result \<Rightarrow> int \<Rightarrow> int \<Rightarrow> obs_disposition \<Rightarrow> (checkpoint \<times> bool) observed" where
  "markProcessed cfg signal wr expected through d w =
     (if \<not> natural_in expected \<or> \<not> valid_revision through then (Inl EInput, w)
      else observer_enqueue signal (mark_processed cfg wr expected through d) w)"

definition close_observer :: "observer \<Rightarrow> observer" where
  "close_observer w = w\<lparr>ow_closed := True, ow_state := (ow_state w)\<lparr>os_recent := []\<rparr>\<rparr>"

definition openStandingCommunityObserverState :: "obs_cfg \<Rightarrow> json option \<Rightarrow> observer_error + observer" where
  \<comment> \<open>A new process on the file; a document above the size limit is refused.\<close>
  "openStandingCommunityObserverState cfg disk =
     (if \<not> obs_binding_ok (ob_binding cfg) then Inl EInput
      else
        (case disk of
           None \<Rightarrow> Inr \<lparr>ow_state = obs_initial, ow_disk = None, ow_broken = False, ow_closed = False\<rparr>
         | Some v \<Rightarrow>
             if ob_bytes cfg < utf8_size (stringify v) then Inl EStorage
             else rbind (decode cfg v) (\<lambda>s. Inr \<lparr>ow_state = s, ow_disk = Some v, ow_broken = False, ow_closed = False\<rparr>)))"

end
