(* ===== verification/ObserverBack.thy ===== *)
theory ObserverBack
  imports ObserverState
begin

text \<open>
  Reading the observer's document back: each part of it decodes to what was printed, and the
  document of a valid state (\<open>state_ok\<close>) decodes to that state (\<open>envelope_read_back\<close>).
\<close>

section \<open>Reading back\<close>

lemma find_shown:
  assumes "inj f" "x \<in> set xs"
  shows "find (\<lambda>k. f k = f x) xs = Some x"
  using assms(2) by (induction xs) (auto dest: injD [OF assms(1)])

lemma media_text_inj: "inj media_text"
proof (rule injI)
  fix x y assume "media_text x = media_text y"
  then show "x = y" by (cases x; cases y) simp_all
qed

lemma cycle_text_inj: "inj cycle_kind_text"
proof (rule injI)
  fix x y assume "cycle_kind_text x = cycle_kind_text y"
  then show "x = y" by (cases x; cases y) simp_all
qed

lemma disposition_text_inj: "inj disposition_text"
proof (rule injI)
  fix x y assume "disposition_text x = disposition_text y"
  then show "x = y" by (cases x; cases y) simp_all
qed

lemma operation_text_inj: "inj operation_text"
proof (rule injI)
  fix x y assume "operation_text x = operation_text y"
  then show "x = y" by (cases x; cases y) simp_all
qed

lemma find_texts:
  "find (\<lambda>k. media_text k = media_text m) media_kinds = Some m"
  "find (\<lambda>k. cycle_kind_text k = cycle_kind_text c) [Bootstrap, Incremental] = Some c"
  "find (\<lambda>k. disposition_text k = disposition_text d) dispositions = Some d"
  "find (\<lambda>k. operation_text k = operation_text p) [OpPage, OpProcessed] = Some p"
proof -
  have "m \<in> set media_kinds" by (cases m) (simp_all add: media_kinds_def)
  then show "find (\<lambda>k. media_text k = media_text m) media_kinds = Some m" by (rule find_shown [OF media_text_inj])
  have "c \<in> set [Bootstrap, Incremental]" by (cases c) simp_all
  then show "find (\<lambda>k. cycle_kind_text k = cycle_kind_text c) [Bootstrap, Incremental] = Some c"
    by (rule find_shown [OF cycle_text_inj])
  have "d \<in> set dispositions" by (cases d) (simp_all add: dispositions_def)
  then show "find (\<lambda>k. disposition_text k = disposition_text d) dispositions = Some d"
    by (rule find_shown [OF disposition_text_inj])
  have "p \<in> set [OpPage, OpProcessed]" by (cases p) simp_all
  then show "find (\<lambda>k. operation_text k = operation_text p) [OpPage, OpProcessed] = Some p"
    by (rule find_shown [OF operation_text_inj])
qed

lemma nullable_int: "nullable json_int (Some (opt_json JInt i)) = Some i"
  by (cases i) (simp_all add: json_int_def)

lemma nullable_text: "nullable json_text (Some (opt_json JStr s)) = Some s"
  by (cases s) (simp_all add: json_text_def)

lemmas read_simps = exact_keys_def js_inj find_texts nullable_int nullable_text

lemma binding_back: "obs_bindingCopy (obs_binding_json b) = (if obs_binding_ok b then Some b else None)"
  by (cases b) (simp add: obs_bindingCopy_def obs_binding_json_def read_simps Let_def del: js_simps)

lemma media_back: "mediaCopy (media_json k) = Some k"
  by (simp add: mediaCopy_def media_json_def read_simps del: js_simps)

lemma forwarded_back: "forwardedCopy (forwarded_json f) = (if forwarded_ok f then Some f else None)"
  by (cases f) (simp add: forwardedCopy_def forwarded_json_def read_simps Let_def del: js_simps)

lemma item_back:
  assumes "item_ok x"
  shows "itemCopy (item_json x) = Some x"
proof -
  have "parse_optional forwardedCopy (map_option forwarded_json (it_forwarded x)) = Some (it_forwarded x)"
    using assms by (cases "it_forwarded x") (simp_all add: parse_optional_def forwarded_back item_ok_def)
  then show ?thesis using assms
    by (cases x; cases "it_forwarded x")
      (simp_all add: itemCopy_def item_json_def read_simps Let_def media_back opt_entry_def del: js_simps)
qed

lemma row_back: "row_ok cfg r \<Longrightarrow> rowCopy cfg (row_json r) = Some r"
  by (cases r) (simp add: rowCopy_def row_json_def read_simps Let_def item_back row_ok_def del: js_simps)

lemma cycle_back: "cycle_ok c \<Longrightarrow> nullable cycleCopy (Some (cycle_json c)) = Some (Some c)"
proof -
  assume ok: "cycle_ok c"
  have "cycleCopy (cycle_json c) = Some c" using ok
    by (cases c; cases "cy_kind c") (simp_all add: cycleCopy_def cycle_json_def read_simps Let_def del: js_simps)
  then show ?thesis by (simp add: cycle_json_def)
qed

lemma processing_back: "processing_ok p \<Longrightarrow> nullable processingCopy (Some (processing_json p)) = Some (Some p)"
proof -
  assume ok: "processing_ok p"
  have "processingCopy (processing_json p) = Some p" using ok
    by (cases p) (simp add: processingCopy_def processing_json_def read_simps Let_def del: js_simps)
  then show ?thesis by (simp add: processing_json_def)
qed

lemma operation_back: "operation_ok p \<Longrightarrow> nullable operationCopy (Some (operation_json p)) = Some (Some p)"
proof -
  assume ok: "operation_ok p"
  have "operationCopy (operation_json p) = Some p" using ok
    by (cases p; cases "lo_kind p") (simp_all add: operationCopy_def operation_json_def read_simps Let_def del: js_simps)
  then show ?thesis by (simp add: operation_json_def)
qed

lemma totals_field: "field (Some (totals_json t)) (disposition_text d) = Some (JInt (t d))"
  by (cases d) (simp_all add: totals_json_def dispositions_def js_inj del: js_simps)

lemma totals_back: "totals_ok t \<Longrightarrow> totalsCopy (totals_json t) = Some t"
proof -
  assume ok: "totals_ok t"
  have "total_of (totals_json t) = t" by (simp add: total_of_def totals_field fun_eq_iff)
  moreover have "exact_keys (totals_json t) [''attempt-reserved'', ''alerts-disabled'', ''policy-suppressed'', ''silent'', ''alert'', ''unknown'']
     [''material-too-large'']"
    by (simp add: totals_json_def dispositions_def read_simps del: js_simps)
  ultimately show ?thesis using ok by (simp add: totalsCopy_def totals_field)
qed

definition state_ok :: "obs_cfg \<Rightarrow> obs_state \<Rightarrow> bool" where
  "state_ok cfg s \<longleftrightarrow> scalars_ok cfg s \<and> (\<forall>r \<in> set (os_recent s). row_ok cfg r) \<and> rows_distinct s \<and>
     (\<forall>c. os_cycle s = Some c \<longrightarrow> cycle_ok c) \<and> totals_ok (os_totals s) \<and>
     (\<forall>p. os_last s = Some p \<longrightarrow> processing_ok p) \<and> (\<forall>p. os_operation s = Some p \<longrightarrow> operation_ok p) \<and>
     pending_ok s \<and> cross_ok s"

lemma envelope_fields:
  "exact_keys (envelope cfg s) envelope_keys []"
  "field (Some (envelope cfg s)) ''domain'' = Some (JStr observer_domain)"
  "field (Some (envelope cfg s)) ''binding'' = Some (obs_binding_json (ob_binding cfg))"
  "field (Some (envelope cfg s)) ''revision'' = Some (JInt (os_revision s))"
  "field (Some (envelope cfg s)) ''nextSequence'' = Some (JInt (os_next s))"
  "field (Some (envelope cfg s)) ''initialized'' = Some (JBool (os_initialized s))"
  "field (Some (envelope cfg s)) ''settledHighWatermark'' = Some (opt_json JInt (os_settled s))"
  "field (Some (envelope cfg s)) ''cycle'' = Some (opt_json cycle_json (os_cycle s))"
  "field (Some (envelope cfg s)) ''processedThrough'' = Some (JInt (os_processed s))"
  "field (Some (envelope cfg s)) ''recent'' = Some (JArr (map row_json (os_recent s)))"
  "field (Some (envelope cfg s)) ''historyBeforeObservationNotRead'' = Some (JBool (os_unread s))"
  "field (Some (envelope cfg s)) ''retentionEvictedRows'' = Some (JInt (os_evicted s))"
  "field (Some (envelope cfg s)) ''sourceWindowGaps'' = Some (JInt (os_gaps s))"
  "field (Some (envelope cfg s)) ''capacityPaused'' = Some (JBool (os_paused s))"
  "field (Some (envelope cfg s)) ''processingTotals'' = Some (totals_json (os_totals s))"
  "field (Some (envelope cfg s)) ''lastProcessing'' = Some (opt_json processing_json (os_last s))"
  "field (Some (envelope cfg s)) ''lastOperation'' = Some (opt_json operation_json (os_operation s))"
  by (simp_all add: envelope_def envelope_keys_def exact_keys_def js_inj del: js_simps)

lemma rows_back: "\<forall>r \<in> set rs. row_ok cfg r \<Longrightarrow> opt_all (map (rowCopy cfg) (map row_json rs)) = Some rs"
  by (induction rs) (auto simp: row_back)

lemma scalars_back:
  "decode_scalars (envelope cfg s) = Some (s\<lparr>os_cycle := None, os_recent := [], os_totals := (\<lambda>_. 0), os_last := None, os_operation := None\<rparr>)"
  by (cases s) (simp add: decode_scalars_def envelope_fields nullable_int obs_initial_def del: field.simps)

lemma parts_back:
  assumes "state_ok cfg s"
  shows "decode_parts cfg (envelope cfg s) (s\<lparr>os_cycle := None, os_recent := [], os_totals := (\<lambda>_. 0), os_last := None, os_operation := None\<rparr>)
     (map row_json (os_recent s)) = Inr s"
proof -
  have c: "nullable cycleCopy (Some (opt_json cycle_json (os_cycle s))) = Some (os_cycle s)"
    using assms by (cases "os_cycle s") (simp_all add: state_ok_def cycle_back)
  have l: "nullable processingCopy (Some (opt_json processing_json (os_last s))) = Some (os_last s)"
    using assms by (cases "os_last s") (simp_all add: state_ok_def processing_back)
  have p: "nullable operationCopy (Some (opt_json operation_json (os_operation s))) = Some (os_operation s)"
    using assms by (cases "os_operation s") (simp_all add: state_ok_def operation_back)
  have t: "totalsCopy (totals_json (os_totals s)) = Some (os_totals s)"
    using assms by (simp add: state_ok_def totals_back)
  have r: "opt_all (map (rowCopy cfg) (map row_json (os_recent s))) = Some (os_recent s)"
    using assms rows_back by (simp add: state_ok_def)
  have d: "rows_distinct (s\<lparr>os_cycle := None, os_recent := os_recent s, os_totals := (\<lambda>_. 0), os_last := None, os_operation := None\<rparr>)"
    using assms by (simp add: state_ok_def rows_distinct_def)
  have s: "s\<lparr>os_cycle := os_cycle s, os_recent := os_recent s, os_totals := os_totals s, os_last := os_last s, os_operation := os_operation s\<rparr> = s"
    by simp
  show ?thesis unfolding decode_parts_def r envelope_fields
    using c l p t d assms by (simp add: state_ok_def Let_def del: map_map)
qed

lemma envelope_read_back:
  assumes "state_ok cfg s" "obs_binding_ok (ob_binding cfg)"
  shows "decode cfg (envelope cfg s) = Inr s"
proof -
  let ?s0 = "s\<lparr>os_cycle := None, os_recent := [], os_totals := (\<lambda>_. 0), os_last := None, os_operation := None\<rparr>"
  have "scalars_ok cfg ?s0" using assms(1) by (simp add: state_ok_def scalars_ok_def)
  moreover have "\<not> ob_rows cfg < length (map row_json (os_recent s))" using assms(1) by (simp add: state_ok_def scalars_ok_def)
  ultimately show ?thesis
    using parts_back [OF assms(1)] assms(2)
    by (simp add: decode_def envelope_fields scalars_back binding_back del: field.simps)
qed

end
