(* ===== verification/ObserverProps.thy ===== *)
theory ObserverProps
  imports ObserverBack
begin

text \<open>
  What the observer's state promises: every operation keeps the state valid, so whatever is on
  disk can be opened again; a row is evicted only after it was processed, and no page is passed
  over. The only assumptions are on SHA-256: its form, and that no two of the source's message
  ids share a reference.
\<close>

section \<open>Issued pages\<close>

definition issued :: "page_cfg \<Rightarrow> obs_page \<Rightarrow> bool" where
  \<comment> \<open>The projector has returned this page.\<close>
  "issued pc p \<longleftrightarrow> (\<exists>title peer before limit inexact msgs.
     projectStandingObservedSourcePage pc title peer before limit inexact msgs = Some p)"

lemma project_rows_ids:
  assumes "project_rows pc title peer b ms = Some rows"
  shows "sorted_wrt (>) (b # map fst rows) \<and> (\<forall>i \<in> set (map fst rows). valid_message_id i) \<and> length rows = length ms"
  using assms
proof (induction ms arbitrary: b rows)
  case (Cons m ms)
  then obtain x rows' where rows: "rows = (raw_id m, x) # rows'" "project_rows pc title peer (raw_id m) ms = Some rows'"
    and i: "valid_message_id (raw_id m)" "raw_id m < b"
    by (auto simp: Let_def split: if_splits option.splits)
  from Cons.IH [OF rows(2)] show ?case using rows(1) i by auto
qed simp

lemma cover_rows_bound: "k \<le> cover_rows page n k \<and> cover_rows page n k \<le> k + n"
  by (induction page n k rule: cover_rows.induct) (auto simp: Let_def)

definition meta_ok :: "obs_meta \<Rightarrow> bool" where
  "meta_ok m \<longleftrightarrow> sorted_wrt (>) (md_ids m) \<and> (\<forall>i \<in> set (md_ids m). valid_message_id i) \<and>
     (case md_highest m of None \<Rightarrow> md_raw m = 0 | Some h \<Rightarrow> valid_message_id h \<and> (\<forall>i \<in> set (md_ids m). i \<le> h)) \<and>
     int (length (md_ids m)) \<le> md_raw m \<and> md_raw m \<le> md_limit m \<and>
     (\<forall>b. md_before m = Some b \<longrightarrow> (\<forall>i \<in> set (md_ids m). i < b))"

lemma issued_meta:
  assumes "issued pc p"
  shows "meta_ok (pg_meta p)"
proof -
  from assms obtain title peer before limit inexact msgs where
    "projectStandingObservedSourcePage pc title peer before limit inexact msgs = Some p" by (auto simp: issued_def)
  then obtain t rows where
    rows: "project_rows pc t peer (or_else before 2147483648) msgs = Some rows" "int (length msgs) \<le> limit"
    and p: "p = page_of t peer before limit inexact rows (cover_rows (page_of t peer before limit inexact rows) (length rows) 0)"
    unfolding projectStandingObservedSourcePage_def Let_def
    by (auto split: if_split_asm option.split_asm)
  define k where "k = cover_rows (page_of t peer before limit inexact rows) (length rows) 0"
  note p = p [folded k_def]
  note ids = project_rows_ids [OF rows(1)]
  have seen: "map fst (take k rows) = take k (map fst rows)" by (simp add: take_map)
  have sorted: "sorted_wrt (>) (take k (map fst rows))" using ids by (simp add: sorted_wrt_take)
  have mem: "i \<in> set (map fst rows)" if "i \<in> set (take k (map fst rows))" for i using that by (rule in_set_takeD)
  have high: "case (case rows of [] \<Rightarrow> None | r # _ \<Rightarrow> Some (fst r)) of None \<Rightarrow> int (length rows) = 0
    | Some h \<Rightarrow> valid_message_id h \<and> (\<forall>i \<in> set (take k (map fst rows)). i \<le> h)"
  proof (cases rows)
    case (Cons r rs)
    then have "\<forall>i \<in> set (map fst rows). i \<le> fst r" using ids by auto
    then have "\<forall>i \<in> set (take k (map fst rows)). i \<le> fst r" using mem by blast
    moreover have "valid_message_id (fst r)" using ids Cons by simp
    ultimately show ?thesis using Cons by simp
  qed simp
  have before: "i < b" if "before = Some b" "i \<in> set (take k (map fst rows))" for b i
    using ids that mem by auto
  have m: "md_ids (pg_meta p) = take k (map fst rows)" "md_raw (pg_meta p) = int (length rows)" "md_limit (pg_meta p) = limit"
    "md_before (pg_meta p) = before" "md_highest (pg_meta p) = (case rows of [] \<Rightarrow> None | r # _ \<Rightarrow> Some (fst r))"
    unfolding p page_of_def Let_def by (simp_all add: seen del: set_map)
  have valid: "\<forall>i \<in> set (take k (map fst rows)). valid_message_id i" using mem ids by blast
  have raw: "int (length rows) \<le> limit" using ids rows(2) by simp
  show ?thesis unfolding meta_ok_def m
    using sorted valid high before raw by simp
qed

section \<open>Pending rows\<close>

definition pending_kept :: "obs_state \<Rightarrow> bool" where
  "pending_kept s \<longleftrightarrow> (\<forall>k. os_processed s < k \<and> k \<le> os_next s \<longrightarrow> k \<in> rw_seq ` set (os_recent s))"

lemma upto_indices: "a \<le> b \<Longrightarrow> map (\<lambda>i. a + int i + 1) [0..<nat (b - a)] = [a + 1..b]"
proof (induction "nat (b - a)" arbitrary: b)
  case (Suc n)
  then have "nat (b - 1 - a) = n" "a \<le> b - 1" by linarith+
  then have "map (\<lambda>i. a + int i + 1) [0..<n] = [a + 1..b - 1]" using Suc.hyps(1) [of "b - 1"] by simp
  moreover have "[a + 1..b] = [a + 1..b - 1] @ [b]" using Suc by (simp add: upto_rec2)
  moreover have "a + int n + 1 = b" using Suc by linarith
  ultimately show ?case using Suc.hyps(2) by (metis (no_types, lifting) list.map(1,2) map_append upt_Suc zero_order(1))
qed simp

lemma pending_sequences:
  assumes "rows_distinct s" "os_processed s \<le> os_next s"
  shows "(os_next s - os_processed s = int (length (pending_rows s)) \<and>
     map rw_seq (pending_rows s) = map (\<lambda>i. os_processed s + int i + 1) [0..<length (pending_rows s)]) \<longleftrightarrow> pending_kept s"
proof -
  let ?p = "map rw_seq (pending_rows s)" and ?l = "[os_processed s + 1..os_next s]"
  let ?f = "filter (\<lambda>r. os_processed s < rw_seq r) (os_recent s)"
  have d: "distinct ?p"
  proof -
    have "distinct (map rw_seq (os_recent s))" using assms(1) by (simp add: rows_distinct_def)
    then have "distinct (map rw_seq ?f)" by (rule distinct_map_filter)
    then show ?thesis by (simp add: pending_rows_def distinct_map)
  qed
  have srt: "sorted ?p" by (simp add: pending_rows_def)
  have set: "set ?p = rw_seq ` set (os_recent s) \<inter> {os_processed s<..}" by (auto simp: pending_rows_def)
  have sub: "set ?p \<subseteq> set ?l"
  proof
    fix k assume "k \<in> set ?p"
    then obtain r where r: "r \<in> set (os_recent s)" "k = rw_seq r" "os_processed s < k" unfolding set by blast
    have "rw_seq r \<le> os_next s" using assms(1) r(1) unfolding rows_distinct_def by blast
    then show "k \<in> set ?l" using r(2,3) by simp
  qed
  have eq: "?p = ?l \<longleftrightarrow> pending_kept s"
  proof
    assume "?p = ?l"
    then have "set ?l = rw_seq ` set (os_recent s) \<inter> {os_processed s<..}" using set by argo
    then have sub: "set ?l \<subseteq> rw_seq ` set (os_recent s)" by (rule equalityD1 [THEN le_infE])
    show "pending_kept s" unfolding pending_kept_def
    proof (intro allI impI)
      fix k assume "os_processed s < k \<and> k \<le> os_next s"
      then have "k \<in> set ?l" by simp
      then show "k \<in> rw_seq ` set (os_recent s)" using sub by blast
    qed
  next
    assume "pending_kept s"
    have "set ?l \<subseteq> set ?p"
    proof
      fix k assume "k \<in> set ?l"
      then have "os_processed s < k" "k \<le> os_next s" by simp_all
      then show "k \<in> set ?p" unfolding set using \<open>pending_kept s\<close> unfolding pending_kept_def by blast
    qed
    then have "set ?p = set ?l" using sub by blast
    then show "?p = ?l" using d srt by (intro sorted_distinct_set_unique) simp_all
  qed
  have len: "length ?l = nat (os_next s - os_processed s)" by simp
  show ?thesis
  proof
    assume *: "os_next s - os_processed s = int (length (pending_rows s)) \<and>
      ?p = map (\<lambda>i. os_processed s + int i + 1) [0..<length (pending_rows s)]"
    then have "?p = ?l" using upto_indices [OF assms(2)] by (metis nat_int)
    then show "pending_kept s" using eq by simp
  next
    assume "pending_kept s"
    then have p: "?p = ?l" using eq by simp
    then have "length (pending_rows s) = nat (os_next s - os_processed s)" using len by (metis length_map)
    then show "os_next s - os_processed s = int (length (pending_rows s)) \<and>
      ?p = map (\<lambda>i. os_processed s + int i + 1) [0..<length (pending_rows s)]"
      using p upto_indices [OF assms(2)] assms(2) by simp
  qed
qed

section \<open>The parts of a valid state\<close>

definition last_ok :: "obs_state \<Rightarrow> bool" where
  "last_ok s \<longleftrightarrow> (case os_last s of
        None \<Rightarrow> True
      | Some p \<Rightarrow> processing_ok p \<and> pr_through p \<le> os_processed s \<and> pr_revision p \<le> os_revision s \<and>
          (pr_disposition p = DReserved \<longrightarrow>
             pr_through p = os_processed s \<and> pr_through p - pr_from p + 1 \<le> os_totals s DReserved))"

definition counts_ok :: "obs_state \<Rightarrow> bool" where
  "counts_ok s \<longleftrightarrow> natural_in (os_revision s) \<and> natural_in (os_next s) \<and> natural_in (os_processed s) \<and>
     os_processed s \<le> os_next s \<and> natural_in (os_evicted s) \<and> natural_in (os_gaps s) \<and>
     totals_ok (os_totals s) \<and> sum_list (map (os_totals s) dispositions) = os_processed s \<and> last_ok s \<and>
     (\<forall>p. os_operation s = Some p \<longrightarrow> operation_ok p)"

definition recent_ok :: "obs_cfg \<Rightarrow> obs_state \<Rightarrow> bool" where
  "recent_ok cfg s \<longleftrightarrow> (\<forall>r \<in> set (os_recent s). row_ok cfg r) \<and> rows_distinct s \<and> pending_kept s"

definition reading_ok :: "obs_state \<Rightarrow> bool" where
  "reading_ok s \<longleftrightarrow> opt_in 1 2147483647 (os_settled s) \<and> (os_initialized s \<or> os_settled s = None) \<and>
     (case os_cycle s of None \<Rightarrow> \<not> os_paused s | Some c \<Rightarrow> cycle_ok c \<and> (cy_kind c = Bootstrap) = (\<not> os_initialized s))"

lemma state_ok_parts:
  "state_ok cfg s \<longleftrightarrow> counts_ok s \<and> recent_ok cfg s \<and> reading_ok s \<and> length (os_recent s) \<le> ob_rows cfg"
proof -
  have "rows_distinct s \<Longrightarrow> os_processed s \<le> os_next s \<Longrightarrow>
    pending_ok s \<longleftrightarrow> pending_kept s \<and> sum_list (map (os_totals s) dispositions) = os_processed s"
    using pending_sequences unfolding pending_ok_def by blast
  then show ?thesis
    unfolding state_ok_def counts_ok_def recent_ok_def reading_ok_def scalars_ok_def cross_ok_def last_ok_def
    by (cases "os_cycle s"; cases "os_last s") auto
qed

lemma initial_ok: "state_ok cfg obs_initial"
  by (simp add: state_ok_parts counts_ok_def recent_ok_def reading_ok_def obs_initial_def natural_in_def max_safe_def
      totals_ok_def last_ok_def rows_distinct_def pending_kept_def opt_in_def dispositions_def)

section \<open>Making room\<close>

definition evicted_to :: "obs_state \<Rightarrow> obs_state \<Rightarrow> bool" where
  \<comment> \<open>Only processed rows are gone, and they are counted.\<close>
  "evicted_to s s' \<longleftrightarrow> (\<exists>rs e. s' = s\<lparr>os_recent := rs, os_evicted := e\<rparr> \<and> os_evicted s \<le> e \<and> (e = os_evicted s \<or> e \<le> max_safe) \<and>
     set rs \<subseteq> set (os_recent s) \<and> (\<forall>r \<in> set (os_recent s). os_processed s < rw_seq r \<longrightarrow> r \<in> set rs) \<and>
     distinct (map rw_id rs) \<and> distinct (map rw_seq rs) \<and> distinct (map (it_ref \<circ> rw_item) rs))"

lemma distinct_map_remove1: "distinct (map f xs) \<Longrightarrow> distinct (map f (remove1 x xs))"
  by (induction xs) (auto dest: notin_set_remove1 set_remove1_subset [THEN subsetD])

lemma make_room_evicts:
  assumes "make_room cfg s = Inr (Some s')" "rows_distinct s"
  shows "evicted_to s s' \<and> length (os_recent s') \<le> ob_rows cfg \<and> envelope_fits cfg s'"
  using assms
proof (induction cfg s rule: make_room.induct)
  case (1 cfg s)
  show ?case
  proof (cases "length (os_recent s) \<le> ob_rows cfg \<and> envelope_fits cfg s")
    case True
    then have "s' = s" using "1.prems"(1) by (simp add: make_room.simps)
    moreover have "evicted_to s s" unfolding evicted_to_def
      using "1.prems"(2) by (intro exI [of _ "os_recent s"] exI [of _ "os_evicted s"]) (simp add: rows_distinct_def)
    ultimately show ?thesis using True by simp
  next
    case False
    then obtain r where r: "eviction s = Some r" "\<not> max_safe \<le> os_evicted s"
      and rest: "make_room cfg (s\<lparr>os_recent := remove1 r (os_recent s), os_evicted := os_evicted s + 1\<rparr>) = Inr (Some s')"
      using "1.prems"(1) by (subst (asm) make_room.simps) (auto split: option.splits if_splits)
    let ?s = "s\<lparr>os_recent := remove1 r (os_recent s), os_evicted := os_evicted s + 1\<rparr>"
    have sub: "set (remove1 r (os_recent s)) \<subseteq> set (os_recent s)" by (rule set_remove1_subset)
    have "\<forall>q \<in> set (os_recent ?s). rw_seq q \<le> os_next ?s"
      using sub "1.prems"(2) unfolding rows_distinct_def by (simp, blast)
    then have "rows_distinct ?s" using "1.prems"(2) unfolding rows_distinct_def by (simp add: distinct_map_remove1)
    from "1.IH" [OF False r rest this] obtain rs e where
      s': "s' = ?s\<lparr>os_recent := rs, os_evicted := e\<rparr>" "os_evicted ?s \<le> e" "e = os_evicted ?s \<or> e \<le> max_safe"
        "set rs \<subseteq> set (os_recent ?s)" "\<forall>q \<in> set (os_recent ?s). os_processed ?s < rw_seq q \<longrightarrow> q \<in> set rs"
        "distinct (map rw_id rs)" "distinct (map rw_seq rs)" "distinct (map (it_ref \<circ> rw_item) rs)"
        "length (os_recent s') \<le> ob_rows cfg" "envelope_fits cfg s'"
      by (auto simp: evicted_to_def)
    have "rw_seq r \<le> os_processed s" using eviction_mem [OF r(1)] by simp
    have "\<forall>q \<in> set (os_recent s). os_processed s < rw_seq q \<longrightarrow> q \<in> set rs"
    proof (intro ballI impI)
      fix q assume q: "q \<in> set (os_recent s)" "os_processed s < rw_seq q"
      with \<open>rw_seq r \<le> os_processed s\<close> have "q \<noteq> r" by auto
      then have "q \<in> set (os_recent ?s)" using q(1) by simp
      then show "q \<in> set rs" using s'(5) q(2) by simp
    qed
    moreover have "set rs \<subseteq> set (os_recent s)" using s'(4) sub by auto
    moreover have "e \<le> max_safe" using s'(3) r(2) by auto
    ultimately have "evicted_to s s'" unfolding evicted_to_def using s'
      by (intro exI [of _ rs] exI [of _ e]) auto
    then show ?thesis using s'(9,10) by simp
  qed
qed

lemma evicted_ok:
  assumes "evicted_to s s'" "counts_ok s" "recent_ok cfg s"
  shows "counts_ok s' \<and> recent_ok cfg s'"
proof -
  obtain rs e where s': "s' = s\<lparr>os_recent := rs, os_evicted := e\<rparr>" "os_evicted s \<le> e" "e = os_evicted s \<or> e \<le> max_safe"
    "set rs \<subseteq> set (os_recent s)" "\<forall>r \<in> set (os_recent s). os_processed s < rw_seq r \<longrightarrow> r \<in> set rs"
    "distinct (map rw_id rs)" "distinct (map rw_seq rs)" "distinct (map (it_ref \<circ> rw_item) rs)"
    using assms(1) by (auto simp: evicted_to_def)
  have "natural_in e" using s'(2,3) assms(2) by (auto simp: counts_ok_def natural_in_def)
  then have "counts_ok s'" using assms(2) s'(1) by (auto simp: counts_ok_def last_ok_def split: option.splits)
  moreover have "pending_kept s'" unfolding pending_kept_def
  proof (intro allI impI)
    fix k assume "os_processed s' < k \<and> k \<le> os_next s'"
    then obtain r where "r \<in> set (os_recent s)" "rw_seq r = k" "os_processed s < k"
      using assms(3) s'(1) by (auto simp: recent_ok_def pending_kept_def)
    then show "k \<in> rw_seq ` set (os_recent s')" using s'(1,5) by auto
  qed
  moreover have "rows_distinct s'" using assms(3) s' by (auto simp: recent_ok_def rows_distinct_def)
  ultimately show ?thesis using assms(3) s'(1,4) by (auto simp: recent_ok_def)
qed

section \<open>Admitting a row\<close>

definition sha_law :: "obs_cfg \<Rightarrow> bool" where
  \<comment> \<open>The form of a digest, and no two message ids of the source with the same reference.\<close>
  "sha_law cfg \<longleftrightarrow> (\<forall>t. sha_hex (ob_sha cfg t)) \<and>
     inj_on (expectedRef (ob_sha cfg) (obn_source (ob_binding cfg))) {1..2147483647}"

abbreviation row_ref :: "obs_cfg \<Rightarrow> int \<Rightarrow> utext" where
  "row_ref cfg \<equiv> expectedRef (ob_sha cfg) (obn_source (ob_binding cfg))"

definition flows :: "obs_state \<Rightarrow> obs_state \<Rightarrow> bool" where
  "flows s s' \<longleftrightarrow> os_revision s' = os_revision s \<and> os_processed s' = os_processed s \<and> os_initialized s' = os_initialized s \<and> os_settled s' = os_settled s \<and>
     (\<forall>r \<in> set (os_recent s). os_processed s < rw_seq r \<longrightarrow> r \<in> set (os_recent s')) \<and>
     (\<forall>r \<in> set (os_recent s'). rw_seq r \<le> os_processed s \<longrightarrow> r \<in> set (os_recent s))"

lemma flows_refl [simp]: "flows s s"
  by (simp add: flows_def)

lemma flows_trans: "flows a b \<Longrightarrow> flows b c \<Longrightarrow> flows a c"
  unfolding flows_def by (metis)

definition stored :: "obs_state \<Rightarrow> int \<Rightarrow> obs_item \<Rightarrow> bool" where
  "stored s i x \<longleftrightarrow> (\<exists>r \<in> set (os_recent s). rw_id r = i \<and> rw_item r = x)"

lemma admit_row_ok:
  assumes "admit_row cfg at i x s = Inr (Some s')" "counts_ok s" "recent_ok cfg s" "sha_law cfg"
    and "item_ok x" "it_ref x = row_ref cfg i" "valid_message_id i" "valid_unix at" "i \<notin> rw_id ` set (os_recent s)"
  shows "counts_ok s' \<and> recent_ok cfg s' \<and> length (os_recent s') \<le> ob_rows cfg \<and> flows s s' \<and>
    (\<exists>r \<in> set (os_recent s'). rw_id r = i \<and> rw_item r = x \<and> os_processed s < rw_seq r)"
proof -
  let ?r = "\<lparr>rw_id = i, rw_seq = os_next s + 1, rw_at = at, rw_item = x\<rparr>"
  define t where "t = s\<lparr>os_next := os_next s + 1, os_recent := os_recent s @ [?r]\<rparr>"
  have room: "make_room cfg t = Inr (Some s')" and next_lt: "os_next s < max_safe"
    using assms(1) by (auto simp: admit_row_def t_def split: if_splits)
  have nn: "0 \<le> os_next s" "os_processed s \<le> os_next s" using assms(2) by (auto simp: counts_ok_def natural_in_def)
  have seqs: "\<forall>r \<in> set (os_recent s). rw_seq r \<le> os_next s" and d: "rows_distinct s"
    using assms(3) unfolding recent_ok_def rows_distinct_def by blast+
  have ref: "it_ref x \<notin> (it_ref \<circ> rw_item) ` set (os_recent s)"
  proof
    assume "it_ref x \<in> (it_ref \<circ> rw_item) ` set (os_recent s)"
    then obtain r where r: "r \<in> set (os_recent s)" "it_ref (rw_item r) = it_ref x" by auto
    then have "row_ref cfg (rw_id r) = row_ref cfg i" "valid_message_id (rw_id r)"
      using assms(3,6) unfolding recent_ok_def row_ok_def by metis+
    then have "rw_id r = i" using assms(4,7) by (auto simp: sha_law_def valid_message_id_def dest: inj_onD)
    then show False using r(1) assms(9) by blast
  qed
  have seq: "os_next s + 1 \<notin> rw_seq ` set (os_recent s)" using seqs by force
  have rt: "rows_distinct t"
    using d seqs ref seq assms(9) nn unfolding rows_distinct_def t_def by (auto simp: comp_def)
  have "pending_kept t" unfolding pending_kept_def
  proof (intro allI impI)
    fix k assume k: "os_processed t < k \<and> k \<le> os_next t"
    show "k \<in> rw_seq ` set (os_recent t)"
    proof (cases "k = os_next s + 1")
      case False
      then have "k \<in> rw_seq ` set (os_recent s)"
        using k assms(3) by (auto simp: t_def recent_ok_def pending_kept_def)
      then show ?thesis by (auto simp: t_def)
    qed (simp add: t_def)
  qed
  moreover have "row_ok cfg ?r" using assms(5-8) nn next_lt
    by (simp add: row_ok_def valid_revision_def)
  ultimately have rec: "recent_ok cfg t" using assms(3) rt by (auto simp: recent_ok_def t_def)
  have cnt: "counts_ok t" using assms(2) next_lt nn
    by (auto simp: counts_ok_def t_def natural_in_def last_ok_def split: option.splits)
  from make_room_evicts [OF room rt] have ev: "evicted_to t s'" and len: "length (os_recent s') \<le> ob_rows cfg" by auto
  obtain rs e where s': "s' = t\<lparr>os_recent := rs, os_evicted := e\<rparr>" and sub: "set rs \<subseteq> set (os_recent t)"
    and keep: "\<forall>r \<in> set (os_recent t). os_processed t < rw_seq r \<longrightarrow> r \<in> set rs"
    using ev by (auto simp: evicted_to_def)
  have new: "?r \<in> set rs" using keep nn by (simp add: t_def)
  have "flows s s'" unfolding flows_def
  proof (intro conjI ballI impI)
    fix r assume "r \<in> set (os_recent s)" "os_processed s < rw_seq r"
    then show "r \<in> set (os_recent s')" using keep by (simp add: s' t_def)
  next
    fix r assume r: "r \<in> set (os_recent s')" "rw_seq r \<le> os_processed s"
    then have "r \<noteq> ?r" using nn by auto
    then show "r \<in> set (os_recent s)" using r(1) sub by (auto simp: s' t_def)
  qed (simp_all add: s' t_def)
  moreover have "\<exists>r \<in> set (os_recent s'). rw_id r = i \<and> rw_item r = x \<and> os_processed s < rw_seq r"
    using new nn by (intro bexI [of _ ?r]) (simp_all add: s')
  ultimately show ?thesis using evicted_ok [OF ev cnt rec] len by blast
qed

section \<open>Visiting the rows of a page\<close>

definition visit_ok :: "obs_cfg \<Rightarrow> visit \<Rightarrow> bool" where
  "visit_ok cfg v \<longleftrightarrow> counts_ok (vs_state v) \<and> recent_ok cfg (vs_state v) \<and> length (os_recent (vs_state v)) \<le> ob_rows cfg \<and>
     cycle_ok (vs_cycle v) \<and> opt_in 1 2147483647 (os_settled (vs_state v)) \<and>
     (os_initialized (vs_state v) \<or> os_settled (vs_state v) = None) \<and>
     (cy_kind (vs_cycle v) = Bootstrap) = (\<not> os_initialized (vs_state v))"

definition same_cycle :: "obs_cycle \<Rightarrow> obs_cycle \<Rightarrow> bool" where
  "same_cycle c c' \<longleftrightarrow> cy_kind c' = cy_kind c \<and> cy_prior c' = cy_prior c \<and> cy_high c' = cy_high c \<and> cy_pages c' = cy_pages c"

definition items_ok :: "obs_cfg \<Rightarrow> (int \<Rightarrow> obs_item option) \<Rightarrow> bool" where
  "items_ok cfg items \<longleftrightarrow> (\<forall>i x. items i = Some x \<longrightarrow> item_ok x \<and> it_ref x = row_ref cfg i)"

lemma counts_cycle [simp]: "counts_ok (s\<lparr>os_cycle := c\<rparr>) = counts_ok s"
  by (cases "os_last s") (simp_all add: counts_ok_def last_ok_def)

lemma recent_cycle [simp]: "recent_ok cfg (s\<lparr>os_cycle := c\<rparr>) = recent_ok cfg s"
  by (simp add: recent_ok_def rows_distinct_def pending_kept_def)

lemma flows_cycle [simp]: "flows s (s'\<lparr>os_cycle := c\<rparr>) = flows s s'"
  by (simp add: flows_def)

lemma pass_row_cycle:
  assumes "cycle_ok c" "\<not> cycle_stops c i" "valid_message_id i"
  shows "cycle_ok (pass_row c i) \<and> same_cycle c (pass_row c i) \<and> cy_before (pass_row c i) = Some i \<and>
    (cy_kind c = Bootstrap \<longrightarrow> cy_remaining (pass_row c i) = Some (or_else (cy_remaining c) 0 - 1))"
  using assms by (cases "cy_remaining c"; cases "cy_kind c")
    (auto simp: cycle_ok_def pass_row_def same_cycle_def cycle_stops_def opt_in_def valid_message_id_def)

lemma find_id: "find (\<lambda>r. rw_id r = i) rs = Some r \<Longrightarrow> r \<in> set rs \<and> rw_id r = i"
  by (induction rs) (auto split: if_splits)

lemma find_id_None: "find (\<lambda>r. rw_id r = i) rs = None \<Longrightarrow> i \<notin> rw_id ` set rs"
  by (auto simp: find_None_iff)

lemma visit_row_cases:
  assumes "visit_row cfg at (items i) i v = Inr v'" "visit_ok cfg v" "sha_law cfg" "items_ok cfg items"
    and "valid_message_id i" "valid_unix at" "\<not> vs_blocked v"
  obtains (blocked) "v' = v\<lparr>vs_blocked := True\<rparr>"
    | (passed) s where "v' = v\<lparr>vs_state := s\<lparr>os_cycle := Some (pass_row (vs_cycle v) i)\<rparr>, vs_cycle := pass_row (vs_cycle v) i,
        vs_admitted := vs_admitted v', vs_duplicates := vs_duplicates v'\<rparr>"
      "counts_ok s" "recent_ok cfg s" "length (os_recent s) \<le> ob_rows cfg" "flows (vs_state v) s"
      "\<forall>x. items i = Some x \<longrightarrow> (\<exists>r \<in> set (os_recent s). rw_id r = i \<and> rw_item r = x)"
proof (cases "items i")
  case None
  then show ?thesis using assms(1,2) passed [of "vs_state v"]
    by (auto simp: visit_row_def Let_def visit_ok_def)
next
  case (Some x)
  have x: "item_ok x" "it_ref x = row_ref cfg i" using assms(4) Some by (auto simp: items_ok_def)
  show ?thesis
  proof (cases "find (\<lambda>r. rw_id r = i) (os_recent (vs_state v))")
    case (Some r)
    then have "rw_item r = x" "v' = v\<lparr>vs_state := (vs_state v)\<lparr>os_cycle := Some (pass_row (vs_cycle v) i)\<rparr>,
        vs_cycle := pass_row (vs_cycle v) i, vs_duplicates := vs_duplicates v + 1\<rparr>"
      using assms(1) \<open>items i = Some x\<close> by (auto simp: visit_row_def Let_def split: if_splits)
    then show ?thesis using passed [of "vs_state v"] find_id [OF Some] assms(2) \<open>items i = Some x\<close>
      by (auto simp: visit_ok_def)
  next
    case None
    show ?thesis
    proof (cases "admit_row cfg at i x (vs_state v)")
      case (Inl e)
      then show ?thesis using assms(1) \<open>items i = Some x\<close> None by (simp add: visit_row_def)
    next
      case (Inr y)
      show ?thesis
      proof (cases y)
        case None
        then show ?thesis using assms(1) Inr \<open>items i = Some x\<close> \<open>find _ _ = None\<close> blocked
          by (simp add: visit_row_def)
      next
        case (Some s)
        have v: "counts_ok (vs_state v)" "recent_ok cfg (vs_state v)" using assms(2) by (auto simp: visit_ok_def)
        have a: "admit_row cfg at i x (vs_state v) = Inr (Some s)" using Inr Some by simp
        have ok: "counts_ok s \<and> recent_ok cfg s \<and> length (os_recent s) \<le> ob_rows cfg \<and> flows (vs_state v) s \<and>
          (\<exists>r \<in> set (os_recent s). rw_id r = i \<and> rw_item r = x \<and> os_processed (vs_state v) < rw_seq r)"
          by (rule admit_row_ok [OF a v assms(3) x assms(5,6) find_id_None [OF None]])
        have "v' = v\<lparr>vs_state := s\<lparr>os_cycle := Some (pass_row (vs_cycle v) i)\<rparr>, vs_cycle := pass_row (vs_cycle v) i,
            vs_admitted := vs_admitted v + 1\<rparr>"
          using assms(1) [symmetric] \<open>items i = Some x\<close> None a by (simp add: visit_row_def Let_def)
        then show ?thesis using passed [of s] ok \<open>items i = Some x\<close> by auto
      qed
    qed
  qed
qed

definition visited :: "(int \<Rightarrow> obs_item option) \<Rightarrow> visit \<Rightarrow> visit \<Rightarrow> nat \<Rightarrow> int \<Rightarrow> bool" where
  \<comment> \<open>What has become of the row \<open>i\<close> at position \<open>n\<close> between two points of the loop.\<close>
  "visited items v v' n i \<longleftrightarrow> (\<forall>x. items i = Some x \<longrightarrow>
     stored (vs_state v') i x \<or>
     (\<exists>r \<in> set (os_recent (vs_state v)). rw_id r = i \<and> rw_item r = x \<and> rw_seq r \<le> os_processed (vs_state v)) \<or>
     (\<not> vs_complete v' \<and> (case cy_before (vs_cycle v') of None \<Rightarrow> True | Some b \<Rightarrow> i < b)) \<or>
     (vs_complete v' \<and> (if cy_kind (vs_cycle v) = Bootstrap then or_else (cy_remaining (vs_cycle v)) 0 \<le> int n
        else (\<exists>p. cy_prior (vs_cycle v) = Some p \<and> i \<le> p))))"

lemma stored_flows:
  assumes "r \<in> set (os_recent s)" "rw_id r = i" "rw_item r = x" "flows s s'"
  shows "stored s' i x \<or> rw_seq r \<le> os_processed s"
  using assms by (auto simp: flows_def stored_def)

lemma flows_back:
  assumes "flows s s'" "r \<in> set (os_recent s')" "rw_seq r \<le> os_processed s'"
  shows "r \<in> set (os_recent s) \<and> rw_seq r \<le> os_processed s"
  using assms unfolding flows_def by metis

lemma visited_head:
  assumes "flows (vs_state v) (vs_state v1)" "flows (vs_state v1) (vs_state v')"
    and "\<forall>x. items i = Some x \<longrightarrow> stored (vs_state v1) i x"
  shows "visited items v v' n i"
  unfolding visited_def
proof (intro allI impI)
  fix x assume "items i = Some x"
  then obtain r where r: "r \<in> set (os_recent (vs_state v1))" "rw_id r = i" "rw_item r = x"
    using assms(3) unfolding stored_def by blast
  from stored_flows [OF r assms(2)] flows_back [OF assms(1) r(1)] r(2,3)
  have "stored (vs_state v') i x \<or>
    (\<exists>r \<in> set (os_recent (vs_state v)). rw_id r = i \<and> rw_item r = x \<and> rw_seq r \<le> os_processed (vs_state v))" by blast
  then show "stored (vs_state v') i x \<or>
     (\<exists>r \<in> set (os_recent (vs_state v)). rw_id r = i \<and> rw_item r = x \<and> rw_seq r \<le> os_processed (vs_state v)) \<or>
     (\<not> vs_complete v' \<and> (case cy_before (vs_cycle v') of None \<Rightarrow> True | Some b \<Rightarrow> i < b)) \<or>
     (vs_complete v' \<and> (if cy_kind (vs_cycle v) = Bootstrap then or_else (cy_remaining (vs_cycle v)) 0 \<le> int n
        else (\<exists>p. cy_prior (vs_cycle v) = Some p \<and> i \<le> p)))" by blast
qed

lemma visited_tail:
  assumes "flows (vs_state v) (vs_state v1)"
    and "cy_kind (vs_cycle v1) = cy_kind (vs_cycle v)" "cy_prior (vs_cycle v1) = cy_prior (vs_cycle v)"
    and "cy_kind (vs_cycle v) = Bootstrap \<longrightarrow> or_else (cy_remaining (vs_cycle v1)) 0 = or_else (cy_remaining (vs_cycle v)) 0 - 1"
    and "visited items v1 v' m i"
  shows "visited items v v' (Suc m) i"
  unfolding visited_def
proof (intro allI impI)
  fix x assume "items i = Some x"
  with assms(5) consider "stored (vs_state v') i x"
    | (old) "\<exists>r \<in> set (os_recent (vs_state v1)). rw_id r = i \<and> rw_item r = x \<and> rw_seq r \<le> os_processed (vs_state v1)"
    | "\<not> vs_complete v' \<and> (case cy_before (vs_cycle v') of None \<Rightarrow> True | Some b \<Rightarrow> i < b)"
    | (end_of) "vs_complete v'" "if cy_kind (vs_cycle v1) = Bootstrap then or_else (cy_remaining (vs_cycle v1)) 0 \<le> int m
        else \<exists>p. cy_prior (vs_cycle v1) = Some p \<and> i \<le> p"
    unfolding visited_def by blast
  then show "stored (vs_state v') i x \<or>
     (\<exists>r \<in> set (os_recent (vs_state v)). rw_id r = i \<and> rw_item r = x \<and> rw_seq r \<le> os_processed (vs_state v)) \<or>
     (\<not> vs_complete v' \<and> (case cy_before (vs_cycle v') of None \<Rightarrow> True | Some b \<Rightarrow> i < b)) \<or>
     (vs_complete v' \<and> (if cy_kind (vs_cycle v) = Bootstrap then or_else (cy_remaining (vs_cycle v)) 0 \<le> int (Suc m)
        else (\<exists>p. cy_prior (vs_cycle v) = Some p \<and> i \<le> p)))"
  proof cases
    case old
    then show ?thesis using flows_back [OF assms(1)] by blast
  next
    case end_of
    then show ?thesis using assms(2-4) by (cases "cy_kind (vs_cycle v) = Bootstrap") simp_all
  qed blast+
qed

lemma visit_rows_ok:
  assumes "visit_rows cfg at items ids v = Inr v'" "visit_ok cfg v" "sha_law cfg" "items_ok cfg items"
    and "\<forall>i \<in> set ids. valid_message_id i" "valid_unix at" "\<not> vs_blocked v" "\<not> vs_complete v" "sorted_wrt (>) ids"
    and "\<forall>b. cy_before (vs_cycle v) = Some b \<longrightarrow> (\<forall>i \<in> set ids. i < b)"
  shows "visit_ok cfg v' \<and> flows (vs_state v) (vs_state v') \<and> same_cycle (vs_cycle v) (vs_cycle v') \<and>
    (\<forall>n < length ids. visited items v v' n (ids ! n))"
  using assms
proof (induction ids arbitrary: v)
  case Nil
  then show ?case by (simp add: same_cycle_def)
next
  case (Cons i ids)
  show ?case
  proof (cases "cycle_stops (vs_cycle v) i")
    case True
    then have v': "v' = v\<lparr>vs_complete := True\<rparr>" using Cons.prems(1) by simp
    have "visited items v v' n ((i # ids) ! n)" if "n < length (i # ids)" for n
    proof -
      have "(i # ids) ! n \<in> set (i # ids)" using that by (rule nth_mem)
      then have "(i # ids) ! n \<le> i" using Cons.prems(9) by auto
      moreover have "0 \<le> or_else (cy_remaining (vs_cycle v)) 0"
        using Cons.prems(2) by (cases "cy_remaining (vs_cycle v)") (auto simp: visit_ok_def cycle_ok_def opt_in_def)
      ultimately show ?thesis using True
        by (auto simp: visited_def v' cycle_stops_def split: option.splits)
    qed
    then show ?thesis using Cons.prems(2) v' by (simp add: visit_ok_def same_cycle_def)
  next
    case False
    then obtain v1 where v1: "visit_row cfg at (items i) i v = Inr v1" and
      rest: "(if vs_blocked v1 then Inr v1
              else if cy_kind (vs_cycle v1) = Bootstrap \<and> cy_remaining (vs_cycle v1) = Some 0 then Inr (v1\<lparr>vs_complete := True\<rparr>)
              else visit_rows cfg at items ids v1) = Inr v'"
      using Cons.prems(1) by (auto split: sum.splits)
    have i: "valid_message_id i" using Cons.prems(5) by simp
    from v1 Cons.prems(2,3,4) i Cons.prems(6,7) show ?thesis
    proof (cases rule: visit_row_cases)
      case blocked
      then have v': "v' = v\<lparr>vs_blocked := True\<rparr>" using rest by simp
      have "visited items v v' n ((i # ids) ! n)" if "n < length (i # ids)" for n
      proof -
        have "(i # ids) ! n \<in> set (i # ids)" using that by (rule nth_mem)
        then show ?thesis using Cons.prems(8,10) by (auto simp: visited_def v' split: option.splits)
      qed
      then show ?thesis using Cons.prems(2) v' by (simp add: visit_ok_def same_cycle_def)
    next
      case (passed s)
      let ?c = "pass_row (vs_cycle v) i"
      have v1_eqs: "vs_state v1 = s\<lparr>os_cycle := Some ?c\<rparr>" "vs_cycle v1 = ?c" "\<not> vs_blocked v1" "\<not> vs_complete v1"
        using Cons.prems(7,8) by (subst passed(1), simp)+
      have c: "cycle_ok ?c" "same_cycle (vs_cycle v) ?c" "cy_before ?c = Some i"
        "cy_kind (vs_cycle v) = Bootstrap \<longrightarrow> cy_remaining ?c = Some (or_else (cy_remaining (vs_cycle v)) 0 - 1)"
        using pass_row_cycle [OF _ False i] Cons.prems(2) by (auto simp: visit_ok_def)
      have fl: "flows (vs_state v) (vs_state v1)" using passed(5) by (simp add: v1_eqs)
      have ok1: "visit_ok cfg v1"
        using Cons.prems(2) passed(2-5) c(1,2) by (auto simp: visit_ok_def v1_eqs flows_def same_cycle_def)
      have here: "\<forall>x. items i = Some x \<longrightarrow> stored (vs_state v1) i x"
        using passed(6) by (auto simp: stored_def v1_eqs)
      show ?thesis
      proof (cases "cy_kind ?c = Bootstrap \<and> cy_remaining ?c = Some 0")
        case True
        then have v': "v' = v1\<lparr>vs_complete := True\<rparr>" using rest by (simp add: v1_eqs)
        have boot: "cy_kind (vs_cycle v) = Bootstrap" using True c(2) by (simp add: same_cycle_def)
        then have one: "or_else (cy_remaining (vs_cycle v)) 0 = 1" using True c(4) by simp
        have "visited items v v' n ((i # ids) ! n)" if "n < length (i # ids)" for n
          using here boot one by (cases n) (simp_all add: visited_def v')
        then show ?thesis using ok1 fl c(2) by (simp add: v' visit_ok_def v1_eqs)
      next
        case False
        then have run: "visit_rows cfg at items ids v1 = Inr v'" using rest by (simp add: v1_eqs split: if_splits)
        have IH: "visit_ok cfg v' \<and> flows (vs_state v1) (vs_state v') \<and> same_cycle (vs_cycle v1) (vs_cycle v') \<and>
          (\<forall>n < length ids. visited items v1 v' n (ids ! n))"
          by (rule Cons.IH [OF run ok1 Cons.prems(3,4)])
            (use Cons.prems(5,6,9) v1_eqs c(3) in auto)
        have flow2: "flows (vs_state v1) (vs_state v')" using IH by blast
        have kinds: "cy_kind (vs_cycle v1) = cy_kind (vs_cycle v)" "cy_prior (vs_cycle v1) = cy_prior (vs_cycle v)"
          "cy_kind (vs_cycle v) = Bootstrap \<longrightarrow> or_else (cy_remaining (vs_cycle v1)) 0 = or_else (cy_remaining (vs_cycle v)) 0 - 1"
          using c(2,4) by (auto simp: same_cycle_def v1_eqs)
        have "visited items v v' n ((i # ids) ! n)" if n: "n < length (i # ids)" for n
        proof (cases n)
          case 0
          have "visited items v v' 0 i" by (rule visited_head) (rule fl, rule flow2, rule here)
          then show ?thesis using 0 by simp
        next
          case (Suc m)
          then have "visited items v1 v' m (ids ! m)" using IH n by simp
          then have "visited items v v' (Suc m) (ids ! m)"
            by (intro visited_tail [where ?v1.0 = v1]) (rule fl kinds)+
          then show ?thesis by (simp add: Suc)
        qed
        moreover have "same_cycle (vs_cycle v) (vs_cycle v')" using IH c(2) by (simp add: same_cycle_def v1_eqs)
        ultimately show ?thesis using IH flows_trans [OF fl] by blast
      qed
    qed
  qed
qed

section \<open>A whole page\<close>

lemma counts_reading [simp]:
  "counts_ok (s\<lparr>os_initialized := b\<rparr>) = counts_ok s" "counts_ok (s\<lparr>os_unread := b\<rparr>) = counts_ok s"
  "counts_ok (s\<lparr>os_settled := h\<rparr>) = counts_ok s" "counts_ok (s\<lparr>os_paused := b\<rparr>) = counts_ok s"
  "counts_ok (s\<lparr>os_recent := rs\<rparr>) = counts_ok s"
  by (cases "os_last s"; simp add: counts_ok_def last_ok_def)+

lemma recent_reading [simp]:
  "recent_ok cfg (s\<lparr>os_initialized := b\<rparr>) = recent_ok cfg s" "recent_ok cfg (s\<lparr>os_unread := b\<rparr>) = recent_ok cfg s"
  "recent_ok cfg (s\<lparr>os_settled := h\<rparr>) = recent_ok cfg s" "recent_ok cfg (s\<lparr>os_paused := b\<rparr>) = recent_ok cfg s"
  "recent_ok cfg (s\<lparr>os_gaps := g\<rparr>) = recent_ok cfg s"
  by (simp_all add: recent_ok_def rows_distinct_def pending_kept_def)

lemma find_unique:
  assumes "distinct (map f xs)" "x \<in> set xs"
  shows "find (\<lambda>y. f y = f x) xs = Some x"
  using assms
proof (induction xs)
  case (Cons a xs)
  show ?case
  proof (cases "a = x")
    case False
    then have "x \<in> set xs" using Cons.prems(2) by simp
    then have "f a \<noteq> f x" using Cons.prems(1) by (metis distinct.simps(2) image_eqI list.map(2) list.set_map)
    then show ?thesis using Cons.IH Cons.prems(1) \<open>x \<in> set xs\<close> by simp
  qed simp
qed simp

lemma page_items_ok:
  assumes "page_items cfg p = Inr items"
  shows "items_ok cfg items" "\<And>x i. x \<in> set (pg_items p) \<Longrightarrow> it_ref x = row_ref cfg i \<Longrightarrow> items i = Some x"
proof -
  have items: "items = (\<lambda>i. find (\<lambda>x. it_ref x = row_ref cfg i) (pg_items p))" "\<forall>x \<in> set (pg_items p). item_ok x" "distinct (map it_ref (pg_items p))"
    using assms by (auto simp: page_items_def Let_def split: if_splits)
  show "items_ok cfg items" using items(1,2) by (auto simp: items_ok_def find_Some_iff)
  fix x i assume x: "x \<in> set (pg_items p)" "it_ref x = row_ref cfg i"
  then show "items i = Some x" using find_unique [OF items(3) x(1)] by (simp add: items(1))
qed

definition watermark :: "obs_state \<Rightarrow> int option" where
  \<comment> \<open>What earlier cycles have covered.\<close>
  "watermark s = (case os_cycle s of Some c \<Rightarrow> cy_prior c | None \<Rightarrow> os_settled s)"

definition window :: "obs_meta \<Rightarrow> obs_state \<Rightarrow> int" where
  \<comment> \<open>How many rows a bootstrap has left to cover.\<close>
  "window m s = (case os_cycle s of Some c \<Rightarrow> or_else (cy_remaining c) 0 | None \<Rightarrow> md_raw m)"

definition accounted :: "obs_meta \<Rightarrow> obs_state \<Rightarrow> obs_state \<Rightarrow> nat \<Rightarrow> int \<Rightarrow> obs_item \<Rightarrow> bool" where
  "accounted m s s' n i x \<longleftrightarrow> stored s' i x \<or>
     (\<exists>r \<in> set (os_recent s). rw_id r = i \<and> rw_item r = x \<and> rw_seq r \<le> os_processed s) \<or>
     (\<exists>c. os_cycle s' = Some c \<and> (case cy_before c of None \<Rightarrow> True | Some b \<Rightarrow> i < b)) \<or>
     (\<exists>w. watermark s = Some w \<and> i \<le> w) \<or>
     (\<not> os_initialized s \<and> window m s \<le> int n)"

lemma start_cycle_cases:
  assumes "reading_ok s" "meta_ok m" "md_limit m = 30"
  obtains (idle) "start_cycle m s = s" "os_cycle s = None" "\<forall>i \<in> set (md_ids m). \<exists>w. watermark s = Some w \<and> i \<le> w"
    | (reading) c where "start_cycle m s = s\<lparr>os_cycle := Some c\<rparr>" "cycle_ok c" "(cy_kind c = Bootstrap) = (\<not> os_initialized s)"
        "cy_prior c = watermark s" "cy_kind c = Bootstrap \<Longrightarrow> or_else (cy_remaining c) 0 = window m s"
        "cy_before c = Option.bind (os_cycle s) cy_before"
proof (cases "os_cycle s")
  case (Some c)
  show ?thesis by (rule reading [of c])
    (use Some assms(1) in \<open>simp_all add: start_cycle_def reading_ok_def watermark_def window_def\<close>)
next
  case None
  show ?thesis
  proof (cases "os_initialized s")
    case False
    have raw: "0 \<le> md_raw m" "md_raw m \<le> 30" using assms(2,3) by (auto simp: meta_ok_def)
    have high: "opt_in 1 2147483647 (md_highest m)"
      using assms(2) by (auto simp: meta_ok_def opt_in_def valid_message_id_def split: option.splits)
    show ?thesis
      by (rule reading [of "\<lparr>cy_kind = Bootstrap, cy_prior = None, cy_high = md_highest m, cy_before = None,
          cy_remaining = Some (md_raw m), cy_pages = 0\<rparr>"])
        (use None False raw high assms(1) in \<open>auto simp: start_cycle_def cycle_ok_def opt_in_def watermark_def window_def
          natural_in_def max_safe_def reading_ok_def split: option.splits\<close>)
  next
    case True
    show ?thesis
    proof (cases "md_highest m")
      case None
      then have "md_ids m = []" using assms(2) by (auto simp: meta_ok_def)
      then show ?thesis using idle \<open>os_cycle s = None\<close> True None by (simp add: start_cycle_def)
    next
      case (Some h)
      have h: "valid_message_id h" "\<forall>i \<in> set (md_ids m). i \<le> h" using assms(2) Some by (auto simp: meta_ok_def)
      show ?thesis
      proof (cases "case os_settled s of None \<Rightarrow> True | Some t \<Rightarrow> t < h")
        case new: True
        show ?thesis
          by (rule reading [of "\<lparr>cy_kind = Incremental, cy_prior = os_settled s, cy_high = Some h, cy_before = None,
              cy_remaining = None, cy_pages = 0\<rparr>"])
            (use None True Some h(1) new assms(1) in \<open>auto simp: start_cycle_def cycle_ok_def opt_in_def watermark_def
              natural_in_def max_safe_def reading_ok_def valid_message_id_def split: option.splits\<close>)
      next
        case False
        then obtain t where t: "os_settled s = Some t" "h \<le> t" by (auto split: option.splits)
        then have "\<forall>i \<in> set (md_ids m). i \<le> t" using h(2) by force
        then show ?thesis using idle None True Some False t by (simp add: start_cycle_def watermark_def)
      qed
    qed
  qed
qed

lemma enter_page_ok:
  assumes "enter_page m c s = Inr (s', complete)" "counts_ok s" "cycle_ok c"
  shows "counts_ok s' \<and> cycle_ok (c\<lparr>cy_pages := cy_pages c + 1\<rparr>) \<and>
    (\<exists>g. s' = s\<lparr>os_cycle := Some (c\<lparr>cy_pages := cy_pages c + 1\<rparr>), os_gaps := g\<rparr>) \<and>
    (complete \<longrightarrow> md_raw m = 0 \<or> (cy_kind c = Bootstrap \<and> cy_remaining c = Some 0))"
proof -
  have c: "cycle_ok (c\<lparr>cy_pages := cy_pages c + 1\<rparr>)"
    using assms(1,3) by (auto simp: enter_page_def cycle_ok_def natural_in_def split: if_splits)
  have g: "natural_in (os_gaps s)" using assms(2) by (simp add: counts_ok_def)
  have up: "counts_ok (s\<lparr>os_gaps := g\<rparr>)" if "natural_in g" for g
    using that assms(2) by (auto simp: counts_ok_def last_ok_def split: option.splits)
  from assms(1) obtain g' where s': "s' = s\<lparr>os_cycle := Some (c\<lparr>cy_pages := cy_pages c + 1\<rparr>), os_gaps := g'\<rparr>" "natural_in g'"
    and complete: "complete \<longrightarrow> md_raw m = 0 \<or> (cy_kind c = Bootstrap \<and> cy_remaining c = Some 0)"
  proof -
    have "s' = s\<lparr>os_cycle := Some (c\<lparr>cy_pages := cy_pages c + 1\<rparr>), os_gaps := os_gaps s\<rparr> \<or>
        (s' = s\<lparr>os_cycle := Some (c\<lparr>cy_pages := cy_pages c + 1\<rparr>), os_gaps := os_gaps s + 1\<rparr> \<and> os_gaps s < max_safe)"
      using assms(1) by (auto simp: enter_page_def Let_def split: if_splits)
    moreover have "complete \<longrightarrow> md_raw m = 0 \<or> (cy_kind c = Bootstrap \<and> cy_remaining c = Some 0)"
      using assms(1) by (auto simp: enter_page_def Let_def split: if_splits)
    moreover have "natural_in (os_gaps s + 1)" if "os_gaps s < max_safe" using g that by (simp add: natural_in_def)
    ultimately show thesis using that g by blast
  qed
  have "s' = (s\<lparr>os_gaps := g'\<rparr>)\<lparr>os_cycle := Some (c\<lparr>cy_pages := cy_pages c + 1\<rparr>)\<rparr>" using s'(1) by simp
  then have "counts_ok s'" using up [OF s'(2)] by simp
  then show ?thesis using c s'(1) complete by blast
qed

lemma finish_cycle_ok:
  assumes "visit_ok cfg v"
  shows "counts_ok (finish_cycle v) \<and> recent_ok cfg (finish_cycle v) \<and> length (os_recent (finish_cycle v)) \<le> ob_rows cfg \<and>
    reading_ok (finish_cycle v)"
  using assms by (auto simp: visit_ok_def finish_cycle_def reading_ok_def cycle_ok_def)

lemma visit_complete:
  assumes "visit_rows cfg at items ids v = Inr v'" "vs_complete v"
    and "ids = [] \<or> (cy_kind (vs_cycle v) = Bootstrap \<and> cy_remaining (vs_cycle v) = Some 0)"
  shows "v' = v"
  using assms by (cases ids) (auto simp: cycle_stops_def)

lemma apply_page_ok:
  assumes "apply_page cfg at p s = Inr (s1, a, d)" "state_ok cfg s" "sha_law cfg" "meta_ok (pg_meta p)" "md_limit (pg_meta p) = 30"
    and "valid_unix at" "md_before (pg_meta p) = Option.bind (os_cycle s) cy_before"
  shows "state_ok cfg s1 \<and> os_revision s1 = os_revision s \<and>
    (\<forall>r \<in> set (os_recent s). os_processed s < rw_seq r \<longrightarrow> r \<in> set (os_recent s1)) \<and>
    (\<forall>n x. n < length (md_ids (pg_meta p)) \<longrightarrow> x \<in> set (pg_items p) \<longrightarrow> it_ref x = row_ref cfg (md_ids (pg_meta p) ! n) \<longrightarrow>
       accounted (pg_meta p) s s1 n (md_ids (pg_meta p) ! n) x)"
proof -
  let ?m = "pg_meta p" and ?ids = "md_ids (pg_meta p)"
  obtain items where items: "page_items cfg p = Inr items"
    using assms(1) by (cases "page_items cfg p") (auto simp: apply_page_def)
  note it = page_items_ok [OF items]
  have s: "counts_ok s" "recent_ok cfg s" "reading_ok s" "length (os_recent s) \<le> ob_rows cfg"
    using assms(2) by (auto simp: state_ok_parts)
  from s(3) assms(4,5) show ?thesis
  proof (cases rule: start_cycle_cases)
    case idle
    then have "s1 = s" using assms(1) items by (simp add: apply_page_def Let_def)
    moreover have "accounted ?m s s n (?ids ! n) x" if "n < length ?ids" for n x
      using idle(3) nth_mem [OF that] by (auto simp: accounted_def)
    ultimately show ?thesis using assms(2) by blast
  next
    case (reading c)
    let ?c = "c\<lparr>cy_pages := cy_pages c + 1\<rparr>" and ?s = "s\<lparr>os_cycle := Some c\<rparr>"
    obtain s2 complete where enter: "enter_page ?m c ?s = Inr (s2, complete)"
      using assms(1) items reading(1) by (auto simp: apply_page_def Let_def split: sum.splits)
    define v where "v = \<lparr>vs_state = s2, vs_cycle = ?c, vs_admitted = 0, vs_duplicates = 0, vs_blocked = False, vs_complete = complete\<rparr>"
    obtain v' where run: "visit_rows cfg at items ?ids v = Inr v'" and s1: "s1 = finish_cycle v'"
      using assms(1) items reading(1) enter
      by (auto simp: apply_page_def Let_def v_def split: sum.splits if_splits)
    have ent: "counts_ok s2" "cycle_ok ?c" "\<exists>g. s2 = ?s\<lparr>os_cycle := Some ?c, os_gaps := g\<rparr>"
      "complete \<longrightarrow> md_raw ?m = 0 \<or> (cy_kind c = Bootstrap \<and> cy_remaining c = Some 0)"
      using enter_page_ok [OF enter] s(1) reading(2) by auto
    then obtain g where s2: "s2 = s\<lparr>os_cycle := Some ?c, os_gaps := g\<rparr>" by auto
    have rec2: "recent_ok cfg s2" using s(2) by (simp add: s2 recent_ok_def rows_distinct_def pending_kept_def)
    have v: "visit_ok cfg v" using ent(1,2) rec2 s(3,4) reading(3)
      by (auto simp: visit_ok_def v_def s2 reading_ok_def)
    have ids: "sorted_wrt (>) ?ids" "\<forall>i \<in> set ?ids. valid_message_id i" "md_raw ?m = 0 \<longrightarrow> ?ids = []"
      "\<forall>b. md_before ?m = Some b \<longrightarrow> (\<forall>i \<in> set ?ids. i < b)"
      using assms(4) by (auto simp: meta_ok_def)
    have bef: "\<forall>b. cy_before (vs_cycle v) = Some b \<longrightarrow> (\<forall>i \<in> set ?ids. i < b)"
      using ids(4) reading(6) assms(7) by (simp add: v_def)
    have ended: "v' = v" if "complete"
      by (rule visit_complete [OF run]) (use that ent(4) ids(3) in \<open>auto simp: v_def\<close>)
    have loop: "visit_ok cfg v' \<and> flows (vs_state v) (vs_state v') \<and>
      (\<forall>n < length ?ids. visited items v v' n (?ids ! n))"
    proof (cases complete)
      case True
      have "visited items v v n (?ids ! n)" if "n < length ?ids" for n
        using True ent(4) ids(3) that by (auto simp: visited_def v_def)
      then show ?thesis using ended [OF True] v by simp
    next
      case False
      then show ?thesis
        using visit_rows_ok [OF run v assms(3) it(1) ids(2) assms(6) _ _ ids(1) bef] by (simp add: v_def)
    qed
    have state1: "state_ok cfg s1" unfolding state_ok_parts s1 using finish_cycle_ok [of cfg v'] loop by blast
    have same: "os_recent s1 = os_recent (vs_state v')" "os_revision s1 = os_revision (vs_state v')"
      by (simp_all add: s1 finish_cycle_def)
    have start: "os_recent (vs_state v) = os_recent s" "os_processed (vs_state v) = os_processed s" "os_revision (vs_state v) = os_revision s"
      by (simp_all add: v_def s2)
    have kept: "\<forall>r \<in> set (os_recent s). os_processed s < rw_seq r \<longrightarrow> r \<in> set (os_recent s1)"
      using loop by (simp add: flows_def same start)
    have proc: "os_revision s1 = os_revision s" using loop by (simp add: flows_def same start)
    have "accounted ?m s s1 n (?ids ! n) x"
      if n: "n < length ?ids" and x: "x \<in> set (pg_items p)" "it_ref x = row_ref cfg (?ids ! n)" for n x
    proof -
      have "visited items v v' n (?ids ! n)" "items (?ids ! n) = Some x" using loop n it(2) [OF x] by auto
      then consider "stored (vs_state v') (?ids ! n) x"
        | "\<exists>r \<in> set (os_recent (vs_state v)). rw_id r = ?ids ! n \<and> rw_item r = x \<and> rw_seq r \<le> os_processed (vs_state v)"
        | "\<not> vs_complete v'" "case cy_before (vs_cycle v') of None \<Rightarrow> True | Some b \<Rightarrow> ?ids ! n < b"
        | "cy_kind ?c = Bootstrap" "or_else (cy_remaining ?c) 0 \<le> int n"
        | "\<exists>w. cy_prior ?c = Some w \<and> ?ids ! n \<le> w"
        unfolding visited_def v_def by (auto split: if_splits)
      then show ?thesis
      proof cases
        case 1
        then show ?thesis by (simp add: accounted_def stored_def same)
      next
        case 2
        then show ?thesis by (simp add: accounted_def start)
      next
        case 3
        then show ?thesis by (simp add: accounted_def s1 finish_cycle_def)
      next
        case 4
        then show ?thesis using reading(3,5) by (simp add: accounted_def)
      next
        case 5
        then show ?thesis using reading(4) by (simp add: accounted_def)
      qed
    qed
    then show ?thesis using state1 proc kept by blast
  qed
qed

section \<open>Sealing and marking\<close>

lemma seal_page_ok:
  assumes "state_ok cfg s" "operation_ok lo" "os_revision s < max_safe"
  shows "state_ok cfg (seal_page m lo s) \<and> os_processed (seal_page m lo s) = os_processed s \<and>
    set (os_recent (seal_page m lo s)) = set (os_recent s) \<and> os_cycle (seal_page m lo s) = os_cycle s"
proof -
  let ?s = "s\<lparr>os_recent := sort_key (\<lambda>r. - rw_id r) (os_recent s), os_revision := os_revision s + 1, os_operation := Some lo\<rparr>"
  have parts: "counts_ok s" "recent_ok cfg s" "reading_ok s" "length (os_recent s) \<le> ob_rows cfg"
    using assms(1) by (auto simp: state_ok_parts)
  have c: "counts_ok ?s" using parts(1) assms(2,3)
    by (auto simp: counts_ok_def last_ok_def natural_in_def split: option.splits)
  have d: "distinct (map f (sort_key (\<lambda>r. - rw_id r) (os_recent s))) = distinct (map f (os_recent s))" for f :: "obs_row \<Rightarrow> 'b"
    by (simp add: distinct_map)
  have r: "recent_ok cfg ?s" using parts(2) by (simp add: recent_ok_def rows_distinct_def pending_kept_def d)
  have g: "reading_ok ?s" using parts(3) by (cases "os_cycle s") (simp_all add: reading_ok_def)
  have ok: "state_ok cfg ?s" using c r g parts(4) by (simp add: state_ok_parts)
  show ?thesis
  proof (cases "os_cycle ?s = None \<and> \<not> os_initialized ?s \<and> md_raw m = 0")
    case True
    then have "seal_page m lo s = ?s\<lparr>os_initialized := True, os_unread := True\<rparr>" by (simp add: seal_page_def)
    moreover have "reading_ok (?s\<lparr>os_initialized := True, os_unread := True\<rparr>)" using g True by (simp add: reading_ok_def opt_in_def)
    ultimately show ?thesis using c r parts(4) by (simp add: state_ok_parts)
  next
    case False
    then have "seal_page m lo s = ?s" unfolding seal_page_def Let_def by (rule if_not_P)
    then show ?thesis using ok by simp
  qed
qed

lemma sum_dispositions: "sum_list (map t dispositions) = (\<Sum>d \<in> set dispositions. t d)"
  by (rule sum_list_distinct_conv_sum_set) (simp add: dispositions_def)

lemma all_dispositions: "d \<in> set dispositions"
  by (cases d) (simp_all add: dispositions_def)

lemma sum_update: "sum_list (map (t(d := x)) dispositions) = sum_list (map t dispositions) - t d + x"
  for t :: "obs_disposition \<Rightarrow> int"
  by (cases d) (simp_all add: dispositions_def)

lemma total_le_sum:
  assumes "totals_ok t"
  shows "t d \<le> sum_list (map t dispositions)"
  unfolding sum_dispositions
  by (rule member_le_sum) (use assms all_dispositions in \<open>auto simp: totals_ok_def natural_in_def\<close>)

definition marked :: "last_operation \<Rightarrow> obs_state \<Rightarrow> obs_state" where
  "marked lo s = s\<lparr>os_paused := False, os_revision := os_revision s + 1, os_operation := Some lo\<rparr>"

lemma marked_ok:
  assumes "totals_ok (os_totals s)" "sum_list (map (os_totals s) dispositions) = os_processed s"
    and "\<forall>p. os_last s = Some p \<longrightarrow> processing_ok p \<and> pr_through p \<le> os_processed s \<and> pr_revision p \<le> os_revision s + 1 \<and>
      (pr_disposition p = DReserved \<longrightarrow> pr_through p = os_processed s \<and> pr_through p - pr_from p + 1 \<le> os_totals s DReserved)"
    and "natural_in (os_processed s)" "os_processed s \<le> os_next s" "pending_kept s"
    and "natural_in (os_revision s)" "os_revision s < max_safe" "natural_in (os_next s)" "natural_in (os_evicted s)"
    and "natural_in (os_gaps s)" "\<forall>r \<in> set (os_recent s). row_ok cfg r" "rows_distinct s" "reading_ok s" "operation_ok lo"
    and "length (os_recent s) \<le> ob_rows cfg"
  shows "state_ok cfg (marked lo s)"
proof -
  have "counts_ok (marked lo s)" using assms(1-5,7-11,15)
    by (auto simp: counts_ok_def last_ok_def marked_def natural_in_def split: option.splits)
  moreover have "recent_ok cfg (marked lo s)" using assms(6,12,13)
    by (simp add: recent_ok_def marked_def rows_distinct_def pending_kept_def)
  moreover have "reading_ok (marked lo s)" using assms(14)
    by (cases "os_cycle s") (simp_all add: reading_ok_def marked_def)
  ultimately show ?thesis using assms(16) by (simp add: state_ok_parts marked_def)
qed

lemma mark_through_ok:
  assumes "mark_through t d s = Inr s'" "state_ok cfg s" "t \<le> os_next s" "os_revision s < max_safe" "operation_ok lo"
  shows "state_ok cfg (marked lo s') \<and> os_recent s' = os_recent s \<and> os_processed s' = max (os_processed s) t \<and>
    os_revision s' = os_revision s"
proof -
  have parts: "counts_ok s" "recent_ok cfg s" "reading_ok s" "length (os_recent s) \<le> ob_rows cfg"
    using assms(2) by (auto simp: state_ok_parts)
  have n: "0 \<le> os_processed s" "os_processed s \<le> os_next s" "os_next s \<le> max_safe" "0 \<le> os_revision s"
    "totals_ok (os_totals s)" "sum_list (map (os_totals s) dispositions) = os_processed s"
    "natural_in (os_evicted s)" "natural_in (os_gaps s)" "last_ok s"
    using parts(1) by (auto simp: counts_ok_def natural_in_def)
  have tot: "0 \<le> os_totals s e" "os_totals s e \<le> max_safe" for e
    using n(5) all_dispositions [of e] by (auto simp: totals_ok_def natural_in_def)
  define amount where "amount = int (length (filter (\<lambda>r. os_processed s + 1 \<le> rw_seq r \<and> rw_seq r \<le> t) (os_recent s)))"
  show ?thesis
  proof (cases "os_processed s < t")
    case True
    let ?p = "\<lparr>pr_from = os_processed s + 1, pr_through = t, pr_disposition = d, pr_revision = os_revision s + 1\<rparr>"
    let ?t = "(os_totals s)(d := os_totals s d + amount)"
    have s': "s' = s\<lparr>os_processed := t, os_totals := ?t, os_last := Some ?p\<rparr>" and am: "amount = t - os_processed s"
      and lim: "os_totals s d \<le> max_safe - amount"
      using assms(1) True by (auto simp: mark_through_def Let_def amount_def split: if_splits)
    have "totals_ok ?t" using tot lim am True by (auto simp: totals_ok_def natural_in_def)
    moreover have "sum_list (map ?t dispositions) = t" unfolding sum_update using n(6) am by simp
    moreover have "processing_ok ?p" using True n assms(3,4) by (simp add: processing_ok_def valid_revision_def)
    moreover have "t - (os_processed s + 1) + 1 \<le> ?t DReserved" if "d = DReserved" using that am tot [of DReserved] by simp
    moreover have "pending_kept s'" using parts(2) True by (simp add: s' recent_ok_def pending_kept_def)
    moreover have "rows_distinct s'" using parts(2) by (simp add: s' recent_ok_def rows_distinct_def)
    moreover have "reading_ok s'" using parts(3) by (cases "os_cycle s") (simp_all add: s' reading_ok_def)
    moreover have "natural_in t" "natural_in (os_revision s)" "natural_in (os_next s)"
      using n True assms(3,4) by (auto simp: natural_in_def)
    ultimately have "state_ok cfg (marked lo s')"
      using parts(2,4) n(7,8) assms(3-5) by (intro marked_ok) (simp_all add: s' recent_ok_def)
    then show ?thesis using True by (simp add: s')
  next
    case False
    then obtain p where p: "os_last s = Some p" "t = os_processed s" "pr_through p = t" "pr_disposition p = DReserved"
      "d \<in> {DSilent, DAlert, DUnknown}"
      using assms(1) by (auto simp: mark_through_def Let_def split: option.splits if_splits)
    let ?a = "pr_through p - pr_from p + 1" and ?p = "p\<lparr>pr_disposition := d, pr_revision := os_revision s + 1\<rparr>"
    let ?u = "(os_totals s)(DReserved := os_totals s DReserved - ?a)"
    let ?t = "?u(d := ?u d + ?a)"
    have s': "s' = s\<lparr>os_totals := ?t, os_last := Some ?p\<rparr>"
      using assms(1) False p by (simp add: mark_through_def Let_def)
    have pok: "processing_ok p" "?a \<le> os_totals s DReserved" using n(9) p by (auto simp: last_ok_def)
    have a: "1 \<le> ?a" using pok(1) by (simp add: processing_ok_def)
    have dr: "d \<noteq> DReserved" using p(5) by auto
    have sum: "sum_list (map ?t dispositions) = os_processed s" unfolding sum_update using n(6) dr by simp
    have nonneg: "0 \<le> ?t e" for e using tot [of e] pok(2) a by (cases "e = DReserved"; cases "e = d") (use dr tot in auto)
    have "?t e \<le> os_processed s" for e
    proof -
      have "?t e \<le> (\<Sum>e \<in> set dispositions. ?t e)" by (rule member_le_sum) (use all_dispositions nonneg in auto)
      then show ?thesis using sum sum_dispositions [of ?t] by simp
    qed
    then have "totals_ok ?t" using nonneg n(2,3) unfolding totals_ok_def natural_in_def by (meson order_trans)
    moreover have "processing_ok ?p" using pok(1) n(4) assms(4) by (simp add: processing_ok_def valid_revision_def)
    moreover have "pending_kept s'" "rows_distinct s'" using parts(2) by (simp_all add: s' recent_ok_def rows_distinct_def pending_kept_def)
    moreover have "reading_ok s'" using parts(3) by (cases "os_cycle s") (simp_all add: s' reading_ok_def)
    moreover have "natural_in (os_processed s)" "natural_in (os_revision s)" "natural_in (os_next s)"
      using n assms(4) by (auto simp: natural_in_def)
    ultimately have "state_ok cfg (marked lo s')"
      using parts(2,4) n(2,7,8) assms(4,5) dr p(2,3) sum by (intro marked_ok) (simp_all add: s' recent_ok_def)
    then show ?thesis using p(2) by (simp add: s')
  qed
qed

end
