(* ===== verification/ObserverRun.thy ===== *)
theory ObserverRun
  imports ObserverProps
begin

text \<open>
  The observer's state over whole runs: commits of issued pages, markings, failing writes,
  closing and reopening in any order. The two properties of the component and a concrete run
  they are applied to.
\<close>

section \<open>Runs\<close>

inductive observer_step :: "obs_cfg \<Rightarrow> observer \<Rightarrow> observer \<Rightarrow> bool" for cfg where
  commit: "issued pc p \<Longrightarrow> observer_step cfg w (snd (commitPage cfg signal wr expected at p w))"
| mark: "observer_step cfg w (snd (markProcessed cfg signal wr expected through d w))"
| close: "observer_step cfg w (close_observer w)"
| reopen: "openStandingCommunityObserverState cfg (ow_disk w) = Inr w' \<Longrightarrow> observer_step cfg w w'"

abbreviation observer_steps :: "obs_cfg \<Rightarrow> observer \<Rightarrow> observer \<Rightarrow> bool" where
  "observer_steps cfg \<equiv> (observer_step cfg)\<^sup>*\<^sup>*"

definition fresh_observer :: observer where
  "fresh_observer = \<lparr>ow_state = obs_initial, ow_disk = None, ow_broken = False, ow_closed = False\<rparr>"

definition usable :: "observer \<Rightarrow> bool" where
  "usable w \<longleftrightarrow> \<not> ow_broken w \<and> \<not> ow_closed w"

definition file_ok :: "obs_cfg \<Rightarrow> observer \<Rightarrow> bool" where
  "file_ok cfg w \<longleftrightarrow>
     (case ow_disk w of
        None \<Rightarrow> usable w \<longrightarrow> ow_state w = obs_initial
      | Some v \<Rightarrow> \<exists>s. v = envelope cfg s \<and> state_ok cfg s \<and> envelope_fits cfg s \<and> (usable w \<longrightarrow> ow_state w = s))"

lemma file_state: "file_ok cfg w \<Longrightarrow> usable w \<Longrightarrow> state_ok cfg (ow_state w)"
  using initial_ok by (auto simp: file_ok_def split: option.splits)

lemma persist_ok:
  assumes "persist cfg wr s w = (r, w')" "file_ok cfg w" "state_ok cfg s" "usable w"
  shows "file_ok cfg w' \<and> (r = Inr () \<longrightarrow> ow_state w' = s)"
  using assms by (auto simp: persist_def file_ok_def usable_def split: if_splits write_result.splits option.splits)

lemma enqueue_cases:
  assumes "observer_enqueue signal work w = (r, w')"
  shows "(w' = w \<and> (\<exists>e. r = Inl e)) \<or> (usable w \<and> work w = (r, w'))"
  using assms by (auto simp: observer_enqueue_def usable_def split: if_splits)

lemma commit_page_ok:
  assumes "commit_page cfg wr expected at p w = (r, w')" "file_ok cfg w" "usable w" "sha_law cfg" "issued pc p"
    and "page_bound cfg p" "valid_unix at" "natural_in expected"
  shows "file_ok cfg w' \<and> (\<forall>x. r = Inr x \<and> \<not> cr_idempotent x \<longrightarrow>
    (\<forall>q \<in> set (os_recent (ow_state w)). os_processed (ow_state w) < rw_seq q \<longrightarrow> q \<in> set (os_recent (ow_state w'))) \<and>
    (\<forall>n x. n < length (md_ids (pg_meta p)) \<longrightarrow> x \<in> set (pg_items p) \<longrightarrow> it_ref x = row_ref cfg (md_ids (pg_meta p) ! n) \<longrightarrow>
       accounted (pg_meta p) (ow_state w) (ow_state w') n (md_ids (pg_meta p) ! n) x))"
proof -
  define s where "s = ow_state w"
  define lo where "lo = \<lparr>lo_kind = OpPage, lo_expected = expected, lo_digest = page_digest cfg at p\<rparr>"
  have ok: "state_ok cfg s" using file_state [OF assms(2,3)] by (simp add: s_def)
  have lo: "operation_ok lo" using assms(4,8) by (simp add: operation_ok_def lo_def page_digest_def sha_law_def)
  consider (idempotent) x where "w' = w" "r = Inr x" "cr_idempotent x" | (refused) e where "w' = w" "r = Inl e"
    | (applied) s1 n d where "apply_page cfg at p s = Inr (s1, n, d)" "os_revision s < max_safe"
        "md_before (pg_meta p) = Option.bind (os_cycle s) cy_before"
        "(case persist cfg wr (seal_page (pg_meta p) lo s1) w of (Inl e, w') \<Rightarrow> (Inl e, w')
          | (Inr _, w') \<Rightarrow> (Inr \<lparr>cr_checkpoint = checkpoint_of (seal_page (pg_meta p) lo s1), cr_idempotent = False,
              cr_admitted = n, cr_duplicates = d\<rparr>, w')) = (r, w')"
    using assms(1) unfolding commit_page_def Let_def s_def [symmetric] lo_def [symmetric]
    by (auto split: if_split_asm sum.split_asm)
  then show ?thesis
  proof cases
    case (applied s1 n d)
    have meta: "meta_ok (pg_meta p)" "md_limit (pg_meta p) = 30"
      using issued_meta [OF assms(5)] assms(6) by (auto simp: page_bound_def Let_def)
    have page: "state_ok cfg s1" "os_revision s1 = os_revision s"
      "\<forall>r \<in> set (os_recent s). os_processed s < rw_seq r \<longrightarrow> r \<in> set (os_recent s1)"
      "\<forall>n x. n < length (md_ids (pg_meta p)) \<longrightarrow> x \<in> set (pg_items p) \<longrightarrow> it_ref x = row_ref cfg (md_ids (pg_meta p) ! n) \<longrightarrow>
         accounted (pg_meta p) s s1 n (md_ids (pg_meta p) ! n) x"
      using apply_page_ok [OF applied(1) ok assms(4) meta assms(7) applied(3)] by blast+
    define s2 where "s2 = seal_page (pg_meta p) lo s1"
    have seal: "state_ok cfg s2" "set (os_recent s2) = set (os_recent s1)" "os_cycle s2 = os_cycle s1"
      using seal_page_ok [OF page(1) lo, of "pg_meta p"] page(2) applied(2) by (auto simp: s2_def)
    obtain y w1 where y: "persist cfg wr s2 w = (y, w1)" by fastforce
    have w1: "w1 = w'" "\<forall>x. r = Inr x \<longrightarrow> y = Inr ()"
      using applied(4) unfolding s2_def [symmetric] y by (auto split: sum.splits)
    have p: "file_ok cfg w'" "y = Inr () \<longrightarrow> ow_state w' = s2"
      using persist_ok [OF y assms(2) seal(1) assms(3)] w1(1) by auto
    have acc: "accounted (pg_meta p) s s2 n i x" if "accounted (pg_meta p) s s1 n i x" for n i x
      using that seal(2,3) by (simp add: accounted_def stored_def)
    show ?thesis unfolding s_def [symmetric]
      using p w1(2) page(3,4) seal(2) acc by metis
  qed (use assms(2) in auto)
qed

lemma mark_processed_ok:
  assumes "mark_processed cfg wr expected through d w = (r, w')" "file_ok cfg w" "usable w" "sha_law cfg" "natural_in expected"
  shows "file_ok cfg w'"
proof -
  define s where "s = ow_state w"
  define lo where "lo = \<lparr>lo_kind = OpProcessed, lo_expected = expected, lo_digest = processed_digest cfg through d\<rparr>"
  have ok: "state_ok cfg s" using file_state [OF assms(2,3)] by (simp add: s_def)
  have lo: "operation_ok lo" using assms(4,5) by (simp add: operation_ok_def lo_def processed_digest_def sha_law_def)
  consider (same) "w' = w"
    | (applied) s1 where "mark_through through d s = Inr s1" "os_revision s < max_safe" "through \<le> os_next s"
        "snd (persist cfg wr (s1\<lparr>os_paused := False, os_revision := os_revision s + 1, os_operation := Some lo\<rparr>) w) = w'"
    using assms(1) unfolding mark_processed_def Let_def s_def [symmetric] lo_def [symmetric]
    by (auto split: if_split_asm sum.split_asm prod.split_asm)
  then show ?thesis
  proof cases
    case (applied s1)
    note m = mark_through_ok [OF applied(1) ok applied(3,2) lo]
    then have "marked lo s1 = s1\<lparr>os_paused := False, os_revision := os_revision s + 1, os_operation := Some lo\<rparr>"
      by (simp add: marked_def)
    then obtain y where "persist cfg wr (marked lo s1) w = (y, w')" using applied(4) by (metis prod.collapse)
    from persist_ok [OF this assms(2) _ assms(3)] m show ?thesis by blast
  qed (use assms(2) in simp)
qed

lemma step_file_ok:
  assumes "observer_step cfg w w'" "file_ok cfg w" "sha_law cfg" "obs_binding_ok (ob_binding cfg)"
  shows "file_ok cfg w'"
  using assms(1)
proof cases
  case (commit pc p signal wr expected at)
  show ?thesis
  proof (cases "natural_in expected \<and> valid_unix at \<and> page_bound cfg p")
    case True
    obtain r where r: "observer_enqueue signal (commit_page cfg wr expected at p) w = (r, w')"
      using commit(1) True by (metis commitPage_def prod.collapse)
    from enqueue_cases [OF r] show ?thesis
      using commit_page_ok [OF _ assms(2) _ assms(3) commit(2)] True assms(2) by blast
  qed (use commit(1) assms(2) in \<open>auto simp: commitPage_def\<close>)
next
  case (mark signal wr expected through d)
  show ?thesis
  proof (cases "natural_in expected \<and> valid_revision through")
    case True
    obtain r where r: "observer_enqueue signal (mark_processed cfg wr expected through d) w = (r, w')"
      using mark True by (metis markProcessed_def prod.collapse)
    from enqueue_cases [OF r] show ?thesis
      using mark_processed_ok [OF _ assms(2) _ assms(3)] True assms(2) by blast
  qed (use mark assms(2) in \<open>auto simp: markProcessed_def\<close>)
next
  case close
  then show ?thesis using assms(2) by (auto simp: close_observer_def file_ok_def usable_def split: option.splits)
next
  case reopen
  then show ?thesis using assms(2,4) envelope_read_back
    by (auto simp: openStandingCommunityObserverState_def file_ok_def rbind_eq_Inr split: if_splits option.splits)
qed

lemma steps_file_ok:
  assumes "observer_steps cfg fresh_observer w" "sha_law cfg" "obs_binding_ok (ob_binding cfg)"
  shows "file_ok cfg w"
  using assms(1)
proof (induction rule: rtranclp_induct)
  case base
  show ?case by (simp add: file_ok_def fresh_observer_def)
next
  case (step w w')
  then show ?case using step_file_ok assms(2,3) by blast
qed


text \<open>
  C22 No row is lost on the way: a commit keeps every row that still has to be processed, and of
  each message its page covers one of these holds afterwards: it is stored; it had been stored
  and processed before; the next read covers it again; an earlier cycle had covered it; or the
  window of the first reading was already full.
\<close>

theorem page_rows_accounted:
  assumes "observer_steps cfg fresh_observer w" "sha_law cfg" "obs_binding_ok (ob_binding cfg)" "issued pc p"
    and "commitPage cfg signal wr expected at p w = (Inr x, w')" "\<not> cr_idempotent x"
  shows "(\<forall>q \<in> set (os_recent (ow_state w)). os_processed (ow_state w) < rw_seq q \<longrightarrow> q \<in> set (os_recent (ow_state w'))) \<and>
    (\<forall>n y. n < length (md_ids (pg_meta p)) \<longrightarrow> y \<in> set (pg_items p) \<longrightarrow>
       it_ref y = expectedRef (ob_sha cfg) (obn_source (ob_binding cfg)) (md_ids (pg_meta p) ! n) \<longrightarrow>
       accounted (pg_meta p) (ow_state w) (ow_state w') n (md_ids (pg_meta p) ! n) y)"
proof -
  have fok: "file_ok cfg w" by (rule steps_file_ok [OF assms(1-3)])
  have inp: "natural_in expected" "valid_unix at" "page_bound cfg p"
    and e: "observer_enqueue signal (commit_page cfg wr expected at p) w = (Inr x, w')"
    using assms(5) by (auto simp: commitPage_def split: if_splits)
  from enqueue_cases [OF e] have "usable w" "commit_page cfg wr expected at p w = (Inr x, w')" by auto
  from commit_page_ok [OF this(2) fok this(1) assms(2,4) inp(3,2,1)] assms(6) show ?thesis by blast
qed

section \<open>A concrete run\<close>

definition demo_digits :: "utext \<Rightarrow> utext" where
  "demo_digits t = takeWhile is_digit (drop 1 (rev t))"

definition demo_sha :: "utext \<Rightarrow> utext" where
  \<comment> \<open>A stand-in for SHA-256 that keeps the digits before the last character.\<close>
  "demo_sha t = take 64 (demo_digits t @ 97 # replicate 64 48)"

definition demo_observer :: obs_cfg where
  "demo_observer = \<lparr>ob_binding = \<lparr>obn_workspace = js ''lab'', obn_account = js ''5'', obn_internal = js ''-7'', obn_source = js ''-8''\<rparr>,
     ob_rows = 256, ob_bytes = 1048576, ob_sha = demo_sha\<rparr>"

lemma hex_97: "hex_digit 97" and hex_48: "hex_digit 48"
  by (simp_all add: hex_digit_def is_digit_def)

lemma demo_sha_hex: "sha_hex (demo_sha t)"
proof -
  have digits: "\<forall>c \<in> set (demo_digits t). hex_digit c"
    by (auto simp: demo_digits_def hex_digit_def dest: set_takeWhileD)
  have "\<forall>c \<in> set (demo_sha t). c \<in> set (demo_digits t) \<or> c = 97 \<or> c = 48"
    by (auto simp: demo_sha_def dest!: in_set_takeD)
  then have "\<forall>c \<in> set (demo_sha t). hex_digit c" using digits by (metis hex_97 hex_48)
  then show ?thesis by (simp add: sha_hex_def demo_sha_def)
qed

lemma demo_ref_digits:
  assumes "1 \<le> i" "i \<le> 2147483647"
  shows "takeWhile is_digit (drop 4 (expectedRef demo_sha p i)) = rev (show_int i)"
proof -
  define t where "t = stringify (JArr [JStr (js ''observed-source-v1''), JStr p, JInt i])"
  have num: "show_int i = show_nat (nat i)" using assms(1) by (simp add: show_int_def)
  have dig: "\<forall>c \<in> set (rev (show_int i)). is_digit c"
    using show_nat_digits by (auto simp: num is_digit_def)
  have len: "length (show_int i) \<le> 10" using show_nat_length [of "nat i" 10] assms by (simp add: num nat_less_iff)
  have "drop 1 (rev t) = rev (show_int i) @ 44 # rev (json_string p) @ 44 # rev (json_string (js ''observed-source-v1'')) @ [91]"
    by (simp add: t_def del: js_simps)
  then have "demo_digits t = rev (show_int i)"
    using dig by (simp add: demo_digits_def takeWhile_append is_digit_def)
  then have "take 24 (demo_sha t) = rev (show_int i) @ 97 # replicate (23 - length (show_int i)) 48"
    using len by (simp add: demo_sha_def take_Cons')
  moreover have "expectedRef demo_sha p i = js ''obs_'' @ take 24 (demo_sha t)" by (simp only: expectedRef_def t_def)
  moreover have "length (js ''obs_'') = 4" by (simp add: js_def)
  ultimately have "drop 4 (expectedRef demo_sha p i) = rev (show_int i) @ 97 # replicate (23 - length (show_int i)) 48"
    by simp
  then show ?thesis using dig by (simp add: takeWhile_append is_digit_def)
qed

lemma demo_sha_law: "sha_law demo_observer"
proof -
  have "inj_on (expectedRef demo_sha p) {1..2147483647}" for p
  proof (rule inj_onI)
    fix i j assume ij: "i \<in> {1..2147483647}" "j \<in> {1..2147483647}" "expectedRef demo_sha p i = expectedRef demo_sha p j"
    then have "rev (show_int i) = rev (show_int j)" using demo_ref_digits by (metis atLeastAtMost_iff)
    then show "i = j" using show_int_inj by simp
  qed
  then show ?thesis by (simp add: sha_law_def demo_observer_def demo_sha_hex)
qed

definition demo_page_cfg :: page_cfg where
  "demo_page_cfg = \<lparr>pc_sha = demo_sha, pc_names = (\<lambda>_. None)\<rparr>"

definition demo_messages :: "raw_message list" where
  "demo_messages = [MessageText \<lparr>rt_id = 9, rt_peer = Some (js ''-8''), rt_date = 1000, rt_text = js ''late again'', rt_from = None,
     rt_media = MNone, rt_forward = None\<rparr>, MessageService 8 (Some (js ''-8'')) 900]"

definition demo_item :: obs_item where
  "demo_item = \<lparr>it_ref = expectedRef demo_sha (js ''-8'') 9, it_date = 1000, it_name = js ''Lab'', it_text = js ''late again'',
     it_truncated = False, it_media = MNone, it_forwarded = None\<rparr>"

definition demo_page :: obs_page where
  "demo_page = \<lparr>pg_title = js ''Lab'', pg_items = [demo_item], pg_next = Some 8, pg_truncated = True, pg_limit = 30, pg_raw = 2,
     pg_covered = 2, pg_skipped = 1, pg_omitted = 0, pg_meta = \<lparr>md_peer = js ''-8'', md_before = None, md_limit = 30,
       md_highest = Some 9, md_lowest = Some 8, md_ids = [9, 8], md_raw = 2, md_covered = 2, md_omitted = 0\<rparr>\<rparr>"

lemma demo_projected:
  "projectStandingObservedSourcePage demo_page_cfg (js ''Lab'') (js ''-8'') None 30 False demo_messages = Some demo_page"
  by code_simp

definition demo_commit :: "(observer_error + commit_result) \<times> observer" where
  "demo_commit = commitPage demo_observer False WriteDone 0 2000 demo_page fresh_observer"

lemma demo_committed:
  "case demo_commit of (Inr x, w) \<Rightarrow> \<not> cr_idempotent x \<and> cr_admitted x = 1 \<and> \<not> ow_broken w \<and> \<not> ow_closed w | _ \<Rightarrow> False"
  by code_simp

lemma committed_cases:
  assumes "case c of (Inr x, w) \<Rightarrow> \<not> cr_idempotent x \<and> cr_admitted x = n \<and> \<not> ow_broken w \<and> \<not> ow_closed w | _ \<Rightarrow> False"
  obtains x where "c = (Inr x, snd c)" "\<not> cr_idempotent x" "\<not> ow_broken (snd c)" "\<not> ow_closed (snd c)"
  using assms by (auto split: prod.splits sum.splits)

lemma demo_bound: "obs_binding_ok (ob_binding demo_observer)"
  by code_simp

lemma demo_issued: "issued demo_page_cfg demo_page"
  using demo_projected unfolding issued_def by blast

lemma demo_reach: "observer_steps demo_observer fresh_observer (snd demo_commit)"
  unfolding demo_commit_def by (rule r_into_rtranclp) (rule observer_step.commit [OF demo_issued])


theorem page_rows_accounted_witness:
  "accounted (pg_meta demo_page) obs_initial (ow_state (snd demo_commit)) 0 9 demo_item"
proof -
  obtain x where x: "demo_commit = (Inr x, snd demo_commit)" "\<not> cr_idempotent x"
    by (rule committed_cases [OF demo_committed])
  have c: "commitPage demo_observer False WriteDone 0 2000 demo_page fresh_observer = (Inr x, snd demo_commit)"
    using x(1) unfolding demo_commit_def by blast
  have "ow_state fresh_observer = obs_initial" by (simp add: fresh_observer_def)
  moreover have "md_ids (pg_meta demo_page) = [9, 8]" "pg_items demo_page = [demo_item]" by (simp_all add: demo_page_def)
  moreover have "it_ref demo_item = expectedRef (ob_sha demo_observer) (obn_source (ob_binding demo_observer)) 9"
    by (simp add: demo_item_def demo_observer_def del: js_simps)
  ultimately show ?thesis
    using page_rows_accounted [OF rtranclp.rtrancl_refl demo_sha_law demo_bound demo_issued c x(2)] by fastforce
qed

end
