(* ===== verification/Utf8.thy ===== *)
theory Utf8
  imports JsonShape
begin

text \<open>
  UTF-8 as the program uses it: \<open>Buffer.from(s, "utf8")\<close>, which writes a lone surrogate as U+FFFD,
  and the fatal \<open>TextDecoder\<close>, which refuses overlong forms, surrogates and truncated sequences.
\<close>

section \<open>Writing and reading\<close>

definition point_bytes :: "nat \<Rightarrow> nat list" where
  "point_bytes p =
     (if p < 128 then [p]
      else if p < 2048 then [192 + p div 64, 128 + p mod 64]
      else if p < 65536 then [224 + p div 4096, 128 + p div 64 mod 64, 128 + p mod 64]
      else [240 + p div 262144, 128 + p div 4096 mod 64, 128 + p div 64 mod 64, 128 + p mod 64])"

fun point_value :: "utext \<Rightarrow> nat" where
  "point_value [c] = (if is_high c \<or> is_low c then 65533 else c)"
| "point_value (a # b # _) = 65536 + (a - 55296) * 1024 + (b - 56320)"
| "point_value [] = 0"

definition utf8_bytes :: "utext \<Rightarrow> nat list" where
  "utf8_bytes s = concat (map (point_bytes \<circ> point_value) (code_points s))"

definition point_units :: "nat \<Rightarrow> utext" where
  "point_units p = (if p < 65536 then [p] else [55296 + (p - 65536) div 1024, 56320 + (p - 65536) mod 1024])"

definition tail_byte :: "nat \<Rightarrow> bool" where
  "tail_byte b \<longleftrightarrow> 128 \<le> b \<and> b < 192"

fun read_point :: "nat list \<Rightarrow> (nat \<times> nat list) option" where
  "read_point [] = None"
| "read_point (b # r) =
     (if b < 128 then Some (b, r)
      else if b < 192 then None
      else if b < 224 then
        (case r of
           c # r' \<Rightarrow>
             let p = (b - 192) * 64 + (c - 128) in
             if tail_byte c \<and> 128 \<le> p then Some (p, r') else None
         | _ \<Rightarrow> None)
      else if b < 240 then
        (case r of
           c # d # r' \<Rightarrow>
             let p = ((b - 224) * 64 + (c - 128)) * 64 + (d - 128) in
             if tail_byte c \<and> tail_byte d \<and> 2048 \<le> p \<and> \<not> (55296 \<le> p \<and> p \<le> 57343) then Some (p, r') else None
         | _ \<Rightarrow> None)
      else
        (case r of
           c # d # e # r' \<Rightarrow>
             let p = (((b - 240) * 64 + (c - 128)) * 64 + (d - 128)) * 64 + (e - 128) in
             if tail_byte c \<and> tail_byte d \<and> tail_byte e \<and> 65536 \<le> p \<and> p \<le> 1114111 then Some (p, r') else None
         | _ \<Rightarrow> None))"

lemma read_point_shorter: "read_point bs = Some (p, r) \<Longrightarrow> length r < length bs"
  by (cases bs) (auto simp: Let_def split: if_splits list.splits)

function utf8_read :: "nat list \<Rightarrow> utext option" where
  "utf8_read [] = Some []"
| "utf8_read (b # bs) =
     (case read_point (b # bs) of
        None \<Rightarrow> None
      | Some (p, r) \<Rightarrow> map_option (\<lambda>s. point_units p @ s) (utf8_read r))"
  by pat_completeness auto
termination
proof (relation "measure length")
  fix b bs x and p :: nat and r
  assume "read_point (b # bs) = Some x" "(p, r) = x"
  then have "length r < length (b # bs)" by (metis read_point_shorter)
  then show "(r, b # bs) \<in> measure length" by simp
qed simp

declare read_point.simps(2) [simp del]

section \<open>Reading back\<close>

definition units :: "utext \<Rightarrow> bool" where
  \<comment> \<open>A string: its elements are UTF-16 code units.\<close>
  "units s \<longleftrightarrow> (\<forall>c \<in> set s. c < 65536)"

lemma read_point_bytes:
  assumes "p \<le> 1114111" "\<not> (55296 \<le> p \<and> p \<le> 57343)"
  shows "read_point (point_bytes p @ r) = Some (p, r)"
proof -
  have two: "(192 + p div 64 - 192) * 64 + (128 + p mod 64 - 128) = p"
    by (simp add: mult.commute)
  have "p div 4096 * 64 + p div 64 mod 64 = p div 64"
    using div_mult_mod_eq [of "p div 64" 64] by (simp add: div_mult2_eq [symmetric])
  then have three: "((224 + p div 4096 - 224) * 64 + (128 + p div 64 mod 64 - 128)) * 64 + (128 + p mod 64 - 128) = p"
    by simp
  have "p div 262144 * 64 + p div 4096 mod 64 = p div 4096"
    using div_mult_mod_eq [of "p div 4096" 64] by (simp add: div_mult2_eq [symmetric])
  with three have four: "(((240 + p div 262144 - 240) * 64 + (128 + p div 4096 mod 64 - 128)) * 64 +
      (128 + p div 64 mod 64 - 128)) * 64 + (128 + p mod 64 - 128) = p" by simp
  have tail: "tail_byte (128 + q mod 64)" for q unfolding tail_byte_def using mod_less_divisor [of 64 q] by linarith
  consider "p < 128" | "128 \<le> p" "p < 2048" | "2048 \<le> p" "p < 65536" | "65536 \<le> p" by linarith
  then show ?thesis
  proof cases
    case 1
    then show ?thesis by (simp add: point_bytes_def read_point.simps)
  next
    case 2
    then have "p div 64 < 32" by (simp add: div_less_iff_less_mult)
    then show ?thesis using 2 tail [of p] two by (simp add: point_bytes_def read_point.simps Let_def)
  next
    case 3
    then have "p div 4096 < 16" by (simp add: div_less_iff_less_mult)
    then show ?thesis using 3 assms tail [of p] tail [of "p div 64"] three
      by (simp add: point_bytes_def read_point.simps Let_def)
  next
    case 4
    then show ?thesis using assms tail [of p] tail [of "p div 64"] tail [of "p div 4096"] four
      by (simp add: point_bytes_def read_point.simps Let_def)
  qed
qed

lemma point_bytes_nonempty: "point_bytes p \<noteq> []"
  by (simp add: point_bytes_def)

lemma utf8_read_point:
  assumes "read_point (bs @ r) = Some (p, r)" "bs \<noteq> []"
  shows "utf8_read (bs @ r) = map_option (\<lambda>s. point_units p @ s) (utf8_read r)"
  using assms by (cases bs) auto

definition point_ok :: "utext \<Rightarrow> bool" where
  "point_ok u \<longleftrightarrow>
     (\<exists>c. u = [c] \<and> c < 65536 \<and> \<not> is_high c \<and> \<not> is_low c) \<or> (\<exists>a b. u = [a, b] \<and> is_high a \<and> is_low b)"

lemma point_back:
  assumes "point_ok u"
  shows "point_value u \<le> 1114111 \<and> \<not> (55296 \<le> point_value u \<and> point_value u \<le> 57343) \<and> point_units (point_value u) = u"
  using assms unfolding point_ok_def
proof (elim disjE exE conjE)
  fix a b assume u: "u = [a, b]" "is_high a" "is_low b"
  then obtain k m where ab: "a = 55296 + k" "b = 56320 + m" "k < 1024" "m < 1024"
    by (auto simp: is_high_def is_low_def nat_le_iff_add)
  then have v: "point_value u = 65536 + (k * 1024 + m)" using u(1) by simp
  have "k * 1024 + m < 1024 * 1024" using ab by linarith
  moreover have "(k * 1024 + m) div 1024 = k" "(k * 1024 + m) mod 1024 = m" using ab by simp_all
  ultimately show ?thesis unfolding v using ab u(1) by (simp add: point_units_def)
qed (auto simp: point_units_def is_high_def is_low_def)

lemma points_ok:
  assumes "well_formed s" "units s" "u \<in> set (code_points s)"
  shows "point_ok u"
  using assms
proof (induction s rule: code_points.induct)
  case (2 a)
  then show ?case by (auto simp: well_formed_def units_def point_ok_def)
next
  case (3 a b r)
  show ?case
  proof (cases "is_high a \<and> is_low b")
    case True
    with 3 show ?thesis by (auto simp: well_formed_def units_def point_ok_def)
  next
    case False
    with 3 show ?thesis by (auto simp: well_formed_def units_def point_ok_def)
  qed
qed simp

lemma utf8_points:
  "\<forall>u \<in> set us. point_ok u \<Longrightarrow> utf8_read (concat (map (point_bytes \<circ> point_value) us)) = Some (concat us)"
proof (induction us)
  case (Cons u us)
  then have b: "point_value u \<le> 1114111" "\<not> (55296 \<le> point_value u \<and> point_value u \<le> 57343)"
    and u: "point_units (point_value u) = u" using point_back by (auto simp del: point_value.simps)
  show ?case using Cons utf8_read_point [OF read_point_bytes [OF b] point_bytes_nonempty] u by simp
qed simp

lemma utf8_roundtrip:
  assumes "well_formed s" "units s"
  shows "utf8_read (utf8_bytes s) = Some s"
  unfolding utf8_bytes_def using utf8_points points_ok [OF assms] by simp

lemma utf8_bytes_length:
  assumes "units s"
  shows "length (utf8_bytes s) = utf8_size s"
  using assms unfolding utf8_bytes_def utf8_size_def
proof (induction s rule: code_points.induct)
  case (3 a b r)
  then show ?case by (auto simp: units_def point_bytes_def is_high_def is_low_def)
qed (auto simp: units_def point_bytes_def is_high_def is_low_def)

section \<open>Only canonical sequences are read\<close>

lemma tail_split: "tail_byte c \<Longrightarrow> \<exists>k < 64. c = 128 + k"
  by (auto simp: tail_byte_def intro: exI [of _ "c - 128"])

lemma shift_tail:
  assumes "(p::nat) = h * 64 + n" "n < 64"
  shows "p div 64 = h" "p mod 64 = n"
  using assms by simp_all

lemma read_point_exact:
  assumes "read_point bs = Some (p, r)"
  shows "bs = point_bytes p @ r \<and> p \<le> 1114111 \<and> \<not> (55296 \<le> p \<and> p \<le> 57343)"
proof (cases bs)
  case (Cons b t)
  note step = assms [unfolded Cons read_point.simps Let_def]
  consider "b < 128" | "192 \<le> b" "b < 224" | "224 \<le> b" "b < 240" | "240 \<le> b"
    using step by (cases "b < 128"; cases "b < 192"; cases "b < 224"; cases "b < 240"; simp; linarith)
  then show ?thesis
  proof cases
    case 1
    then show ?thesis using step Cons by (simp add: point_bytes_def)
  next
    case 2
    then obtain c where t: "t = c # r" "tail_byte c" "128 \<le> (b - 192) * 64 + (c - 128)" "p = (b - 192) * 64 + (c - 128)"
      using step by (auto split: list.splits if_splits)
    obtain k where b: "b = 192 + k" "k < 32" using 2 by (auto simp: nat_le_iff_add)
    obtain m where c: "c = 128 + m" "m < 64" using tail_split t(2) by blast
    have p: "p = k * 64 + m" "128 \<le> p" using t b c by simp_all
    then have "p < 2048" "p div 64 = k" "p mod 64 = m" using b c by simp_all
    then show ?thesis using Cons t b c p by (simp add: point_bytes_def)
  next
    case 3
    then obtain c d where t: "t = c # d # r" "tail_byte c" "tail_byte d" "p = ((b - 224) * 64 + (c - 128)) * 64 + (d - 128)"
        "2048 \<le> p" "\<not> (55296 \<le> p \<and> p \<le> 57343)"
      using step by (auto split: list.splits if_splits)
    obtain k where b: "b = 224 + k" "k < 16" using 3 by (auto simp: nat_le_iff_add)
    obtain m where c: "c = 128 + m" "m < 64" using tail_split t(2) by blast
    obtain n where d: "d = 128 + n" "n < 64" using tail_split t(3) by blast
    have p: "p = (k * 64 + m) * 64 + n" using t b c d by simp
    have q: "p div 64 = k * 64 + m" "p mod 64 = n" using shift_tail [OF p d(2)] by simp_all
    have q3: "p < 65536" using p b(2) c(2) d(2) by simp
    have "p div 4096 = p div 64 div 64" by (simp add: div_mult2_eq [symmetric])
    then have "p div 4096 = k" "p div 64 mod 64 = m" using shift_tail [OF q(1) c(2)] by simp_all
    then show ?thesis using Cons t b c d q q3 by (simp add: point_bytes_def)
  next
    case 4
    then obtain c d e where t: "t = c # d # e # r" "tail_byte c" "tail_byte d" "tail_byte e"
        "p = (((b - 240) * 64 + (c - 128)) * 64 + (d - 128)) * 64 + (e - 128)" "65536 \<le> p" "p \<le> 1114111"
      using step by (auto split: list.splits if_splits)
    obtain k where b: "b = 240 + k" using 4 by (auto simp: nat_le_iff_add)
    obtain m where c: "c = 128 + m" "m < 64" using tail_split t(2) by blast
    obtain n where d: "d = 128 + n" "n < 64" using tail_split t(3) by blast
    obtain l where e: "e = 128 + l" "l < 64" using tail_split t(4) by blast
    have p: "p = ((k * 64 + m) * 64 + n) * 64 + l" using t b c d e by simp
    have q: "p div 64 = (k * 64 + m) * 64 + n" "p mod 64 = l" using shift_tail [OF p e(2)] by simp_all
    have "p div 4096 = p div 64 div 64" by (simp add: div_mult2_eq [symmetric])
    then have q2: "p div 4096 = k * 64 + m" "p div 64 mod 64 = n" using shift_tail [OF q(1) d(2)] by simp_all
    have "p div 262144 = p div 4096 div 64" by (simp add: div_mult2_eq [symmetric])
    then have "p div 262144 = k" "p div 4096 mod 64 = m" using shift_tail [OF q2(1) c(2)] by simp_all
    then show ?thesis using Cons t b c d e q q2 by (simp add: point_bytes_def)
  qed
qed (use assms in simp)

lemma point_units_first:
  assumes "p \<le> 1114111" "\<not> (55296 \<le> p \<and> p \<le> 57343)"
  shows "code_points (point_units p @ s) = point_units p # code_points s \<and> point_value (point_units p) = p"
proof (cases "p < 65536")
  case True
  then have "\<not> is_high p" "\<not> is_low p" using assms by (auto simp: is_high_def is_low_def)
  then show ?thesis using True by (cases s) (simp_all add: point_units_def)
next
  case False
  then obtain q where p: "p = 65536 + q" by (auto simp: not_less nat_le_iff_add)
  have "q div 1024 < 1024" using assms(1) p by (simp add: div_less_iff_less_mult)
  then have "is_high (55296 + q div 1024)" "is_low (56320 + q mod 1024)" by (auto simp: is_high_def is_low_def)
  then show ?thesis using p by (simp add: point_units_def)
qed

lemma utf8_exact: "utf8_read bs = Some s \<Longrightarrow> utf8_bytes s = bs"
proof (induction bs arbitrary: s rule: utf8_read.induct)
  case (2 b bs)
  then obtain p r u where pr: "read_point (b # bs) = Some (p, r)" and u: "utf8_read r = Some u" "s = point_units p @ u"
    by (auto split: option.splits)
  note exact = read_point_exact [OF pr]
  have "utf8_bytes u = r" using "2.IH" [OF pr] u by simp
  then show ?case using exact point_units_first [of p u] u by (simp add: utf8_bytes_def)
qed (simp add: utf8_bytes_def)

end
