(* ===== verification/ProcessContract.thy ===== *)
theory ProcessContract
  imports AlertSize Utf8
begin

text \<open>
  The process contract of the phase-3 runner (\<open>contract.ts\<close>): the checks a request to start one
  process and the evidence of its run must pass, their canonical JSON, and the strict readers of
  both.

  Untrusted input is a JSON value; \<open>-0\<close> is not told apart from 0. SHA-256, Unicode case mapping,
  \<open>Date.parse\<close> and \<open>JSON.parse\<close> are fields of \<open>contract_env\<close>. The functions
  of \<open>node:path/win32\<close> are defined for what reaches them here, paths that begin with an upper
  case drive letter and a backslash and hold no slash: a path is normal when none of its segments
  is empty, \<open>.\<close> or \<open>..\<close> (one closing backslash apart), and \<open>win_relative\<close> compares segments in
  lower case.
\<close>

section \<open>Types and constants\<close>

datatype contract_error =
    ExpectedObject | PropertySetMismatch | LiteralMismatch | StringFormat | ExpectedString | ExpectedBoolean
  | IntegerRange | NonCanonicalPath | InvalidArgv | InvalidArgvElement | StdinBindingMismatch
  | InvalidEnvironmentAllowlist | WslEnvironmentBindingRefused | UnsafeEnvironmentName
  | NonCanonicalEnvironmentAllowlist | UnsafeEnvironmentValue | PathContainment | PathRoleCollision
  | NonCanonicalNumber | RequestTooLarge | InvalidBase64 | StreamBindingMismatch | StreamCompletenessInvariant
  | InvalidEvidenceArgv | InvalidTimestamp | InvalidEvidenceDuration | InvalidTerminalState
  | OutputCompletenessMismatch | KnownExitInvariant | UnknownExitInvariant | PreSpawnInvariant
  | PostSpawnInvariant | DocumentSize | InvalidUtf8 | DocumentBom | DocumentJson | NotCanonical

type_synonym 'a contracted = "contract_error + 'a"

record contract_env =
  ce_sha :: "nat list \<Rightarrow> utext"        \<comment> \<open>\<open>sha256Hex\<close>\<close>
  ce_upper :: "utext \<Rightarrow> utext"
  ce_lower :: "utext \<Rightarrow> utext"
  ce_date :: "utext \<Rightarrow> int option"
  ce_json :: "utext \<Rightarrow> json option"

definition request_bytes_max :: int where "request_bytes_max = 65536"
definition stdin_bytes_max :: int where "stdin_bytes_max = 262144"
definition stream_bytes_max :: int where "stream_bytes_max = 1048576"
definition evidence_bytes_max :: int where "evidence_bytes_max = 3145728"
definition aggregate_deadline :: int where "aggregate_deadline = 420000"
definition memory_bytes_max :: int where "memory_bytes_max = 268435456"

record process_request =
  rq_operation :: utext
  rq_executable :: utext
  rq_executable_sha :: utext
  rq_argv :: "utext list"
  rq_stdin :: utext              \<comment> \<open>in Base64\<close>
  rq_stdin_bytes :: int
  rq_stdin_sha :: utext
  rq_allowlist :: "utext list"
  rq_values :: "(utext \<times> utext) list"
  rq_deadline :: int
  rq_root :: utext
  rq_marker :: utext
  rq_evidence :: utext

record raw_stream =
  rs_base64 :: utext
  rs_bytes :: int
  rs_sha :: utext
  rs_complete :: bool
  rs_truncated :: bool

record process_evidence =
  pe_request_bytes :: int
  pe_request_sha :: utext
  pe_executable_sha :: utext
  pe_argv :: "utext list"
  pe_stdin_bytes :: int
  pe_stdin_sha :: utext
  pe_started :: utext
  pe_finished :: utext
  pe_starts :: int
  pe_terminal :: utext
  pe_exit_known :: bool
  pe_exit :: "int option"
  pe_output_complete :: bool
  pe_stdout :: raw_stream
  pe_stderr :: raw_stream

section \<open>Canonical JSON\<close>

fun canonicalize :: "json \<Rightarrow> utext contracted" where
  "canonicalize JNull = Inr (js ''null'')"
| "canonicalize (JBool b) = Inr (if b then js ''true'' else js ''false'')"
| "canonicalize (JInt i) = ensure (\<bar>i\<bar> \<le> max_safe) NonCanonicalNumber (Inr (show_int i))"
| "canonicalize (JDec t) = Inl NonCanonicalNumber"
| "canonicalize JNonFinite = Inl NonCanonicalNumber"
| "canonicalize (JStr s) = Inr (json_string s)"
| "canonicalize (JArr vs) = rbind (rmap (\<lambda>x. x) (map canonicalize vs)) (\<lambda>ps. Inr (91 # join ps @ [93]))"
| "canonicalize (JObj kvs) =
     rbind (rmap (\<lambda>(k, po). rbind po (\<lambda>p. Inr (json_string k @ 58 # p)))
         (sort_key fst (map (\<lambda>(k, v). (k, canonicalize v)) kvs)))
       (\<lambda>ps. Inr (123 # join ps @ [125]))"

section \<open>Base64\<close>

definition b64_alphabet :: utext where
  "b64_alphabet = js ''ABCDEFGHIJKLMNOPQRSTUVWXYZabcdefghijklmnopqrstuvwxyz0123456789+/''"

definition b64_digit :: "nat \<Rightarrow> nat option" where
  "b64_digit c =
     (if 65 \<le> c \<and> c \<le> 90 then Some (c - 65) else if 97 \<le> c \<and> c \<le> 122 then Some (c - 71)
      else if 48 \<le> c \<and> c \<le> 57 then Some (c + 4) else if c = 43 then Some 62 else if c = 47 then Some 63 else None)"

fun b64_encode :: "nat list \<Rightarrow> utext" where
  "b64_encode [] = []"
| "b64_encode [a] = [b64_alphabet ! (a div 4), b64_alphabet ! (a mod 4 * 16), 61, 61]"
| "b64_encode [a, b] = [b64_alphabet ! (a div 4), b64_alphabet ! (a mod 4 * 16 + b div 16), b64_alphabet ! (b mod 16 * 4), 61]"
| "b64_encode (a # b # c # r) =
     b64_alphabet ! (a div 4) # b64_alphabet ! (a mod 4 * 16 + b div 16) # b64_alphabet ! (b mod 16 * 4 + c div 64) #
     b64_alphabet ! (c mod 64) # b64_encode r"

fun b64_decode :: "utext \<Rightarrow> nat list option" where
  \<comment> \<open>The pattern of \<open>decodeStrictBase64\<close> with the bytes \<open>Buffer.from\<close> reads.\<close>
  "b64_decode [] = Some []"
| "b64_decode (c1 # c2 # c3 # c4 # r) =
     (case (b64_digit c1, b64_digit c2) of
        (Some d1, Some d2) \<Rightarrow>
          (case (b64_digit c3, b64_digit c4) of
             (Some d3, Some d4) \<Rightarrow>
               map_option (\<lambda>bs. (d1 * 4 + d2 div 16) # (d2 mod 16 * 16 + d3 div 4) # (d3 mod 4 * 64 + d4) # bs) (b64_decode r)
           | (Some d3, None) \<Rightarrow>
               if c4 = 61 \<and> r = [] then Some [d1 * 4 + d2 div 16, d2 mod 16 * 16 + d3 div 4] else None
           | (None, _) \<Rightarrow> if c3 = 61 \<and> c4 = 61 \<and> r = [] then Some [d1 * 4 + d2 div 16] else None)
      | _ \<Rightarrow> None)"
| "b64_decode _ = None"

definition decodeStrictBase64 :: "utext \<Rightarrow> nat list contracted" where
  "decodeStrictBase64 s =
     (case b64_decode s of
        None \<Rightarrow> Inl InvalidBase64
      | Some bs \<Rightarrow> ensure (b64_encode bs = s) InvalidBase64 (Inr bs))"

section \<open>Field checks\<close>

fun requireString :: "json option \<Rightarrow> utext contracted" where
  "requireString (Some (JStr s)) = Inr s"
| "requireString _ = Inl ExpectedString"

fun requireBoolean :: "json option \<Rightarrow> bool contracted" where
  "requireBoolean (Some (JBool b)) = Inr b"
| "requireBoolean _ = Inl ExpectedBoolean"

definition requireStringMatch :: "(utext \<Rightarrow> bool) \<Rightarrow> json option \<Rightarrow> utext contracted" where
  "requireStringMatch P v = rbind (requireString v) (\<lambda>s. ensure (P s) StringFormat (Inr s))"

definition requireLiteral :: "json \<Rightarrow> json option \<Rightarrow> unit contracted" where
  "requireLiteral x v = ensure (v = Some x) LiteralMismatch (Inr ())"

definition requireInteger :: "int \<Rightarrow> int \<Rightarrow> json option \<Rightarrow> int contracted" where
  "requireInteger lo hi v =
     (case v of
        Some (JInt i) \<Rightarrow> ensure (\<bar>i\<bar> \<le> max_safe \<and> lo \<le> i \<and> i \<le> hi) IntegerRange (Inr i)
      | _ \<Rightarrow> Inl IntegerRange)"

definition requireExactInteger :: "int \<Rightarrow> json option \<Rightarrow> int contracted" where
  "requireExactInteger i v = requireInteger i i v"

fun asRecord :: "json option \<Rightarrow> json contracted" where
  "asRecord (Some (JObj kvs)) = Inr (JObj kvs)"
| "asRecord _ = Inl ExpectedObject"

definition assertExactKeys :: "json \<Rightarrow> utext list \<Rightarrow> unit contracted" where
  "assertExactKeys v ks = ensure (map_option sort (keys_of v) = Some (sort ks)) PropertySetMismatch (Inr ())"

definition exact_record :: "string list \<Rightarrow> json option \<Rightarrow> json contracted" where
  "exact_record ks v = rbind (asRecord v) (\<lambda>r. rbind (assertExactKeys r (map js ks)) (\<lambda>_. Inr r))"

definition sha_pattern :: "utext \<Rightarrow> bool" where
  "sha_pattern s \<longleftrightarrow> length s = 64 \<and> (\<forall>c \<in> set s. hex_digit c)"

definition upper_hex :: "nat \<Rightarrow> bool" where
  "upper_hex c \<longleftrightarrow> is_digit c \<or> (65 \<le> c \<and> c \<le> 70)"

definition uuid_v4 :: "utext \<Rightarrow> bool" where
  "uuid_v4 s \<longleftrightarrow> length s = 36 \<and> (\<forall>n < 36. if n \<in> {8, 13, 18, 23} then s ! n = 45 else upper_hex (s ! n)) \<and>
     s ! 14 = 52 \<and> s ! 19 \<in> {56, 57, 65, 66}"

definition timestamp_pattern :: "utext \<Rightarrow> bool" where
  "timestamp_pattern s \<longleftrightarrow> length s = 24 \<and>
     (\<forall>n < 24. case map_of [(4, 45), (7, 45), (10, 84), (13, 58), (16, 58), (19, 46), (23, 90)] n of
        Some c \<Rightarrow> s ! n = c | None \<Rightarrow> is_digit (s ! n))"

definition requireTimestamp :: "contract_env \<Rightarrow> json option \<Rightarrow> utext contracted" where
  "requireTimestamp env v =
     rbind (requireString v) (\<lambda>s. ensure (timestamp_pattern s \<and> ce_date env s \<noteq> None) InvalidTimestamp (Inr s))"

definition unsafe_char :: "nat \<Rightarrow> bool" where
  "unsafe_char c \<longleftrightarrow> c = 0 \<or> c = 13 \<or> c = 10"

section \<open>Paths\<close>

fun split_path :: "utext \<Rightarrow> utext list" where
  \<comment> \<open>The segments between backslashes.\<close>
  "split_path [] = [[]]"
| "split_path (c # s) =
     (if c = 92 then [] # split_path s
      else (case split_path s of [] \<Rightarrow> [[c]] | p # ps \<Rightarrow> (c # p) # ps))"

definition path_segments :: "utext \<Rightarrow> utext list" where
  "path_segments s = filter (\<lambda>p. p \<noteq> []) (split_path s)"

definition drive_path :: "utext \<Rightarrow> bool" where
  "drive_path s \<longleftrightarrow> (case s of c # d # e # _ \<Rightarrow> 65 \<le> c \<and> c \<le> 90 \<and> d = 58 \<and> e = 92 | _ \<Rightarrow> False)"

definition normal_path :: "utext \<Rightarrow> bool" where
  \<comment> \<open>\<open>win32.normalize(s) === s\<close> for a drive path without slashes.\<close>
  "normal_path s \<longleftrightarrow> (let ps = tl (split_path s) in [] \<notin> set (butlast ps) \<and> js ''.'' \<notin> set ps \<and> js ''..'' \<notin> set ps)"

definition win_absolute :: "utext \<Rightarrow> bool" where
  \<comment> \<open>\<open>win32.isAbsolute\<close>\<close>
  "win_absolute s \<longleftrightarrow>
     (case s of
        [] \<Rightarrow> False
      | c # r \<Rightarrow> c \<in> {47, 92} \<or>
          (((65 \<le> c \<and> c \<le> 90) \<or> (97 \<le> c \<and> c \<le> 122)) \<and> (case r of d # e # _ \<Rightarrow> d = 58 \<and> e \<in> {47, 92} | _ \<Rightarrow> False)))"

definition requireCanonicalWindowsPath :: "json option \<Rightarrow> utext contracted" where
  "requireCanonicalWindowsPath v =
     rbind (requireString v) (\<lambda>s.
       ensure (s \<noteq> [] \<and> length s \<le> 32767 \<and> drive_path s \<and> 47 \<notin> set s \<and> (\<forall>c \<in> set s. 31 < c) \<and> normal_path s \<and>
           win_absolute s) NonCanonicalPath (Inr s))"

fun common_prefix :: "'a list \<Rightarrow> 'a list \<Rightarrow> nat" where
  "common_prefix (a # xs) (b # ys) = (if a = b then Suc (common_prefix xs ys) else 0)"
| "common_prefix _ _ = 0"

fun join_path :: "utext list \<Rightarrow> utext" where
  "join_path [] = []"
| "join_path [p] = p"
| "join_path (p # q # ps) = p @ 92 # join_path (q # ps)"

definition win_relative :: "contract_env \<Rightarrow> utext \<Rightarrow> utext \<Rightarrow> utext" where
  \<comment> \<open>\<open>win32.relative\<close>: up from the root to the common part, then down.\<close>
  "win_relative env root path =
     (let r = path_segments root; p = path_segments path;
          n = common_prefix (map (ce_lower env) r) (map (ce_lower env) p) in
      if n = 0 then path else join_path (replicate (length r - n) (js ''..'') @ drop n p))"

definition requireContainedPath :: "contract_env \<Rightarrow> utext \<Rightarrow> utext \<Rightarrow> unit contracted" where
  "requireContainedPath env root path =
     (let r = win_relative env root path in
      ensure (r \<noteq> [] \<and> r \<noteq> js ''..'' \<and> take 3 r \<noteq> js ''..'' @ [92] \<and> \<not> win_absolute r) PathContainment (Inr ()))"

section \<open>Requests\<close>

definition request_schema :: utext where "request_schema = js ''decadans.rm0032.process-request.v1''"
definition evidence_schema :: utext where "evidence_schema = js ''decadans.rm0032.process-evidence.v1''"
definition process_consumer :: utext where "process_consumer = js ''phase-3-wsl-hardening-coordinator''"

definition request_keys :: "string list" where
  "request_keys =
     [''schema'', ''operationId'', ''oneShot'', ''retryAuthorized'', ''executable'', ''argv'', ''stdin'', ''environment'',
      ''limits'', ''containment'', ''attemptMarker'', ''evidence'']"

definition limit_keys :: "string list" where
  "limit_keys =
     [''requestBytesMax'', ''stdinBytesMax'', ''stdoutBytesMax'', ''stderrBytesMax'', ''evidenceBytesMax'', ''concurrencyMax'',
      ''childProcessMax'', ''deadlineMs'', ''aggregateDeadlineMs'', ''memoryBytesMax'', ''cpuPercentMax'']"

definition safe_names :: "utext list" where
  "safe_names = [js ''LANG'', js ''LC_ALL'', js ''NO_COLOR'', js ''RM0032_FIXTURE_MODE'']"

definition sensitive_words :: "utext list" where
  "sensitive_words =
     [js ''TOKEN'', js ''KEY'', js ''SECRET'', js ''PASSWORD'', js ''PASSWD'', js ''SESSION'', js ''COOKIE'', js ''TELEGRAM'',
      js ''CREDENTIAL'', js ''AUTH'']"

definition sensitive_name :: "utext \<Rightarrow> bool" where
  "sensitive_name s \<longleftrightarrow>
     list_ex (\<lambda>w. list_ex (\<lambda>n. strip_lit w (drop n s) \<noteq> []) [0..<Suc (length s)]) sensitive_words"

definition elements :: "json option \<Rightarrow> json list option" where
  "elements v = (case v of Some (JArr vs) \<Rightarrow> Some vs | _ \<Rightarrow> None)"

definition parse_executable :: "json option \<Rightarrow> (utext \<times> utext) contracted" where
  "parse_executable v =
     rbind (exact_record [''path'', ''sha256''] v) (\<lambda>x.
     rbind (requireCanonicalWindowsPath (field (Some x) ''path'')) (\<lambda>path.
     rbind (requireStringMatch sha_pattern (field (Some x) ''sha256'')) (\<lambda>sha. Inr (path, sha))))"

definition argv_element :: "json \<Rightarrow> utext contracted" where
  "argv_element v =
     rbind (requireString (Some v)) (\<lambda>s.
       ensure (utf8_size s \<le> 4096 \<and> \<not> list_ex unsafe_char s) InvalidArgvElement (Inr s))"

definition parse_argv :: "json option \<Rightarrow> utext list contracted" where
  "parse_argv v =
     (case elements v of
        None \<Rightarrow> Inl InvalidArgv
      | Some vs \<Rightarrow> ensure (vs \<noteq> [] \<and> length vs \<le> 64) InvalidArgv (rmap argv_element vs))"

definition parse_stdin :: "contract_env \<Rightarrow> json option \<Rightarrow> (utext \<times> int \<times> utext) contracted" where
  "parse_stdin env v =
     rbind (exact_record [''encoding'', ''base64'', ''bytes'', ''sha256''] v) (\<lambda>x.
     rbind (requireLiteral (JStr (js ''base64'')) (field (Some x) ''encoding'')) (\<lambda>_.
     rbind (requireString (field (Some x) ''base64'')) (\<lambda>b.
     rbind (requireInteger 0 stdin_bytes_max (field (Some x) ''bytes'')) (\<lambda>n.
     rbind (requireStringMatch sha_pattern (field (Some x) ''sha256'')) (\<lambda>sha.
     rbind (decodeStrictBase64 b) (\<lambda>bs.
       ensure (int (length bs) = n \<and> ce_sha env bs = sha) StdinBindingMismatch (Inr (b, n, sha))))))))"

definition windows_names :: "utext list" where
  "windows_names = [js ''SystemRoot'', js ''WINDIR'']"

definition wsl_path :: utext where
  "wsl_path = js ''C:'' @ 92 # js ''Program Files'' @ 92 # js ''WSL'' @ 92 # js ''wsl.exe''"

definition windows_dir :: utext where
  "windows_dir = js ''C:'' @ 92 # js ''Windows''"

fun entries :: "json \<Rightarrow> (utext \<times> json) list" where
  "entries (JObj kvs) = kvs"
| "entries _ = []"

definition windows_environment :: "json list \<Rightarrow> json \<Rightarrow> bool" where
  "windows_environment raw vals \<longleftrightarrow>
     list_ex (\<lambda>n. JStr n \<in> set raw \<or> map_of (entries vals) n \<noteq> None) windows_names"

definition wsl_binding :: "utext \<Rightarrow> json list \<Rightarrow> json \<Rightarrow> bool" where
  "wsl_binding executable raw vals \<longleftrightarrow>
     executable = wsl_path \<and> raw = map JStr windows_names \<and> length (entries vals) = length windows_names \<and>
     list_all (\<lambda>n. map_of (entries vals) n = Some (JStr windows_dir)) windows_names"

definition allowed_name :: "bool \<Rightarrow> json \<Rightarrow> utext contracted" where
  "allowed_name win v =
     rbind (requireString (Some v)) (\<lambda>n.
       ensure (win \<or> (n \<in> set safe_names \<and> \<not> sensitive_name n)) UnsafeEnvironmentName (Inr n))"

definition environment_value :: "json \<Rightarrow> utext \<Rightarrow> (utext \<times> utext) contracted" where
  "environment_value vals n =
     rbind (requireString (map_of (entries vals) n)) (\<lambda>s.
       ensure (utf8_size s \<le> 4096 \<and> \<not> list_ex unsafe_char s) UnsafeEnvironmentValue (Inr (n, s)))"

definition parse_environment :: "utext \<Rightarrow> json option \<Rightarrow> (utext list \<times> (utext \<times> utext) list) contracted" where
  "parse_environment executable v =
     rbind (exact_record [''inherit'', ''allowlist'', ''values''] v) (\<lambda>x.
     rbind (requireLiteral (JBool False) (field (Some x) ''inherit'')) (\<lambda>_.
     (case elements (field (Some x) ''allowlist'') of
        None \<Rightarrow> Inl InvalidEnvironmentAllowlist
      | Some raw \<Rightarrow>
          rbind (asRecord (field (Some x) ''values'')) (\<lambda>vals.
          let win = windows_environment raw vals in
          ensure (win \<longrightarrow> wsl_binding executable raw vals) WslEnvironmentBindingRefused (
          rbind (rmap (allowed_name win) raw) (\<lambda>allowlist.
          ensure (distinct allowlist \<and> sort allowlist = allowlist) NonCanonicalEnvironmentAllowlist (
          rbind (assertExactKeys vals allowlist) (\<lambda>_.
          rbind (rmap (environment_value vals) allowlist) (\<lambda>pairs. Inr (allowlist, pairs))))))))))"

definition parse_limits :: "json option \<Rightarrow> int contracted" where
  "parse_limits v =
     rbind (exact_record limit_keys v) (\<lambda>x.
     rbind (requireExactInteger request_bytes_max (field (Some x) ''requestBytesMax'')) (\<lambda>_.
     rbind (requireExactInteger stdin_bytes_max (field (Some x) ''stdinBytesMax'')) (\<lambda>_.
     rbind (requireExactInteger stream_bytes_max (field (Some x) ''stdoutBytesMax'')) (\<lambda>_.
     rbind (requireExactInteger stream_bytes_max (field (Some x) ''stderrBytesMax'')) (\<lambda>_.
     rbind (requireExactInteger evidence_bytes_max (field (Some x) ''evidenceBytesMax'')) (\<lambda>_.
     rbind (requireExactInteger 1 (field (Some x) ''concurrencyMax'')) (\<lambda>_.
     rbind (requireExactInteger 1 (field (Some x) ''childProcessMax'')) (\<lambda>_.
     rbind (requireInteger 1000 120000 (field (Some x) ''deadlineMs'')) (\<lambda>deadline.
     rbind (requireExactInteger aggregate_deadline (field (Some x) ''aggregateDeadlineMs'')) (\<lambda>_.
     rbind (requireExactInteger memory_bytes_max (field (Some x) ''memoryBytesMax'')) (\<lambda>_.
     rbind (requireExactInteger 25 (field (Some x) ''cpuPercentMax'')) (\<lambda>_. Inr deadline))))))))))))"

definition parse_containment :: "json option \<Rightarrow> utext contracted" where
  "parse_containment v =
     rbind (exact_record [''consumer'', ''operationRoot'', ''requireCanonicalPaths''] v) (\<lambda>x.
     rbind (requireLiteral (JStr process_consumer) (field (Some x) ''consumer'')) (\<lambda>_.
     rbind (requireCanonicalWindowsPath (field (Some x) ''operationRoot'')) (\<lambda>root.
     rbind (requireLiteral (JBool True) (field (Some x) ''requireCanonicalPaths'')) (\<lambda>_. Inr root))))"

definition parse_marker :: "json option \<Rightarrow> utext contracted" where
  "parse_marker v =
     rbind (exact_record [''path'', ''createNew''] v) (\<lambda>x.
     rbind (requireCanonicalWindowsPath (field (Some x) ''path'')) (\<lambda>path.
     rbind (requireLiteral (JBool True) (field (Some x) ''createNew'')) (\<lambda>_. Inr path)))"

definition parse_evidence_target :: "json option \<Rightarrow> utext contracted" where
  "parse_evidence_target v =
     rbind (exact_record [''path'', ''schema'', ''createNew''] v) (\<lambda>x.
     rbind (requireCanonicalWindowsPath (field (Some x) ''path'')) (\<lambda>path.
     rbind (requireLiteral (JStr evidence_schema) (field (Some x) ''schema'')) (\<lambda>_.
     rbind (requireLiteral (JBool True) (field (Some x) ''createNew'')) (\<lambda>_. Inr path))))"

definition check_paths :: "contract_env \<Rightarrow> utext \<Rightarrow> utext \<Rightarrow> utext \<Rightarrow> utext \<Rightarrow> unit contracted" where
  "check_paths env executable root marker evidence =
     rbind (requireContainedPath env root marker) (\<lambda>_.
     rbind (requireContainedPath env root evidence) (\<lambda>_.
       ensure (ce_upper env marker \<noteq> ce_upper env evidence \<and> ce_upper env executable \<noteq> ce_upper env evidence)
         PathRoleCollision (Inr ())))"

definition parseProcessRequest :: "contract_env \<Rightarrow> json \<Rightarrow> process_request contracted" where
  "parseProcessRequest env v =
     rbind (exact_record request_keys (Some v)) (\<lambda>x.
     rbind (requireLiteral (JStr request_schema) (field (Some x) ''schema'')) (\<lambda>_.
     rbind (requireStringMatch uuid_v4 (field (Some x) ''operationId'')) (\<lambda>operation.
     rbind (requireLiteral (JBool True) (field (Some x) ''oneShot'')) (\<lambda>_.
     rbind (requireLiteral (JBool False) (field (Some x) ''retryAuthorized'')) (\<lambda>_.
     rbind (parse_executable (field (Some x) ''executable'')) (\<lambda>(executable, executable_sha).
     rbind (parse_argv (field (Some x) ''argv'')) (\<lambda>argv.
     rbind (parse_stdin env (field (Some x) ''stdin'')) (\<lambda>(b, n, sha).
     rbind (parse_environment executable (field (Some x) ''environment'')) (\<lambda>(allowlist, pairs).
     rbind (parse_limits (field (Some x) ''limits'')) (\<lambda>deadline.
     rbind (parse_containment (field (Some x) ''containment'')) (\<lambda>root.
     rbind (parse_marker (field (Some x) ''attemptMarker'')) (\<lambda>marker.
     rbind (parse_evidence_target (field (Some x) ''evidence'')) (\<lambda>evidence.
     rbind (check_paths env executable root marker evidence) (\<lambda>_.
       Inr \<lparr>rq_operation = operation, rq_executable = executable, rq_executable_sha = executable_sha, rq_argv = argv,
            rq_stdin = b, rq_stdin_bytes = n, rq_stdin_sha = sha, rq_allowlist = allowlist, rq_values = pairs,
            rq_deadline = deadline, rq_root = root, rq_marker = marker, rq_evidence = evidence\<rparr>))))))))))))))"

definition values_json :: "(utext \<times> utext) list \<Rightarrow> json" where
  "values_json ps = JObj (map (\<lambda>(n, s). (n, JStr s)) ps)"

definition limits_json :: "int \<Rightarrow> json" where
  "limits_json deadline = JObj
     [(js ''requestBytesMax'', JInt request_bytes_max), (js ''stdinBytesMax'', JInt stdin_bytes_max),
      (js ''stdoutBytesMax'', JInt stream_bytes_max), (js ''stderrBytesMax'', JInt stream_bytes_max),
      (js ''evidenceBytesMax'', JInt evidence_bytes_max), (js ''concurrencyMax'', JInt 1), (js ''childProcessMax'', JInt 1),
      (js ''deadlineMs'', JInt deadline), (js ''aggregateDeadlineMs'', JInt aggregate_deadline),
      (js ''memoryBytesMax'', JInt memory_bytes_max), (js ''cpuPercentMax'', JInt 25)]"

definition request_json :: "process_request \<Rightarrow> json" where
  \<comment> \<open>The object \<open>parseProcessRequest\<close> returns.\<close>
  "request_json r = JObj
     [(js ''schema'', JStr request_schema), (js ''operationId'', JStr (rq_operation r)), (js ''oneShot'', JBool True),
      (js ''retryAuthorized'', JBool False),
      (js ''executable'', JObj [(js ''path'', JStr (rq_executable r)), (js ''sha256'', JStr (rq_executable_sha r))]),
      (js ''argv'', JArr (map JStr (rq_argv r))),
      (js ''stdin'', JObj [(js ''encoding'', JStr (js ''base64'')), (js ''base64'', JStr (rq_stdin r)),
         (js ''bytes'', JInt (rq_stdin_bytes r)), (js ''sha256'', JStr (rq_stdin_sha r))]),
      (js ''environment'', JObj [(js ''inherit'', JBool False), (js ''allowlist'', JArr (map JStr (rq_allowlist r))),
         (js ''values'', values_json (rq_values r))]),
      (js ''limits'', limits_json (rq_deadline r)),
      (js ''containment'', JObj [(js ''consumer'', JStr process_consumer), (js ''operationRoot'', JStr (rq_root r)),
         (js ''requireCanonicalPaths'', JBool True)]),
      (js ''attemptMarker'', JObj [(js ''path'', JStr (rq_marker r)), (js ''createNew'', JBool True)]),
      (js ''evidence'', JObj [(js ''path'', JStr (rq_evidence r)), (js ''schema'', JStr evidence_schema),
         (js ''createNew'', JBool True)])]"

definition encodeCanonicalProcessRequest :: "contract_env \<Rightarrow> json \<Rightarrow> nat list contracted" where
  "encodeCanonicalProcessRequest env v =
     rbind (parseProcessRequest env v) (\<lambda>r.
     rbind (canonicalize (request_json r)) (\<lambda>t.
       ensure (int (length (utf8_bytes t)) \<le> request_bytes_max) RequestTooLarge (Inr (utf8_bytes t))))"

section \<open>Evidence\<close>

definition parseRawStreamEvidence :: "contract_env \<Rightarrow> json option \<Rightarrow> raw_stream contracted" where
  \<comment> \<open>Both streams have the same limit.\<close>
  "parseRawStreamEvidence env v =
     rbind (exact_record [''base64'', ''bytes'', ''sha256'', ''complete'', ''truncated''] v) (\<lambda>x.
     rbind (requireString (field (Some x) ''base64'')) (\<lambda>b.
     rbind (requireInteger 0 stream_bytes_max (field (Some x) ''bytes'')) (\<lambda>n.
     rbind (requireStringMatch sha_pattern (field (Some x) ''sha256'')) (\<lambda>sha.
     rbind (requireBoolean (field (Some x) ''complete'')) (\<lambda>complete.
     rbind (requireBoolean (field (Some x) ''truncated'')) (\<lambda>truncated.
     rbind (decodeStrictBase64 b) (\<lambda>bs.
       ensure (int (length bs) = n \<and> ce_sha env bs = sha) StreamBindingMismatch (
       ensure (complete \<noteq> truncated) StreamCompletenessInvariant (
         Inr \<lparr>rs_base64 = b, rs_bytes = n, rs_sha = sha, rs_complete = complete, rs_truncated = truncated\<rparr>)))))))))"

definition terminal_states :: "utext list" where
  "terminal_states =
     [js ''known-exit'', js ''spawn-refused'', js ''containment-refused'', js ''resource-control-refused'',
      js ''deadline-killed'', js ''stdout-cap-killed'', js ''stderr-cap-killed'', js ''unknown'']"

definition evidence_keys :: "string list" where
  "evidence_keys =
     [''schema'', ''requestBytes'', ''requestSha256'', ''executableSha256Observed'', ''argv'', ''stdinBytes'', ''stdinSha256'',
      ''startedUtc'', ''finishedUtc'', ''processStartCount'', ''terminalState'', ''exitCodeKnown'', ''exitCode'',
      ''outputComplete'', ''standardOutput'', ''standardError'', ''retryPerformed'', ''cleanupPerformed'']"

definition evidence_argv :: "json option \<Rightarrow> utext list contracted" where
  "evidence_argv v =
     (case elements v of
        None \<Rightarrow> Inl InvalidEvidenceArgv
      | Some vs \<Rightarrow> ensure (vs \<noteq> [] \<and> length vs \<le> 64) InvalidEvidenceArgv (rmap (\<lambda>e. requireString (Some e)) vs))"

definition exit_code :: "json option \<Rightarrow> int option contracted" where
  "exit_code v = (if v = Some JNull then Inr None else rbind (requireInteger (-2147483648) 2147483647 v) (\<lambda>i. Inr (Some i)))"

definition check_outcome :: "process_evidence \<Rightarrow> process_evidence contracted" where
  "check_outcome e =
     ensure (pe_output_complete e = (rs_complete (pe_stdout e) \<and> rs_complete (pe_stderr e))) OutputCompletenessMismatch (
     rbind
       (if pe_terminal e = js ''known-exit''
        then ensure (pe_starts e = 1 \<and> pe_exit_known e \<and> pe_exit e \<noteq> None \<and> pe_output_complete e) KnownExitInvariant (Inr ())
        else ensure (\<not> pe_exit_known e \<and> pe_exit e = None) UnknownExitInvariant (Inr ())) (\<lambda>_.
     ensure (pe_terminal e \<in> {js ''spawn-refused'', js ''containment-refused''} \<longrightarrow> pe_starts e = 0) PreSpawnInvariant (
     ensure (pe_terminal e \<in> {js ''deadline-killed'', js ''stdout-cap-killed'', js ''stderr-cap-killed'', js ''unknown''} \<longrightarrow>
         pe_starts e = 1) PostSpawnInvariant (Inr e))))"

definition parseProcessEvidence :: "contract_env \<Rightarrow> json \<Rightarrow> process_evidence contracted" where
  "parseProcessEvidence env v =
     rbind (exact_record evidence_keys (Some v)) (\<lambda>x.
     rbind (requireLiteral (JStr evidence_schema) (field (Some x) ''schema'')) (\<lambda>_.
     rbind (requireInteger 1 request_bytes_max (field (Some x) ''requestBytes'')) (\<lambda>request_bytes.
     rbind (requireStringMatch sha_pattern (field (Some x) ''requestSha256'')) (\<lambda>request_sha.
     rbind (requireStringMatch sha_pattern (field (Some x) ''executableSha256Observed'')) (\<lambda>executable_sha.
     rbind (evidence_argv (field (Some x) ''argv'')) (\<lambda>argv.
     rbind (requireInteger 0 stdin_bytes_max (field (Some x) ''stdinBytes'')) (\<lambda>stdin_bytes.
     rbind (requireStringMatch sha_pattern (field (Some x) ''stdinSha256'')) (\<lambda>stdin_sha.
     rbind (requireTimestamp env (field (Some x) ''startedUtc'')) (\<lambda>started.
     rbind (requireTimestamp env (field (Some x) ''finishedUtc'')) (\<lambda>finished.
     let elapsed = the (ce_date env finished) - the (ce_date env started) in
     ensure (0 \<le> elapsed \<and> elapsed \<le> aggregate_deadline) InvalidEvidenceDuration (
     rbind (requireInteger 0 1 (field (Some x) ''processStartCount'')) (\<lambda>starts.
     rbind (requireString (field (Some x) ''terminalState'')) (\<lambda>terminal.
     ensure (terminal \<in> set terminal_states) InvalidTerminalState (
     rbind (requireBoolean (field (Some x) ''exitCodeKnown'')) (\<lambda>known.
     rbind (exit_code (field (Some x) ''exitCode'')) (\<lambda>code.
     rbind (requireBoolean (field (Some x) ''outputComplete'')) (\<lambda>complete.
     rbind (parseRawStreamEvidence env (field (Some x) ''standardOutput'')) (\<lambda>out.
     rbind (parseRawStreamEvidence env (field (Some x) ''standardError'')) (\<lambda>err.
     rbind (requireLiteral (JBool False) (field (Some x) ''retryPerformed'')) (\<lambda>_.
     rbind (requireLiteral (JBool False) (field (Some x) ''cleanupPerformed'')) (\<lambda>_.
       check_outcome \<lparr>pe_request_bytes = request_bytes, pe_request_sha = request_sha, pe_executable_sha = executable_sha,
         pe_argv = argv, pe_stdin_bytes = stdin_bytes, pe_stdin_sha = stdin_sha, pe_started = started, pe_finished = finished,
         pe_starts = starts, pe_terminal = terminal, pe_exit_known = known, pe_exit = code, pe_output_complete = complete,
         pe_stdout = out, pe_stderr = err\<rparr>)))))))))))))))))))))"

definition stream_json :: "raw_stream \<Rightarrow> json" where
  "stream_json s = JObj
     [(js ''base64'', JStr (rs_base64 s)), (js ''bytes'', JInt (rs_bytes s)), (js ''sha256'', JStr (rs_sha s)),
      (js ''complete'', JBool (rs_complete s)), (js ''truncated'', JBool (rs_truncated s))]"

definition evidence_json :: "process_evidence \<Rightarrow> json" where
  \<comment> \<open>The object \<open>parseProcessEvidence\<close> returns.\<close>
  "evidence_json e = JObj
     [(js ''schema'', JStr evidence_schema), (js ''requestBytes'', JInt (pe_request_bytes e)),
      (js ''requestSha256'', JStr (pe_request_sha e)), (js ''executableSha256Observed'', JStr (pe_executable_sha e)),
      (js ''argv'', JArr (map JStr (pe_argv e))), (js ''stdinBytes'', JInt (pe_stdin_bytes e)),
      (js ''stdinSha256'', JStr (pe_stdin_sha e)), (js ''startedUtc'', JStr (pe_started e)),
      (js ''finishedUtc'', JStr (pe_finished e)), (js ''processStartCount'', JInt (pe_starts e)),
      (js ''terminalState'', JStr (pe_terminal e)), (js ''exitCodeKnown'', JBool (pe_exit_known e)),
      (js ''exitCode'', case pe_exit e of None \<Rightarrow> JNull | Some i \<Rightarrow> JInt i),
      (js ''outputComplete'', JBool (pe_output_complete e)), (js ''standardOutput'', stream_json (pe_stdout e)),
      (js ''standardError'', stream_json (pe_stderr e)), (js ''retryPerformed'', JBool False),
      (js ''cleanupPerformed'', JBool False)]"

section \<open>Bytes\<close>

definition decodeStrictUtf8 :: "nat list \<Rightarrow> utext contracted" where
  "decodeStrictUtf8 bs = (case utf8_read bs of None \<Rightarrow> Inl InvalidUtf8 | Some t \<Rightarrow> Inr t)"

definition canonical_document ::
  "contract_env \<Rightarrow> int \<Rightarrow> (json \<Rightarrow> 'a contracted) \<Rightarrow> ('a \<Rightarrow> json) \<Rightarrow> nat list \<Rightarrow> 'a contracted" where
  \<comment> \<open>The steps both byte readers take.\<close>
  "canonical_document env limit reader to_json bs =
     ensure (bs \<noteq> [] \<and> int (length bs) \<le> limit) DocumentSize (
     rbind (decodeStrictUtf8 bs) (\<lambda>t.
     ensure (take 1 t \<noteq> [65279]) DocumentBom (
     (case ce_json env t of
        None \<Rightarrow> Inl DocumentJson
      | Some v \<Rightarrow>
          rbind (reader v) (\<lambda>r.
          rbind (canonicalize (to_json r)) (\<lambda>c. ensure (t = c) NotCanonical (Inr r)))))))"

definition parseCanonicalProcessEvidenceBytes :: "contract_env \<Rightarrow> nat list \<Rightarrow> process_evidence contracted" where
  "parseCanonicalProcessEvidenceBytes env =
     canonical_document env evidence_bytes_max (parseProcessEvidence env) evidence_json"

definition parseCanonicalProcessRequestBytes :: "contract_env \<Rightarrow> nat list \<Rightarrow> process_request contracted" where
  "parseCanonicalProcessRequestBytes env =
     canonical_document env request_bytes_max (parseProcessRequest env) request_json"

end
