(* ===== verification/ProcessProps.thy ===== *)
theory ProcessProps
  imports ProcessContract
begin

text \<open>
  Properties of the process contract. The readers accept a document exactly when it is, up to the
  order of properties, the document of the record they return and that record passes its checks;
  the canonical bytes are the only ones the byte readers accept.
\<close>

section \<open>Objects up to the order of properties\<close>

lemma alist_eqI:
  "map fst xs = map fst ys \<Longrightarrow> distinct (map fst ys) \<Longrightarrow> (\<And>k. k \<in> set (map fst ys) \<Longrightarrow> map_of xs k = map_of ys k) \<Longrightarrow> xs = ys"
proof (induction xs arbitrary: ys)
  case (Cons x xs)
  then obtain y zs where ys: "ys = y # zs" "fst x = fst y" "map fst xs = map fst zs" by (cases ys) auto
  have "map_of xs k = map_of zs k" if "k \<in> set (map fst zs)" for k
  proof -
    have "k \<noteq> fst y" using that Cons.prems(2) ys by (metis distinct.simps(2) list.simps(9))
    then show ?thesis using Cons.prems(3) [of k] that ys by (simp split: prod.splits)
  qed
  then have "xs = zs" using Cons.IH [of zs] Cons.prems(2) ys by simp
  moreover have "x = y" using Cons.prems(3) [of "fst y"] ys by (simp add: prod_eq_iff)
  ultimately show ?case using ys by simp
qed simp

lemma map_of_sort_key: "map_of (sort_key fst (xs :: ('k::linorder \<times> 'v) list)) k = map_of xs k"
proof -
  have first: "map_of ys k = (case filter (\<lambda>e. fst e = k) ys of [] \<Rightarrow> None | e # _ \<Rightarrow> Some (snd e))"
    for ys :: "('k \<times> 'v) list"
    by (induction ys) auto
  show ?thesis unfolding first [of "sort_key fst xs"] first [of xs] by (simp add: sort_key_stable)
qed

lemma insort_fst: "map fst (insort_key fst x ys) = insort (fst x) (map fst ys)"
  by (induction ys) simp_all

lemma sort_fst: "map fst (sort_key fst xs) = sort (map fst xs)"
  by (induction xs) (simp_all add: insort_fst)

lemma entries_norm: "entries (norm x) = map (\<lambda>(k, v). (k, norm v)) (sort_key fst (entries x))"
  by (cases x) (simp_all add: norm_JObj)

lemma map_of_norm: "map_of (entries (norm x)) k = map_option norm (map_of (entries x) k)"
proof -
  have "map_of (map (\<lambda>(k, v). (k, norm v)) ys) k = map_option norm (map_of ys k)" for ys :: "(utext \<times> json) list"
    by (induction ys) auto
  then show ?thesis by (simp add: entries_norm map_of_sort_key)
qed

lemma field_entries: "field (Some x) k = map_of (entries x) (js k)"
  by (cases x) (simp_all del: js_simps)

lemma field_norm: "field (Some (norm x)) k = map_option norm (field (Some x) k)"
  by (simp add: field_entries map_of_norm del: js_simps)

lemma norm_objI:
  assumes "sort (map fst kvs) = sort (map fst lvs)" "distinct (map fst lvs)"
    and "\<And>k. k \<in> set (map fst lvs) \<Longrightarrow> map_option norm (map_of kvs k) = map_option norm (map_of lvs k)"
  shows "norm (JObj kvs) = norm (JObj lvs)"
proof -
  have fst_norm: "map fst (entries (norm (JObj ws))) = sort (map fst ws)" for ws
    by (simp add: entries_norm comp_def case_prod_beta sort_fst)
  have "entries (norm (JObj kvs)) = entries (norm (JObj lvs))"
  proof (rule alist_eqI)
    show "map fst (entries (norm (JObj kvs))) = map fst (entries (norm (JObj lvs)))" unfolding fst_norm by (rule assms(1))
    show "distinct (map fst (entries (norm (JObj lvs))))" unfolding fst_norm using assms(2) by simp
    fix k assume "k \<in> set (map fst (entries (norm (JObj lvs))))"
    then have "k \<in> set (map fst lvs)" unfolding fst_norm by simp
    then show "map_of (entries (norm (JObj kvs))) k = map_of (entries (norm (JObj lvs))) k"
      unfolding map_of_norm using assms(3) by simp
  qed
  then show ?thesis by (simp add: norm_JObj)
qed

lemma norm_obj_iff:
  assumes "distinct (map fst lvs)"
  shows "norm x = norm (JObj lvs) \<longleftrightarrow>
    map_option sort (keys_of x) = Some (sort (map fst lvs)) \<and>
    list_all (\<lambda>(k, v). map_option norm (map_of (entries x) k) = Some (norm v)) lvs"
    (is "?l \<longleftrightarrow> ?r")
proof
  assume ?l
  then obtain kvs where x: "x = JObj kvs" by (cases x) (simp_all add: norm_JObj)
  have "map fst (entries (norm x)) = map fst (entries (norm (JObj lvs)))" using \<open>?l\<close> by simp
  then have "sort (map fst kvs) = sort (map fst lvs)" by (simp add: x entries_norm comp_def case_prod_beta sort_fst)
  moreover have "map_option norm (map_of (entries x) k) = Some (norm v)" if "(k, v) \<in> set lvs" for k v
    using map_of_norm [of x k] map_of_norm [of "JObj lvs" k] \<open>?l\<close> that assms by simp
  ultimately show ?r by (auto simp: x list_all_iff)
next
  assume r: ?r
  then obtain kvs where x: "x = JObj kvs" by (cases x) simp_all
  have "map_option norm (map_of kvs k) = map_option norm (map_of lvs k)" if k: "k \<in> set (map fst lvs)" for k
  proof -
    obtain v where "(k, v) \<in> set lvs" using k by auto
    then show ?thesis using r assms by (auto simp: x list_all_iff)
  qed
  then show ?l using r assms unfolding x by (intro norm_objI) auto
qed

section \<open>The field checks\<close>

lemma norm_leaf [simp]:
  "norm x = JStr s \<longleftrightarrow> x = JStr s" "norm x = JBool b \<longleftrightarrow> x = JBool b" "norm x = JInt i \<longleftrightarrow> x = JInt i"
  "norm x = JNull \<longleftrightarrow> x = JNull"
  by (cases x; simp add: norm_JObj)+

lemma norm_atoms: "norm (JStr s) = JStr s" "norm (JBool b) = JBool b" "norm (JInt i) = JInt i" "norm JNull = JNull"
  by simp_all

lemma map_norm_leaf:
  "map_option norm v = Some (JStr s) \<longleftrightarrow> v = Some (JStr s)" "map_option norm v = Some (JBool b) \<longleftrightarrow> v = Some (JBool b)"
  "map_option norm v = Some JNull \<longleftrightarrow> v = Some JNull"
  by (cases v; simp)+

lemma requireString_iff: "requireString v = Inr s \<longleftrightarrow> v = Some (JStr s)"
  by (cases v rule: requireString.cases) auto

lemma requireBoolean_iff: "requireBoolean v = Inr s \<longleftrightarrow> v = Some (JBool s)"
  by (cases v rule: requireBoolean.cases) auto

lemma requireStringMatch_iff: "requireStringMatch P v = Inr s \<longleftrightarrow> v = Some (JStr s) \<and> P s"
  by (auto simp: requireStringMatch_def rbind_eq_Inr ensure_eq_Inr requireString_iff)

lemma requireLiteral_iff: "requireLiteral x v = Inr u \<longleftrightarrow> v = Some x"
  by (auto simp: requireLiteral_def ensure_eq_Inr)

lemma requireInteger_iff: "requireInteger lo hi v = Inr i \<longleftrightarrow> v = Some (JInt i) \<and> \<bar>i\<bar> \<le> max_safe \<and> lo \<le> i \<and> i \<le> hi"
  by (auto simp: requireInteger_def ensure_eq_Inr split: option.splits json.splits)

lemma requireExactInteger_iff: "requireExactInteger n v = Inr i \<longleftrightarrow> v = Some (JInt n) \<and> i = n \<and> \<bar>n\<bar> \<le> max_safe"
  by (auto simp: requireExactInteger_def requireInteger_iff)

definition canonical_path :: "utext \<Rightarrow> bool" where
  "canonical_path s \<longleftrightarrow> s \<noteq> [] \<and> length s \<le> 32767 \<and> drive_path s \<and> 47 \<notin> set s \<and> (\<forall>c \<in> set s. 31 < c) \<and> normal_path s \<and>
     win_absolute s"

lemma requireCanonicalWindowsPath_iff: "requireCanonicalWindowsPath v = Inr s \<longleftrightarrow> v = Some (JStr s) \<and> canonical_path s"
  by (auto simp: requireCanonicalWindowsPath_def canonical_path_def rbind_eq_Inr ensure_eq_Inr requireString_iff)

lemma requireTimestamp_iff:
  "requireTimestamp env v = Inr s \<longleftrightarrow> v = Some (JStr s) \<and> timestamp_pattern s \<and> ce_date env s \<noteq> None"
  by (auto simp: requireTimestamp_def rbind_eq_Inr ensure_eq_Inr requireString_iff)

lemma exact_record_iff:
  "exact_record ks v = Inr x \<longleftrightarrow> v = Some x \<and> map_option sort (keys_of x) = Some (sort (map js ks))"
proof (cases v)
  case (Some y)
  then show ?thesis
    by (cases y) (auto simp: exact_record_def assertExactKeys_def rbind_eq_Inr ensure_eq_Inr simp del: js_simps)
qed (simp add: exact_record_def)

lemmas field_iffs = rbind_eq_Inr ensure_eq_Inr requireString_iff requireBoolean_iff requireStringMatch_iff requireLiteral_iff
  requireInteger_iff requireExactInteger_iff requireCanonicalWindowsPath_iff requireTimestamp_iff exact_record_iff

lemma rmap_iff:
  assumes "\<And>x y. f x = Inr y \<longleftrightarrow> x = g y \<and> P y"
  shows "rmap f xs = Inr ys \<longleftrightarrow> xs = map g ys \<and> (\<forall>y \<in> set ys. P y)"
proof (induction xs arbitrary: ys)
  case (Cons x xs)
  then show ?case by (cases ys) (auto simp: rbind_eq_Inr assms)
qed auto

lemma elements_iff: "elements v = Some vs \<longleftrightarrow> v = Some (JArr vs)"
  by (auto simp: elements_def split: option.splits json.splits)

lemma norm_texts: "norm x = norm (JArr (map JStr ss)) \<longleftrightarrow> x = JArr (map JStr ss)"
proof -
  have "map norm vs = map JStr ss \<longleftrightarrow> vs = map JStr ss" for vs
    by (induction vs arbitrary: ss) (auto simp: map_eq_Cons_conv Cons_eq_map_conv)
  then show ?thesis by (cases x) (simp_all add: norm_JObj comp_def)
qed

lemma map_option_norm: "map_option norm v = Some (norm x) \<longleftrightarrow> (\<exists>y. v = Some y \<and> norm y = norm x)"
  by (cases v) auto

lemmas document_simps = field_iffs elements_iff field_entries [symmetric] norm_obj_iff norm_texts map_option_norm js_inj

section \<open>The sections of a request\<close>

definition executable_json :: "utext \<Rightarrow> utext \<Rightarrow> json" where
  "executable_json path sha = JObj [(js ''path'', JStr path), (js ''sha256'', JStr sha)]"

definition stdin_json :: "utext \<Rightarrow> int \<Rightarrow> utext \<Rightarrow> json" where
  "stdin_json b n sha =
     JObj [(js ''encoding'', JStr (js ''base64'')), (js ''base64'', JStr b), (js ''bytes'', JInt n), (js ''sha256'', JStr sha)]"

definition environment_json :: "utext list \<Rightarrow> (utext \<times> utext) list \<Rightarrow> json" where
  "environment_json names pairs =
     JObj [(js ''inherit'', JBool False), (js ''allowlist'', JArr (map JStr names)), (js ''values'', values_json pairs)]"

definition containment_json :: "utext \<Rightarrow> json" where
  "containment_json root =
     JObj [(js ''consumer'', JStr process_consumer), (js ''operationRoot'', JStr root), (js ''requireCanonicalPaths'', JBool True)]"

definition marker_json :: "utext \<Rightarrow> json" where
  "marker_json path = JObj [(js ''path'', JStr path), (js ''createNew'', JBool True)]"

definition target_json :: "utext \<Rightarrow> json" where
  "target_json path =
     JObj [(js ''path'', JStr path), (js ''schema'', JStr evidence_schema), (js ''createNew'', JBool True)]"

lemma parse_executable_iff:
  "parse_executable v = Inr (p, s) \<longleftrightarrow>
     canonical_path p \<and> sha_pattern s \<and> map_option norm v = Some (norm (executable_json p s))"
  by (cases v) (auto simp: parse_executable_def executable_json_def document_simps simp del: js_simps field.simps sort_key_simps)

definition clean_text :: "utext \<Rightarrow> bool" where
  "clean_text s \<longleftrightarrow> utf8_size s \<le> 4096 \<and> (\<forall>c \<in> set s. c \<noteq> 0 \<and> c \<noteq> 10 \<and> c \<noteq> 13)"

lemma clean_text_iff: "utf8_size s \<le> 4096 \<and> \<not> list_ex unsafe_char s \<longleftrightarrow> clean_text s"
  by (auto simp: clean_text_def unsafe_char_def list_ex_iff)

lemma parse_argv_iff:
  "parse_argv v = Inr ss \<longleftrightarrow>
     ss \<noteq> [] \<and> length ss \<le> 64 \<and> (\<forall>s \<in> set ss. clean_text s) \<and> map_option norm v = Some (norm (JArr (map JStr ss)))"
proof -
  have element: "argv_element x = Inr s \<longleftrightarrow> x = JStr s \<and> clean_text s" for x s
    unfolding argv_element_def clean_text_iff by (auto simp: field_iffs)
  show ?thesis
    by (auto simp: parse_argv_def document_simps rmap_iff [OF element] elements_def split: option.splits json.splits
      simp del: norm.simps)
qed

lemma parse_stdin_iff:
  "parse_stdin env v = Inr (b, n, sha) \<longleftrightarrow>
     0 \<le> n \<and> n \<le> stdin_bytes_max \<and> sha_pattern sha \<and>
     (\<exists>bs. decodeStrictBase64 b = Inr bs \<and> int (length bs) = n \<and> ce_sha env bs = sha) \<and>
     map_option norm v = Some (norm (stdin_json b n sha))"
  by (cases v) (auto simp: parse_stdin_def stdin_json_def document_simps max_safe_def stdin_bytes_max_def
    simp del: js_simps field.simps sort_key_simps)

lemma parse_limits_iff:
  "parse_limits v = Inr d \<longleftrightarrow> 1000 \<le> d \<and> d \<le> 120000 \<and> map_option norm v = Some (norm (limits_json d))"
  by (cases v) (auto simp: parse_limits_def limits_json_def limit_keys_def document_simps max_safe_def request_bytes_max_def
    stdin_bytes_max_def stream_bytes_max_def evidence_bytes_max_def aggregate_deadline_def memory_bytes_max_def
    simp del: js_simps field.simps sort_key_simps)

lemma parse_containment_iff:
  "parse_containment v = Inr root \<longleftrightarrow> canonical_path root \<and> map_option norm v = Some (norm (containment_json root))"
  by (cases v) (auto simp: parse_containment_def containment_json_def document_simps simp del: js_simps field.simps sort_key_simps)

lemma parse_marker_iff:
  "parse_marker v = Inr p \<longleftrightarrow> canonical_path p \<and> map_option norm v = Some (norm (marker_json p))"
  by (cases v) (auto simp: parse_marker_def marker_json_def document_simps simp del: js_simps field.simps sort_key_simps)

lemma parse_target_iff:
  "parse_evidence_target v = Inr p \<longleftrightarrow> canonical_path p \<and> map_option norm v = Some (norm (target_json p))"
  by (cases v) (auto simp: parse_evidence_target_def target_json_def document_simps simp del: js_simps field.simps sort_key_simps)

section \<open>The environment\<close>

definition environment_ok :: "utext \<Rightarrow> utext list \<Rightarrow> (utext \<times> utext) list \<Rightarrow> bool" where
  \<comment> \<open>Harmless names with safe vals, or the one pair the direct WSL target may get.\<close>
  "environment_ok executable names pairs \<longleftrightarrow>
     distinct names \<and> sorted names \<and> map fst pairs = names \<and> (\<forall>(n, s) \<in> set pairs. clean_text s) \<and>
     ((\<forall>n \<in> set names. n \<in> set safe_names \<and> \<not> sensitive_name n) \<or>
      executable = wsl_path \<and> pairs = map (\<lambda>n. (n, windows_dir)) windows_names)"

lemma names_apart: "n \<in> set windows_names \<Longrightarrow> n \<notin> set safe_names"
  by (auto simp: windows_names_def safe_names_def)

lemma windows_dir_clean: "clean_text windows_dir"
  by (simp add: clean_text_def windows_dir_def utf8_size_def is_high_def js_def)

lemma allowed_names_iff:
  "rmap (allowed_name win) raw = Inr names \<longleftrightarrow>
     raw = map JStr names \<and> (\<forall>n \<in> set names. win \<or> n \<in> set safe_names \<and> \<not> sensitive_name n)"
  by (rule rmap_iff) (auto simp: allowed_name_def field_iffs)

lemma environment_values_iff:
  "rmap (environment_value vals) names = Inr pairs \<longleftrightarrow>
     names = map fst pairs \<and> (\<forall>(n, s) \<in> set pairs. map_of (entries vals) n = Some (JStr s) \<and> clean_text s)"
proof -
  have one: "environment_value vals n = Inr y \<longleftrightarrow>
      n = fst y \<and> (map_of (entries vals) (fst y) = Some (JStr (snd y)) \<and> clean_text (snd y))" for n y
    unfolding environment_value_def clean_text_iff by (cases y) (auto simp: field_iffs)
  show ?thesis unfolding rmap_iff [OF one] by auto
qed

lemma values_norm_iff:
  assumes "distinct (map fst pairs)"
  shows "norm x = norm (values_json pairs) \<longleftrightarrow>
    map_option sort (keys_of x) = Some (sort (map fst pairs)) \<and> (\<forall>(n, s) \<in> set pairs. map_of (entries x) n = Some (JStr s))"
  unfolding values_json_def using assms
  by (subst norm_obj_iff) (auto simp: comp_def case_prod_beta list_all_iff map_norm_leaf)

lemma windows_environment_iff:
  assumes "map_option sort (keys_of vals) = Some (sort names)"
  shows "windows_environment (map JStr names) vals \<longleftrightarrow> (\<exists>n \<in> set windows_names. n \<in> set names)"
proof -
  obtain kvs where v: "vals = JObj kvs" using assms by (cases "vals") simp_all
  have "set (sort (map fst kvs)) = set (sort names)" using assms v by simp
  then have "set (map fst kvs) = set names" by (simp del: set_map)
  then show ?thesis by (auto simp: windows_environment_def list_ex_iff v map_of_eq_None_iff)
qed

lemma wsl_binding_iff:
  assumes keys: "map_option sort (keys_of vals) = Some (sort (map fst pairs))" and dist: "distinct (map fst pairs)"
    and pairs: "\<forall>(n, s) \<in> set pairs. map_of (entries vals) n = Some (JStr s)"
  shows "wsl_binding executable (map JStr (map fst pairs)) vals \<longleftrightarrow>
    executable = wsl_path \<and> pairs = map (\<lambda>n. (n, windows_dir)) windows_names"
proof -
  obtain kvs where v: "vals = JObj kvs" using keys by (cases "vals") simp_all
  have "length (sort (map fst kvs)) = length (sort (map fst pairs))" using keys v by simp
  then have len: "length kvs = length pairs" by simp
  have names: "map JStr (map fst pairs) = map JStr windows_names \<longleftrightarrow> map fst pairs = windows_names"
    by (rule inj_map_eq_map) (simp add: inj_def)
  have vals: "(\<forall>n \<in> set windows_names. map_of kvs n = Some (JStr windows_dir)) \<longleftrightarrow> (\<forall>s \<in> set (map snd pairs). s = windows_dir)"
    if "map fst pairs = windows_names"
    using pairs unfolding that [symmetric] v by fastforce
  have shape: "map fst pairs = windows_names \<and> (\<forall>s \<in> set (map snd pairs). s = windows_dir) \<longleftrightarrow>
      pairs = map (\<lambda>n. (n, windows_dir)) windows_names"
  proof
    assume l: "map fst pairs = windows_names \<and> (\<forall>s \<in> set (map snd pairs). s = windows_dir)"
    then have "map (\<lambda>n. (n, windows_dir)) (map fst pairs) = map (\<lambda>p. p) pairs"
      unfolding map_map by (intro map_cong) (auto simp: prod_eq_iff)
    then show "pairs = map (\<lambda>n. (n, windows_dir)) windows_names" using l by simp
  qed (simp add: comp_def)
  have "length kvs = length windows_names" if "map fst pairs = windows_names"
    using len arg_cong [OF that, of length] by simp
  then show ?thesis unfolding wsl_binding_def names list_all_iff
    using vals shape v by (metis entries.simps(1))
qed

lemma environment_body_iff:
  "(let win = windows_environment raw vals in
      ensure (win \<longrightarrow> wsl_binding executable raw vals) WslEnvironmentBindingRefused (
      rbind (rmap (allowed_name win) raw) (\<lambda>allowlist.
      ensure (distinct allowlist \<and> sort allowlist = allowlist) NonCanonicalEnvironmentAllowlist (
      rbind (assertExactKeys vals allowlist) (\<lambda>_.
      rbind (rmap (environment_value vals) allowlist) (\<lambda>pairs. Inr (allowlist, pairs))))))) = Inr (names, pairs) \<longleftrightarrow>
   environment_ok executable names pairs \<and> raw = map JStr names \<and> norm vals = norm (values_json pairs)"
    (is "?l \<longleftrightarrow> ?r")
proof -
  have sorted: "sort xs = xs \<longleftrightarrow> sorted xs" for xs :: "utext list" using sorted_sort sorted_sort_id by metis
  have l: "?l \<longleftrightarrow>
      (windows_environment raw vals \<longrightarrow> wsl_binding executable raw vals) \<and> raw = map JStr names \<and>
      (\<forall>n \<in> set names. windows_environment raw vals \<or> n \<in> set safe_names \<and> \<not> sensitive_name n) \<and>
      distinct names \<and> sorted names \<and> map_option sort (keys_of vals) = Some (sort names) \<and> names = map fst pairs \<and>
      (\<forall>(n, s) \<in> set pairs. map_of (entries vals) n = Some (JStr s) \<and> clean_text s)"
    by (auto simp: Let_def rbind_eq_Inr ensure_eq_Inr allowed_names_iff environment_values_iff assertExactKeys_def sorted)
      fastforce+
  show ?thesis
  proof (cases "raw = map JStr names \<and> distinct names \<and> sorted names \<and> names = map fst pairs \<and>
      map_option sort (keys_of vals) = Some (sort names) \<and> (\<forall>(n, s) \<in> set pairs. map_of (entries vals) n = Some (JStr s))")
    case True
    have win: "windows_environment raw vals \<longleftrightarrow> (\<exists>n \<in> set windows_names. n \<in> set names)"
      using windows_environment_iff [of "vals" names] True by blast
    have wsl: "wsl_binding executable raw vals \<longleftrightarrow>
        executable = wsl_path \<and> pairs = map (\<lambda>n. (n, windows_dir)) windows_names"
      using wsl_binding_iff [of "vals" pairs executable] True by blast
    have trusted: "\<exists>n \<in> set windows_names. n \<in> set names" if "pairs = map (\<lambda>n. (n, windows_dir)) windows_names"
    proof -
      have "names = map fst pairs" using True by blast
      then show ?thesis unfolding that
        by (intro bexI [of _ "js ''SystemRoot''"]) (simp_all add: windows_names_def)
    qed
    have n: "norm vals = norm (values_json pairs)" using values_norm_iff [of pairs "vals"] True by blast
    have t: "(\<forall>(n, s) \<in> set pairs. map_of (entries vals) n = Some (JStr s) \<and> clean_text s) \<longleftrightarrow> (\<forall>(n, s) \<in> set pairs. clean_text s)"
      using True by fast
    have apart: "\<not> (\<exists>n \<in> set windows_names. n \<in> set names)" if "\<forall>n \<in> set names. n \<in> set safe_names \<and> \<not> sensitive_name n"
      using that names_apart by blast
    have names: "map fst pairs = names" "names = map fst pairs" "raw = map JStr names" "distinct names" "sorted names"
      "map_option sort (keys_of vals) = Some (sort names)" using True by blast+
    have split: "(\<forall>n \<in> set names. W \<or> Q n) \<longleftrightarrow> W \<or> (\<forall>n \<in> set names. Q n)" for W Q by blast
    have rule1: "pairs = map (\<lambda>n. (n, windows_dir)) windows_names \<longrightarrow> (\<exists>n \<in> set windows_names. n \<in> set names)"
      using trusted by iprover
    have rule2: "(\<forall>n \<in> set names. n \<in> set safe_names \<and> \<not> sensitive_name n) \<longrightarrow> \<not> (\<exists>n \<in> set windows_names. n \<in> set names)"
      using apart by iprover
    show ?thesis unfolding l unfolding win wsl t split environment_ok_def
      using n names rule1 rule2 by argo
  next
    case False
    have "\<not> ?r" using False values_norm_iff [of pairs "vals"] unfolding environment_ok_def by blast
    moreover have "\<not> ?l" unfolding l using False by blast
    ultimately show ?thesis by (simp only: simp_thms)
  qed
qed

lemma listed_record_iff:
  "(case elements w of None \<Rightarrow> Inl e | Some raw \<Rightarrow> rbind (asRecord u) (F raw)) = Inr y \<longleftrightarrow>
     (\<exists>raw x. w = Some (JArr raw) \<and> u = Some x \<and> (\<exists>kvs. x = JObj kvs) \<and> F raw x = Inr y)"
  by (cases u rule: asRecord.cases) (auto simp: elements_def rbind_eq_Inr split: option.splits json.splits)

lemma parse_environment_iff:
  "parse_environment executable v = Inr (names, pairs) \<longleftrightarrow>
     environment_ok executable names pairs \<and> map_option norm v = Some (norm (environment_json names pairs))"
proof (cases v)
  case (Some x)
  let ?vals = "field (Some x) ''values''" and ?raw = "field (Some x) ''allowlist''"
  have body: "parse_environment executable (Some x) = Inr (names, pairs) \<longleftrightarrow>
      map_option sort (keys_of x) = Some (sort (map js [''inherit'', ''allowlist'', ''values''])) \<and>
      field (Some x) ''inherit'' = Some (JBool False) \<and>
      (\<exists>raw vals. ?raw = Some (JArr raw) \<and> ?vals = Some vals \<and> (\<exists>kvs. vals = JObj kvs) \<and>
        environment_ok executable names pairs \<and> raw = map JStr names \<and> norm vals = norm (values_json pairs))"
    unfolding parse_environment_def
    by (simp only: listed_record_iff environment_body_iff field_iffs ex_simps option.inject simp_thms) auto
  have obj: "norm w = norm (values_json pairs) \<Longrightarrow> \<exists>kvs. w = JObj kvs" for w
    by (cases w) (simp_all add: values_json_def norm_JObj)
  show ?thesis unfolding Some body
    by (auto simp: environment_json_def document_simps norm_atoms obj simp del: js_simps field.simps sort_key_simps norm.simps)
qed (simp add: parse_environment_def exact_record_def)

section \<open>Requests\<close>

definition request_ok :: "contract_env \<Rightarrow> process_request \<Rightarrow> bool" where
  "request_ok env r \<longleftrightarrow>
     uuid_v4 (rq_operation r) \<and> canonical_path (rq_executable r) \<and> sha_pattern (rq_executable_sha r) \<and>
     rq_argv r \<noteq> [] \<and> length (rq_argv r) \<le> 64 \<and> (\<forall>s \<in> set (rq_argv r). clean_text s) \<and>
     0 \<le> rq_stdin_bytes r \<and> rq_stdin_bytes r \<le> stdin_bytes_max \<and> sha_pattern (rq_stdin_sha r) \<and>
     (\<exists>bs. decodeStrictBase64 (rq_stdin r) = Inr bs \<and> int (length bs) = rq_stdin_bytes r \<and> ce_sha env bs = rq_stdin_sha r) \<and>
     environment_ok (rq_executable r) (rq_allowlist r) (rq_values r) \<and>
     1000 \<le> rq_deadline r \<and> rq_deadline r \<le> 120000 \<and>
     canonical_path (rq_root r) \<and> canonical_path (rq_marker r) \<and> canonical_path (rq_evidence r) \<and>
     check_paths env (rq_executable r) (rq_root r) (rq_marker r) (rq_evidence r) = Inr ()"

lemma parse_request_iff:
  "parseProcessRequest env v = Inr r \<longleftrightarrow> request_ok env r \<and> norm v = norm (request_json r)"
proof -
  have json: "norm v = norm (request_json r) \<longleftrightarrow>
      map_option sort (keys_of v) = Some (sort (map js request_keys)) \<and>
      field (Some v) ''schema'' = Some (JStr request_schema) \<and>
      field (Some v) ''operationId'' = Some (JStr (rq_operation r)) \<and>
      field (Some v) ''oneShot'' = Some (JBool True) \<and> field (Some v) ''retryAuthorized'' = Some (JBool False) \<and>
      map_option norm (field (Some v) ''executable'') = Some (norm (executable_json (rq_executable r) (rq_executable_sha r))) \<and>
      map_option norm (field (Some v) ''argv'') = Some (norm (JArr (map JStr (rq_argv r)))) \<and>
      map_option norm (field (Some v) ''stdin'') =
        Some (norm (stdin_json (rq_stdin r) (rq_stdin_bytes r) (rq_stdin_sha r))) \<and>
      map_option norm (field (Some v) ''environment'') = Some (norm (environment_json (rq_allowlist r) (rq_values r))) \<and>
      map_option norm (field (Some v) ''limits'') = Some (norm (limits_json (rq_deadline r))) \<and>
      map_option norm (field (Some v) ''containment'') = Some (norm (containment_json (rq_root r))) \<and>
      map_option norm (field (Some v) ''attemptMarker'') = Some (norm (marker_json (rq_marker r))) \<and>
      map_option norm (field (Some v) ''evidence'') = Some (norm (target_json (rq_evidence r)))"
    unfolding request_json_def executable_json_def [symmetric] stdin_json_def [symmetric] environment_json_def [symmetric]
      containment_json_def [symmetric] marker_json_def [symmetric] target_json_def [symmetric]
    by (subst norm_obj_iff)
      (simp_all add: field_entries [symmetric] map_norm_leaf norm_atoms js_inj request_keys_def
        del: js_simps field.simps sort_key_simps norm.simps)
  show ?thesis unfolding json
    by (cases r) (auto simp: parseProcessRequest_def request_ok_def field_iffs parse_executable_iff parse_argv_iff parse_stdin_iff
      parse_environment_iff parse_limits_iff parse_containment_iff parse_marker_iff parse_target_iff split_paired_Ex
      simp del: js_simps field.simps sort_key_simps norm.simps split: prod.splits)
qed

end
