(* ===== verification/ProcessBytes.thy ===== *)
theory ProcessBytes
  imports ProcessProps
begin

text \<open>
  The bytes of the process contract: canonical JSON is well-formed text that determines its
  document, and the byte readers accept a canonical encoding and nothing else.
\<close>

section \<open>Proper text\<close>

definition proper :: "utext \<Rightarrow> bool" where
  "proper s \<longleftrightarrow> well_formed s \<and> units s"

lemma code_points_append: "well_formed s \<Longrightarrow> code_points (s @ t) = code_points s @ code_points t"
proof (induction s rule: code_points.induct)
  case (2 a)
  then have "\<not> is_high a" by (simp add: well_formed_def)
  then show ?case by (cases t) simp_all
next
  case (3 a b r)
  show ?case
  proof (cases "is_high a \<and> is_low b")
    case True
    then show ?thesis using 3 by (simp add: well_formed_def)
  next
    case False
    then show ?thesis using 3 by (auto simp: well_formed_def)
  qed
qed simp

lemma proper_append [intro]: "proper s \<Longrightarrow> proper t \<Longrightarrow> proper (s @ t)"
  by (auto simp: proper_def code_points_append units_def, auto simp: well_formed_def code_points_append)

lemma proper_ascii: "\<forall>c \<in> set s. c < 128 \<Longrightarrow> proper s"
proof (induction s rule: code_points.induct)
  case (3 a b r)
  then have "\<not> is_high a" "\<not> is_low a" by (auto simp: is_high_def is_low_def)
  then show ?case using 3 by (auto simp: proper_def well_formed_def units_def)
qed (auto simp: proper_def well_formed_def units_def is_high_def is_low_def)

lemma proper_Cons: "c < 128 \<Longrightarrow> proper s \<Longrightarrow> proper (c # s)"
  using proper_append [of "[c]" s] proper_ascii [of "[c]"] by simp

lemma hexd_ascii: "n < 16 \<Longrightarrow> hexd n < 128"
  by (simp add: hexd_def)

lemma hex4_ascii: "c < 65536 \<Longrightarrow> d \<in> set (hex4 c) \<Longrightarrow> d < 128"
  by (auto simp: hex4_def intro!: hexd_ascii)

lemma proper_esc: "c < 65536 \<Longrightarrow> proper (esc_unit c)"
proof -
  assume c: "c < 65536"
  show ?thesis
  proof (cases "esc_unit c = [c] \<and> \<not> (55296 \<le> c \<and> c \<le> 57343)")
    case True
    then show ?thesis using c by (auto simp: proper_def well_formed_def units_def is_high_def is_low_def)
  next
    case False
    then have "\<forall>d \<in> set (esc_unit c). d < 128"
      unfolding esc_unit_def using hex4_ascii [OF c] by (auto split: if_splits)
    then show ?thesis by (rule proper_ascii)
  qed
qed

lemma proper_units: "units s \<Longrightarrow> proper (json_units s)"
proof (induction s rule: json_units.induct)
  case (3 a b r)
  show ?case
  proof (cases "is_high a \<and> is_low b")
    case True
    then have "proper [a, b]" using 3 by (auto simp: proper_def well_formed_def units_def)
    then have "proper ([a, b] @ json_units r)" using 3 True by (intro proper_append) (auto simp: units_def)
    then show ?thesis using True by simp
  next
    case False
    then show ?thesis using 3 by (auto simp: units_def intro!: proper_append proper_esc)
  qed
qed (auto simp: units_def intro: proper_esc proper_ascii)

lemma proper_string: "units s \<Longrightarrow> proper (json_string s)"
  unfolding json_string_def by (intro proper_Cons proper_append proper_units proper_ascii) auto

lemma proper_join: "\<forall>p \<in> set ps. proper p \<Longrightarrow> proper (join ps)"
  by (induction ps rule: join.induct) (simp_all add: proper_Cons proper_append proper_ascii)

lemma proper_int: "proper (show_int i)"
  by (intro proper_ascii) (auto dest!: show_int_chars simp: num_char_def)

section \<open>Canonical text\<close>

lemma rmap_Inr_iff: "rmap f xs = Inr ys \<longleftrightarrow> map f xs = map Inr ys"
proof (induction xs arbitrary: ys)
  case (Cons x xs)
  then show ?case by (cases ys) (auto simp: rbind_eq_Inr)
qed auto

fun safe_numbers :: "json \<Rightarrow> bool" where
  \<comment> \<open>Every number is a safe integer.\<close>
  "safe_numbers (JInt i) = (\<bar>i\<bar> \<le> max_safe)"
| "safe_numbers (JDec t) = False"
| "safe_numbers JNonFinite = False"
| "safe_numbers (JArr vs) = (\<forall>v \<in> set vs. safe_numbers v)"
| "safe_numbers (JObj kvs) = (\<forall>(k, v) \<in> set kvs. safe_numbers v)"
| "safe_numbers v = True"

fun typed :: "json \<Rightarrow> bool" where
  \<comment> \<open>Every string consists of UTF-16 code units.\<close>
  "typed (JStr s) = units s"
| "typed (JArr vs) = (\<forall>v \<in> set vs. typed v)"
| "typed (JObj kvs) = (\<forall>(k, v) \<in> set kvs. units k \<and> typed v)"
| "typed v = True"

lemma canonicalize_iff: "canonicalize v = Inr t \<longleftrightarrow> safe_numbers v \<and> canonicalJson v = Some t"
proof (induction v arbitrary: t)
  case (JArr vs)
  have "map canonicalize vs = map Inr ps \<longleftrightarrow> (\<forall>v \<in> set vs. safe_numbers v) \<and> map canonicalJson vs = map Some ps" for ps
    using JArr by (induction vs arbitrary: ps) (auto simp: map_eq_Cons_conv Cons_eq_map_conv)
  then show ?case by (auto simp: rbind_eq_Inr rmap_Inr_iff opt_all_Some_iff)
next
  case (JObj kvs)
  define item where "item = (\<lambda>(k :: utext, po :: utext contracted). rbind po (\<lambda>p. Inr (json_string k @ 58 # p)))"
  have one: "item (k, canonicalize v) = Inr q \<longleftrightarrow> safe_numbers v \<and> pr_entry (k, v) = Some q" if "(k, v) \<in> set kvs" for k v q
    using JObj that by (auto simp: item_def rbind_eq_Inr pr_entry_def)
  have all: "map (\<lambda>(k, v). item (k, canonicalize v)) xs = map Inr ps \<longleftrightarrow>
      (\<forall>(k, v) \<in> set xs. safe_numbers v) \<and> map pr_entry xs = map Some ps" if "set xs \<subseteq> set kvs" for xs ps
    using that by (induction xs arbitrary: ps) (auto simp: map_eq_Cons_conv Cons_eq_map_conv one)
  have pairs: "(\<lambda>x. item (fst x, canonicalize (snd x))) = (\<lambda>(k, v). item (k, canonicalize v))" by auto
  have "canonicalize (JObj kvs) = Inr t \<longleftrightarrow>
      (\<exists>ps. map (\<lambda>(k, v). item (k, canonicalize v)) (sort_key fst kvs) = map Inr ps \<and> t = 123 # join ps @ [125])"
    by (simp add: item_def [symmetric] sort_key_map rbind_eq_Inr rmap_Inr_iff comp_def case_prod_beta)
      (simp add: pairs eq_commute [of t])
  also have "\<dots> \<longleftrightarrow> safe_numbers (JObj kvs) \<and> canonicalJson (JObj kvs) = Some t"
    using all [of "sort_key fst kvs"] by (auto simp: JObj_text)
  finally show ?case .
qed (auto simp: ensure_eq_Inr)

lemma proper_canonical: "safe_numbers v \<Longrightarrow> typed v \<Longrightarrow> canonicalJson v = Some t \<Longrightarrow> proper t"
proof (induction v arbitrary: t)
  case (JArr vs)
  then obtain ps where ps: "map canonicalJson vs = map Some ps" "t = 91 # join ps @ [93]" unfolding JArr_text by blast
  have "proper p" if "p \<in> set ps" for p
  proof -
    have "Some p \<in> set (map canonicalJson vs)" using that unfolding ps(1) by simp
    then obtain v where "v \<in> set vs" "canonicalJson v = Some p" by auto
    then show ?thesis using JArr by auto
  qed
  then show ?case unfolding ps(2) by (intro proper_Cons proper_append proper_join proper_ascii) auto
next
  case (JObj kvs)
  then obtain ps where ps: "map pr_entry (sort_key fst kvs) = map Some ps" "t = 123 # join ps @ [125]" unfolding JObj_text by blast
  have "proper p" if "p \<in> set ps" for p
  proof -
    have "Some p \<in> set (map pr_entry (sort_key fst kvs))" using that unfolding ps(1) by simp
    then obtain k v where kv: "(k, v) \<in> set kvs" "pr_entry (k, v) = Some p" by auto
    then obtain q where q: "canonicalJson v = Some q" "p = json_string k @ 58 # q" by (auto simp: pr_entry_def)
    have "proper q" "units k" using JObj kv(1) q(1) by fastforce+
    then show ?thesis unfolding q(2) by (intro proper_append proper_Cons proper_string) simp_all
  qed
  then show ?case unfolding ps(2) by (intro proper_Cons proper_append proper_join proper_ascii) auto
qed (auto intro: proper_string proper_int simp: proper_ascii js_def split: if_splits)

section \<open>Documents up to order\<close>

lemma safe_numbers_norm: "safe_numbers (norm v) = safe_numbers v"
  by (induction v) (auto simp: norm_JObj)

lemma typed_norm: "typed (norm v) = typed v"
  by (induction v) (auto simp: norm_JObj)

lemma canonicalize_norm: "norm v = norm w \<Longrightarrow> canonicalize v = Inr t \<Longrightarrow> canonicalize w = Inr t"
  unfolding canonicalize_iff by (metis canonicalJson_norm safe_numbers_norm)

lemma safe_numbers_text: "safe_numbers v \<Longrightarrow> \<exists>t. canonicalJson v = Some t"
proof (induction v)
  case (JArr vs)
  then have "\<exists>ps. map canonicalJson vs = map Some ps"
    by (induction vs) (auto, metis list.simps(9))
  then show ?case unfolding JArr_text by blast
next
  case (JObj kvs)
  have "\<exists>q. pr_entry e = Some q" if "e \<in> set kvs" for e
    using JObj that by (cases e) (fastforce simp: pr_entry_def)
  then have "\<exists>ps. map pr_entry xs = map Some ps" if "set xs \<subseteq> set kvs" for xs
    using that by (induction xs) (auto, metis list.simps(9))
  then show ?case unfolding JObj_text by simp
qed auto

lemma object_starts: "canonicalJson (JObj kvs) = Some t \<Longrightarrow> \<exists>u. t = 123 # u"
  by (auto simp: JObj_text)

lemma request_numbers:
  assumes "request_ok env r"
  shows "safe_numbers (request_json r)"
  using assms
  by (auto simp: request_ok_def request_json_def limits_json_def values_json_def max_safe_def request_bytes_max_def stdin_bytes_max_def
    stream_bytes_max_def evidence_bytes_max_def aggregate_deadline_def memory_bytes_max_def)

lemma request_wf:
  assumes "request_ok env r"
  shows "json_wf (request_json r)"
proof -
  have "distinct (map fst (rq_values r))" using assms by (auto simp: request_ok_def environment_ok_def)
  then have "json_wf (values_json (rq_values r))" by (auto simp: values_json_def comp_def case_prod_beta)
  then show ?thesis by (simp add: request_json_def limits_json_def js_inj del: js_simps)
qed

lemma request_parses: "request_ok env r \<Longrightarrow> parseProcessRequest env (request_json r) = Inr r"
  by (simp add: parse_request_iff)

lemma request_accepted: "parseProcessRequest env v = Inr r \<Longrightarrow> request_ok env r \<and> norm v = norm (request_json r)"
  by (simp add: parse_request_iff)

lemma encode_iff:
  "encodeCanonicalProcessRequest env v = Inr bs \<longleftrightarrow>
     (\<exists>r t. parseProcessRequest env v = Inr r \<and> canonicalize (request_json r) = Inr t \<and> bs = utf8_bytes t \<and>
        int (length bs) \<le> request_bytes_max)"
  by (auto simp: encodeCanonicalProcessRequest_def rbind_eq_Inr ensure_eq_Inr)

lemma canonical_document_iff:
  "canonical_document env limit reader to_json bs = Inr r \<longleftrightarrow>
     bs \<noteq> [] \<and> int (length bs) \<le> limit \<and>
     (\<exists>t w. utf8_read bs = Some t \<and> take 1 t \<noteq> [65279] \<and> ce_json env t = Some w \<and> reader w = Inr r \<and>
        canonicalize (to_json r) = Inr t)"
  by (auto simp: canonical_document_def decodeStrictUtf8_def rbind_eq_Inr ensure_eq_Inr split: option.splits)

lemma document_bytes:
  assumes "canonical_document env limit reader to_json bs = Inr r"
  shows "\<exists>t. canonicalize (to_json r) = Inr t \<and> bs = utf8_bytes t \<and> int (length bs) \<le> limit"
  using assms unfolding canonical_document_iff by (auto dest: utf8_exact)

lemma canonical_text_read:
  assumes t: "canonicalize (to_json r) = Inr t" and ty: "typed (to_json r)" and obj: "to_json r = JObj kvs"
    and size: "int (length (utf8_bytes t)) \<le> limit" and reads: "ce_json env t = Some w" "reader w = Inr r"
  shows "canonical_document env limit reader to_json (utf8_bytes t) = Inr r"
proof -
  have "proper t" using proper_canonical t ty unfolding canonicalize_iff by blast
  then have read: "utf8_read (utf8_bytes t) = Some t" unfolding proper_def by (blast intro: utf8_roundtrip)
  obtain u where u: "t = 123 # u" using object_starts t obj unfolding canonicalize_iff by metis
  then have "utf8_bytes t \<noteq> []" using read by auto
  then show ?thesis unfolding canonical_document_iff using read size reads t u by auto
qed

lemma request_same:
  assumes "request_ok env r" "request_ok env q" "norm (request_json r) = norm (request_json q)"
  shows "r = q"
  using request_parses [OF assms(1)] assms(2,3) unfolding parse_request_iff [symmetric]
  by (metis assms(1) parse_request_iff request_parses sum.inject(2))

lemma utf8_bytes_inj: "proper s \<Longrightarrow> proper t \<Longrightarrow> utf8_bytes s = utf8_bytes t \<Longrightarrow> s = t"
  unfolding proper_def by (metis option.inject utf8_roundtrip)

section \<open>Exactly one encoding\<close>

lemma read_is_encoded:
  assumes read: "parseCanonicalProcessRequestBytes env bs = Inr r"
  shows "encodeCanonicalProcessRequest env (request_json r) = Inr bs"
proof -
  have "\<exists>w. parseProcessRequest env w = Inr r"
    using read unfolding parseCanonicalProcessRequestBytes_def canonical_document_iff by blast
  then have "request_ok env r" using request_accepted by blast
  moreover obtain t where "canonicalize (request_json r) = Inr t" "bs = utf8_bytes t" "int (length bs) \<le> request_bytes_max"
    using document_bytes [OF read [unfolded parseCanonicalProcessRequestBytes_def]] by blast
  ultimately show "encodeCanonicalProcessRequest env (request_json r) = Inr bs"
    unfolding encode_iff using request_parses by blast
qed

lemma encoded_is_read:
  assumes enc: "encodeCanonicalProcessRequest env v = Inr cs" and v: "typed v"
    and law: "\<forall>t. canonicalize v = Inr t \<longrightarrow> (\<exists>w. ce_json env t = Some w \<and> norm w = norm v)"
  shows "parseCanonicalProcessRequestBytes env cs = parseProcessRequest env v"
proof -
  obtain r t where r: "parseProcessRequest env v = Inr r" and t: "canonicalize (request_json r) = Inr t" and cs: "cs = utf8_bytes t"
    and size: "int (length cs) \<le> request_bytes_max" using enc unfolding encode_iff by blast
  note ok = request_accepted [OF r]
  have "canonicalize v = Inr t" using canonicalize_norm t ok by metis
  then obtain w where w: "ce_json env t = Some w" "norm w = norm v" using law by blast
  have "parseProcessRequest env w = Inr r" unfolding parse_request_iff using ok w(2) by simp
  moreover have "typed (request_json r)" using ok v typed_norm by metis
  moreover obtain kvs where "request_json r = JObj kvs" unfolding request_json_def by blast
  ultimately show ?thesis
    unfolding r cs parseCanonicalProcessRequestBytes_def
    using canonical_text_read [of request_json r t kvs request_bytes_max env w "parseProcessRequest env"] t size w(1)
    unfolding cs by blast
qed

lemma same_encoding:
  assumes enc: "encodeCanonicalProcessRequest env v = Inr cs" "encodeCanonicalProcessRequest env v' = Inr cs"
    and ty: "typed v" "typed v'"
  shows "parseProcessRequest env v = parseProcessRequest env v'"
proof -
  obtain r t where r: "parseProcessRequest env v = Inr r" "canonicalize (request_json r) = Inr t" "cs = utf8_bytes t"
    using enc(1) unfolding encode_iff by blast
  obtain q u where q: "parseProcessRequest env v' = Inr q" "canonicalize (request_json q) = Inr u" "cs = utf8_bytes u"
    using enc(2) unfolding encode_iff by blast
  note ok = request_accepted [OF r(1)] request_accepted [OF q(1)]
  have "typed (request_json r)" "typed (request_json q)" using ok ty typed_norm by metis+
  then have "proper t" "proper u" using proper_canonical r(2) q(2) unfolding canonicalize_iff by blast+
  then have "t = u" using utf8_bytes_inj r(3) q(3) by metis
  then have "norm (request_json r) = norm (request_json q)"
    using canonicalJson_unique request_wf ok r(2) q(2) unfolding canonicalize_iff by metis
  then show "parseProcessRequest env v = parseProcessRequest env v'" using request_same ok r(1) q(1) by metis
qed

text \<open>
  C23 Canonical bytes. Bytes the reader accepts as a request are the canonical encoding of that
  request; the encoding of a document is read as the request the document stands for, provided
  \<open>JSON.parse\<close> gives back what was printed up to the order of properties; and two documents with
  the same encoding stand for the same request.
\<close>
theorem request_bytes_exact:
  "(parseCanonicalProcessRequestBytes env bs = Inr r \<longrightarrow> encodeCanonicalProcessRequest env (request_json r) = Inr bs) \<and>
   (encodeCanonicalProcessRequest env v = Inr cs \<and> typed v \<and>
     (\<forall>t. canonicalize v = Inr t \<longrightarrow> (\<exists>w. ce_json env t = Some w \<and> norm w = norm v)) \<longrightarrow>
       parseCanonicalProcessRequestBytes env cs = parseProcessRequest env v) \<and>
   (encodeCanonicalProcessRequest env v = Inr cs \<and> encodeCanonicalProcessRequest env v' = Inr cs \<and> typed v \<and> typed v' \<longrightarrow>
       parseProcessRequest env v = parseProcessRequest env v')"
  using read_is_encoded encoded_is_read same_encoding by blast

definition demo_path :: "string \<Rightarrow> utext" where
  "demo_path s = js ''C:'' @ 92 # js ''op'' @ 92 # js s"

definition demo_start :: process_request where
  "demo_start = \<lparr>rq_operation = js ''00000000-0000-4000-8000-000000000000'', rq_executable = demo_path ''run.exe'',
     rq_executable_sha = replicate 64 48, rq_argv = [js ''run''], rq_stdin = js ''aGk='', rq_stdin_bytes = 2,
     rq_stdin_sha = replicate 64 49, rq_allowlist = [js ''LANG''], rq_values = [(js ''LANG'', js ''C'')],
     rq_deadline = 1000, rq_root = take 5 (demo_path []), rq_marker = demo_path ''mark'', rq_evidence = demo_path ''proof''\<rparr>"

definition ascii_upper :: "utext \<Rightarrow> utext" where
  "ascii_upper = map (\<lambda>c. if 97 \<le> c \<and> c \<le> 122 then c - 32 else c)"

definition ascii_lower :: "utext \<Rightarrow> utext" where
  "ascii_lower = map (\<lambda>c. if 65 \<le> c \<and> c \<le> 90 then c + 32 else c)"

definition demo_contract :: contract_env where
  "demo_contract = \<lparr>ce_sha = (\<lambda>bs. replicate 64 (47 + length bs)), ce_upper = ascii_upper, ce_lower = ascii_lower,
     ce_date = (\<lambda>_. Some 0), ce_json = (\<lambda>_. Some (request_json demo_start))\<rparr>"

lemma demo_start_parses: "parseProcessRequest demo_contract (request_json demo_start) = Inr demo_start"
  by code_simp

lemma demo_start_typed: "typed (request_json demo_start)"
  by code_simp

lemma demo_start_text: "case canonicalize (request_json demo_start) of Inl _ \<Rightarrow> False | Inr t \<Rightarrow> length t \<le> 10000"
  by code_simp

lemma demo_encodes: "\<exists>bs. encodeCanonicalProcessRequest demo_contract (request_json demo_start) = Inr bs"
proof -
  obtain t where t: "canonicalize (request_json demo_start) = Inr t" "length t \<le> 10000"
    using demo_start_text by (cases "canonicalize (request_json demo_start)") simp_all
  then have "proper t" using proper_canonical demo_start_typed unfolding canonicalize_iff by blast
  then have "length (utf8_bytes t) \<le> 3 * length t"
    using utf8_bytes_length utf8_length [of t] unfolding proper_def by simp
  then have "int (length (utf8_bytes t)) \<le> request_bytes_max" using t(2) by (simp add: request_bytes_max_def)
  then show ?thesis unfolding encode_iff using demo_start_parses t(1) by blast
qed

lemma demo_reads_back:
  "\<forall>t. canonicalize (request_json demo_start) = Inr t \<longrightarrow>
     (\<exists>w. ce_json demo_contract t = Some w \<and> norm w = norm (request_json demo_start))"
  by (simp add: demo_contract_def)

theorem request_bytes_exact_witness:
  "\<exists>bs. parseCanonicalProcessRequestBytes demo_contract bs = Inr demo_start \<and>
     encodeCanonicalProcessRequest demo_contract (request_json demo_start) = Inr bs"
proof -
  obtain bs where bs: "encodeCanonicalProcessRequest demo_contract (request_json demo_start) = Inr bs"
    using demo_encodes by blast
  then have "parseCanonicalProcessRequestBytes demo_contract bs = Inr demo_start"
    using request_bytes_exact [of demo_contract bs demo_start "request_json demo_start" bs "request_json demo_start"]
      demo_start_typed demo_reads_back demo_start_parses by argo
  then show ?thesis using bs by blast
qed

end
