(* ===== verification/ProcessSafe.thy ===== *)
theory ProcessSafe
  imports ProcessBytes
begin

text \<open>
  What an accepted request and accepted evidence guarantee: where the files lie, what the process
  may get, and that the record of a run is consistent.
\<close>

section \<open>Paths below the root\<close>

definition below :: "contract_env \<Rightarrow> utext \<Rightarrow> utext \<Rightarrow> bool" where
  \<comment> \<open>A strict descendant, whose way down does not look like an absolute path.\<close>
  "below env root path \<longleftrightarrow>
     (let n = length (path_segments root) in
      n < length (path_segments path) \<and>
      map (ce_lower env) (take n (path_segments path)) = map (ce_lower env) (path_segments root) \<and>
      \<not> win_absolute (join_path (drop n (path_segments path))))"

definition segment :: "utext \<Rightarrow> bool" where
  "segment p \<longleftrightarrow> p \<noteq> [] \<and> 92 \<notin> set p \<and> p \<noteq> js ''.'' \<and> p \<noteq> js ''..''"

lemma split_path_nonempty: "split_path s \<noteq> []"
  by (cases s) (auto split: list.splits)

lemma split_path_plain: "p \<in> set (split_path s) \<Longrightarrow> 92 \<notin> set p"
proof (induction s arbitrary: p)
  case (Cons c s)
  then show ?case by (cases "split_path s") (auto split: if_splits)
qed simp

lemma canonical_segments:
  assumes "canonical_path s"
  shows "path_segments s \<noteq> []" "p \<in> set (path_segments s) \<Longrightarrow> segment p"
proof -
  obtain c r where s: "s = c # 58 # 92 # r" "c \<noteq> 92"
    using assms by (auto simp: canonical_path_def drive_path_def split: list.splits)
  then have split: "split_path s = [c, 58] # split_path r" by simp
  then show "path_segments s \<noteq> []" by (simp add: path_segments_def)
  assume p: "p \<in> set (path_segments s)"
  then have "p \<noteq> []" "92 \<notin> set p" "p \<in> set (split_path s)"
    using split_path_plain by (auto simp: path_segments_def)
  moreover have "js ''.'' \<notin> set (split_path r)" "js ''..'' \<notin> set (split_path r)"
    using assms split by (simp_all add: canonical_path_def normal_path_def Let_def)
  moreover have "js ''.'' \<noteq> [c, 58]" "js ''..'' \<noteq> [c, 58]" by (simp_all add: js_def)
  ultimately show "segment p" unfolding split segment_def by auto
qed

lemma common_prefix_le: "common_prefix xs ys \<le> length xs" "common_prefix xs ys \<le> length ys"
  by (induction xs ys rule: common_prefix.induct) auto

lemma common_prefix_take: "take (common_prefix xs ys) xs = take (common_prefix xs ys) ys"
  by (induction xs ys rule: common_prefix.induct) auto

lemma common_prefix_full: "common_prefix xs ys = length xs \<longleftrightarrow> length xs \<le> length ys \<and> take (length xs) ys = xs"
  by (induction xs ys rule: common_prefix.induct) auto

lemma join_path_Cons: "join_path (p # ps) = p @ (if ps = [] then [] else 92 # join_path ps)"
  by (cases ps) simp_all

lemma upward_refused:
  assumes "0 < k"
  shows "join_path (replicate k (js ''..'') @ ps) = js ''..'' \<or> take 3 (join_path (replicate k (js ''..'') @ ps)) = js ''..'' @ [92]"
  using assms by (cases k) (simp_all add: join_path_Cons js_def)

lemma downward_kept:
  assumes "\<forall>p \<in> set ps. segment p" "ps \<noteq> []"
  shows "join_path ps \<noteq> []" "join_path ps \<noteq> js ''..''" "take 3 (join_path ps) \<noteq> js ''..'' @ [92]"
proof -
  obtain p qs where ps: "ps = p # qs" "segment p" using assms by (cases ps) auto
  have dots: "js ''..'' = [46, 46]" by (simp add: js_def)
  have p: "p \<noteq> []" "92 \<notin> set p" "p \<noteq> [46, 46]" using ps(2) by (auto simp: segment_def dots)
  show "join_path ps \<noteq> []" using p by (simp add: ps join_path_Cons)
  show "join_path ps \<noteq> js ''..''"
  proof
    assume "join_path ps = js ''..''"
    then have eq: "p @ (if qs = [] then [] else 92 # join_path qs) = [46, 46]" by (simp add: ps join_path_Cons dots)
    have "qs = []"
    proof (rule ccontr)
      assume "qs \<noteq> []"
      then have "92 \<in> set (p @ (if qs = [] then [] else 92 # join_path qs))" by simp
      then show False unfolding eq by simp
    qed
    then show False using eq p by simp
  qed
  show "take 3 (join_path ps) \<noteq> js ''..'' @ [92]"
  proof
    assume "take 3 (join_path ps) = js ''..'' @ [92]"
    then have eq: "take 3 (p @ (if qs = [] then [] else 92 # join_path qs)) = [46, 46, 92]" by (simp add: ps join_path_Cons dots)
    obtain a as where "p = a # as" using p by (cases p) auto
    then show False using eq p by (cases as; cases "tl as") (auto simp: numeral_3_eq_3 split: if_splits)
  qed
qed

lemma contained_iff:
  assumes root: "canonical_path root" and path: "canonical_path path"
  shows "requireContainedPath env root path = Inr u \<longleftrightarrow> below env root path"
proof -
  let ?r = "path_segments root" and ?p = "path_segments path"
  let ?n = "common_prefix (map (ce_lower env) ?r) (map (ce_lower env) ?p)"
  have abs: "win_absolute path" using path by (simp add: canonical_path_def)
  have full: "?n = length ?r \<longleftrightarrow> length ?r \<le> length ?p \<and> map (ce_lower env) (take (length ?r) ?p) = map (ce_lower env) ?r"
    using common_prefix_full [of "map (ce_lower env) ?r" "map (ce_lower env) ?p"] by (simp add: take_map)
  have le: "?n \<le> length ?r" using common_prefix_le(1) [of "map (ce_lower env) ?r"] by simp
  have r: "0 < length ?r" using canonical_segments(1) [OF root] by simp
  have seg: "\<forall>p \<in> set (drop n ?p). segment p" for n
    using canonical_segments(2) [OF path] by (auto dest: in_set_dropD)
  consider "?n = 0" | "0 < ?n" "?n < length ?r" | "0 < ?n" "?n = length ?r" using le by linarith
  then show ?thesis
  proof cases
    case 1
    then have "win_relative env root path = path" by (simp add: win_relative_def Let_def)
    then have "requireContainedPath env root path \<noteq> Inr u" using abs by (simp add: requireContainedPath_def Let_def ensure_eq_Inr)
    moreover have "\<not> below env root path" using full 1 r by (auto simp: below_def Let_def)
    ultimately show ?thesis by simp
  next
    case 2
    then have "win_relative env root path = join_path (replicate (length ?r - ?n) (js ''..'') @ drop ?n ?p)"
      by (simp add: win_relative_def Let_def)
    then have "requireContainedPath env root path \<noteq> Inr u" using upward_refused [of "length ?r - ?n" "drop ?n ?p"] 2
      by (auto simp: requireContainedPath_def Let_def ensure_eq_Inr)
    moreover have "\<not> below env root path" using full 2 by (auto simp: below_def Let_def)
    ultimately show ?thesis by simp
  next
    case 3
    then have rel: "win_relative env root path = join_path (drop (length ?r) ?p)" by (simp add: win_relative_def Let_def)
    show ?thesis
    proof (cases "length ?r < length ?p")
      case True
      then show ?thesis using downward_kept [OF seg, of "length ?r"] full 3
        by (simp add: requireContainedPath_def below_def rel Let_def ensure_eq_Inr)
    next
      case False
      then show ?thesis by (simp add: requireContainedPath_def below_def rel Let_def ensure_eq_Inr)
    qed
  qed
qed

section \<open>Requests\<close>

definition request_spec :: "contract_env \<Rightarrow> process_request \<Rightarrow> bool" where
  \<comment> \<open>What a request promises, without the parser.\<close>
  "request_spec env r \<longleftrightarrow>
     uuid_v4 (rq_operation r) \<and> canonical_path (rq_executable r) \<and> sha_pattern (rq_executable_sha r) \<and>
     rq_argv r \<noteq> [] \<and> length (rq_argv r) \<le> 64 \<and> (\<forall>s \<in> set (rq_argv r). clean_text s) \<and>
     0 \<le> rq_stdin_bytes r \<and> rq_stdin_bytes r \<le> stdin_bytes_max \<and> sha_pattern (rq_stdin_sha r) \<and>
     (\<exists>bs. decodeStrictBase64 (rq_stdin r) = Inr bs \<and> int (length bs) = rq_stdin_bytes r \<and> ce_sha env bs = rq_stdin_sha r) \<and>
     environment_ok (rq_executable r) (rq_allowlist r) (rq_values r) \<and> 1000 \<le> rq_deadline r \<and> rq_deadline r \<le> 120000 \<and>
     canonical_path (rq_root r) \<and> canonical_path (rq_marker r) \<and> canonical_path (rq_evidence r) \<and>
     below env (rq_root r) (rq_marker r) \<and> below env (rq_root r) (rq_evidence r) \<and>
     ce_upper env (rq_evidence r) \<notin> {ce_upper env (rq_marker r), ce_upper env (rq_executable r)}"

lemma check_paths_iff:
  assumes "canonical_path root" "canonical_path marker" "canonical_path evidence"
  shows "check_paths env executable root marker evidence = Inr () \<longleftrightarrow>
    below env root marker \<and> below env root evidence \<and> ce_upper env evidence \<notin> {ce_upper env marker, ce_upper env executable}"
  unfolding check_paths_def
  by (auto simp: rbind_eq_Inr ensure_eq_Inr contained_iff [OF assms(1,2)] contained_iff [OF assms(1,3)])

lemma request_ok_spec: "request_ok env r \<longleftrightarrow> request_spec env r"
proof (cases "canonical_path (rq_root r) \<and> canonical_path (rq_marker r) \<and> canonical_path (rq_evidence r)")
  case True
  then show ?thesis unfolding request_ok_def request_spec_def using check_paths_iff by simp
next
  case False
  then show ?thesis unfolding request_ok_def request_spec_def by argo
qed

text \<open>
  C24 Acceptance of requests. A document is accepted as a request exactly when it is, up to the
  order of properties, the one-shot document of that request with the fixed limits, and the request
  keeps its promises: canonical paths with marker and evidence strictly below the operation root and
  the evidence apart from marker and executable, bounded arguments without line breaks, an input
  bound to its hash, a deadline in range, and an environment of harmless names or of the exact pair
  for the direct WSL target.
\<close>
theorem request_accepted_iff:
  "parseProcessRequest env v = Inr r \<longleftrightarrow> request_spec env r \<and> norm v = norm (request_json r)"
  unfolding parse_request_iff request_ok_spec ..

lemma executable_may_be_marker:
  "parseProcessRequest demo_contract (request_json (demo_start\<lparr>rq_executable := rq_marker demo_start\<rparr>)) =
     Inr (demo_start\<lparr>rq_executable := rq_marker demo_start\<rparr>)"
  by code_simp

section \<open>Evidence\<close>

definition stream_ok :: "contract_env \<Rightarrow> raw_stream \<Rightarrow> bool" where
  "stream_ok env s \<longleftrightarrow>
     0 \<le> rs_bytes s \<and> rs_bytes s \<le> stream_bytes_max \<and> sha_pattern (rs_sha s) \<and> rs_complete s = (\<not> rs_truncated s) \<and>
     (\<exists>bs. decodeStrictBase64 (rs_base64 s) = Inr bs \<and> int (length bs) = rs_bytes s \<and> ce_sha env bs = rs_sha s)"

lemma parse_stream_iff:
  "parseRawStreamEvidence env v = Inr s \<longleftrightarrow> stream_ok env s \<and> map_option norm v = Some (norm (stream_json s))"
  by (cases v; cases s) (auto simp: parseRawStreamEvidence_def stream_json_def stream_ok_def document_simps norm_atoms max_safe_def
    stream_bytes_max_def simp del: js_simps field.simps sort_key_simps norm.simps)

definition outcome_ok :: "process_evidence \<Rightarrow> bool" where
  "outcome_ok e \<longleftrightarrow>
     pe_output_complete e = (rs_complete (pe_stdout e) \<and> rs_complete (pe_stderr e)) \<and>
     (pe_exit_known e \<longleftrightarrow> pe_terminal e = js ''known-exit'') \<and> (pe_exit e \<noteq> None \<longleftrightarrow> pe_terminal e = js ''known-exit'') \<and>
     (pe_terminal e = js ''known-exit'' \<longrightarrow> pe_starts e = 1 \<and> pe_output_complete e) \<and>
     (pe_terminal e \<in> {js ''spawn-refused'', js ''containment-refused''} \<longrightarrow> pe_starts e = 0) \<and>
     (pe_terminal e \<in> {js ''deadline-killed'', js ''stdout-cap-killed'', js ''stderr-cap-killed'', js ''unknown''} \<longrightarrow>
        pe_starts e = 1)"

lemma check_outcome_iff: "check_outcome e = Inr e' \<longleftrightarrow> e' = e \<and> outcome_ok e"
  by (cases "pe_terminal e = js ''known-exit''")
    (auto simp: check_outcome_def outcome_ok_def rbind_eq_Inr ensure_eq_Inr simp del: js_simps)

definition evidence_spec :: "contract_env \<Rightarrow> process_evidence \<Rightarrow> bool" where
  "evidence_spec env e \<longleftrightarrow>
     1 \<le> pe_request_bytes e \<and> pe_request_bytes e \<le> request_bytes_max \<and> sha_pattern (pe_request_sha e) \<and>
     sha_pattern (pe_executable_sha e) \<and> pe_argv e \<noteq> [] \<and> length (pe_argv e) \<le> 64 \<and>
     0 \<le> pe_stdin_bytes e \<and> pe_stdin_bytes e \<le> stdin_bytes_max \<and> sha_pattern (pe_stdin_sha e) \<and>
     timestamp_pattern (pe_started e) \<and> timestamp_pattern (pe_finished e) \<and>
     (\<exists>s f. ce_date env (pe_started e) = Some s \<and> ce_date env (pe_finished e) = Some f \<and> s \<le> f \<and> f \<le> s + aggregate_deadline) \<and>
     pe_starts e \<in> {0, 1} \<and> pe_terminal e \<in> set terminal_states \<and>
     (\<forall>i. pe_exit e = Some i \<longrightarrow> - (2 ^ 31) \<le> i \<and> i < 2 ^ 31) \<and>
     stream_ok env (pe_stdout e) \<and> stream_ok env (pe_stderr e) \<and> outcome_ok e"

lemma evidence_argv_iff:
  "evidence_argv v = Inr ss \<longleftrightarrow> ss \<noteq> [] \<and> length ss \<le> 64 \<and> map_option norm v = Some (norm (JArr (map JStr ss)))"
proof -
  have element: "requireString (Some x) = Inr s \<longleftrightarrow> x = JStr s \<and> True" for x s by (simp add: requireString_iff)
  show ?thesis
    by (auto simp: evidence_argv_def document_simps rmap_iff [OF element] elements_def split: option.splits json.splits
      simp del: norm.simps)
qed

definition exit_json :: "int option \<Rightarrow> json" where
  "exit_json c = (case c of None \<Rightarrow> JNull | Some i \<Rightarrow> JInt i)"

lemma exit_code_iff:
  "exit_code v = Inr c \<longleftrightarrow> (\<forall>i. c = Some i \<longrightarrow> - (2 ^ 31) \<le> i \<and> i < 2 ^ 31) \<and> map_option norm v = Some (norm (exit_json c))"
  by (cases c) (auto simp: exit_code_def exit_json_def field_iffs max_safe_def map_option_norm simp del: norm.simps(1))

lemma parse_evidence_iff:
  "parseProcessEvidence env v = Inr e \<longleftrightarrow> evidence_spec env e \<and> norm v = norm (evidence_json e)"
proof -
  have json: "norm v = norm (evidence_json e) \<longleftrightarrow>
      map_option sort (keys_of v) = Some (sort (map js evidence_keys)) \<and>
      field (Some v) ''schema'' = Some (JStr evidence_schema) \<and>
      field (Some v) ''requestBytes'' = Some (JInt (pe_request_bytes e)) \<and>
      field (Some v) ''requestSha256'' = Some (JStr (pe_request_sha e)) \<and>
      field (Some v) ''executableSha256Observed'' = Some (JStr (pe_executable_sha e)) \<and>
      map_option norm (field (Some v) ''argv'') = Some (norm (JArr (map JStr (pe_argv e)))) \<and>
      field (Some v) ''stdinBytes'' = Some (JInt (pe_stdin_bytes e)) \<and>
      field (Some v) ''stdinSha256'' = Some (JStr (pe_stdin_sha e)) \<and>
      field (Some v) ''startedUtc'' = Some (JStr (pe_started e)) \<and>
      field (Some v) ''finishedUtc'' = Some (JStr (pe_finished e)) \<and>
      field (Some v) ''processStartCount'' = Some (JInt (pe_starts e)) \<and>
      field (Some v) ''terminalState'' = Some (JStr (pe_terminal e)) \<and>
      field (Some v) ''exitCodeKnown'' = Some (JBool (pe_exit_known e)) \<and>
      map_option norm (field (Some v) ''exitCode'') = Some (norm (exit_json (pe_exit e))) \<and>
      field (Some v) ''outputComplete'' = Some (JBool (pe_output_complete e)) \<and>
      map_option norm (field (Some v) ''standardOutput'') = Some (norm (stream_json (pe_stdout e))) \<and>
      map_option norm (field (Some v) ''standardError'') = Some (norm (stream_json (pe_stderr e))) \<and>
      field (Some v) ''retryPerformed'' = Some (JBool False) \<and> field (Some v) ''cleanupPerformed'' = Some (JBool False)"
    unfolding evidence_json_def exit_json_def [symmetric]
    by (subst norm_obj_iff)
      (simp_all add: field_entries [symmetric] map_option_norm js_inj evidence_keys_def
        del: js_simps field.simps sort_key_simps norm.simps(1))
  show ?thesis unfolding json
    by (cases e) (auto simp: parseProcessEvidence_def evidence_spec_def field_iffs evidence_argv_iff exit_code_iff
      parse_stream_iff check_outcome_iff max_safe_def request_bytes_max_def stdin_bytes_max_def Let_def
      simp del: js_simps field.simps sort_key_simps norm.simps)
qed

text \<open>
  C25 Acceptance of evidence. A document is accepted as evidence exactly when it is, up to the order
  of properties, the document of a record whose parts agree: an exit code is there exactly for a
  known exit, which is one start with complete output; refusals before the spawn record no start and
  kills exactly one; times are ordered and within the aggregate deadline; each stream is bound to
  its hash and size and is either complete or truncated. Evidence bytes that are accepted are the
  canonical encoding of that record and within the size limit.
\<close>
theorem evidence_accepted_iff:
  "(parseProcessEvidence env v = Inr e \<longleftrightarrow> evidence_spec env e \<and> norm v = norm (evidence_json e)) \<and>
   (parseCanonicalProcessEvidenceBytes env bs = Inr e \<longrightarrow>
      evidence_spec env e \<and>
      (\<exists>t. canonicalize (evidence_json e) = Inr t \<and> bs = utf8_bytes t \<and> int (length bs) \<le> evidence_bytes_max))"
proof -
  have "evidence_spec env e \<and>
      (\<exists>t. canonicalize (evidence_json e) = Inr t \<and> bs = utf8_bytes t \<and> int (length bs) \<le> evidence_bytes_max)"
    if read: "parseCanonicalProcessEvidenceBytes env bs = Inr e"
  proof -
    note doc = read [unfolded parseCanonicalProcessEvidenceBytes_def]
    obtain w where "parseProcessEvidence env w = Inr e" using doc unfolding canonical_document_iff by blast
    then show ?thesis using document_bytes [OF doc] unfolding parse_evidence_iff by blast
  qed
  then show ?thesis using parse_evidence_iff by blast
qed

definition demo_stream :: raw_stream where
  "demo_stream = \<lparr>rs_base64 = js ''aGk='', rs_bytes = 2, rs_sha = replicate 64 49, rs_complete = True, rs_truncated = False\<rparr>"

definition demo_proof :: process_evidence where
  "demo_proof = \<lparr>pe_request_bytes = 100, pe_request_sha = replicate 64 48, pe_executable_sha = replicate 64 48,
     pe_argv = [js ''run''], pe_stdin_bytes = 2, pe_stdin_sha = replicate 64 49, pe_started = js ''2026-01-01T00:00:00.000Z'',
     pe_finished = js ''2026-01-01T00:00:01.000Z'', pe_starts = 1, pe_terminal = js ''known-exit'', pe_exit_known = True,
     pe_exit = Some 0, pe_output_complete = True, pe_stdout = demo_stream, pe_stderr = demo_stream\<rparr>"

definition demo_reader :: contract_env where
  "demo_reader = demo_contract\<lparr>ce_json := (\<lambda>_. Some (evidence_json demo_proof))\<rparr>"

lemma demo_proof_parses: "parseProcessEvidence demo_reader (evidence_json demo_proof) = Inr demo_proof"
  by code_simp

lemma demo_proof_typed: "typed (evidence_json demo_proof)"
  by code_simp

lemma demo_proof_text: "case canonicalize (evidence_json demo_proof) of Inl _ \<Rightarrow> False | Inr t \<Rightarrow> length t \<le> 10000"
  by code_simp

theorem evidence_accepted_iff_witness:
  "\<exists>bs. parseCanonicalProcessEvidenceBytes demo_reader bs = Inr demo_proof \<and> evidence_spec demo_reader demo_proof"
proof -
  obtain t where t: "canonicalize (evidence_json demo_proof) = Inr t" "length t \<le> 10000"
    using demo_proof_text by (cases "canonicalize (evidence_json demo_proof)") simp_all
  then have "proper t" using proper_canonical demo_proof_typed unfolding canonicalize_iff by blast
  then have "length (utf8_bytes t) \<le> 3 * length t"
    using utf8_bytes_length utf8_length [of t] unfolding proper_def by simp
  then have size: "int (length (utf8_bytes t)) \<le> evidence_bytes_max" using t(2) by (simp add: evidence_bytes_max_def)
  have "ce_json demo_reader t = Some (evidence_json demo_proof)" by (simp add: demo_reader_def)
  then have "parseCanonicalProcessEvidenceBytes demo_reader (utf8_bytes t) = Inr demo_proof"
    unfolding parseCanonicalProcessEvidenceBytes_def
    using demo_proof_parses canonical_text_read [where to_json = evidence_json and r = demo_proof and env = demo_reader and w = "evidence_json demo_proof" and reader = "parseProcessEvidence demo_reader", OF t(1) demo_proof_typed evidence_json_def size] by iprover
  then show ?thesis
    using evidence_accepted_iff [of demo_reader "evidence_json demo_proof" demo_proof "utf8_bytes t"] by blast
qed

end
