(* ===== verification/Jobs.thy ===== *)
theory Jobs
  imports Guard JsonShape StableSort "HOL-Library.AList"
begin

text \<open>
  The monitor jobs of the personal agent (\<open>capabilities/jobs.ts\<close>), first half: the records, the
  checks of their parts, and the reducer \<open>collectMonitor\<close> that takes one page of a source.

  Values have the types their TypeScript declarations give them, so the run-time \<open>typeof\<close> tests
  hold by typing; every other test is a branch here. SHA-256, case mapping, the two collation orders
  and the date functions are fields of \<open>job_env\<close>. An object used as a dictionary is an association
  list in insertion order. \<open>al_key\<close> is not a field of the code: it is the value whose digest is the
  alert's id.
\<close>

section \<open>Records\<close>

record job_source =
  so_id :: utext
  so_kind :: utext
  so_resource :: utext

record job_filter =
  fi_include :: "utext list"
  fi_exclude :: "utext list"

record job_limits =
  li_page :: int
  li_pages :: int
  li_alerts :: int
  li_tracked :: int

record task_binding =
  bi_task :: utext
  bi_intent :: int
  bi_grant :: utext
  bi_grant_revision :: int

record source_change =
  ch_item :: utext
  ch_kind :: utext
  ch_version :: utext
  ch_observed :: utext
  ch_title :: "utext option"
  ch_text :: "utext option"

record source_page =
  pg_source :: utext
  pg_changes :: "source_change list"
  pg_cursor :: "utext option"
  pg_more :: bool
  pg_unavailable :: "bool option"

record excerpt_meta =
  em_limit :: nat
  em_original :: nat
  em_returned :: nat
  em_omitted :: nat
  em_truncated :: bool

record monitor_alert =
  al_id :: utext
  al_key :: json
  al_job :: utext
  al_revision :: int
  al_source :: utext
  al_resource :: utext
  al_item :: utext
  al_kind :: utext
  al_title :: utext
  al_text :: utext
  al_observed :: utext
  al_rank :: nat
  al_excerpts :: "excerpt_meta \<times> excerpt_meta"

record tracked_item =
  tr_version :: utext
  tr_print :: utext
  tr_matched :: bool
  tr_deleted :: bool

datatype source_status = SReady | SCatchup | SLost | SCapacity

record source_state =
  ss_cursor :: "utext option"
  ss_status :: source_status
  ss_episode :: int
  ss_bootstrap :: "int option"
  ss_items :: "(utext \<times> tracked_item) list"
  ss_seen :: "(utext \<times> utext) list"
  ss_required :: "int option"         \<comment> \<open>\<open>capacity?.requiredTrackedItems\<close>\<close>

record job_record =
  jr_id :: utext
  jr_binding :: task_binding
  jr_name :: utext
  jr_sources :: "job_source list"
  jr_filter :: job_filter
  jr_revision :: int
  jr_version :: int
  jr_active :: bool
  jr_created :: utext
  jr_updated :: utext
  jr_limits :: job_limits
  jr_states :: "(utext \<times> source_state) list"
  jr_next :: nat
  jr_log :: "monitor_alert list"

datatype job_error =
    InvalidText | InvalidBound | InvalidContextRevision | InvalidSourceSet | InvalidSourceKind | DuplicateSource
  | InvalidFilterTerms | SourceBindingMismatch | InvalidSourcePage | CursorNotAdvanced | UnavailableHasData
  | InvalidSourceChange | InvalidObservationTime | ConflictingVersion | JobNotFound | StaleJobContext
  | JobRevisionConflict | NotAuthorized | JobIdentityConflict | JobStorageConflict | StoreExceededBound | JobIsCancelled
  | LowerThanEvidence | MonitorSourceUnavailable | SourceExceededBound | JobChanged
  | StaleMemoryContext | MemoryRemoved | MemoryProvenance | MemoryRevisionConflict | MemoryStorageConflict

record job_env =
  je_sha :: "utext \<Rightarrow> utext"
  je_lower :: "utext \<Rightarrow> utext"           \<comment> \<open>\<open>toLocaleLowerCase('en')\<close>\<close>
  je_collate :: "utext \<Rightarrow> utext \<Rightarrow> int"  \<comment> \<open>\<open>localeCompare(b, 'en')\<close>\<close>
  je_compare :: "utext \<Rightarrow> utext \<Rightarrow> int"  \<comment> \<open>\<open>localeCompare(b)\<close>\<close>
  je_date :: "utext \<Rightarrow> int option"
  je_iso :: "int \<Rightarrow> utext"

section \<open>Small functions\<close>

definition digest :: "job_env \<Rightarrow> json \<Rightarrow> utext" where
  "digest env v = je_sha env (stringify v)"

definition text_key :: "job_env \<Rightarrow> utext \<Rightarrow> utext" where
  "text_key env s = digest env (JStr s)"

definition job_text :: "nat \<Rightarrow> utext \<Rightarrow> job_error + utext" where
  "job_text limit s =
     ensure (trim s \<noteq> [] \<and> length s \<le> limit \<and> \<not> list_ex (\<lambda>c. c \<le> 8 \<or> (11 \<le> c \<and> c \<le> 31)) s) InvalidText (Inr s)"

definition job_bound :: "int option \<Rightarrow> int \<Rightarrow> int \<Rightarrow> job_error + int" where
  "job_bound v fallback limit =
     (let n = or_else v fallback in ensure (\<bar>n\<bar> \<le> max_safe \<and> 1 \<le> n \<and> n \<le> limit) InvalidBound (Inr n))"

definition task_binding_of :: "tool_context \<Rightarrow> job_error + task_binding" where
  "task_binding_of ctx =
     rbind (job_text 256 (tc_task ctx)) (\<lambda>_.
     rbind (job_text 256 (tc_grant ctx)) (\<lambda>_.
     rbind (job_text 256 (tc_run ctx)) (\<lambda>_.
       ensure (\<forall>n \<in> set [tc_revision ctx, tc_grant_revision ctx]. \<bar>n\<bar> \<le> max_safe \<and> 1 \<le> n) InvalidContextRevision
         (Inr \<lparr>bi_task = tc_task ctx, bi_intent = tc_revision ctx, bi_grant = tc_grant ctx,
            bi_grant_revision = tc_grant_revision ctx\<rparr>))))"

definition same_binding :: "task_binding \<Rightarrow> task_binding \<Rightarrow> bool" where
  "same_binding a b \<longleftrightarrow>
     bi_task a = bi_task b \<and> bi_intent a = bi_intent b \<and> bi_grant a = bi_grant b \<and>
     bi_grant_revision a = bi_grant_revision b"

definition check_source :: "job_source \<Rightarrow> job_error + job_source" where
  "check_source s =
     ensure (so_kind s = js ''web'' \<or> so_kind s = js ''telegram'') InvalidSourceKind (
     rbind (job_text 256 (so_id s)) (\<lambda>i.
     rbind (job_text 2048 (so_resource s)) (\<lambda>r. Inr \<lparr>so_id = i, so_kind = so_kind s, so_resource = r\<rparr>)))"

definition check_sources :: "job_env \<Rightarrow> job_source list \<Rightarrow> job_error + job_source list" where
  "check_sources env ss =
     ensure (1 \<le> length ss \<and> length ss \<le> 16) InvalidSourceSet (
     rbind (rmap check_source ss) (\<lambda>r.
       ensure (distinct (map so_id r) \<and> distinct (map (\<lambda>s. so_kind s @ 58 # so_resource s) r)) DuplicateSource
         (Inr (sort_by (\<lambda>a b. je_collate env (so_id a) (so_id b)) r))))"

definition filter_terms :: "job_env \<Rightarrow> utext list option \<Rightarrow> job_error + utext list" where
  "filter_terms env ts =
     (case ts of
        None \<Rightarrow> Inr []
      | Some xs \<Rightarrow>
          ensure (length xs \<le> 32) InvalidFilterTerms (
          rbind (rmap (job_text 128) xs) (\<lambda>ys. Inr (sort (dedup (map (\<lambda>t. je_lower env (trim t)) ys))))))"

definition check_filter :: "job_env \<Rightarrow> utext list option \<Rightarrow> utext list option \<Rightarrow> job_error + job_filter" where
  "check_filter env inc exc =
     rbind (filter_terms env inc) (\<lambda>i. rbind (filter_terms env exc) (\<lambda>e. Inr \<lparr>fi_include = i, fi_exclude = e\<rparr>))"

definition filter_matches :: "job_env \<Rightarrow> job_filter \<Rightarrow> utext \<Rightarrow> utext \<Rightarrow> bool" where
  "filter_matches env f title text =
     (let haystack = je_lower env (title @ 10 # text) in
      (fi_include f = [] \<or> list_ex (str_includes haystack) (fi_include f)) \<and> \<not> list_ex (str_includes haystack) (fi_exclude f))"

definition filter_rank :: "job_env \<Rightarrow> job_filter \<Rightarrow> utext \<Rightarrow> utext \<Rightarrow> nat" where
  "filter_rank env f title text =
     (let t = je_lower env title; b = je_lower env text in
      foldl (\<lambda>n w. n + (if str_includes t w then 2 else 0) + (if str_includes b w then 1 else 0)) 0 (fi_include f))"

definition excerpt :: "utext \<Rightarrow> nat \<Rightarrow> utext \<times> excerpt_meta" where
  "excerpt s limit =
     (let m = min (length s) limit;
          n = (if m < length s \<and> 0 < m \<and> is_high (s ! (m - 1)) \<and> is_low (s ! m) then m - 1 else m) in
      (take n s, \<lparr>em_limit = limit, em_original = length s, em_returned = n, em_omitted = length s - n,
         em_truncated = (n < length s)\<rparr>))"

definition task_binding_json :: "task_binding \<Rightarrow> json" where
  "task_binding_json b = JObj
     [(js ''taskId'', JStr (bi_task b)), (js ''intentRevision'', JInt (bi_intent b)), (js ''grantId'', JStr (bi_grant b)),
      (js ''grantRevision'', JInt (bi_grant_revision b))]"

definition alert_key :: "job_record \<Rightarrow> job_source \<Rightarrow> utext \<Rightarrow> utext \<Rightarrow> utext \<Rightarrow> json" where
  "alert_key job src item kind version = JArr
     [task_binding_json (jr_binding job), JStr (jr_id job), JInt (jr_revision job), JStr (so_id src), JStr (so_resource src),
      JStr item, JStr kind, JStr version]"

definition mk_alert ::
  "job_env \<Rightarrow> job_record \<Rightarrow> job_source \<Rightarrow> utext \<Rightarrow> utext \<Rightarrow> utext \<Rightarrow> utext \<Rightarrow> utext \<Rightarrow> utext \<Rightarrow>
     excerpt_meta \<times> excerpt_meta \<Rightarrow> nat \<Rightarrow> monitor_alert" where
  "mk_alert env job src item kind version observed title text excerpts score =
     (let k = alert_key job src item kind version in
      \<lparr>al_id = digest env k, al_key = k, al_job = jr_id job, al_revision = jr_revision job, al_source = so_id src,
       al_resource = so_resource src, al_item = item, al_kind = kind, al_title = title, al_text = text,
       al_observed = observed, al_rank = score, al_excerpts = excerpts\<rparr>)"

definition source_alert :: "job_env \<Rightarrow> job_record \<Rightarrow> job_source \<Rightarrow> utext \<Rightarrow> int \<Rightarrow> utext \<Rightarrow> utext \<Rightarrow> monitor_alert" where
  \<comment> \<open>\<open>alert\<close> with its default excerpts and score, as it is called for a lost or restored source.\<close>
  "source_alert env job src kind episode now title =
     mk_alert env job src [] kind (show_int episode) now title []
       (snd (excerpt title 512), snd (excerpt [] 16384)) (filter_rank env (jr_filter job) title [])"

definition compare_alerts :: "job_env \<Rightarrow> monitor_alert \<Rightarrow> monitor_alert \<Rightarrow> int" where
  "compare_alerts env a b =
     (if al_rank a \<noteq> al_rank b then int (al_rank b) - int (al_rank a)
      else if je_compare env (al_observed b) (al_observed a) \<noteq> 0 then je_compare env (al_observed b) (al_observed a)
      else je_compare env (al_id a) (al_id b))"

definition sortAlerts :: "job_env \<Rightarrow> monitor_alert list \<Rightarrow> monitor_alert list" where
  "sortAlerts env as = sort_by (compare_alerts env) as"

section \<open>One page of a source\<close>

record prepared_change =
  pc_kind :: utext
  pc_item :: utext
  pc_version :: utext
  pc_observed :: utext
  pc_title :: utext
  pc_text :: utext
  pc_excerpts :: "excerpt_meta \<times> excerpt_meta"
  pc_print :: utext
  pc_item_key :: utext
  pc_event_key :: utext
  pc_matched :: bool
  pc_score :: nat

definition change_kinds :: "utext list" where
  "change_kinds = [js ''message'', js ''edit'', js ''delete'']"

definition prepare_change :: "job_env \<Rightarrow> job_record \<Rightarrow> source_change \<Rightarrow> job_error + prepared_change" where
  "prepare_change env job c =
     ensure (ch_kind c \<in> set change_kinds) InvalidSourceChange (
     rbind (job_text 256 (ch_item c)) (\<lambda>item.
     rbind (job_text 256 (ch_version c)) (\<lambda>version.
     (case je_date env (ch_observed c) of
        None \<Rightarrow> Inl InvalidObservationTime
      | Some t \<Rightarrow>
          (let raw_title = or_else (ch_title c) []; raw_text = or_else (ch_text c) [];
               title = excerpt raw_title 512; body = excerpt raw_text 16384 in
           Inr \<lparr>pc_kind = ch_kind c, pc_item = item, pc_version = version, pc_observed = je_iso env t,
             pc_title = fst title, pc_text = fst body, pc_excerpts = (snd title, snd body),
             pc_print = digest env (JArr [JStr (ch_kind c), JStr raw_title, JStr raw_text]),
             pc_item_key = text_key env item, pc_event_key = digest env (JArr [JStr item, JStr version]),
             pc_matched = filter_matches env (jr_filter job) raw_title raw_text,
             pc_score = filter_rank env (jr_filter job) raw_title raw_text\<rparr>)))))"

datatype page_outcome = Blocked | Passed source_state "monitor_alert list"

definition is_deletion :: "prepared_change \<Rightarrow> bool" where
  "is_deletion c \<longleftrightarrow> pc_kind c = js ''delete''"

definition was_matched :: "tracked_item option \<Rightarrow> bool" where
  "was_matched p = (case p of None \<Rightarrow> False | Some t \<Rightarrow> tr_matched t)"

definition was_deleted :: "tracked_item option \<Rightarrow> bool" where
  "was_deleted p = (case p of None \<Rightarrow> False | Some t \<Rightarrow> tr_deleted t)"

definition full_for :: "job_record \<Rightarrow> source_state \<Rightarrow> prepared_change \<Rightarrow> bool" where
  \<comment> \<open>\<open>itemCount\<close> and \<open>eventCount\<close> are the sizes of the two dictionaries throughout.\<close>
  "full_for job s c \<longleftrightarrow>
     (map_of (ss_items s) (pc_item_key c) = None \<and> li_tracked (jr_limits job) \<le> int (length (ss_items s))) \<or>
     li_tracked (jr_limits job) \<le> int (length (ss_seen s))"

definition admit_change ::
  "job_env \<Rightarrow> job_record \<Rightarrow> job_source \<Rightarrow> prepared_change \<Rightarrow> source_state \<Rightarrow> source_state \<times> monitor_alert list" where
  "admit_change env job src c s =
     (let previous = map_of (ss_items s) (pc_item_key c);
          s1 = s\<lparr>ss_seen := AList.update (pc_event_key c) (pc_print c) (ss_seen s)\<rparr> in
      if was_deleted previous \<and> \<not> is_deletion c then (s1, [])
      else
        (let hit = (if is_deletion c then was_matched previous else pc_matched c);
             s2 = s1\<lparr>ss_items := AList.update (pc_item_key c)
               \<lparr>tr_version = pc_version c, tr_print = pc_print c, tr_matched = (\<not> is_deletion c \<and> hit),
                tr_deleted = is_deletion c\<rparr> (ss_items s1)\<rparr> in
         (s2, if hit \<or> (pc_kind c = js ''edit'' \<and> was_matched previous)
              then [mk_alert env job src (pc_item c) (pc_kind c) (pc_version c) (pc_observed c) (pc_title c) (pc_text c)
                      (pc_excerpts c) (pc_score c)]
              else [])))"

fun take_changes ::
  "job_env \<Rightarrow> job_record \<Rightarrow> job_source \<Rightarrow> prepared_change list \<Rightarrow> source_state \<Rightarrow> monitor_alert list \<Rightarrow> job_error + page_outcome" where
  "take_changes env job src [] s as = Inr (Passed s as)"
| "take_changes env job src (c # cs) s as =
     (case map_of (ss_seen s) (pc_event_key c) of
        Some p \<Rightarrow> if p \<noteq> pc_print c then Inl ConflictingVersion else take_changes env job src cs s as
      | None \<Rightarrow>
          if full_for job s c then Inr Blocked
          else (case admit_change env job src c s of (s', new) \<Rightarrow> take_changes env job src cs s' (as @ new)))"

definition required_items :: "source_state \<Rightarrow> prepared_change list \<Rightarrow> int" where
  "required_items old cs =
     max (int (length (remdups (map fst (ss_items old) @ map pc_item_key cs))))
       (int (length (remdups (map fst (ss_seen old) @ map pc_event_key cs))))"

definition lose_source ::
  "job_env \<Rightarrow> job_record \<Rightarrow> job_source \<Rightarrow> utext \<Rightarrow> source_state \<Rightarrow> source_state \<times> monitor_alert list" where
  "lose_source env job src now old =
     (let n = (if ss_status old = SLost then ss_episode old else ss_episode old + 1) in
      (old\<lparr>ss_episode := n, ss_status := SLost, ss_required := None\<rparr>,
       if ss_status old = SLost then []
       else [source_alert env job src (js ''source-lost'') n now (js ''Source unavailable'')]))"

definition page_check :: "job_record \<Rightarrow> job_source \<Rightarrow> source_page \<Rightarrow> source_state \<Rightarrow> job_error + unit" where
  "page_check job src p old =
     ensure (int (length (pg_changes p)) \<le> li_page (jr_limits job)) InvalidSourcePage (
     rbind (case pg_cursor p of None \<Rightarrow> Inr [] | Some c \<Rightarrow> job_text 4096 c) (\<lambda>_.
       ensure (pg_more p \<longrightarrow> or_else (pg_cursor p) [] \<noteq> [] \<and> pg_cursor p \<noteq> ss_cursor old) CursorNotAdvanced (Inr ())))"

definition collect_available ::
  "job_env \<Rightarrow> job_record \<Rightarrow> job_source \<Rightarrow> source_page \<Rightarrow> utext \<Rightarrow> source_state \<Rightarrow>
     job_error + source_state \<times> monitor_alert list" where
  "collect_available env job src p now old =
     (let restored = (if ss_status old = SLost
            then [source_alert env job src (js ''source-restored'') (ss_episode old) now (js ''Source restored'')] else []) in
      rbind (rmap (prepare_change env job) (pg_changes p)) (\<lambda>cs.
      rbind (take_changes env job src cs old restored) (\<lambda>r.
        (case r of
           Blocked \<Rightarrow> Inr (old\<lparr>ss_status := SCapacity, ss_required := Some (required_items old cs)\<rparr>, [])
         | Passed s as \<Rightarrow>
             Inr (s\<lparr>ss_cursor := (if pg_cursor p = None then ss_cursor s else pg_cursor p),
                    ss_status := (if pg_more p then SCatchup else SReady), ss_required := None\<rparr>,
                  sortAlerts env as)))))"

definition collectMonitor ::
  "job_env \<Rightarrow> job_record \<Rightarrow> job_source \<Rightarrow> source_page \<Rightarrow> utext \<Rightarrow> job_error + source_state \<times> monitor_alert list" where
  "collectMonitor env job src p now =
     (case map_of (jr_states job) (text_key env (so_id src)) of
        None \<Rightarrow> Inl SourceBindingMismatch
      | Some old \<Rightarrow>
          ensure (src \<in> set (jr_sources job) \<and> pg_source p = so_id src) SourceBindingMismatch (
          rbind (page_check job src p old) (\<lambda>_.
            if pg_unavailable p = Some True
            then ensure (pg_changes p = [] \<and> \<not> pg_more p \<and> pg_cursor p = None) UnavailableHasData
                   (Inr (lose_source env job src now old))
            else collect_available env job src p now old)))"

end
