(* ===== verification/JobService.thy ===== *)
theory JobService
  imports Jobs Store
begin

text \<open>
  The monitor jobs of the personal agent (\<open>capabilities/jobs.ts\<close>), second half: the service over a
  store with compare-and-swap, the polling loop, the task memory, and the stores themselves
  (\<open>InMemoryJobStore\<close>, \<open>InMemoryTaskMemoryStore\<close>, and \<open>encryptedJobStore\<close> of \<open>app.ts\<close> over a
  collection of the encrypted store).

  An operation awaits the store, the authorisation hook and the source. It is split there: the part
  up to the last await before the write yields what is to be written, and \<open>commit_job\<close> does the last
  authorisation and the write. \<open>job_call\<close> holds what the host answers to one part: the clock and
  \<open>validateContext\<close>.
\<close>

section \<open>Stores\<close>

record 's job_backend =
  bk_load :: "'s \<Rightarrow> utext \<Rightarrow> utext \<Rightarrow> job_record option"
  bk_list :: "'s \<Rightarrow> utext \<Rightarrow> int \<Rightarrow> job_record list"
  bk_save :: "'s \<Rightarrow> job_record \<Rightarrow> int option \<Rightarrow> bool \<times> 's"

definition slot_key :: "job_env \<Rightarrow> utext \<Rightarrow> utext \<Rightarrow> utext" where
  "slot_key env task i = digest env (JArr [JStr task, JStr i])"

definition memory_load :: "job_env \<Rightarrow> (utext \<times> 'r) list \<Rightarrow> utext \<Rightarrow> utext \<Rightarrow> 'r option" where
  "memory_load env s task i = map_of s (slot_key env task i)"

definition memory_list ::
  "job_env \<Rightarrow> ('r \<Rightarrow> utext) \<Rightarrow> ('r \<Rightarrow> utext) \<Rightarrow> (utext \<times> 'r) list \<Rightarrow> utext \<Rightarrow> int \<Rightarrow> 'r list" where
  "memory_list env task_of id_of s task limit =
     take (nat limit) (sort_by (\<lambda>a b. je_compare env (id_of a) (id_of b)) (filter (\<lambda>r. task_of r = task) (map snd s)))"

definition memory_save ::
  "job_env \<Rightarrow> ('r \<Rightarrow> utext) \<Rightarrow> ('r \<Rightarrow> utext) \<Rightarrow> ('r \<Rightarrow> int) \<Rightarrow> (utext \<times> 'r) list \<Rightarrow> 'r \<Rightarrow> int option \<Rightarrow>
     bool \<times> (utext \<times> 'r) list" where
  "memory_save env task_of id_of version_of s r expected =
     (let k = slot_key env (task_of r) (id_of r) in
      if map_option version_of (map_of s k) \<noteq> expected then (False, s) else (True, AList.update k r s))"

definition InMemoryJobStore :: "job_env \<Rightarrow> (utext \<times> job_record) list job_backend" where
  "InMemoryJobStore env =
     \<lparr>bk_load = memory_load env, bk_list = memory_list env (\<lambda>r. bi_task (jr_binding r)) jr_id,
      bk_save = memory_save env (\<lambda>r. bi_task (jr_binding r)) jr_id jr_version\<rparr>"

definition row_key :: "utext \<Rightarrow> utext \<Rightarrow> utext" where
  "row_key task i = task @ 47 # i"

definition encrypted_save ::
  "(utext \<Rightarrow> nat) \<Rightarrow> (utext \<times> job_record) list \<Rightarrow> job_record \<Rightarrow> int option \<Rightarrow> bool \<times> (utext \<times> job_record) list" where
  "encrypted_save ix s r expected =
     (let k = row_key (bi_task (jr_binding r)) (jr_id r) in
      case kv_get s k of
        Some old \<Rightarrow> if Some (jr_version old) \<noteq> expected then (False, s) else (True, kv_put ix k r s)
      | None \<Rightarrow> if expected \<noteq> None then (False, s) else (True, kv_put ix k r s))"

definition encryptedJobStore :: "(utext \<Rightarrow> nat) \<Rightarrow> (utext \<times> job_record) list job_backend" where
  "encryptedJobStore ix =
     \<lparr>bk_load = (\<lambda>s task i. kv_get s (row_key task i)),
      bk_list = (\<lambda>s task limit. take (nat limit) (filter (\<lambda>r. bi_task (jr_binding r) = task) (kv_list s))),
      bk_save = encrypted_save ix\<rparr>"

section \<open>Authorisation and reading\<close>

record job_call =
  jc_now :: utext
  jc_valid :: "(tool_context \<Rightarrow> job_source list \<Rightarrow> bool) option"  \<comment> \<open>None without the hook\<close>

definition job_authorize :: "job_call \<Rightarrow> tool_context \<Rightarrow> job_source list \<Rightarrow> job_error + unit" where
  "job_authorize c ctx ss =
     rbind (task_binding_of ctx) (\<lambda>_.
       ensure (case jc_valid c of None \<Rightarrow> True | Some ok \<Rightarrow> ok ctx ss) NotAuthorized (Inr ()))"

definition rebind_ok :: "job_call \<Rightarrow> task_binding \<Rightarrow> task_binding \<Rightarrow> bool" where
  "rebind_ok c old b \<longleftrightarrow>
     jc_valid c \<noteq> None \<and> bi_intent old \<le> bi_intent b \<and>
     (bi_grant b \<noteq> bi_grant old \<or> bi_grant_revision old \<le> bi_grant_revision b)"

definition load_job ::
  "'s job_backend \<Rightarrow> job_call \<Rightarrow> 's \<Rightarrow> tool_context \<Rightarrow> utext \<Rightarrow> int option \<Rightarrow> bool \<Rightarrow> job_error + job_record" where
  "load_job bk c s ctx i revision rebind =
     rbind (job_text 256 i) (\<lambda>_.
     rbind (task_binding_of ctx) (\<lambda>b.
     (case bk_load bk s (bi_task b) i of
        None \<Rightarrow> Inl JobNotFound
      | Some job \<Rightarrow>
          ensure (bi_task (jr_binding job) = bi_task b \<and> jr_id job = i) JobNotFound (
          ensure (same_binding (jr_binding job) b \<or> (rebind \<and> rebind_ok c (jr_binding job) b)) StaleJobContext (
          ensure (revision = None \<or> revision = Some (jr_revision job)) JobRevisionConflict (
          rbind (job_authorize c ctx (jr_sources job)) (\<lambda>_. Inr job)))))))"

section \<open>Operations\<close>

record job_spec =
  js_id :: "utext option"
  js_name :: "utext option"
  js_sources :: "job_source list option"
  js_filter :: "(utext list option \<times> utext list option) option"
  js_page :: "int option"
  js_pages :: "int option"
  js_alerts :: "int option"
  js_tracked :: "int option"

text \<open>What an operation writes: the record, the version it expects, and the sources it authorises just before.\<close>

record job_write =
  wr_record :: job_record
  wr_expected :: "int option"
  wr_sources :: "job_source list option"
  wr_context :: tool_context
  wr_conflict :: job_error

datatype prepared = Answer job_record | Write job_write

definition commit_job :: "'s job_backend \<Rightarrow> job_call \<Rightarrow> job_write \<Rightarrow> 's \<Rightarrow> (job_error + job_record) \<times> 's" where
  "commit_job bk c wr s =
     (case (case wr_sources wr of None \<Rightarrow> Inr () | Some ss \<Rightarrow> job_authorize c (wr_context wr) ss) of
        Inl e \<Rightarrow> (Inl e, s)
      | Inr _ \<Rightarrow>
          (case bk_save bk s (wr_record wr) (wr_expected wr) of
             (True, s') \<Rightarrow> (Inr (wr_record wr), s')
           | (False, s') \<Rightarrow> (Inl (wr_conflict wr), s')))"

definition job_limits_of :: "int option \<Rightarrow> int option \<Rightarrow> int option \<Rightarrow> int option \<Rightarrow> job_error + job_limits" where
  "job_limits_of page pages alerts tracked =
     rbind (job_bound page 50 100) (\<lambda>p.
     rbind (job_bound pages 4 16) (\<lambda>n.
     rbind (job_bound alerts 100 1600) (\<lambda>a.
     rbind (job_bound tracked 4096 10000) (\<lambda>t.
       Inr \<lparr>li_page = p, li_pages = n, li_alerts = a, li_tracked = t\<rparr>))))"

definition job_source_json :: "job_source \<Rightarrow> json" where
  "job_source_json s = JObj [(js ''id'', JStr (so_id s)), (js ''kind'', JStr (so_kind s)), (js ''resource'', JStr (so_resource s))]"

definition job_filter_json :: "job_filter \<Rightarrow> json" where
  "job_filter_json f = JObj [(js ''include'', JArr (map JStr (fi_include f))), (js ''exclude'', JArr (map JStr (fi_exclude f)))]"

definition job_limits_json :: "job_limits \<Rightarrow> json" where
  "job_limits_json l = JObj
     [(js ''pageSize'', JInt (li_page l)), (js ''maxPages'', JInt (li_pages l)), (js ''maxAlerts'', JInt (li_alerts l)),
      (js ''maxTrackedItems'', JInt (li_tracked l))]"

definition job_parts :: "utext \<Rightarrow> job_source list \<Rightarrow> job_filter \<Rightarrow> job_limits \<Rightarrow> json list" where
  "job_parts name ss f l = [JStr name, JArr (map job_source_json ss), job_filter_json f, job_limits_json l]"

definition fresh_state :: "int option \<Rightarrow> source_state" where
  "fresh_state bootstrap =
     \<lparr>ss_cursor = None, ss_status = SReady, ss_episode = 0, ss_bootstrap = bootstrap, ss_items = [], ss_seen = [],
      ss_required = None\<rparr>"

definition create_job ::
  "job_env \<Rightarrow> 's job_backend \<Rightarrow> job_call \<Rightarrow> 's \<Rightarrow> tool_context \<Rightarrow> job_spec \<Rightarrow> job_error + prepared" where
  "create_job env bk c s ctx spec =
     rbind (task_binding_of ctx) (\<lambda>b.
     rbind (check_sources env (or_else (js_sources spec) [])) (\<lambda>ss.
     rbind (check_filter env (or_else (map_option fst (js_filter spec)) None) (or_else (map_option snd (js_filter spec)) None)) (\<lambda>f.
     rbind (job_text 256 (or_else (js_name spec) [])) (\<lambda>name.
     rbind (job_limits_of (js_page spec) (js_pages spec) (js_alerts spec) (js_tracked spec)) (\<lambda>l.
     rbind (case js_id spec of
         None \<Rightarrow> Inr (digest env (JArr (task_binding_json b # JStr (tc_run ctx) # job_parts name ss f l)))
       | Some i \<Rightarrow> job_text 256 i) (\<lambda>i.
     rbind (job_authorize c ctx ss) (\<lambda>_.
     (case bk_load bk s (bi_task b) i of
        Some job \<Rightarrow>
          ensure (jr_active job \<and> same_binding (jr_binding job) b \<and>
              digest env (JArr (job_parts (jr_name job) (jr_sources job) (jr_filter job) (jr_limits job))) =
                digest env (JArr (job_parts name ss f l))) JobIdentityConflict (Inr (Answer job))
      | None \<Rightarrow>
          Inr (Write \<lparr>wr_record =
              \<lparr>jr_id = i, jr_binding = b, jr_name = name, jr_sources = ss, jr_filter = f, jr_revision = 1, jr_version = 1,
               jr_active = True, jr_created = jc_now c, jr_updated = jc_now c, jr_limits = l,
               jr_states = map (\<lambda>x. (text_key env (so_id x), fresh_state None)) ss, jr_next = 0, jr_log = []\<rparr>,
            wr_expected = None, wr_sources = None, wr_context = ctx, wr_conflict = JobStorageConflict\<rparr>)))))))))"

definition inspect_job :: "'s job_backend \<Rightarrow> job_call \<Rightarrow> 's \<Rightarrow> tool_context \<Rightarrow> utext \<Rightarrow> job_error + job_record" where
  "inspect_job bk c s ctx i = load_job bk c s ctx i None False"

definition list_jobs :: "'s job_backend \<Rightarrow> job_call \<Rightarrow> 's \<Rightarrow> tool_context \<Rightarrow> int option \<Rightarrow> job_error + job_record list" where
  "list_jobs bk c s ctx limit =
     rbind (job_bound limit 50 100) (\<lambda>n.
     rbind (task_binding_of ctx) (\<lambda>b.
     rbind (job_authorize c ctx []) (\<lambda>_.
       (let rs = bk_list bk s (bi_task b) n in
        ensure (int (length rs) \<le> n) StoreExceededBound (
          rmap (\<lambda>r. rbind (job_authorize c ctx (jr_sources r)) (\<lambda>_. Inr r)) (filter (\<lambda>r. same_binding (jr_binding r) b) rs))))))"

definition carried_state :: "job_env \<Rightarrow> job_record \<Rightarrow> int \<Rightarrow> int \<Rightarrow> job_source \<Rightarrow> job_error + utext \<times> source_state" where
  \<comment> \<open>The state of one source after an update: kept for an unchanged source, else fresh.\<close>
  "carried_state env job revision tracked x =
     (let k = text_key env (so_id x);
          old = (if x \<in> set (jr_sources job) then map_of (jr_states job) k else None);
          s = or_else old (fresh_state (Some revision)) in
      ensure (max (int (length (ss_items s))) (int (length (ss_seen s))) \<le> tracked) LowerThanEvidence
        (Inr (k, if ss_status s = SCapacity \<and> (case ss_required s of None \<Rightarrow> False | Some n \<Rightarrow> n \<le> tracked)
                 then s\<lparr>ss_status := SCatchup, ss_required := None\<rparr> else s)))"

definition update_job ::
  "job_env \<Rightarrow> 's job_backend \<Rightarrow> job_call \<Rightarrow> 's \<Rightarrow> tool_context \<Rightarrow> utext \<Rightarrow> int \<Rightarrow> job_spec \<Rightarrow> job_error + prepared" where
  "update_job env bk c s ctx i revision patch =
     rbind (load_job bk c s ctx i (Some revision) True) (\<lambda>job.
     ensure (jr_active job) JobIsCancelled (
     rbind (case js_sources patch of None \<Rightarrow> Inr (jr_sources job) | Some xs \<Rightarrow> check_sources env xs) (\<lambda>ss.
     rbind (job_authorize c ctx ss) (\<lambda>_.
     rbind (task_binding_of ctx) (\<lambda>b.
     rbind (case js_name patch of None \<Rightarrow> Inr (jr_name job) | Some n \<Rightarrow> job_text 256 n) (\<lambda>name.
     rbind (case js_filter patch of None \<Rightarrow> Inr (jr_filter job) | Some f \<Rightarrow> check_filter env (fst f) (snd f)) (\<lambda>f.
     rbind (job_limits_of (Some (or_else (js_page patch) (li_page (jr_limits job))))
         (Some (or_else (js_pages patch) (li_pages (jr_limits job))))
         (Some (or_else (js_alerts patch) (li_alerts (jr_limits job))))
         (Some (or_else (js_tracked patch) (li_tracked (jr_limits job))))) (\<lambda>l.
     rbind (rmap (carried_state env job (jr_revision job + 1) (li_tracked l)) ss) (\<lambda>states.
       Inr (Write \<lparr>wr_record = job\<lparr>jr_binding := b, jr_revision := jr_revision job + 1, jr_version := jr_version job + 1,
           jr_updated := jc_now c, jr_name := name, jr_sources := ss, jr_filter := f, jr_limits := l, jr_states := states,
           jr_next := 0\<rparr>,
         wr_expected = Some (jr_version job), wr_sources = Some ss, wr_context = ctx, wr_conflict = JobStorageConflict\<rparr>))))))))))"

definition cancel_job ::
  "'s job_backend \<Rightarrow> job_call \<Rightarrow> 's \<Rightarrow> tool_context \<Rightarrow> utext \<Rightarrow> int \<Rightarrow> job_error + prepared" where
  "cancel_job bk c s ctx i revision =
     rbind (load_job bk c s ctx i (Some revision) True) (\<lambda>job.
       if \<not> jr_active job then Inr (Answer job)
       else rbind (task_binding_of ctx) (\<lambda>b.
         Inr (Write \<lparr>wr_record = job\<lparr>jr_binding := b, jr_active := False, jr_revision := jr_revision job + 1,
             jr_version := jr_version job + 1, jr_updated := jc_now c\<rparr>,
           wr_expected = Some (jr_version job), wr_sources = Some (jr_sources job), wr_context = ctx,
           wr_conflict = JobStorageConflict\<rparr>)))"

section \<open>Polling\<close>

record poll_state =
  po_context :: tool_context
  po_id :: utext
  po_job :: job_record               \<comment> \<open>\<open>job\<close>, as it was loaded\<close>
  po_next :: job_record
  po_alerts :: "monitor_alert list"
  po_pages :: nat
  po_queue :: "job_source list"

definition poll_start ::
  "'s job_backend \<Rightarrow> job_call \<Rightarrow> bool \<Rightarrow> 's \<Rightarrow> tool_context \<Rightarrow> utext \<Rightarrow> int \<Rightarrow> job_error + poll_state" where
  "poll_start bk c has_source s ctx i revision =
     rbind (load_job bk c s ctx i (Some revision) False) (\<lambda>job.
     ensure (jr_active job) JobIsCancelled (
     ensure has_source MonitorSourceUnavailable (
       Inr \<lparr>po_context = ctx, po_id = i, po_job = job, po_next = job, po_alerts = [], po_pages = 0,
         po_queue = map (\<lambda>n. jr_sources job ! ((jr_next job + n) mod length (jr_sources job))) [0..<length (jr_sources job)]\<rparr>)))"

definition poll_goes_on :: "poll_state \<Rightarrow> bool" where
  "poll_goes_on p \<longleftrightarrow>
     po_queue p \<noteq> [] \<and> int (po_pages p) < li_pages (jr_limits (po_next p)) \<and>
     int (length (po_alerts p)) < li_alerts (jr_limits (po_next p))"

definition poll_limit :: "poll_state \<Rightarrow> source_state \<Rightarrow> int" where
  "poll_limit p previous =
     (let remaining = li_alerts (jr_limits (po_next p)) - int (length (po_alerts p)) in
      min (li_page (jr_limits (po_next p))) (max 1 (remaining - (if ss_status previous = SLost then 1 else 0))))"

definition poll_checkpoint :: "job_env \<Rightarrow> poll_state \<Rightarrow> source_state \<Rightarrow> utext" where
  \<comment> \<open>What tells the source apart from the same source of another job.\<close>
  "poll_checkpoint env p previous =
     digest env (JArr ([JStr (tc_task (po_context p)), JStr (po_id p)] @
       (case ss_bootstrap previous of None \<Rightarrow> [] | Some n \<Rightarrow> [JInt n])))"

definition position :: "job_source list \<Rightarrow> job_source \<Rightarrow> nat" where
  "position ss x = length (takeWhile (\<lambda>y. so_id y \<noteq> so_id x) ss)"

datatype poll_outcome = More poll_state | Stop poll_state

definition set_state :: "job_env \<Rightarrow> job_source \<Rightarrow> source_state \<Rightarrow> job_record \<Rightarrow> job_record" where
  "set_state env x st job = job\<lparr>jr_states := AList.update (text_key env (so_id x)) st (jr_states job)\<rparr>"

definition is_restoration :: "monitor_alert \<Rightarrow> bool" where
  "is_restoration a \<longleftrightarrow> al_kind a = js ''source-restored''"

definition poll_admit ::
  "job_env \<Rightarrow> job_source \<Rightarrow> source_state \<Rightarrow> source_state \<Rightarrow> monitor_alert list \<Rightarrow> poll_state \<Rightarrow> poll_outcome" where
  \<comment> \<open>What becomes of a collected page; \<open>previous\<close> is the state the page was read for.\<close>
  "poll_admit env x previous st as p =
     (if li_alerts (jr_limits (po_next p)) < int (length (po_alerts p) + length as)
      then
        (let waiting = p\<lparr>po_next := set_state env x (previous\<lparr>ss_status := SCatchup\<rparr>) (po_next p)\<rparr> in
         case find is_restoration as of
           Some a \<Rightarrow>
             if 1 \<le> li_alerts (jr_limits (po_next p)) - int (length (po_alerts p))
             then Stop (waiting\<lparr>po_alerts := po_alerts p @ [a]\<rparr>) else Stop waiting
         | None \<Rightarrow> Stop waiting)
      else More (p\<lparr>po_next := set_state env x st (po_next p), po_alerts := po_alerts p @ as,
        po_queue := po_queue p @ (if ss_status st = SCatchup then [x] else [])\<rparr>))"

definition poll_page ::
  "job_env \<Rightarrow> 's job_backend \<Rightarrow> job_call \<Rightarrow> (job_source \<Rightarrow> utext option \<Rightarrow> int \<Rightarrow> utext \<Rightarrow> source_page) \<Rightarrow> 's \<Rightarrow> poll_state \<Rightarrow>
     job_error + poll_outcome" where
  \<comment> \<open>One turn of the loop, for a poll that goes on. \<open>read\<close> is the source's answer.\<close>
  "poll_page env bk c read s p =
     (case po_queue p of
        [] \<Rightarrow> Inr (Stop p)
      | x # queue \<Rightarrow>
          rbind (job_authorize c (po_context p) [x]) (\<lambda>_.
          ensure (case bk_load bk s (tc_task (po_context p)) (po_id p) of
              None \<Rightarrow> False | Some current \<Rightarrow> jr_version current = jr_version (po_job p) \<and> jr_active current) JobChanged (
          (case map_of (jr_states (po_next p)) (text_key env (so_id x)) of
             None \<Rightarrow> Inl SourceBindingMismatch
           | Some previous \<Rightarrow>
               (let limit = poll_limit p previous;
                    page = read x (ss_cursor previous) limit (poll_checkpoint env p previous) in
                ensure (int (length (pg_changes page)) \<le> limit) SourceExceededBound (
                  (let ss = jr_sources (po_next p);
                       p1 = p\<lparr>po_queue := queue, po_pages := po_pages p + 1,
                         po_next := (po_next p)\<lparr>jr_next := (position ss x + 1) mod length ss\<rparr>\<rparr> in
                   rbind (collectMonitor env (po_next p1) x page (jc_now c)) (\<lambda>(st, as).
                     Inr (poll_admit env x previous st as p1)))))))))"

definition last_log :: "int \<Rightarrow> 'a list \<Rightarrow> 'a list" where
  \<comment> \<open>\<open>xs.slice(-n)\<close> for a positive n.\<close>
  "last_log n xs = drop (length xs - nat n) xs"

definition poll_record :: "job_env \<Rightarrow> job_call \<Rightarrow> poll_state \<Rightarrow> job_record" where
  "poll_record env c p =
     (let next = po_next p in
      next\<lparr>jr_log := last_log (li_alerts (jr_limits next)) (jr_log next @ sortAlerts env (po_alerts p)),
           jr_version := jr_version next + 1, jr_updated := jc_now c\<rparr>)"

definition poll_write :: "job_env \<Rightarrow> job_call \<Rightarrow> poll_state \<Rightarrow> job_write" where
  "poll_write env c p =
     \<lparr>wr_record = poll_record env c p, wr_expected = Some (jr_version (po_job p)),
      wr_sources = Some (jr_sources (po_next p)), wr_context = po_context p, wr_conflict = JobChanged\<rparr>"

section \<open>Progress\<close>

datatype progress_reason = CapacityReached | UnavailableSource | CatchupNeeded

record source_progress =
  sp_source :: utext
  sp_resource :: utext
  sp_status :: source_status
  sp_cursor :: "utext option"
  sp_items :: int
  sp_versions :: int
  sp_max :: int
  sp_remaining :: int
  sp_reason :: "progress_reason option"
  sp_recovery :: "(bool \<times> int) option"   \<comment> \<open>whether \<open>jobs.revise\<close> can help, and the items it needs\<close>

definition monitorProgress :: "job_env \<Rightarrow> job_record \<Rightarrow> source_progress list" where
  "monitorProgress env job =
     map (\<lambda>x.
       (let st = the (map_of (jr_states job) (text_key env (so_id x)));
            items = int (length (ss_items st)); versions = int (length (ss_seen st));
            limit = li_tracked (jr_limits job);
            required = or_else (ss_required st) (max items versions + 1) in
        \<lparr>sp_source = so_id x, sp_resource = so_resource x, sp_status = ss_status st, sp_cursor = ss_cursor st,
         sp_items = items, sp_versions = versions, sp_max = limit, sp_remaining = max 0 (limit - max items versions),
         sp_reason = (case ss_status st of SCapacity \<Rightarrow> Some CapacityReached | SLost \<Rightarrow> Some UnavailableSource
           | SCatchup \<Rightarrow> Some CatchupNeeded | SReady \<Rightarrow> None),
         sp_recovery = (if ss_status st = SCapacity then Some (required \<le> 10000, required) else None)\<rparr>)) (jr_sources job)"

record poll_result =
  pr_job :: job_record
  pr_alerts :: "monitor_alert list"
  pr_pages :: nat
  pr_catchup :: bool
  pr_progress :: "source_progress list"

definition poll_result_of :: "job_env \<Rightarrow> poll_state \<Rightarrow> job_record \<Rightarrow> poll_result" where
  "poll_result_of env p r =
     \<lparr>pr_job = r, pr_alerts = sortAlerts env (sortAlerts env (po_alerts p)), pr_pages = po_pages p,
      pr_catchup = (list_ex (\<lambda>(k, st). ss_status st = SCatchup \<or> ss_status st = SCapacity) (jr_states r) \<or> po_queue p \<noteq> []),
      pr_progress = monitorProgress env r\<rparr>"

definition poll_finish ::
  "job_env \<Rightarrow> 's job_backend \<Rightarrow> job_call \<Rightarrow> poll_state \<Rightarrow> 's \<Rightarrow> (job_error + poll_result) \<times> 's" where
  "poll_finish env bk c p s =
     (case commit_job bk c (poll_write env c p) s of
        (Inl e, s') \<Rightarrow> (Inl e, s')
      | (Inr r, s') \<Rightarrow> (Inr (poll_result_of env p r), s'))"

fun poll_loop ::
  "job_env \<Rightarrow> 's job_backend \<Rightarrow> (job_source \<Rightarrow> utext option \<Rightarrow> int \<Rightarrow> utext \<Rightarrow> source_page) \<Rightarrow> (job_call \<times> 's) list \<Rightarrow>
     poll_state \<Rightarrow> (job_error + poll_state) option" where
  \<comment> \<open>The while loop, given the host's answers and the store of each turn; None when they run out.\<close>
  "poll_loop env bk read turns p =
     (if \<not> poll_goes_on p then Some (Inr p)
      else
        (case turns of
           [] \<Rightarrow> None
         | (c, s) # rest \<Rightarrow>
             (case poll_page env bk c read s p of
                Inl e \<Rightarrow> Some (Inl e)
              | Inr (Stop p') \<Rightarrow> Some (Inr p')
              | Inr (More p') \<Rightarrow> poll_loop env bk read rest p')))"

declare poll_loop.simps [simp del]

section \<open>Task memory\<close>

record memory_record =
  me_id :: utext
  me_binding :: task_binding
  me_text :: utext
  me_source :: utext
  me_revision :: int
  me_created :: utext
  me_updated :: utext
  me_removed :: "utext option"

type_synonym memory_store = "(utext \<times> memory_record) list"

abbreviation "memory_task r \<equiv> bi_task (me_binding r)"

definition authorize_memory :: "bool option \<Rightarrow> tool_context \<Rightarrow> job_error + task_binding" where
  \<comment> \<open>\<open>ok\<close>: the answer of \<open>validateContext\<close>, None without the hook.\<close>
  "authorize_memory ok ctx = rbind (task_binding_of ctx) (\<lambda>b. ensure (ok \<noteq> Some False) NotAuthorized (Inr b))"

definition find_memory :: "job_env \<Rightarrow> memory_store \<Rightarrow> task_binding \<Rightarrow> utext \<Rightarrow> job_error + memory_record option" where
  "find_memory env s b i =
     (case memory_load env s (bi_task b) i of
        None \<Rightarrow> Inr None
      | Some r \<Rightarrow> ensure (same_binding (me_binding r) b \<and> me_id r = i) StaleMemoryContext (Inr (Some r)))"

definition get_memory :: "job_env \<Rightarrow> bool option \<Rightarrow> memory_store \<Rightarrow> tool_context \<Rightarrow> utext \<Rightarrow> job_error + memory_record option" where
  "get_memory env ok s ctx i =
     rbind (authorize_memory ok ctx) (\<lambda>b.
     rbind (job_text 256 i) (\<lambda>_.
     rbind (find_memory env s b i) (\<lambda>r.
       Inr (case r of None \<Rightarrow> None | Some m \<Rightarrow> if or_else (me_removed m) [] \<noteq> [] then None else Some m))))"

definition list_memory :: "job_env \<Rightarrow> bool option \<Rightarrow> memory_store \<Rightarrow> tool_context \<Rightarrow> int option \<Rightarrow> job_error + memory_record list" where
  "list_memory env ok s ctx limit =
     rbind (job_bound limit 50 100) (\<lambda>n.
     rbind (authorize_memory ok ctx) (\<lambda>b.
       (let rs = memory_list env memory_task me_id s (bi_task b) n in
        ensure (int (length rs) \<le> n) StoreExceededBound
          (Inr (filter (\<lambda>r. same_binding (me_binding r) b \<and> or_else (me_removed r) [] = []) rs)))))"

definition save_memory :: "job_env \<Rightarrow> memory_store \<Rightarrow> memory_record \<Rightarrow> int option \<Rightarrow> bool \<times> memory_store" where
  "save_memory env = memory_save env memory_task me_id me_revision"

datatype memory_prepared = Unchanged "memory_record option" | Change memory_record "int option"

definition put_memory ::
  "job_env \<Rightarrow> bool option \<Rightarrow> utext \<Rightarrow> memory_store \<Rightarrow> tool_context \<Rightarrow> utext \<Rightarrow> utext \<Rightarrow> utext \<Rightarrow> int option \<Rightarrow>
     job_error + memory_prepared" where
  \<comment> \<open>\<open>put\<close> up to its last authorisation.\<close>
  "put_memory env ok now s ctx i text source expected =
     rbind (authorize_memory ok ctx) (\<lambda>b.
     rbind (job_text 256 i) (\<lambda>_.
     rbind (job_text 16384 text) (\<lambda>_.
     rbind (job_text 2048 source) (\<lambda>_.
     rbind (find_memory env s b i) (\<lambda>old.
       (let fresh = (\<lambda>n created. Change \<lparr>me_id = i, me_binding = b, me_text = text, me_source = source, me_revision = n,
               me_created = created, me_updated = now, me_removed = None\<rparr> (map_option me_revision old)) in
        case old of
          None \<Rightarrow> ensure (expected = None) MemoryRevisionConflict (Inr (fresh 1 now))
        | Some r \<Rightarrow>
            ensure (or_else (me_removed r) [] = []) MemoryRemoved (
            ensure (source = me_source r) MemoryProvenance (
              if expected = None \<and> me_text r = text then Inr (Unchanged (Some r))
              else ensure (expected = Some (me_revision r)) MemoryRevisionConflict
                (Inr (fresh (me_revision r + 1) (me_created r)))))))))))"

definition remove_memory ::
  "job_env \<Rightarrow> bool option \<Rightarrow> utext \<Rightarrow> memory_store \<Rightarrow> tool_context \<Rightarrow> utext \<Rightarrow> int \<Rightarrow> job_error + memory_prepared" where
  "remove_memory env ok now s ctx i expected =
     rbind (get_memory env ok s ctx i) (\<lambda>old.
       (case old of
          None \<Rightarrow> Inr (Unchanged None)
        | Some r \<Rightarrow>
            ensure (me_revision r = expected) MemoryRevisionConflict
              (Inr (Change (r\<lparr>me_revision := me_revision r + 1, me_updated := now, me_removed := Some now\<rparr>)
                 (Some (me_revision r))))))"

definition commit_memory ::
  "job_env \<Rightarrow> bool option \<Rightarrow> tool_context \<Rightarrow> memory_prepared \<Rightarrow> memory_store \<Rightarrow>
     (job_error + memory_record option) \<times> memory_store" where
  "commit_memory env ok ctx m s =
     (case m of
        Unchanged r \<Rightarrow> (Inr r, s)
      | Change r expected \<Rightarrow>
          (case authorize_memory ok ctx of
             Inl e \<Rightarrow> (Inl e, s)
           | Inr _ \<Rightarrow>
               (case save_memory env s r expected of
                  (True, s') \<Rightarrow> (Inr (Some r), s')
                | (False, s') \<Rightarrow> (Inl MemoryStorageConflict, s'))))"

end
