(* ===== verification/JobRun.thy ===== *)
theory JobRun
  imports JobProps
begin

text \<open>
  Runs of the monitor service: a step relation over the store, the operations in flight and the
  alerts given out, and the invariant that no alert is given out twice.
\<close>

section \<open>When an alert is behind a source\<close>

definition change_key :: "job_env \<Rightarrow> utext \<Rightarrow> utext \<Rightarrow> utext" where
  "change_key env item version = digest env (JArr [JStr item, JStr version])"

definition lost_kind :: utext where "lost_kind = js ''source-lost''"
definition restored_kind :: utext where "restored_kind = js ''source-restored''"

definition behind :: "job_env \<Rightarrow> source_state \<Rightarrow> utext \<Rightarrow> utext \<Rightarrow> utext \<Rightarrow> bool" where
  \<comment> \<open>The state of the source rules out that the alert is still to come.\<close>
  "behind env st item kind version \<longleftrightarrow>
     (if kind = lost_kind then \<exists>n. version = show_int n \<and> n \<le> ss_episode st
      else if kind = restored_kind
      then \<exists>n. version = show_int n \<and> (n < ss_episode st \<or> (n = ss_episode st \<and> ss_status st \<noteq> SLost))
      else change_key env item version \<in> fst ` set (ss_seen st))"

definition moves_on :: "source_state \<Rightarrow> source_state \<Rightarrow> bool" where
  "moves_on st st' \<longleftrightarrow>
     fst ` set (ss_seen st) \<subseteq> fst ` set (ss_seen st') \<and> ss_episode st \<le> ss_episode st' \<and>
     (ss_episode st = ss_episode st' \<longrightarrow> ss_status st \<noteq> SLost \<longrightarrow> ss_status st' \<noteq> SLost)"

lemma evolves_refl [simp]: "moves_on st st"
  by (simp add: moves_on_def)

lemma evolves_trans: "moves_on a b \<Longrightarrow> moves_on b c \<Longrightarrow> moves_on a c"
  unfolding moves_on_def by (metis (no_types, lifting) dual_order.antisym dual_order.trans)

lemma behind_evolves: "moves_on st st' \<Longrightarrow> behind env st item kind version \<Longrightarrow> behind env st' item kind version"
  unfolding behind_def moves_on_def by (auto split: if_splits)

lemma kinds_apart: "k \<in> set change_kinds \<Longrightarrow> k \<noteq> lost_kind \<and> k \<noteq> restored_kind" "lost_kind \<noteq> restored_kind"
  by (auto simp: change_kinds_def lost_kind_def restored_kind_def js_inj simp del: js_simps)

lemma behind_change: "k \<in> set change_kinds \<Longrightarrow> behind env st item k v \<longleftrightarrow> change_key env item v \<in> fst ` set (ss_seen st)"
  using kinds_apart by (simp add: behind_def)

lemma behind_lost: "behind env st item lost_kind (show_int n) \<longleftrightarrow> n \<le> ss_episode st"
  by (auto simp: behind_def dest: show_int_inj)

lemma behind_restored:
  "behind env st item restored_kind (show_int n) \<longleftrightarrow> n < ss_episode st \<or> (n = ss_episode st \<and> ss_status st \<noteq> SLost)"
  using kinds_apart by (auto simp: behind_def dest: show_int_inj)

section \<open>One page\<close>

definition change_ok :: "job_env \<Rightarrow> prepared_change \<Rightarrow> bool" where
  "change_ok env c \<longleftrightarrow> pc_kind c \<in> set change_kinds \<and> pc_event_key c = change_key env (pc_item c) (pc_version c)"

lemma prepared_ok: "prepare_change env job c = Inr pc \<Longrightarrow> change_ok env pc"
  by (auto simp: prepare_change_def change_ok_def change_key_def ensure_eq_Inr rbind_eq_Inr job_text_def Let_def
    split: option.splits)

lemma alert_key_same:
  "alert_key job src item kind version = alert_key job' src' item' kind' version' \<longleftrightarrow>
     jr_binding job = jr_binding job' \<and> jr_id job = jr_id job' \<and> jr_revision job = jr_revision job' \<and> so_id src = so_id src' \<and>
     so_resource src = so_resource src' \<and> item = item' \<and> kind = kind' \<and> version = version'"
  by (cases "jr_binding job"; cases "jr_binding job'") (auto simp: alert_key_def task_binding_json_def)

definition new_alert :: "job_env \<Rightarrow> job_record \<Rightarrow> job_source \<Rightarrow> source_state \<Rightarrow> source_state \<Rightarrow> monitor_alert \<Rightarrow> bool" where
  "new_alert env job src st st' a \<longleftrightarrow>
     (\<exists>item version. al_key a = alert_key job src item (al_kind a) version \<and>
        \<not> behind env st item (al_kind a) version \<and> behind env st' item (al_kind a) version \<and>
        (is_restoration a \<longrightarrow> ss_status st = SLost \<and> version = show_int (ss_episode st)))"

lemma mk_alert_simps [simp]:
  "al_key (mk_alert env job src item kind version observed title text excerpts score) = alert_key job src item kind version"
  "al_kind (mk_alert env job src item kind version observed title text excerpts score) = kind"
  by (simp_all add: mk_alert_def Let_def)

lemma admit_change_state:
  assumes "admit_change env job src c s = (s', new)"
  shows "ss_seen s' = AList.update (pc_event_key c) (pc_print c) (ss_seen s)" "ss_episode s' = ss_episode s"
    "ss_status s' = ss_status s" "ss_cursor s' = ss_cursor s"
  using assms by (auto simp: admit_change_def Let_def split: if_splits)

lemma admit_change_alerts:
  assumes "admit_change env job src c s = (s', new)" "change_ok env c" "map_of (ss_seen s) (pc_event_key c) = None"
  shows "distinct (map al_key new) \<and> (\<forall>a \<in> set new. new_alert env job src s s' a)"
proof -
  have key: "pc_event_key c = change_key env (pc_item c) (pc_version c)" and kind: "pc_kind c \<in> set change_kinds"
    using assms(2) by (auto simp: change_ok_def)
  have pre: "\<not> behind env s (pc_item c) (pc_kind c) (pc_version c)"
    using assms(3) by (simp add: behind_change [OF kind] key map_of_eq_None_iff)
  have post: "behind env s' (pc_item c) (pc_kind c) (pc_version c)"
    unfolding behind_change [OF kind] admit_change_state(1) [OF assms(1)] key by (simp add: dom_update)
  have none: "\<not> is_restoration a" if "al_kind a = pc_kind c" for a
    using kind kinds_apart that by (auto simp: is_restoration_def restored_kind_def [symmetric])
  have "new = [] \<or> (\<exists>a. new = [a] \<and> al_key a = alert_key job src (pc_item c) (pc_kind c) (pc_version c) \<and> al_kind a = pc_kind c)"
    using assms(1) by (auto simp: admit_change_def Let_def split: if_splits)
  then show ?thesis using pre post none by (auto simp: new_alert_def alert_key_same)
qed

lemma new_alert_before: "moves_on st1 st2 \<Longrightarrow> ss_status st1 = ss_status st2 \<Longrightarrow> ss_episode st1 = ss_episode st2 \<Longrightarrow>
    new_alert env job src st2 st3 a \<Longrightarrow> new_alert env job src st1 st3 a"
  unfolding new_alert_def using behind_evolves by metis

lemma new_alert_after: "moves_on st2 st3 \<Longrightarrow> new_alert env job src st1 st2 a \<Longrightarrow> new_alert env job src st1 st3 a"
  unfolding new_alert_def using behind_evolves by metis

lemma new_alerts_apart:
  assumes "new_alert env job src st1 st2 a" "new_alert env job src st2 st3 b"
  shows "al_key a \<noteq> al_key b"
  using assms unfolding new_alert_def by (auto simp: alert_key_same)

lemma take_changes_ok:
  assumes "take_changes env job src cs s as = Inr (Passed s' as')" "\<forall>c \<in> set cs. change_ok env c"
  shows "\<exists>new. as' = as @ new \<and> moves_on s s' \<and> ss_status s' = ss_status s \<and> ss_episode s' = ss_episode s \<and>
    distinct (map al_key new) \<and> (\<forall>a \<in> set new. new_alert env job src s s' a)"
  using assms
proof (induction cs arbitrary: s as)
  case (Cons c cs)
  show ?case
  proof (cases "map_of (ss_seen s) (pc_event_key c)")
    case (Some p)
    then show ?thesis using Cons by (auto split: if_splits)
  next
    case None
    obtain s1 new1 where ad: "admit_change env job src c s = (s1, new1)" by (cases "admit_change env job src c s")
    then have "take_changes env job src cs s1 (as @ new1) = Inr (Passed s' as')"
      using Cons.prems(1) None by (auto split: if_splits)
    then obtain new2 where ih: "as' = (as @ new1) @ new2" "moves_on s1 s'" "ss_status s' = ss_status s1" "ss_episode s' = ss_episode s1"
        "distinct (map al_key new2)" "\<forall>a \<in> set new2. new_alert env job src s1 s' a"
      using Cons.IH [of s1 "as @ new1"] Cons.prems(2) by auto
    note first = admit_change_state [OF ad]
    have ev: "moves_on s s1" unfolding moves_on_def first by (auto simp: dom_update)
    have new1: "distinct (map al_key new1)" "\<forall>a \<in> set new1. new_alert env job src s s1 a"
      using admit_change_alerts [OF ad _ None] Cons.prems(2) by auto
    have apart: "al_key a \<noteq> al_key b" if "a \<in> set new1" "b \<in> set new2" for a b
      using new_alerts_apart new1(2) ih(6) that by blast
    have "distinct (map al_key (new1 @ new2))" using new1(1) ih(5) apart by auto
    moreover have "new_alert env job src s s' a" if "a \<in> set (new1 @ new2)" for a
      using that new1(2) ih(6) new_alert_after [OF ih(2)] new_alert_before [OF ev] first by auto
    ultimately show ?thesis using ih evolves_trans [OF ev ih(2)] first by (intro exI [of _ "new1 @ new2"]) auto
  qed
qed auto

lemma source_alert_simps [simp]:
  "al_key (source_alert env job src kind n now title) = alert_key job src [] kind (show_int n)"
  "al_kind (source_alert env job src kind n now title) = kind"
  by (simp_all add: source_alert_def)

definition restored_alerts :: "job_env \<Rightarrow> job_record \<Rightarrow> job_source \<Rightarrow> utext \<Rightarrow> source_state \<Rightarrow> monitor_alert list" where
  "restored_alerts env job src now old = (if ss_status old = SLost
     then [source_alert env job src restored_kind (ss_episode old) now (js ''Source restored'')] else [])"

lemma collect_available_cases:
  assumes "collect_available env job src p now old = Inr (st, as)"
  obtains (blocked) cs where "rmap (prepare_change env job) (pg_changes p) = Inr cs"
      "take_changes env job src cs old (restored_alerts env job src now old) = Inr Blocked"
      "st = old\<lparr>ss_status := SCapacity, ss_required := Some (required_items old cs)\<rparr>" "as = []"
  | (passed) cs s as' where "rmap (prepare_change env job) (pg_changes p) = Inr cs"
      "take_changes env job src cs old (restored_alerts env job src now old) = Inr (Passed s as')"
      "st = s\<lparr>ss_cursor := (if pg_cursor p = None then ss_cursor s else pg_cursor p),
         ss_status := (if pg_more p then SCatchup else SReady), ss_required := None\<rparr>" "as = sortAlerts env as'"
proof -
  obtain cs r where cs: "rmap (prepare_change env job) (pg_changes p) = Inr cs"
    and r: "take_changes env job src cs old (restored_alerts env job src now old) = Inr r"
    and res: "(case r of Blocked \<Rightarrow> Inr (old\<lparr>ss_status := SCapacity, ss_required := Some (required_items old cs)\<rparr>, [])
         | Passed s as' \<Rightarrow> Inr (s\<lparr>ss_cursor := (if pg_cursor p = None then ss_cursor s else pg_cursor p),
             ss_status := (if pg_more p then SCatchup else SReady), ss_required := None\<rparr>, sortAlerts env as')) =
       (Inr (st, as) :: job_error + source_state \<times> monitor_alert list)"
    using assms unfolding collect_available_def Let_def rbind_eq_Inr restored_kind_def [symmetric]
      restored_alerts_def [of env job src now old, symmetric] by blast
  show ?thesis
  proof (cases r)
    case Blocked
    then show ?thesis using blocked [OF cs] r res by simp
  next
    case (Passed s as')
    then show ?thesis using passed [OF cs] r res by simp
  qed
qed

lemma collect_available_ok:
  assumes "collect_available env job src p now old = Inr (st, as)"
  shows "moves_on old st \<and> distinct (map al_key as) \<and> (\<forall>a \<in> set as. new_alert env job src old st a)"
proof -
  define restored where "restored = restored_alerts env job src now old"
  show ?thesis
  proof (cases rule: collect_available_cases [OF assms])
    case (1 cs)
    then show ?thesis by (auto simp: moves_on_def)
  next
    case (2 cs s as')
    have ok: "\<forall>c \<in> set cs. change_ok env c" using prepared_ok rmap_all [OF 2(1)] by blast
    note take = take_changes_ok [OF 2(2) ok]
    note st = 2(3) and as = 2(4)
    obtain new where new: "as' = restored @ new" "moves_on old s" "ss_episode s = ss_episode old"
        "distinct (map al_key new)" "\<forall>a \<in> set new. new_alert env job src old s a"
      using take unfolding restored_def by blast
    have ev: "moves_on s st" and alive: "ss_status st \<noteq> SLost" and ep: "ss_episode st = ss_episode old"
      using new(3) by (auto simp: st moves_on_def)
    have first: "new_alert env job src old st a" if "a \<in> set restored" for a
      using that alive ep by (auto simp: restored_def restored_alerts_def new_alert_def behind_restored alert_key_same is_restoration_def
        restored_kind_def [symmetric] split: if_splits)
    have rest: "new_alert env job src old st a" if "a \<in> set new" for a using that new(5) new_alert_after [OF ev] by blast
    have apart: "al_key a \<noteq> al_key b" if a: "a \<in> set restored" and b: "b \<in> set new" for a b
    proof
      assume eq: "al_key a = al_key b"
      have lost: "ss_status old = SLost" "al_key a = alert_key job src [] restored_kind (show_int (ss_episode old))"
        using a by (auto simp: restored_def restored_alerts_def split: if_splits)
      then obtain i v where "al_kind b = restored_kind" "v = show_int (ss_episode old)" "behind env s i restored_kind v"
        using new(5) b eq unfolding new_alert_def by (auto simp: alert_key_same)
      moreover have "ss_status s = SLost" using take lost(1) by auto
      ultimately show False using new(3) by (simp add: behind_restored)
    qed
    have "distinct (map al_key (restored @ new))" using new(4) apart by (auto simp: restored_def restored_alerts_def)
    then have "distinct (map al_key as)" unfolding as new(1) using distinct_map_mset [OF mset_sortAlerts] by blast
    moreover have "\<forall>a \<in> set as. new_alert env job src old st a" using first rest by (auto simp: as new(1))
    ultimately show ?thesis using evolves_trans [OF new(2) ev] by blast
  qed
qed

lemma collect_ok:
  assumes "collectMonitor env job src p now = Inr (st, as)"
  shows "\<exists>old. map_of (jr_states job) (text_key env (so_id src)) = Some old \<and> moves_on old st \<and> distinct (map al_key as) \<and>
    (\<forall>a \<in> set as. new_alert env job src old st a)"
proof -
  obtain old where old: "map_of (jr_states job) (text_key env (so_id src)) = Some old"
    using assms by (auto simp: collectMonitor_def split: option.splits)
  then consider "lose_source env job src now old = (st, as)" | "collect_available env job src p now old = Inr (st, as)"
    using assms by (auto simp: collectMonitor_def ensure_eq_Inr rbind_eq_Inr split: if_splits)
  then show ?thesis
  proof cases
    case 1
    then have "moves_on old st \<and> distinct (map al_key as) \<and> (\<forall>a \<in> set as. new_alert env job src old st a)"
      using kinds_apart(2)
      by (auto simp: lose_source_def Let_def moves_on_def new_alert_def alert_key_same behind_lost lost_kind_def [symmetric]
        restored_kind_def [symmetric] is_restoration_def split: if_splits)
    then show ?thesis using old by blast
  next
    case 2
    then show ?thesis using collect_available_ok old by blast
  qed
qed

section \<open>A poll in flight\<close>

definition alert_fresh :: "job_env \<Rightarrow> job_record \<Rightarrow> job_record \<Rightarrow> monitor_alert \<Rightarrow> bool" where
  "alert_fresh env job next a \<longleftrightarrow>
     (\<exists>src item version old st. al_key a = alert_key job src item (al_kind a) version \<and>
        map_of (jr_states job) (text_key env (so_id src)) = Some old \<and> map_of (jr_states next) (text_key env (so_id src)) = Some st \<and>
        \<not> behind env old item (al_kind a) version \<and> behind env st item (al_kind a) version)"

definition same_job :: "job_record \<Rightarrow> job_record \<Rightarrow> bool" where
  "same_job a b \<longleftrightarrow>
     jr_binding a = jr_binding b \<and> jr_id a = jr_id b \<and> jr_revision a = jr_revision b \<and> jr_version a = jr_version b \<and>
     jr_limits a = jr_limits b \<and> jr_log a = jr_log b \<and> jr_sources a = jr_sources b"

definition states_evolve :: "job_record \<Rightarrow> job_record \<Rightarrow> bool" where
  "states_evolve a b \<longleftrightarrow>
     (\<forall>k st. map_of (jr_states a) k = Some st \<longrightarrow> (\<exists>st'. map_of (jr_states b) k = Some st' \<and> moves_on st st')) \<and>
     (\<forall>k. map_of (jr_states a) k = None \<longrightarrow> map_of (jr_states b) k = None)"

definition poll_ok :: "job_env \<Rightarrow> poll_state \<Rightarrow> bool" where
  "poll_ok env p \<longleftrightarrow>
     same_job (po_job p) (po_next p) \<and> states_evolve (po_job p) (po_next p) \<and> distinct (map al_key (po_alerts p)) \<and>
     (\<forall>a \<in> set (po_alerts p). alert_fresh env (po_job p) (po_next p) a)"

lemma alert_key_cong: "same_job a b \<Longrightarrow> alert_key a = alert_key b"
  by (intro ext) (simp add: same_job_def alert_key_def)

lemma states_evolveD:
  "states_evolve a b \<Longrightarrow> map_of (jr_states a) k = Some st \<Longrightarrow> \<exists>st'. map_of (jr_states b) k = Some st' \<and> moves_on st st'"
  unfolding states_evolve_def by blast

lemma states_evolve_trans:
  assumes "states_evolve a b" "states_evolve b c"
  shows "states_evolve a c"
  unfolding states_evolve_def
proof (intro conjI allI impI)
  fix k st assume "map_of (jr_states a) k = Some st"
  then obtain st1 st2 where "map_of (jr_states c) k = Some st2" "moves_on st st1" "moves_on st1 st2"
    using states_evolveD [OF assms(1)] states_evolveD [OF assms(2)] by blast
  then show "\<exists>st'. map_of (jr_states c) k = Some st' \<and> moves_on st st'" using evolves_trans by blast
qed (use assms in \<open>auto simp: states_evolve_def\<close>)

lemma alert_fresh_later:
  assumes "alert_fresh env job b a" "states_evolve b c"
  shows "alert_fresh env job c a"
proof -
  obtain src item v old st where k: "al_key a = alert_key job src item (al_kind a) v"
      "map_of (jr_states job) (text_key env (so_id src)) = Some old" "map_of (jr_states b) (text_key env (so_id src)) = Some st"
      "\<not> behind env old item (al_kind a) v" "behind env st item (al_kind a) v"
    using assms(1) unfolding alert_fresh_def by blast
  obtain st' where "map_of (jr_states c) (text_key env (so_id src)) = Some st'" "moves_on st st'"
    using states_evolveD [OF assms(2) k(3)] by blast
  then show ?thesis unfolding alert_fresh_def using k behind_evolves by blast
qed

lemma alert_fresh_earlier:
  assumes "alert_fresh env b c a" "states_evolve job b" "same_job job b"
  shows "alert_fresh env job c a"
proof -
  obtain src item v mid st where k: "al_key a = alert_key b src item (al_kind a) v"
      "map_of (jr_states b) (text_key env (so_id src)) = Some mid" "map_of (jr_states c) (text_key env (so_id src)) = Some st"
      "\<not> behind env mid item (al_kind a) v" "behind env st item (al_kind a) v"
    using assms(1) unfolding alert_fresh_def by blast
  obtain old where old: "map_of (jr_states job) (text_key env (so_id src)) = Some old"
    using assms(2) k(2) unfolding states_evolve_def by (cases "map_of (jr_states job) (text_key env (so_id src))") auto
  then have "moves_on old mid" using states_evolveD [OF assms(2) old] k(2) by simp
  then have "\<not> behind env old item (al_kind a) v" using k(4) behind_evolves by blast
  then show ?thesis unfolding alert_fresh_def alert_key_cong [OF assms(3)] using k old by blast
qed

lemma poll_ok_admit:
  assumes "poll_ok env p" and moved: "same_job (po_next p) next'" "states_evolve (po_next p) next'"
    and new: "distinct (map al_key new)" "\<forall>a \<in> set new. alert_fresh env (po_next p) next' a"
  shows "poll_ok env (p\<lparr>po_next := next', po_alerts := po_alerts p @ new\<rparr>)"
proof -
  let ?job = "po_job p"
  have p: "same_job ?job (po_next p)" "states_evolve ?job (po_next p)" "distinct (map al_key (po_alerts p))"
    "\<forall>a \<in> set (po_alerts p). alert_fresh env ?job (po_next p) a" using assms(1) by (auto simp: poll_ok_def)
  have same: "same_job ?job next'" using p(1) moved(1) by (auto simp: same_job_def)
  have ev: "states_evolve ?job next'" using states_evolve_trans p(2) moved(2) by blast
  have old: "alert_fresh env ?job next' a" if "a \<in> set (po_alerts p)" for a
    using alert_fresh_later p(4) that moved(2) by blast
  have fresh: "alert_fresh env ?job next' a" if "a \<in> set new" for a
    using alert_fresh_earlier new(2) that p(1,2) by blast
  have "al_key a \<noteq> al_key b" if a: "a \<in> set (po_alerts p)" and b: "b \<in> set new" for a b
  proof
    assume eq: "al_key a = al_key b"
    obtain s1 i1 v1 st1 where k1: "al_key a = alert_key ?job s1 i1 (al_kind a) v1"
        "map_of (jr_states (po_next p)) (text_key env (so_id s1)) = Some st1" "behind env st1 i1 (al_kind a) v1"
      using p(4) a unfolding alert_fresh_def by blast
    obtain s2 i2 v2 st2 where k2: "al_key b = alert_key (po_next p) s2 i2 (al_kind b) v2"
        "map_of (jr_states (po_next p)) (text_key env (so_id s2)) = Some st2" "\<not> behind env st2 i2 (al_kind b) v2"
      using new(2) b unfolding alert_fresh_def by blast
    have "so_id s1 = so_id s2" "i1 = i2" "al_kind a = al_kind b" "v1 = v2" using eq k1(1) k2(1) by (simp_all add: alert_key_same)
    then show False using k1 k2 by simp
  qed
  then have "distinct (map al_key (po_alerts p @ new))" using p(3) new(1) by auto
  then show ?thesis using same ev old fresh by (auto simp: poll_ok_def)
qed

lemma poll_ok_queue [simp]: "poll_ok env (p\<lparr>po_queue := q\<rparr>) = poll_ok env p"
  by (simp add: poll_ok_def)

lemma poll_start_ok:
  assumes "poll_start bk c has s ctx i revision = Inr p"
  shows "poll_ok env p \<and> bk_load bk s (bi_task (jr_binding (po_job p))) (jr_id (po_job p)) = Some (po_job p) \<and>
    po_next p = po_job p \<and> po_alerts p = [] \<and> po_pages p = 0"
  using assms
  by (auto simp: poll_start_def load_job_def rbind_eq_Inr ensure_eq_Inr poll_ok_def same_job_def states_evolve_def
    split: option.splits)

lemma set_state_evolves:
  assumes "map_of (jr_states job) (text_key env (so_id x)) = Some old" "moves_on old st"
  shows "states_evolve job (set_state env x st job)"
  using assms by (auto simp: states_evolve_def set_state_def AList_update_iff)

lemma set_state_simps [simp]:
  "map_of (jr_states (set_state env x st job)) k = (if k = text_key env (so_id x) then Some st else map_of (jr_states job) k)"
  "same_job job (set_state env x st job)"
  by (simp_all add: set_state_def AList_update_iff same_job_def)

fun outcome_state :: "poll_outcome \<Rightarrow> poll_state" where
  "outcome_state (More p) = p"
| "outcome_state (Stop p) = p"

lemma poll_admit_cases:
  obtains (more) "poll_admit env x previous st as p = More (p\<lparr>po_next := set_state env x st (po_next p),
      po_alerts := po_alerts p @ as, po_queue := po_queue p @ (if ss_status st = SCatchup then [x] else [])\<rparr>)"
      "int (length (po_alerts p) + length as) \<le> li_alerts (jr_limits (po_next p))"
  | (stop) new where "poll_admit env x previous st as p = Stop (p\<lparr>po_next := set_state env x (previous\<lparr>ss_status := SCatchup\<rparr>) (po_next p),
      po_alerts := po_alerts p @ new\<rparr>)" "new = [] \<or> (\<exists>a \<in> set as. is_restoration a \<and> new = [a])"
      "int (length (po_alerts p) + length new) \<le> max (int (length (po_alerts p))) (li_alerts (jr_limits (po_next p)))"
proof (cases "li_alerts (jr_limits (po_next p)) < int (length (po_alerts p) + length as)")
  case True
  show ?thesis
  proof (cases "find is_restoration as")
    case None
    then show ?thesis using True by (intro stop [of "[]"]) (simp_all add: poll_admit_def Let_def)
  next
    case (Some a)
    then have "a \<in> set as" "is_restoration a" by (auto simp: find_Some_iff)
    then show ?thesis
    proof (cases "1 \<le> li_alerts (jr_limits (po_next p)) - int (length (po_alerts p))")
      case True
      show ?thesis using \<open>li_alerts _ < _\<close> True Some \<open>a \<in> set as\<close> \<open>is_restoration a\<close>
        by (intro stop [of "[a]"]) (auto simp: poll_admit_def Let_def)
    next
      case False
      show ?thesis using \<open>li_alerts _ < _\<close> False Some by (intro stop [of "[]"]) (simp_all add: poll_admit_def Let_def)
    qed
  qed
next
  case False
  then show ?thesis by (intro more) (simp_all add: poll_admit_def)
qed

lemma poll_admit_ok:
  assumes p: "poll_ok env p" and prev: "map_of (jr_states (po_next p)) (text_key env (so_id x)) = Some previous"
    and ev: "moves_on previous st" and as: "distinct (map al_key as)" "\<forall>a \<in> set as. new_alert env (po_next p) x previous st a"
  shows "poll_ok env (outcome_state (poll_admit env x previous st as p))"
proof (cases rule: poll_admit_cases [of env x previous st as p])
  case more
  have "\<forall>a \<in> set as. alert_fresh env (po_next p) (set_state env x st (po_next p)) a"
    using as(2) prev by (fastforce simp: new_alert_def alert_fresh_def)
  then show ?thesis unfolding more(1) outcome_state.simps
    using poll_ok_admit [OF p set_state_simps(2) set_state_evolves [OF prev ev] as(1)] by simp
next
  case (stop new)
  let ?st = "previous\<lparr>ss_status := SCatchup\<rparr>"
  have ev': "moves_on previous ?st" by (simp add: moves_on_def)
  have "alert_fresh env (po_next p) (set_state env x ?st (po_next p)) a" if a: "a \<in> set new" for a
  proof -
    have a': "a \<in> set as" "is_restoration a" using a stop(2) by auto
    then obtain item v where k: "al_key a = alert_key (po_next p) x item (al_kind a) v" "\<not> behind env previous item (al_kind a) v"
        "v = show_int (ss_episode previous)" using as(2) unfolding new_alert_def by blast
    moreover have "behind env ?st item (al_kind a) v"
      using a'(2) k(3) by (simp add: is_restoration_def restored_kind_def [symmetric] behind_restored)
    ultimately show ?thesis using prev by (auto simp: alert_fresh_def)
  qed
  moreover have "distinct (map al_key new)" using stop(2) by auto
  ultimately show ?thesis unfolding stop(1) outcome_state.simps
    using poll_ok_admit [OF p set_state_simps(2) set_state_evolves [OF prev ev']] by blast
qed

lemma poll_page_ok:
  assumes "poll_page env bk c read s p = Inr r" "poll_ok env p"
  shows "poll_ok env (outcome_state r) \<and> po_job (outcome_state r) = po_job p"
proof (cases "po_queue p")
  case Nil
  then show ?thesis using assms by (auto simp: poll_page_def)
next
  case (Cons x queue)
  define p1 where "p1 = p\<lparr>po_queue := queue, po_pages := po_pages p + 1,
    po_next := (po_next p)\<lparr>jr_next := (position (jr_sources (po_next p)) x + 1) mod length (jr_sources (po_next p))\<rparr>\<rparr>"
  obtain previous page st as where prev: "map_of (jr_states (po_next p)) (text_key env (so_id x)) = Some previous"
    and col: "collectMonitor env (po_next p1) x page (jc_now c) = Inr (st, as)" and r: "r = poll_admit env x previous st as p1"
    using assms(1) by (auto simp: poll_page_def Cons rbind_eq_Inr ensure_eq_Inr Let_def p1_def split: option.splits)
  have states: "jr_states (po_next p1) = jr_states (po_next p)" by (simp add: p1_def)
  have p1: "poll_ok env p1" using assms(2)
    by (simp add: poll_ok_def p1_def same_job_def states_evolve_def alert_fresh_def)
  obtain old where old: "map_of (jr_states (po_next p1)) (text_key env (so_id x)) = Some old" "moves_on old st" "distinct (map al_key as)"
      "\<forall>a \<in> set as. new_alert env (po_next p1) x old st a" using collect_ok [OF col] by blast
  then have "old = previous" using prev states by simp
  then have "poll_ok env (outcome_state r)" unfolding r using poll_admit_ok [OF p1 old(1,2) old(3,4)] by simp
  moreover have "po_job (outcome_state (poll_admit env x previous st as p1)) = po_job p1"
    by (cases rule: poll_admit_cases [of env x previous st as p1]) simp_all
  ultimately show ?thesis by (simp add: r p1_def)
qed

section \<open>The service as a state machine\<close>

text \<open>
  Operations interleave at their awaits. \<open>jy_polls\<close> are polls inside their loop, \<open>jy_ready\<close> polls
  that have left it, \<open>jy_writes\<close> other operations before their write, \<open>jy_sent\<close> the alerts of the
  polls that returned. A failed or abandoned operation disappears; a crash loses all of them.
\<close>

record 's job_system =
  jy_store :: 's
  jy_polls :: "poll_state list"
  jy_ready :: "poll_state list"
  jy_writes :: "job_write list"
  jy_sent :: "monitor_alert list"

fun sent_by :: "job_error + poll_result \<Rightarrow> monitor_alert list" where
  "sent_by (Inr r) = pr_alerts r"
| "sent_by (Inl e) = []"

inductive job_step :: "job_env \<Rightarrow> 's job_backend \<Rightarrow> 's job_system \<Rightarrow> 's job_system \<Rightarrow> bool" for env bk where
  prepare: "create_job env bk c (jy_store y) ctx spec = Inr (Write w) \<or>
      update_job env bk c (jy_store y) ctx i revision spec = Inr (Write w) \<or>
      cancel_job bk c (jy_store y) ctx i revision = Inr (Write w) \<Longrightarrow>
    job_step env bk y (y\<lparr>jy_writes := w # jy_writes y\<rparr>)"
| commit: "w \<in> set (jy_writes y) \<Longrightarrow>
    job_step env bk y (y\<lparr>jy_store := snd (commit_job bk c w (jy_store y)), jy_writes := remove1 w (jy_writes y)\<rparr>)"
| begin_poll: "poll_start bk c has (jy_store y) ctx i revision = Inr p \<Longrightarrow>
    job_step env bk y (y\<lparr>jy_polls := p # jy_polls y\<rparr>)"
| turn: "p \<in> set (jy_polls y) \<Longrightarrow> poll_goes_on p \<Longrightarrow> poll_page env bk c read (jy_store y) p = Inr (More p') \<Longrightarrow>
    job_step env bk y (y\<lparr>jy_polls := p' # remove1 p (jy_polls y)\<rparr>)"
| stop: "p \<in> set (jy_polls y) \<Longrightarrow> poll_goes_on p \<Longrightarrow> poll_page env bk c read (jy_store y) p = Inr (Stop p') \<Longrightarrow>
    job_step env bk y (y\<lparr>jy_polls := remove1 p (jy_polls y), jy_ready := p' # jy_ready y\<rparr>)"
| leave: "p \<in> set (jy_polls y) \<Longrightarrow> \<not> poll_goes_on p \<Longrightarrow>
    job_step env bk y (y\<lparr>jy_polls := remove1 p (jy_polls y), jy_ready := p # jy_ready y\<rparr>)"
| finish: "p \<in> set (jy_ready y) \<Longrightarrow> poll_finish env bk c p (jy_store y) = (r, s') \<Longrightarrow>
    job_step env bk y (y\<lparr>jy_store := s', jy_ready := remove1 p (jy_ready y), jy_sent := jy_sent y @ sent_by r\<rparr>)"
| abandon: "set ps \<subseteq> set (jy_polls y) \<Longrightarrow> set qs \<subseteq> set (jy_ready y) \<Longrightarrow> set ws \<subseteq> set (jy_writes y) \<Longrightarrow>
    job_step env bk y (y\<lparr>jy_polls := ps, jy_ready := qs, jy_writes := ws\<rparr>)"

inductive_cases job_stepE: "job_step env bk y y'"

definition empty_system :: "'s job_backend \<Rightarrow> 's \<Rightarrow> bool" where
  "empty_system bk s \<longleftrightarrow> (\<forall>task i. bk_load bk s task i = None)"

definition fresh_system :: "'s \<Rightarrow> 's job_system" where
  "fresh_system s = \<lparr>jy_store = s, jy_polls = [], jy_ready = [], jy_writes = [], jy_sent = []\<rparr>"

abbreviation "job_of r \<equiv> bi_task (jr_binding r)"

section \<open>The invariant\<close>

definition supersedes :: "job_record \<Rightarrow> job_record \<Rightarrow> bool" where
  \<comment> \<open>The record of a later revision of the same job.\<close>
  "supersedes old r \<longleftrightarrow>
     job_of r = job_of old \<and> jr_id r = jr_id old \<and> jr_version r = jr_version old + 1 \<and> jr_revision r = jr_revision old + 1"

definition write_ok :: "'s job_backend \<Rightarrow> 's \<Rightarrow> job_write \<Rightarrow> bool" where
  "write_ok bk s w \<longleftrightarrow>
     (wr_expected w = None) \<or>
     (\<exists>old. bk_load bk s (job_of old) (jr_id old) = Some old \<and> wr_expected w = Some (jr_version old) \<and> supersedes old (wr_record w))"

lemma load_job_ok:
  assumes "load_job bk c s ctx i revision rebind = Inr job"
  shows "bk_load bk s (job_of job) (jr_id job) = Some job" "jr_id job = i" "task_binding_of ctx = Inr b \<Longrightarrow> job_of job = bi_task b"
  using assms by (auto simp: load_job_def rbind_eq_Inr ensure_eq_Inr split: option.splits)

lemma superseding_write_ok:
  assumes "load_job bk c s ctx i revision rebind = Inr job" "task_binding_of ctx = Inr b"
    "wr_expected w = Some (jr_version job)" "jr_id (wr_record w) = jr_id job" "jr_binding (wr_record w) = b"
    "jr_version (wr_record w) = jr_version job + 1" "jr_revision (wr_record w) = jr_revision job + 1"
  shows "write_ok bk s w"
  unfolding write_ok_def supersedes_def using load_job_ok [OF assms(1)] assms(2-7) by (metis)

lemma prepared_write_ok:
  assumes "create_job env bk c s ctx spec = Inr (Write w) \<or> update_job env bk c s ctx i revision spec = Inr (Write w) \<or>
    cancel_job bk c s ctx i revision = Inr (Write w)"
  shows "write_ok bk s w"
  using assms
proof (elim disjE)
  assume "create_job env bk c s ctx spec = Inr (Write w)"
  then show ?thesis by (auto simp: create_job_def write_ok_def rbind_eq_Inr ensure_eq_Inr split: option.splits)
next
  assume "update_job env bk c s ctx i revision spec = Inr (Write w)"
  then obtain job b where job: "load_job bk c s ctx i (Some revision) True = Inr job" and b: "task_binding_of ctx = Inr b"
    and w: "wr_expected w = Some (jr_version job)" "jr_id (wr_record w) = jr_id job" "jr_binding (wr_record w) = b"
      "jr_version (wr_record w) = jr_version job + 1" "jr_revision (wr_record w) = jr_revision job + 1"
    unfolding update_job_def by (auto simp: rbind_eq_Inr ensure_eq_Inr)
  then show ?thesis by (rule superseding_write_ok)
next
  assume "cancel_job bk c s ctx i revision = Inr (Write w)"
  then obtain job b where job: "load_job bk c s ctx i (Some revision) True = Inr job" and b: "task_binding_of ctx = Inr b"
    and w: "wr_expected w = Some (jr_version job)" "jr_id (wr_record w) = jr_id job" "jr_binding (wr_record w) = b"
      "jr_version (wr_record w) = jr_version job + 1" "jr_revision (wr_record w) = jr_revision job + 1"
    unfolding cancel_job_def by (auto simp: rbind_eq_Inr ensure_eq_Inr split: if_splits)
  then show ?thesis by (rule superseding_write_ok)
qed

definition sent_ok :: "job_env \<Rightarrow> job_record \<Rightarrow> monitor_alert \<Rightarrow> bool" where
  \<comment> \<open>The current record of its job rules out that the alert is given out again.\<close>
  "sent_ok env r a \<longleftrightarrow>
     (\<exists>job src item version. al_key a = alert_key job src item (al_kind a) version \<and> job_of r = job_of job \<and> jr_id r = jr_id job \<and>
        (jr_revision job < jr_revision r \<or>
         (jr_revision job = jr_revision r \<and> jr_binding job = jr_binding r \<and>
          (\<exists>st. map_of (jr_states r) (text_key env (so_id src)) = Some st \<and> behind env st item (al_kind a) version))))"

lemma sent_ok_supersedes: "sent_ok env old a \<Longrightarrow> supersedes old r \<Longrightarrow> sent_ok env r a"
  unfolding sent_ok_def supersedes_def by (metis zle_add1_eq_le order_le_less order_less_imp_le)

lemma sent_ok_evolves:
  assumes "sent_ok env old a" "states_evolve old r" "jr_binding r = jr_binding old" "jr_id r = jr_id old" "jr_revision r = jr_revision old"
  shows "sent_ok env r a"
proof -
  obtain job src item v where k: "al_key a = alert_key job src item (al_kind a) v" "job_of old = job_of job" "jr_id old = jr_id job"
      and or: "jr_revision job < jr_revision old \<or> (jr_revision job = jr_revision old \<and> jr_binding job = jr_binding old \<and>
        (\<exists>st. map_of (jr_states old) (text_key env (so_id src)) = Some st \<and> behind env st item (al_kind a) v))"
    using assms(1) unfolding sent_ok_def by blast
  have "\<exists>st'. map_of (jr_states r) (text_key env (so_id src)) = Some st' \<and> behind env st' item (al_kind a) v"
    if "map_of (jr_states old) (text_key env (so_id src)) = Some st" "behind env st item (al_kind a) v" for st
    using states_evolveD [OF assms(2) that(1)] behind_evolves that(2) by blast
  then show ?thesis unfolding sent_ok_def using k or assms(3-5) by metis
qed

lemma sent_ok_fresh:
  assumes "alert_fresh env job next a" "states_evolve job r" "map_of (jr_states r) = map_of (jr_states next)"
    "jr_binding r = jr_binding job" "jr_id r = jr_id job" "jr_revision r = jr_revision job"
  shows "sent_ok env r a"
  using assms(1) unfolding alert_fresh_def sent_ok_def by (metis assms(3-6))

lemma sent_ok_apart:
  assumes "sent_ok env job a" "alert_fresh env job next b"
  shows "al_key a \<noteq> al_key b"
proof
  assume eq: "al_key a = al_key b"
  obtain j1 s1 i1 v1 where k1: "al_key a = alert_key j1 s1 i1 (al_kind a) v1"
      "jr_revision j1 < jr_revision job \<or> (jr_revision j1 = jr_revision job \<and> jr_binding j1 = jr_binding job \<and>
        (\<exists>st. map_of (jr_states job) (text_key env (so_id s1)) = Some st \<and> behind env st i1 (al_kind a) v1))"
    using assms(1) unfolding sent_ok_def by blast
  obtain s2 i2 v2 old where k2: "al_key b = alert_key job s2 i2 (al_kind b) v2"
      "map_of (jr_states job) (text_key env (so_id s2)) = Some old" "\<not> behind env old i2 (al_kind b) v2"
    using assms(2) unfolding alert_fresh_def by blast
  have same: "jr_revision j1 = jr_revision job" "so_id s1 = so_id s2" "i1 = i2" "al_kind a = al_kind b" "v1 = v2"
    using eq k1(1) k2(1) by (simp_all add: alert_key_same)
  then show False using k1(2) k2(2,3) by auto
qed

locale job_store = cas_store "bk_load bk" "bk_save bk" slot "\<lambda>r. bi_task (jr_binding r)" jr_id jr_version
  for bk :: "'s job_backend" and slot :: "utext \<Rightarrow> utext \<Rightarrow> utext"
begin

definition write_pending :: "'s \<Rightarrow> job_write \<Rightarrow> bool" where
  "write_pending s w \<longleftrightarrow>
     wr_expected w = None \<or>
     (\<exists>old. tracks s old \<and> wr_expected w = Some (jr_version old) \<and> supersedes old (wr_record w))"

definition sent_at :: "job_env \<Rightarrow> 's \<Rightarrow> monitor_alert \<Rightarrow> bool" where
  "sent_at env s a \<longleftrightarrow> (\<exists>r. bk_load bk s (job_of r) (jr_id r) = Some r \<and> sent_ok env r a)"

definition service_ok :: "job_env \<Rightarrow> 's job_system \<Rightarrow> bool" where
  "service_ok env y \<longleftrightarrow>
     (\<forall>p \<in> set (jy_polls y @ jy_ready y). poll_ok env p \<and> tracks (jy_store y) (po_job p)) \<and>
     (\<forall>w \<in> set (jy_writes y). write_pending (jy_store y) w) \<and>
     (\<forall>a \<in> set (jy_sent y). sent_at env (jy_store y) a) \<and> distinct (map al_key (jy_sent y))"

lemma commit_store:
  "commit_job bk c w s = (r, s') \<Longrightarrow>
     (s' = s \<and> (\<exists>e. r = Inl e)) \<or>
     (s' = snd (bk_save bk s (wr_record w) (wr_expected w)) \<and>
      (if fst (bk_save bk s (wr_record w) (wr_expected w)) then r = Inr (wr_record w) else \<exists>e. r = Inl e))"
  by (auto simp: commit_job_def split: sum.splits prod.splits bool.splits)

text \<open>A write that replaces the record it was made from, or the first of its slot.\<close>

definition steady :: "'s \<Rightarrow> job_record \<Rightarrow> int option \<Rightarrow> bool" where
  "steady s r e \<longleftrightarrow>
     e = None \<or> (\<exists>old. tracks s old \<and> e = Some (jr_version old) \<and> job_of r = job_of old \<and> jr_id r = jr_id old \<and>
       jr_version r = jr_version old + 1)"

lemma steady_tracks: "steady s r e \<Longrightarrow> tracks s q \<Longrightarrow> tracks (snd (bk_save bk s r e)) q"
  by (rule save_moves_on) (auto simp: steady_def)

lemma steady_pending: "steady s r e \<Longrightarrow> write_pending s w \<Longrightarrow> write_pending (snd (bk_save bk s r e)) w"
  unfolding write_pending_def using steady_tracks by blast

lemma steady_old:
  assumes "steady s r e" "fst (bk_save bk s r e)" "bk_load bk s (job_of r) (jr_id r) = Some cur"
  shows "tracks s cur \<and> e = Some (jr_version cur) \<and> job_of r = job_of cur \<and> jr_id r = jr_id cur \<and> jr_version r = jr_version cur + 1"
proof -
  have e: "e = Some (jr_version cur)" using assms(2,3) save_iff by auto
  then obtain old where old: "tracks s old" "jr_version cur = jr_version old" "job_of r = job_of old" "jr_id r = jr_id old"
      "jr_version r = jr_version old + 1" using assms(1) by (auto simp: steady_def)
  have "fst (bk_save bk s r (Some (jr_version old)))" using assms(2) e old(2) by simp
  moreover have "slot (job_of old) (jr_id old) = slot (job_of r) (jr_id r)" using old(3,4) by simp
  ultimately have "bk_load bk s (job_of r) (jr_id r) = Some old" by (rule save_current [OF old(1)])
  then have "cur = old" using assms(3) by simp
  then show ?thesis using old e by simp
qed

lemma saved_sent:
  assumes "steady s r e" "sent_at env s a"
    and keep: "\<And>cur. bk_load bk s (job_of r) (jr_id r) = Some cur \<Longrightarrow> tracks s cur \<Longrightarrow> e = Some (jr_version cur) \<Longrightarrow>
      job_of r = job_of cur \<Longrightarrow> jr_id r = jr_id cur \<Longrightarrow> sent_ok env cur a \<Longrightarrow> sent_ok env r a"
  shows "sent_at env (snd (bk_save bk s r e)) a"
proof -
  obtain q where q: "bk_load bk s (job_of q) (jr_id q) = Some q" "sent_ok env q a" using assms(2) by (auto simp: sent_at_def)
  show ?thesis
  proof (cases "fst (bk_save bk s r e) \<and> slot (job_of q) (jr_id q) = slot (job_of r) (jr_id r)")
    case True
    then have load: "bk_load bk s (job_of r) (jr_id r) = Some q" using load_slot q(1) by metis
    then have "sent_ok env r a" using keep [OF load] steady_old [OF assms(1) _ load] True q(2) by blast
    moreover have "bk_load bk (snd (bk_save bk s r e)) (job_of r) (jr_id r) = Some r" using True by (simp add: load_save)
    ultimately show ?thesis by (auto simp: sent_at_def)
  next
    case False
    then show ?thesis using q by (auto simp: sent_at_def load_save)
  qed
qed

lemma pending_steady: "write_pending s w \<Longrightarrow> steady s (wr_record w) (wr_expected w)"
  by (auto simp: write_pending_def steady_def supersedes_def)

lemma commit_ok:
  assumes w: "write_pending s w" and commit: "commit_job bk c w s = (r, s')"
  shows "tracks s q \<Longrightarrow> tracks s' q" "write_pending s v \<Longrightarrow> write_pending s' v" "sent_at env s a \<Longrightarrow> sent_at env s' a"
proof -
  note st = pending_steady [OF w]
  show "tracks s q \<Longrightarrow> tracks s' q" using commit_store [OF commit] steady_tracks [OF st] by blast
  show "write_pending s v \<Longrightarrow> write_pending s' v" using commit_store [OF commit] steady_pending [OF st] by blast
  assume a: "sent_at env s a"
  have "sent_at env (snd (bk_save bk s (wr_record w) (wr_expected w))) a"
  proof (rule saved_sent [OF st a])
    fix cur assume cur: "bk_load bk s (job_of (wr_record w)) (jr_id (wr_record w)) = Some cur" "tracks s cur"
      "wr_expected w = Some (jr_version cur)" "job_of (wr_record w) = job_of cur" "jr_id (wr_record w) = jr_id cur" "sent_ok env cur a"
    then obtain old where old: "tracks s old" "jr_version cur = jr_version old" "supersedes old (wr_record w)"
      using w by (auto simp: write_pending_def)
    obtain q where "bk_load bk s (job_of old) (jr_id old) = Some q" "q = old \<or> jr_version old < jr_version q"
      using old(1) by (auto simp: tracks_def)
    then have "cur = old" using cur(1,4,5) old(2,3) by (auto simp: supersedes_def)
    then show "sent_ok env (wr_record w) a" using old(3) sent_ok_supersedes cur(6) by blast
  qed
  then show "sent_at env s' a" using commit_store [OF commit] a by blast
qed

lemma finish_ok:
  assumes p: "poll_ok env p" and tr: "tracks s (po_job p)" and fin: "poll_finish env bk c p s = (r, s')"
    and sent: "\<forall>a \<in> set sent. sent_at env s a" "distinct (map al_key sent)"
  shows "tracks s q \<Longrightarrow> tracks s' q" "write_pending s v \<Longrightarrow> write_pending s' v"
    "\<forall>a \<in> set (sent @ sent_by r). sent_at env s' a" "distinct (map al_key (sent @ sent_by r))"
proof -
  let ?job = "po_job p" and ?r = "poll_record env c p" and ?e = "Some (jr_version (po_job p))"
  have same: "same_job ?job (po_next p)" and ev: "states_evolve ?job (po_next p)" and dist: "distinct (map al_key (po_alerts p))"
    and fresh: "\<forall>a \<in> set (po_alerts p). alert_fresh env ?job (po_next p) a" using p by (auto simp: poll_ok_def)
  have rec: "job_of ?r = job_of ?job" "jr_id ?r = jr_id ?job" "jr_version ?r = jr_version ?job + 1"
      "jr_binding ?r = jr_binding ?job" "jr_revision ?r = jr_revision ?job" "jr_states ?r = jr_states (po_next p)"
    using same by (simp_all add: poll_record_def same_job_def Let_def)
  have st: "steady s ?r ?e" using tr rec by (auto simp: steady_def)
  obtain x where x: "commit_job bk c (poll_write env c p) s = (x, s')" and rx: "sent_by r = (if is_ok x then pr_alerts (poll_result_of env p ?r) else [])"
    using fin commit_store by (cases "commit_job bk c (poll_write env c p) s")
      (fastforce simp: poll_finish_def poll_write_def split: sum.splits if_splits)
  have w: "wr_record (poll_write env c p) = ?r" "wr_expected (poll_write env c p) = ?e" by (simp_all add: poll_write_def)
  have cases: "(s' = s \<and> sent_by r = []) \<or>
      (s' = snd (bk_save bk s ?r ?e) \<and> (fst (bk_save bk s ?r ?e) \<or> sent_by r = []))"
    using commit_store [OF x] rx unfolding w by (auto split: if_splits)
  show "tracks s q \<Longrightarrow> tracks s' q" using cases steady_tracks [OF st] by blast
  show "write_pending s v \<Longrightarrow> write_pending s' v" using cases steady_pending [OF st] by blast
  have evr: "states_evolve ?job ?r" using ev rec(6) by (simp add: states_evolve_def)
  have kept: "sent_at env s' a" if "sent_at env s a" for a
  proof -
    have "sent_at env (snd (bk_save bk s ?r ?e)) a"
    proof (rule saved_sent [OF st that])
      fix cur assume cur: "bk_load bk s (job_of ?r) (jr_id ?r) = Some cur" "?e = Some (jr_version cur)" "sent_ok env cur a"
      have "cur = ?job" using tr cur(1,2) rec(1,2) by (auto simp: tracks_def)
      then show "sent_ok env ?r a" using sent_ok_evolves [OF cur(3)] evr rec by simp
    qed
    then show ?thesis using cases that by blast
  qed
  show "\<forall>a \<in> set (sent @ sent_by r). sent_at env s' a"
  proof
    fix a assume "a \<in> set (sent @ sent_by r)"
    then consider "a \<in> set sent" | "a \<in> set (sent_by r)" by auto
    then show "sent_at env s' a"
    proof cases
      case 2
      then have ok: "fst (bk_save bk s ?r ?e)" "s' = snd (bk_save bk s ?r ?e)" using cases by auto
      have "a \<in> set (po_alerts p)" using 2 rx by (auto simp: poll_result_of_def split: if_splits)
      then have "alert_fresh env ?job (po_next p) a" using fresh by blast
      then have "sent_ok env ?r a" by (rule sent_ok_fresh [OF _ evr]) (simp_all add: rec)
      then show ?thesis using ok by (auto simp: sent_at_def load_save)
    qed (use kept sent(1) in blast)
  qed
  have keys: "set (map al_key (sent_by r)) \<subseteq> set (map al_key (po_alerts p))" "distinct (map al_key (sent_by r))"
    using rx dist distinct_map_mset [of "sortAlerts env (sortAlerts env (po_alerts p))" "po_alerts p" al_key]
    by (auto simp: poll_result_of_def)
  have "al_key a \<noteq> al_key b" if a: "a \<in> set sent" and b: "b \<in> set (sent_by r)" for a b
  proof
    assume eq: "al_key a = al_key b"
    have save: "fst (bk_save bk s ?r ?e)" using cases b by auto
    have cur: "bk_load bk s (job_of ?job) (jr_id ?job) = Some ?job" using save_current [OF tr save] rec(1,2) by simp
    obtain q where q: "bk_load bk s (job_of q) (jr_id q) = Some q" "sent_ok env q a" using sent(1) a by (auto simp: sent_at_def)
    have bp: "b \<in> set (po_alerts p)" using b rx by (auto simp: poll_result_of_def split: if_splits)
    then have "alert_fresh env ?job (po_next p) b" using fresh by blast
    moreover have "q = ?job"
    proof -
      obtain j1 s1 i1 v1 where k1: "al_key a = alert_key j1 s1 i1 (al_kind a) v1" "job_of q = job_of j1" "jr_id q = jr_id j1"
        using q(2) unfolding sent_ok_def by blast
      obtain s2 i2 v2 where k2: "al_key b = alert_key ?job s2 i2 (al_kind b) v2" using fresh bp unfolding alert_fresh_def by blast
      have "alert_key j1 s1 i1 (al_kind a) v1 = alert_key ?job s2 i2 (al_kind b) v2" using eq unfolding k1(1) [symmetric] k2 [symmetric] .
      then have "jr_binding j1 = jr_binding ?job" "jr_id j1 = jr_id ?job" unfolding alert_key_same by blast+
      then have "job_of q = job_of ?job" "jr_id q = jr_id ?job" using k1(2,3) by simp_all
      then have "bk_load bk s (job_of q) (jr_id q) = bk_load bk s (job_of ?job) (jr_id ?job)" by (rule arg_cong2)
      then have "Some q = bk_load bk s (job_of ?job) (jr_id ?job)" using q(1) by argo
      then have "Some q = Some ?job" using cur by argo
      then show ?thesis by (rule option.inject [THEN iffD1])
    qed
    ultimately show False using sent_ok_apart q(2) eq by blast
  qed
  then have "set (map al_key sent) \<inter> set (map al_key (sent_by r)) = {}" unfolding set_map by blast
  then show "distinct (map al_key (sent @ sent_by r))" unfolding map_append distinct_append using sent(2) keys(2) by blast
qed

lemma service_step:
  assumes "job_step env bk y y'" "service_ok env y"
  shows "service_ok env y'"
  using assms
proof (cases rule: job_step.cases)
  case (prepare c ctx spec w i revision)
  then have "write_ok bk (jy_store y) w" by (intro prepared_write_ok) iprover
  then have "write_pending (jy_store y) w" unfolding write_ok_def write_pending_def using loaded_tracks by blast
  then show ?thesis using assms(2) prepare(1) by (simp add: service_ok_def)
next
  case (commit w c)
  obtain r s' where rs: "commit_job bk c w (jy_store y) = (r, s')" by (cases "commit_job bk c w (jy_store y)")
  have "write_pending (jy_store y) w" using assms(2) commit by (auto simp: service_ok_def)
  note ok = commit_ok [OF this rs]
  show ?thesis using assms(2) commit ok rs by (auto simp: service_ok_def dest: set_remove1_subset [THEN subsetD])
next
  case (begin_poll c has ctx i revision p)
  have "poll_ok env p \<and> tracks (jy_store y) (po_job p)" using poll_start_ok [OF begin_poll(2), of env] loaded_tracks by blast
  then show ?thesis using assms(2) begin_poll by (auto simp: service_ok_def)
next
  case (turn p c read p')
  then have "poll_ok env p' \<and> po_job p' = po_job p" using poll_page_ok [OF turn(4)] assms(2) by (auto simp: service_ok_def)
  then show ?thesis using assms(2) turn by (auto simp: service_ok_def dest: set_remove1_subset [THEN subsetD])
next
  case (stop p c read p')
  then have "poll_ok env p' \<and> po_job p' = po_job p" using poll_page_ok [OF stop(4)] assms(2) by (auto simp: service_ok_def)
  then show ?thesis using assms(2) stop by (auto simp: service_ok_def dest: set_remove1_subset [THEN subsetD])
next
  case (leave p)
  then show ?thesis using assms(2) by (auto simp: service_ok_def dest: set_remove1_subset [THEN subsetD])
next
  case (finish p c r s')
  have p: "poll_ok env p" "tracks (jy_store y) (po_job p)" using assms(2) finish by (auto simp: service_ok_def)
  have sent: "\<forall>a \<in> set (jy_sent y). sent_at env (jy_store y) a" "distinct (map al_key (jy_sent y))"
    using assms(2) by (auto simp: service_ok_def)
  note ok = finish_ok [OF p finish(3) sent]
  show ?thesis using assms(2) finish ok by (auto simp: service_ok_def dest: set_remove1_subset [THEN subsetD])
next
  case (abandon ps qs ws)
  then show ?thesis using assms(2) by (auto simp: service_ok_def)
qed

lemma fresh_system_ok: "empty_system bk s \<Longrightarrow> service_ok env (fresh_system s)"
  by (simp add: service_ok_def fresh_system_def)

lemma run_ok:
  assumes "(job_step env bk)\<^sup>*\<^sup>* (fresh_system s) y" "empty_system bk s"
  shows "service_ok env y"
  using assms(1) by (induction rule: rtranclp_induct) (use assms(2) fresh_system_ok service_step in auto)

lemma alerts_once:
  assumes "(job_step env bk)\<^sup>*\<^sup>* (fresh_system s) y" "empty_system bk s"
  shows "distinct (map al_key (jy_sent y))"
  using run_ok [OF assms] by (simp add: service_ok_def)

end

interpretation memory_run: job_store "InMemoryJobStore env" "slot_key env" for env
  by unfold_locales

interpretation encrypted_run: job_store "encryptedJobStore ix" row_key for ix
  by unfold_locales

end
