(* ===== verification/JobClaims.thy ===== *)
theory JobClaims
  imports JobRun "HOL-Library.Code_Target_Nat"
begin

text \<open>
  The properties of the monitor jobs: alerts are given out once, the evidence kept for a source is
  bounded, a blocked page can be taken after the limit is raised as asked, a deleted item stays
  silent, and a restoration can be lost behind a full page.
\<close>

section \<open>Bounded evidence\<close>

definition limits_ok :: "job_limits \<Rightarrow> bool" where
  "limits_ok l \<longleftrightarrow>
     1 \<le> li_page l \<and> li_page l \<le> 100 \<and> 1 \<le> li_pages l \<and> li_pages l \<le> 16 \<and>
     1 \<le> li_alerts l \<and> li_alerts l \<le> 1600 \<and> 1 \<le> li_tracked l \<and> li_tracked l \<le> 10000"

definition within :: "int \<Rightarrow> source_state \<Rightarrow> bool" where
  "within n st \<longleftrightarrow> int (length (ss_items st)) \<le> n \<and> int (length (ss_seen st)) \<le> n"

definition record_ok :: "job_record \<Rightarrow> bool" where
  "record_ok r \<longleftrightarrow>
     limits_ok (jr_limits r) \<and> (\<forall>st \<in> snd ` set (jr_states r). within (li_tracked (jr_limits r)) st) \<and> length (jr_log r) \<le> 1600"

lemma update_length: "length (AList.update k v xs) = (if map_of xs k = None then Suc (length xs) else length xs)"
  by (induction xs) auto

lemma update_snd: "snd ` set (AList.update k v xs) \<subseteq> insert v (snd ` set xs)"
  by (induction xs) auto

lemma job_bound_ok: "job_bound v d m = Inr n \<Longrightarrow> 1 \<le> n \<and> n \<le> m"
  by (auto simp: job_bound_def Let_def ensure_eq_Inr)

lemma job_limits_ok: "job_limits_of a b c d = Inr l \<Longrightarrow> limits_ok l"
  by (auto simp: job_limits_of_def rbind_eq_Inr limits_ok_def dest!: job_bound_ok)

lemma admit_within:
  assumes "admit_change env job src c s = (s', new)" "\<not> full_for job s c" "map_of (ss_seen s) (pc_event_key c) = None"
    "within (li_tracked (jr_limits job)) s"
  shows "within (li_tracked (jr_limits job)) s'"
  using assms by (auto simp: admit_change_def full_for_def within_def update_length Let_def split: if_splits)

lemma take_within:
  "take_changes env job src cs s as = Inr (Passed s' as') \<Longrightarrow> within (li_tracked (jr_limits job)) s \<Longrightarrow>
     within (li_tracked (jr_limits job)) s'"
proof (induction cs arbitrary: s as)
  case (Cons c cs)
  then show ?case
    by (cases "admit_change env job src c s") (auto split: option.splits if_splits dest: admit_within)
qed simp

lemma collect_within:
  assumes "collectMonitor env job src p now = Inr (st, as)" "map_of (jr_states job) (text_key env (so_id src)) = Some old"
    "within (li_tracked (jr_limits job)) old"
  shows "within (li_tracked (jr_limits job)) st"
proof -
  consider "lose_source env job src now old = (st, as)" | "collect_available env job src p now old = Inr (st, as)"
    using assms(1,2) by (auto simp: collectMonitor_def ensure_eq_Inr rbind_eq_Inr split: if_splits)
  then show ?thesis
  proof cases
    case 1
    then show ?thesis using assms(3) by (auto simp: lose_source_def within_def Let_def)
  next
    case 2
    show ?thesis
    proof (cases rule: collect_available_cases [OF 2])
      case (1 cs)
      then show ?thesis using assms(3) by (simp add: within_def)
    next
      case (2 cs s as')
      then show ?thesis using take_within [OF 2(2) assms(3)] by (simp add: within_def)
    qed
  qed
qed

lemma set_state_ok:
  assumes "record_ok r" "within (li_tracked (jr_limits r)) st"
  shows "record_ok (set_state env x st r)"
proof -
  have "within (li_tracked (jr_limits r)) q" if q: "q \<in> snd ` set (AList.update (text_key env (so_id x)) st (jr_states r))" for q
  proof -
    have "q = st \<or> q \<in> snd ` set (jr_states r)" using subsetD [OF update_snd q] by simp
    then show ?thesis using assms unfolding record_ok_def by blast
  qed
  then show ?thesis using assms(1) unfolding record_ok_def set_state_def by simp
qed

lemma record_state: "record_ok r \<Longrightarrow> map_of (jr_states r) k = Some st \<Longrightarrow> within (li_tracked (jr_limits r)) st"
  unfolding record_ok_def by (force dest: map_of_SomeD)

lemma poll_page_record:
  assumes "poll_page env bk c read s p = Inr r" "record_ok (po_next p)"
  shows "record_ok (po_next (outcome_state r))"
proof (cases "po_queue p")
  case Nil
  then show ?thesis using assms by (auto simp: poll_page_def)
next
  case (Cons x queue)
  define p1 where "p1 = p\<lparr>po_queue := queue, po_pages := po_pages p + 1,
    po_next := (po_next p)\<lparr>jr_next := (position (jr_sources (po_next p)) x + 1) mod length (jr_sources (po_next p))\<rparr>\<rparr>"
  obtain previous page st as where prev: "map_of (jr_states (po_next p)) (text_key env (so_id x)) = Some previous"
    and col: "collectMonitor env (po_next p1) x page (jc_now c) = Inr (st, as)" and r: "r = poll_admit env x previous st as p1"
    using assms(1) by (auto simp: poll_page_def Cons rbind_eq_Inr ensure_eq_Inr Let_def p1_def split: option.splits)
  have p1: "record_ok (po_next p1)" using assms(2) by (simp add: record_ok_def p1_def)
  have prev1: "map_of (jr_states (po_next p1)) (text_key env (so_id x)) = Some previous" using prev by (simp add: p1_def)
  note w = record_state [OF p1 prev1]
  have st: "within (li_tracked (jr_limits (po_next p1))) st" using collect_within [OF col prev1 w] .
  show ?thesis unfolding r
  proof (cases rule: poll_admit_cases [of env x previous st as p1])
    case more
    then show "record_ok (po_next (outcome_state (poll_admit env x previous st as p1)))" using set_state_ok [OF p1 st] by simp
  next
    case (stop new)
    have "within (li_tracked (jr_limits (po_next p1))) (previous\<lparr>ss_status := SCatchup\<rparr>)" using w by (simp add: within_def)
    then show "record_ok (po_next (outcome_state (poll_admit env x previous st as p1)))" using set_state_ok [OF p1] stop(1) by simp
  qed
qed

lemma last_log_length: "0 \<le> n \<Longrightarrow> int (length (last_log n xs)) \<le> n"
  by (simp add: last_log_def)

lemma poll_record_ok: "record_ok (po_next p) \<Longrightarrow> record_ok (poll_record env c p)"
  using last_log_length [of "li_alerts (jr_limits (po_next p))" "jr_log (po_next p) @ sortAlerts env (po_alerts p)"]
  by (auto simp: poll_record_def record_ok_def limits_ok_def Let_def)

lemma carried_within: "carried_state env job v n x = Inr (k, st) \<Longrightarrow> within n st"
  by (auto simp: carried_state_def within_def Let_def ensure_eq_Inr split: if_splits)

lemma fresh_within: "1 \<le> n \<Longrightarrow> within n (fresh_state b)"
  by (simp add: within_def fresh_state_def)

lemma prepared_record_ok:
  assumes "create_job env bk c s ctx spec = Inr (Write w) \<or> update_job env bk c s ctx i revision spec = Inr (Write w) \<or>
    cancel_job bk c s ctx i revision = Inr (Write w)"
    and stored: "\<And>t i r. bk_load bk s t i = Some r \<Longrightarrow> record_ok r"
  shows "record_ok (wr_record w)"
  using assms(1)
proof (elim disjE)
  assume "create_job env bk c s ctx spec = Inr (Write w)"
  then show ?thesis
    by (auto simp: create_job_def rbind_eq_Inr ensure_eq_Inr record_ok_def limits_ok_def intro!: fresh_within split: option.splits
      dest!: job_limits_ok)
next
  assume "update_job env bk c s ctx i revision spec = Inr (Write w)"
  then obtain job a b e d l ss states where job: "load_job bk c s ctx i (Some revision) True = Inr job"
    and l: "job_limits_of a b e d = Inr l" and states: "rmap (carried_state env job (jr_revision job + 1) (li_tracked l)) ss = Inr states"
    and w: "jr_limits (wr_record w) = l" "jr_states (wr_record w) = states" "jr_log (wr_record w) = jr_log job"
    unfolding update_job_def by (auto simp: rbind_eq_Inr ensure_eq_Inr)
  have "record_ok job" using stored load_job_ok(1) [OF job] by blast
  moreover have "within (li_tracked l) st" if "(k, st) \<in> set states" for k st
    using rmap_all [OF states that] carried_within by blast
  ultimately show ?thesis using job_limits_ok [OF l] by (auto simp: record_ok_def w)
next
  assume "cancel_job bk c s ctx i revision = Inr (Write w)"
  then obtain job where job: "load_job bk c s ctx i (Some revision) True = Inr job"
    and w: "jr_limits (wr_record w) = jr_limits job" "jr_states (wr_record w) = jr_states job" "jr_log (wr_record w) = jr_log job"
    unfolding cancel_job_def by (auto simp: rbind_eq_Inr ensure_eq_Inr split: if_splits)
  have "record_ok job" using stored load_job_ok(1) [OF job] by blast
  then show ?thesis by (simp add: record_ok_def w)
qed

context job_store
begin

definition bounded_system :: "'s job_system \<Rightarrow> bool" where
  "bounded_system y \<longleftrightarrow>
     (\<forall>t i r. bk_load bk (jy_store y) t i = Some r \<longrightarrow> record_ok r) \<and>
     (\<forall>p \<in> set (jy_polls y @ jy_ready y). record_ok (po_next p)) \<and> (\<forall>w \<in> set (jy_writes y). record_ok (wr_record w))"

lemma saved_records:
  assumes "\<forall>t i r. bk_load bk s t i = Some r \<longrightarrow> record_ok r" "record_ok q"
  shows "\<forall>t i r. bk_load bk (snd (bk_save bk s q e)) t i = Some r \<longrightarrow> record_ok r"
  using assms by (simp add: load_save)

lemma bounded_step:
  assumes "job_step env bk y y'" "bounded_system y"
  shows "bounded_system y'"
  using assms
proof (cases rule: job_step.cases)
  case (prepare c ctx spec w i revision)
  then have "record_ok (wr_record w)" using prepared_record_ok [OF prepare(2)] assms(2) by (auto simp: bounded_system_def)
  then show ?thesis using assms(2) prepare(1) by (simp add: bounded_system_def)
next
  case (commit w c)
  obtain r s' where rs: "commit_job bk c w (jy_store y) = (r, s')" by (cases "commit_job bk c w (jy_store y)")
  have "record_ok (wr_record w)" "\<forall>t i r. bk_load bk (jy_store y) t i = Some r \<longrightarrow> record_ok r"
    using assms(2) commit by (auto simp: bounded_system_def)
  then have "\<forall>t i r. bk_load bk s' t i = Some r \<longrightarrow> record_ok r" using commit_store [OF rs] saved_records by blast
  then show ?thesis using assms(2) commit rs by (auto simp: bounded_system_def dest: set_remove1_subset [THEN subsetD])
next
  case (begin_poll c has ctx i revision p)
  have "po_next p = po_job p" "bk_load bk (jy_store y) (job_of (po_job p)) (jr_id (po_job p)) = Some (po_job p)"
    using poll_start_ok [OF begin_poll(2)] by auto
  then have "record_ok (po_next p)" using assms(2) by (auto simp: bounded_system_def)
  then show ?thesis using assms(2) begin_poll by (auto simp: bounded_system_def)
next
  case (turn p c read p')
  then have "record_ok (po_next p')" using poll_page_record [OF turn(4)] assms(2) by (auto simp: bounded_system_def)
  then show ?thesis using assms(2) turn by (auto simp: bounded_system_def dest: set_remove1_subset [THEN subsetD])
next
  case (stop p c read p')
  then have "record_ok (po_next p')" using poll_page_record [OF stop(4)] assms(2) by (auto simp: bounded_system_def)
  then show ?thesis using assms(2) stop by (auto simp: bounded_system_def dest: set_remove1_subset [THEN subsetD])
next
  case (leave p)
  then show ?thesis using assms(2) by (auto simp: bounded_system_def dest: set_remove1_subset [THEN subsetD])
next
  case (finish p c r s')
  obtain x where x: "commit_job bk c (poll_write env c p) (jy_store y) = (x, s')"
    using finish(3) by (auto simp: poll_finish_def split: prod.splits sum.splits)
  have "record_ok (wr_record (poll_write env c p))"
    using assms(2) finish poll_record_ok by (auto simp: bounded_system_def poll_write_def)
  moreover have "\<forall>t i r. bk_load bk (jy_store y) t i = Some r \<longrightarrow> record_ok r" using assms(2) by (auto simp: bounded_system_def)
  ultimately have "\<forall>t i r. bk_load bk s' t i = Some r \<longrightarrow> record_ok r" using commit_store [OF x] saved_records by blast
  then show ?thesis using assms(2) finish by (auto simp: bounded_system_def dest: set_remove1_subset [THEN subsetD])
next
  case (abandon ps qs ws)
  then show ?thesis using assms(2) by (auto simp: bounded_system_def)
qed

lemma bounded_run:
  assumes "(job_step env bk)\<^sup>*\<^sup>* (fresh_system s) y" "empty_system bk s"
  shows "bounded_system y"
  using assms(1)
proof (induction rule: rtranclp_induct)
  case base
  then show ?case using assms(2) by (simp add: bounded_system_def fresh_system_def empty_system_def)
qed (rule bounded_step)

end

section \<open>Pages one after the other\<close>

fun collect_pages ::
  "job_env \<Rightarrow> job_source \<Rightarrow> job_record \<Rightarrow> (source_page \<times> utext) list \<Rightarrow> job_error + job_record \<times> monitor_alert list" where
  "collect_pages env src job [] = Inr (job, [])"
| "collect_pages env src job ((p, now) # ps) =
     rbind (collectMonitor env job src p now) (\<lambda>(st, as).
     rbind (collect_pages env src (set_state env src st job) ps) (\<lambda>(job', bs). Inr (job', as @ bs)))"

lemma collect_pages_Cons:
  "collect_pages env src job ((p, now) # ps) = Inr (job', cs) \<longleftrightarrow>
     (\<exists>st as bs. collectMonitor env job src p now = Inr (st, as) \<and>
        collect_pages env src (set_state env src st job) ps = Inr (job', bs) \<and> cs = as @ bs)"
  by (auto simp: rbind_eq_Inr)

lemma collect_sound:
  assumes "collectMonitor env job src p now = Inr (st, as)" "map_of (jr_states job) (text_key env (so_id src)) = Some old"
  obtains (lost) "lose_source env job src now old = (st, as)" | (available) "collect_available env job src p now old = Inr (st, as)"
  using assms by (auto simp: collectMonitor_def ensure_eq_Inr rbind_eq_Inr split: if_splits)

lemma collect_capacity:
  assumes "collectMonitor env job src p now = Inr (st, as)" "map_of (jr_states job) (text_key env (so_id src)) = Some old"
    "ss_status st = SCapacity"
  shows "\<exists>cs. rmap (prepare_change env job) (pg_changes p) = Inr cs \<and>
    take_changes env job src cs old (restored_alerts env job src now old) = Inr Blocked \<and>
    st = old\<lparr>ss_status := SCapacity, ss_required := Some (required_items old cs)\<rparr> \<and> as = []"
  using assms(1,2)
proof (cases rule: collect_sound)
  case lost
  then show ?thesis using assms(3) by (auto simp: lose_source_def Let_def)
next
  case available
  show ?thesis
  proof (cases rule: collect_available_cases [OF available])
    case (1 cs)
    then show ?thesis by blast
  next
    case (2 cs s as')
    then show ?thesis using assms(3) by (simp split: if_splits)
  qed
qed

lemma set_state_keys:
  "alert_key (set_state env src st job) = alert_key job"
  by (intro ext) (simp add: set_state_def alert_key_def)

lemma pages_behind:
  assumes "collect_pages env src job ps = Inr (job', bs)" "map_of (jr_states job) (text_key env (so_id src)) = Some st"
    "behind env st item kind version" "b \<in> set bs"
  shows "al_key b \<noteq> alert_key job src item kind version"
  using assms
proof (induction ps arbitrary: job bs st)
  case (Cons x ps)
  obtain p now where x: "x = (p, now)" by (cases x)
  obtain st1 as cs where first: "collectMonitor env job src p now = Inr (st1, as)"
    and rest: "collect_pages env src (set_state env src st1 job) ps = Inr (job', cs)" and bs: "bs = as @ cs"
    using Cons.prems(1) unfolding x collect_pages_Cons by blast
  have step: "moves_on st st1" "\<forall>a \<in> set as. new_alert env job src st st1 a" using collect_ok [OF first] Cons.prems(2) by auto
  show ?case
  proof (cases "b \<in> set as")
    case True
    then show ?thesis using step(2) Cons.prems(3) by (auto simp: new_alert_def alert_key_same)
  next
    case False
    then have "b \<in> set cs" using Cons.prems(4) bs by simp
    moreover have "map_of (jr_states (set_state env src st1 job)) (text_key env (so_id src)) = Some st1" by simp
    ultimately have "al_key b \<noteq> alert_key (set_state env src st1 job) src item kind version"
      using Cons.IH [OF rest] behind_evolves [OF step(1) Cons.prems(3)] by blast
    then show ?thesis by (simp add: set_state_keys)
  qed
qed simp

section \<open>Tombstones\<close>

definition buried :: "job_env \<Rightarrow> utext \<Rightarrow> source_state \<Rightarrow> bool" where
  "buried env item st \<longleftrightarrow>
     (\<exists>t. map_of (ss_items st) (text_key env item) = Some t \<and> tr_deleted t \<and> \<not> tr_matched t)"

lemma mk_alert_item [simp]:
  "al_item (mk_alert env job src item kind version observed title text excerpts score) = item"
  by (simp add: mk_alert_def Let_def)

lemma source_alert_item [simp]: "al_item (source_alert env job src kind n now title) = []"
  by (simp add: source_alert_def)

lemma admit_buried:
  assumes "admit_change env job src c s = (s', new)" "buried env item s" "pc_item_key c = text_key env (pc_item c)"
  shows "buried env item s' \<and> (\<forall>a \<in> set new. al_item a \<noteq> item)"
proof -
  obtain t where t: "map_of (ss_items s) (text_key env item) = Some t" "tr_deleted t" "\<not> tr_matched t"
    using assms(2) by (auto simp: buried_def)
  show ?thesis
  proof (cases "pc_item_key c = text_key env item")
    case True
    then show ?thesis using assms(1) t
      by (auto simp: admit_change_def Let_def was_deleted_def was_matched_def buried_def AList_update_iff is_deletion_def split: if_splits)
  next
    case False
    then show ?thesis using assms(1,3) t
      by (auto simp: admit_change_def Let_def buried_def AList_update_iff split: if_splits)
  qed
qed

lemma take_buried:
  assumes "take_changes env job src cs s as = Inr (Passed s' as')" "buried env item s"
    "\<forall>c \<in> set cs. pc_item_key c = text_key env (pc_item c)"
  shows "buried env item s' \<and> (\<forall>a \<in> set as'. a \<in> set as \<or> al_item a \<noteq> item)"
  using assms
proof (induction cs arbitrary: s as)
  case (Cons c cs)
  show ?case
  proof (cases "map_of (ss_seen s) (pc_event_key c)")
    case None
    obtain s1 new where ad: "admit_change env job src c s = (s1, new)" by (cases "admit_change env job src c s")
    have "take_changes env job src cs s1 (as @ new) = Inr (Passed s' as')" using Cons.prems(1) None ad by (auto split: if_splits)
    moreover have "buried env item s1 \<and> (\<forall>a \<in> set new. al_item a \<noteq> item)" using admit_buried [OF ad Cons.prems(2)] Cons.prems(3) by simp
    ultimately show ?thesis using Cons.IH [of s1 "as @ new"] Cons.prems(3) by auto
  qed (use Cons in \<open>auto split: if_splits\<close>)
qed simp

lemma prepared_key: "prepare_change env job c = Inr pc \<Longrightarrow> pc_item_key pc = text_key env (pc_item pc)"
  by (auto simp: prepare_change_def ensure_eq_Inr rbind_eq_Inr Let_def split: option.splits)

lemma collect_buried:
  assumes "collectMonitor env job src p now = Inr (st, as)" "map_of (jr_states job) (text_key env (so_id src)) = Some old"
    "buried env item old" "item \<noteq> []"
  shows "buried env item st \<and> (\<forall>a \<in> set as. al_item a \<noteq> item)"
  using assms(1,2)
proof (cases rule: collect_sound)
  case lost
  then show ?thesis using assms(3,4) by (auto simp: lose_source_def Let_def buried_def split: if_splits)
next
  case available
  show ?thesis
  proof (cases rule: collect_available_cases [OF available])
    case (1 cs)
    then show ?thesis using assms(3) by (simp add: buried_def)
  next
    case (2 cs s as')
    have "\<forall>c \<in> set cs. pc_item_key c = text_key env (pc_item c)" using rmap_all [OF 2(1)] prepared_key by blast
    then have "buried env item s \<and> (\<forall>a \<in> set as'. a \<in> set (restored_alerts env job src now old) \<or> al_item a \<noteq> item)"
      using take_buried [OF 2(2) assms(3)] by blast
    then show ?thesis using assms(4) 2(3,4) by (auto simp: buried_def restored_alerts_def split: if_splits)
  qed
qed

lemma pages_buried:
  assumes "collect_pages env src job ps = Inr (job', bs)" "map_of (jr_states job) (text_key env (so_id src)) = Some st"
    "buried env item st" "item \<noteq> []"
  shows "\<forall>b \<in> set bs. al_item b \<noteq> item"
  using assms
proof (induction ps arbitrary: job bs st)
  case (Cons x ps)
  obtain p now where x: "x = (p, now)" by (cases x)
  obtain st1 as cs where first: "collectMonitor env job src p now = Inr (st1, as)"
    and rest: "collect_pages env src (set_state env src st1 job) ps = Inr (job', cs)" and bs: "bs = as @ cs"
    using Cons.prems(1) unfolding x collect_pages_Cons by blast
  have "map_of (jr_states (set_state env src st1 job)) (text_key env (so_id src)) = Some st1" by simp
  then show ?case using Cons.IH [OF rest] collect_buried [OF first Cons.prems(2-4)] Cons.prems(4) bs by auto
qed simp

end
