(* ===== verification/JobSafe.thy ===== *)
theory JobSafe
  imports JobClaims
begin

text \<open>
  What the monitor jobs promise, with runs on a small job as witnesses.
\<close>

section \<open>A small job\<close>

definition demo_job_env :: job_env where
  "demo_job_env = \<lparr>je_sha = (\<lambda>t. t), je_lower = (\<lambda>t. t), je_collate = (\<lambda>_ _. 0), je_compare = (\<lambda>_ _. 0),
     je_date = (\<lambda>_. Some 0), je_iso = (\<lambda>_. js ''t'')\<rparr>"

definition job_source_demo :: job_source where
  "job_source_demo = \<lparr>so_id = js ''s'', so_kind = js ''web'', so_resource = js ''r''\<rparr>"

definition demo_context :: tool_context where
  "demo_context = \<lparr>tc_task = js ''t'', tc_revision = 1, tc_grant = js ''g'', tc_grant_revision = 1, tc_run = js ''u''\<rparr>"

definition demo_spec :: job_spec where
  "demo_spec = \<lparr>js_id = Some (js ''j''), js_name = Some (js ''n''), js_sources = Some [job_source_demo], js_filter = None,
     js_page = None, js_pages = None, js_alerts = None, js_tracked = Some 1\<rparr>"

definition demo_call :: job_call where "demo_call = \<lparr>jc_now = js ''t'', jc_valid = None\<rparr>"

definition demo_record :: job_record where
  "demo_record = \<lparr>jr_id = js ''j'',
     jr_binding = \<lparr>bi_task = js ''t'', bi_intent = 1, bi_grant = js ''g'', bi_grant_revision = 1\<rparr>, jr_name = js ''n'',
     jr_sources = [job_source_demo], jr_filter = \<lparr>fi_include = [], fi_exclude = []\<rparr>, jr_revision = 1, jr_version = 1,
     jr_active = True, jr_created = js ''t'', jr_updated = js ''t'',
     jr_limits = \<lparr>li_page = 50, li_pages = 4, li_alerts = 100, li_tracked = 1\<rparr>,
     jr_states = [(text_key demo_job_env (js ''s''), fresh_state None)], jr_next = 0, jr_log = []\<rparr>"

definition demo_write :: job_write where
  "demo_write = \<lparr>wr_record = demo_record, wr_expected = None, wr_sources = None, wr_context = demo_context,
     wr_conflict = JobStorageConflict\<rparr>"

definition job_change_demo :: "utext \<Rightarrow> utext \<Rightarrow> utext \<Rightarrow> source_change" where
  "job_change_demo kind item version = \<lparr>ch_item = item, ch_kind = kind, ch_version = version, ch_observed = js ''d'',
     ch_title = Some (js ''a''), ch_text = None\<rparr>"

definition job_page_demo :: "source_change list \<Rightarrow> source_page" where
  "job_page_demo cs = \<lparr>pg_source = js ''s'', pg_changes = cs, pg_cursor = Some (js ''1''), pg_more = False, pg_unavailable = None\<rparr>"

definition demo_lost_page :: source_page where
  "demo_lost_page = \<lparr>pg_source = js ''s'', pg_changes = [], pg_cursor = None, pg_more = False, pg_unavailable = Some True\<rparr>"

definition demo_read :: "job_source \<Rightarrow> utext option \<Rightarrow> int \<Rightarrow> utext \<Rightarrow> source_page" where
  "demo_read x cursor limit checkpoint = job_page_demo [job_change_demo (js ''message'') (js ''i'') (js ''1'')]"

abbreviation "demo_bk \<equiv> encryptedJobStore (\<lambda>_. 0)"

definition job_store_demo :: "(utext \<times> job_record) list" where
  "job_store_demo = snd (commit_job demo_bk demo_call demo_write [])"

definition demo_poll :: poll_state where
  "demo_poll = \<lparr>po_context = demo_context, po_id = js ''j'', po_job = demo_record, po_next = demo_record, po_alerts = [],
     po_pages = 0, po_queue = [job_source_demo]\<rparr>"

definition demo_polled :: poll_state where
  "demo_polled = (case poll_page demo_job_env demo_bk demo_call demo_read job_store_demo demo_poll of
     Inr (More p) \<Rightarrow> p | _ \<Rightarrow> demo_poll)"

lemmas demo_job_simps = demo_job_env_def job_source_demo_def demo_context_def demo_spec_def demo_call_def demo_record_def demo_write_def

lemma demo_created: "create_job demo_job_env demo_bk demo_call [] demo_context demo_spec = Inr (Write demo_write)"
  by code_simp

lemma demo_begun: "poll_start demo_bk demo_call True job_store_demo demo_context (js ''j'') 1 = Inr demo_poll"
  by code_simp

lemma demo_turned: "poll_page demo_job_env demo_bk demo_call demo_read job_store_demo demo_poll = Inr (More demo_polled)"
  by code_simp

lemma demo_left: "poll_goes_on demo_poll" "\<not> poll_goes_on demo_polled"
  by code_simp+

definition demo_finished :: "(job_error + poll_result) \<times> (utext \<times> job_record) list" where
  "demo_finished = poll_finish demo_job_env demo_bk demo_call demo_polled job_store_demo"

definition demo_system :: "(utext \<times> job_record) list job_system" where
  "demo_system = \<lparr>jy_store = snd demo_finished, jy_polls = [], jy_ready = [], jy_writes = [], jy_sent = sent_by (fst demo_finished)\<rparr>"

lemma job_run_demo: "(job_step demo_job_env demo_bk)\<^sup>*\<^sup>* (fresh_system []) demo_system"
proof -
  let ?step = "job_step demo_job_env demo_bk"
  let ?at = "\<lambda>s ps qs ws sent. \<lparr>jy_store = s, jy_polls = ps, jy_ready = qs, jy_writes = ws, jy_sent = sent\<rparr>"
  have "?step (fresh_system []) (?at [] [] [] [demo_write] [])"
    using job_step.prepare [of demo_job_env demo_bk demo_call "fresh_system []" demo_context demo_spec demo_write] demo_created
    by (simp add: fresh_system_def)
  moreover have "?step (?at [] [] [] [demo_write] []) (?at job_store_demo [] [] [] [])"
    using job_step.commit [of demo_write "?at [] [] [] [demo_write] []" demo_job_env demo_bk demo_call] by (simp add: job_store_demo_def)
  moreover have "?step (?at job_store_demo [] [] [] []) (?at job_store_demo [demo_poll] [] [] [])"
    using job_step.begin_poll [of demo_bk demo_call True "?at job_store_demo [] [] [] []"] demo_begun by simp
  moreover have "?step (?at job_store_demo [demo_poll] [] [] []) (?at job_store_demo [demo_polled] [] [] [])"
    using job_step.turn [of demo_poll "?at job_store_demo [demo_poll] [] [] []"] demo_turned demo_left by simp
  moreover have "?step (?at job_store_demo [demo_polled] [] [] []) (?at job_store_demo [] [demo_polled] [] [])"
    using job_step.leave [of demo_polled "?at job_store_demo [demo_polled] [] [] []"] demo_left by simp
  moreover have "?step (?at job_store_demo [] [demo_polled] [] []) demo_system"
    using job_step.finish [of demo_polled "?at job_store_demo [] [demo_polled] [] []" demo_job_env demo_bk demo_call]
    by (simp add: demo_system_def demo_finished_def)
  ultimately show ?thesis by (meson converse_rtranclp_into_rtranclp rtranclp.rtrancl_refl)
qed

lemma not_in_image: "\<forall>b \<in> S. f b \<noteq> x \<Longrightarrow> x \<notin> f ` S"
  by auto

lemma empty_rows: "empty_system (encryptedJobStore ix) []"
  by (simp add: empty_system_def encryptedJobStore_def kv_get_def)

section \<open>Properties\<close>

text \<open>
  C30 Over every interleaving of job operations and polls on the application's encrypted job store,
  crashes and abandoned operations included, the polls that return never give out the same alert
  twice: no two of their alerts agree on binding, job, revision, source, item, kind and version (the
  material whose digest is the alert's id).
\<close>
theorem monitor_alert_once:
  "(job_step env (encryptedJobStore ix))\<^sup>*\<^sup>* (fresh_system []) y \<Longrightarrow> distinct (map al_key (jy_sent y))"
  using encrypted_run.alerts_once empty_rows by blast

theorem monitor_alert_once_witness:
  "length (jy_sent demo_system) = 1 \<and> distinct (map al_key (jy_sent demo_system))"
proof
  show "length (jy_sent demo_system) = 1" by code_simp
qed (rule monitor_alert_once [OF job_run_demo])

text \<open>
  C32 In every stored job, over all interleavings, the dedupe evidence kept for a source never exceeds
  the job's limit, which never exceeds 10000, and the alert log never exceeds 1600 alerts.
\<close>
theorem monitor_evidence_bounded:
  assumes "(job_step env (encryptedJobStore ix))\<^sup>*\<^sup>* (fresh_system []) y" "kv_get (jy_store y) (row_key t i) = Some r"
    "(k, st) \<in> set (jr_states r)"
  shows "int (length (ss_items st)) \<le> li_tracked (jr_limits r) \<and> int (length (ss_seen st)) \<le> li_tracked (jr_limits r) \<and>
    1 \<le> li_tracked (jr_limits r) \<and> li_tracked (jr_limits r) \<le> 10000 \<and> length (jr_log r) \<le> 1600"
proof -
  have "bk_load (encryptedJobStore ix) (jy_store y) t i = Some r" using assms(2) by (simp add: encryptedJobStore_def)
  then have "record_ok r" using encrypted_run.bounded_run [OF assms(1) empty_rows] unfolding encrypted_run.bounded_system_def by blast
  then show ?thesis using assms(3) by (auto simp: record_ok_def limits_ok_def within_def)
qed

theorem monitor_evidence_bounded_witness:
  "\<exists>r st. kv_get (jy_store demo_system) (row_key (js ''t'') (js ''j'')) = Some r \<and> st \<in> snd ` set (jr_states r) \<and>
     length (ss_items st) = 1 \<and> int (length (ss_seen st)) \<le> li_tracked (jr_limits r)"
proof -
  have "(case kv_get (jy_store demo_system) (row_key (js ''t'') (js ''j'')) of None \<Rightarrow> False
      | Some r \<Rightarrow> list_ex (\<lambda>x. length (ss_items (snd x)) = 1) (jr_states r))" by code_simp
  then obtain r k st where r: "kv_get (jy_store demo_system) (row_key (js ''t'') (js ''j'')) = Some r" "(k, st) \<in> set (jr_states r)"
      "length (ss_items st) = 1" by (auto simp: list_ex_iff split: option.splits)
  then show ?thesis using monitor_evidence_bounded [OF job_run_demo r(1,2)] by force
qed

text \<open>
  C33 A lost source that comes back with a page for which there is no room is set to \<open>capacity\<close>
  without an alert, and no sequence of later pages ever gives out the restoration alert of that
  loss: the owner who was told that the source is unavailable is never told that it is back.
\<close>
theorem restoration_alert_lost:
  assumes "map_of (jr_states job) (text_key env (so_id src)) = Some old" "ss_status old = SLost"
    and "collectMonitor env job src p now = Inr (st, as)" "ss_status st = SCapacity"
    and "collect_pages env src (set_state env src st job) ps = Inr (job', bs)"
  shows "as = [] \<and> (\<forall>b \<in> set bs. al_key b \<noteq> alert_key job src [] (js ''source-restored'') (show_int (ss_episode old)))"
proof -
  have st: "st = old\<lparr>ss_status := SCapacity, ss_required := ss_required st\<rparr>" "as = []"
    using collect_capacity [OF assms(3,1,4)] by auto
  have "ss_episode st = ss_episode old" using arg_cong [OF st(1), of ss_episode] by simp
  then have "behind env st [] restored_kind (show_int (ss_episode old))" using assms(4) by (simp add: behind_restored)
  moreover have "map_of (jr_states (set_state env src st job)) (text_key env (so_id src)) = Some st" by simp
  ultimately have "\<forall>b \<in> set bs. al_key b \<noteq> alert_key (set_state env src st job) src [] restored_kind (show_int (ss_episode old))"
    using pages_behind [OF assms(5)] by blast
  then show ?thesis using st(2) by (simp add: set_state_keys restored_kind_def)
qed

text \<open>A job whose source is lost, has evidence for one item, and may hold no more.\<close>

definition demo_tracked :: job_record where
  "demo_tracked = (case collect_pages demo_job_env job_source_demo demo_record
       [(job_page_demo [job_change_demo (js ''message'') (js ''i'') (js ''1'')], js ''t''), (demo_lost_page, js ''t'')] of
     Inr (job, _) \<Rightarrow> job | Inl _ \<Rightarrow> demo_record)"

definition demo_state :: "job_record \<Rightarrow> source_state" where
  "demo_state job = or_else (map_of (jr_states job) (text_key demo_job_env (js ''s''))) (fresh_state None)"

definition demo_second :: source_page where
  "demo_second = job_page_demo [job_change_demo (js ''message'') (js ''k'') (js ''1'')]"

definition demo_full :: source_state where
  "demo_full = (demo_state demo_tracked)\<lparr>ss_status := SCapacity, ss_required := Some 2\<rparr>"

lemma demo_tracked_state:
  "map_of (jr_states demo_tracked) (text_key demo_job_env (so_id job_source_demo)) = Some (demo_state demo_tracked)"
  by code_simp

lemma demo_tracked_lost: "ss_status (demo_state demo_tracked) = SLost"
  by code_simp

lemma demo_blocked: "collectMonitor demo_job_env demo_tracked job_source_demo demo_second (js ''t'') = Inr (demo_full, [])"
  by code_simp

definition demo_after :: "job_record \<times> monitor_alert list" where
  "demo_after = (case collect_pages demo_job_env job_source_demo (set_state demo_job_env job_source_demo demo_full demo_tracked)
       [(job_page_demo [], js ''t'')] of
     Inr r \<Rightarrow> r | Inl _ \<Rightarrow> (demo_record, []))"

lemma demo_collected:
  "collect_pages demo_job_env job_source_demo (set_state demo_job_env job_source_demo demo_full demo_tracked) [(job_page_demo [], js ''t'')] =
     Inr (fst demo_after, snd demo_after)"
  by code_simp

theorem restoration_alert_lost_witness:
  "ss_status (demo_state (fst demo_after)) = SReady \<and>
   alert_key demo_tracked job_source_demo [] (js ''source-restored'') (show_int (ss_episode (demo_state demo_tracked)))
     \<notin> al_key ` set (snd demo_after)"
proof
  show "ss_status (demo_state (fst demo_after)) = SReady" by code_simp
  have "ss_status demo_full = SCapacity" by (simp add: demo_full_def)
  then show "alert_key demo_tracked job_source_demo [] (js ''source-restored'') (show_int (ss_episode (demo_state demo_tracked)))
     \<notin> al_key ` set (snd demo_after)"
    using restoration_alert_lost [OF demo_tracked_state demo_tracked_lost demo_blocked _ demo_collected]
    by (intro not_in_image) blast
qed


definition demo_buried :: job_record where
  "demo_buried = (case collect_pages demo_job_env job_source_demo (demo_record\<lparr>jr_limits := (jr_limits demo_record)\<lparr>li_tracked := 9\<rparr>\<rparr>)
       [(job_page_demo [job_change_demo (js ''message'') (js ''i'') (js ''1''), job_change_demo (js ''delete'') (js ''i'') (js ''2'')], js ''t'')] of
     Inr (job, _) \<Rightarrow> job | Inl _ \<Rightarrow> demo_record)"

definition demo_tomb :: tracked_item where
  "demo_tomb = \<lparr>tr_version = js ''2'', tr_print = digest demo_job_env (JArr [JStr (js ''delete''), JStr (js ''a''), JStr []]),
     tr_matched = False, tr_deleted = True\<rparr>"

definition demo_edits :: "(source_page \<times> utext) list" where
  "demo_edits = [(job_page_demo [job_change_demo (js ''edit'') (js ''i'') (js ''3''), job_change_demo (js ''message'') (js ''k'') (js ''1'')], js ''t'')]"

definition demo_edited :: "job_record \<times> monitor_alert list" where
  "demo_edited = (case collect_pages demo_job_env job_source_demo demo_buried demo_edits of Inr r \<Rightarrow> r | Inl _ \<Rightarrow> (demo_record, []))"

lemma demo_buried_state:
  "map_of (jr_states demo_buried) (text_key demo_job_env (so_id job_source_demo)) = Some (demo_state demo_buried)"
  "map_of (ss_items (demo_state demo_buried)) (text_key demo_job_env (js ''i'')) = Some demo_tomb"
  by code_simp+

lemma demo_edits_taken:
  "collect_pages demo_job_env job_source_demo demo_buried demo_edits = Inr (fst demo_edited, snd demo_edited)"
  by code_simp


end
