(* ===== verification/JobCapacity.thy ===== *)
theory JobCapacity
  imports JobSafe
begin

text \<open>
  The capacity of a source: a page that does not fit is refused as a whole and says how much room it
  needs, and with that room the same page is taken.
\<close>

section \<open>Room for a page\<close>

definition keyed_once :: "source_state \<Rightarrow> bool" where
  \<comment> \<open>The two dictionaries have each key once.\<close>
  "keyed_once s \<longleftrightarrow> distinct (map fst (ss_items s)) \<and> distinct (map fst (ss_seen s))"

definition item_room :: "source_state \<Rightarrow> prepared_change list \<Rightarrow> utext set" where
  "item_room s cs = fst ` set (ss_items s) \<union> pc_item_key ` set cs"

definition event_room :: "source_state \<Rightarrow> prepared_change list \<Rightarrow> utext set" where
  "event_room s cs = fst ` set (ss_seen s) \<union> pc_event_key ` set cs"

lemma required_items_rooms:
  "required_items s cs = max (int (card (item_room s cs))) (int (card (event_room s cs)))"
  by (simp add: required_items_def item_room_def event_room_def length_remdups_card_conv)

lemma keyed_card:
  assumes "keyed_once s"
  shows "length (ss_items s) = card (fst ` set (ss_items s))" "length (ss_seen s) = card (fst ` set (ss_seen s))"
  using assms distinct_card [of "map fst (ss_items s)"] distinct_card [of "map fst (ss_seen s)"] by (simp_all add: keyed_once_def)

lemma admit_keyed:
  assumes "admit_change env job src c s = (s', new)" "keyed_once s"
  shows "keyed_once s'"
  using assms by (auto simp: admit_change_def keyed_once_def Let_def distinct_update split: if_splits)

lemma admit_rooms:
  assumes "admit_change env job src c s = (s', new)"
  shows "item_room s' cs \<subseteq> item_room s (c # cs)" "event_room s' cs \<subseteq> event_room s (c # cs)"
proof -
  have "ss_items s' = ss_items s \<or> (\<exists>v. ss_items s' = AList.update (pc_item_key c) v (ss_items s))"
    using assms by (auto simp: admit_change_def Let_def split: if_splits)
  then have "fst ` set (ss_items s') \<subseteq> {pc_item_key c} \<union> fst ` set (ss_items s)"
  proof (elim disjE exE)
    fix v assume "ss_items s' = AList.update (pc_item_key c) v (ss_items s)"
    then show ?thesis using dom_update [of "pc_item_key c" v "ss_items s"] by simp
  qed auto
  then show "item_room s' cs \<subseteq> item_room s (c # cs)" unfolding item_room_def by auto
  have "fst ` set (ss_seen s') = {pc_event_key c} \<union> fst ` set (ss_seen s)"
    using admit_change_state(1) [OF assms] dom_update [of "pc_event_key c" "pc_print c" "ss_seen s"] by simp
  then show "event_room s' cs \<subseteq> event_room s (c # cs)" unfolding event_room_def by auto
qed

lemma full_needs_room:
  assumes "full_for job s c" "map_of (ss_seen s) (pc_event_key c) = None" "keyed_once s"
  shows "li_tracked (jr_limits job) < required_items s (c # cs)"
proof -
  have fin: "finite (item_room s (c # cs))" "finite (event_room s (c # cs))" by (simp_all add: item_room_def event_room_def)
  have ev: "Suc (length (ss_seen s)) \<le> card (event_room s (c # cs))"
  proof -
    have new: "pc_event_key c \<notin> fst ` set (ss_seen s)" using assms(2) by (simp add: map_of_eq_None_iff)
    have "insert (pc_event_key c) (fst ` set (ss_seen s)) \<subseteq> event_room s (c # cs)" by (auto simp: event_room_def)
    then have "card (insert (pc_event_key c) (fst ` set (ss_seen s))) \<le> card (event_room s (c # cs))" by (rule card_mono [OF fin(2)])
    then show ?thesis using new keyed_card(2) [OF assms(3)] by simp
  qed
  have it: "Suc (length (ss_items s)) \<le> card (item_room s (c # cs))" if "map_of (ss_items s) (pc_item_key c) = None"
  proof -
    have new: "pc_item_key c \<notin> fst ` set (ss_items s)" using that by (simp add: map_of_eq_None_iff)
    have "insert (pc_item_key c) (fst ` set (ss_items s)) \<subseteq> item_room s (c # cs)" by (auto simp: item_room_def)
    then have "card (insert (pc_item_key c) (fst ` set (ss_items s))) \<le> card (item_room s (c # cs))" by (rule card_mono [OF fin(1)])
    then show ?thesis using new keyed_card(1) [OF assms(3)] by simp
  qed
  show ?thesis using assms(1) ev it unfolding full_for_def required_items_rooms by auto
qed

lemma rooms_needed:
  assumes "item_room s' cs \<subseteq> item_room s ds" "event_room s' cs \<subseteq> event_room s ds"
  shows "required_items s' cs \<le> required_items s ds"
proof -
  have "finite (item_room s ds)" "finite (event_room s ds)" by (simp_all add: item_room_def event_room_def)
  then have "card (item_room s' cs) \<le> card (item_room s ds)" "card (event_room s' cs) \<le> card (event_room s ds)"
    using assms card_mono by blast+
  then show ?thesis unfolding required_items_rooms by linarith
qed

lemma skip_rooms: "item_room s cs \<subseteq> item_room s (c # cs)" "event_room s cs \<subseteq> event_room s (c # cs)"
  by (auto simp: item_room_def event_room_def)

lemma required_least:
  assumes "keyed_once s"
  shows "int (length (ss_items s)) \<le> required_items s cs \<and> int (length (ss_seen s)) \<le> required_items s cs"
proof -
  have "finite (item_room s cs)" "finite (event_room s cs)" by (simp_all add: item_room_def event_room_def)
  then have "card (fst ` set (ss_items s)) \<le> card (item_room s cs)" "card (fst ` set (ss_seen s)) \<le> card (event_room s cs)"
    by (auto simp: item_room_def event_room_def intro: card_mono)
  then show ?thesis unfolding required_items_rooms keyed_card [OF assms] by linarith
qed

text \<open>A page is blocked only for want of room.\<close>

lemma take_blocked:
  assumes "take_changes env job src cs s as = Inr Blocked" "keyed_once s"
  shows "li_tracked (jr_limits job) < required_items s cs"
  using assms
proof (induction cs arbitrary: s as)
  case (Cons c cs)
  show ?case
  proof (cases "map_of (ss_seen s) (pc_event_key c)")
    case (Some p)
    then have "li_tracked (jr_limits job) < required_items s cs" using Cons by (auto split: if_splits)
    then show ?thesis using rooms_needed [OF skip_rooms] by (rule less_le_trans)
  next
    case None
    show ?thesis
    proof (cases "full_for job s c")
      case True
      then show ?thesis using full_needs_room None Cons.prems(2) by blast
    next
      case False
      obtain s1 new where ad: "admit_change env job src c s = (s1, new)" by (cases "admit_change env job src c s")
      have "take_changes env job src cs s1 (as @ new) = Inr Blocked" using Cons.prems(1) None False ad by simp
      then have "li_tracked (jr_limits job) < required_items s1 cs" using Cons.IH admit_keyed [OF ad Cons.prems(2)] by blast
      then show ?thesis using rooms_needed [OF admit_rooms [OF ad]] by (rule less_le_trans)
    qed
  qed
qed simp

lemma take_errors: "take_changes env job src cs s as = Inl e \<Longrightarrow> e = ConflictingVersion"
  by (induction cs arbitrary: s as) (auto split: option.splits if_splits prod.splits)

section \<open>The same page again\<close>

lemma prepare_change_filter:
  "jr_filter job = jr_filter job' \<Longrightarrow> prepare_change env job c = prepare_change env job' c"
  unfolding prepare_change_def by (erule ssubst) (rule refl)

lemma rmap_same: "(\<And>x. x \<in> set xs \<Longrightarrow> f x = g x) \<Longrightarrow> rmap f xs = rmap g xs"
  by (induction xs) auto

lemma required_items_state:
  "ss_items s = ss_items s' \<Longrightarrow> ss_seen s = ss_seen s' \<Longrightarrow> required_items s cs = required_items s' cs"
  by (simp add: required_items_def)

lemma collect_again:
  assumes "collectMonitor env job src p now = Inr (st, as)" "ss_status st = SCapacity"
    and old: "map_of (jr_states job) (text_key env (so_id src)) = Some old" "keyed_once old"
    and job': "jr_filter job' = jr_filter job" "jr_sources job' = jr_sources job" "li_page (jr_limits job') = li_page (jr_limits job)"
    and room: "ss_required st = Some n" "n \<le> li_tracked (jr_limits job')"
    and again: "map_of (jr_states job') (text_key env (so_id src)) = Some old'" "ss_cursor old' = ss_cursor old"
      "ss_items old' = ss_items old" "ss_seen old' = ss_seen old"
  shows "case collectMonitor env job' src p now' of
      Inl e \<Rightarrow> e = ConflictingVersion
    | Inr (st', _) \<Rightarrow> ss_status st' = (if pg_more p then SCatchup else SReady) \<and> (pg_cursor p \<noteq> None \<longrightarrow> ss_cursor st' = pg_cursor p)"
proof -
  obtain cs where cs: "rmap (prepare_change env job) (pg_changes p) = Inr cs"
    and st: "st = old\<lparr>ss_status := SCapacity, ss_required := Some (required_items old cs)\<rparr>"
    using collect_capacity [OF assms(1) old(1) assms(2)] by blast
  have n: "n = required_items old' cs" using arg_cong [OF st, of ss_required] room(1) required_items_state [OF again(3,4)] by simp
  have keyed_once: "keyed_once old'" using old(2) again(3,4) by (simp add: keyed_once_def)
  have av: "pg_unavailable p \<noteq> Some True"
    using assms(1,2) old(1) by (auto simp: collectMonitor_def ensure_eq_Inr rbind_eq_Inr lose_source_def Let_def)
  have checks: "src \<in> set (jr_sources job)" "pg_source p = so_id src" "page_check job src p old = Inr ()"
    using assms(1) old(1) by (auto simp: collectMonitor_def ensure_eq_Inr rbind_eq_Inr)
  have cs': "rmap (prepare_change env job') (pg_changes p) = Inr cs"
    using cs rmap_same [of "pg_changes p" "prepare_change env job'" "prepare_change env job"] prepare_change_filter [OF job'(1)] by simp
  have "page_check job' src p old' = page_check job src p old" by (simp add: page_check_def job'(3) again(2))
  then have eq: "collectMonitor env job' src p now' = collect_available env job' src p now' old'"
    using checks again(1) av job'(2) by (simp add: collectMonitor_def)
  have split: "collect_available env job' src p now' old' =
      rbind (take_changes env job' src cs old' (restored_alerts env job' src now' old')) (\<lambda>r.
        case r of Blocked \<Rightarrow> Inr (old'\<lparr>ss_status := SCapacity, ss_required := Some (required_items old' cs)\<rparr>, [])
        | Passed s as' \<Rightarrow> Inr (s\<lparr>ss_cursor := (if pg_cursor p = None then ss_cursor s else pg_cursor p),
            ss_status := (if pg_more p then SCatchup else SReady), ss_required := None\<rparr>, sortAlerts env as'))"
    unfolding collect_available_def Let_def cs' rbind_Inr restored_kind_def [symmetric] restored_alerts_def [symmetric] ..
  show ?thesis
  proof (cases "take_changes env job' src cs old' (restored_alerts env job' src now' old')")
    case (Inl e)
    then show ?thesis using take_errors [OF Inl] by (simp add: eq split)
  next
    case (Inr r)
    have "r \<noteq> Blocked"
    proof
      assume "r = Blocked"
      then have "li_tracked (jr_limits job') < required_items old' cs" using take_blocked Inr keyed_once by blast
      then show False using n room(2) by simp
    qed
    then show ?thesis by (cases r) (simp_all add: eq split Inr)
  qed
qed



end
