(* ===== verification/JobPoll.thy ===== *)
theory JobPoll
  imports JobSafe
begin

text \<open>
  The polling loop ends: each turn reads a page, and pages and alerts stay within the job's limits.
\<close>

lemma set_state_limits [simp]: "jr_limits (set_state env x st job) = jr_limits job"
  by (simp add: set_state_def)

lemma poll_page_counts:
  assumes "poll_page env bk c read s p = Inr r" "poll_goes_on p"
  shows "po_pages (outcome_state r) = po_pages p + 1 \<and> jr_limits (po_next (outcome_state r)) = jr_limits (po_next p) \<and>
    int (length (po_alerts (outcome_state r))) \<le> li_alerts (jr_limits (po_next p))"
proof (cases "po_queue p")
  case Nil
  then show ?thesis using assms(2) by (simp add: poll_goes_on_def)
next
  case (Cons x queue)
  define p1 where "p1 = p\<lparr>po_queue := queue, po_pages := po_pages p + 1,
    po_next := (po_next p)\<lparr>jr_next := (position (jr_sources (po_next p)) x + 1) mod length (jr_sources (po_next p))\<rparr>\<rparr>"
  obtain previous st as where r: "r = poll_admit env x previous st as p1"
    using assms(1) by (auto simp: poll_page_def Cons rbind_eq_Inr ensure_eq_Inr Let_def p1_def split: option.splits)
  have less: "int (length (po_alerts p1)) \<le> li_alerts (jr_limits (po_next p1))"
    using assms(2) by (simp add: poll_goes_on_def p1_def)
  have "po_pages (outcome_state r) = po_pages p1 \<and> jr_limits (po_next (outcome_state r)) = jr_limits (po_next p1) \<and>
      int (length (po_alerts (outcome_state r))) \<le> li_alerts (jr_limits (po_next p1))"
    unfolding r using less by (cases rule: poll_admit_cases [of env x previous st as p1]) simp_all
  then show ?thesis by (simp add: p1_def)
qed

lemma poll_loop_Cons:
  "poll_loop env bk read ((c, s) # rest) p =
     (if \<not> poll_goes_on p then Some (Inr p)
      else (case poll_page env bk c read s p of
          Inl e \<Rightarrow> Some (Inl e) | Inr (Stop q) \<Rightarrow> Some (Inr q) | Inr (More q) \<Rightarrow> poll_loop env bk read rest q))"
  by (subst poll_loop.simps) simp

lemma poll_loop_returns:
  assumes "li_pages (jr_limits (po_next p)) \<le> int (po_pages p + length turns)"
    "int (po_pages p) \<le> li_pages (jr_limits (po_next p))" "int (length (po_alerts p)) \<le> li_alerts (jr_limits (po_next p))"
  shows "\<exists>r. poll_loop env bk read turns p = Some r \<and>
    (\<forall>q. r = Inr q \<longrightarrow> int (po_pages q) \<le> li_pages (jr_limits (po_next p)) \<and>
      int (length (po_alerts q)) \<le> li_alerts (jr_limits (po_next p)))"
  using assms
proof (induction turns arbitrary: p)
  case Nil
  then have "\<not> poll_goes_on p" by (simp add: poll_goes_on_def)
  then show ?case using Nil by (simp add: poll_loop.simps)
next
  case (Cons cs rest)
  obtain c s where cs: "cs = (c, s)" by (cases cs)
  show ?case
  proof (cases "poll_goes_on p")
    case False
    then show ?thesis using Cons.prems by (simp add: poll_loop.simps)
  next
    case True
    have room: "int (po_pages p) < li_pages (jr_limits (po_next p))" using True by (simp add: poll_goes_on_def)
    show ?thesis
    proof (cases "poll_page env bk c read s p")
      case (Inl e)
      then show ?thesis using True by (simp add: poll_loop_Cons cs)
    next
      case (Inr o')
      note count = poll_page_counts [OF Inr True]
      show ?thesis
      proof (cases o')
        case (Stop q)
        then show ?thesis using True Inr count room by (simp add: poll_loop_Cons cs)
      next
        case (More q)
        have step: "poll_loop env bk read (cs # rest) p = poll_loop env bk read rest q"
          using True Inr More by (simp add: poll_loop_Cons cs)
        have "\<exists>r. poll_loop env bk read rest q = Some r \<and>
            (\<forall>q'. r = Inr q' \<longrightarrow> int (po_pages q') \<le> li_pages (jr_limits (po_next q)) \<and>
              int (length (po_alerts q')) \<le> li_alerts (jr_limits (po_next q)))"
          by (rule Cons.IH) (use count More room Cons.prems(1) in simp_all)
        then show ?thesis unfolding step using count More by simp
      qed
    qed
  qed
qed

text \<open>
  C36 A poll returns: with as many turns as the job's page limit its loop has ended, whatever the
  source answers and the store does meanwhile, and a loop that ended without an error has read at
  most that many pages and holds no more alerts than the job's limit.
\<close>
theorem poll_returns:
  assumes "poll_start bk c has s ctx i revision = Inr p" "0 \<le> li_pages (jr_limits (po_job p))" "0 \<le> li_alerts (jr_limits (po_job p))"
    "nat (li_pages (jr_limits (po_job p))) \<le> length turns"
  shows "\<exists>r. poll_loop env bk' read turns p = Some r \<and>
    (\<forall>q. r = Inr q \<longrightarrow> int (po_pages q) \<le> li_pages (jr_limits (po_job p)) \<and>
      int (length (po_alerts q)) \<le> li_alerts (jr_limits (po_job p)))"
proof -
  have p: "po_next p = po_job p" "po_alerts p = []" "po_pages p = 0" using poll_start_ok [OF assms(1)] by auto
  then show ?thesis using poll_loop_returns [of p turns env bk' read] assms(2-4) by (simp add: nat_le_iff)
qed

definition demo_endless :: "job_source \<Rightarrow> utext option \<Rightarrow> int \<Rightarrow> utext \<Rightarrow> source_page" where
  \<comment> \<open>A source that always has more.\<close>
  "demo_endless x cursor limit checkpoint =
     \<lparr>pg_source = js ''s'', pg_changes = [], pg_cursor = Some (97 # or_else cursor []), pg_more = True, pg_unavailable = None\<rparr>"

theorem poll_returns_witness:
  "\<exists>q. poll_loop demo_job_env demo_bk demo_endless (replicate 4 (demo_call, job_store_demo)) demo_poll = Some (Inr q) \<and>
     po_pages q = 4 \<and> po_queue q \<noteq> []"
proof -
  have "poll_start demo_bk demo_call True job_store_demo demo_context (js ''j'') 1 = Inr demo_poll" by (rule demo_begun)
  moreover have "li_pages (jr_limits (po_job demo_poll)) = 4" "li_alerts (jr_limits (po_job demo_poll)) = 100" by code_simp+
  ultimately obtain r where r: "poll_loop demo_job_env demo_bk demo_endless (replicate 4 (demo_call, job_store_demo)) demo_poll = Some r"
    using poll_returns [of demo_bk demo_call True job_store_demo demo_context "js ''j''" 1 demo_poll
      "replicate 4 (demo_call, job_store_demo)" demo_job_env demo_bk demo_endless] by auto
  have "(case poll_loop demo_job_env demo_bk demo_endless (replicate 4 (demo_call, job_store_demo)) demo_poll of
      Some (Inr q) \<Rightarrow> po_pages q = 4 \<and> po_queue q \<noteq> [] | _ \<Rightarrow> False)" by code_simp
  then show ?thesis using r by (auto split: sum.splits)
qed

end
