(* ===== verification/TaskMemory.thy ===== *)
theory TaskMemory
  imports JobProps "HOL-Library.Code_Target_Nat"
begin

text \<open>
  Runs of the task memory service (\<open>TaskMemoryService\<close> over \<open>InMemoryTaskMemoryStore\<close>): its
  operations interleave at the await before their write, and a removed record stays removed.
\<close>

section \<open>The service as a state machine\<close>

record memory_system =
  ms_store :: memory_store
  ms_pending :: "(tool_context \<times> memory_prepared) list"   \<comment> \<open>operations before their write\<close>

inductive memory_step :: "job_env \<Rightarrow> memory_system \<Rightarrow> memory_system \<Rightarrow> bool" for env where
  put: "put_memory env ok now (ms_store y) ctx i text source expected = Inr m \<Longrightarrow>
    memory_step env y (y\<lparr>ms_pending := (ctx, m) # ms_pending y\<rparr>)"
| remove: "remove_memory env ok now (ms_store y) ctx i n = Inr m \<Longrightarrow>
    memory_step env y (y\<lparr>ms_pending := (ctx, m) # ms_pending y\<rparr>)"
| commit: "(ctx, m) \<in> set (ms_pending y) \<Longrightarrow>
    memory_step env y (y\<lparr>ms_store := snd (commit_memory env ok ctx m (ms_store y)), ms_pending := remove1 (ctx, m) (ms_pending y)\<rparr>)"
| abandon: "set ms \<subseteq> set (ms_pending y) \<Longrightarrow> memory_step env y (y\<lparr>ms_pending := ms\<rparr>)"

definition removed :: "memory_record \<Rightarrow> bool" where
  "removed r \<longleftrightarrow> or_else (me_removed r) [] \<noteq> []"

section \<open>The invariant\<close>

fun note_pending :: "job_env \<Rightarrow> memory_store \<Rightarrow> memory_prepared \<Rightarrow> bool" where
  "note_pending env s (Unchanged r) \<longleftrightarrow> True"
| "note_pending env s (Change r e) \<longleftrightarrow>
     e = None \<or>
     (\<exists>old. memory_notes.tracks env s old \<and> \<not> removed old \<and> e = Some (me_revision old) \<and> memory_task r = memory_task old \<and>
        me_id r = me_id old \<and> me_revision r = me_revision old + 1)"

lemma found:
  "find_memory env s b i = Inr (Some r) \<Longrightarrow> memory_load env s (memory_task r) (me_id r) = Some r \<and> me_id r = i \<and> memory_task r = bi_task b"
  by (auto simp: find_memory_def ensure_eq_Inr same_binding_def split: option.splits)

lemma put_pending:
  assumes "put_memory env ok now s ctx i text source expected = Inr m"
  shows "note_pending env s m"
proof -
  obtain b old where b: "authorize_memory ok ctx = Inr b" and old: "find_memory env s b i = Inr old"
    and m: "(case old of None \<Rightarrow> ensure (expected = None) MemoryRevisionConflict
          (Inr (Change \<lparr>me_id = i, me_binding = b, me_text = text, me_source = source, me_revision = 1,
               me_created = now, me_updated = now, me_removed = None\<rparr> (map_option me_revision old)))
        | Some r \<Rightarrow> ensure (or_else (me_removed r) [] = []) MemoryRemoved (
            ensure (source = me_source r) MemoryProvenance (
              if expected = None \<and> me_text r = text then Inr (Unchanged (Some r))
              else ensure (expected = Some (me_revision r)) MemoryRevisionConflict
                (Inr (Change \<lparr>me_id = i, me_binding = b, me_text = text, me_source = source, me_revision = me_revision r + 1,
               me_created = me_created r, me_updated = now, me_removed = None\<rparr> (map_option me_revision old)))))) = Inr m"
    using assms unfolding put_memory_def Let_def rbind_eq_Inr by blast
  show ?thesis
  proof (cases old)
    case None
    then show ?thesis using m by (auto simp: ensure_eq_Inr)
  next
    case (Some r)
    have r: "memory_load env s (memory_task r) (me_id r) = Some r" "me_id r = i" "memory_task r = bi_task b"
      using found old Some by blast+
    have "memory_notes.tracks env s r" using memory_notes.loaded_tracks r(1) by blast
    then show ?thesis using m r(2,3) Some by (auto simp: ensure_eq_Inr removed_def intro!: exI [of _ r] split: if_splits)
  qed
qed

lemma remove_pending:
  assumes "remove_memory env ok now s ctx i n = Inr m"
  shows "note_pending env s m"
proof -
  obtain old where old: "get_memory env ok s ctx i = Inr old"
    and m: "(case old of None \<Rightarrow> Inr (Unchanged None)
        | Some r \<Rightarrow> ensure (me_revision r = n) MemoryRevisionConflict
              (Inr (Change (r\<lparr>me_revision := me_revision r + 1, me_updated := now, me_removed := Some now\<rparr>)
                 (Some (me_revision r))))) = Inr m"
    using assms unfolding remove_memory_def rbind_eq_Inr by blast
  show ?thesis
  proof (cases old)
    case (Some r)
    then obtain b where "find_memory env s b i = Inr (Some r)" "\<not> removed r"
      using old by (auto simp: get_memory_def rbind_eq_Inr removed_def split: option.splits if_splits)
    then have "memory_notes.tracks env s r" "\<not> removed r" using found memory_notes.loaded_tracks by blast+
    then show ?thesis using m Some by (auto simp: ensure_eq_Inr)
  qed (use m in auto)
qed

lemma commit_memory_store:
  "snd (commit_memory env ok ctx m s) = s \<or>
     (\<exists>r e. m = Change r e \<and> snd (commit_memory env ok ctx m s) = snd (save_memory env s r e))"
  by (auto simp: commit_memory_def split: memory_prepared.splits sum.splits prod.splits bool.splits)

lemma pending_saved:
  assumes "note_pending env s (Change r e)" "note_pending env s m"
  shows "note_pending env (snd (save_memory env s r e)) m"
proof (cases m)
  case (Change q d)
  have "e = None \<or> e = Some (me_revision r - 1)" using assms(1) by auto
  then have "memory_notes.tracks env (snd (save_memory env s r e)) old" if "memory_notes.tracks env s old" for old
    using memory_notes.save_moves_on that by blast
  then show ?thesis using assms(2) unfolding Change note_pending.simps by blast
qed simp

lemma removed_saved:
  assumes "note_pending env s (Change r e)" "memory_load env s t i = Some q" "removed q"
  shows "memory_load env (snd (save_memory env s r e)) t i = Some q"
proof (rule ccontr)
  assume no: "memory_load env (snd (save_memory env s r e)) t i \<noteq> Some q"
  then have save: "fst (save_memory env s r e)" and slot: "slot_key env t i = slot_key env (memory_task r) (me_id r)"
    using assms(2) memory_notes.load_save [of env s r e t i] by (metis (no_types))+
  have cur: "memory_load env s (memory_task r) (me_id r) = Some q" using memory_notes.load_slot [OF slot, of s] assms(2) by simp
  then have "e \<noteq> None" using save memory_notes.save_iff [of env s r e] by auto
  then obtain old where old: "memory_notes.tracks env s old" "\<not> removed old" "e = Some (me_revision old)"
      "memory_task r = memory_task old" "me_id r = me_id old" using assms(1) by auto
  have "memory_load env s (memory_task r) (me_id r) = Some old"
    by (rule memory_notes.save_current [OF old(1)]) (use save old(3-5) in simp_all)
  then show False using cur old(2) assms(3) by simp
qed

definition memory_ok :: "job_env \<Rightarrow> memory_system \<Rightarrow> bool" where
  "memory_ok env y \<longleftrightarrow> (\<forall>x \<in> set (ms_pending y). note_pending env (ms_store y) (snd x))"

lemma memory_step_ok:
  assumes "memory_step env y z" "memory_ok env y"
  shows "memory_ok env z \<and> (\<forall>t i r. memory_load env (ms_store y) t i = Some r \<longrightarrow> removed r \<longrightarrow>
    memory_load env (ms_store z) t i = Some r)"
  using assms
proof (cases rule: memory_step.cases)
  case (put ok now ctx i body source expected m)
  then show ?thesis using assms(2) put_pending [OF put(2)] by (simp add: memory_ok_def)
next
  case (remove ok now ctx i n m)
  then show ?thesis using assms(2) remove_pending [OF remove(2)] by (simp add: memory_ok_def)
next
  case (commit ctx m ok)
  have all: "note_pending env (ms_store y) (snd x)" if "x \<in> set (ms_pending y)" for x using assms(2) that by (simp add: memory_ok_def)
  have m: "note_pending env (ms_store y) m" using all [OF commit(2)] by simp
  have z: "ms_store z = snd (commit_memory env ok ctx m (ms_store y))" "set (ms_pending z) \<subseteq> set (ms_pending y)"
    using commit(1) by (simp_all add: set_remove1_subset)
  consider "ms_store z = ms_store y" | r e where "m = Change r e" "ms_store z = snd (save_memory env (ms_store y) r e)"
    using commit_memory_store [of env ok ctx m "ms_store y"] z(1) by auto
  then show ?thesis
  proof cases
    case 1
    then show ?thesis using all z(2) by (auto simp: memory_ok_def)
  next
    case 2
    note pend = m [unfolded 2(1)]
    have "note_pending env (ms_store z) (snd x)" if x: "x \<in> set (ms_pending z)" for x
      unfolding 2(2) by (rule pending_saved [OF pend all [OF subsetD [OF z(2) x]]])
    moreover have "memory_load env (ms_store z) t i = Some q" if "memory_load env (ms_store y) t i = Some q" "removed q" for t i q
      unfolding 2(2) by (rule removed_saved [OF pend that])
    ultimately show ?thesis by (simp add: memory_ok_def)
  qed
next
  case (abandon ms)
  then show ?thesis using assms(2) by (auto simp: memory_ok_def)
qed

lemma memory_run_ok:
  assumes "(memory_step env)\<^sup>*\<^sup>* y z" "memory_ok env y"
  shows "memory_ok env z \<and> (\<forall>t i r. memory_load env (ms_store y) t i = Some r \<longrightarrow> removed r \<longrightarrow>
    memory_load env (ms_store z) t i = Some r)"
  using assms by (induction rule: rtranclp_induct) (use memory_step_ok in blast)+

lemma removed_refused:
  assumes "memory_load env s (tc_task ctx) i = Some r" "removed r"
  shows "get_memory env ok s ctx i \<noteq> Inr (Some q)" "\<exists>e. put_memory env ok now s ctx i text source expected = Inl e"
proof -
  have b: "bi_task b = tc_task ctx" if "authorize_memory ok ctx = Inr b" for b
    using that by (auto simp: authorize_memory_def task_binding_of_def rbind_eq_Inr ensure_eq_Inr)
  have r: "x = Some r" if "find_memory env s b i = Inr x" "authorize_memory ok ctx = Inr b" for x b
    using that assms(1) b by (auto simp: find_memory_def ensure_eq_Inr)
  show "get_memory env ok s ctx i \<noteq> Inr (Some q)"
    using r assms(2) by (auto simp: get_memory_def rbind_eq_Inr removed_def split: option.splits if_splits)
  show "\<exists>e. put_memory env ok now s ctx i text source expected = Inl e"
  proof (cases "put_memory env ok now s ctx i text source expected")
    case (Inr m)
    then show ?thesis using r assms(2) unfolding put_memory_def Let_def rbind_eq_Inr removed_def by (fastforce simp: ensure_eq_Inr)
  qed blast
qed

section \<open>Properties\<close>

text \<open>
  C35 Once a memory record is removed it stays removed: whatever operations are under way and however
  they interleave, the record keeps the state of its removal, a read never returns it, and a put of
  its identifier is refused.
\<close>
theorem memory_removed_final:
  assumes "(memory_step env)\<^sup>*\<^sup>* \<lparr>ms_store = s, ms_pending = []\<rparr> y" "(memory_step env)\<^sup>*\<^sup>* y z"
    and "memory_load env (ms_store y) (tc_task ctx) i = Some r" "or_else (me_removed r) [] \<noteq> []"
  shows "memory_load env (ms_store z) (tc_task ctx) i = Some r \<and> get_memory env ok (ms_store z) ctx i \<noteq> Inr (Some q) \<and>
    (\<exists>e. put_memory env ok now (ms_store z) ctx i text source expected = Inl e)"
proof -
  have "memory_ok env \<lparr>ms_store = s, ms_pending = []\<rparr>" by (simp add: memory_ok_def)
  then have "memory_ok env y" using memory_run_ok [OF assms(1)] by blast
  moreover have rem: "removed r" using assms(4) by (simp add: removed_def)
  ultimately have load: "memory_load env (ms_store z) (tc_task ctx) i = Some r" using memory_run_ok [OF assms(2)] assms(3) by blast
  show ?thesis using load removed_refused [OF load rem] by blast
qed

definition note_env :: job_env where
  "note_env = \<lparr>je_sha = (\<lambda>t. t), je_lower = (\<lambda>t. t), je_collate = (\<lambda>_ _. 0), je_compare = (\<lambda>_ _. 0),
     je_date = (\<lambda>_. Some 0), je_iso = (\<lambda>_. js ''t'')\<rparr>"

definition note_context :: tool_context where
  "note_context = \<lparr>tc_task = js ''t'', tc_revision = 1, tc_grant = js ''g'', tc_grant_revision = 1, tc_run = js ''u''\<rparr>"

definition memo :: memory_record where
  "memo = \<lparr>me_id = js ''i'', me_binding = \<lparr>bi_task = js ''t'', bi_intent = 1, bi_grant = js ''g'', bi_grant_revision = 1\<rparr>,
     me_text = js ''x'', me_source = js ''o'', me_revision = 1, me_created = js ''t'', me_updated = js ''t'', me_removed = None\<rparr>"

definition gone :: memory_record where
  "gone = memo\<lparr>me_revision := 2, me_updated := js ''u'', me_removed := Some (js ''u'')\<rparr>"

definition late :: memory_prepared where
  \<comment> \<open>An edit of the record, prepared before it is removed.\<close>
  "late = Change (memo\<lparr>me_text := js ''y'', me_revision := 2, me_updated := js ''u''\<rparr>) (Some 1)"

definition with_note :: memory_store where "with_note = [(slot_key note_env (js ''t'') (js ''i''), memo)]"

definition without_note :: memory_store where
  "without_note = snd (commit_memory note_env None note_context (Change gone (Some 1)) with_note)"

lemma note_steps:
  "remove_memory note_env None (js ''u'') with_note note_context (js ''i'') 1 = Inr (Change gone (Some 1))"
  "put_memory note_env None (js ''u'') with_note note_context (js ''i'') (js ''y'') (js ''o'') (Some 1) = Inr late"
  "memory_load note_env without_note (tc_task note_context) (js ''i'') = Some gone"
  "snd (commit_memory note_env None note_context late without_note) = without_note"
  by code_simp+

theorem memory_removed_final_witness:
  "\<exists>z. (memory_step note_env)\<^sup>*\<^sup>* \<lparr>ms_store = without_note, ms_pending = [(note_context, late)]\<rparr> z \<and> ms_pending z = [] \<and>
     memory_load note_env (ms_store z) (js ''t'') (js ''i'') = Some gone \<and>
     (\<exists>e. put_memory note_env None (js ''u'') (ms_store z) note_context (js ''i'') (js ''y'') (js ''o'') (Some 2) = Inl e)"
proof -
  let ?step = "memory_step note_env" and ?at = "\<lambda>s ms. \<lparr>ms_store = s, ms_pending = ms\<rparr>"
  let ?late = "(note_context, late)" and ?gone = "(note_context, Change gone (Some 1))"
  have neq: "late \<noteq> Change gone (Some 1)" by (simp add: late_def gone_def memo_def)
  have "?step (?at with_note []) (?at with_note [?late])"
    using memory_step.put [of note_env None "js ''u''" "?at with_note []"] note_steps(2) by simp
  moreover have "?step (?at with_note [?late]) (?at with_note [?gone, ?late])"
    using memory_step.remove [of note_env None "js ''u''" "?at with_note [?late]"] note_steps(1) by simp
  moreover have "?step (?at with_note [?gone, ?late]) (?at without_note [?late])"
    using memory_step.commit [of note_context "Change gone (Some 1)" "?at with_note [?gone, ?late]" note_env None]
    by (simp add: without_note_def)
  ultimately have before: "?step\<^sup>*\<^sup>* (?at with_note []) (?at without_note [?late])"
    by (meson converse_rtranclp_into_rtranclp rtranclp.rtrancl_refl)
  have "?step (?at without_note [?late]) (?at without_note [])"
    using memory_step.commit [of note_context late "?at without_note [?late]" note_env None] note_steps(4) by simp
  then have after: "?step\<^sup>*\<^sup>* (?at without_note [?late]) (?at without_note [])" by blast
  have task: "tc_task note_context = js ''t''" by (simp add: note_context_def)
  have "or_else (me_removed gone) [] \<noteq> []" by code_simp
  then have "memory_load note_env (ms_store (?at without_note [])) (tc_task note_context) (js ''i'') = Some gone \<and>
      get_memory note_env None (ms_store (?at without_note [])) note_context (js ''i'') \<noteq> Inr (Some gone) \<and>
      (\<exists>e. put_memory note_env None (js ''u'') (ms_store (?at without_note [])) note_context (js ''i'') (js ''y'') (js ''o'') (Some 2) = Inl e)"
    by (intro memory_removed_final [OF before after]) (simp_all add: note_steps(3))
  then show ?thesis using after unfolding task by (intro exI [of _ "?at without_note []"]) simp
qed

end
