(* ===== verification/TextFormat.thy ===== *)
theory TextFormat
  imports JsonShape StableSort
begin

text \<open>
  Formatted text for Telegram (\<open>telegram-gateway/src/telegram-text-format.ts\<close>): the Markdown renderer,
  the repair of overlaps Telegram forbids, the check that puts entities into canonical order, and the
  conversion to and from the client library's entities.

  Offsets and lengths count UTF-16 code units. The host's URL parser is the parameter \<open>url\<close>. An
  entity of the client library is the class it is an instance of, whether it has exactly the shape
  the library gives that class, and its arguments.
\<close>

section \<open>Entities\<close>

datatype tg_kind = Bold | Italic | Strike | Code | Blockquote | Pre utext | TextUrl utext

record tg_entity =
  te_kind :: tg_kind
  te_offset :: int
  te_length :: int

abbreviation "te_end e \<equiv> te_offset e + te_length e"

datatype format_error = FormatRefused

record link_url =
  lu_protocol :: utext
  lu_hostname :: utext
  lu_username :: utext
  lu_password :: utext

type_synonym url_parser = "utext \<Rightarrow> link_url option"

fun type_order :: "tg_kind \<Rightarrow> int" where
  "type_order Blockquote = 0"
| "type_order (TextUrl u) = 1"
| "type_order Bold = 2"
| "type_order Italic = 3"
| "type_order Strike = 4"
| "type_order Code = 5"
| "type_order (Pre l) = 6"

fun type_name :: "tg_kind \<Rightarrow> string" where
  "type_name Blockquote = ''blockquote''"
| "type_name (TextUrl u) = ''textUrl''"
| "type_name Bold = ''bold''"
| "type_name Italic = ''italic''"
| "type_name Strike = ''strike''"
| "type_name Code = ''code''"
| "type_name (Pre l) = ''pre''"

fun kind_json :: "tg_kind \<Rightarrow> (utext \<times> json) list" where
  "kind_json (Pre l) = [(js ''language'', JStr l)]"
| "kind_json (TextUrl u) = [(js ''url'', JStr u)]"
| "kind_json k = []"

definition entity_json :: "tg_entity \<Rightarrow> json" where
  "entity_json e = JObj
     ([(js ''type'', JStr (js (type_name (te_kind e)))), (js ''offset'', JInt (te_offset e)), (js ''length'', JInt (te_length e))] @
      kind_json (te_kind e))"

section \<open>Checks\<close>

fun validUnicode :: "utext \<Rightarrow> bool" where
  "validUnicode [] = True"
| "validUnicode [a] = (\<not> is_high a \<and> \<not> is_low a)"
| "validUnicode (a # b # r) =
     (if is_high a then is_low b \<and> validUnicode r else \<not> is_low a \<and> validUnicode (b # r))"

definition validText :: "utext \<Rightarrow> bool" where
  "validText s \<longleftrightarrow> 0 \<notin> set s \<and> validUnicode s \<and> well_formed s \<and> utf8_size s \<le> 4096"

definition boundary :: "utext \<Rightarrow> int \<Rightarrow> bool" where
  "boundary s i \<longleftrightarrow>
     i = 0 \<or> i = int (length s) \<or> \<not> (is_high (s ! nat (i - 1)) \<and> is_low (s ! nat i))"

definition safeUrl :: "url_parser \<Rightarrow> utext \<Rightarrow> bool" where
  "safeUrl url s \<longleftrightarrow>
     s \<noteq> [] \<and> length s \<le> 2048 \<and> \<not> list_ex (\<lambda>c. c \<le> 32 \<or> c = 127) s \<and>
     (case url s of
        None \<Rightarrow> False
      | Some u \<Rightarrow> lu_protocol u = js ''https:'' \<and> lu_hostname u \<noteq> [] \<and> lu_username u = [] \<and> lu_password u = [])"

definition language_ok :: "utext \<Rightarrow> bool" where
  "language_ok s \<longleftrightarrow>
     length s \<le> 32 \<and>
     list_all (\<lambda>c. (65 \<le> c \<and> c \<le> 90) \<or> (97 \<le> c \<and> c \<le> 122) \<or> (48 \<le> c \<and> c \<le> 57) \<or> c \<in> {95, 43, 46, 35, 45}) s"

definition entity_span_ok :: "utext \<Rightarrow> int \<Rightarrow> int \<Rightarrow> bool" where
  "entity_span_ok s i n \<longleftrightarrow>
     \<bar>i\<bar> \<le> max_safe \<and> \<bar>n\<bar> \<le> max_safe \<and> 0 \<le> i \<and> 0 < n \<and> i + n \<le> int (length s) \<and> boundary s i \<and> boundary s (i + n)"

definition simple_kind :: "utext \<Rightarrow> tg_kind option" where
  "simple_kind t = find (\<lambda>k. t = js (type_name k)) [Bold, Italic, Strike, Code, Blockquote]"

definition read_kind :: "url_parser \<Rightarrow> json \<Rightarrow> format_error + tg_kind" where
  \<comment> \<open>The type of an entity, with its exact properties and the one that is its own.\<close>
  "read_kind url v =
     (case as_text (field (Some v) ''type'') of
        None \<Rightarrow> Inl FormatRefused
      | Some t \<Rightarrow>
          if t = js ''pre'' then
            ensure (exact_keys v [''type'', ''offset'', ''length'', ''language''] []) FormatRefused
              (case as_text (field (Some v) ''language'') of
                 None \<Rightarrow> Inl FormatRefused
               | Some l \<Rightarrow> ensure (language_ok l) FormatRefused (Inr (Pre l)))
          else if t = js ''textUrl'' then
            ensure (exact_keys v [''type'', ''offset'', ''length'', ''url''] []) FormatRefused
              (case as_text (field (Some v) ''url'') of
                 None \<Rightarrow> Inl FormatRefused
               | Some u \<Rightarrow> ensure (safeUrl url u) FormatRefused (Inr (TextUrl u)))
          else
            ensure (exact_keys v [''type'', ''offset'', ''length''] []) FormatRefused
              (case simple_kind t of None \<Rightarrow> Inl FormatRefused | Some k \<Rightarrow> Inr k))"

definition read_entity :: "url_parser \<Rightarrow> utext \<Rightarrow> json \<Rightarrow> format_error + tg_entity" where
  "read_entity url s v =
     rbind (read_kind url v) (\<lambda>k.
     (case (as_int (field (Some v) ''offset''), as_int (field (Some v) ''length'')) of
        (Some i, Some n) \<Rightarrow> ensure (entity_span_ok s i n) FormatRefused (Inr \<lparr>te_kind = k, te_offset = i, te_length = n\<rparr>)
      | _ \<Rightarrow> Inl FormatRefused))"

definition compare_entities :: "tg_entity \<Rightarrow> tg_entity \<Rightarrow> int" where
  "compare_entities a b =
     (if te_offset a \<noteq> te_offset b then te_offset a - te_offset b
      else if te_length a \<noteq> te_length b then te_length b - te_length a
      else type_order (te_kind a) - type_order (te_kind b))"

fun is_code :: "tg_kind \<Rightarrow> bool" where
  "is_code Code = True" | "is_code (Pre l) = True" | "is_code _ = False"

fun is_link :: "tg_kind \<Rightarrow> bool" where
  "is_link (TextUrl u) = True" | "is_link _ = False"

definition clash :: "tg_entity \<Rightarrow> tg_entity \<Rightarrow> bool" where
  \<comment> \<open>What an entity must not be to a later one that begins before it ends.\<close>
  "clash l r \<longleftrightarrow>
     \<not> te_end r \<le> te_end l \<or> is_code (te_kind l) \<or> is_code (te_kind r) \<or> (is_link (te_kind l) \<and> is_link (te_kind r)) \<or>
     (te_kind l = Blockquote \<and> te_kind r = Blockquote) \<or>
     (te_offset l = te_offset r \<and> te_length l = te_length r \<and> type_order (te_kind l) = type_order (te_kind r))"

fun clear_of :: "tg_entity \<Rightarrow> tg_entity list \<Rightarrow> bool" where
  "clear_of l [] = True"
| "clear_of l (r # rs) = (if te_end l \<le> te_offset r then True else \<not> clash l r \<and> clear_of l rs)"

fun well_nested :: "tg_entity list \<Rightarrow> bool" where
  "well_nested [] = True"
| "well_nested (e # es) = (clear_of e es \<and> well_nested es)"

definition normalized :: "url_parser \<Rightarrow> utext \<Rightarrow> json list \<Rightarrow> format_error + tg_entity list" where
  "normalized url s vs =
     ensure (validText s) FormatRefused (
     rbind (rmap (read_entity url s) vs) (\<lambda>es.
       (let r = sort_by compare_entities es in ensure (well_nested r) FormatRefused (Inr r))))"

definition copyTelegramTextEntities :: "url_parser \<Rightarrow> utext \<Rightarrow> json list \<Rightarrow> format_error + tg_entity list" where
  "copyTelegramTextEntities url s vs = normalized url s vs"

section \<open>Overlaps Telegram forbids\<close>

type_synonym span = "int \<times> int"

definition span_of :: "tg_entity \<Rightarrow> span" where
  "span_of e = (te_offset e, te_length e)"

definition overlap :: "span \<Rightarrow> span \<Rightarrow> bool" where
  "overlap l r \<longleftrightarrow> fst l < fst r + snd r \<and> fst r < fst l + snd l"

fun is_container :: "tg_kind \<Rightarrow> bool" where
  "is_container (TextUrl u) = True" | "is_container Blockquote = True" | "is_container _ = False"

fun is_style :: "tg_kind \<Rightarrow> bool" where
  "is_style Bold = True" | "is_style Italic = True" | "is_style Strike = True" | "is_style _ = False"

definition free_code :: "tg_entity list \<Rightarrow> tg_entity \<Rightarrow> bool" where
  \<comment> \<open>Code that no link or quote overlaps: the members of \<open>atomic\<close>.\<close>
  "free_code es e \<longleftrightarrow>
     is_code (te_kind e) \<and> \<not> list_ex (\<lambda>l. is_container (te_kind l) \<and> overlap (span_of e) (span_of l)) es"

definition split_span :: "span \<Rightarrow> span \<Rightarrow> span list" where
  "split_span code s =
     (if \<not> overlap s code then [s]
      else (if fst s < fst code then [(fst s, fst code - fst s)] else []) @
        (if fst code + snd code < fst s + snd s then [(fst code + snd code, fst s + snd s - (fst code + snd code))] else []))"

definition split_spans :: "span list \<Rightarrow> span \<Rightarrow> span list" where
  "split_spans codes s = filter (\<lambda>x. 0 < snd x) (fold (\<lambda>code spans. concat (map (split_span code) spans)) codes [s])"

definition split_style :: "tg_entity list \<Rightarrow> tg_entity \<Rightarrow> tg_entity list" where
  "split_style es e =
     (if is_style (te_kind e)
      then map (\<lambda>(i, n). \<lparr>te_kind = te_kind e, te_offset = i, te_length = n\<rparr>)
        (split_spans (map span_of (filter (free_code es) es)) (span_of e))
      else [])"

definition telegramCompatible :: "tg_entity list \<Rightarrow> tg_entity list" where
  "telegramCompatible es =
     filter (\<lambda>e. is_container (te_kind e) \<or> free_code es e) es @ concat (map (split_style es) es)"

section \<open>Entities of the client library\<close>

datatype tl_class =
    MessageEntityBold | MessageEntityItalic | MessageEntityStrike | MessageEntityCode | MessageEntityBlockquote
  | MessageEntityPre | MessageEntityTextUrl | MessageEntityUrl | MessageEntityEmail | MessageEntityMention
  | MessageEntityHashtag | MessageEntityCashtag | MessageEntityBotCommand | MessageEntityPhone | OtherEntity

record tl_entity =
  tl_class :: tl_class
  tl_exact :: bool
    \<comment> \<open>prototype, identifiers and properties are those of the class, each argument equal to the original one\<close>
  tl_args :: json

definition tl_position :: "tg_entity \<Rightarrow> (utext \<times> json) list" where
  "tl_position e = [(js ''offset'', JInt (te_offset e)), (js ''length'', JInt (te_length e))]"

definition tl_of :: "tg_entity \<Rightarrow> tl_entity" where
  "tl_of e =
     (let make = (\<lambda>c args. \<lparr>tl_class = c, tl_exact = True, tl_args = JObj args\<rparr>); p = tl_position e in
      case te_kind e of
        Bold \<Rightarrow> make MessageEntityBold p
      | Italic \<Rightarrow> make MessageEntityItalic p
      | Strike \<Rightarrow> make MessageEntityStrike p
      | Code \<Rightarrow> make MessageEntityCode p
      | Blockquote \<Rightarrow> make MessageEntityBlockquote ([(js ''flags'', JInt 0), (js ''collapsed'', JBool False)] @ p)
      | Pre l \<Rightarrow> make MessageEntityPre (p @ [(js ''language'', JStr l)])
      | TextUrl u \<Rightarrow> make MessageEntityTextUrl (p @ [(js ''url'', JStr u)]))"

definition toTelegramEntities :: "url_parser \<Rightarrow> utext \<Rightarrow> json list \<Rightarrow> format_error + tl_entity list" where
  "toTelegramEntities url s vs = rbind (normalized url s vs) (\<lambda>es. Inr (map tl_of es))"

datatype projection = Automatic | Named string

fun tl_type :: "tl_class \<Rightarrow> (projection \<times> string list) option" where
  "tl_type MessageEntityBold = Some (Named ''bold'', [''offset'', ''length''])"
| "tl_type MessageEntityItalic = Some (Named ''italic'', [''offset'', ''length''])"
| "tl_type MessageEntityStrike = Some (Named ''strike'', [''offset'', ''length''])"
| "tl_type MessageEntityCode = Some (Named ''code'', [''offset'', ''length''])"
| "tl_type MessageEntityBlockquote = Some (Named ''blockquote'', [''flags'', ''collapsed'', ''offset'', ''length''])"
| "tl_type MessageEntityPre = Some (Named ''pre'', [''offset'', ''length'', ''language''])"
| "tl_type MessageEntityTextUrl = Some (Named ''textUrl'', [''offset'', ''length'', ''url''])"
| "tl_type OtherEntity = None"
| "tl_type _ = Some (Automatic, [''offset'', ''length''])"

definition tlArguments :: "tl_entity \<Rightarrow> string list \<Rightarrow> format_error + json" where
  "tlArguments e keys = ensure (tl_exact e \<and> exact_keys (tl_args e) keys []) FormatRefused (Inr (tl_args e))"

definition validTlSpan :: "utext \<Rightarrow> json \<Rightarrow> format_error + span" where
  "validTlSpan s args =
     (case (as_int (field (Some args) ''offset''), as_int (field (Some args) ''length'')) of
        (Some i, Some n) \<Rightarrow> ensure (entity_span_ok s i n) FormatRefused (Inr (i, n))
      | _ \<Rightarrow> Inl FormatRefused)"

definition own_property :: "string \<Rightarrow> json \<Rightarrow> (utext \<times> json) list" where
  \<comment> \<open>The property beside the position, taken over unread.\<close>
  "own_property t args =
     (if t = ''pre'' then [(js ''language'', or_else (field (Some args) ''language'') JNull)]
      else if t = ''textUrl'' then [(js ''url'', or_else (field (Some args) ''url'') JNull)] else [])"

definition project_entity :: "utext \<Rightarrow> tl_entity \<Rightarrow> format_error + json option" where
  "project_entity s e =
     (case tl_type (tl_class e) of
        None \<Rightarrow> Inl FormatRefused
      | Some (t, keys) \<Rightarrow>
          rbind (tlArguments e keys) (\<lambda>args.
          rbind (validTlSpan s args) (\<lambda>(i, n).
            ensure (t = Named ''blockquote'' \<longrightarrow> field (Some args) ''flags'' = Some (JInt 0) \<and>
                field (Some args) ''collapsed'' = Some (JBool False)) FormatRefused
              (case t of
                 Automatic \<Rightarrow> Inr None
               | Named name \<Rightarrow> Inr (Some (JObj ([(js ''type'', JStr (js name)), (js ''offset'', JInt i), (js ''length'', JInt n)] @
                   own_property name args)))))))"

definition fromTelegramEntities :: "url_parser \<Rightarrow> utext \<Rightarrow> tl_entity list \<Rightarrow> format_error + tg_entity list" where
  "fromTelegramEntities url s ts =
     ensure (validText s) FormatRefused (
     rbind (rmap (project_entity s) ts) (\<lambda>vs. normalized url s (List.map_filter (\<lambda>v. v) vs)))"

section \<open>Reading Markdown\<close>

definition slice :: "utext \<Rightarrow> nat \<Rightarrow> nat \<Rightarrow> utext" where
  "slice s i j = drop i (take j s)"

definition at_is :: "utext \<Rightarrow> nat \<Rightarrow> nat \<Rightarrow> bool" where
  \<comment> \<open>\<open>source[i] === c\<close>\<close>
  "at_is s i c \<longleftrightarrow> i < length s \<and> s ! i = c"

definition starts_at :: "utext \<Rightarrow> utext \<Rightarrow> nat \<Rightarrow> bool" where
  \<comment> \<open>\<open>source.startsWith(p, i)\<close>\<close>
  "starts_at s p i \<longleftrightarrow> take (length p) (drop i s) = p"

definition line_end :: "utext \<Rightarrow> nat \<Rightarrow> nat \<Rightarrow> nat option" where
  \<comment> \<open>\<open>source.indexOf("\\n", i)\<close>, with None also for a line feed that is not before \<open>fin\<close>.\<close>
  "line_end s i fin = find (\<lambda>k. at_is s k 10) [i..<fin]"

lemma find_between: "find P [i..<n] = Some k \<Longrightarrow> i \<le> k \<and> k < n \<and> P k"
  by (auto simp: find_Some_iff)

lemma line_end_bounds: "line_end s i fin = Some k \<Longrightarrow> i \<le> k \<and> k < fin"
  unfolding line_end_def by (blast dest: find_between)

lemma line_end_found: "line_end s i fin = Some k \<Longrightarrow> at_is s k 10"
  unfolding line_end_def by (blast dest: find_between)

definition unescapedAt :: "utext \<Rightarrow> nat \<Rightarrow> bool" where
  "unescapedAt s i \<longleftrightarrow> even (length (takeWhile (\<lambda>c. c = 92) (rev (take i s))))"

definition findDelimiter :: "utext \<Rightarrow> utext \<Rightarrow> nat \<Rightarrow> nat \<Rightarrow> nat option" where
  "findDelimiter s d i fin = find (\<lambda>k. starts_at s d k \<and> unescapedAt s k) [i..<fin]"

function label_end :: "utext \<Rightarrow> nat \<Rightarrow> nat \<Rightarrow> nat \<Rightarrow> nat option" where
  "label_end s fin depth at =
     (if fin \<le> at then None
      else if at_is s at 92 \<and> at + 1 < fin then label_end s fin depth (at + 2)
      else if at_is s at 91 then label_end s fin (depth + 1) (at + 1)
      else if at_is s at 93 then (if depth = 1 then Some at else label_end s fin (depth - 1) (at + 1))
      else label_end s fin depth (at + 1))"
  by pat_completeness auto
termination by (relation "measure (\<lambda>(s, fin, depth, at). fin - at)") auto

declare label_end.simps [simp del]

function url_close :: "utext \<Rightarrow> nat \<Rightarrow> nat \<Rightarrow> nat \<Rightarrow> nat option" where
  "url_close s fin depth at =
     (if fin \<le> at then None
      else if at_is s at 92 then None
      else if at_is s at 40 then url_close s fin (depth + 1) (at + 1)
      else if at_is s at 41 then (if depth = 1 then Some at else url_close s fin (depth - 1) (at + 1))
      else url_close s fin depth (at + 1))"
  by pat_completeness auto
termination by (relation "measure (\<lambda>(s, fin, depth, at). fin - at)") auto

declare url_close.simps [simp del]

definition linkAt :: "url_parser \<Rightarrow> utext \<Rightarrow> nat \<Rightarrow> nat \<Rightarrow> (nat \<times> nat \<times> utext) option" where
  \<comment> \<open>The end of the label, the closing parenthesis and the address.\<close>
  "linkAt url s start fin =
     (case label_end s fin 1 (start + 1) of
        None \<Rightarrow> None
      | Some m \<Rightarrow>
          if m \<le> start + 1 \<or> \<not> at_is s (m + 1) 40 then None
          else (case url_close s fin 1 (m + 2) of
                  None \<Rightarrow> None
                | Some close \<Rightarrow>
                    (let u = slice s (m + 2) close in if safeUrl url u then Some (m, close, u) else None)))"

function quote_lines :: "utext \<Rightarrow> nat \<Rightarrow> nat \<Rightarrow> utext \<times> nat" where
  \<comment> \<open>The text of consecutive quoted lines from \<open>cursor\<close>, and where they end.\<close>
  "quote_lines s fin cursor =
     (if \<not> (cursor < fin \<and> at_is s cursor 62) then ([], cursor)
      else
        (let from = (if at_is s (cursor + 1) 32 \<or> at_is s (cursor + 1) 9 then cursor + 2 else cursor + 1);
             stop = or_else (line_end s from fin) fin;
             here = slice s from stop in
         if \<not> (stop < fin \<and> at_is s (stop + 1) 62) then (here, stop)
         else (case quote_lines s fin (stop + 1) of (rest, n) \<Rightarrow> (here @ 10 # rest, n))))"
  by pat_completeness auto
termination
  by (relation "measure (\<lambda>(s, fin, cursor). fin - cursor)") (auto simp: or_else_def split: option.splits if_splits dest!: line_end_bounds)

declare quote_lines.simps [simp del]

section \<open>Rendering\<close>

datatype md_token =
    QuoteLines utext nat              \<comment> \<open>the quoted text, and where it ends\<close>
  | Escaped
  | Fenced utext utext nat            \<comment> \<open>language, text, and where it ends\<close>
  | FenceMark
  | Inline utext nat
  | Link nat nat utext                \<comment> \<open>the end of the label, of the link, and the address\<close>
  | Marked "tg_kind list" nat nat     \<comment> \<open>the width of the marker, and where it closes\<close>
  | Plain

definition escapable :: "nat set" where
  "escapable = {92, 42, 126, 96, 91, 93, 40, 41}"

definition ticks :: utext where "ticks = [96, 96, 96]"

definition fence :: "utext \<Rightarrow> nat \<Rightarrow> nat \<Rightarrow> (utext \<times> utext \<times> nat) option" where
  "fence s at fin =
     (case line_end s (at + 3) fin of
        None \<Rightarrow> None
      | Some n \<Rightarrow>
          (let language = slice s (at + 3) (if at_is s (n - 1) 13 then n - 1 else n) in
           if \<not> language_ok language then None
           else (case findDelimiter s ticks (n + 1) fin of
                   None \<Rightarrow> None
                 | Some close \<Rightarrow> Some (language, slice s (n + 1) close, close + 3))))"

definition inline_code :: "utext \<Rightarrow> nat \<Rightarrow> nat \<Rightarrow> (utext \<times> nat) option" where
  "inline_code s at fin =
     (case findDelimiter s [96] (at + 1) fin of
        None \<Rightarrow> None
      | Some close \<Rightarrow> if at + 1 < close then Some (slice s (at + 1) close, close + 1) else None)"

definition md_marked :: "utext \<Rightarrow> nat \<Rightarrow> nat \<Rightarrow> utext \<Rightarrow> nat option" where
  "md_marked s at fin m =
     (if \<not> starts_at s m at then None
      else (case findDelimiter s m (at + length m) fin of
              None \<Rightarrow> None
            | Some close \<Rightarrow> if at + length m < close then Some close else None))"

definition marker_at :: "utext \<Rightarrow> nat \<Rightarrow> (utext \<times> tg_kind) option" where
  "marker_at s at =
     find (\<lambda>(m, k). starts_at s m at) [([42, 42], Bold), ([126, 126], Strike), ([42], Italic)]"

definition token_at :: "url_parser \<Rightarrow> utext \<Rightarrow> nat \<Rightarrow> nat \<Rightarrow> nat \<Rightarrow> md_token" where
  "token_at url s start at fin =
     (if start = 0 \<and> fin = length s \<and> (at = 0 \<or> at_is s (at - 1) 10) \<and> at_is s at 62
      then (case quote_lines s fin at of (content, n) \<Rightarrow> QuoteLines content n)
      else if at_is s at 92 \<and> at + 1 < fin \<and> s ! (at + 1) \<in> escapable then Escaped
      else if starts_at s ticks at
      then (case fence s at fin of None \<Rightarrow> FenceMark | Some (l, t, n) \<Rightarrow> Fenced l t n)
      else if at_is s at 96
      then (case inline_code s at fin of None \<Rightarrow> Plain | Some (t, n) \<Rightarrow> Inline t n)
      else (case if at_is s at 91 then linkAt url s at fin else None of
              Some (m, close, u) \<Rightarrow> Link m (close + 1) u
            | None \<Rightarrow>
                (case md_marked s at fin [42, 42, 42] of
                   Some close \<Rightarrow> Marked [Bold, Italic] 3 close
                 | None \<Rightarrow>
                     (case marker_at s at of
                        None \<Rightarrow> Plain
                      | Some (m, k) \<Rightarrow>
                          (case md_marked s at fin m of None \<Rightarrow> Plain | Some close \<Rightarrow> Marked [k] (length m) close)))))"

type_synonym builder = "utext \<times> tg_entity list"

definition append_text :: "builder \<Rightarrow> utext \<Rightarrow> builder" where
  "append_text b t = (fst b @ t, snd b)"

definition mark :: "tg_kind list \<Rightarrow> builder \<Rightarrow> builder \<Rightarrow> builder" where
  \<comment> \<open>The entities over what was added since \<open>b\<close>, when anything was.\<close>
  "mark kinds b b' =
     (let i = length (fst b); n = length (fst b') - i in
      (fst b', snd b' @ (if 0 < n then map (\<lambda>k. \<lparr>te_kind = k, te_offset = int i, te_length = int n\<rparr>) kinds else [])))"

section \<open>Progress\<close>

lemma slice_length: "length (slice s i j) = min j (length s) - i"
  by (simp add: slice_def)

lemma findDelimiter_bounds: "findDelimiter s d i fin = Some k \<Longrightarrow> i \<le> k \<and> k < fin \<and> starts_at s d k"
  unfolding findDelimiter_def by (blast dest: find_between)

lemma quote_lines_progress:
  assumes "quote_lines s fin at = (content, n)" "at \<le> fin"
  shows "at \<le> n \<and> n \<le> fin \<and> length content \<le> n - at \<and> (at < fin \<and> at_is s at 62 \<longrightarrow> length content < n - at)"
  using assms
proof (induction s fin at arbitrary: content n rule: quote_lines.induct)
  case (1 s fin at)
  show ?case
  proof (cases "at < fin \<and> at_is s at 62")
    case False
    then show ?thesis using "1.prems" by (subst (asm) quote_lines.simps) auto
  next
    case True
    define first where "first = (if at_is s (at + 1) 32 \<or> at_is s (at + 1) 9 then at + 2 else at + 1)"
    define stop where "stop = or_else (line_end s first fin) fin"
    have stop: "at < stop \<and> stop \<le> fin"
      using True line_end_bounds [of s first fin] by (auto simp: stop_def or_else_def first_def split: option.splits)
    have here: "length (slice s first stop) \<le> stop - at - 1" unfolding slice_length first_def by (simp split: if_splits, linarith)
    have eq: "quote_lines s fin at = (if \<not> (stop < fin \<and> at_is s (stop + 1) 62) then (slice s first stop, stop)
        else (case quote_lines s fin (stop + 1) of (rest, n) \<Rightarrow> (slice s first stop @ 10 # rest, n)))"
      using True by (subst quote_lines.simps) (simp add: Let_def stop_def first_def)
    show ?thesis
    proof (cases "stop < fin \<and> at_is s (stop + 1) 62")
      case False
      then show ?thesis using eq "1.prems"(1) stop here by (auto split: if_splits)
    next
      case more: True
      obtain rest where rest: "quote_lines s fin (stop + 1) = (rest, n)" "content = slice s first stop @ 10 # rest"
        using eq more "1.prems"(1) by (auto split: prod.splits)
      have "\<not> \<not> (at < fin \<and> at_is s at 62)" "\<not> \<not> (stop < fin \<and> at_is s (stop + 1) 62)" using True more by simp_all
      then have "stop + 1 \<le> n \<and> n \<le> fin \<and> length rest \<le> n - (stop + 1)"
        using "1.IH" [OF _ first_def stop_def refl _ rest(1)] more by simp
      moreover have "length content = length (slice s first stop) + 1 + length rest" using rest(2) by simp
      ultimately have "length content < n - at" using here stop by linarith
      then show ?thesis using \<open>stop + 1 \<le> n \<and> _\<close> stop by simp
    qed
  qed
qed

lemma label_end_bounds: "label_end s fin depth at = Some m \<Longrightarrow> at \<le> m \<and> m < fin \<and> at_is s m 93"
proof (induction s fin depth at rule: label_end.induct)
  case (1 s fin depth at)
  note eq = label_end.simps [of s fin depth at]
  consider "\<not> fin \<le> at" "at_is s at 92 \<and> at + 1 < fin" "label_end s fin depth (at + 2) = Some m"
    | "\<not> fin \<le> at" "\<not> (at_is s at 92 \<and> at + 1 < fin)" "at_is s at 91" "label_end s fin (depth + 1) (at + 1) = Some m"
    | "\<not> fin \<le> at" "at_is s at 93" "m = at"
    | "\<not> fin \<le> at" "\<not> (at_is s at 92 \<and> at + 1 < fin)" "\<not> at_is s at 91" "at_is s at 93" "depth \<noteq> 1"
        "label_end s fin (depth - 1) (at + 1) = Some m"
    | "\<not> fin \<le> at" "\<not> (at_is s at 92 \<and> at + 1 < fin)" "\<not> at_is s at 91" "\<not> at_is s at 93" "label_end s fin depth (at + 1) = Some m"
    using "1.prems" unfolding eq by (simp split: if_splits)
  then show ?case by cases (use "1.IH" in \<open>force\<close>)+
qed

lemma url_close_bounds: "url_close s fin depth at = Some m \<Longrightarrow> at \<le> m \<and> m < fin \<and> at_is s m 41"
proof (induction s fin depth at rule: url_close.induct)
  case (1 s fin depth at)
  note eq = url_close.simps [of s fin depth at]
  consider "\<not> fin \<le> at" "\<not> at_is s at 92" "at_is s at 40" "url_close s fin (depth + 1) (at + 1) = Some m"
    | "\<not> fin \<le> at" "at_is s at 41" "m = at"
    | "\<not> fin \<le> at" "\<not> at_is s at 92" "\<not> at_is s at 40" "at_is s at 41" "depth \<noteq> 1" "url_close s fin (depth - 1) (at + 1) = Some m"
    | "\<not> fin \<le> at" "\<not> at_is s at 92" "\<not> at_is s at 40" "\<not> at_is s at 41" "url_close s fin depth (at + 1) = Some m"
    using "1.prems" unfolding eq by (simp split: if_splits)
  then show ?case by cases (use "1.IH" in \<open>force\<close>)+
qed

lemma linkAt_bounds:
  "linkAt url s at fin = Some (m, close, u) \<Longrightarrow> at + 1 < m \<and> m < close \<and> close < fin \<and> at_is s m 93 \<and> at_is s close 41 \<and> safeUrl url u"
  by (auto simp: linkAt_def Let_def split: option.splits if_splits dest!: label_end_bounds url_close_bounds)

lemma md_marked_bounds: "md_marked s at fin m = Some close \<Longrightarrow> at + length m < close \<and> close < fin \<and> starts_at s m at \<and> starts_at s m close"
  by (auto simp: md_marked_def split: option.splits if_splits dest!: findDelimiter_bounds)

lemma starts_at_single: "starts_at s [c] k \<longleftrightarrow> at_is s k c"
  by (cases "k < length s") (auto simp: starts_at_def at_is_def Cons_nth_drop_Suc [symmetric])

lemma inline_bounds:
  "inline_code s at fin = Some (t, n) \<Longrightarrow> \<exists>close. at + 1 < close \<and> close < fin \<and> at_is s close 96 \<and> t = slice s (at + 1) close \<and> n = close + 1"
  by (auto simp: inline_code_def starts_at_single split: option.splits if_splits dest!: findDelimiter_bounds)

lemma fence_bounds:
  assumes "fence s at fin = Some (l, t, n)"
  shows "\<exists>eol close. at + 3 \<le> eol \<and> eol < close \<and> close < fin \<and> at_is s eol 10 \<and> starts_at s ticks close \<and>
     t = slice s (eol + 1) close \<and> n = close + 3 \<and> language_ok l"
proof -
  obtain eol where eol: "line_end s (at + 3) fin = Some eol" using assms by (auto simp: fence_def split: option.splits)
  then obtain close where close: "findDelimiter s ticks (eol + 1) fin = Some close" and "language_ok l" "t = slice s (eol + 1) close" "n = close + 3"
    using assms by (auto simp: fence_def Let_def split: option.splits if_splits)
  then show ?thesis using findDelimiter_bounds [OF close] line_end_bounds [OF eol] line_end_found [OF eol] by auto
qed

lemma marker_at_cases: "marker_at s at = Some (m, k) \<Longrightarrow> (m, k) \<in> {([42, 42], Bold), ([126, 126], Strike), ([42], Italic)}"
  by (auto simp: marker_at_def split: if_splits)

text \<open>What a token says of the source.\<close>

lemma token_at_cases:
  assumes "at < fin"
  obtains (quote) content n where "token_at url s start at fin = QuoteLines content n" "start = 0" "fin = length s"
      "quote_lines s fin at = (content, n)" "at_is s at 62" "at < n" "n \<le> fin" "length content < n - at"
  | (escaped) "token_at url s start at fin = Escaped" "at_is s at 92" "at + 1 < fin" "s ! (at + 1) \<in> escapable"
  | (fenced) l t n eol close where "token_at url s start at fin = Fenced l t n" "starts_at s ticks at" "at + 3 \<le> eol" "eol < close"
      "close < fin" "at_is s eol 10" "starts_at s ticks close" "t = slice s (eol + 1) close" "n = close + 3" "language_ok l"
  | (fence_mark) "token_at url s start at fin = FenceMark" "starts_at s ticks at"
  | (inline) t n close where "token_at url s start at fin = Inline t n" "at_is s at 96" "at + 1 < close" "close < fin" "at_is s close 96"
      "t = slice s (at + 1) close" "n = close + 1"
  | (link) m close u where "token_at url s start at fin = Link m (close + 1) u" "at_is s at 91" "at + 1 < m" "m < close" "close < fin"
      "at_is s m 93" "at_is s close 41" "safeUrl url u"
  | (md_marked) kinds m close where "token_at url s start at fin = Marked kinds (length m) close" "at + length m < close" "close < fin"
      "starts_at s m at" "starts_at s m close"
      "(m, kinds) \<in> {([42, 42, 42], [Bold, Italic]), ([42, 42], [Bold]), ([126, 126], [Strike]), ([42], [Italic])}"
  | (plain) "token_at url s start at fin = Plain"
proof (cases "start = 0 \<and> fin = length s \<and> (at = 0 \<or> at_is s (at - 1) 10) \<and> at_is s at 62")
  case True
  obtain content n where q: "quote_lines s fin at = (content, n)" by (cases "quote_lines s fin at")
  then have "n \<le> fin" "length content < n - at" using quote_lines_progress [OF q] assms True by simp_all
  moreover from this have "at < n" by linarith
  ultimately show ?thesis using quote [of content n] q True by (simp add: token_at_def)
next
  case no_quote: False
  show ?thesis
  proof (cases "at_is s at 92 \<and> at + 1 < fin \<and> s ! (at + 1) \<in> escapable")
    case True
    then show ?thesis using escaped by (simp add: token_at_def at_is_def)
  next
    case no_escape: False
    show ?thesis
    proof (cases "starts_at s ticks at")
      case True
      then show ?thesis
      proof (cases "fence s at fin")
        case None
        then show ?thesis using fence_mark no_quote no_escape True unfolding token_at_def by (simp only: if_False if_True option.case)
      next
        case (Some x)
        obtain l t n where x: "x = (l, t, n)" by (cases x)
        obtain eol close where "at + 3 \<le> eol" "eol < close" "close < fin" "at_is s eol 10" "starts_at s ticks close"
            "t = slice s (eol + 1) close" "n = close + 3" "language_ok l" using fence_bounds Some x by blast
        moreover have "token_at url s start at fin = Fenced l t n"
          using no_quote no_escape True Some x unfolding token_at_def by (simp only: if_False if_True option.case prod.case)
        ultimately show ?thesis using fenced True by blast
      qed
    next
      case no_ticks: False
      show ?thesis
      proof (cases "at_is s at 96")
        case True
        have tok: "token_at url s start at fin = (case inline_code s at fin of None \<Rightarrow> Plain | Some (t, n) \<Rightarrow> Inline t n)"
          using no_quote no_escape no_ticks True unfolding token_at_def by (simp only: if_False if_True)
        show ?thesis
        proof (cases "inline_code s at fin")
          case (Some x)
          obtain t n where x: "x = (t, n)" by (cases x)
          show ?thesis using inline_bounds [OF Some [unfolded x]] inline [of t n] tok Some x True by auto
        qed (use plain tok in simp)
      next
        case False
        have tok: "token_at url s start at fin = (case if at_is s at 91 then linkAt url s at fin else None of
              Some (m, close, u) \<Rightarrow> Link m (close + 1) u
            | None \<Rightarrow> (case md_marked s at fin [42, 42, 42] of
                   Some close \<Rightarrow> Marked [Bold, Italic] 3 close
                 | None \<Rightarrow> (case marker_at s at of
                        None \<Rightarrow> Plain
                      | Some (m, k) \<Rightarrow>
                          (case md_marked s at fin m of None \<Rightarrow> Plain | Some close \<Rightarrow> Marked [k] (length m) close))))"
          using no_quote no_escape no_ticks False unfolding token_at_def by (simp only: if_False)
        show ?thesis
        proof (cases "if at_is s at 91 then linkAt url s at fin else None")
          case (Some x)
          obtain m close u where x: "x = (m, close, u)" by (cases x)
          have "at_is s at 91" "linkAt url s at fin = Some (m, close, u)" using Some x by (auto split: if_splits)
          then show ?thesis using link [of m close u] linkAt_bounds tok Some x by auto
        next
          case no_link: None
          show ?thesis
          proof (cases "md_marked s at fin [42, 42, 42]")
            case (Some close)
            then show ?thesis using md_marked [of "[Bold, Italic]" "[42, 42, 42]" close] md_marked_bounds [OF Some] tok no_link by simp
          next
            case no_triple: None
            show ?thesis
            proof (cases "marker_at s at")
              case (Some x)
              obtain m k where x: "x = (m, k)" by (cases x)
              show ?thesis
              proof (cases "md_marked s at fin m")
                case (Some close)
                then show ?thesis using md_marked [of "[k]" m close] md_marked_bounds [OF Some] marker_at_cases [of s at m k] tok no_link no_triple
                    \<open>marker_at s at = Some x\<close> x by auto
              qed (use plain tok no_link no_triple \<open>marker_at s at = Some x\<close> x in simp)
            qed (use plain tok no_link no_triple in simp)
          qed
        qed
      qed
    qed
  qed
qed

lemma token_progress:
  assumes "at < fin"
  shows "token_at url s start at fin = QuoteLines content n \<Longrightarrow> fin - n < fin - at \<and> length content < fin - at"
    "token_at url s start at fin = Fenced l t n \<Longrightarrow> fin - n < fin - at"
    "token_at url s start at fin = Inline t n \<Longrightarrow> fin - n < fin - at"
    "token_at url s start at fin = Link m n u \<Longrightarrow> fin - n < fin - at \<and> m - (at + 1) < fin - at"
    "token_at url s start at fin = Marked kinds w close \<Longrightarrow> fin - (close + w) < fin - at \<and> close - (at + w) < fin - at"
  by (cases rule: token_at_cases [OF assms, of url s start]; auto)+

function fragment :: "url_parser \<Rightarrow> utext \<Rightarrow> nat \<Rightarrow> nat \<Rightarrow> nat \<Rightarrow> builder \<Rightarrow> builder" where
  \<comment> \<open>\<open>at\<close> is the loop's index, \<open>start\<close> where the loop began.\<close>
  "fragment url s start at fin b =
     (if fin \<le> at then b
      else (case token_at url s start at fin of
          QuoteLines content n \<Rightarrow>
            fragment url s start n fin (mark [Blockquote] b (fragment url (32 # content) 1 1 (length content + 1) b))
        | Escaped \<Rightarrow> fragment url s start (at + 2) fin (append_text b [s ! (at + 1)])
        | Fenced l t n \<Rightarrow> fragment url s start n fin (mark [Pre l] b (append_text b t))
        | FenceMark \<Rightarrow> fragment url s start (at + 3) fin (append_text b ticks)
        | Inline t n \<Rightarrow> fragment url s start n fin (mark [Code] b (append_text b t))
        | Link m n u \<Rightarrow> fragment url s start n fin (mark [TextUrl u] b (fragment url s (at + 1) (at + 1) m b))
        | Marked kinds w close \<Rightarrow>
            fragment url s start (close + w) fin (mark kinds b (fragment url s (at + w) (at + w) close b))
        | Plain \<Rightarrow> fragment url s start (at + 1) fin (append_text b [s ! at])))"
  by pat_completeness auto
termination
  by (relation "measure (\<lambda>(url, s, start, at, fin, b). fin - at)") (auto simp: not_le dest: token_progress)

declare fragment.simps [simp del]

definition renderTelegramText :: "url_parser \<Rightarrow> utext \<Rightarrow> format_error + builder" where
  "renderTelegramText url m =
     ensure (utf8_size m \<le> 16384 \<and> 0 \<notin> set m \<and> validUnicode m) FormatRefused (
       (let b = fragment url m 0 0 (length m) ([], []) in
        ensure (validText (fst b)) FormatRefused (
        rbind (normalized url (fst b) (map entity_json (telegramCompatible (snd b)))) (\<lambda>es. Inr (fst b, es)))))"

end
