(* ===== verification/TextAccept.thy ===== *)
theory TextAccept
  imports TextFormat "HOL-Library.Code_Target_Nat"
begin

text \<open>
  Which entities are accepted, and in which order they come out; the client library's entities read
  back; and what the repair of overlaps leaves of a style.
\<close>

section \<open>Pairs of entities\<close>

definition apart :: "tg_entity \<Rightarrow> tg_entity \<Rightarrow> bool" where
  "apart a b \<longleftrightarrow> te_end a \<le> te_offset b \<or> te_end b \<le> te_offset a"

definition inside :: "tg_entity \<Rightarrow> tg_entity \<Rightarrow> bool" where
  "inside a b \<longleftrightarrow> te_offset b \<le> te_offset a \<and> te_end a \<le> te_end b"

definition pair_ok :: "tg_entity \<Rightarrow> tg_entity \<Rightarrow> bool" where
  \<comment> \<open>What Telegram allows of two entities: apart, or nested with neither code, nor two links, nor two
    quotes, nor the same style twice.\<close>
  "pair_ok a b \<longleftrightarrow>
     apart a b \<or>
     ((inside a b \<or> inside b a) \<and> \<not> is_code (te_kind a) \<and> \<not> is_code (te_kind b) \<and> \<not> (is_link (te_kind a) \<and> is_link (te_kind b)) \<and>
      \<not> (te_kind a = Blockquote \<and> te_kind b = Blockquote) \<and>
      \<not> (te_offset a = te_offset b \<and> te_length a = te_length b \<and> type_order (te_kind a) = type_order (te_kind b)))"

lemma pair_ok_sym: "pair_ok a b \<Longrightarrow> pair_ok b a"
  unfolding pair_ok_def apart_def by auto

lemma preorder_entities: "preorder_by compare_entities"
  unfolding preorder_by_def compare_entities_def by (auto split: if_splits)

lemma later_pair:
  assumes "compare_entities l r \<le> 0" "0 < te_length r"
  shows "te_end l \<le> te_offset r \<or> \<not> clash l r \<longleftrightarrow> pair_ok l r"
proof (cases "te_end l \<le> te_offset r")
  case True
  then show ?thesis by (simp add: pair_ok_def apart_def)
next
  case False
  have order: "te_offset l \<le> te_offset r" "te_offset l = te_offset r \<Longrightarrow> te_length r \<le> te_length l"
    using assms(1) by (auto simp: compare_entities_def split: if_splits)
  have "\<not> apart l r" using False order(1) assms(2) by (simp add: apart_def)
  moreover have "inside l r \<or> inside r l \<longleftrightarrow> te_end r \<le> te_end l" using order by (auto simp: inside_def)
  ultimately show ?thesis using False by (auto simp: pair_ok_def clash_def)
qed

lemma clear_of_iff:
  assumes "ordered_by compare_entities es" "\<forall>r \<in> set es. compare_entities l r \<le> 0 \<and> 0 < te_length r"
  shows "clear_of l es \<longleftrightarrow> (\<forall>r \<in> set es. pair_ok l r)"
  using assms
proof (induction es)
  case (Cons r rs)
  have r: "te_end l \<le> te_offset r \<or> \<not> clash l r \<longleftrightarrow> pair_ok l r" using later_pair Cons.prems(2) by simp
  show ?case
  proof (cases "te_end l \<le> te_offset r")
    case True
    have "pair_ok l q" if "q \<in> set rs" for q
    proof -
      have "te_offset r \<le> te_offset q" using Cons.prems(1) that by (auto simp: compare_entities_def split: if_splits)
      then show ?thesis using True by (simp add: pair_ok_def apart_def)
    qed
    then show ?thesis using True r by simp
  next
    case False
    then show ?thesis using r Cons by simp
  qed
qed simp

lemma well_nested_iff:
  assumes "ordered_by compare_entities es" "\<forall>e \<in> set es. 0 < te_length e"
  shows "well_nested es \<longleftrightarrow> sorted_wrt pair_ok es"
  using assms by (induction es) (auto simp: clear_of_iff)

section \<open>Documents of entities\<close>

fun kind_ok :: "url_parser \<Rightarrow> tg_kind \<Rightarrow> bool" where
  "kind_ok url (Pre l) = language_ok l"
| "kind_ok url (TextUrl u) = safeUrl url u"
| "kind_ok url k = True"

definition entity_ok :: "url_parser \<Rightarrow> utext \<Rightarrow> tg_entity \<Rightarrow> bool" where
  "entity_ok url s e \<longleftrightarrow> kind_ok url (te_kind e) \<and> entity_span_ok s (te_offset e) (te_length e)"

lemma entity_fields [simp]:
  "field (Some (entity_json e)) ''type'' = Some (JStr (js (type_name (te_kind e))))"
  "field (Some (entity_json e)) ''offset'' = Some (JInt (te_offset e))"
  "field (Some (entity_json e)) ''length'' = Some (JInt (te_length e))"
  "te_kind e = Pre l \<Longrightarrow> field (Some (entity_json e)) ''language'' = Some (JStr l)"
  "te_kind e = TextUrl u \<Longrightarrow> field (Some (entity_json e)) ''url'' = Some (JStr u)"
  by (simp_all add: entity_json_def field_Cons del: js_simps field.simps)

lemma entity_keys [simp]:
  "te_kind e = Pre l \<Longrightarrow> exact_keys (entity_json e) [''type'', ''offset'', ''length'', ''language''] []"
  "te_kind e = TextUrl u \<Longrightarrow> exact_keys (entity_json e) [''type'', ''offset'', ''length'', ''url''] []"
  "kind_json (te_kind e) = [] \<Longrightarrow> exact_keys (entity_json e) [''type'', ''offset'', ''length''] []"
  by (simp_all add: entity_json_def exact_keys_def js_inj del: js_simps)

lemma read_kind_json: "read_kind url (entity_json e) = (if kind_ok url (te_kind e) then Inr (te_kind e) else Inl FormatRefused)"
  by (cases "te_kind e") (simp_all add: read_kind_def simple_kind_def js_inj ensure_def del: js_simps)

lemma read_entity_json:
  "read_entity url s (entity_json e) = (if entity_ok url s e then Inr e else Inl FormatRefused)"
  by (auto simp: read_entity_def read_kind_json entity_ok_def ensure_def)

lemma read_entities_json:
  "rmap (read_entity url s) (map entity_json es) = (if \<forall>e \<in> set es. entity_ok url s e then Inr es else Inl FormatRefused)"
  by (induction es) (auto simp: read_entity_json)

lemma entity_ok_length: "entity_ok url s e \<Longrightarrow> 0 < te_length e"
  by (simp add: entity_ok_def entity_span_ok_def)

lemma normalized_iff:
  "normalized url s (map entity_json es) = Inr r \<longleftrightarrow>
     validText s \<and> (\<forall>e \<in> set es. entity_ok url s e) \<and> sorted_wrt pair_ok es \<and> r = sort_by compare_entities es"
proof -
  have "well_nested (sort_by compare_entities es) \<longleftrightarrow> sorted_wrt pair_ok es" if "\<forall>e \<in> set es. entity_ok url s e"
    using well_nested_iff [OF ordered_sort_by [OF preorder_entities], of es] that entity_ok_length
      pairwise_sort_by [of pair_ok compare_entities es, OF pair_ok_sym] by auto
  then show ?thesis by (auto simp: normalized_def read_entities_json ensure_def Let_def)
qed

lemma no_ties:
  assumes "sorted_wrt pair_ok es" "\<forall>e \<in> set es. 0 < te_length e" "a \<in> set es" "b \<in> set es"
    "compare_entities a b \<le> 0" "compare_entities b a \<le> 0"
  shows "a = b"
proof (rule ccontr)
  assume ne: "a \<noteq> b"
  obtain i j where ij: "i < length es" "j < length es" "es ! i = a" "es ! j = b" using assms(3,4) by (auto simp: in_set_conv_nth)
  then have "i \<noteq> j" using ne by auto
  then have "pair_ok a b" using sorted_wrt_nth_less [OF assms(1), of i j] sorted_wrt_nth_less [OF assms(1), of j i] ij pair_ok_sym
    by (cases i j rule: linorder_cases) auto
  moreover have "te_offset a = te_offset b" "te_length a = te_length b" "type_order (te_kind a) = type_order (te_kind b)"
    using assms(5,6) by (auto simp: compare_entities_def split: if_splits)
  moreover have "0 < te_length a" using assms(2,3) by blast
  ultimately show False by (auto simp: pair_ok_def apart_def)
qed

section \<open>What is left of a style\<close>

definition covers :: "span \<Rightarrow> int \<Rightarrow> bool" where
  "covers x i \<longleftrightarrow> fst x \<le> i \<and> i < fst x + snd x"

lemma split_span_covers: "(\<exists>x \<in> set (split_span c x0). covers x i) \<longleftrightarrow> covers x0 i \<and> \<not> covers c i"
  by (cases c; cases x0) (auto simp: split_span_def covers_def overlap_def)

lemma split_fold_covers:
  "(\<exists>x \<in> set (fold (\<lambda>c xs. concat (map (split_span c) xs)) cs xs). covers x i) \<longleftrightarrow>
     (\<exists>x \<in> set xs. covers x i) \<and> (\<forall>c \<in> set cs. \<not> covers c i)"
proof (induction cs arbitrary: xs)
  case (Cons c cs)
  have "(\<exists>x \<in> set (concat (map (split_span c) xs)). covers x i) \<longleftrightarrow> (\<exists>y \<in> set xs. \<exists>x \<in> set (split_span c y). covers x i)"
    by auto
  then have "(\<exists>x \<in> set (concat (map (split_span c) xs)). covers x i) \<longleftrightarrow> (\<exists>x \<in> set xs. covers x i) \<and> \<not> covers c i"
    unfolding split_span_covers by blast
  then show ?case using Cons.IH by auto
qed simp

lemma filter_bex: "(\<And>x. C x \<Longrightarrow> P x) \<Longrightarrow> (\<exists>x \<in> set (filter P xs). C x) \<longleftrightarrow> (\<exists>x \<in> set xs. C x)"
  by auto

lemma split_spans_covers: "(\<exists>x \<in> set (split_spans cs x0). covers x i) \<longleftrightarrow> covers x0 i \<and> (\<forall>c \<in> set cs. \<not> covers c i)"
proof -
  have "(\<exists>x \<in> set (split_spans cs x0). covers x i) \<longleftrightarrow>
      (\<exists>x \<in> set (fold (\<lambda>c xs. concat (map (split_span c) xs)) cs [x0]). covers x i)"
    unfolding split_spans_def by (rule filter_bex) (simp add: covers_def)
  then show ?thesis using split_fold_covers [of cs "[x0]" i] by simp
qed

lemma split_style_covers:
  "(\<exists>p \<in> set (split_style es e). te_kind p = k \<and> covers (span_of p) i) \<longleftrightarrow>
     is_style (te_kind e) \<and> te_kind e = k \<and> covers (span_of e) i \<and> \<not> (\<exists>c \<in> set es. free_code es c \<and> covers (span_of c) i)"
proof (cases "is_style (te_kind e)")
  case True
  have "(\<exists>p \<in> set (split_style es e). te_kind p = k \<and> covers (span_of p) i) \<longleftrightarrow>
      te_kind e = k \<and> (\<exists>x \<in> set (split_spans (map span_of (filter (free_code es) es)) (span_of e)). covers x i)"
    using True by (force simp: split_style_def span_of_def)
  then show ?thesis using True by (auto simp: split_spans_covers)
qed (simp add: split_style_def)

lemma container_not_style: "is_container k \<Longrightarrow> \<not> is_style k" "is_code k \<Longrightarrow> \<not> is_style k" "is_code k \<Longrightarrow> \<not> is_container k"
  by (cases k; simp)+

lemma split_style_kind: "p \<in> set (split_style es e) \<Longrightarrow> te_kind p = te_kind e \<and> is_style (te_kind e)"
  by (auto simp: split_style_def split: if_splits)

section \<open>The client library's entities\<close>

lemma tl_fields:
  "field (Some (tl_args (tl_of e))) ''offset'' = Some (JInt (te_offset e))"
  "field (Some (tl_args (tl_of e))) ''length'' = Some (JInt (te_length e))"
  "te_kind e = Blockquote \<Longrightarrow> field (Some (tl_args (tl_of e))) ''flags'' = Some (JInt 0)"
  "te_kind e = Blockquote \<Longrightarrow> field (Some (tl_args (tl_of e))) ''collapsed'' = Some (JBool False)"
  "te_kind e = Pre l \<Longrightarrow> field (Some (tl_args (tl_of e))) ''language'' = Some (JStr l)"
  "te_kind e = TextUrl u \<Longrightarrow> field (Some (tl_args (tl_of e))) ''url'' = Some (JStr u)"
  by (cases "te_kind e"; simp add: tl_of_def tl_position_def field_Cons Let_def del: js_simps field.simps)+

lemma tl_shape:
  "\<exists>t keys. tl_type (tl_class (tl_of e)) = Some (Named t, keys) \<and> t = type_name (te_kind e) \<and>
     tlArguments (tl_of e) keys = Inr (tl_args (tl_of e))"
  by (cases "te_kind e") (simp_all add: tl_of_def tl_position_def Let_def tlArguments_def exact_keys_def ensure_def js_inj del: js_simps)

lemma project_tl:
  assumes "entity_span_ok s (te_offset e) (te_length e)"
  shows "project_entity s (tl_of e) = Inr (Some (entity_json e))"
proof -
  obtain keys where shape: "tl_type (tl_class (tl_of e)) = Some (Named (type_name (te_kind e)), keys)"
      "tlArguments (tl_of e) keys = Inr (tl_args (tl_of e))" using tl_shape by blast
  have span: "validTlSpan s (tl_args (tl_of e)) = Inr (te_offset e, te_length e)"
    using assms by (simp add: validTlSpan_def tl_fields ensure_def del: field.simps)
  have own: "own_property (type_name (te_kind e)) (tl_args (tl_of e)) = kind_json (te_kind e)"
    by (cases "te_kind e") (simp_all add: own_property_def tl_fields or_else_def del: field.simps)
  have quote: "Named (type_name (te_kind e)) = Named ''blockquote'' \<longrightarrow> field (Some (tl_args (tl_of e))) ''flags'' = Some (JInt 0) \<and>
      field (Some (tl_args (tl_of e))) ''collapsed'' = Some (JBool False)"
    using tl_fields(3,4) [of e] by (cases "te_kind e") simp_all
  show ?thesis unfolding project_entity_def shape option.case prod.case rbind_Inr span ensure_def if_P [OF quote] projection.case own
    by (simp add: entity_json_def)
qed

lemma project_all:
  "\<forall>e \<in> set es. entity_span_ok s (te_offset e) (te_length e) \<Longrightarrow> rmap (project_entity s) (map tl_of es) = Inr (map (\<lambda>e. Some (entity_json e)) es)"
  by (induction es) (simp_all add: project_tl)

lemma map_filter_Some: "List.map_filter (\<lambda>v. v) (map (\<lambda>e. Some (f e)) es) = map f es"
  by (induction es) simp_all

lemma read_kind_ok: "read_kind url v = Inr k \<Longrightarrow> kind_ok url k"
  by (auto simp: read_kind_def simple_kind_def ensure_eq_Inr split: option.splits if_splits)

lemma read_entity_ok: "read_entity url s v = Inr e \<Longrightarrow> entity_ok url s e"
  by (cases "as_int (field (Some v) ''offset'')"; cases "as_int (field (Some v) ''length'')")
    (auto simp: read_entity_def entity_ok_def rbind_eq_Inr ensure_eq_Inr dest: read_kind_ok simp del: field.simps)

lemma normalized_again:
  assumes "normalized url s vs = Inr r"
  shows "normalized url s (map entity_json r) = Inr r \<and> (\<forall>e \<in> set r. entity_ok url s e)"
proof -
  obtain es where es: "rmap (read_entity url s) vs = Inr es" and r: "r = sort_by compare_entities es" and "well_nested r" "validText s"
    using assms by (auto simp: normalized_def rbind_eq_Inr ensure_eq_Inr Let_def)
  have ok: "\<forall>e \<in> set r. entity_ok url s e" using rmap_all [OF es] read_entity_ok by (fastforce simp: r)
  have ordered: "ordered_by compare_entities r" by (simp add: r ordered_sort_by [OF preorder_entities])
  then have "sorted_wrt pair_ok r" using \<open>well_nested r\<close> well_nested_iff ok entity_ok_length by blast
  then show ?thesis using \<open>validText s\<close> ok sort_by_ordered [OF ordered] by (simp add: normalized_iff)
qed

section \<open>Properties\<close>

text \<open>
  C28 Entities are accepted exactly when the text is valid, each of them is in range, cuts no
  surrogate pair and has a safe address or language, and any two of them are apart or nested as
  Telegram allows; the result holds the same entities, in canonical order.
\<close>
theorem entities_accepted_iff:
  "copyTelegramTextEntities url s (map entity_json es) = Inr r \<longleftrightarrow>
     validText s \<and> (\<forall>e \<in> set es. entity_ok url s e) \<and> sorted_wrt pair_ok es \<and> mset r = mset es \<and>
     ordered_by compare_entities r"
proof -
  have "r = sort_by compare_entities es \<longleftrightarrow> mset r = mset es \<and> ordered_by compare_entities r"
    if ok: "\<forall>e \<in> set es. entity_ok url s e" "sorted_wrt pair_ok es"
  proof
    assume r: "mset r = mset es \<and> ordered_by compare_entities r"
    have "set r = set es" using r mset_eq_setD by blast
    then show "r = sort_by compare_entities es"
      using r ordered_unique [of compare_entities r "sort_by compare_entities es"] ordered_sort_by [OF preorder_entities]
        no_ties [OF ok(2)] ok(1) entity_ok_length by (metis mset_sort_by)
  qed (simp add: ordered_sort_by [OF preorder_entities])
  then show ?thesis unfolding copyTelegramTextEntities_def normalized_iff by blast
qed

definition any_url :: url_parser where
  "any_url s = Some \<lparr>lu_protocol = js ''https:'', lu_hostname = s, lu_username = [], lu_password = []\<rparr>"

definition demo_entities :: "tg_entity list" where
  "demo_entities = [\<lparr>te_kind = Italic, te_offset = 0, te_length = 3\<rparr>, \<lparr>te_kind = Bold, te_offset = 0, te_length = 3\<rparr>]"

theorem entities_accepted_iff_witness:
  "copyTelegramTextEntities any_url (js ''abc'') (map entity_json demo_entities) = Inr (rev demo_entities) \<and>
   ordered_by compare_entities (rev demo_entities)"
proof -
  have "copyTelegramTextEntities any_url (js ''abc'') (map entity_json demo_entities) = Inr (rev demo_entities)" by code_simp
  then show ?thesis using entities_accepted_iff [of any_url "js ''abc''" demo_entities "rev demo_entities"] by blast
qed

text \<open>
  C29 The client library's entities made of accepted ones are read back as they were: the conversion
  to the wire form and back gives the canonical entities.
\<close>
theorem entities_round_trip:
  assumes "toTelegramEntities url s vs = Inr ts"
  shows "fromTelegramEntities url s ts = normalized url s vs"
proof -
  obtain r where r: "normalized url s vs = Inr r" and ts: "ts = map tl_of r"
    using assms by (auto simp: toTelegramEntities_def rbind_eq_Inr)
  have again: "normalized url s (map entity_json r) = Inr r" "\<forall>e \<in> set r. entity_ok url s e" using normalized_again [OF r] by auto
  then have "validText s" by (simp add: normalized_iff)
  moreover have "rmap (project_entity s) ts = Inr (map (\<lambda>e. Some (entity_json e)) r)"
    unfolding ts using again(2) by (intro project_all) (simp add: entity_ok_def)
  ultimately show ?thesis using again(1) r by (simp add: fromTelegramEntities_def map_filter_Some ensure_def)
qed

theorem entities_round_trip_witness:
  "fromTelegramEntities any_url (js ''abc'') (map tl_of (rev demo_entities)) = Inr (rev demo_entities)"
proof -
  have "toTelegramEntities any_url (js ''abc'') (map entity_json demo_entities) = Inr (map tl_of (rev demo_entities))" by code_simp
  moreover have "normalized any_url (js ''abc'') (map entity_json demo_entities) = Inr (rev demo_entities)" by code_simp
  ultimately show ?thesis using entities_round_trip by metis
qed


definition styled :: "tg_entity list" where
  \<comment> \<open>Bold around inline code, as \<open>**Use `foo` now**\<close> gives it.\<close>
  "styled = [\<lparr>te_kind = Code, te_offset = 4, te_length = 3\<rparr>, \<lparr>te_kind = Bold, te_offset = 0, te_length = 11\<rparr>]"


end
