(* ===== verification/TextPieces.thy ===== *)
theory TextPieces
  imports TextAccept
begin

text \<open>
  The repair of overlaps on a family of nested entities: what is left is nested as Telegram allows,
  but for links in links and for a style given twice.
\<close>

section \<open>Families\<close>

definition laminar :: "tg_entity \<Rightarrow> tg_entity \<Rightarrow> bool" where
  \<comment> \<open>Apart, or one inside the other, which is no code; two quotes are apart.\<close>
  "laminar a b \<longleftrightarrow>
     apart a b \<or>
     (((inside a b \<and> \<not> is_code (te_kind b)) \<or> (inside b a \<and> \<not> is_code (te_kind a))) \<and>
      \<not> (te_kind a = Blockquote \<and> te_kind b = Blockquote))"

definition compatible :: "tg_entity \<Rightarrow> tg_entity \<Rightarrow> bool" where
  "compatible a b \<longleftrightarrow>
     apart a b \<or>
     ((inside a b \<or> inside b a) \<and> \<not> is_code (te_kind a) \<and> \<not> is_code (te_kind b) \<and>
      \<not> (te_kind a = Blockquote \<and> te_kind b = Blockquote))"

definition redundant :: "tg_entity \<Rightarrow> tg_entity \<Rightarrow> bool" where
  \<comment> \<open>A link in a link, or the same style twice.\<close>
  "redundant a b \<longleftrightarrow>
     (\<not> apart a b \<and> is_link (te_kind a) \<and> is_link (te_kind b)) \<or>
     (te_offset a = te_offset b \<and> te_length a = te_length b \<and> type_order (te_kind a) = type_order (te_kind b))"

lemma laminar_sym: "laminar a b \<Longrightarrow> laminar b a"
  unfolding laminar_def apart_def by blast

lemma compatible_sym: "compatible a b \<Longrightarrow> compatible b a"
  unfolding compatible_def apart_def by blast

lemma pair_ok_compatible:
  assumes "compatible a b" "0 < te_length a"
  shows "pair_ok a b \<longleftrightarrow> \<not> redundant a b"
  using assms unfolding pair_ok_def compatible_def redundant_def apart_def by auto

lemma pairwiseD:
  assumes "sorted_wrt P xs" "\<And>a b. P a b \<Longrightarrow> P b a" "a \<in> set xs" "b \<in> set xs" "a \<noteq> b"
  shows "P a b"
proof -
  obtain i j where ij: "i < length xs" "j < length xs" "xs ! i = a" "xs ! j = b" using assms(3,4) by (auto simp: in_set_conv_nth)
  then have "i \<noteq> j" using assms(5) by auto
  then show ?thesis using sorted_wrt_nth_less [OF assms(1), of i j] sorted_wrt_nth_less [OF assms(1), of j i] ij assms(2)
    by (cases i j rule: linorder_cases) auto
qed

lemma pairwise_concat:
  assumes "\<And>x. x \<in> set xs \<Longrightarrow> sorted_wrt P (f x)" "sorted_wrt (\<lambda>x y. \<forall>a \<in> set (f x). \<forall>b \<in> set (f y). P a b) xs"
  shows "sorted_wrt P (concat (map f xs))"
  using assms by (induction xs) (auto simp: sorted_wrt_append)

section \<open>The pieces of a style\<close>

definition piece :: "span list \<Rightarrow> span \<Rightarrow> span \<Rightarrow> bool" where
  "piece cs s x \<longleftrightarrow>
     fst s \<le> fst x \<and> fst x + snd x \<le> fst s + snd s \<and> (\<forall>c \<in> set cs. \<not> overlap x c) \<and>
     (fst x = fst s \<or> (\<exists>c \<in> set cs. fst x = fst c + snd c)) \<and>
     (fst x + snd x = fst s + snd s \<or> (\<exists>c \<in> set cs. fst x + snd x = fst c))"

abbreviation "span_apart x y \<equiv> fst x + snd x \<le> fst y \<or> fst y + snd y \<le> fst (x :: span)"

lemma split_span_in:
  assumes "x \<in> set (split_span c s)" "0 < snd c"
  shows "fst s \<le> fst x" "fst x + snd x \<le> fst s + snd s" "\<not> overlap x c"
    "fst x = fst s \<or> fst x = fst c + snd c" "fst x + snd x = fst s + snd s \<or> fst x + snd x = fst c" "0 < snd s \<Longrightarrow> 0 < snd x"
  using assms by (auto simp: split_span_def overlap_def split: if_splits)

lemma split_span_apart: "0 < snd c \<Longrightarrow> sorted_wrt span_apart (split_span c s)"
  by (auto simp: split_span_def)

lemma overlap_smaller: "\<not> overlap s c \<Longrightarrow> fst s \<le> fst x \<Longrightarrow> fst x + snd x \<le> fst s + snd s \<Longrightarrow> \<not> overlap x c"
  by (auto simp: overlap_def)

lemma fold_pieces:
  assumes "\<forall>c \<in> set cs. 0 < snd c" "\<forall>x \<in> set xs. piece ds s x \<and> 0 < snd x" "sorted_wrt span_apart xs"
  shows "(\<forall>x \<in> set (fold (\<lambda>c xs. concat (map (split_span c) xs)) cs xs). piece (ds @ cs) s x \<and> 0 < snd x) \<and>
    sorted_wrt span_apart (fold (\<lambda>c xs. concat (map (split_span c) xs)) cs xs)"
  using assms
proof (induction cs arbitrary: xs ds)
  case (Cons c cs)
  let ?ys = "concat (map (split_span c) xs)"
  have c: "0 < snd c" using Cons.prems(1) by simp
  have "piece (ds @ [c]) s y \<and> 0 < snd y" if y: "y \<in> set ?ys" for y
  proof -
    obtain x where x: "x \<in> set xs" "y \<in> set (split_span c x)" using y by auto
    note in_x = split_span_in [OF x(2) c]
    have px: "piece ds s x" "0 < snd x" using Cons.prems(2) x(1) by auto
    have "\<forall>d \<in> set ds. \<not> overlap y d" using px(1) overlap_smaller in_x(1,2) unfolding piece_def by blast
    moreover have "fst y = fst s \<or> (\<exists>d \<in> set (ds @ [c]). fst y = fst d + snd d)"
      using in_x(4) px(1) unfolding piece_def by (elim disjE) fastforce+
    moreover have "fst y + snd y = fst s + snd s \<or> (\<exists>d \<in> set (ds @ [c]). fst y + snd y = fst d)"
      using in_x(5) px(1) unfolding piece_def by (elim disjE) fastforce+
    moreover have "fst s \<le> fst y" "fst y + snd y \<le> fst s + snd s" using in_x(1,2) px(1) by (simp_all add: piece_def)
    ultimately show ?thesis using in_x(3,6) px(2) unfolding piece_def by simp
  qed
  moreover have "sorted_wrt span_apart ?ys"
  proof (rule pairwise_concat)
    fix x assume "x \<in> set xs"
    show "sorted_wrt span_apart (split_span c x)" using split_span_apart c .
  next
    show "sorted_wrt (\<lambda>x y. \<forall>a \<in> set (split_span c x). \<forall>b \<in> set (split_span c y). span_apart a b) xs"
    proof (rule sorted_wrt_mono_rel [OF _ Cons.prems(3)])
      fix x y assume xy: "span_apart x y"
      show "\<forall>a \<in> set (split_span c x). \<forall>b \<in> set (split_span c y). span_apart a b"
      proof (intro ballI)
        fix a b assume a: "a \<in> set (split_span c x)" and b: "b \<in> set (split_span c y)"
        note bounds = split_span_in(1,2) [OF a c] split_span_in(1,2) [OF b c]
        from xy show "span_apart a b"
        proof (elim disjE)
          assume "fst x + snd x \<le> fst y"
          then have "fst a + snd a \<le> fst b" using bounds by linarith
          then show ?thesis ..
        next
          assume "fst y + snd y \<le> fst x"
          then have "fst b + snd b \<le> fst a" using bounds by linarith
          then show ?thesis ..
        qed
      qed
    qed
  qed
  moreover have "\<forall>c \<in> set cs. 0 < snd c" using Cons.prems(1) by simp
  ultimately have "(\<forall>x \<in> set (fold (\<lambda>c xs. concat (map (split_span c) xs)) cs ?ys). piece ((ds @ [c]) @ cs) s x \<and> 0 < snd x) \<and>
      sorted_wrt span_apart (fold (\<lambda>c xs. concat (map (split_span c) xs)) cs ?ys)"
    using Cons.IH [of ?ys "ds @ [c]"] by blast
  then show ?case unfolding fold.simps comp_apply append_assoc append_Cons append_Nil .
qed simp

lemma split_spans_pieces:
  assumes "\<forall>c \<in> set cs. 0 < snd c" "0 < snd s"
  shows "\<forall>x \<in> set (split_spans cs s). piece cs s x \<and> 0 < snd x" "sorted_wrt span_apart (split_spans cs s)"
proof -
  have "piece [] s s" by (simp add: piece_def)
  then show "\<forall>x \<in> set (split_spans cs s). piece cs s x \<and> 0 < snd x" "sorted_wrt span_apart (split_spans cs s)"
    using fold_pieces [of cs "[s]" "[]" s] assms by (auto simp: split_spans_def intro: sorted_wrt_filter)
qed

text \<open>What no code overlaps lies in one piece or none.\<close>

lemma piece_swallows:
  assumes "piece cs s p" "\<forall>c \<in> set cs. 0 < snd c \<and> \<not> overlap q c" "fst s \<le> fst q" "fst q + snd q \<le> fst s + snd s"
  shows "span_apart p q \<or> (fst p \<le> fst q \<and> fst q + snd q \<le> fst p + snd p)"
proof (rule disjCI)
  assume near: "\<not> (fst p \<le> fst q \<and> fst q + snd q \<le> fst p + snd p)"
  show "span_apart p q"
  proof (rule ccontr)
    assume "\<not> span_apart p q"
    then have meet: "fst q < fst p + snd p" "fst p < fst q + snd q" by auto
    from near consider "fst q < fst p" | "fst p + snd p < fst q + snd q" by linarith
    then show False
    proof cases
      case 1
      then obtain c where c: "c \<in> set cs" "fst p = fst c + snd c" using assms(1,3) by (auto simp: piece_def)
      then show False using assms(2) 1 meet by (auto simp: overlap_def)
    next
      case 2
      then obtain c where c: "c \<in> set cs" "fst p + snd p = fst c" using assms(1,4) by (auto simp: piece_def)
      then show False using assms(2) 2 meet by (auto simp: overlap_def)
    qed
  qed
qed

section \<open>The repaired family\<close>

lemma span_of_simps [simp]: "fst (span_of e) = te_offset e" "snd (span_of e) = te_length e"
  by (simp_all add: span_of_def)

lemma overlap_apart: "overlap (span_of a) (span_of b) \<longleftrightarrow> \<not> apart a b"
  by (auto simp: overlap_def apart_def)

abbreviation "free_spans es \<equiv> map span_of (filter (free_code es) es)"

definition family :: "tg_entity list \<Rightarrow> bool" where
  "family es \<longleftrightarrow> sorted_wrt laminar es \<and> (\<forall>e \<in> set es. 0 < te_length e)"

lemma style_pieces:
  assumes "family es" "e \<in> set es"
  shows "\<forall>p \<in> set (split_style es e). te_kind p = te_kind e \<and> is_style (te_kind e) \<and> piece (free_spans es) (span_of e) (span_of p) \<and> 0 < te_length p"
    "sorted_wrt apart (split_style es e)"
proof -
  have pos: "\<forall>c \<in> set (free_spans es). 0 < snd c" "0 < snd (span_of e)" using assms by (auto simp: family_def)
  note pieces = split_spans_pieces [OF pos]
  show "\<forall>p \<in> set (split_style es e). te_kind p = te_kind e \<and> is_style (te_kind e) \<and> piece (free_spans es) (span_of e) (span_of p) \<and> 0 < te_length p"
    using pieces(1) by (auto simp: split_style_def span_of_def)
  have "sorted_wrt (\<lambda>x y. apart (case x of (i, n) \<Rightarrow> \<lparr>te_kind = te_kind e, te_offset = i, te_length = n\<rparr>)
      (case y of (i, n) \<Rightarrow> \<lparr>te_kind = te_kind e, te_offset = i, te_length = n\<rparr>)) (split_spans (free_spans es) (span_of e))"
    by (rule sorted_wrt_mono_rel [OF _ pieces(2)]) (auto simp: apart_def)
  then show "sorted_wrt apart (split_style es e)" by (simp add: split_style_def sorted_wrt_map)
qed

lemma swallowed:
  assumes "family es" "piece (free_spans es) (span_of e) (span_of p)" "inside q e" "\<forall>c \<in> set es. free_code es c \<longrightarrow> apart q c"
  shows "apart p q \<or> inside q p"
proof -
  have "\<forall>c \<in> set (free_spans es). 0 < snd c \<and> \<not> overlap (span_of q) c" using assms(1,4) overlap_apart by (auto simp: family_def)
  then show ?thesis using piece_swallows [OF assms(2), of "span_of q"] assms(3) by (auto simp: apart_def inside_def)
qed

lemma piece_inside: "piece cs (span_of e) (span_of p) \<Longrightarrow> inside p e"
  by (simp add: piece_def inside_def)

lemma piece_apart: "piece (free_spans es) (span_of e) (span_of p) \<Longrightarrow> c \<in> set es \<Longrightarrow> free_code es c \<Longrightarrow> apart p c"
  using overlap_apart by (auto simp: piece_def)

lemma inside_apart: "inside p e \<Longrightarrow> apart e a \<Longrightarrow> apart p a" "inside p e \<Longrightarrow> apart a e \<Longrightarrow> apart a p"
  by (auto simp: inside_def apart_def)

lemma inside_trans: "inside a b \<Longrightarrow> inside b c \<Longrightarrow> inside a c"
  by (simp add: inside_def)

lemma kept_compatible:
  assumes "laminar a b" "is_container (te_kind a) \<or> free_code es a" "is_container (te_kind b) \<or> free_code es b" "a \<in> set es" "b \<in> set es"
  shows "compatible a b"
proof -
  have away: "apart c l" if "free_code es c" "is_container (te_kind l)" "l \<in> set es" for c l
    using that overlap_apart [of c l] by (auto simp: free_code_def list_ex_iff)
  have code: "is_code (te_kind c) \<Longrightarrow> is_container (te_kind c) \<or> free_code es c \<Longrightarrow> free_code es c" for c
    using container_not_style(3) by blast
  show ?thesis
  proof (cases "is_code (te_kind a) \<or> is_code (te_kind b)")
    case True
    have "apart a b"
    proof (cases "is_code (te_kind a) \<and> is_code (te_kind b)")
      case True
      then show ?thesis using assms(1) by (auto simp: laminar_def)
    next
      case False
      then have "(free_code es a \<and> is_container (te_kind b)) \<or> (free_code es b \<and> is_container (te_kind a))"
        using True assms(2,3) code by (auto simp: free_code_def)
      then show ?thesis using away assms(4,5) by (auto simp: apart_def)
    qed
    then show ?thesis by (simp add: compatible_def)
  qed (use assms(1) in \<open>auto simp: laminar_def compatible_def\<close>)
qed

lemma kept_piece_compatible:
  assumes fam: "family es" and a: "is_container (te_kind a) \<or> free_code es a" "a \<in> set es"
    and p: "e \<in> set es" "p \<in> set (split_style es e)"
  shows "compatible a p"
proof -
  have pc: "te_kind p = te_kind e" "is_style (te_kind e)" "piece (free_spans es) (span_of e) (span_of p)"
    using style_pieces(1) [OF fam p(1)] p(2) by auto
  have style: "\<not> is_code (te_kind p)" "te_kind p \<noteq> Blockquote" using pc(1,2) container_not_style by fastforce+
  show ?thesis
  proof (cases "free_code es a")
    case True
    then show ?thesis using piece_apart [OF pc(3) a(2)] by (auto simp: compatible_def apart_def)
  next
    case False
    then have box: "is_container (te_kind a)" using a(1) by blast
    have "a \<noteq> e" using box pc(2) container_not_style(1) by blast
    then have lam: "laminar a e" using pairwiseD [of laminar es a e, OF _ laminar_sym] fam a(2) p(1) by (simp add: family_def)
    have codes: "\<forall>c \<in> set es. free_code es c \<longrightarrow> apart a c" using box a(2) overlap_apart by (auto simp: free_code_def list_ex_iff apart_def)
    have not_code: "\<not> is_code (te_kind a)" using box container_not_style(3) by blast
    note sub = piece_inside [OF pc(3)]
    from lam consider "apart a e" | "inside a e" | "inside e a" by (auto simp: laminar_def)
    then show ?thesis
    proof cases
      case 1
      then show ?thesis using inside_apart(2) [OF sub] by (simp add: compatible_def)
    next
      case 2
      then have "apart p a \<or> inside a p" by (rule swallowed [OF fam pc(3) _ codes])
      then show ?thesis using not_code style by (auto simp: compatible_def apart_def)
    next
      case 3
      then show ?thesis using inside_trans [OF sub] not_code style by (simp add: compatible_def)
    qed
  qed
qed

lemma pieces_compatible:
  assumes fam: "family es" and ab: "laminar a b" "a \<in> set es" "b \<in> set es" "p \<in> set (split_style es a)" "q \<in> set (split_style es b)"
  shows "compatible p q"
proof -
  have p: "te_kind p = te_kind a" "is_style (te_kind a)" "piece (free_spans es) (span_of a) (span_of p)"
    using style_pieces(1) [OF fam ab(2)] ab(4) by auto
  have q: "te_kind q = te_kind b" "is_style (te_kind b)" "piece (free_spans es) (span_of b) (span_of q)"
    using style_pieces(1) [OF fam ab(3)] ab(5) by auto
  have style: "\<not> is_code (te_kind p)" "te_kind p \<noteq> Blockquote" "\<not> is_code (te_kind q)" "te_kind q \<noteq> Blockquote"
    using p(1,2) q(1,2) container_not_style by fastforce+
  note ip = piece_inside [OF p(3)] and iq = piece_inside [OF q(3)]
  from ab(1) consider "apart a b" | "inside a b" | "inside b a" by (auto simp: laminar_def)
  then show ?thesis
  proof cases
    case 1
    then show ?thesis using inside_apart(2) [OF iq inside_apart(1) [OF ip]] by (simp add: compatible_def)
  next
    case 2
    have "apart q p \<or> inside p q"
      by (rule swallowed [OF fam q(3) inside_trans [OF ip 2]]) (use piece_apart [OF p(3)] in blast)
    then show ?thesis using style by (auto simp: compatible_def apart_def)
  next
    case 3
    have "apart p q \<or> inside q p"
      by (rule swallowed [OF fam p(3) inside_trans [OF iq 3]]) (use piece_apart [OF q(3)] in blast)
    then show ?thesis using style by (auto simp: compatible_def)
  qed
qed

lemma repaired_compatible:
  assumes "family es"
  shows "sorted_wrt compatible (telegramCompatible es)"
proof -
  have lam: "sorted_wrt laminar es" using assms by (simp add: family_def)
  have "sorted_wrt laminar (filter (\<lambda>e. is_container (te_kind e) \<or> free_code es e) es)" using lam by (rule sorted_wrt_filter)
  then have kept: "sorted_wrt compatible (filter (\<lambda>e. is_container (te_kind e) \<or> free_code es e) es)"
    by (rule sorted_wrt_mono_rel [rotated]) (auto intro: kept_compatible)
  have "sorted_wrt (\<lambda>x y. \<forall>a \<in> set (split_style es x). \<forall>b \<in> set (split_style es y). compatible a b) es"
    by (rule sorted_wrt_mono_rel [OF _ lam]) (use pieces_compatible [OF assms] in blast)
  moreover have "sorted_wrt compatible (split_style es e)" if "e \<in> set es" for e
    by (rule sorted_wrt_mono_rel [OF _ style_pieces(2) [OF assms that]]) (simp add: compatible_def)
  ultimately have pieces: "sorted_wrt compatible (concat (map (split_style es) es))" by (intro pairwise_concat)
  show ?thesis unfolding telegramCompatible_def sorted_wrt_append using kept pieces kept_piece_compatible [OF assms] by auto
qed

end
