(* ===== verification/TextRender.thy ===== *)
theory TextRender
  imports TextPieces AlertSize
begin

text \<open>
  The Markdown renderer: its entities are nested and cut no surrogate pair, so that a text is refused
  only for its size, for a link in a link, or for a style given twice.
\<close>

section \<open>Valid text\<close>

abbreviation "plain_unit c \<equiv> \<not> is_high c \<and> \<not> is_low c"

lemma valid_Cons: "plain_unit c \<Longrightarrow> validUnicode (c # s) \<longleftrightarrow> validUnicode s"
  by (cases s) auto

lemma valid_append: "validUnicode a \<Longrightarrow> validUnicode (a @ b) \<longleftrightarrow> validUnicode b"
  by (induction a rule: validUnicode.induct) (auto simp: valid_Cons split: if_splits)

lemma valid_split: "plain_unit c \<Longrightarrow> validUnicode (a @ c # b) \<longleftrightarrow> validUnicode a \<and> validUnicode b"
  by (induction a rule: validUnicode.induct) (auto simp: valid_Cons split: if_splits)

lemma valid_last: "validUnicode (a @ [h]) \<Longrightarrow> \<not> is_high h"
  by (induction a rule: validUnicode.induct) (auto simp: low_not_high split: if_splits)

lemma valid_boundary:
  assumes "validUnicode (take n s)" "n \<le> length s"
  shows "boundary s (int n)"
proof (cases n)
  case (Suc m)
  then have "take n s = take m s @ [s ! m]" using assms(2) by (simp add: take_Suc_conv_app_nth)
  then have "\<not> is_high (s ! m)" using assms(1) valid_last by metis
  then show ?thesis using Suc by (simp add: boundary_def nat_diff_distrib)
qed (simp add: boundary_def)

lemma valid_well_formed: "validUnicode s \<Longrightarrow> well_formed s"
  by (induction s rule: code_points.induct) (auto simp: well_formed_def split: if_splits)

lemma length_utf8: "length s \<le> utf8_size s"
proof (induction s rule: code_points.induct)
  case (3 a b r)
  then show ?case by (auto simp: utf8_size_def)
qed (auto simp: utf8_size_def)

lemma slice_Cons: "i < fin \<Longrightarrow> i < length s \<Longrightarrow> slice s i fin = s ! i # slice s (Suc i) fin"
  by (simp add: slice_def Cons_nth_drop_Suc [symmetric])

lemma slice_split: "i \<le> k \<Longrightarrow> k \<le> fin \<Longrightarrow> slice s i fin = slice s i k @ slice s k fin"
proof -
  assume "i \<le> k" "k \<le> fin"
  then have "take fin s = take k s @ drop k (take fin s)"
    by (metis append_take_drop_id min.absorb1 take_take)
  then have "drop i (take fin s) = drop i (take k s @ drop k (take fin s))" by simp
  also have "\<dots> = drop i (take k s) @ drop (i - length (take k s)) (drop k (take fin s))" by simp
  also have "drop (i - length (take k s)) (drop k (take fin s)) = drop k (take fin s)"
    using \<open>i \<le> k\<close> by (cases "k \<le> length s") auto
  finally show ?thesis by (simp add: slice_def)
qed

lemma slice_empty [simp]: "fin \<le> i \<Longrightarrow> slice s i fin = []"
  by (simp add: slice_def)

lemma clean_skip: "validUnicode (slice s i fin) \<Longrightarrow> at_is s i c \<Longrightarrow> plain_unit c \<Longrightarrow> validUnicode (slice s (Suc i) fin)"
  by (cases "i < fin") (auto simp: slice_Cons valid_Cons at_is_def)

lemma clean_part:
  assumes "validUnicode (slice s i fin)" "i \<le> k" "k < fin" "at_is s k c" "plain_unit c"
  shows "validUnicode (slice s i k)" "validUnicode (slice s k fin)" "validUnicode (slice s (Suc k) fin)"
proof -
  have "slice s i fin = slice s i k @ c # slice s (Suc k) fin"
    using slice_split [of i k fin s] slice_Cons [of k fin s] assms(2-4) by (simp add: at_is_def)
  then show "validUnicode (slice s i k)" "validUnicode (slice s (Suc k) fin)" using assms(1,5) valid_split by auto
  then show "validUnicode (slice s k fin)" using slice_Cons [of k fin s] assms(3-5) by (simp add: at_is_def valid_Cons)
qed

lemma starts_at_Cons: "starts_at s (c # m) i \<longleftrightarrow> at_is s i c \<and> starts_at s m (Suc i)"
proof (cases "i < length s")
  case True
  then show ?thesis by (auto simp: starts_at_def at_is_def Cons_nth_drop_Suc [symmetric])
qed (simp add: starts_at_def at_is_def)

lemma clean_marker:
  "starts_at s m i \<Longrightarrow> validUnicode (slice s i fin) \<Longrightarrow> \<forall>c \<in> set m. plain_unit c \<Longrightarrow> validUnicode (slice s (i + length m) fin)"
proof (induction m arbitrary: i)
  case (Cons c m)
  then have "validUnicode (slice s (Suc i) fin)" using clean_skip by (auto simp: starts_at_Cons)
  then show ?case using Cons by (fastforce simp: starts_at_Cons)
qed simp

section \<open>Growth of the builder\<close>

definition placed :: "url_parser \<Rightarrow> bool \<Rightarrow> nat \<Rightarrow> utext \<Rightarrow> tg_entity \<Rightarrow> bool" where
  "placed url quotes lo t e \<longleftrightarrow>
     int lo \<le> te_offset e \<and> te_end e \<le> int (length t) \<and> validUnicode (take (nat (te_offset e)) t) \<and>
     validUnicode (take (nat (te_end e)) t) \<and> kind_ok url (te_kind e) \<and> (te_kind e = Blockquote \<longrightarrow> quotes)"

definition grown :: "url_parser \<Rightarrow> bool \<Rightarrow> builder \<Rightarrow> builder \<Rightarrow> bool" where
  "grown url quotes b b' \<longleftrightarrow>
     (\<exists>x ys. b' = (fst b @ x, snd b @ ys) \<and> family ys \<and> (\<forall>e \<in> set ys. placed url quotes (length (fst b)) (fst b @ x) e))"

lemma grown_append [simp]: "grown url quotes b (append_text b t)"
  by (auto simp: grown_def append_text_def family_def)

lemma grown_refl [simp]: "grown url quotes b b"
  by (cases b) (auto simp: grown_def family_def)

lemma grown_more: "grown url False b b' \<Longrightarrow> grown url quotes b b'"
  unfolding grown_def placed_def by blast

lemma placed_longer:
  assumes "placed url quotes lo t e" "0 < te_length e" "lo' \<le> lo"
  shows "placed url quotes lo' (t @ x) e"
proof -
  have "nat (te_offset e) \<le> length t" "nat (te_end e) \<le> length t" using assms(1,2) unfolding placed_def by auto
  then show ?thesis using assms(1,3) unfolding placed_def by auto
qed

lemma grown_trans:
  assumes "grown url quotes b b1" "grown url quotes b1 b2"
  shows "grown url quotes b b2"
proof -
  obtain x ys where 1: "b1 = (fst b @ x, snd b @ ys)" "family ys" "\<forall>e \<in> set ys. placed url quotes (length (fst b)) (fst b @ x) e"
    using assms(1) unfolding grown_def by blast
  obtain z zs where 2: "b2 = (fst b1 @ z, snd b1 @ zs)" "family zs" "\<forall>e \<in> set zs. placed url quotes (length (fst b1)) (fst b1 @ z) e"
    using assms(2) unfolding grown_def by blast
  have ys: "placed url quotes (length (fst b)) ((fst b @ x) @ z) e" if "e \<in> set ys" for e
    using placed_longer [of url quotes "length (fst b)" "fst b @ x" e] 1(2,3) that by (simp add: family_def)
  have zs: "placed url quotes (length (fst b)) ((fst b @ x) @ z) e" if "e \<in> set zs" for e
    using 2(3) that 1(1) unfolding placed_def by auto
  have "laminar a c" if "a \<in> set ys" "c \<in> set zs" for a c
    using 1(1,3) 2(3) that by (fastforce simp: placed_def laminar_def apart_def)
  then have "family (ys @ zs)" using 1(2) 2(2) by (auto simp: family_def sorted_wrt_append)
  then show ?thesis unfolding grown_def using 1(1) 2(1) ys zs by (intro exI [of _ "x @ z"] exI [of _ "ys @ zs"]) auto
qed

lemma grown_mark:
  assumes "grown url inner b b1" "validUnicode (fst b)" "validUnicode (fst b1)"
    and kinds: "\<forall>k \<in> set kinds. kind_ok url k \<and> (k = Blockquote \<longrightarrow> quotes \<and> \<not> inner) \<and> (is_code k \<longrightarrow> snd b1 = snd b)"
    and shape: "(\<exists>k. kinds = [k]) \<or> kinds = [Bold, Italic]" and "inner \<longrightarrow> quotes"
  shows "grown url quotes b (mark kinds b b1)"
proof -
  obtain x ys where 1: "b1 = (fst b @ x, snd b @ ys)" "family ys" "\<forall>e \<in> set ys. placed url inner (length (fst b)) (fst b @ x) e"
    using assms(1) unfolding grown_def by blast
  define outer where "outer = (\<lambda>k. \<lparr>te_kind = k, te_offset = int (length (fst b)), te_length = int (length x)\<rparr>)"
  have mark: "mark kinds b b1 = (fst b @ x, snd b @ (ys @ (if x = [] then [] else map outer kinds)))"
    by (simp add: mark_def 1(1) outer_def Let_def)
  have ys: "placed url quotes (length (fst b)) (fst b @ x) e" if "e \<in> set ys" for e
    using 1(3) that assms(6) unfolding placed_def by blast
  show ?thesis
  proof (cases "x = []")
    case True
    then show ?thesis unfolding grown_def mark using 1(2) ys by (intro exI [of _ x] exI [of _ ys]) simp
  next
    case False
    have outer: "placed url quotes (length (fst b)) (fst b @ x) (outer k)" if "k \<in> set kinds" for k
      using kinds that assms(2,3) 1(1) by (auto simp: placed_def outer_def)
    have "laminar e (outer k)" if e: "e \<in> set ys" and k: "k \<in> set kinds" for e k
    proof -
      have "inside e (outer k)" using 1(3) e by (auto simp: placed_def inside_def outer_def)
      moreover have "\<not> is_code k" using kinds k e 1(1) by auto
      moreover have "\<not> (te_kind e = Blockquote \<and> k = Blockquote)" using 1(3) e kinds k by (auto simp: placed_def)
      ultimately show ?thesis by (simp add: laminar_def outer_def)
    qed
    moreover have "sorted_wrt laminar (map outer kinds)"
      using shape by (auto simp: laminar_def inside_def outer_def)
    moreover have "\<forall>e \<in> set (map outer kinds). 0 < te_length e" using False by (auto simp: outer_def)
    ultimately have "family (ys @ map outer kinds)" using 1(2) by (auto simp: family_def sorted_wrt_append)
    then show ?thesis unfolding grown_def mark using ys outer False
      by (intro exI [of _ x] exI [of _ "ys @ map outer kinds"]) auto
  qed
qed

section \<open>Quoted lines\<close>

lemma quote_lines_valid:
  assumes "quote_lines s fin at = (content, n)" "at \<le> fin" "validUnicode (slice s at fin)"
  shows "validUnicode content \<and> validUnicode (slice s n fin) \<and> set content \<subseteq> insert 10 (set s)"
  using assms
proof (induction s fin at arbitrary: content n rule: quote_lines.induct)
  case (1 s fin at)
  show ?case
  proof (cases "at < fin \<and> at_is s at 62")
    case False
    then show ?thesis using "1.prems" by (subst (asm) quote_lines.simps) auto
  next
    case True
    define first where "first = (if at_is s (at + 1) 32 \<or> at_is s (at + 1) 9 then at + 2 else at + 1)"
    define stop where "stop = or_else (line_end s first fin) fin"
    have eq: "quote_lines s fin at = (if \<not> (stop < fin \<and> at_is s (stop + 1) 62) then (slice s first stop, stop)
        else (case quote_lines s fin (stop + 1) of (rest, n) \<Rightarrow> (slice s first stop @ 10 # rest, n)))"
      using True by (subst quote_lines.simps) (simp add: Let_def stop_def first_def)
    have "validUnicode (slice s (Suc at) fin)" using clean_skip [of s at fin 62] True "1.prems"(3) by (simp add: is_high_def is_low_def)
    then have first: "validUnicode (slice s first fin)"
      using clean_skip [of s "Suc at" fin 32] clean_skip [of s "Suc at" fin 9] by (auto simp: first_def is_high_def is_low_def)
    have stop: "validUnicode (slice s first stop) \<and> validUnicode (slice s stop fin) \<and> (stop < fin \<longrightarrow> validUnicode (slice s (Suc stop) fin)) \<and> stop \<le> fin"
    proof (cases "line_end s first fin")
      case None
      then show ?thesis using first by (simp add: stop_def)
    next
      case (Some k)
      then have k: "first \<le> k" "k < fin" "at_is s k 10" "stop = k" using line_end_bounds line_end_found by (auto simp: stop_def)
      then show ?thesis using clean_part [OF first k(1,2,3)] by (simp add: is_high_def is_low_def)
    qed
    have sub: "set (slice s first stop) \<subseteq> set s" unfolding slice_def by (meson set_drop_subset set_take_subset subset_trans)
    show ?thesis
    proof (cases "stop < fin \<and> at_is s (stop + 1) 62")
      case False
      then show ?thesis using eq "1.prems"(1) stop sub by (auto split: if_splits)
    next
      case more: True
      obtain rest where rest: "quote_lines s fin (stop + 1) = (rest, n)" "content = slice s first stop @ 10 # rest"
        using eq more "1.prems"(1) by (auto split: prod.splits)
      have "\<not> \<not> (at < fin \<and> at_is s at 62)" "\<not> \<not> (stop < fin \<and> at_is s (stop + 1) 62)" using True more by simp_all
      then have "validUnicode rest \<and> validUnicode (slice s n fin) \<and> set rest \<subseteq> insert 10 (set s)"
        using "1.IH" [OF _ first_def stop_def refl _ rest(1)] more stop by simp
      then show ?thesis using rest(2) stop sub by (auto simp: valid_split is_high_def is_low_def)
    qed
  qed
qed

section \<open>The renderer\<close>

lemma ascii_plain: "c < 128 \<Longrightarrow> plain_unit c"
  by (simp add: is_high_def is_low_def)

lemma here_valid:
  assumes "validUnicode (t @ slice s at fin)" "at < fin" "at_is s at c" "c < 128"
  shows "validUnicode t" "validUnicode (slice s at fin)"
proof -
  have eq: "slice s at fin = c # slice s (Suc at) fin" using slice_Cons assms(2,3) by (auto simp: at_is_def)
  then show t: "validUnicode t" using assms(1) valid_split [OF ascii_plain [OF assms(4)]] by simp
  show "validUnicode (slice s at fin)" using assms(1) valid_append [OF t] by simp
qed

lemma markers_plain:
  "(m, kinds) \<in> {([42, 42, 42], [Bold, Italic]), ([42, 42], [Bold]), ([126, 126], [Strike]), ([42], [Italic])} \<Longrightarrow>
     (\<forall>c \<in> set m. plain_unit c) \<and> (\<exists>c r. m = c # r \<and> c < 128) \<and> (\<forall>k \<in> set kinds. kind_ok url k \<and> k \<noteq> Blockquote \<and> \<not> is_code k) \<and>
     ((\<exists>k. kinds = [k]) \<or> kinds = [Bold, Italic])"
  by (auto simp: is_high_def is_low_def)

lemma ticks_plain: "\<forall>c \<in> set ticks. plain_unit c" "length ticks = 3"
  by (simp_all add: ticks_def is_high_def is_low_def)

lemma starts_at_nonempty: "starts_at s (c # r) i \<Longrightarrow> at_is s i c"
  by (simp add: starts_at_Cons)

lemma fragment_step:
  "at < fin \<Longrightarrow> token_at url s start at fin = QuoteLines content n \<Longrightarrow> fragment url s start at fin b =
     fragment url s start n fin (mark [Blockquote] b (fragment url (32 # content) 1 1 (length content + 1) b))"
  "at < fin \<Longrightarrow> token_at url s start at fin = Escaped \<Longrightarrow> fragment url s start at fin b =
     fragment url s start (at + 2) fin (append_text b [s ! (at + 1)])"
  "at < fin \<Longrightarrow> token_at url s start at fin = Fenced l t n \<Longrightarrow> fragment url s start at fin b =
     fragment url s start n fin (mark [Pre l] b (append_text b t))"
  "at < fin \<Longrightarrow> token_at url s start at fin = FenceMark \<Longrightarrow> fragment url s start at fin b =
     fragment url s start (at + 3) fin (append_text b ticks)"
  "at < fin \<Longrightarrow> token_at url s start at fin = Inline t n \<Longrightarrow> fragment url s start at fin b =
     fragment url s start n fin (mark [Code] b (append_text b t))"
  "at < fin \<Longrightarrow> token_at url s start at fin = Link m n u \<Longrightarrow> fragment url s start at fin b =
     fragment url s start n fin (mark [TextUrl u] b (fragment url s (at + 1) (at + 1) m b))"
  "at < fin \<Longrightarrow> token_at url s start at fin = Marked kinds w close \<Longrightarrow> fragment url s start at fin b =
     fragment url s start (close + w) fin (mark kinds b (fragment url s (at + w) (at + w) close b))"
  "at < fin \<Longrightarrow> token_at url s start at fin = Plain \<Longrightarrow> fragment url s start at fin b =
     fragment url s start (at + 1) fin (append_text b [s ! at])"
  by (subst fragment.simps; simp)+

lemma fst_mark [simp]: "fst (mark kinds b b') = fst b'"
  by (simp add: mark_def Let_def)

lemma append_text_simps [simp]: "fst (append_text b t) = fst b @ t" "snd (append_text b t) = snd b"
  by (simp_all add: append_text_def)

definition no_nul :: "utext \<Rightarrow> builder \<Rightarrow> builder \<Rightarrow> bool" where
  "no_nul s b b' \<longleftrightarrow> (0 \<notin> set s \<longrightarrow> 0 \<notin> set (fst b) \<longrightarrow> 0 \<notin> set (fst b'))"

definition render_inv :: "url_parser \<Rightarrow> bool \<Rightarrow> utext \<Rightarrow> builder \<Rightarrow> builder \<Rightarrow> bool" where
  "render_inv url quotes s b b' \<longleftrightarrow> validUnicode (fst b') \<and> grown url quotes b b' \<and> no_nul s b b'"

lemma render_inv_trans:
  "grown url quotes b b1 \<Longrightarrow> no_nul s b b1 \<Longrightarrow> render_inv url quotes s b1 b2 \<Longrightarrow> render_inv url quotes s b b2"
  unfolding render_inv_def no_nul_def using grown_trans by blast

lemma no_nul_mark [simp]: "no_nul s b (mark kinds b b1) = no_nul s b b1"
  by (simp add: no_nul_def)

lemma no_nul_append: "set t \<subseteq> insert 96 (set s) \<Longrightarrow> no_nul s b (append_text b t)"
  by (auto simp: no_nul_def)

lemma set_slice: "set (slice s i j) \<subseteq> set s"
  unfolding slice_def by (meson set_drop_subset set_take_subset subset_trans)

lemma fragment_ok:
  assumes "validUnicode (fst b @ slice s at fin)" "fin \<le> length s"
  shows "render_inv url (start = 0) s b (fragment url s start at fin b)"
  using assms
proof (induction url s start at fin b rule: fragment.induct)
  case (1 url s start at fin b)
  show ?case
  proof (cases "at < fin")
    case False
    then show ?thesis using "1.prems"(1) by (subst fragment.simps) (simp add: render_inv_def no_nul_def)
  next
    case True
    then have go: "\<not> fin \<le> at" by simp
    note valid = here_valid [OF "1.prems"(1) True]
    show ?thesis
    proof (cases rule: token_at_cases [OF True, of url s start])
      case quote: (1 content n)
      have v: "validUnicode (fst b)" "validUnicode (slice s at fin)" using valid [OF quote(5)] by simp_all
      have lines: "validUnicode content" "validUnicode (slice s n fin)" "set content \<subseteq> insert 10 (set s)" using quote_lines_valid [OF quote(4) _ v(2)] True by simp_all
      let ?inner = "fragment url (32 # content) 1 1 (length content + 1) b"
      have "render_inv url (1 = (0::nat)) (32 # content) b ?inner"
        by (rule "1.IH"(1) [OF go quote(1)]) (simp_all add: slice_def valid_append v lines)
      then have inner: "validUnicode (fst ?inner)" "grown url False b ?inner" "no_nul (32 # content) b ?inner" by (simp_all add: render_inv_def)
      have "grown url (start = 0) b (mark [Blockquote] b ?inner)" by (rule grown_mark [OF inner(2) v(1) inner(1)]) (simp_all add: quote(2))
      moreover have "no_nul s b (mark [Blockquote] b ?inner)" using inner(3) lines(3) unfolding no_nul_def fst_mark by auto
      moreover have "render_inv url (start = 0) s (mark [Blockquote] b ?inner) (fragment url s start n fin (mark [Blockquote] b ?inner))"
        by (rule "1.IH"(2) [OF go quote(1)]) (simp_all add: valid_append inner(1) [simplified] lines "1.prems"(2))
      ultimately show ?thesis unfolding fragment_step(1) [OF True quote(1)] by (rule render_inv_trans)
    next
      case escaped: 2
      have v: "validUnicode (fst b)" "validUnicode (slice s at fin)" using valid [OF escaped(2)] by simp_all
      have c: "plain_unit (s ! (at + 1))" "at_is s (at + 1) (s ! (at + 1))"
        using escaped(3,4) "1.prems"(2) by (auto simp: escapable_def is_high_def is_low_def at_is_def)
      have "validUnicode (slice s (Suc at) fin)" using clean_skip [OF v(2) escaped(2)] by (simp add: ascii_plain)
      then have "validUnicode (slice s (at + 2) fin)" using clean_skip [of s "at + 1" fin, OF _ c(2,1)] by simp
      then have "render_inv url (start = 0) s (append_text b [s ! (at + 1)]) (fragment url s start (at + 2) fin (append_text b [s ! (at + 1)]))"
        by (intro "1.IH"(3) [OF go escaped(1)]) (use v c "1.prems"(2) in \<open>simp_all add: valid_append valid_Cons\<close>)
      moreover have "s ! (at + 1) \<in> set s" using escaped(3) "1.prems"(2) by simp
      then have "no_nul s b (append_text b [s ! (at + 1)])" by (intro no_nul_append) simp
      ultimately show ?thesis unfolding fragment_step(2) [OF True escaped(1)] using render_inv_trans [OF grown_append] by blast
    next
      case fenced: (3 l t n eol close)
      have tick: "at_is s at 96" using fenced(2) by (simp add: ticks_def starts_at_Cons)
      have v: "validUnicode (fst b)" "validUnicode (slice s at fin)" using valid [OF tick] by simp_all
      have "validUnicode (slice s (eol + 1) fin)"
        using clean_part(3) [OF v(2) _ _ fenced(6)] fenced(3-5) by (simp add: ascii_plain)
      note parts = clean_part [OF this _ fenced(5), of 96]
      have close: "at_is s close 96" using fenced(7) by (simp add: ticks_def starts_at_Cons)
      have t: "validUnicode t" "validUnicode (slice s close fin)" using parts fenced(4) close by (simp_all add: fenced(8) ascii_plain)
      have rest: "validUnicode (slice s n fin)"
        using clean_marker [OF fenced(7) t(2) ticks_plain(1)] unfolding ticks_plain(2) fenced(9) .
      let ?b = "mark [Pre l] b (append_text b t)"
      have "grown url (start = 0) b ?b" by (rule grown_mark [OF grown_append [where quotes = False] v(1)]) (simp_all add: valid_append v t fenced(10))
      moreover have "no_nul s b ?b" unfolding no_nul_mark fenced(8) by (intro no_nul_append subset_insertI2 set_slice)
      moreover have "render_inv url (start = 0) s ?b (fragment url s start n fin ?b)"
        by (rule "1.IH"(4) [OF go fenced(1)]) (simp_all add: valid_append v t rest "1.prems"(2))
      ultimately show ?thesis unfolding fragment_step(3) [OF True fenced(1)] by (rule render_inv_trans)
    next
      case fence_mark: 4
      have tick: "at_is s at 96" using fence_mark(2) by (simp add: ticks_def starts_at_Cons)
      have v: "validUnicode (fst b)" "validUnicode (slice s at fin)" using valid [OF tick] by simp_all
      have rest: "validUnicode (slice s (at + 3) fin)"
        using clean_marker [OF fence_mark(2) v(2) ticks_plain(1)] unfolding ticks_plain(2) .
      have "validUnicode ticks" by (simp add: ticks_def is_high_def is_low_def)
      then have "render_inv url (start = 0) s (append_text b ticks) (fragment url s start (at + 3) fin (append_text b ticks))"
        by (intro "1.IH"(5) [OF go fence_mark(1)]) (use v rest "1.prems"(2) in \<open>simp_all add: valid_append\<close>)
      moreover have "no_nul s b (append_text b ticks)" by (rule no_nul_append) (simp add: ticks_def)
      ultimately show ?thesis unfolding fragment_step(4) [OF True fence_mark(1)] using render_inv_trans [OF grown_append] by blast
    next
      case inline: (5 t n close)
      have v: "validUnicode (fst b)" "validUnicode (slice s at fin)" using valid [OF inline(2)] by simp_all
      have "validUnicode (slice s (Suc at) fin)" using clean_skip [OF v(2) inline(2)] by (simp add: ascii_plain)
      note parts = clean_part [OF this _ inline(4,5)]
      have t: "validUnicode t" and rest: "validUnicode (slice s n fin)" using parts inline(3) by (simp_all add: inline(6,7) ascii_plain)
      let ?b = "mark [Code] b (append_text b t)"
      have "grown url (start = 0) b ?b" by (rule grown_mark [OF grown_append [where quotes = False] v(1)]) (simp_all add: valid_append v t)
      moreover have "no_nul s b ?b" unfolding no_nul_mark inline(6) by (intro no_nul_append subset_insertI2 set_slice)
      moreover have "render_inv url (start = 0) s ?b (fragment url s start n fin ?b)"
        by (rule "1.IH"(6) [OF go inline(1)]) (simp_all add: valid_append v t rest "1.prems"(2))
      ultimately show ?thesis unfolding fragment_step(5) [OF True inline(1)] by (rule render_inv_trans)
    next
      case link: (6 m close u)
      have v: "validUnicode (fst b)" "validUnicode (slice s at fin)" using valid [OF link(2)] by simp_all
      have "validUnicode (slice s (Suc at) fin)" using clean_skip [OF v(2) link(2)] by (simp add: ascii_plain)
      note parts = clean_part [OF this _ _ link(6)]
      have label: "validUnicode (slice s (at + 1) m)" and "validUnicode (slice s (Suc m) fin)" using parts link(3-5) by (simp_all add: ascii_plain)
      then have rest: "validUnicode (slice s (close + 1) fin)" using clean_part(3) [OF _ _ link(5,7)] link(4) by (simp add: ascii_plain)
      let ?inner = "fragment url s (at + 1) (at + 1) m b"
      have "render_inv url (at + 1 = 0) s b ?inner"
        by (rule "1.IH"(7) [OF go link(1)]) (use "1.prems"(2) link(4,5) in \<open>simp_all add: valid_append v label [simplified]\<close>)
      then have inner: "validUnicode (fst ?inner)" "grown url False b ?inner" "no_nul s b ?inner" by (simp_all add: render_inv_def)
      have "grown url (start = 0) b (mark [TextUrl u] b ?inner)" by (rule grown_mark [OF inner(2) v(1) inner(1)]) (simp_all add: link(8))
      moreover have "no_nul s b (mark [TextUrl u] b ?inner)" using inner(3) by simp
      moreover have "render_inv url (start = 0) s (mark [TextUrl u] b ?inner) (fragment url s start (close + 1) fin (mark [TextUrl u] b ?inner))"
        by (rule "1.IH"(8) [OF go link(1)]) (simp_all add: valid_append inner(1) [simplified] rest [simplified] "1.prems"(2))
      ultimately show ?thesis unfolding fragment_step(6) [OF True link(1)] by (rule render_inv_trans)
    next
      case md_marked: (7 kinds m close)
      note m = markers_plain [OF md_marked(6), of url]
      obtain c r where c: "m = c # r" "c < 128" using m by blast
      have here: "at_is s at c" "at_is s close c" using md_marked(4,5) c(1) starts_at_nonempty by blast+
      have v: "validUnicode (fst b)" "validUnicode (slice s at fin)" using valid [OF here(1) c(2)] by simp_all
      have "validUnicode (slice s (at + length m) fin)" using clean_marker [OF md_marked(4) v(2)] m by blast
      note parts = clean_part [OF this _ md_marked(3) here(2) ascii_plain [OF c(2)]]
      have label: "validUnicode (slice s (at + length m) close)" using parts md_marked(2) by simp
      have rest: "validUnicode (slice s (close + length m) fin)" using clean_marker [OF md_marked(5)] parts(2) md_marked(2) m by simp
      let ?inner = "fragment url s (at + length m) (at + length m) close b"
      have nonzero: "(at + length m = 0) = False" using c(1) by simp
      have "render_inv url (at + length m = 0) s b ?inner"
        by (rule "1.IH"(9) [OF go md_marked(1)]) (use "1.prems"(2) md_marked(3) in \<open>simp_all add: valid_append v label\<close>)
      then have inner: "validUnicode (fst ?inner)" "grown url False b ?inner" "no_nul s b ?inner" unfolding nonzero by (simp_all add: render_inv_def)
      have "grown url (start = 0) b (mark kinds b ?inner)" by (rule grown_mark [OF inner(2) v(1) inner(1)]) (use m in auto)
      moreover have "no_nul s b (mark kinds b ?inner)" using inner(3) by simp
      moreover have "render_inv url (start = 0) s (mark kinds b ?inner) (fragment url s start (close + length m) fin (mark kinds b ?inner))"
        by (rule "1.IH"(10) [OF go md_marked(1)]) (simp_all add: valid_append inner(1) rest "1.prems"(2))
      ultimately show ?thesis unfolding fragment_step(7) [OF True md_marked(1)] by (rule render_inv_trans)
    next
      case plain: 8
      have "at < length s" using True "1.prems"(2) by simp
      then have "fst b @ slice s at fin = fst (append_text b [s ! at]) @ slice s (at + 1) fin" using slice_Cons [OF True] by simp
      then have "render_inv url (start = 0) s (append_text b [s ! at]) (fragment url s start (at + 1) fin (append_text b [s ! at]))"
        using "1.IH"(11) [OF go plain] "1.prems" by metis
      moreover have "no_nul s b (append_text b [s ! at])" using \<open>at < length s\<close> by (intro no_nul_append) simp
      ultimately show ?thesis unfolding fragment_step(8) [OF True plain] using render_inv_trans [OF grown_append] by blast
    qed
  qed
qed

section \<open>Acceptance\<close>

lemma cut_ok:
  assumes "validUnicode (take (nat i) t)" "0 \<le> i" "i \<le> int (length t)"
  shows "boundary t i"
  using valid_boundary [of "nat i" t] assms by (simp add: nat_le_iff)

lemma placed_entity_ok:
  assumes "int 0 \<le> te_offset e" "te_end e \<le> int (length t)" "validUnicode (take (nat (te_offset e)) t)"
    "validUnicode (take (nat (te_end e)) t)" "kind_ok url (te_kind e)" "0 < te_length e" "utf8_size t \<le> 4096"
  shows "entity_ok url t e"
proof -
  have "int (length t) \<le> 4096" using length_utf8 [of t] assms(7) by simp
  moreover have "boundary t (te_offset e)" "boundary t (te_end e)" using cut_ok assms(1-4,6) by simp_all
  ultimately show ?thesis using assms by (simp add: entity_ok_def entity_span_ok_def max_safe_def)
qed

lemma kept_ok:
  assumes "placed url q 0 t e" "0 < te_length e" "utf8_size t \<le> 4096"
  shows "entity_ok url t e"
  using assms unfolding placed_def by (intro placed_entity_ok) auto

lemma repaired_ok:
  assumes "family es" "\<forall>e \<in> set es. placed url q 0 t e" "utf8_size t \<le> 4096" "p \<in> set (telegramCompatible es)"
  shows "entity_ok url t p"
proof (cases "p \<in> set es")
  case True
  then show ?thesis using kept_ok assms(1-3) by (auto simp: family_def)
next
  case False
  then obtain e where e: "e \<in> set es" "p \<in> set (split_style es e)" using assms(4) by (auto simp: telegramCompatible_def)
  then have p: "te_kind p = te_kind e" "is_style (te_kind e)" "piece (free_spans es) (span_of e) (span_of p)" "0 < te_length p"
    using style_pieces(1) [OF assms(1) e(1)] by auto
  have pe: "placed url q 0 t e" using assms(2) e(1) by blast
  have start: "\<exists>i. te_offset p = i \<and> validUnicode (take (nat i) t)"
  proof -
    have "te_offset p = te_offset e \<or> (\<exists>c \<in> set es. te_offset p = te_end c)" using p(3) by (auto simp: piece_def)
    then show ?thesis using assms(2) pe unfolding placed_def by auto
  qed
  have stop: "\<exists>i. te_end p = i \<and> validUnicode (take (nat i) t)"
  proof -
    have "te_end p = te_end e \<or> (\<exists>c \<in> set es. te_end p = te_offset c)" using p(3) by (auto simp: piece_def)
    then show ?thesis using assms(2) pe unfolding placed_def by auto
  qed
  have "inside p e" using piece_inside [OF p(3)] .
  then show ?thesis using pe start stop p assms(3) unfolding placed_def inside_def
    by (intro placed_entity_ok) (cases "te_kind e"; auto)+
qed

lemma redundant_only:
  assumes "sorted_wrt compatible es" "\<forall>e \<in> set es. 0 < te_length e"
  shows "sorted_wrt pair_ok es \<longleftrightarrow> \<not> (\<exists>i j. i < j \<and> j < length es \<and> redundant (es ! i) (es ! j))"
proof -
  have "pair_ok (es ! i) (es ! j) \<longleftrightarrow> \<not> redundant (es ! i) (es ! j)" if "i < j" "j < length es" for i j
    using pair_ok_compatible sorted_wrt_nth_less [OF assms(1) that] assms(2) that by simp
  then show ?thesis unfolding sorted_wrt_iff_nth_less by blast
qed

section \<open>Properties\<close>

text \<open>
  C26 The renderer refuses a text only for its size, a NUL character or a lone surrogate, or because
  the rendered entities hold a link within a link or the same style twice over one span; otherwise
  it gives the rendered text with the repaired entities in canonical order. In particular no markup
  whatever leads to entities that cross, touch code or cut a surrogate pair.
\<close>
theorem render_refused_iff:
  assumes "fragment url m 0 0 (length m) ([], []) = (t, es)"
  shows "renderTelegramText url m =
    (if 16384 < utf8_size m \<or> 0 \<in> set m \<or> \<not> validUnicode m \<or> 4096 < utf8_size t \<or>
        (\<exists>i j. i < j \<and> j < length (telegramCompatible es) \<and> redundant (telegramCompatible es ! i) (telegramCompatible es ! j))
     then Inl FormatRefused else Inr (t, sort_by compare_entities (telegramCompatible es)))"
proof (cases "utf8_size m \<le> 16384 \<and> 0 \<notin> set m \<and> validUnicode m")
  case True
  have "render_inv url (0 = (0::nat)) m ([], []) (t, es)"
    using fragment_ok [of "([], [])" m 0 "length m" url 0] True assms by (simp add: slice_def)
  then have t: "validUnicode t" "0 \<notin> set t" and es: "family es" "\<forall>e \<in> set es. placed url True 0 t e"
    using True by (auto simp: render_inv_def no_nul_def grown_def)
  let ?r = "telegramCompatible es"
  show ?thesis
  proof (cases "utf8_size t \<le> 4096")
    case small: True
    have ok: "\<forall>e \<in> set ?r. entity_ok url t e" using repaired_ok [OF es small] by blast
    have vt: "validText t" using t small valid_well_formed by (simp add: validText_def)
    have "sorted_wrt pair_ok ?r \<longleftrightarrow> \<not> (\<exists>i j. i < j \<and> j < length ?r \<and> redundant (?r ! i) (?r ! j))"
      using redundant_only [OF repaired_compatible [OF es(1)]] ok entity_ok_length by blast
    then have iff: "normalized url t (map entity_json ?r) = Inr r \<longleftrightarrow>
        \<not> (\<exists>i j. i < j \<and> j < length ?r \<and> redundant (?r ! i) (?r ! j)) \<and> r = sort_by compare_entities ?r" for r
      using normalized_iff [of url t ?r r] vt ok by blast
    have render: "renderTelegramText url m = rbind (normalized url t (map entity_json ?r)) (\<lambda>es. Inr (t, es))"
      using True vt by (simp add: renderTelegramText_def assms ensure_def)
    show ?thesis
    proof (cases "\<exists>i j. i < j \<and> j < length ?r \<and> redundant (?r ! i) (?r ! j)")
      case bad: True
      obtain x where x: "normalized url t (map entity_json ?r) = Inl x" using iff bad by (cases "normalized url t (map entity_json ?r)") auto
      have "x = FormatRefused" by (cases x)
      then show ?thesis using render x bad by simp
    next
      case False
      then have "normalized url t (map entity_json ?r) = Inr (sort_by compare_entities ?r)" using iff by blast
      then show ?thesis using render False True small by (simp add: not_less)
    qed
  next
    case False
    then show ?thesis using True by (simp add: renderTelegramText_def assms ensure_def validText_def)
  qed
next
  case False
  then show ?thesis by (auto simp: renderTelegramText_def ensure_def not_le)
qed

definition badge :: utext where
  \<comment> \<open>A link whose label holds a link, as an image badge does.\<close>
  "badge = js ''[a [b](https://x.y) c](https://z.w)''"

definition rendered_badge :: builder where
  "rendered_badge = (js ''a b c'', [\<lparr>te_kind = TextUrl (js ''https://x.y''), te_offset = 2, te_length = 1\<rparr>,
     \<lparr>te_kind = TextUrl (js ''https://z.w''), te_offset = 0, te_length = 5\<rparr>])"

theorem render_refused_iff_witness:
  "renderTelegramText any_url badge = Inl FormatRefused \<and> utf8_size badge \<le> 16384 \<and> validUnicode badge \<and>
   renderTelegramText any_url (js ''**b**'') = Inr (js ''b'', [\<lparr>te_kind = Bold, te_offset = 0, te_length = 1\<rparr>])"
proof (intro conjI)
  let ?r = "telegramCompatible (snd rendered_badge)"
  have frag: "fragment any_url badge 0 0 (length badge) ([], []) = (fst rendered_badge, snd rendered_badge)" by code_simp
  have one: "1 < length ?r" and bad: "redundant (?r ! 0) (?r ! 1)" by code_simp+
  have "(0::nat) < 1 \<and> 1 < length ?r \<and> redundant (?r ! 0) (?r ! 1)" using one bad zero_less_one by blast
  then have ex: "\<exists>i j. i < j \<and> j < length ?r \<and> redundant (?r ! i) (?r ! j)" by blast
  show "renderTelegramText any_url badge = Inl FormatRefused"
    unfolding render_refused_iff [OF frag] using ex by (simp only: simp_thms if_True)
  have "length badge \<le> 100" by code_simp
  then show "utf8_size badge \<le> 16384" using utf8_length [of badge] by simp
  show "validUnicode badge" by code_simp
  show "renderTelegramText any_url (js ''**b**'') = Inr (js ''b'', [\<lparr>te_kind = Bold, te_offset = 0, te_length = 1\<rparr>])" by code_simp
qed

end
