(* ===== verification/Monitors.thy ===== *)
theory Monitors
  imports JobService
begin

text \<open>
  Continuous monitors (\<open>observation/monitors.ts\<close>), first half: the coordinator's records, the
  subscription of a monitor, the collection of source pages into candidates, and what a collection
  returns to the model.

  The coordinator keeps its records in collections of the encrypted store, \<open>mon_store\<close>. A method is
  split where it awaits: each definition here is the code between two awaits, with the host's answers
  as arguments. A transaction that throws leaves the store as it was, so it is a sum of the error
  and the new store. \<open>mon_env\<close> holds the bounds and which optional callbacks the host provides.
\<close>

section \<open>Records\<close>

record mon_spec =
  mp_key :: utext
  mp_name :: utext
  mp_sources :: "job_source list"
  mp_criteria :: utext
  mp_schedule :: utext
  mp_page :: "int option"
  mp_pages :: "int option"
  mp_alerts :: "int option"
  mp_tracked :: "int option"
  mp_mode :: "utext option"

record mon_schedule =
  sd_id :: utext
  sd_job :: "utext option"
  sd_state :: utext

datatype delivery_state = MPrepared | MDispatching | MVerified | MFailed | MUnknown | MCancelled

record mon_delivery =
  md_effect :: utext
  md_state :: delivery_state
  md_receipt :: "json option"
  md_reason :: "utext option"

datatype candidate_state = CaPending | CaDecided | CaBaseline | CaCancelled

record verdict =
  ve_match :: bool
  ve_reason :: utext
  ve_at :: utext

record full_source =
  fs_length :: nat
  fs_read :: nat
  fs_sha :: utext

record candidate =
  ca_id :: utext
  ca_sub :: utext
  ca_alert :: monitor_alert
  ca_state :: candidate_state
  ca_decision :: "verdict option"
  ca_full :: "full_source option"
  ca_delivery :: "mon_delivery option"

datatype sub_state =
    SubPrepared | SubActive | SubPaused | SubPausing | SubResuming | SubRescheduling | SubCancelling | SubCancelled

datatype control_action = ActPause | ActResume | ActReschedule

datatype control_state = CtPrepared | CtVerified | CtUnknown

record mon_control =
  ct_action :: control_action
  ct_state :: control_state
  ct_schedule :: "utext option"
  ct_predecessor :: bool
  ct_reason :: "utext option"

record old_schedule =
  oh_schedule_id :: "utext option"
  oh_native :: "utext option"
  oh_key :: utext
  oh_schedule :: utext
  oh_generation :: int

record mon_collection =
  cl_run :: utext
  cl_catchup :: bool
  cl_blocked :: "utext option"

record coverage_gap =
  gp_source :: utext
  gp_resource :: utext
  gp_detail :: utext

datatype cancel_state = CnPrepared | CnDispatching | CnVerified | CnUnknown

record subscription =
  su_id :: utext
  su_binding :: task_binding
  su_spec :: mon_spec
  su_job :: utext
  su_state :: sub_state
  su_baseline :: bool
  su_schedule :: "utext option"
  su_native :: "utext option"
  su_created :: utext
  su_attempted :: bool
  su_generation :: "int option"
  su_key :: "utext option"
  su_history :: "old_schedule list"
  su_control :: "mon_control option"
  su_collection :: "mon_collection option"
  su_gap :: bool                     \<comment> \<open>\<open>sourceCoverage\<close> is \<open>gap\<close>\<close>
  su_gaps :: "coverage_gap list"
  su_cancellation :: "(cancel_state \<times> utext option) option"

record mon_digest =
  dg_id :: utext
  dg_sub :: utext
  dg_run :: utext
  dg_candidates :: "utext list"
  dg_created :: utext
  dg_delivery :: mon_delivery

record digest_cycle =
  cy_sub :: utext
  cy_run :: utext
  cy_at :: utext
  cy_digest :: "utext option"

record mon_store =
  ms_subs :: "subscription rows"
  ms_jobs :: "job_record rows"
  ms_cands :: "candidate rows"
  ms_full :: "(utext \<times> utext) rows"
  ms_digests :: "mon_digest rows"
  ms_cycles :: "digest_cycle rows"

datatype mon_error =
    BoundsInvalid | ByteBudgetInvalid | ContextInvalid | MonTextInvalid | NotBound | MonBindingChanged | MonInactive
  | SubscriptionUnavailable | OwnerBindingChanged | MonWithdrawn | CandidateCapacity | IncompleteSource | ModeInvalid
  | NoDigestTransport | MonSourcesInvalid | SubscriptionConflict | BaselineIncomplete | WithdrawnBeforeScheduling
  | ScheduleNotActive | WithdrawnBeforeActivation | DecisionsInvalid | CandidateUnavailable | VerdictImmutable
  | ReadBeforeExcluding | PageBoundsInvalid | CompleteSourceUnavailable | ReadInOrder | BudgetTooSmall
  | NotControllable | PendingControl | ControlWithdrawn | ControlUnconfirmed | ResumeFirst | ScheduleWithdrawn
  | ScheduleIdentity | PredecessorUnconfirmed | SuccessorUnconfirmed | UncertainCreation | CancellationUnconfirmed | JobFailure job_error

record mon_env =
  me_job :: job_env
  me_ix :: "utext \<Rightarrow> nat"
  me_pending :: int
  me_retained :: int
  me_budget :: int
  me_digest :: bool                  \<comment> \<open>\<open>deliverDigest\<close> is provided\<close>
  me_manage :: bool                  \<comment> \<open>\<open>manageSchedule\<close> is provided\<close>
  me_owner :: bool                   \<comment> \<open>\<open>authorizeOwnerControl\<close> is provided\<close>

abbreviation "mon_hash env v \<equiv> digest (me_job env) v"

abbreviation "put_sub env sub s \<equiv> s\<lparr>ms_subs := kv_put (me_ix env) (su_id sub) sub (ms_subs s)\<rparr>"

abbreviation "put_cand env c s \<equiv> s\<lparr>ms_cands := kv_put (me_ix env) (ca_id c) c (ms_cands s)\<rparr>"

abbreviation "put_digest env d s \<equiv> s\<lparr>ms_digests := kv_put (me_ix env) (dg_id d) d (ms_digests s)\<rparr>"

section \<open>Checks\<close>

definition monitor_bounds :: "int option \<Rightarrow> int option \<Rightarrow> int option \<Rightarrow> mon_error + int \<times> int \<times> int" where
  "monitor_bounds pending retained bytes =
     (let p = or_else pending 1000; r = or_else retained 10000; b = or_else bytes (512 * 1024) in
      ensure (\<bar>p\<bar> \<le> max_safe \<and> 1 \<le> p \<and> p \<le> 10000 \<and> \<bar>r\<bar> \<le> max_safe \<and> p \<le> r \<and> r \<le> 100000) BoundsInvalid (
      ensure (\<bar>b\<bar> \<le> max_safe \<and> 32768 \<le> b \<and> b \<le> 2 * 1024 * 1024) ByteBudgetInvalid (Inr (p, r, b))))"

definition mon_binding :: "tool_context \<Rightarrow> mon_error + task_binding" where
  "mon_binding ctx =
     ensure (tc_task ctx \<noteq> [] \<and> tc_grant ctx \<noteq> [] \<and> tc_run ctx \<noteq> [] \<and>
         \<bar>tc_revision ctx\<bar> \<le> max_safe \<and> 1 \<le> tc_revision ctx \<and> \<bar>tc_grant_revision ctx\<bar> \<le> max_safe \<and> 1 \<le> tc_grant_revision ctx)
       ContextInvalid
       (Inr \<lparr>bi_task = tc_task ctx, bi_intent = tc_revision ctx, bi_grant = tc_grant ctx, bi_grant_revision = tc_grant_revision ctx\<rparr>)"

definition mon_text :: "utext \<Rightarrow> nat \<Rightarrow> mon_error + unit" where
  "mon_text s limit =
     ensure (trim s \<noteq> [] \<and> length s \<le> limit \<and> \<not> list_ex (\<lambda>c. c \<le> 8 \<or> (11 \<le> c \<and> c \<le> 31)) s) MonTextInvalid (Inr ())"

definition digest_mode :: "mon_spec \<Rightarrow> bool" where
  "digest_mode spec \<longleftrightarrow> mp_mode spec = Some (js ''digest'')"

section \<open>Reading the store\<close>

definition candidates :: "mon_env \<Rightarrow> mon_store \<Rightarrow> utext \<Rightarrow> candidate list" where
  "candidates env s i =
     sort_by (\<lambda>a b. let d = je_compare (me_job env) (al_observed (ca_alert a)) (al_observed (ca_alert b)) in
         if d \<noteq> 0 then d else je_compare (me_job env) (ca_id a) (ca_id b))
       (filter (\<lambda>c. ca_sub c = i) (kv_list (ms_cands s)))"

text \<open>\<open>load\<close> and \<open>ownerLoad\<close>, before and after the host's authorisation.\<close>

definition load_begin :: "mon_store \<Rightarrow> tool_context \<Rightarrow> utext \<Rightarrow> mon_error + job_source list" where
  "load_begin s ctx i =
     rbind (mon_binding ctx) (\<lambda>b.
     (case kv_get (ms_subs s) i of
        None \<Rightarrow> Inl NotBound
      | Some sub \<Rightarrow> ensure (same_binding b (su_binding sub)) NotBound (Inr (mp_sources (su_spec sub)))))"

definition load_end :: "mon_store \<Rightarrow> tool_context \<Rightarrow> utext \<Rightarrow> bool \<Rightarrow> mon_error + subscription" where
  "load_end s ctx i inactive =
     rbind (mon_binding ctx) (\<lambda>b.
     (case kv_get (ms_subs s) i of
        None \<Rightarrow> Inl MonBindingChanged
      | Some cur \<Rightarrow>
          ensure (same_binding b (su_binding cur)) MonBindingChanged (
          ensure (inactive \<or> su_state cur = SubActive) MonInactive (Inr cur))))"

definition owner_begin :: "mon_env \<Rightarrow> mon_store \<Rightarrow> tool_context \<Rightarrow> utext \<Rightarrow> mon_error + subscription" where
  "owner_begin env s ctx i =
     rbind (mon_binding ctx) (\<lambda>b.
     (case kv_get (ms_subs s) i of
        None \<Rightarrow> Inl SubscriptionUnavailable
      | Some sub \<Rightarrow> ensure (me_owner env \<or> same_binding b (su_binding sub)) NotBound (Inr sub)))"

definition sources_json :: "job_source list \<Rightarrow> json" where
  "sources_json ss = JArr (map job_source_json ss)"

definition owner_end :: "mon_env \<Rightarrow> mon_store \<Rightarrow> subscription \<Rightarrow> utext \<Rightarrow> mon_error + subscription" where
  "owner_end env s sub i =
     (case kv_get (ms_subs s) i of
        None \<Rightarrow> Inl OwnerBindingChanged
      | Some cur \<Rightarrow>
          ensure (same_binding (su_binding cur) (su_binding sub) \<and>
              mon_hash env (sources_json (mp_sources (su_spec cur))) = mon_hash env (sources_json (mp_sources (su_spec sub))))
            OwnerBindingChanged (Inr cur))"

definition bound_to :: "tool_context \<Rightarrow> subscription \<Rightarrow> bool" where
  "bound_to ctx sub \<longleftrightarrow> (case mon_binding ctx of Inl e \<Rightarrow> False | Inr b \<Rightarrow> same_binding (su_binding sub) b)"

definition active_sub :: "mon_store \<Rightarrow> tool_context \<Rightarrow> utext \<Rightarrow> mon_error + subscription" where
  \<comment> \<open>The check that begins most transactions.\<close>
  "active_sub s ctx i =
     (case kv_get (ms_subs s) i of
        None \<Rightarrow> Inl MonWithdrawn
      | Some cur \<Rightarrow> ensure (su_state cur = SubActive \<and> bound_to ctx cur) MonWithdrawn (Inr cur))"

section \<open>Collection\<close>

type_synonym captured = "(utext \<times> utext \<times> utext) list"

definition candidate_id :: "mon_env \<Rightarrow> utext \<Rightarrow> monitor_alert \<Rightarrow> utext" where
  "candidate_id env sub a = mon_hash env (JArr [JStr sub, JStr (al_id a)])"

definition canonical_source :: "utext \<times> utext \<Rightarrow> utext" where
  "canonical_source f = fst f @ 10 # snd f"

definition keep_alert ::
  "mon_env \<Rightarrow> utext \<Rightarrow> bool \<Rightarrow> captured \<Rightarrow> monitor_alert \<Rightarrow> mon_store \<Rightarrow> mon_error + mon_store" where
  "keep_alert env sub baseline cap a s =
     (let i = candidate_id env sub a;
          c = \<lparr>ca_id = i, ca_sub = sub, ca_alert = a, ca_state = (if baseline then CaBaseline else CaPending),
            ca_decision = None, ca_full = None, ca_delivery = None\<rparr> in
      if baseline then Inr (put_cand env c s)
      else (case map_of cap (al_id a) of
          Some f \<Rightarrow> Inr (put_cand env
            (c\<lparr>ca_full := Some \<lparr>fs_length = length (canonical_source f), fs_read = 0,
                 fs_sha = mon_hash env (JStr (canonical_source f))\<rparr>\<rparr>)
            (s\<lparr>ms_full := kv_put (me_ix env) i f (ms_full s)\<rparr>))
        | None \<Rightarrow>
            ensure (\<not> (em_truncated (snd (al_excerpts a)) \<or> em_truncated (fst (al_excerpts a)))) IncompleteSource
              (Inr (put_cand env c s))))"

fun keep_alerts ::
  "mon_env \<Rightarrow> utext \<Rightarrow> bool \<Rightarrow> captured \<Rightarrow> monitor_alert list \<Rightarrow> mon_store \<Rightarrow> mon_error + mon_store" where
  "keep_alerts env sub baseline cap [] s = Inr s"
| "keep_alerts env sub baseline cap (a # as) s =
     rbind (keep_alert env sub baseline cap a s) (\<lambda>s'. keep_alerts env sub baseline cap as s')"

definition new_alerts :: "mon_env \<Rightarrow> mon_store \<Rightarrow> utext \<Rightarrow> job_record \<Rightarrow> monitor_alert list" where
  "new_alerts env s sub r = filter (\<lambda>a. candidate_id env sub a \<notin> ca_id ` set (candidates env s sub)) (jr_log r)"

definition capacity_ok :: "mon_env \<Rightarrow> mon_store \<Rightarrow> utext \<Rightarrow> bool \<Rightarrow> monitor_alert list \<Rightarrow> bool" where
  "capacity_ok env s sub baseline added \<longleftrightarrow>
     (let retained = candidates env s sub in
      int (length retained + length added) \<le> me_retained env \<and>
      (baseline \<or> int (length (filter (\<lambda>c. ca_state c = CaPending) retained) + length added) \<le> me_pending env))"

definition save_collection ::
  "mon_env \<Rightarrow> tool_context \<Rightarrow> utext \<Rightarrow> bool \<Rightarrow> captured \<Rightarrow> mon_store \<Rightarrow> job_record \<Rightarrow> int option \<Rightarrow>
     mon_error + bool \<times> mon_store" where
  \<comment> \<open>The job store's \<open>save\<close>: the record and its candidates in one transaction.\<close>
  "save_collection env ctx sub baseline cap s r version =
     (case kv_get (ms_subs s) sub of
        None \<Rightarrow> Inl MonWithdrawn
      | Some cur \<Rightarrow>
          ensure (bound_to ctx cur \<and> (su_state cur = SubActive \<or> (baseline \<and> su_state cur = SubPrepared))) MonWithdrawn (
            (let k = row_key (bi_task (jr_binding r)) (jr_id r); added = new_alerts env s sub r in
             if map_option jr_version (kv_get (ms_jobs s) k) \<noteq> version then Inr (False, s)
             else ensure (capacity_ok env s sub baseline added) CandidateCapacity (
               rbind (keep_alerts env sub baseline cap added s) (\<lambda>s'.
                 Inr (True, s'\<lparr>ms_jobs := kv_put (me_ix env) k r (ms_jobs s')\<rparr>))))))"

definition monitor_backend :: "mon_env \<Rightarrow> tool_context \<Rightarrow> utext \<Rightarrow> bool \<Rightarrow> captured \<Rightarrow> mon_store job_backend" where
  "monitor_backend env ctx sub baseline cap =
     \<lparr>bk_load = (\<lambda>s task i. kv_get (ms_jobs s) (row_key task i)),
      bk_list = (\<lambda>s task limit. take (nat limit) (filter (\<lambda>j. bi_task (jr_binding j) = task) (kv_list (ms_jobs s)))),
      bk_save = (\<lambda>s r v. case save_collection env ctx sub baseline cap s r v of Inl e \<Rightarrow> (False, s) | Inr x \<Rightarrow> x)\<rparr>"

definition collection_call ::
  "mon_env \<Rightarrow> mon_store \<Rightarrow> tool_context \<Rightarrow> utext \<Rightarrow> bool \<Rightarrow> utext \<Rightarrow> (job_source list \<Rightarrow> bool) \<Rightarrow> job_call" where
  \<comment> \<open>\<open>validateContext\<close>; \<open>ok\<close> is the host's authorisation.\<close>
  "collection_call env s ctx sub baseline now ok =
     \<lparr>jc_now = now, jc_valid = Some (\<lambda>_ ss. ok ss \<and>
        (case kv_get (ms_subs s) sub of
           None \<Rightarrow> False
         | Some cur \<Rightarrow> (baseline \<or> su_state cur = SubActive) \<and> bound_to ctx cur))\<rparr>"

definition commit_collection ::
  "mon_env \<Rightarrow> tool_context \<Rightarrow> utext \<Rightarrow> bool \<Rightarrow> captured \<Rightarrow> job_call \<Rightarrow> job_write \<Rightarrow> mon_store \<Rightarrow>
     (mon_error + job_record) \<times> mon_store" where
  \<comment> \<open>\<open>commit_job\<close> over this store, with the error of a save that throws.\<close>
  "commit_collection env ctx sub baseline cap c wr s =
     (case (case wr_sources wr of None \<Rightarrow> Inr () | Some ss \<Rightarrow> job_authorize c (wr_context wr) ss) of
        Inl e \<Rightarrow> (Inl (JobFailure e), s)
      | Inr _ \<Rightarrow>
          (case save_collection env ctx sub baseline cap s (wr_record wr) (wr_expected wr) of
             Inl e \<Rightarrow> (Inl e, s)
           | Inr (True, s') \<Rightarrow> (Inr (wr_record wr), s')
           | Inr (False, s') \<Rightarrow> (Inl (JobFailure (wr_conflict wr)), s')))"

definition note_gap :: "mon_env \<Rightarrow> utext \<Rightarrow> job_source \<Rightarrow> utext \<Rightarrow> mon_store \<Rightarrow> mon_error + mon_store" where
  "note_gap env sub src detail s =
     (case kv_get (ms_subs s) sub of
        None \<Rightarrow> Inl MonWithdrawn
      | Some cur \<Rightarrow>
          (let gaps = (if list_ex (\<lambda>g. gp_source g = so_id src \<and> gp_detail g = detail) (su_gaps cur) then su_gaps cur
             else last_log 32 (su_gaps cur @ [\<lparr>gp_source = so_id src, gp_resource = so_resource src, gp_detail = take 2048 detail\<rparr>])) in
           Inr (put_sub env (cur\<lparr>su_gap := True, su_gaps := gaps\<rparr>) s)))"

definition capture ::
  "mon_env \<Rightarrow> subscription \<Rightarrow> job_source \<Rightarrow> source_change \<Rightarrow> utext \<times> utext \<times> utext" where
  "capture env sub src c =
     (mon_hash env (JArr [task_binding_json (su_binding sub), JStr (su_job sub), JInt 1, JStr (so_id src), JStr (so_resource src),
        JStr (ch_item c), JStr (ch_kind c), JStr (ch_version c)]),
      or_else (ch_title c) [], or_else (ch_text c) [])"

definition read_source ::
  "mon_env \<Rightarrow> subscription \<Rightarrow> job_source \<Rightarrow> source_page \<Rightarrow> utext option \<Rightarrow> captured \<Rightarrow> mon_store \<Rightarrow>
     mon_error + captured \<times> mon_store" where
  \<comment> \<open>What the service's \<open>read\<close> does with the page the source returned; \<open>gap\<close> is \<open>coverage?.gap\<close>.\<close>
  "read_source env sub src page gap cap s =
     rbind (if or_else gap [] = [] then Inr s else note_gap env (su_id sub) src (or_else gap []) s) (\<lambda>s'.
       Inr (rev (map (capture env sub src) (pg_changes page)) @ cap, s'))"

section \<open>Subscribing\<close>

definition opt_int_json :: "string \<Rightarrow> int option \<Rightarrow> (utext \<times> json) list" where
  "opt_int_json k v = (case v of None \<Rightarrow> [] | Some n \<Rightarrow> [(js k, JInt n)])"

definition opt_text_json :: "string \<Rightarrow> utext option \<Rightarrow> (utext \<times> json) list" where
  "opt_text_json k v = (case v of None \<Rightarrow> [] | Some t \<Rightarrow> [(js k, JStr t)])"

definition spec_json :: "mon_spec \<Rightarrow> json" where
  "spec_json p = JObj
     ([(js ''key'', JStr (mp_key p)), (js ''name'', JStr (mp_name p)), (js ''sources'', sources_json (mp_sources p)),
       (js ''criteria'', JStr (mp_criteria p)), (js ''schedule'', JStr (mp_schedule p))] @
      opt_int_json ''pageSize'' (mp_page p) @ opt_int_json ''maxPages'' (mp_pages p) @ opt_int_json ''maxAlerts'' (mp_alerts p) @
      opt_int_json ''maxTrackedItems'' (mp_tracked p) @ opt_text_json ''deliveryMode'' (mp_mode p))"

definition check_spec :: "mon_env \<Rightarrow> mon_spec \<Rightarrow> mon_error + mon_spec" where
  "check_spec env p =
     rbind (mon_text (mp_key p) 128) (\<lambda>_.
     rbind (mon_text (mp_name p) 256) (\<lambda>_.
     rbind (mon_text (mp_criteria p) 8192) (\<lambda>_.
     rbind (mon_text (mp_schedule p) 1024) (\<lambda>_.
     ensure (mp_mode p \<in> {None, Some [], Some (js ''alerts''), Some (js ''digest'')}) ModeInvalid (
     ensure (digest_mode p \<longrightarrow> me_digest env) NoDigestTransport (
     ensure (1 \<le> length (mp_sources p) \<and> length (mp_sources p) \<le> 16) MonSourcesInvalid
       (Inr (p\<lparr>mp_mode := (if mp_mode p = Some [] then None else mp_mode p),
          mp_sources := sort_by (\<lambda>a b. je_compare (me_job env) (so_id a) (so_id b)) (mp_sources p)\<rparr>))))))))"

definition subscription_id :: "mon_env \<Rightarrow> task_binding \<Rightarrow> mon_spec \<Rightarrow> utext" where
  "subscription_id env scope p = mon_hash env (JArr [JStr (bi_task scope), JStr (mp_key p)])"

definition monitor_key :: "utext \<Rightarrow> utext" where
  "monitor_key i = js ''monitor-'' @ i"

definition subscribe_enter ::
  "mon_env \<Rightarrow> utext \<Rightarrow> bool \<Rightarrow> task_binding \<Rightarrow> mon_spec \<Rightarrow> mon_store \<Rightarrow> mon_error + subscription \<times> mon_store" where
  \<comment> \<open>The subscription, made when it is new; it goes on only while prepared. \<open>gap\<close> is \<open>sourceCoverage() = 'gap'\<close>.\<close>
  "subscribe_enter env now gap scope p s =
     (let i = subscription_id env scope p in
      case kv_get (ms_subs s) i of
        Some sub \<Rightarrow>
          ensure (same_binding (su_binding sub) scope \<and> mon_hash env (spec_json (su_spec sub)) = mon_hash env (spec_json p) \<and>
              su_state sub \<noteq> SubCancelling \<and> su_state sub \<noteq> SubCancelled) SubscriptionConflict (Inr (sub, s))
      | None \<Rightarrow>
          (let sub = \<lparr>su_id = i, su_binding = scope, su_spec = p, su_job = monitor_key i, su_state = SubPrepared, su_baseline = False,
             su_schedule = None, su_native = None, su_created = now, su_attempted = False, su_generation = None, su_key = None,
             su_history = [], su_control = None, su_collection = None, su_gap = gap, su_gaps = [], su_cancellation = None\<rparr> in
           Inr (sub, put_sub env sub s)))"

definition baseline_spec :: "subscription \<Rightarrow> job_spec" where
  "baseline_spec sub =
     (let p = su_spec sub in
      \<lparr>js_id = Some (su_job sub), js_name = Some (mp_name p), js_sources = Some (mp_sources p), js_filter = None,
       js_page = mp_page p, js_pages = mp_pages p, js_alerts = mp_alerts p, js_tracked = mp_tracked p\<rparr>)"

definition baseline_ready :: "job_record \<Rightarrow> bool" where
  "baseline_ready job \<longleftrightarrow>
     list_all (\<lambda>(k, st). or_else (ss_cursor st) [] \<noteq> [] \<and> ss_status st = SReady) (jr_states job)"

fun baseline_loop :: "nat \<Rightarrow> poll_result list \<Rightarrow> bool option" where
  \<comment> \<open>Whether the baseline is complete, from the results of successive polls; None when they run out.\<close>
  "baseline_loop 0 rs = Some False"
| "baseline_loop (Suc n) [] = None"
| "baseline_loop (Suc n) (r # rs) =
     (if baseline_ready (pr_job r) then Some True
      else if list_ex (\<lambda>p. sp_status p = SLost \<or> sp_status p = SCapacity) (pr_progress r) then Some False
      else baseline_loop n rs)"

definition baseline_done :: "mon_env \<Rightarrow> utext \<Rightarrow> bool \<Rightarrow> mon_store \<Rightarrow> mon_error + mon_store" where
  "baseline_done env i complete s =
     ensure complete BaselineIncomplete
       (case kv_get (ms_subs s) i of
          None \<Rightarrow> Inl MonWithdrawn
        | Some sub \<Rightarrow> Inr (put_sub env (sub\<lparr>su_baseline := True\<rparr>) s))"

definition schedule_enter :: "mon_env \<Rightarrow> task_binding \<Rightarrow> utext \<Rightarrow> mon_store \<Rightarrow> mon_error + utext \<times> mon_store" where
  \<comment> \<open>The key the native schedule is created under.\<close>
  "schedule_enter env scope i s =
     (case kv_get (ms_subs s) i of
        None \<Rightarrow> Inl WithdrawnBeforeScheduling
      | Some sub \<Rightarrow>
          ensure (su_state sub = SubPrepared \<and> same_binding (su_binding sub) scope) WithdrawnBeforeScheduling
            (Inr (monitor_key i,
               put_sub env (sub\<lparr>su_attempted := True, su_key := Some (monitor_key i), su_generation := Some 1\<rparr>) s)))"

definition native_active :: "mon_schedule \<Rightarrow> bool" where
  "native_active r \<longleftrightarrow> or_else (sd_job r) [] \<noteq> [] \<and> sd_state r = js ''active''"

definition schedule_created ::
  "mon_env \<Rightarrow> utext \<Rightarrow> mon_schedule \<Rightarrow> mon_store \<Rightarrow> mon_error + subscription \<times> mon_store" where
  "schedule_created env i r s =
     ensure (native_active r) ScheduleNotActive
       (case kv_get (ms_subs s) i of
          None \<Rightarrow> Inl MonWithdrawn
        | Some cur \<Rightarrow>
            (let sub = cur\<lparr>su_schedule := Some (sd_id r), su_native := sd_job r\<rparr> in Inr (sub, put_sub env sub s)))"

definition activate :: "mon_env \<Rightarrow> subscription \<Rightarrow> utext \<Rightarrow> mon_store \<Rightarrow> mon_error + subscription \<times> mon_store" where
  \<comment> \<open>After the last authorisation; \<open>seen\<close> is the subscription read before it. On an error the native schedule is cancelled.\<close>
  "activate env seen i s =
     ensure (su_state seen = SubPrepared) WithdrawnBeforeActivation
       (case kv_get (ms_subs s) i of
          None \<Rightarrow> Inl MonWithdrawn
        | Some sub \<Rightarrow>
            ensure (su_state sub = SubPrepared) WithdrawnBeforeActivation
              (let a = sub\<lparr>su_state := SubActive\<rparr> in Inr (a, put_sub env a s)))"

end
