(* ===== verification/MonitorControl.thy ===== *)
theory MonitorControl
  imports Monitors
begin

text \<open>
  Continuous monitors (\<open>observation/monitors.ts\<close>), second half: what a collection returns, the
  verdicts on candidates, reading a candidate, the delivery of alerts and digests, and the owner's
  control of a monitor with its native schedule.
\<close>

section \<open>The response of a collection\<close>

definition mark_gap :: "mon_env \<Rightarrow> utext \<Rightarrow> mon_store \<Rightarrow> mon_error + mon_store" where
  "mark_gap env i s =
     (case kv_get (ms_subs s) i of
        None \<Rightarrow> Inl MonWithdrawn
      | Some cur \<Rightarrow> ensure (su_state cur = SubActive) MonWithdrawn (Inr (put_sub env (cur\<lparr>su_gap := True\<rparr>) s)))"

definition blocked_text :: utext where
  "blocked_text = js ''Monitor candidate capacity reached; source cursor preserved; decide pending candidates or create a new explicitly scoped monitor''"

definition poll_answer :: "mon_error + poll_result \<Rightarrow> mon_error + poll_result option \<times> utext option" where
  \<comment> \<open>The poll's result, or why it is blocked.\<close>
  "poll_answer r =
     (case r of
        Inr p \<Rightarrow> Inr (Some p, None)
      | Inl CandidateCapacity \<Rightarrow> Inr (None, Some blocked_text)
      | Inl e \<Rightarrow> Inl e)"

definition collect_close ::
  "mon_env \<Rightarrow> tool_context \<Rightarrow> utext \<Rightarrow> poll_result option \<Rightarrow> utext option \<Rightarrow> mon_store \<Rightarrow> mon_error + mon_store" where
  "collect_close env ctx i poll blocked s =
     rbind (active_sub s ctx i) (\<lambda>cur.
       Inr (put_sub env (cur\<lparr>su_collection := Some \<lparr>cl_run = tc_run ctx,
         cl_catchup = (case poll of None \<Rightarrow> True | Some p \<Rightarrow> pr_catchup p), cl_blocked = blocked\<rparr>\<rparr>) s))"

definition excerpt_json :: "excerpt_meta \<Rightarrow> json" where
  "excerpt_json m = JObj
     [(js ''unit'', JStr (js ''utf16-code-units'')), (js ''limit'', JInt (int (em_limit m))),
      (js ''originalLength'', JInt (int (em_original m))), (js ''returnedLength'', JInt (int (em_returned m))),
      (js ''omittedLength'', JInt (int (em_omitted m))), (js ''truncated'', JBool (em_truncated m))]"

definition alert_json :: "monitor_alert \<Rightarrow> json" where
  "alert_json a = JObj
     [(js ''id'', JStr (al_id a)), (js ''jobId'', JStr (al_job a)), (js ''filterRevision'', JInt (al_revision a)),
      (js ''sourceId'', JStr (al_source a)), (js ''resource'', JStr (al_resource a)), (js ''itemId'', JStr (al_item a)),
      (js ''kind'', JStr (al_kind a)), (js ''title'', JStr (al_title a)), (js ''text'', JStr (al_text a)),
      (js ''observedAt'', JStr (al_observed a)), (js ''rank'', JInt (int (al_rank a))),
      (js ''provenance'', JStr (js ''untrusted-source'')),
      (js ''excerpts'', JObj [(js ''title'', excerpt_json (fst (al_excerpts a))), (js ''text'', excerpt_json (snd (al_excerpts a)))])]"

fun candidate_state_name :: "candidate_state \<Rightarrow> string" where
  "candidate_state_name CaPending = ''pending''"
| "candidate_state_name CaDecided = ''decided''"
| "candidate_state_name CaBaseline = ''baseline''"
| "candidate_state_name CaCancelled = ''cancelled''"

definition full_json :: "full_source \<Rightarrow> json" where
  "full_json f = JObj [(js ''length'', JInt (int (fs_length f))), (js ''readThrough'', JInt (int (fs_read f))), (js ''sha256'', JStr (fs_sha f))]"

definition candidate_json :: "candidate \<Rightarrow> json" where
  \<comment> \<open>A candidate that is still pending: without verdict and delivery.\<close>
  "candidate_json c = JObj
     ([(js ''id'', JStr (ca_id c)), (js ''subscriptionId'', JStr (ca_sub c)), (js ''alert'', alert_json (ca_alert c)),
       (js ''state'', JStr (js (candidate_state_name (ca_state c))))] @
      (case ca_full c of None \<Rightarrow> [] | Some f \<Rightarrow> [(js ''fullSource'', full_json f)]))"

definition candidate_bytes :: "candidate \<Rightarrow> int" where
  "candidate_bytes c = int (utf8_size (stringify (candidate_json c)))"

fun status_name :: "source_status \<Rightarrow> string" where
  "status_name SReady = ''ready''"
| "status_name SCatchup = ''catchup''"
| "status_name SLost = ''lost''"
| "status_name SCapacity = ''capacity''"

definition recovery_json :: "bool \<times> int \<Rightarrow> json" where
  "recovery_json r = JObj
     [(js ''action'', JStr (js (if fst r then ''jobs.revise'' else ''new-scoped-monitor-required''))),
      (js ''requiredTrackedItems'', JInt (snd r)), (js ''maxAllowed'', JInt 10000), (js ''cursorPreserved'', JBool True),
      (js ''detail'', JStr (js (if fst r
        then ''Raise maxTrackedItems with jobs.revise and the current expectedRevision, then collect the same unconsumed page. Existing dedupe evidence is retained.''
        else ''The bounded retention ceiling cannot hold this page. Keep this checkpoint; a host must choose a new scoped monitor. No automatic evidence eviction or cursor reset is performed.'')))]"

definition progress_json :: "source_progress \<Rightarrow> json" where
  "progress_json p = JObj
     ([(js ''sourceId'', JStr (sp_source p)), (js ''resource'', JStr (sp_resource p)), (js ''status'', JStr (js (status_name (sp_status p))))] @
      opt_text_json ''cursor'' (sp_cursor p) @
      [(js ''trackedItems'', JInt (sp_items p)), (js ''trackedVersions'', JInt (sp_versions p)), (js ''maxTrackedItems'', JInt (sp_max p)),
       (js ''capacityRemaining'', JInt (sp_remaining p))] @
      (case sp_reason p of None \<Rightarrow> [] | Some CapacityReached \<Rightarrow> [(js ''reason'', JStr (js ''tracking-capacity-reached''))]
        | Some UnavailableSource \<Rightarrow> [(js ''reason'', JStr (js ''source-unavailable''))]
        | Some CatchupNeeded \<Rightarrow> [(js ''reason'', JStr (js ''catchup-needed''))]) @
      (case sp_recovery p of None \<Rightarrow> [] | Some r \<Rightarrow> [(js ''recovery'', recovery_json r)]))"

definition gap_json :: "coverage_gap \<Rightarrow> json" where
  "gap_json g = JObj [(js ''sourceId'', JStr (gp_source g)), (js ''resource'', JStr (gp_resource g)), (js ''detail'', JStr (gp_detail g))]"

definition header_fields ::
  "subscription \<Rightarrow> subscription \<Rightarrow> nat \<Rightarrow> poll_result option \<Rightarrow> utext option \<Rightarrow> (utext \<times> json) list" where
  \<comment> \<open>\<open>sub\<close> is the subscription as the collection began, \<open>cur\<close> as it ended.\<close>
  "header_fields sub cur n poll blocked =
     [(js ''criteria'', JStr (mp_criteria (su_spec sub))), (js ''pending'', JInt (int n)),
      (js ''sourceCoverage'', JStr (js (if su_gap cur then ''gap'' else ''snapshot-only''))),
      (js ''coverageGaps'', JArr (map gap_json (su_gaps cur)))] @
     (case poll of None \<Rightarrow> [] | Some p \<Rightarrow> [(js ''poll'', JObj [(js ''pagesRead'', JInt (int (pr_pages p))), (js ''catchup'', JBool (pr_catchup p)),
        (js ''sourceProgress'', JArr (map progress_json (pr_progress p)))])]) @
     opt_text_json ''blocked'' blocked"

definition response_json :: "(utext \<times> json) list \<Rightarrow> candidate list \<Rightarrow> json" where
  "response_json header cs = JObj (header @ [(js ''candidates'', JArr (map candidate_json cs))])"

definition whole_meta :: "nat \<Rightarrow> excerpt_meta" where
  "whole_meta n = \<lparr>em_limit = n, em_original = n, em_returned = n, em_omitted = 0, em_truncated = False\<rparr>"

definition omitted_meta :: "nat \<Rightarrow> excerpt_meta" where
  "omitted_meta n = \<lparr>em_limit = 0, em_original = n, em_returned = 0, em_omitted = n, em_truncated = (0 < n)\<rparr>"

definition whole_candidate :: "candidate \<Rightarrow> (utext \<times> utext) option \<Rightarrow> candidate" where
  "whole_candidate c full =
     (case full of
        None \<Rightarrow> c
      | Some (title, body) \<Rightarrow> c\<lparr>ca_alert := (ca_alert c)\<lparr>al_title := title, al_text := body,
          al_excerpts := (whole_meta (length title), whole_meta (length body))\<rparr>\<rparr>)"

definition reference_candidate :: "candidate \<Rightarrow> (utext \<times> utext) option \<Rightarrow> candidate" where
  \<comment> \<open>A post too large to show, with its lengths.\<close>
  "reference_candidate c full =
     (let lens = (case full of None \<Rightarrow> (em_original (fst (al_excerpts (ca_alert c))), em_original (snd (al_excerpts (ca_alert c))))
        | Some (title, body) \<Rightarrow> (length title, length body)) in
      c\<lparr>ca_alert := (ca_alert c)\<lparr>al_title := [], al_text := [], al_excerpts := (omitted_meta (fst lens), omitted_meta (snd lens))\<rparr>\<rparr>)"

definition show_candidate :: "mon_env \<Rightarrow> candidate \<Rightarrow> (utext \<times> utext) option \<Rightarrow> mon_store \<Rightarrow> candidate \<times> mon_store" where
  \<comment> \<open>A candidate shown whole is marked as read.\<close>
  "show_candidate env saved full s =
     (case (ca_full saved, full) of
        (Some f, Some x) \<Rightarrow>
          (let f' = f\<lparr>fs_read := max (fs_read f) (fs_length f)\<rparr> in
           ((whole_candidate saved full)\<lparr>ca_full := Some f'\<rparr>,
            if fs_read f < fs_length f then put_cand env (saved\<lparr>ca_full := Some f'\<rparr>) s else s))
      | _ \<Rightarrow> (whole_candidate saved full, s))"

fun fill_batch :: "mon_env \<Rightarrow> int \<Rightarrow> bool \<Rightarrow> candidate list \<Rightarrow> mon_store \<Rightarrow> mon_error + candidate list \<times> mon_store" where
  \<comment> \<open>\<open>first\<close>: nothing is in the batch yet.\<close>
  "fill_batch env used first [] s = Inr ([], s)"
| "fill_batch env used first (saved # rest) s =
     (let full = kv_get (ms_full s) (ca_id saved); bytes = candidate_bytes (whole_candidate saved full) in
      if me_budget env < used + bytes
      then if \<not> first then Inr ([], s)
        else (let c = (if me_budget env < used + candidate_bytes saved then reference_candidate saved full else saved) in
          ensure (used + candidate_bytes c \<le> me_budget env) BudgetTooSmall (
          rbind (fill_batch env (used + candidate_bytes c) False rest s) (\<lambda>(cs, s'). Inr (c # cs, s'))))
      else (case show_candidate env saved full s of (c, s1) \<Rightarrow>
          rbind (fill_batch env (used + bytes) False rest s1) (\<lambda>(cs, s'). Inr (c # cs, s'))))"

definition pending_candidates :: "mon_env \<Rightarrow> mon_store \<Rightarrow> utext \<Rightarrow> candidate list" where
  "pending_candidates env s i = filter (\<lambda>c. ca_state c = CaPending) (candidates env s i)"

definition collect_respond ::
  "mon_env \<Rightarrow> subscription \<Rightarrow> subscription \<Rightarrow> poll_result option \<Rightarrow> utext option \<Rightarrow> mon_store \<Rightarrow>
     mon_error + json \<times> candidate list \<times> mon_store" where
  "collect_respond env sub cur poll blocked s =
     (let pending = pending_candidates env s (su_id sub);
          header = header_fields sub cur (length pending) poll blocked;
          used = int (utf8_size (stringify (response_json header []))) + 128 in
      rbind (fill_batch env used True (take 100 pending) s) (\<lambda>(cs, s').
        Inr (response_json header cs, cs, s')))"

section \<open>Verdicts\<close>

record decision =
  de_candidate :: utext
  de_match :: bool
  de_reason :: utext

definition decide_one ::
  "mon_env \<Rightarrow> utext \<Rightarrow> subscription \<Rightarrow> decision \<Rightarrow> mon_store \<Rightarrow> mon_error + candidate \<times> mon_store" where
  "decide_one env now sub d s =
     rbind (mon_text (de_reason d) 2048) (\<lambda>_.
     (case kv_get (ms_cands s) (de_candidate d) of
        None \<Rightarrow> Inl CandidateUnavailable
      | Some c \<Rightarrow>
          ensure (ca_sub c = su_id sub \<and> (ca_state c = CaPending \<or> ca_state c = CaDecided)) CandidateUnavailable
            (case ca_decision c of
               Some v \<Rightarrow> ensure (ve_match v = de_match d \<and> ve_reason v = de_reason d) VerdictImmutable (Inr (c, s))
             | None \<Rightarrow>
                 ensure (\<not> (\<not> de_match d \<and> (case ca_full c of None \<Rightarrow> False | Some f \<Rightarrow> fs_read f < fs_length f))) ReadBeforeExcluding
                   (let c' = c\<lparr>ca_state := CaDecided, ca_decision := Some \<lparr>ve_match = de_match d, ve_reason = de_reason d, ve_at = now\<rparr>,
                        ca_delivery := (if de_match d \<and> \<not> digest_mode (su_spec sub)
                          then Some \<lparr>md_effect = js ''monitor-alert-'' @ mon_hash env (JArr [JStr (su_id sub), JStr (ca_id c)]),
                                 md_state = MPrepared, md_receipt = None, md_reason = None\<rparr>
                          else ca_delivery c)\<rparr> in
                    Inr (c', put_cand env c' s)))))"

fun decide_each ::
  "mon_env \<Rightarrow> utext \<Rightarrow> subscription \<Rightarrow> decision list \<Rightarrow> mon_store \<Rightarrow> mon_error + candidate list \<times> mon_store" where
  "decide_each env now sub [] s = Inr ([], s)"
| "decide_each env now sub (d # ds) s =
     rbind (decide_one env now sub d s) (\<lambda>(c, s1).
     rbind (decide_each env now sub ds s1) (\<lambda>(cs, s2). Inr (c # cs, s2)))"

definition decisions_ok :: "decision list \<Rightarrow> bool" where
  "decisions_ok ds \<longleftrightarrow> 1 \<le> length ds \<and> length ds \<le> 100 \<and> distinct (map de_candidate ds)"

definition decide ::
  "mon_env \<Rightarrow> utext \<Rightarrow> tool_context \<Rightarrow> subscription \<Rightarrow> decision list \<Rightarrow> mon_store \<Rightarrow>
     mon_error + candidate list \<times> mon_store" where
  \<comment> \<open>The transaction; \<open>sub\<close> is what \<open>load\<close> returned. The decided candidates are delivered next, unless in digest mode.\<close>
  "decide env now ctx sub ds s =
     ensure (decisions_ok ds) DecisionsInvalid (
     rbind (active_sub s ctx (su_id sub)) (\<lambda>_. decide_each env now sub ds s))"

record source_part =
  sr_text :: utext
  sr_offset :: nat
  sr_next :: nat
  sr_total :: nat
  sr_complete :: bool
  sr_sha :: utext

definition readCandidate ::
  "mon_env \<Rightarrow> tool_context \<Rightarrow> utext \<Rightarrow> utext \<Rightarrow> int \<Rightarrow> int option \<Rightarrow> mon_store \<Rightarrow> mon_error + source_part \<times> mon_store" where
  "readCandidate env ctx i cid offset limit s =
     (let n = or_else limit 8192 in
      ensure (\<bar>offset\<bar> \<le> max_safe \<and> 0 \<le> offset \<and> \<bar>n\<bar> \<le> max_safe \<and> 1 \<le> n \<and> n \<le> 16384) PageBoundsInvalid (
      rbind (active_sub s ctx i) (\<lambda>_.
      (case (kv_get (ms_cands s) cid, kv_get (ms_full s) cid) of
         (Some c, Some x) \<Rightarrow>
           (let full = canonical_source x in
            case ca_full c of
              None \<Rightarrow> Inl CompleteSourceUnavailable
            | Some f \<Rightarrow>
                ensure (ca_sub c = i \<and> ca_state c = CaPending \<and> mon_hash env (JStr full) = fs_sha f) CompleteSourceUnavailable (
                ensure (nat offset \<le> fs_read f \<and> nat offset \<le> length full) ReadInOrder (
                  (let stop = min (length full) (nat offset + nat n) in
                   Inr (\<lparr>sr_text = take (stop - nat offset) (drop (nat offset) full), sr_offset = nat offset, sr_next = stop,
                       sr_total = length full, sr_complete = (stop = length full), sr_sha = fs_sha f\<rparr>,
                     put_cand env (c\<lparr>ca_full := Some (f\<lparr>fs_read := max (fs_read f) stop\<rparr>)\<rparr>) s)))))
       | _ \<Rightarrow> Inl CompleteSourceUnavailable))))"

end
