(* ===== verification/MonitorDelivery.thy ===== *)
theory MonitorDelivery
  imports MonitorControl
begin

text \<open>
  Continuous monitors (\<open>observation/monitors.ts\<close>), last part: the delivery of alerts and digests, the
  owner's control of a monitor and of its native schedule, withdrawal, and what a restart does.

  A dispatch is handed to the host in the same turn that records it as dispatching, so the second
  half of a delivery takes the host's answer: \<open>Inl\<close> the message of a call that throws.
\<close>

section \<open>Alerts\<close>

definition delivering :: "delivery_state \<Rightarrow> candidate \<Rightarrow> bool" where
  "delivering st c \<longleftrightarrow> (case ca_delivery c of None \<Rightarrow> False | Some d \<Rightarrow> md_state d = st)"

definition set_delivery_state :: "delivery_state \<Rightarrow> candidate \<Rightarrow> candidate" where
  "set_delivery_state st c = c\<lparr>ca_delivery := map_option (\<lambda>d. d\<lparr>md_state := st\<rparr>) (ca_delivery c)\<rparr>"

definition deliver_begin ::
  "mon_env \<Rightarrow> tool_context \<Rightarrow> utext \<Rightarrow> utext \<Rightarrow> mon_store \<Rightarrow> mon_error + candidate option \<times> mon_store" where
  "deliver_begin env ctx i cid s =
     rbind (active_sub s ctx i) (\<lambda>_.
     (case kv_get (ms_cands s) cid of
        None \<Rightarrow> Inl CandidateUnavailable
      | Some c \<Rightarrow>
          if \<not> delivering MPrepared c then Inr (None, s)
          else (let c' = set_delivery_state MDispatching c in Inr (Some c', put_cand env c' s))))"

fun known_state :: "result_state \<Rightarrow> delivery_state option" where
  "known_state RsVerified = Some MVerified"
| "known_state RsFailed = Some MFailed"
| "known_state RsUnknown = Some MUnknown"
| "known_state (RsOther t) = None"

definition alert_settled :: "utext + effect_result \<Rightarrow> mon_delivery \<Rightarrow> mon_delivery" where
  "alert_settled r d =
     (case r of
        Inl m \<Rightarrow> d\<lparr>md_state := MUnknown, md_reason := Some m\<rparr>
      | Inr e \<Rightarrow>
          (case known_state (er_state e) of
             None \<Rightarrow> d\<lparr>md_state := MUnknown, md_reason := Some (js ''Monitor delivery result invalid'')\<rparr>
           | Some st \<Rightarrow> d\<lparr>md_state := st, md_receipt := er_receipt e, md_reason := er_reason e\<rparr>))"

definition deliver_end :: "mon_env \<Rightarrow> utext + effect_result \<Rightarrow> candidate \<Rightarrow> mon_store \<Rightarrow> mon_store" where
  "deliver_end env r c s = put_cand env (c\<lparr>ca_delivery := map_option (alert_settled r) (ca_delivery c)\<rparr>) s"

section \<open>Digests\<close>

fun put_deliveries :: "mon_env \<Rightarrow> mon_delivery \<Rightarrow> utext list \<Rightarrow> mon_store \<Rightarrow> mon_error + mon_store" where
  "put_deliveries env d [] s = Inr s"
| "put_deliveries env d (i # is) s =
     (case kv_get (ms_cands s) i of
        None \<Rightarrow> Inl CandidateUnavailable
      | Some c \<Rightarrow>
          put_deliveries env d is (s\<lparr>ms_cands := kv_put (me_ix env) i (c\<lparr>ca_delivery := Some d\<rparr>) (ms_cands s)\<rparr>))"

definition saveDigest :: "mon_env \<Rightarrow> mon_digest \<Rightarrow> mon_store \<Rightarrow> mon_error + mon_store" where
  "saveDigest env d s = put_deliveries env (dg_delivery d) (dg_candidates d) (put_digest env d s)"

definition collected_by :: "utext \<Rightarrow> subscription \<Rightarrow> bool" where
  "collected_by run sub \<longleftrightarrow>
     (case su_collection sub of
        None \<Rightarrow> False
      | Some cl \<Rightarrow> cl_run cl = run \<and> \<not> cl_catchup cl \<and> or_else (cl_blocked cl) [] = [])"

definition digest_ready :: "mon_env \<Rightarrow> tool_context \<Rightarrow> subscription \<Rightarrow> mon_store \<Rightarrow> bool" where
  "digest_ready env ctx sub s \<longleftrightarrow> collected_by (tc_run ctx) sub \<and> pending_candidates env s (su_id sub) = []"

definition matched_alone :: "candidate \<Rightarrow> bool" where
  "matched_alone c \<longleftrightarrow>
     ca_state c = CaDecided \<and> (case ca_decision c of None \<Rightarrow> False | Some v \<Rightarrow> ve_match v) \<and> ca_delivery c = None"

definition close_cycle ::
  "mon_env \<Rightarrow> utext \<Rightarrow> tool_context \<Rightarrow> utext \<Rightarrow> utext \<Rightarrow> mon_digest option \<Rightarrow> mon_store \<Rightarrow> mon_digest option \<times> mon_store" where
  "close_cycle env now ctx sub cid d s =
     (d, s\<lparr>ms_cycles := kv_put (me_ix env) cid
        \<lparr>cy_sub = sub, cy_run = tc_run ctx, cy_at = now, cy_digest = map_option dg_id d\<rparr> (ms_cycles s)\<rparr>)"

definition new_digest :: "utext \<Rightarrow> tool_context \<Rightarrow> utext \<Rightarrow> utext \<Rightarrow> candidate list \<Rightarrow> mon_digest" where
  "new_digest now ctx sub cid matches =
     \<lparr>dg_id = cid, dg_sub = sub, dg_run = tc_run ctx, dg_candidates = map ca_id matches, dg_created = now,
      dg_delivery = \<lparr>md_effect = js ''monitor-digest-'' @ cid, md_state = MPrepared, md_receipt = None, md_reason = None\<rparr>\<rparr>"

definition digest_close ::
  "mon_env \<Rightarrow> utext \<Rightarrow> tool_context \<Rightarrow> utext \<Rightarrow> mon_store \<Rightarrow> mon_error + mon_digest option \<times> mon_store" where
  \<comment> \<open>The first transaction of \<open>flushDigest\<close>.\<close>
  "digest_close env now ctx i s =
     rbind (active_sub s ctx i) (\<lambda>cur.
       (let cid = mon_hash env (JArr [JStr i, JStr (tc_run ctx)]); close = close_cycle env now ctx i cid in
        if \<not> collected_by (tc_run ctx) cur then Inr (None, s)
        else (case kv_get (ms_cycles s) cid of
            Some y \<Rightarrow> Inr (case cy_digest y of None \<Rightarrow> None | Some d \<Rightarrow> if d = [] then None else kv_get (ms_digests s) d, s)
          | None \<Rightarrow>
              (case find (\<lambda>d. dg_sub d = i \<and> md_state (dg_delivery d) = MPrepared) (kv_list (ms_digests s)) of
                 Some d \<Rightarrow> Inr (close (Some d) s)
               | None \<Rightarrow>
                   (case kv_get (ms_digests s) cid of
                      Some d \<Rightarrow> Inr (close (Some d) s)
                    | None \<Rightarrow>
                        (let matches = filter matched_alone (candidates env s i); d = new_digest now ctx i cid matches in
                         if matches = [] then Inr (close None s)
                         else Inr (close (Some d) (put_digest env d
                           (fold (\<lambda>c. put_cand env (c\<lparr>ca_delivery := Some (dg_delivery d)\<rparr>)) matches s)))))))))"

definition set_digest_state :: "delivery_state \<Rightarrow> mon_digest \<Rightarrow> mon_digest" where
  "set_digest_state st d = d\<lparr>dg_delivery := (dg_delivery d)\<lparr>md_state := st\<rparr>\<rparr>"

definition digest_admit ::
  "mon_env \<Rightarrow> tool_context \<Rightarrow> utext \<Rightarrow> mon_digest \<Rightarrow> mon_store \<Rightarrow> mon_error + mon_digest option \<times> mon_store" where
  \<comment> \<open>The second transaction, for a summary that was prepared when the first one returned it.\<close>
  "digest_admit env ctx i d s =
     rbind (active_sub s ctx i) (\<lambda>_.
     (case kv_get (ms_digests s) (dg_id d) of
        None \<Rightarrow> Inl MonWithdrawn
      | Some saved \<Rightarrow>
          if md_state (dg_delivery saved) \<noteq> MPrepared \<or> md_effect (dg_delivery saved) \<noteq> md_effect (dg_delivery d) then Inr (None, s)
          else (let d' = set_digest_state MDispatching d in
            rbind (saveDigest env d' s) (\<lambda>s'. Inr (Some d', s')))))"

definition digest_member :: "utext \<Rightarrow> mon_digest \<Rightarrow> candidate option \<Rightarrow> bool" where
  "digest_member i d x =
     (case x of
        None \<Rightarrow> False
      | Some c \<Rightarrow>
          ca_sub c = i \<and> (case ca_decision c of None \<Rightarrow> False | Some v \<Rightarrow> ve_match v) \<and>
          map_option md_effect (ca_delivery c) = Some (md_effect (dg_delivery d)))"

definition digest_sendable :: "mon_env \<Rightarrow> utext \<Rightarrow> mon_digest \<Rightarrow> mon_store \<Rightarrow> utext + unit" where
  \<comment> \<open>Whether the admitted digest is handed to the host.\<close>
  "digest_sendable env i d s =
     (if \<not> me_digest env then Inl (js ''Private digest transport unavailable'')
      else if \<not> list_all (\<lambda>c. digest_member i d (kv_get (ms_cands s) c)) (dg_candidates d)
      then Inl (js ''Monitor digest membership changed'') else Inr ())"

definition digest_settled :: "utext + effect_result \<Rightarrow> mon_delivery \<Rightarrow> mon_delivery" where
  "digest_settled r d =
     (case r of
        Inl m \<Rightarrow> d\<lparr>md_state := MUnknown, md_reason := Some m\<rparr>
      | Inr e \<Rightarrow>
          (case known_state (er_state e) of
             None \<Rightarrow> d\<lparr>md_state := MUnknown, md_reason := Some (js ''Monitor digest result invalid'')\<rparr>
           | Some st \<Rightarrow> d\<lparr>md_state := st, md_receipt := (if er_receipt e = None then md_receipt d else er_receipt e),
               md_reason := (if or_else (er_reason e) [] = [] then md_reason d else er_reason e)\<rparr>))"

definition digest_end :: "mon_env \<Rightarrow> utext + effect_result \<Rightarrow> mon_digest \<Rightarrow> mon_store \<Rightarrow> mon_error + mon_store" where
  "digest_end env r d s = saveDigest env (d\<lparr>dg_delivery := digest_settled r (dg_delivery d)\<rparr>) s"

definition begins_with :: "utext \<Rightarrow> utext \<Rightarrow> bool" where
  "begins_with p t \<longleftrightarrow> take (length p) t = p"

definition native_run :: "utext \<Rightarrow> utext \<Rightarrow> bool" where
  "native_run job run \<longleftrightarrow> job \<noteq> [] \<and> begins_with (js ''cron:'' @ job @ [58]) run"

definition completed_subs :: "tool_context \<Rightarrow> mon_store \<Rightarrow> subscription list" where
  \<comment> \<open>The subscriptions \<open>completeExecution\<close> flushes.\<close>
  "completed_subs ctx s =
     filter (\<lambda>sub. digest_mode (su_spec sub) \<and> bound_to ctx sub \<and> native_run (or_else (su_native sub) []) (tc_run ctx)) (kv_list (ms_subs s))"

section \<open>Pause, resume and reschedule\<close>

definition pending_control :: "subscription \<Rightarrow> mon_control option" where
  "pending_control sub = (case su_control sub of None \<Rightarrow> None | Some c \<Rightarrow> if ct_state c = CtVerified then None else Some c)"

definition reached :: "control_action \<Rightarrow> sub_state" where
  "reached a = (if a = ActPause then SubPaused else SubActive)"

definition reaching :: "control_action \<Rightarrow> sub_state" where
  "reaching a = (case a of ActPause \<Rightarrow> SubPausing | ActResume \<Rightarrow> SubResuming | ActReschedule \<Rightarrow> SubRescheduling)"

definition fresh_control :: "control_action \<Rightarrow> control_state \<Rightarrow> utext option \<Rightarrow> mon_control" where
  "fresh_control a st schedule = \<lparr>ct_action = a, ct_state = st, ct_schedule = schedule, ct_predecessor = False, ct_reason = None\<rparr>"

definition control_enter ::
  "mon_env \<Rightarrow> control_action \<Rightarrow> utext \<Rightarrow> mon_store \<Rightarrow> mon_error + (subscription \<times> bool) \<times> mon_store" where
  \<comment> \<open>After the owner's authorisation, before the lock; whether there is anything to do.\<close>
  "control_enter env a i s =
     (case kv_get (ms_subs s) i of
        None \<Rightarrow> Inl SubscriptionUnavailable
      | Some sub \<Rightarrow>
          ensure (su_state sub \<notin> {SubCancelled, SubCancelling, SubPrepared, SubRescheduling}) NotControllable (
          ensure (case pending_control sub of None \<Rightarrow> True | Some c \<Rightarrow> ct_action c = a) PendingControl (
            if su_state sub = reached a then Inr ((sub, False), s)
            else (let sub' = sub\<lparr>su_state := reaching a, su_control := Some (fresh_control a CtPrepared None)\<rparr> in
              Inr ((sub', True), put_sub env sub' s)))))"

definition control_check :: "control_action \<Rightarrow> subscription \<Rightarrow> mon_error + bool" where
  "control_check a cur =
     (if su_state cur = reached a then Inr False
      else ensure (su_state cur = reaching a) ControlWithdrawn (Inr True))"

definition manage_refused :: "mon_env \<Rightarrow> subscription \<Rightarrow> bool" where
  \<comment> \<open>\<open>manage\<close> throws before it asks the host.\<close>
  "manage_refused env sub \<longleftrightarrow> \<not> me_manage env \<and> or_else (su_schedule sub) [] = []"

definition control_confirmed :: "control_action \<Rightarrow> mon_schedule \<Rightarrow> mon_error + unit" where
  "control_confirmed a r =
     ensure (sd_state r = js (if a = ActPause then ''paused'' else ''active'')) ControlUnconfirmed (Inr ())"

definition control_end ::
  "mon_env \<Rightarrow> control_action \<Rightarrow> subscription \<Rightarrow> utext \<Rightarrow> mon_store \<Rightarrow> mon_error + subscription \<times> mon_store" where
  "control_end env a cur i s =
     (case kv_get (ms_subs s) i of
        None \<Rightarrow> Inl SubscriptionUnavailable
      | Some latest \<Rightarrow>
          ensure (su_state latest = su_state cur) ControlWithdrawn
            (let l = latest\<lparr>su_state := reached a, su_control := Some (fresh_control a CtVerified None)\<rparr> in
             Inr (l, put_sub env l s)))"

definition control_failed :: "mon_env \<Rightarrow> control_action \<Rightarrow> utext \<Rightarrow> utext \<Rightarrow> mon_store \<Rightarrow> mon_store" where
  "control_failed env a reason i s =
     (case kv_get (ms_subs s) i of
        None \<Rightarrow> s
      | Some latest \<Rightarrow>
          (case su_control latest of
             None \<Rightarrow> s
           | Some c \<Rightarrow>
               if ct_action c = a
               then put_sub env (latest\<lparr>su_control := Some (c\<lparr>ct_state := CtUnknown, ct_reason := Some reason\<rparr>)\<rparr>) s
               else s))"

definition reschedule_enter ::
  "mon_env \<Rightarrow> utext \<Rightarrow> utext \<Rightarrow> mon_store \<Rightarrow> mon_error + (subscription \<times> bool) \<times> mon_store" where
  "reschedule_enter env schedule i s =
     (case kv_get (ms_subs s) i of
        None \<Rightarrow> Inl SubscriptionUnavailable
      | Some sub \<Rightarrow>
          ensure (su_state sub \<in> {SubActive, SubRescheduling} \<or> (su_state sub = SubPrepared \<and> su_baseline sub \<and> su_attempted sub)) ResumeFirst (
          ensure (case pending_control sub of None \<Rightarrow> True
              | Some c \<Rightarrow> ct_action c = ActReschedule \<and> ct_schedule c = Some schedule) PendingControl (
            if su_state sub = SubActive \<and> mp_schedule (su_spec sub) = schedule then Inr ((sub, False), s)
            else if su_state sub = SubRescheduling then Inr ((sub, True), s)
            else (let sub' = sub\<lparr>su_state := SubRescheduling, su_control := Some (fresh_control ActReschedule CtPrepared (Some schedule))\<rparr> in
              Inr ((sub', True), put_sub env sub' s)))))"

definition reschedule_check :: "utext \<Rightarrow> subscription \<Rightarrow> mon_error + bool" where
  "reschedule_check schedule cur =
     (if su_state cur = SubActive \<and> mp_schedule (su_spec cur) = schedule then Inr False
      else ensure (su_state cur = SubRescheduling \<and> (case su_control cur of None \<Rightarrow> False | Some c \<Rightarrow> ct_schedule c = Some schedule))
        ScheduleWithdrawn (Inr True))"

definition predecessor_cancelled :: "subscription \<Rightarrow> bool" where
  "predecessor_cancelled sub \<longleftrightarrow> (case su_control sub of None \<Rightarrow> False | Some c \<Rightarrow> ct_predecessor c)"

definition old_or :: "utext option \<Rightarrow> utext option \<Rightarrow> utext option" where
  \<comment> \<open>\<open>a ?? b\<close>\<close>
  "old_or a b = (case a of None \<Rightarrow> b | Some x \<Rightarrow> Some x)"

definition predecessor_done ::
  "mon_env \<Rightarrow> mon_schedule \<Rightarrow> utext \<Rightarrow> mon_store \<Rightarrow> mon_error + subscription \<times> mon_store" where
  \<comment> \<open>After the host's answer to the cancellation of the old schedule.\<close>
  "predecessor_done env r i s =
     ensure (sd_state r = js ''cancelled'') PredecessorUnconfirmed
       (case kv_get (ms_subs s) i of
          None \<Rightarrow> Inl SubscriptionUnavailable
        | Some cur \<Rightarrow>
            ensure (su_state cur = SubRescheduling) ScheduleWithdrawn
              (let n = or_else (su_generation cur) 1 + 1;
                   sub = cur\<lparr>su_control := map_option (\<lambda>c. c\<lparr>ct_predecessor := True\<rparr>) (su_control cur),
                     su_history := su_history cur @ [\<lparr>oh_schedule_id = old_or (su_schedule cur) (Some (sd_id r)),
                       oh_native = old_or (su_native cur) (sd_job r), oh_key = or_else (su_key cur) (monitor_key i),
                       oh_schedule = mp_schedule (su_spec cur), oh_generation = or_else (su_generation cur) 1\<rparr>],
                     su_generation := Some n, su_key := Some (monitor_key i @ js ''-g'' @ show_int n), su_schedule := None,
                     su_native := None, su_attempted := True\<rparr> in
               Inr (sub, put_sub env sub s)))"

definition successor_created :: "mon_env \<Rightarrow> mon_schedule \<Rightarrow> utext \<Rightarrow> mon_store \<Rightarrow> mon_error + mon_store" where
  "successor_created env r i s =
     ensure (native_active r) SuccessorUnconfirmed
       (case kv_get (ms_subs s) i of
          None \<Rightarrow> Inl SubscriptionUnavailable
        | Some latest \<Rightarrow> Inr (put_sub env (latest\<lparr>su_schedule := Some (sd_id r), su_native := sd_job r\<rparr>) s))"

definition reschedule_end ::
  "mon_env \<Rightarrow> utext \<Rightarrow> utext \<Rightarrow> mon_store \<Rightarrow> mon_error + subscription \<times> mon_store" where
  "reschedule_end env schedule i s =
     (case kv_get (ms_subs s) i of
        None \<Rightarrow> Inl SubscriptionUnavailable
      | Some latest \<Rightarrow>
          ensure (su_state latest = SubRescheduling) ScheduleWithdrawn
            (let l = latest\<lparr>su_spec := (su_spec latest)\<lparr>mp_schedule := schedule\<rparr>, su_state := SubActive,
                 su_control := Some (fresh_control ActReschedule CtVerified (Some schedule)), su_collection := None\<rparr> in
             Inr (l, put_sub env l s)))"

section \<open>Withdrawal\<close>

definition cancel_candidate :: "candidate \<Rightarrow> candidate" where
  "cancel_candidate c =
     (let c1 = (if ca_state c = CaPending then c\<lparr>ca_state := CaCancelled\<rparr> else c) in
      if delivering MPrepared c1 then set_delivery_state MCancelled c1 else c1)"

definition cancel_monitor_job :: "utext \<Rightarrow> job_record \<Rightarrow> job_record" where
  "cancel_monitor_job now r =
     (if jr_active r
      then r\<lparr>jr_active := False, jr_revision := jr_revision r + 1, jr_version := jr_version r + 1, jr_updated := now\<rparr> else r)"

fun save_digests :: "mon_env \<Rightarrow> mon_digest list \<Rightarrow> mon_store \<Rightarrow> mon_error + mon_store" where
  "save_digests env [] s = Inr s"
| "save_digests env (d # ds) s = rbind (saveDigest env d s) (\<lambda>s'. save_digests env ds s')"

definition prepared_digests :: "mon_store \<Rightarrow> utext \<Rightarrow> mon_digest list" where
  "prepared_digests s i = filter (\<lambda>d. dg_sub d = i \<and> md_state (dg_delivery d) = MPrepared) (kv_list (ms_digests s))"

definition withdrawn_sub :: "subscription \<Rightarrow> subscription" where
  "withdrawn_sub cur = cur\<lparr>su_state := SubCancelling,
     su_cancellation := (if su_cancellation cur = None then Some (CnPrepared, None) else su_cancellation cur)\<rparr>"

definition cancel_job_row :: "mon_env \<Rightarrow> utext \<Rightarrow> subscription \<Rightarrow> mon_store \<Rightarrow> mon_store" where
  "cancel_job_row env now cur s =
     (let k = row_key (bi_task (su_binding cur)) (su_job cur) in
      case kv_get (ms_jobs s) k of
        None \<Rightarrow> s
      | Some r \<Rightarrow> if jr_active r then s\<lparr>ms_jobs := kv_put (me_ix env) k (cancel_monitor_job now r) (ms_jobs s)\<rparr> else s)"

definition cancel_candidates :: "mon_env \<Rightarrow> utext \<Rightarrow> mon_store \<Rightarrow> mon_store" where
  "cancel_candidates env i s = fold (\<lambda>c. put_cand env (cancel_candidate c)) (candidates env s i) s"

definition cancel_digests :: "mon_env \<Rightarrow> utext \<Rightarrow> mon_store \<Rightarrow> mon_error + mon_store" where
  "cancel_digests env i s = save_digests env (map (set_digest_state MCancelled) (prepared_digests s i)) s"

definition withdraw :: "mon_env \<Rightarrow> utext \<Rightarrow> utext \<Rightarrow> mon_store \<Rightarrow> mon_error + subscription \<times> mon_store" where
  "withdraw env now i s =
     (case kv_get (ms_subs s) i of
        None \<Rightarrow> Inl SubscriptionUnavailable
      | Some cur \<Rightarrow>
          if su_state cur = SubCancelled then Inr (cur, s)
          else (let sub = withdrawn_sub cur in
            rbind (cancel_digests env i (cancel_candidates env i (cancel_job_row env now cur (put_sub env sub s)))) (\<lambda>s'. Inr (sub, s'))))"

definition cancelResult ::
  "mon_env \<Rightarrow> cancel_state \<Rightarrow> utext option \<Rightarrow> utext \<Rightarrow> mon_store \<Rightarrow> mon_error + subscription \<times> mon_store" where
  "cancelResult env st reason i s =
     (case kv_get (ms_subs s) i of
        None \<Rightarrow> Inl SubscriptionUnavailable
      | Some cur \<Rightarrow>
          if su_state cur = SubCancelled \<and> st \<noteq> CnVerified then Inr (cur, s)
          else (let sub = cur\<lparr>su_cancellation := Some (st, if or_else reason [] = [] then None else reason),
                  su_state := (if st = CnVerified then SubCancelled else su_state cur)\<rparr> in
            Inr (sub, put_sub env sub s)))"

definition unsubscribe_native :: "mon_env \<Rightarrow> subscription \<Rightarrow> utext \<Rightarrow> mon_store \<Rightarrow> mon_error + bool" where
  \<comment> \<open>Whether the host is asked to cancel the native schedule; \<open>sub\<close> is what \<open>ownerLoad\<close> returned.\<close>
  "unsubscribe_native env sub i s =
     (case kv_get (ms_subs s) i of
        None \<Rightarrow> Inl SubscriptionUnavailable
      | Some cur \<Rightarrow>
          (let known = or_else (su_schedule cur) [] \<noteq> [] in
           ensure (known \<or> \<not> su_attempted sub \<or> me_manage env) UncertainCreation (Inr (known \<or> me_manage env))))"

definition unsubscribe_end ::
  "mon_env \<Rightarrow> mon_error + mon_schedule option \<Rightarrow> utext \<Rightarrow> utext \<Rightarrow> mon_store \<Rightarrow> (mon_error + subscription) \<times> mon_store" where
  \<comment> \<open>\<open>r\<close>: an error before or in the call of the host, nothing to cancel, or the host's answer; \<open>reason\<close> the error's message.\<close>
  "unsubscribe_end env r reason i s =
     (let failed = (\<lambda>e. case cancelResult env CnUnknown (Some reason) i s of
          Inl e' \<Rightarrow> (Inl e', s) | Inr (_, s') \<Rightarrow> (Inl e, s'));
          settled = (case cancelResult env CnVerified None i s of Inl e' \<Rightarrow> (Inl e', s) | Inr (sub, s') \<Rightarrow> (Inr sub, s')) in
      case r of
        Inl e \<Rightarrow> failed e
      | Inr None \<Rightarrow> settled
      | Inr (Some x) \<Rightarrow> if sd_state x = js ''cancelled'' then settled else failed CancellationUnconfirmed)"

fun withdraw_each ::
  "mon_env \<Rightarrow> utext \<Rightarrow> (subscription \<Rightarrow> bool option) \<Rightarrow> subscription list \<Rightarrow> mon_store \<Rightarrow> mon_error + subscription list \<times> mon_store" where
  "withdraw_each env now current [] s = Inr ([], s)"
| "withdraw_each env now current (sub # subs) s =
     (if su_state sub = SubCancelled \<or> (su_state sub \<noteq> SubCancelling \<and> current sub = Some True)
      then withdraw_each env now current subs s
      else rbind (withdraw env now (su_id sub) s) (\<lambda>(w, s1).
        rbind (withdraw_each env now current subs s1) (\<lambda>(ws, s2). Inr (w # ws, s2))))"

definition withdrawInvalidSubscriptions ::
  "mon_env \<Rightarrow> utext \<Rightarrow> (subscription \<Rightarrow> bool option) \<Rightarrow> mon_store \<Rightarrow> mon_error + subscription list \<times> mon_store" where
  \<comment> \<open>\<open>current\<close> is None where the host's predicate throws.\<close>
  "withdrawInvalidSubscriptions env now current s = withdraw_each env now current (kv_list (ms_subs s)) s"

definition cancel_withdrawn_begin :: "mon_env \<Rightarrow> utext \<Rightarrow> mon_store \<Rightarrow> mon_error + (subscription \<times> bool) \<times> mon_store" where
  "cancel_withdrawn_begin env i s =
     (case kv_get (ms_subs s) i of
        None \<Rightarrow> Inl SubscriptionUnavailable
      | Some cur \<Rightarrow>
          if su_state cur = SubCancelled then Inr ((cur, False), s)
          else rbind (cancelResult env CnDispatching None i s) (\<lambda>(_, s'). Inr ((cur, True), s')))"

definition cancel_withdrawn_end :: "mon_env \<Rightarrow> utext option \<Rightarrow> utext \<Rightarrow> mon_store \<Rightarrow> mon_error + subscription \<times> mon_store" where
  \<comment> \<open>\<open>failure\<close>: the message of a native cancellation that throws.\<close>
  "cancel_withdrawn_end env failure i s =
     (case failure of None \<Rightarrow> cancelResult env CnVerified None i s | Some m \<Rightarrow> cancelResult env CnUnknown (Some m) i s)"

section \<open>Restart and inspection\<close>

fun restart_alerts :: "mon_env \<Rightarrow> candidate list \<Rightarrow> mon_store \<Rightarrow> mon_store" where
  "restart_alerts env [] s = s"
| "restart_alerts env (c # cs) s =
     restart_alerts env cs
       (if delivering MDispatching c
        then put_cand env (c\<lparr>ca_delivery := map_option (\<lambda>d. d\<lparr>md_state := MUnknown,
          md_reason := Some (js ''Process restarted during alert dispatch; independent reconciliation required'')\<rparr>) (ca_delivery c)\<rparr>) s
        else s)"

definition restarted_digest :: "mon_digest \<Rightarrow> mon_digest" where
  "restarted_digest d = d\<lparr>dg_delivery := (dg_delivery d)\<lparr>md_state := MUnknown,
     md_reason := Some (js ''Process restarted during digest dispatch; independent reconciliation required'')\<rparr>\<rparr>"

definition coordinator_start :: "mon_env \<Rightarrow> mon_store \<Rightarrow> mon_error + mon_store" where
  \<comment> \<open>The constructor, after its checks.\<close>
  "coordinator_start env s =
     (let s1 = restart_alerts env (kv_list (ms_cands s)) s in
      save_digests env (map restarted_digest (filter (\<lambda>d. md_state (dg_delivery d) = MDispatching) (kv_list (ms_digests s1)))) s1)"

record mon_inspection =
  mi_sub :: subscription
  mi_pending :: nat
  mi_digests :: "mon_digest list"
  mi_deliveries :: "(delivery_state \<times> nat) list"
  mi_retained :: nat
  mi_max_retained :: int
  mi_max_pending :: int

definition mon_inspect :: "mon_env \<Rightarrow> subscription \<Rightarrow> mon_store \<Rightarrow> mon_inspection" where
  \<comment> \<open>\<open>sub\<close> is what \<open>ownerLoad\<close> returned.\<close>
  "mon_inspect env sub s =
     (let cs = candidates env s (su_id sub) in
      \<lparr>mi_sub = sub, mi_pending = length (filter (\<lambda>c. ca_state c = CaPending) cs),
       mi_digests = filter (\<lambda>d. dg_sub d = su_id sub) (kv_list (ms_digests s)),
       mi_deliveries = map (\<lambda>st. (st, length (filter (delivering st) cs))) [MPrepared, MDispatching, MVerified, MFailed, MUnknown, MCancelled],
       mi_retained = length cs, mi_max_retained = me_retained env, mi_max_pending = me_pending env\<rparr>)"

definition isMonitorExecution :: "(utext \<Rightarrow> bool) \<Rightarrow> tool_context \<Rightarrow> mon_store \<Rightarrow> bool" where
  \<comment> \<open>\<open>matches\<close> is the host's \<open>matchesExecution\<close> for the context.\<close>
  "isMonitorExecution matches ctx s \<longleftrightarrow>
     list_ex (\<lambda>sub. bound_to ctx sub \<and>
       (list_ex (\<lambda>j. native_run (or_else j []) (tc_run ctx)) (su_native sub # map oh_native (su_history sub)) \<or>
        list_ex matches (or_else (su_key sub) (monitor_key (su_id sub)) # map oh_key (su_history sub)))) (kv_list (ms_subs s))"

end
