(* ===== verification/MonitorProps.thy ===== *)
theory MonitorProps
  imports MonitorDelivery
begin

text \<open>
  Facts about the records of continuous monitors: how each operation changes the collections of
  candidates, digests and subscriptions, and the invariant of the store that every operation keeps.
\<close>

section \<open>Rows under their own key\<close>

definition rows_ok :: "('v \<Rightarrow> utext) \<Rightarrow> 'v rows \<Rightarrow> bool" where
  "rows_ok f t \<longleftrightarrow> kv_ok t \<and> (\<forall>(k, v) \<in> set t. f v = k)"

lemma rows_key: "rows_ok f t \<Longrightarrow> kv_get t k = Some v \<Longrightarrow> f v = k"
  unfolding rows_ok_def kv_get_def by (auto dest!: map_of_SomeD)

lemma rows_put: "rows_ok f t \<Longrightarrow> f v = k \<Longrightarrow> rows_ok f (kv_put ix k v t)"
  unfolding rows_ok_def by (auto simp: kv_put_ok) (auto simp: kv_put_def set_kv_place split: if_splits)

lemma rows_list: "rows_ok f t \<Longrightarrow> v \<in> set (kv_list t) \<longleftrightarrow> kv_get t (f v) = Some v"
  unfolding rows_ok_def kv_get_def kv_list_def kv_ok_def by force

lemma mon_rows_distinct: "rows_ok f t \<Longrightarrow> distinct (map f (kv_list t))"
proof -
  assume "rows_ok f t"
  then have "map f (kv_list t) = map fst t" "distinct (map fst t)" unfolding rows_ok_def kv_list_def kv_ok_def by auto
  then show ?thesis by simp
qed

abbreviation "cand s \<equiv> kv_get (ms_cands s)"
abbreviation "dig s \<equiv> kv_get (ms_digests s)"
abbreviation "subm s \<equiv> kv_get (ms_subs s)"

section \<open>The invariant\<close>

definition matched :: "candidate \<Rightarrow> bool" where
  "matched c \<longleftrightarrow> (case ca_decision c of None \<Rightarrow> False | Some v \<Rightarrow> ve_match v)"

definition cand_good :: "mon_env \<Rightarrow> candidate \<Rightarrow> bool" where
  "cand_good env c \<longleftrightarrow>
     ca_id c = candidate_id env (ca_sub c) (ca_alert c) \<and> (ca_state c = CaDecided \<longleftrightarrow> ca_decision c \<noteq> None) \<and>
     (ca_delivery c \<noteq> None \<longrightarrow> matched c) \<and>
     (\<forall>v f. ca_decision c = Some v \<longrightarrow> \<not> ve_match v \<longrightarrow> ca_full c = Some f \<longrightarrow> fs_length f \<le> fs_read f)"

definition effect_of :: "candidate \<Rightarrow> utext option" where
  "effect_of c = map_option md_effect (ca_delivery c)"

definition spent :: "candidate \<Rightarrow> bool" where
  \<comment> \<open>Handed to the host at some time.\<close>
  "spent c \<longleftrightarrow> (case ca_delivery c of None \<Rightarrow> False | Some d \<Rightarrow> md_state d \<noteq> MPrepared \<and> md_state d \<noteq> MCancelled)"

definition digest_effect :: "utext \<Rightarrow> utext" where
  "digest_effect i = js ''monitor-digest-'' @ i"

definition digest_weak :: "mon_store \<Rightarrow> mon_digest \<Rightarrow> bool" where
  "digest_weak s d \<longleftrightarrow>
     md_effect (dg_delivery d) = digest_effect (dg_id d) \<and> distinct (dg_candidates d) \<and>
     (\<exists>sub. subm s (dg_sub d) = Some sub \<and> digest_mode (su_spec sub)) \<and>
     (\<forall>i \<in> set (dg_candidates d). \<exists>c. cand s i = Some c \<and> ca_sub c = dg_sub d \<and> effect_of c = Some (md_effect (dg_delivery d)))"

definition digest_ok :: "mon_store \<Rightarrow> mon_digest \<Rightarrow> bool" where
  "digest_ok s d \<longleftrightarrow> (\<forall>i \<in> set (dg_candidates d). \<forall>c. cand s i = Some c \<longrightarrow> ca_delivery c = Some (dg_delivery d))"

definition mon_ok_but :: "mon_env \<Rightarrow> (mon_digest \<Rightarrow> bool) \<Rightarrow> mon_store \<Rightarrow> bool" where
  \<comment> \<open>The invariant, with digests excepted whose candidates are being brought up to date.\<close>
  "mon_ok_but env P s \<longleftrightarrow>
     rows_ok su_id (ms_subs s) \<and> rows_ok ca_id (ms_cands s) \<and> rows_ok dg_id (ms_digests s) \<and>
     (\<forall>k c. cand s k = Some c \<longrightarrow> cand_good env c) \<and>
     (\<forall>k d. dig s k = Some d \<longrightarrow> digest_weak s d \<and> (P d \<or> digest_ok s d))"

abbreviation "mon_ok env \<equiv> mon_ok_but env (\<lambda>_. False)"

definition keeps :: "candidate \<Rightarrow> candidate \<Rightarrow> bool" where
  "keeps c c' \<longleftrightarrow>
     ca_id c' = ca_id c \<and> ca_sub c' = ca_sub c \<and>
     (ca_decision c \<noteq> None \<longrightarrow> ca_decision c' = ca_decision c) \<and>
     (ca_delivery c \<noteq> None \<longrightarrow> effect_of c' = effect_of c) \<and> (spent c \<longrightarrow> spent c')"

definition rows_keep :: "(utext \<Rightarrow> 'v \<Rightarrow> 'v \<Rightarrow> bool) \<Rightarrow> (utext \<Rightarrow> 'v option) \<Rightarrow> (utext \<Rightarrow> 'v option) \<Rightarrow> bool" where
  "rows_keep R m m' \<longleftrightarrow> (\<forall>k v. m k = Some v \<longrightarrow> (\<exists>v'. m' k = Some v' \<and> R k v v'))"

definition sub_keeps :: "subscription \<Rightarrow> subscription \<Rightarrow> bool" where
  "sub_keeps a b \<longleftrightarrow> mp_mode (su_spec b) = mp_mode (su_spec a) \<and> su_binding b = su_binding a \<and> su_job b = su_job a"

definition digest_keeps :: "mon_digest \<Rightarrow> mon_digest \<Rightarrow> bool" where
  "digest_keeps a b \<longleftrightarrow>
     dg_sub b = dg_sub a \<and> dg_candidates b = dg_candidates a \<and> md_effect (dg_delivery b) = md_effect (dg_delivery a)"

definition subs_keep :: "mon_store \<Rightarrow> mon_store \<Rightarrow> bool" where
  "subs_keep s s' = rows_keep (\<lambda>k. sub_keeps) (subm s) (subm s')"

definition cands_keep :: "utext set \<Rightarrow> mon_store \<Rightarrow> mon_store \<Rightarrow> bool" where
  \<comment> \<open>\<open>X\<close>: the candidates whose dispatch may end.\<close>
  "cands_keep X s s' =
     rows_keep (\<lambda>k c c'. keeps c c' \<and> (k \<notin> X \<longrightarrow> delivering MDispatching c \<longrightarrow> c' = c)) (cand s) (cand s')"

definition digests_keep :: "utext set \<Rightarrow> mon_store \<Rightarrow> mon_store \<Rightarrow> bool" where
  "digests_keep Y s s' =
     rows_keep (\<lambda>k d d'. digest_keeps d d' \<and> (k \<notin> Y \<longrightarrow> md_state (dg_delivery d) = MDispatching \<longrightarrow> d' = d)) (dig s) (dig s')"

lemma rows_keep_refl: "(\<And>k v. m k = Some v \<Longrightarrow> R k v v) \<Longrightarrow> rows_keep R m m"
  by (simp add: rows_keep_def)

lemma rows_keep_trans:
  "(\<And>k x y z. R k x y \<Longrightarrow> R k y z \<Longrightarrow> R k x z) \<Longrightarrow> rows_keep R a b \<Longrightarrow> rows_keep R b c \<Longrightarrow> rows_keep R a c"
  unfolding rows_keep_def by metis

lemma rows_keep_mono: "(\<And>k x y. R k x y \<Longrightarrow> S k x y) \<Longrightarrow> rows_keep R a b \<Longrightarrow> rows_keep S a b"
  unfolding rows_keep_def by metis

lemma rows_keepD: "rows_keep R a b \<Longrightarrow> a k = Some v \<Longrightarrow> \<exists>v'. b k = Some v' \<and> R k v v'"
  unfolding rows_keep_def by blast

lemma keep_refls [simp]: "sub_keeps a a" "digest_keeps d d" "keeps c c"
  by (simp_all add: sub_keeps_def digest_keeps_def keeps_def)

lemma keep_trans:
  "sub_keeps a b \<Longrightarrow> sub_keeps b c \<Longrightarrow> sub_keeps a c"
  "digest_keeps d e \<Longrightarrow> digest_keeps e f \<Longrightarrow> digest_keeps d f"
  by (simp_all add: sub_keeps_def digest_keeps_def)

lemma keeps_trans: "keeps a b \<Longrightarrow> keeps b c \<Longrightarrow> keeps a c"
  unfolding keeps_def effect_of_def by (metis map_option_is_None)

lemma subs_keep_refl [simp]: "subs_keep s s" by (simp add: subs_keep_def rows_keep_refl)
lemma cands_keep_refl [simp]: "cands_keep X s s" by (simp add: cands_keep_def rows_keep_refl)
lemma digests_keep_refl [simp]: "digests_keep Y s s" by (simp add: digests_keep_def rows_keep_refl)

lemma keep_same:
  "subm s' = subm s \<Longrightarrow> subs_keep s s'" "cand s' = cand s \<Longrightarrow> cands_keep X s s'" "dig s' = dig s \<Longrightarrow> digests_keep Y s s'"
  by (simp_all add: subs_keep_def cands_keep_def digests_keep_def rows_keep_refl)

lemma subs_keep_trans: "subs_keep a b \<Longrightarrow> subs_keep b c \<Longrightarrow> subs_keep a c"
  unfolding subs_keep_def by (rule rows_keep_trans [OF keep_trans(1)])

lemma cands_keep_trans: "cands_keep X a b \<Longrightarrow> cands_keep X b c \<Longrightarrow> cands_keep X a c"
  unfolding cands_keep_def by (rule rows_keep_trans) (auto intro: keeps_trans)

lemma digests_keep_trans: "digests_keep Y a b \<Longrightarrow> digests_keep Y b c \<Longrightarrow> digests_keep Y a c"
  unfolding digests_keep_def by (rule rows_keep_trans) (auto intro: keep_trans)

definition store_evolves :: "utext set \<Rightarrow> utext set \<Rightarrow> mon_store \<Rightarrow> mon_store \<Rightarrow> bool" where
  "store_evolves X Y s s' \<longleftrightarrow> subs_keep s s' \<and> cands_keep X s s' \<and> digests_keep Y s s'"

lemma store_evolves_refl [simp]: "store_evolves X Y s s" by (simp add: store_evolves_def)

lemma store_evolves_trans: "store_evolves X Y a b \<Longrightarrow> store_evolves X Y b c \<Longrightarrow> store_evolves X Y a c"
  unfolding store_evolves_def using subs_keep_trans cands_keep_trans digests_keep_trans by blast

lemma store_evolves_mono: "store_evolves X Y a b \<Longrightarrow> X \<subseteq> X' \<Longrightarrow> Y \<subseteq> Y' \<Longrightarrow> store_evolves X' Y' a b"
  unfolding store_evolves_def cands_keep_def digests_keep_def by (auto elim!: rows_keep_mono [rotated])

definition mon_step_ok :: "mon_env \<Rightarrow> utext set \<Rightarrow> utext set \<Rightarrow> mon_store \<Rightarrow> mon_store \<Rightarrow> bool" where
  "mon_step_ok env X Y s s' \<longleftrightarrow> mon_ok env s' \<and> store_evolves X Y s s'"

lemma mon_step_ok_refl: "mon_ok env s \<Longrightarrow> mon_step_ok env X Y s s" by (simp add: mon_step_ok_def)

lemma mon_step_ok_trans: "mon_step_ok env X Y a b \<Longrightarrow> mon_step_ok env X Y b c \<Longrightarrow> mon_step_ok env X Y a c"
  unfolding mon_step_ok_def using store_evolves_trans by blast

lemma mon_okD:
  assumes "mon_ok_but env P s"
  shows "rows_ok su_id (ms_subs s)" "rows_ok ca_id (ms_cands s)" "rows_ok dg_id (ms_digests s)"
    "cand s k = Some c \<Longrightarrow> cand_good env c" "dig s k = Some d \<Longrightarrow> digest_weak s d" "dig s k = Some d \<Longrightarrow> \<not> P d \<Longrightarrow> digest_ok s d"
    "cand s k = Some c \<Longrightarrow> ca_id c = k" "dig s k = Some d \<Longrightarrow> dg_id d = k" "subm s k = Some sub \<Longrightarrow> su_id sub = k"
  using assms unfolding mon_ok_but_def by (auto dest: rows_key)

lemma digest_disjoint:
  assumes "mon_ok_but env P s" "dig s k = Some d" "dig s l = Some e" "i \<in> set (dg_candidates d)" "i \<in> set (dg_candidates e)"
  shows "k = l"
proof -
  have "effect_of (the (cand s i)) = Some (digest_effect k)" "effect_of (the (cand s i)) = Some (digest_effect l)"
    using assms mon_okD(5,8) [OF assms(1)] unfolding digest_weak_def by fastforce+
  then show ?thesis by (simp add: digest_effect_def)
qed

section \<open>Subscriptions\<close>

lemma digest_weak_keep:
  assumes "digest_weak s d" "subs_keep s s'" "cands_keep X s s'"
  shows "digest_weak s' d"
proof -
  obtain sub where sub: "subm s (dg_sub d) = Some sub" "digest_mode (su_spec sub)" using assms(1) by (auto simp: digest_weak_def)
  obtain sub' where "subm s' (dg_sub d) = Some sub'" "sub_keeps sub sub'"
    using rows_keepD [OF assms(2) [unfolded subs_keep_def] sub(1)] by blast
  then have mode: "\<exists>sub. subm s' (dg_sub d) = Some sub \<and> digest_mode (su_spec sub)" using sub(2) by (simp add: sub_keeps_def digest_mode_def)
  have "\<exists>c. cand s' i = Some c \<and> ca_sub c = dg_sub d \<and> effect_of c = Some (md_effect (dg_delivery d))" if i: "i \<in> set (dg_candidates d)" for i
  proof -
    obtain c where c: "cand s i = Some c" "ca_sub c = dg_sub d" "effect_of c = Some (md_effect (dg_delivery d))"
      using assms(1) i by (auto simp: digest_weak_def)
    obtain c' where "cand s' i = Some c'" "keeps c c'" using rows_keepD [OF assms(3) [unfolded cands_keep_def] c(1)] by blast
    then show ?thesis using c by (auto simp: keeps_def effect_of_def)
  qed
  then show ?thesis using assms(1) mode by (simp add: digest_weak_def)
qed

lemma put_sub_keep: "subm s (su_id sub) = Some old \<Longrightarrow> sub_keeps old sub \<Longrightarrow> subs_keep s (put_sub env sub s)"
  by (simp add: subs_keep_def rows_keep_def kv_get_put)

lemma put_sub_inv:
  assumes "mon_ok_but env P s" "subs_keep s (put_sub env sub s)"
  shows "mon_ok_but env P (put_sub env sub s) \<and> store_evolves X Y s (put_sub env sub s)"
proof -
  let ?s = "put_sub env sub s"
  have c: "cands_keep {} s ?s" by (rule keep_same) simp
  have "digest_ok ?s = digest_ok s" by (rule ext) (simp add: digest_ok_def)
  then have "digest_weak ?s d \<and> (P d \<or> digest_ok ?s d)" if "dig ?s k = Some d" for k d
    using that mon_okD(5,6) [OF assms(1)] digest_weak_keep [OF _ assms(2) c] by auto
  then have "mon_ok_but env P ?s" using assms(1) unfolding mon_ok_but_def by (simp add: rows_put)
  then show ?thesis using assms(2) by (simp add: store_evolves_def keep_same)
qed

lemma put_sub_ok:
  assumes "mon_ok_but env P s" "subm s (su_id sub) = Some old" "sub_keeps old sub"
  shows "mon_ok_but env P (put_sub env sub s) \<and> store_evolves X Y s (put_sub env sub s)"
  by (rule put_sub_inv [OF assms(1) put_sub_keep [OF assms(2,3)]])

lemma new_sub_ok:
  assumes "mon_ok env s" "subm s (su_id sub) = None"
  shows "mon_step_ok env X Y s (put_sub env sub s)"
proof -
  have "subs_keep s (put_sub env sub s)" using assms(2) by (auto simp: subs_keep_def rows_keep_def kv_get_put)
  then show ?thesis using put_sub_inv [OF assms(1)] unfolding mon_step_ok_def by blast
qed

lemma other_rows_ok:
  assumes "mon_ok_but env P s" "ms_subs s' = ms_subs s" "ms_cands s' = ms_cands s" "ms_digests s' = ms_digests s"
  shows "mon_ok_but env P s' \<and> store_evolves X Y s s'"
proof -
  have "digest_weak s' = digest_weak s" "digest_ok s' = digest_ok s"
    by (rule ext, simp add: digest_weak_def digest_ok_def assms(2,3))+
  then have "mon_ok_but env P s'" using assms unfolding mon_ok_but_def by simp
  then show ?thesis using assms(2-4) by (simp add: store_evolves_def keep_same)
qed

text \<open>An operation that writes a subscription keeps its identity, or makes a new one.\<close>

definition writes_sub :: "mon_env \<Rightarrow> mon_store \<Rightarrow> mon_store \<Rightarrow> bool" where
  "writes_sub env s s' \<longleftrightarrow> s' = s \<or>
     (\<exists>sub old. s' = put_sub env sub s \<and> subm s (su_id sub) = Some old \<and> sub_keeps old sub \<and>
       (su_state old \<in> {SubCancelling, SubCancelled} \<longrightarrow> su_state sub \<in> {SubCancelling, SubCancelled}))"

lemma writes_sub_ok: "writes_sub env s s' \<Longrightarrow> mon_ok env s \<Longrightarrow> mon_step_ok env X Y s s'"
  unfolding writes_sub_def mon_step_ok_def using put_sub_ok by fastforce

lemma writes_subI:
  "subm s (su_id sub) = Some old \<Longrightarrow> sub_keeps old sub \<Longrightarrow> (su_state old \<in> {SubCancelling, SubCancelled} \<Longrightarrow> su_state sub \<in> {SubCancelling, SubCancelled}) \<Longrightarrow>
   writes_sub env s (put_sub env sub s)"
  unfolding writes_sub_def by blast

lemma writes_sub_operations:
  assumes "mon_ok env s"
  shows "baseline_done env i complete s = Inr s' \<Longrightarrow> writes_sub env s s'"
    "schedule_enter env scope i s = Inr (k, s') \<Longrightarrow> writes_sub env s s'"
    "schedule_created env i r s = Inr (sub, s') \<Longrightarrow> writes_sub env s s'"
    "activate env seen i s = Inr (sub, s') \<Longrightarrow> writes_sub env s s'"
    "note_gap env i src detail s = Inr s' \<Longrightarrow> writes_sub env s s'"
    "mark_gap env i s = Inr s' \<Longrightarrow> writes_sub env s s'"
    "collect_close env ctx i poll blocked s = Inr s' \<Longrightarrow> writes_sub env s s'"
    "control_enter env a i s = Inr (x, s') \<Longrightarrow> writes_sub env s s'"
    "control_end env a cur i s = Inr (sub, s') \<Longrightarrow> su_state cur = reaching a \<Longrightarrow> writes_sub env s s'"
    "writes_sub env s (control_failed env a msg i s)"
    "reschedule_enter env schedule i s = Inr (x, s') \<Longrightarrow> writes_sub env s s'"
    "predecessor_done env r i s = Inr (sub, s') \<Longrightarrow> writes_sub env s s'"
    "successor_created env r i s = Inr s' \<Longrightarrow> writes_sub env s s'"
    "reschedule_end env schedule i s = Inr (sub, s') \<Longrightarrow> writes_sub env s s'"
    "cancelResult env st reason i s = Inr (sub, s') \<Longrightarrow> writes_sub env s s'"
proof -
  note key = mon_okD(9) [OF assms]
  note expand = ensure_eq_Inr rbind_eq_Inr Let_def
  have same: "writes_sub env t t" for t by (simp add: writes_sub_def)
  have I: "writes_sub env s (s\<lparr>ms_subs := kv_put (me_ix env) k x (ms_subs s)\<rparr>)"
    if "subm s j = Some old" "k = su_id old" "su_id x = su_id old" "mp_mode (su_spec x) = mp_mode (su_spec old)" "su_binding x = su_binding old"
      "su_job x = su_job old" "su_state old \<in> {SubCancelling, SubCancelled} \<Longrightarrow> su_state x \<in> {SubCancelling, SubCancelled}" for j k x old
    unfolding that(2) that(3) [symmetric] by (rule writes_subI [of _ _ old]) (use that key in \<open>auto simp: sub_keeps_def\<close>)
  show "baseline_done env i complete s = Inr s' \<Longrightarrow> writes_sub env s s'"
    unfolding baseline_done_def expand by (auto split: option.splits intro!: I)
  show "schedule_enter env scope i s = Inr (k, s') \<Longrightarrow> writes_sub env s s'"
    unfolding schedule_enter_def by (auto simp: expand split: option.splits intro!: I)
  show "schedule_created env i r s = Inr (sub, s') \<Longrightarrow> writes_sub env s s'"
    unfolding schedule_created_def by (auto simp: expand split: option.splits intro!: I)
  show "activate env seen i s = Inr (sub, s') \<Longrightarrow> writes_sub env s s'"
    unfolding activate_def by (auto simp: expand split: option.splits intro!: I)
  show "note_gap env i src detail s = Inr s' \<Longrightarrow> writes_sub env s s'"
    unfolding note_gap_def by (auto simp: expand split: option.splits intro!: I)
  show "mark_gap env i s = Inr s' \<Longrightarrow> writes_sub env s s'"
    unfolding mark_gap_def by (auto simp: expand split: option.splits intro!: I)
  show "collect_close env ctx i poll blocked s = Inr s' \<Longrightarrow> writes_sub env s s'"
    unfolding collect_close_def active_sub_def by (auto simp: expand split: option.splits intro!: I)
  show "control_enter env a i s = Inr (x, s') \<Longrightarrow> writes_sub env s s'"
    unfolding control_enter_def by (auto simp: expand same split: option.splits if_splits intro!: I)
  show "control_end env a cur i s = Inr (sub, s') \<Longrightarrow> su_state cur = reaching a \<Longrightarrow> writes_sub env s s'"
    unfolding control_end_def reaching_def by (cases a) (auto simp: expand split: option.splits intro!: I)
  show "writes_sub env s (control_failed env a msg i s)"
    unfolding control_failed_def by (auto simp: same split: option.splits intro!: I)
  show "reschedule_enter env schedule i s = Inr (x, s') \<Longrightarrow> writes_sub env s s'"
    unfolding reschedule_enter_def by (auto simp: expand same split: option.splits if_splits intro!: I)
  show "predecessor_done env r i s = Inr (sub, s') \<Longrightarrow> writes_sub env s s'"
    unfolding predecessor_done_def by (auto simp: expand split: option.splits intro!: I)
  show "successor_created env r i s = Inr s' \<Longrightarrow> writes_sub env s s'"
    unfolding successor_created_def by (auto simp: expand split: option.splits intro!: I)
  show "reschedule_end env schedule i s = Inr (sub, s') \<Longrightarrow> writes_sub env s s'"
    unfolding reschedule_end_def by (auto simp: expand split: option.splits intro!: I)
  show "cancelResult env st reason i s = Inr (sub, s') \<Longrightarrow> writes_sub env s s'"
    unfolding cancelResult_def by (auto simp: expand same split: option.splits if_splits intro!: I)
qed

end
