(* ===== verification/MonitorSteps.thy ===== *)
theory MonitorSteps
  imports MonitorProps
begin

text \<open>
  Every operation of the coordinator keeps the invariant of the store: candidates keep their verdict
  and a delivery that was begun, digests and their candidates agree.
\<close>

section \<open>One candidate\<close>

lemma put_cand_keep:
  assumes "cand s (ca_id c) = Some c0" "keeps c0 c" "ca_id c \<notin> X \<Longrightarrow> delivering MDispatching c0 \<Longrightarrow> c = c0"
  shows "cands_keep X s (put_cand env c s)"
  using assms by (simp add: cands_keep_def rows_keep_def kv_get_put)

lemma put_cand_inv:
  assumes "mon_ok_but env P s" "cands_keep X s (put_cand env c s)" "cand_good env c"
    and "\<And>k d. dig s k = Some d \<Longrightarrow> ca_id c \<in> set (dg_candidates d) \<Longrightarrow> \<not> P d \<Longrightarrow> ca_delivery c = Some (dg_delivery d)"
  shows "mon_ok_but env P (put_cand env c s) \<and> store_evolves X Y s (put_cand env c s)"
proof -
  let ?s = "put_cand env c s"
  have keep: "subs_keep s ?s" by (rule keep_same) simp
  have "digest_weak ?s d \<and> (P d \<or> digest_ok ?s d)" if d: "dig ?s k = Some d" for k d
  proof -
    have d: "dig s k = Some d" using d by simp
    have "digest_weak ?s d" using digest_weak_keep [OF mon_okD(5) [OF assms(1) d] keep assms(2)] .
    moreover have "digest_ok ?s d" if "\<not> P d"
      using mon_okD(6) [OF assms(1) d that] assms(4) [OF d _ that] unfolding digest_ok_def by (auto simp: kv_get_put)
    ultimately show ?thesis by blast
  qed
  then have "mon_ok_but env P ?s" using assms(1,3) unfolding mon_ok_but_def by (simp add: rows_put kv_get_put)
  then show ?thesis using assms(2) keep by (simp add: store_evolves_def keep_same)
qed

lemma put_cand_ok:
  assumes "mon_ok_but env P s" "cand s (ca_id c) = Some c0" "cand_good env c" "keeps c0 c"
    and "ca_delivery c = ca_delivery c0 \<or> (\<forall>k d. dig s k = Some d \<longrightarrow> ca_id c \<in> set (dg_candidates d) \<longrightarrow> P d)"
    and "ca_id c \<notin> X \<Longrightarrow> delivering MDispatching c0 \<Longrightarrow> c = c0"
  shows "mon_ok_but env P (put_cand env c s) \<and> store_evolves X Y s (put_cand env c s)"
proof (rule put_cand_inv [OF assms(1) put_cand_keep [OF assms(2,4,6)] assms(3)])
  fix k d
  assume d: "dig s k = Some d" "ca_id c \<in> set (dg_candidates d)" "\<not> P d"
  then have "ca_delivery c0 = Some (dg_delivery d)" using mon_okD(6) [OF assms(1) d(1,3)] assms(2) by (simp add: digest_ok_def)
  then show "ca_delivery c = Some (dg_delivery d)" using assms(5) d by auto
qed auto

lemma in_digest_delivered:
  assumes "mon_ok_but env P s" "dig s k = Some d" "i \<in> set (dg_candidates d)" "cand s i = Some c"
  shows "ca_delivery c \<noteq> None" "ca_sub c = dg_sub d" "effect_of c = Some (digest_effect k)"
  using mon_okD(5,8) [OF assms(1,2)] assms(3,4) by (auto simp: digest_weak_def effect_of_def)

lemma candidates_iff:
  "mon_ok_but env P s \<Longrightarrow> c \<in> set (candidates env' s i) \<longleftrightarrow> cand s (ca_id c) = Some c \<and> ca_sub c = i"
  using rows_list [of ca_id "ms_cands s" c] mon_okD(2) by (auto simp: candidates_def)

lemma candidates_distinct: "mon_ok_but env P s \<Longrightarrow> distinct (map ca_id (candidates env' s i))"
proof -
  assume "mon_ok_but env P s"
  then have "distinct (map ca_id (kv_list (ms_cands s)))" using mon_rows_distinct mon_okD(2) by blast
  then have "distinct (map ca_id (filter (\<lambda>c. ca_sub c = i) (kv_list (ms_cands s))))" by (rule distinct_map_filter)
  then show ?thesis unfolding candidates_def using distinct_map_mset [OF mset_sort_by] by blast
qed

section \<open>New candidates\<close>

definition hash_law :: "mon_env \<Rightarrow> bool" where
  "hash_law env \<longleftrightarrow> inj (je_sha (me_job env))"

lemma pair_json: "stringify (JArr [JStr a, JStr b]) = stringify (JArr [JStr a', JStr b']) \<Longrightarrow> a = a' \<and> b = b'"
  using json_string_unique [of b "[]" b' "[]"] by (auto dest!: json_string_unique)

lemma candidate_id_unique: "hash_law env \<Longrightarrow> candidate_id env sub a = candidate_id env sub' a' \<Longrightarrow> sub = sub' \<and> al_id a = al_id a'"
  unfolding hash_law_def candidate_id_def digest_def by (drule (1) injD) (rule pair_json)

definition unseen :: "mon_store \<Rightarrow> utext \<Rightarrow> utext \<Rightarrow> bool" where
  "unseen s sub i \<longleftrightarrow> (case cand s i of None \<Rightarrow> True | Some c \<Rightarrow> ca_sub c = sub \<and> ca_decision c = None \<and> ca_delivery c = None)"

lemma keep_alert_cases:
  assumes "keep_alert env sub baseline cap a s = Inr s'"
  obtains c t where "s' = put_cand env c t" "ms_subs t = ms_subs s" "ms_cands t = ms_cands s" "ms_digests t = ms_digests s" "ms_jobs t = ms_jobs s"
    "ca_id c = candidate_id env sub a" "ca_sub c = sub" "ca_alert c = a" "ca_decision c = None" "ca_delivery c = None" "ca_state c \<noteq> CaDecided"
    "ca_state c = (if baseline then CaBaseline else CaPending)"
  using assms by (auto simp: keep_alert_def Let_def ensure_eq_Inr split: if_splits option.splits)

lemma keep_alert_ok:
  assumes "mon_ok env s" "keep_alert env sub baseline cap a s = Inr s'" "unseen s sub (candidate_id env sub a)"
  shows "mon_step_ok env X Y s s' \<and> (\<forall>i. unseen s sub i \<longrightarrow> unseen s' sub i) \<and> (\<exists>c. cand s' (candidate_id env sub a) = Some c \<and> ca_sub c = sub) \<and>
    ms_subs s' = ms_subs s \<and> ms_jobs s' = ms_jobs s"
proof -
  obtain c t where s': "s' = put_cand env c t" and t: "ms_subs t = ms_subs s" "ms_cands t = ms_cands s" "ms_digests t = ms_digests s" "ms_jobs t = ms_jobs s"
    and c: "ca_id c = candidate_id env sub a" "ca_sub c = sub" "ca_alert c = a" "ca_decision c = None" "ca_delivery c = None" "ca_state c \<noteq> CaDecided"
    using keep_alert_cases [OF assms(2)] by metis
  have ok: "mon_ok env t" and ev: "store_evolves X Y s t" using other_rows_ok [OF assms(1) t(1,2,3)] by blast+
  have good: "cand_good env c" using c by (simp add: cand_good_def matched_def)
  have keep: "cands_keep X t s'"
  proof (cases "cand s (ca_id c)")
    case None
    then show ?thesis by (auto simp: s' cands_keep_def rows_keep_def kv_get_put t)
  next
    case (Some c0)
    then have c0: "ca_sub c0 = sub" "ca_decision c0 = None" "ca_delivery c0 = None" "ca_id c0 = ca_id c"
      using assms(3) c(1) mon_okD(7) [OF assms(1) Some] by (auto simp: unseen_def)
    then have "keeps c0 c" "\<not> delivering MDispatching c0" using c by (auto simp: keeps_def spent_def delivering_def)
    then show ?thesis unfolding s' using put_cand_keep [of t c c0 X env] Some t by simp
  qed
  have none: "ca_id c \<notin> set (dg_candidates d)" if d: "dig t k = Some d" for k d
  proof
    assume i: "ca_id c \<in> set (dg_candidates d)"
    obtain c0 where "cand t (ca_id c) = Some c0" using mon_okD(5) [OF ok d] i by (auto simp: digest_weak_def)
    then show False using in_digest_delivered(1) [OF ok d i] assms(3) c(1) t by (auto simp: unseen_def)
  qed
  have "mon_step_ok env X Y t s'" unfolding mon_step_ok_def s' by (rule put_cand_inv [OF ok keep [unfolded s'] good]) (use none in blast)
  then have "mon_step_ok env X Y s s'" using ev ok mon_step_ok_trans [of env X Y s t s'] by (simp add: mon_step_ok_def)
  then show ?thesis using c by (auto simp: s' t unseen_def kv_get_put)
qed

lemma keep_alerts_ok:
  assumes "mon_ok env s" "keep_alerts env sub baseline cap as s = Inr s'" "\<forall>a \<in> set as. unseen s sub (candidate_id env sub a)"
  shows "mon_step_ok env X Y s s' \<and> (\<forall>a \<in> set as. \<exists>c. cand s' (candidate_id env sub a) = Some c \<and> ca_sub c = sub) \<and>
    ms_subs s' = ms_subs s \<and> ms_jobs s' = ms_jobs s"
  using assms
proof (induction as arbitrary: s)
  case Nil
  then show ?case by (simp add: mon_step_ok_refl)
next
  case (Cons a as)
  obtain t where t: "keep_alert env sub baseline cap a s = Inr t" "keep_alerts env sub baseline cap as t = Inr s'"
    using Cons.prems(2) by (auto simp: rbind_eq_Inr)
  have one: "mon_step_ok env X Y s t" "\<forall>i. unseen s sub i \<longrightarrow> unseen t sub i" "\<exists>c. cand t (candidate_id env sub a) = Some c \<and> ca_sub c = sub"
      "ms_subs t = ms_subs s" "ms_jobs t = ms_jobs s"
    using keep_alert_ok [OF Cons.prems(1) t(1)] Cons.prems(3) by auto
  have ih: "mon_step_ok env X Y t s'" "\<forall>a \<in> set as. \<exists>c. cand s' (candidate_id env sub a) = Some c \<and> ca_sub c = sub"
      "ms_subs s' = ms_subs t" "ms_jobs s' = ms_jobs t"
    using Cons.IH [OF _ t(2)] one Cons.prems(3) by (auto simp: mon_step_ok_def)
  have "\<exists>c. cand s' (candidate_id env sub a) = Some c \<and> ca_sub c = sub"
    using ih(1) one(3) unfolding mon_step_ok_def store_evolves_def cands_keep_def rows_keep_def keeps_def by metis
  then show ?case using one(1,4,5) ih mon_step_ok_trans by auto
qed

lemma new_alerts_unseen:
  assumes "mon_ok env s" "hash_law env" "a \<in> set (new_alerts env s sub r)"
  shows "unseen s sub (candidate_id env sub a)"
proof (cases "cand s (candidate_id env sub a)")
  case (Some c)
  then have id: "ca_id c = candidate_id env sub a" "ca_id c = candidate_id env (ca_sub c) (ca_alert c)"
    using mon_okD(4,7) [OF assms(1) Some] by (auto simp: cand_good_def)
  then have "ca_sub c = sub" using candidate_id_unique [OF assms(2)] by metis
  then have "c \<in> set (candidates env s sub)" using candidates_iff [OF assms(1)] Some id(1) by simp
  then show ?thesis using assms(3) id(1) by (force simp: new_alerts_def)
qed (simp add: unseen_def)

lemma save_collection_cases:
  assumes "save_collection env ctx sub baseline cap s r v = Inr (True, s')"
  obtains cur t where "subm s sub = Some cur" "bound_to ctx cur" "su_state cur = SubActive \<or> (baseline \<and> su_state cur = SubPrepared)"
    "capacity_ok env s sub baseline (new_alerts env s sub r)" "keep_alerts env sub baseline cap (new_alerts env s sub r) s = Inr t"
    "s' = t\<lparr>ms_jobs := kv_put (me_ix env) (row_key (bi_task (jr_binding r)) (jr_id r)) r (ms_jobs t)\<rparr>"
  using assms unfolding save_collection_def Let_def
  by (auto simp: ensure_eq_Inr rbind_eq_Inr split: option.splits if_splits)

lemma save_collection_ok:
  assumes "mon_ok env s" "hash_law env" "save_collection env ctx sub baseline cap s r v = Inr (True, s')"
  shows "mon_step_ok env X Y s s'"
proof -
  obtain t where t: "keep_alerts env sub baseline cap (new_alerts env s sub r) s = Inr t"
      "s' = t\<lparr>ms_jobs := kv_put (me_ix env) (row_key (bi_task (jr_binding r)) (jr_id r)) r (ms_jobs t)\<rparr>"
    using save_collection_cases [OF assms(3)] by metis
  have "mon_step_ok env X Y s t" using keep_alerts_ok [OF assms(1) t(1)] new_alerts_unseen [OF assms(1,2)] by blast
  moreover have "mon_step_ok env X Y t s'"
    using other_rows_ok [of env "\<lambda>_. False" t s'] \<open>mon_step_ok env X Y s t\<close> by (simp add: mon_step_ok_def t(2))
  ultimately show ?thesis by (rule mon_step_ok_trans)
qed

section \<open>Reading and deciding\<close>

lemma put_full_ok:
  assumes "mon_ok env s" "cand s (ca_id c) = Some c" "ca_state c = CaPending"
  shows "mon_step_ok env X Y s (put_cand env (c\<lparr>ca_full := Some f\<rparr>) s)"
proof -
  have "cand_good env c" using mon_okD(4) [OF assms(1,2)] .
  then have none: "ca_decision c = None" "ca_delivery c = None" using assms(3) by (auto simp: cand_good_def matched_def)
  show ?thesis unfolding mon_step_ok_def
    by (rule put_cand_ok [of _ _ _ _ c, OF assms(1)])
      (use assms none \<open>cand_good env c\<close> in \<open>auto simp: cand_good_def keeps_def effect_of_def spent_def matched_def delivering_def\<close>)
qed

lemma show_candidate_ok:
  assumes "mon_ok env s" "cand s (ca_id c) = Some c" "ca_state c = CaPending" "show_candidate env c full s = (c', s')"
  shows "mon_step_ok env X Y s s' \<and> (\<forall>k. k \<noteq> ca_id c \<longrightarrow> cand s' k = cand s k)"
  using assms(4) put_full_ok [OF assms(1-3)] mon_step_ok_refl [OF assms(1)]
  by (auto simp: show_candidate_def Let_def kv_get_put split: option.splits prod.splits if_splits)

lemma fill_batch_ok:
  assumes "mon_ok env s" "fill_batch env used first cs s = Inr (out, s')" "distinct (map ca_id cs)"
    "\<forall>c \<in> set cs. cand s (ca_id c) = Some c \<and> ca_state c = CaPending"
  shows "mon_step_ok env X Y s s'"
  using assms
proof (induction env used first cs s arbitrary: out rule: fill_batch.induct)
  case (1 env used first s)
  then show ?case by (simp add: mon_step_ok_refl)
next
  case (2 env used first saved rest s)
  obtain c s1 where sh: "show_candidate env saved (kv_get (ms_full s) (ca_id saved)) s = (c, s1)" by (cases "show_candidate env saved (kv_get (ms_full s) (ca_id saved)) s")
  have s1: "mon_step_ok env X Y s s1" "\<forall>k. k \<noteq> ca_id saved \<longrightarrow> cand s1 k = cand s k"
    using show_candidate_ok [OF "2.prems"(1) _ _ sh] "2.prems"(4) by auto
  have "ca_id c \<noteq> ca_id saved" if "c \<in> set rest" for c using "2.prems"(3) that by (metis distinct.simps(2) image_eqI list.simps(9) list.set_map)
  then have rest1: "mon_ok env s1" "\<forall>c \<in> set rest. cand s1 (ca_id c) = Some c \<and> ca_state c = CaPending"
    using "2.prems"(4) s1 by (auto simp: mon_step_ok_def)
  show ?case
  proof (cases "me_budget env < used + candidate_bytes (whole_candidate saved (kv_get (ms_full s) (ca_id saved)))")
    case True
    show ?thesis
    proof (cases first)
      case False
      then show ?thesis using "2.prems"(1,2) True by (simp add: Let_def mon_step_ok_refl)
    next
      case first: True
      then show ?thesis using "2.prems" True "2.IH"(1) [OF refl refl True _ refl]
        by (auto simp: Let_def rbind_eq_Inr ensure_eq_Inr split: prod.splits)
    qed
  next
    case False
    then obtain out' where "fill_batch env (used + candidate_bytes (whole_candidate saved (kv_get (ms_full s) (ca_id saved)))) False rest s1 = Inr (out', s')"
      using "2.prems"(2) sh by (auto simp: Let_def rbind_eq_Inr)
    then have "mon_step_ok env X Y s1 s'" using "2.IH"(2) [OF refl refl False sh [symmetric] rest1(1)] rest1(2) "2.prems"(3) by auto
    then show ?thesis using s1(1) mon_step_ok_trans by blast
  qed
qed

lemma collect_respond_ok:
  assumes "mon_ok env s" "collect_respond env sub cur poll blocked s = Inr (v, out, s')"
  shows "mon_step_ok env X Y s s'"
proof -
  obtain used where fill: "fill_batch env used True (take 100 (pending_candidates env s (su_id sub))) s = Inr (out, s')"
    using assms(2) by (auto simp: collect_respond_def Let_def rbind_eq_Inr)
  show ?thesis
  proof (rule fill_batch_ok [OF assms(1) fill])
    show "distinct (map ca_id (take 100 (pending_candidates env s (su_id sub))))"
      using candidates_distinct [OF assms(1)] by (simp add: pending_candidates_def distinct_map_filter distinct_take flip: take_map)
    show "\<forall>c \<in> set (take 100 (pending_candidates env s (su_id sub))). cand s (ca_id c) = Some c \<and> ca_state c = CaPending"
      using candidates_iff [OF assms(1)] by (auto simp: pending_candidates_def dest!: in_set_takeD)
  qed
qed

lemma decide_one_ok:
  assumes "mon_ok env s" "decide_one env now sub d s = Inr (c, s')"
  shows "mon_step_ok env X Y s s' \<and> cand s' (de_candidate d) = Some c \<and> ca_sub c = su_id sub"
proof -
  obtain c0 where c0: "cand s (de_candidate d) = Some c0" "ca_sub c0 = su_id sub" "ca_state c0 = CaPending \<or> ca_state c0 = CaDecided"
    using assms(2) by (auto simp: decide_one_def rbind_eq_Inr ensure_eq_Inr split: option.splits)
  note good = mon_okD(4) [OF assms(1) c0(1)] and key = mon_okD(7) [OF assms(1) c0(1)]
  show ?thesis
  proof (cases "ca_decision c0")
    case (Some v)
    then show ?thesis using assms c0 by (auto simp: decide_one_def rbind_eq_Inr ensure_eq_Inr mon_step_ok_refl)
  next
    case None
    then have none: "ca_delivery c0 = None" using good by (auto simp: cand_good_def matched_def)
    have s': "s' = put_cand env c s" and c: "c = c0\<lparr>ca_state := CaDecided, ca_decision := Some \<lparr>ve_match = de_match d, ve_reason = de_reason d, ve_at = now\<rparr>,
        ca_delivery := (if de_match d \<and> \<not> digest_mode (su_spec sub)
          then Some \<lparr>md_effect = js ''monitor-alert-'' @ mon_hash env (JArr [JStr (su_id sub), JStr (ca_id c0)]),
                 md_state = MPrepared, md_receipt = None, md_reason = None\<rparr> else ca_delivery c0)\<rparr>"
      and read: "\<not> (\<not> de_match d \<and> (case ca_full c0 of None \<Rightarrow> False | Some f \<Rightarrow> fs_read f < fs_length f))"
      using assms(2) c0 None by (auto simp: decide_one_def rbind_eq_Inr ensure_eq_Inr Let_def)
    have "cand_good env c" using good read none by (auto simp: c cand_good_def matched_def split: option.splits)
    moreover have "keeps c0 c" "\<not> delivering MDispatching c0" using None none by (auto simp: c keeps_def spent_def delivering_def)
    moreover have "ca_id c \<notin> set (dg_candidates e)" if "dig s k = Some e" for k e
      using in_digest_delivered(1) [OF assms(1) that _ c0(1)] none key by (auto simp: c)
    ultimately have "mon_step_ok env X Y s s'" unfolding mon_step_ok_def s'
      using put_cand_ok [OF assms(1), of c c0 X Y] c0(1) key by (auto simp: c)
    then show ?thesis using c0 key by (simp add: s' kv_get_put c)
  qed
qed

lemma decide_each_ok: "mon_ok env s \<Longrightarrow> decide_each env now sub ds s = Inr (cs, s') \<Longrightarrow> mon_step_ok env X Y s s'"
proof (induction ds arbitrary: s cs)
  case (Cons d ds)
  then obtain c t cs' where "decide_one env now sub d s = Inr (c, t)" "decide_each env now sub ds t = Inr (cs', s')"
    by (auto simp: rbind_eq_Inr)
  then show ?case using Cons decide_one_ok [of env s now sub d c t X Y] mon_step_ok_trans by (auto simp: mon_step_ok_def dest: store_evolves_trans)
qed (simp add: mon_step_ok_refl)

lemma decide_ok: "mon_ok env s \<Longrightarrow> decide env now ctx sub ds s = Inr (cs, s') \<Longrightarrow> mon_step_ok env X Y s s'"
  by (auto simp: decide_def rbind_eq_Inr ensure_eq_Inr intro: decide_each_ok)

lemma readCandidate_ok:
  assumes "mon_ok env s" "readCandidate env ctx i cid offset limit s = Inr (x, s')"
  shows "mon_step_ok env X Y s s'"
proof -
  obtain c f n where c: "cand s cid = Some c" "ca_state c = CaPending" "s' = put_cand env (c\<lparr>ca_full := Some (f\<lparr>fs_read := n\<rparr>)\<rparr>) s"
    using assms(2) by (auto simp: readCandidate_def Let_def rbind_eq_Inr ensure_eq_Inr split: option.splits)
  then show ?thesis using put_full_ok [OF assms(1), of c] mon_okD(7) [OF assms(1) c(1)] by simp
qed

end
