(* ===== verification/MonitorSends.thy ===== *)
theory MonitorSends
  imports MonitorSteps
begin

text \<open>
  The deliveries keep the invariant: a candidate goes from prepared to dispatching once, and a digest
  and its candidates change state together; so do withdrawal and restart.
\<close>

section \<open>Several candidates\<close>

lemma fold_put_ok:
  assumes "mon_ok_but env P s" "distinct (map ca_id cs)"
    and "\<forall>c \<in> set cs. cand s (ca_id c) = Some c \<and> cand_good env (f c) \<and> keeps c (f c) \<and> (delivering MDispatching c \<longrightarrow> f c = c \<or> ca_id c \<in> X) \<and>
      (ca_delivery (f c) = ca_delivery c \<or> (\<forall>k d. dig s k = Some d \<longrightarrow> ca_id c \<in> set (dg_candidates d) \<longrightarrow> P d))"
  shows "mon_ok_but env P (fold (\<lambda>c. put_cand env (f c)) cs s) \<and> store_evolves X Y s (fold (\<lambda>c. put_cand env (f c)) cs s) \<and>
    cand (fold (\<lambda>c. put_cand env (f c)) cs s) = (\<lambda>k. if k \<in> ca_id ` set cs then map_option f (cand s k) else cand s k) \<and>
    ms_subs (fold (\<lambda>c. put_cand env (f c)) cs s) = ms_subs s \<and> ms_digests (fold (\<lambda>c. put_cand env (f c)) cs s) = ms_digests s"
  using assms
proof (induction cs arbitrary: s)
  case Nil
  then show ?case by simp
next
  case (Cons c cs)
  have c: "cand s (ca_id c) = Some c" "cand_good env (f c)" "keeps c (f c)" "ca_id (f c) = ca_id c"
    using Cons.prems(3) by (auto simp: keeps_def)
  let ?t = "put_cand env (f c) s"
  have one: "mon_ok_but env P ?t \<and> store_evolves X Y s ?t"
    by (rule put_cand_ok [OF Cons.prems(1), of "f c" c]) (use c Cons.prems(3) in auto)
  have other: "ca_id e \<noteq> ca_id c" if "e \<in> set cs" for e using Cons.prems(2) that by (metis distinct.simps(2) image_eqI list.simps(9) list.set_map)
  have rest: "\<forall>e \<in> set cs. cand ?t (ca_id e) = Some e \<and> cand_good env (f e) \<and> keeps e (f e) \<and> (delivering MDispatching e \<longrightarrow> f e = e \<or> ca_id e \<in> X) \<and>
      (ca_delivery (f e) = ca_delivery e \<or> (\<forall>k d. dig ?t k = Some d \<longrightarrow> ca_id e \<in> set (dg_candidates d) \<longrightarrow> P d))"
    using Cons.prems(3) other c(4) by (auto simp: kv_get_put)
  have notin: "ca_id c \<notin> ca_id ` set cs" using Cons.prems(2) by simp
  let ?r = "fold (\<lambda>c. put_cand env (f c)) cs ?t"
  have ih: "mon_ok_but env P ?r \<and> store_evolves X Y ?t ?r \<and> cand ?r = (\<lambda>k. if k \<in> ca_id ` set cs then map_option f (cand ?t k) else cand ?t k) \<and>
      ms_subs ?r = ms_subs ?t \<and> ms_digests ?r = ms_digests ?t"
    using Cons.IH [OF conjunct1 [OF one] _ rest] Cons.prems(2) by simp
  have maps: "cand ?r = (\<lambda>k. if k \<in> ca_id ` set (c # cs) then map_option f (cand s k) else cand s k)"
    using ih notin c(1,4) by (auto simp: fun_eq_iff kv_get_put)
  have "store_evolves X Y s ?r" using one ih store_evolves_trans by blast
  then show ?case using ih maps by simp
qed

section \<open>One digest with its candidates\<close>

lemma put_deliveries_maps:
  "put_deliveries env d is s = Inr s' \<Longrightarrow>
     cand s' = (\<lambda>k. if k \<in> set is then map_option (\<lambda>c. c\<lparr>ca_delivery := Some d\<rparr>) (cand s k) else cand s k) \<and>
     ms_subs s' = ms_subs s \<and> ms_digests s' = ms_digests s \<and> ms_jobs s' = ms_jobs s \<and> (rows_ok ca_id (ms_cands s) \<longrightarrow> rows_ok ca_id (ms_cands s'))"
proof (induction "is" arbitrary: s)
  case (Cons i "is")
  obtain c where c: "cand s i = Some c" using Cons.prems by (auto split: option.splits)
  let ?t = "s\<lparr>ms_cands := kv_put (me_ix env) i (c\<lparr>ca_delivery := Some d\<rparr>) (ms_cands s)\<rparr>"
  have "put_deliveries env d is ?t = Inr s'" using Cons.prems c by simp
  note ih = Cons.IH [OF this]
  have "rows_ok ca_id (ms_cands s) \<longrightarrow> rows_ok ca_id (ms_cands ?t)" using c rows_key [of ca_id "ms_cands s" i c] by (auto simp: rows_put)
  then show ?case using ih c by (auto simp: fun_eq_iff kv_get_put)
qed simp

lemma put_deliveries_total: "\<forall>i \<in> set is. cand s i \<noteq> None \<Longrightarrow> \<exists>s'. put_deliveries env d is s = Inr s'"
proof (induction "is" arbitrary: s)
  case (Cons i "is")
  then obtain c where c: "cand s i = Some c" by auto
  have "\<forall>j \<in> set is. cand (s\<lparr>ms_cands := kv_put (me_ix env) i (c\<lparr>ca_delivery := Some d\<rparr>) (ms_cands s)\<rparr>) j \<noteq> None"
    using Cons.prems by (auto simp: kv_get_put)
  then show ?case using Cons.IH c by simp
qed simp

definition mon_settles :: "utext set \<Rightarrow> mon_store \<Rightarrow> mon_digest \<Rightarrow> bool" where
  \<comment> \<open>What the new state of a digest must respect of its candidates.\<close>
  "mon_settles X s d \<longleftrightarrow>
     (\<forall>i \<in> set (dg_candidates d). \<forall>c. cand s i = Some c \<longrightarrow>
       (spent c \<longrightarrow> md_state (dg_delivery d) \<notin> {MPrepared, MCancelled}) \<and> (delivering MDispatching c \<longrightarrow> i \<in> X))"

lemma saveDigest_maps:
  assumes "saveDigest env d s = Inr s'"
  shows "cand s' = (\<lambda>k. if k \<in> set (dg_candidates d) then map_option (\<lambda>c. c\<lparr>ca_delivery := Some (dg_delivery d)\<rparr>) (cand s k) else cand s k)"
    "dig s' = (dig s)(dg_id d \<mapsto> d)" "ms_subs s' = ms_subs s" "rows_ok dg_id (ms_digests s) \<Longrightarrow> rows_ok dg_id (ms_digests s')"
    "rows_ok ca_id (ms_cands s) \<Longrightarrow> rows_ok ca_id (ms_cands s')" "ms_jobs s' = ms_jobs s"
  using put_deliveries_maps [OF assms [unfolded saveDigest_def]] by (auto simp: kv_get_put rows_put)

lemma saveDigest_total:
  assumes "digest_weak s d0" "dg_candidates d = dg_candidates d0"
  shows "\<exists>s'. saveDigest env d s = Inr s'"
  unfolding saveDigest_def by (rule put_deliveries_total) (use assms in \<open>auto simp: digest_weak_def\<close>)

lemma saveDigest_ok:
  assumes "mon_ok_but env P s" "dig s (dg_id d) = Some d0" "digest_keeps d0 d" "mon_settles X s d"
    and "dg_id d \<notin> Y \<Longrightarrow> md_state (dg_delivery d0) = MDispatching \<Longrightarrow> d = d0" and save: "saveDigest env d s = Inr s'"
  shows "mon_ok_but env (\<lambda>e. P e \<and> dg_id e \<noteq> dg_id d) s' \<and> store_evolves X Y s s'"
proof -
  note maps = saveDigest_maps [OF save]
  have weak0: "digest_weak s d0" "dg_id d0 = dg_id d" using mon_okD(5,8) [OF assms(1,2)] by auto
  have parts: "dg_sub d = dg_sub d0" "dg_candidates d = dg_candidates d0" "md_effect (dg_delivery d) = md_effect (dg_delivery d0)"
    using assms(3) by (auto simp: digest_keeps_def)
  have member: "ca_delivery c \<noteq> None" "effect_of c = Some (md_effect (dg_delivery d))" if "i \<in> set (dg_candidates d)" "cand s i = Some c" for i c
    using in_digest_delivered [OF assms(1,2) _ that(2)] that(1) parts weak0 by (auto simp: digest_weak_def)
  have subs: "subs_keep s s'" by (rule keep_same) (simp add: maps)
  have cands: "cands_keep X s s'"
    unfolding cands_keep_def rows_keep_def
  proof (intro allI impI)
    fix k c
    assume c: "cand s k = Some c"
    show "\<exists>c'. cand s' k = Some c' \<and> keeps c c' \<and> (k \<notin> X \<longrightarrow> delivering MDispatching c \<longrightarrow> c' = c)"
    proof (cases "k \<in> set (dg_candidates d)")
      case True
      then have "keeps c (c\<lparr>ca_delivery := Some (dg_delivery d)\<rparr>)" "delivering MDispatching c \<longrightarrow> k \<in> X"
        using assms(4) c member [OF True c] by (auto simp: keeps_def mon_settles_def effect_of_def spent_def)
      then show ?thesis using True c by (auto simp: maps)
    next
      case False
      then show ?thesis using c by (simp add: maps)
    qed
  qed
  have digs: "digests_keep Y s s'"
    unfolding digests_keep_def rows_keep_def maps(2) using assms(2,3,5) by auto
  have weak: "digest_weak s' e" if "dig s' k = Some e" for k e
  proof (cases "k = dg_id d")
    case True
    then have e: "e = d" using that by (simp add: maps)
    have "digest_weak s d" using weak0(1) unfolding digest_weak_def parts weak0(2) by blast
    then show ?thesis unfolding e by (rule digest_weak_keep [OF _ subs cands])
  next
    case False
    then have "dig s k = Some e" using that by (simp add: maps)
    then show ?thesis using digest_weak_keep [OF mon_okD(5) [OF assms(1)] subs cands] by blast
  qed
  have ok: "digest_ok s' e" if e: "dig s' k = Some e" "\<not> (P e \<and> dg_id e \<noteq> dg_id d)" for k e
  proof (cases "k = dg_id d")
    case True
    then have "e = d" using e(1) by (simp add: maps)
    then show ?thesis by (auto simp: digest_ok_def maps)
  next
    case False
    then have old: "dig s k = Some e" using e(1) by (simp add: maps)
    then have "dg_id e = k" "\<not> P e" using mon_okD(8) [OF assms(1) old] e(2) False by auto
    moreover have "i \<notin> set (dg_candidates d)" if "i \<in> set (dg_candidates e)" for i
      using digest_disjoint [OF assms(1) old assms(2) that] parts False by auto
    ultimately show ?thesis using mon_okD(6) [OF assms(1) old] by (auto simp: digest_ok_def maps)
  qed
  have good: "cand_good env c" if c: "cand s' k = Some c" for k c
  proof (cases "k \<in> set (dg_candidates d)")
    case True
    then obtain c0 where "cand s k = Some c0" "c = c0\<lparr>ca_delivery := Some (dg_delivery d)\<rparr>" using c by (auto simp: maps)
    then show ?thesis using mon_okD(4) [OF assms(1)] member [OF True] by (auto simp: cand_good_def matched_def)
  next
    case False
    then show ?thesis using c mon_okD(4) [OF assms(1)] by (simp add: maps)
  qed
  have "mon_ok_but env (\<lambda>e. P e \<and> dg_id e \<noteq> dg_id d) s'"
    unfolding mon_ok_but_def
  proof (intro conjI allI impI)
    show "rows_ok su_id (ms_subs s')" "rows_ok ca_id (ms_cands s')" "rows_ok dg_id (ms_digests s')"
      using mon_okD(1,2,3) [OF assms(1)] maps(3,4,5) by auto
  qed (use weak ok good in blast)+
  then show ?thesis using subs cands digs by (simp add: store_evolves_def)
qed

lemma save_digests_ok:
  assumes "mon_ok_but env P s" "distinct (map dg_id ds)"
    and "\<forall>d \<in> set ds. \<exists>d0. dig s (dg_id d) = Some d0 \<and> digest_keeps d0 d \<and> mon_settles X s d \<and>
      (dg_id d \<notin> Y \<longrightarrow> md_state (dg_delivery d0) = MDispatching \<longrightarrow> d = d0)"
    and "save_digests env ds s = Inr s'"
  shows "mon_ok_but env (\<lambda>e. P e \<and> dg_id e \<notin> dg_id ` set ds) s' \<and> store_evolves X Y s s' \<and> ms_subs s' = ms_subs s \<and> ms_jobs s' = ms_jobs s \<and>
    (\<forall>k. k \<notin> dg_id ` set ds \<longrightarrow> dig s' k = dig s k)"
  using assms
proof (induction ds arbitrary: s P)
  case Nil
  then show ?case by simp
next
  case (Cons d ds)
  obtain t where t: "saveDigest env d s = Inr t" "save_digests env ds t = Inr s'" using Cons.prems(4) by (auto simp: rbind_eq_Inr)
  note maps = saveDigest_maps [OF t(1)]
  obtain d0 where d0: "dig s (dg_id d) = Some d0" "digest_keeps d0 d" "mon_settles X s d"
      "dg_id d \<notin> Y \<Longrightarrow> md_state (dg_delivery d0) = MDispatching \<Longrightarrow> d = d0" using Cons.prems(3) by auto
  have one: "mon_ok_but env (\<lambda>e. P e \<and> dg_id e \<noteq> dg_id d) t" "store_evolves X Y s t"
    using saveDigest_ok [OF Cons.prems(1) d0 t(1)] by blast+
  have rest: "\<forall>e \<in> set ds. \<exists>e0. dig t (dg_id e) = Some e0 \<and> digest_keeps e0 e \<and> mon_settles X t e \<and>
      (dg_id e \<notin> Y \<longrightarrow> md_state (dg_delivery e0) = MDispatching \<longrightarrow> e = e0)"
  proof
    fix e
    assume e: "e \<in> set ds"
    have ne: "dg_id e \<noteq> dg_id d" using Cons.prems(2) e by (metis distinct.simps(2) image_eqI list.simps(9) list.set_map)
    obtain e0 where e0: "dig s (dg_id e) = Some e0" "digest_keeps e0 e" "mon_settles X s e"
        "dg_id e \<notin> Y \<longrightarrow> md_state (dg_delivery e0) = MDispatching \<longrightarrow> e = e0"
      using Cons.prems(3) e by (meson list.set_intros(2))
    have "i \<notin> set (dg_candidates d)" if "i \<in> set (dg_candidates e)" for i
      using digest_disjoint [OF Cons.prems(1) e0(1) d0(1), of i] that ne e0(2) d0(2) by (auto simp: digest_keeps_def)
    then have "mon_settles X t e" using e0(3) by (auto simp: mon_settles_def maps)
    then show "\<exists>e0. dig t (dg_id e) = Some e0 \<and> digest_keeps e0 e \<and> mon_settles X t e \<and>
        (dg_id e \<notin> Y \<longrightarrow> md_state (dg_delivery e0) = MDispatching \<longrightarrow> e = e0)"
      using e0 ne maps(2) by auto
  qed
  have ih: "mon_ok_but env (\<lambda>e. (P e \<and> dg_id e \<noteq> dg_id d) \<and> dg_id e \<notin> dg_id ` set ds) s'" "store_evolves X Y t s'" "ms_subs s' = ms_subs t" "ms_jobs s' = ms_jobs t"
      "\<forall>k. k \<notin> dg_id ` set ds \<longrightarrow> dig s' k = dig t k"
    using Cons.IH [OF one(1) _ rest t(2)] Cons.prems(2) by auto
  have "(\<lambda>e. (P e \<and> dg_id e \<noteq> dg_id d) \<and> dg_id e \<notin> dg_id ` set ds) = (\<lambda>e. P e \<and> dg_id e \<notin> dg_id ` set (d # ds))" by auto
  then show ?case using ih store_evolves_trans [OF one(2) ih(2)] maps(2,3,6) by simp
qed

lemma save_digests_total:
  assumes "mon_ok_but env P s" "\<forall>d \<in> set ds. \<exists>d0. dig s (dg_id d) = Some d0 \<and> dg_candidates d = dg_candidates d0"
  shows "\<exists>s'. save_digests env ds s = Inr s'"
proof -
  have "\<forall>d \<in> set ds. \<forall>i \<in> set (dg_candidates d). cand s i \<noteq> None"
    using assms(2) mon_okD(5) [OF assms(1)] by (fastforce simp: digest_weak_def)
  then show ?thesis
  proof (induction ds arbitrary: s)
    case (Cons d ds)
    have "\<exists>t. saveDigest env d s = Inr t" unfolding saveDigest_def by (rule put_deliveries_total) (use Cons.prems in auto)
    then obtain t where t: "saveDigest env d s = Inr t" by blast
    have "\<forall>e \<in> set ds. \<forall>i \<in> set (dg_candidates e). cand t i \<noteq> None" using Cons.prems by (auto simp: saveDigest_maps [OF t])
    then show ?case using Cons.IH t by auto
  qed simp
qed

lemma digest_cong: "cand s = cand t \<Longrightarrow> subm s = subm t \<Longrightarrow> digest_weak s = digest_weak t" "cand s = cand t \<Longrightarrow> digest_ok s = digest_ok t"
  by (simp_all add: fun_eq_iff digest_weak_def digest_ok_def)

section \<open>Alerts\<close>

definition alone :: "mon_store \<Rightarrow> candidate \<Rightarrow> bool" where
  \<comment> \<open>Delivered by itself, not in a digest.\<close>
  "alone s c \<longleftrightarrow> (\<exists>sub. subm s (ca_sub c) = Some sub \<and> \<not> digest_mode (su_spec sub))"

lemma alone_outside:
  assumes "mon_ok env s" "alone s c" "cand s (ca_id c) = Some c" "dig s k = Some d"
  shows "ca_id c \<notin> set (dg_candidates d)"
  using in_digest_delivered(2) [OF assms(1,4) _ assms(3)] mon_okD(5) [OF assms(1,4)] assms(2)
  by (auto simp: alone_def digest_weak_def)

lemma deliver_begin_cases:
  assumes "deliver_begin env ctx i cid s = Inr (Some c, s')"
  obtains cur c0 where "subm s i = Some cur" "su_state cur = SubActive" "bound_to ctx cur" "cand s cid = Some c0" "delivering MPrepared c0"
    "c = set_delivery_state MDispatching c0" "s' = put_cand env c s"
  using assms by (auto simp: deliver_begin_def active_sub_def rbind_eq_Inr ensure_eq_Inr Let_def split: option.splits if_splits)

lemma set_state_parts [simp]:
  "ca_id (set_delivery_state st c) = ca_id c" "ca_sub (set_delivery_state st c) = ca_sub c"
  "ca_decision (set_delivery_state st c) = ca_decision c" "ca_alert (set_delivery_state st c) = ca_alert c"
  "ca_state (set_delivery_state st c) = ca_state c" "ca_full (set_delivery_state st c) = ca_full c"
  "effect_of (set_delivery_state st c) = effect_of c"
  by (auto simp: set_delivery_state_def effect_of_def map_option.compositionality comp_def intro: arg_cong2 [where f = map_option])

lemma deliver_begin_ok:
  assumes "mon_ok env s" "deliver_begin env ctx i cid s = Inr (Some c, s')" "\<And>c0. cand s cid = Some c0 \<Longrightarrow> alone s c0"
  shows "mon_step_ok env X Y s s' \<and> cand s' (ca_id c) = Some c \<and> delivering MDispatching c \<and> matched c \<and> ca_id c = cid \<and> alone s' c \<and>
    (\<exists>c0. cand s cid = Some c0 \<and> \<not> spent c0)"
proof -
  obtain c0 where c0: "cand s cid = Some c0" "delivering MPrepared c0" "c = set_delivery_state MDispatching c0" "s' = put_cand env c s"
    using deliver_begin_cases [OF assms(2)] by metis
  have id: "ca_id c0 = cid" using mon_okD(7) [OF assms(1) c0(1)] .
  have good: "cand_good env c0" using mon_okD(4) [OF assms(1) c0(1)] .
  have not: "\<not> spent c0" "\<not> delivering MDispatching c0" "ca_delivery c0 \<noteq> None"
    using c0(2) by (auto simp: spent_def delivering_def split: option.splits)
  have disp: "delivering MDispatching c" using not(3) by (auto simp: c0(3) delivering_def set_delivery_state_def)
  have "matched c0" using good not(3) by (auto simp: cand_good_def)
  have "mon_step_ok env X Y s s'" unfolding mon_step_ok_def c0(4)
  proof (rule put_cand_ok [OF assms(1)])
    show "cand s (ca_id c) = Some c0" using c0 id by simp
    show "cand_good env c" using good \<open>matched c0\<close> by (auto simp: cand_good_def c0(3) matched_def)
    show "keeps c0 c" using not(1) by (simp add: keeps_def c0(3))
    show "ca_delivery c = ca_delivery c0 \<or> (\<forall>k d. dig s k = Some d \<longrightarrow> ca_id c \<in> set (dg_candidates d) \<longrightarrow> False)"
      using alone_outside [OF assms(1) assms(3) [OF c0(1)]] c0(1,3) id by auto
  qed (use not in auto)
  moreover have "alone s' c" using assms(3) [OF c0(1)] by (simp add: alone_def c0(3,4))
  ultimately show ?thesis using c0 id disp \<open>matched c0\<close> not(1) by (simp add: kv_get_put matched_def)
qed

lemma known_state_spent: "known_state x = Some st \<Longrightarrow> st \<notin> {MPrepared, MCancelled, MDispatching}"
  by (cases x) auto

lemma settled_parts:
  "md_effect (alert_settled r d) = md_effect d" "md_state (alert_settled r d) \<notin> {MPrepared, MCancelled, MDispatching}"
  "md_effect (digest_settled r d) = md_effect d" "md_state (digest_settled r d) \<notin> {MPrepared, MCancelled, MDispatching}"
  by (auto simp: alert_settled_def digest_settled_def split: sum.splits option.splits dest: known_state_spent)

lemma deliver_end_ok:
  assumes "mon_ok env s" "cand s (ca_id c) = Some c" "alone s c" "delivering MDispatching c"
  shows "mon_step_ok env {ca_id c} Y s (deliver_end env r c s)"
proof -
  let ?c = "c\<lparr>ca_delivery := map_option (alert_settled r) (ca_delivery c)\<rparr>"
  have good: "cand_good env c" using mon_okD(4) [OF assms(1,2)] .
  have "spent ?c" "effect_of ?c = effect_of c"
    using assms(4) settled_parts by (auto simp: spent_def delivering_def effect_of_def split: option.splits)
  then have "mon_ok env (put_cand env ?c s) \<and> store_evolves {ca_id c} Y s (put_cand env ?c s)"
    using good alone_outside [OF assms(1,3,2)] assms(2)
    by (intro put_cand_ok [OF assms(1), of ?c c]) (auto simp: cand_good_def matched_def keeps_def)
  then show ?thesis by (simp add: mon_step_ok_def deliver_end_def)
qed

section \<open>Digests\<close>

lemma close_cycle_ok:
  assumes "mon_ok env s" "close_cycle env now ctx i cid d s = (d', s')"
  shows "mon_step_ok env X Y s s' \<and> d' = d \<and> ms_digests s' = ms_digests s"
  using other_rows_ok [OF assms(1), of s'] assms(2) by (auto simp: close_cycle_def mon_step_ok_def)

lemma new_digest_ok:
  assumes "mon_ok env s" "dig s cid = None" "subm s i = Some cur" "digest_mode (su_spec cur)"
    and "matches = filter matched_alone (candidates env' s i)" "d = new_digest now ctx i cid matches"
    and "s' = put_digest env d (fold (\<lambda>c. put_cand env (c\<lparr>ca_delivery := Some (dg_delivery d)\<rparr>)) matches s)"
  shows "mon_step_ok env X Y s s' \<and> dig s' cid = Some d \<and> dg_id d = cid"
proof -
  let ?f = "\<lambda>c. c\<lparr>ca_delivery := Some (dg_delivery d)\<rparr>"
  let ?t = "fold (\<lambda>c. put_cand env (?f c)) matches s"
  have parts: "dg_id d = cid" "dg_sub d = i" "dg_candidates d = map ca_id matches" "md_effect (dg_delivery d) = digest_effect cid" "md_state (dg_delivery d) = MPrepared"
    by (simp_all add: assms(6) new_digest_def digest_effect_def)
  have m: "cand s (ca_id c) = Some c" "ca_sub c = i" "matched c" "ca_delivery c = None" if "c \<in> set matches" for c
    using that candidates_iff [OF assms(1)] by (auto simp: assms(5) matched_alone_def matched_def)
  have dist: "distinct (map ca_id matches)" unfolding assms(5) by (rule distinct_map_filter [OF candidates_distinct [OF assms(1)]])
  have outside: "ca_id c \<notin> set (dg_candidates e)" if "c \<in> set matches" "dig s k = Some e" for c k e
    using in_digest_delivered(1) [OF assms(1) that(2) _ m(1)] m(4) that(1) by auto
  have fold: "mon_ok env ?t \<and> store_evolves X Y s ?t \<and> cand ?t = (\<lambda>k. if k \<in> ca_id ` set matches then map_option ?f (cand s k) else cand s k) \<and>
      ms_subs ?t = ms_subs s \<and> ms_digests ?t = ms_digests s"
  proof (rule fold_put_ok [OF assms(1) dist], intro ballI)
    fix c
    assume c: "c \<in> set matches"
    have "cand_good env (?f c)" using mon_okD(4) [OF assms(1) m(1) [OF c]] m(3) [OF c] by (auto simp: cand_good_def matched_def)
    moreover have "keeps c (?f c)" "\<not> delivering MDispatching c" using m(4) [OF c] by (auto simp: keeps_def spent_def delivering_def)
    ultimately show "cand s (ca_id c) = Some c \<and> cand_good env (?f c) \<and> keeps c (?f c) \<and> (delivering MDispatching c \<longrightarrow> ?f c = c \<or> ca_id c \<in> X) \<and>
        (ca_delivery (?f c) = ca_delivery c \<or> (\<forall>k d. dig s k = Some d \<longrightarrow> ca_id c \<in> set (dg_candidates d) \<longrightarrow> False))"
      using m(1) [OF c] outside [OF c] by auto
  qed
  then have ok: "mon_ok env ?t" and maps: "cand ?t = (\<lambda>k. if k \<in> ca_id ` set matches then map_option ?f (cand s k) else cand s k)"
      "ms_subs ?t = ms_subs s" "ms_digests ?t = ms_digests s" by blast+
  have same: "cand s' = cand ?t" "ms_subs s' = ms_subs s" "dig s' = (dig s)(cid \<mapsto> d)"
    using maps parts(1) by (simp_all add: assms(7) kv_get_put)
  have weak: "digest_weak s' e \<and> digest_ok s' e" if "dig s' k = Some e" for k e
  proof (cases "k = cid")
    case True
    then have e: "e = d" using that same(3) by simp
    show ?thesis unfolding e using parts m dist assms(3,4) same maps
      by (auto simp: digest_weak_def digest_ok_def effect_of_def)
  next
    case False
    then have old: "dig ?t k = Some e" using that same(3) maps(3) by simp
    have "subm s' = subm ?t" using same(2) maps(2) by simp
    note eq = digest_cong(1) [OF same(1) this] digest_cong(2) [OF same(1)]
    show ?thesis unfolding eq using mon_okD(5,6) [OF ok old] by simp
  qed
  have "mon_ok env s'" using ok weak unfolding mon_ok_but_def by (simp add: same assms(7) rows_put)
  moreover have "store_evolves X Y ?t s'"
    using assms(2) maps(3) parts(1) by (auto simp: store_evolves_def keep_same same assms(7) digests_keep_def rows_keep_def kv_get_put)
  ultimately show ?thesis using fold store_evolves_trans same(3) parts(1) by (auto simp: mon_step_ok_def)
qed

lemma digest_close_ok:
  assumes "mon_ok env s" "digest_close env now ctx i s = Inr (d, s')" "\<And>cur. subm s i = Some cur \<Longrightarrow> digest_mode (su_spec cur)"
  shows "mon_step_ok env X Y s s' \<and> (\<forall>e. d = Some e \<longrightarrow> dig s' (dg_id e) = Some e)"
proof -
  let ?cid = "mon_hash env (JArr [JStr i, JStr (tc_run ctx)])"
  obtain cur where cur: "subm s i = Some cur" using assms(2) by (auto simp: digest_close_def active_sub_def rbind_eq_Inr ensure_eq_Inr split: option.splits)
  have found: "dig s (dg_id e) = Some e" if "e \<in> set (kv_list (ms_digests s))" for e using rows_list [OF mon_okD(3) [OF assms(1)]] that by simp
  let ?p = "\<lambda>d. dg_sub d = i \<and> md_state (dg_delivery d) = MPrepared"
  let ?ms = "filter matched_alone (candidates env s i)"
  let ?n = "new_digest now ctx i ?cid ?ms"
  consider "d = None \<and> s' = s" | e k where "d = Some e" "s' = s" "dig s k = Some e"
    | e where "close_cycle env now ctx i ?cid (Some e) s = (d, s')" "dig s (dg_id e) = Some e"
    | "close_cycle env now ctx i ?cid None s = (d, s')"
    | e t where "mon_step_ok env X Y s t" "dig t (dg_id e) = Some e" "close_cycle env now ctx i ?cid (Some e) t = (d, s')"
  proof (cases "\<not> collected_by (tc_run ctx) cur")
    case True
    then show ?thesis using that(1) assms(2) cur
      by (auto simp: digest_close_def active_sub_def rbind_eq_Inr ensure_eq_Inr Let_def)
  next
    case False
    note start = assms(2) [unfolded digest_close_def active_sub_def Let_def, simplified cur option.case rbind_eq_Inr ensure_eq_Inr]
    show ?thesis
    proof (cases "kv_get (ms_cycles s) ?cid")
      case (Some y)
      then show ?thesis using start False that(1,2) by (auto split: option.splits if_splits)
    next
      case no_cycle: None
      show ?thesis
      proof (cases "find ?p (kv_list (ms_digests s))")
        case (Some e)
        then have "e \<in> set (kv_list (ms_digests s))" by (auto simp: find_Some_iff)
        then show ?thesis using start False no_cycle Some that(3) found by auto
      next
        case no_prepared: None
        show ?thesis
        proof (cases "dig s ?cid")
          case (Some e)
          then have "dig s (dg_id e) = Some e" using mon_okD(8) [OF assms(1)] by metis
          then show ?thesis using start False no_cycle no_prepared Some that(3) by auto
        next
          case None
          show ?thesis
          proof (cases "?ms = []")
            case True
            then show ?thesis using start False no_cycle no_prepared None that(4) by simp
          next
            case some: False
            define e where "e = ?n"
            define t where "t = put_digest env e (fold (\<lambda>c. put_cand env (c\<lparr>ca_delivery := Some (dg_delivery e)\<rparr>)) ?ms s)"
            have "mon_step_ok env X Y s t \<and> dig t ?cid = Some e \<and> dg_id e = ?cid"
              by (rule new_digest_ok [OF assms(1) None cur assms(3) [OF cur] refl e_def t_def])
            moreover have "close_cycle env now ctx i ?cid (Some e) t = (d, s')"
              using start False no_cycle no_prepared None some unfolding t_def e_def by simp
            ultimately show ?thesis using that(5) [of t e] by simp
          qed
        qed
      qed
    qed
  qed
  then show ?thesis
  proof cases
    case 1
    then show ?thesis using assms(1) by (simp add: mon_step_ok_refl)
  next
    case (2 e k)
    then show ?thesis using assms(1) mon_okD(8) [OF assms(1) 2(3)] by (auto simp: mon_step_ok_refl)
  next
    case (3 e)
    then show ?thesis using close_cycle_ok [OF assms(1) 3(1), of X Y] by auto
  next
    case 4
    then show ?thesis using close_cycle_ok [OF assms(1) 4, of X Y] by auto
  next
    case (5 e t)
    then have "mon_ok env t" unfolding mon_step_ok_def by blast
    note c = close_cycle_ok [OF this 5(3), of X Y]
    show ?thesis using c 5(2) mon_step_ok_trans [OF 5(1)] by auto
  qed
qed

lemma digest_admit_cases:
  assumes "digest_admit env ctx i d s = Inr (Some d', s')"
  obtains cur saved where "subm s i = Some cur" "su_state cur = SubActive" "dig s (dg_id d) = Some saved" "md_state (dg_delivery saved) = MPrepared"
    "d' = set_digest_state MDispatching d" "saveDigest env d' s = Inr s'"
  using assms by (auto simp: digest_admit_def active_sub_def rbind_eq_Inr ensure_eq_Inr Let_def split: option.splits if_splits)

lemma digest_admit_ok:
  assumes "mon_ok env s" "digest_admit env ctx i d s = Inr (Some d', s')" "\<And>e. dig s (dg_id d) = Some e \<Longrightarrow> digest_keeps e d"
  shows "mon_step_ok env X Y s s' \<and> dig s' (dg_id d') = Some d' \<and> md_state (dg_delivery d') = MDispatching \<and>
    (\<forall>j \<in> set (dg_candidates d'). \<exists>c0 c. cand s j = Some c0 \<and> \<not> spent c0 \<and> cand s' j = Some c \<and> ca_delivery c = Some (dg_delivery d'))"
proof -
  obtain saved where saved: "dig s (dg_id d) = Some saved" "md_state (dg_delivery saved) = MPrepared" "d' = set_digest_state MDispatching d"
      "saveDigest env d' s = Inr s'" using digest_admit_cases [OF assms(2)] by metis
  have keeps: "digest_keeps saved d'" using assms(3) [OF saved(1)] by (simp add: saved(3) set_digest_state_def digest_keeps_def)
  have id: "dg_id d' = dg_id d" and st: "md_state (dg_delivery d') = MDispatching" by (simp_all add: saved(3) set_digest_state_def)
  have members: "dg_candidates d' = dg_candidates saved" using keeps by (simp add: digest_keeps_def)
  have fresh: "\<exists>c0. cand s j = Some c0 \<and> ca_delivery c0 = Some (dg_delivery saved)" if "j \<in> set (dg_candidates d')" for j
    using mon_okD(5,6) [OF assms(1) saved(1)] that members by (fastforce simp: digest_weak_def digest_ok_def)
  then have "mon_settles X s d'" using saved(2) by (fastforce simp: mon_settles_def spent_def delivering_def)
  then have "mon_ok_but env (\<lambda>e. False \<and> dg_id e \<noteq> dg_id d') s' \<and> store_evolves X Y s s'"
    using saveDigest_ok [OF assms(1), of d' saved X Y s'] saved keeps id by auto
  moreover have "dig s' (dg_id d') = Some d'" by (simp add: saveDigest_maps [OF saved(4)])
  moreover have "\<exists>c0 c. cand s j = Some c0 \<and> \<not> spent c0 \<and> cand s' j = Some c \<and> ca_delivery c = Some (dg_delivery d')"
    if j: "j \<in> set (dg_candidates d')" for j
    using fresh [OF j] j saved(2) by (auto simp: saveDigest_maps [OF saved(4)] spent_def)
  ultimately show ?thesis using st by (simp add: mon_step_ok_def)
qed

lemma digest_end_ok:
  assumes "mon_ok env s" "dig s (dg_id d) = Some d" "digest_end env r d s = Inr s'"
  shows "mon_step_ok env (set (dg_candidates d)) {dg_id d} s s'"
proof -
  let ?d = "d\<lparr>dg_delivery := digest_settled r (dg_delivery d)\<rparr>"
  have "mon_settles (set (dg_candidates d)) s ?d" using settled_parts(4) by (simp add: mon_settles_def)
  moreover have "digest_keeps d ?d" by (simp add: digest_keeps_def settled_parts)
  ultimately have "mon_ok_but env (\<lambda>e. False \<and> dg_id e \<noteq> dg_id ?d) s' \<and> store_evolves (set (dg_candidates d)) {dg_id d} s s'"
    using saveDigest_ok [OF assms(1), of ?d d "set (dg_candidates d)" "{dg_id d}" s'] assms(2,3) by (simp add: digest_end_def)
  then show ?thesis by (simp add: mon_step_ok_def)
qed

section \<open>Withdrawal\<close>

lemma mon_ok_weaken: "mon_ok env s \<Longrightarrow> mon_ok_but env P s"
  unfolding mon_ok_but_def by auto

lemma mon_ok_finish:
  assumes "mon_ok_but env P s" "\<And>k d. dig s k = Some d \<Longrightarrow> \<not> P d"
  shows "mon_ok env s"
  using assms unfolding mon_ok_but_def by auto

lemma cancel_parts [simp]:
  "ca_id (cancel_candidate c) = ca_id c" "ca_sub (cancel_candidate c) = ca_sub c" "ca_decision (cancel_candidate c) = ca_decision c"
  "ca_alert (cancel_candidate c) = ca_alert c" "ca_full (cancel_candidate c) = ca_full c"
  "ca_state (cancel_candidate c) = (if ca_state c = CaPending then CaCancelled else ca_state c)"
  "effect_of (cancel_candidate c) = effect_of c"
  by (auto simp: cancel_candidate_def Let_def) (auto simp: effect_of_def)

lemma delivering_cancel: "delivering MPrepared c \<Longrightarrow> delivering MCancelled (cancel_candidate c)"
  by (auto simp: cancel_candidate_def Let_def delivering_def set_delivery_state_def split: option.splits)

lemma cancel_delivery: "\<not> delivering MPrepared c \<Longrightarrow> ca_delivery (cancel_candidate c) = ca_delivery c"
  by (auto simp: cancel_candidate_def Let_def delivering_def split: option.splits)

lemma cancel_unspent: "delivering MCancelled c \<Longrightarrow> \<not> spent c \<and> \<not> delivering MDispatching c"
  by (auto simp: delivering_def spent_def split: option.splits)

lemma delivered_cancel: "ca_delivery (cancel_candidate c) \<noteq> None \<longleftrightarrow> ca_delivery c \<noteq> None"
  using cancel_parts(7) [of c] unfolding effect_of_def by (metis map_option_is_None)

lemma cancel_candidate_ok:
  assumes "cand_good env c"
  shows "cand_good env (cancel_candidate c)" "keeps c (cancel_candidate c)" "delivering MDispatching c \<Longrightarrow> cancel_candidate c = c"
proof -
  have "matched (cancel_candidate c) = matched c" by (simp add: matched_def)
  then show "cand_good env (cancel_candidate c)"
    using assms unfolding cand_good_def cancel_parts delivered_cancel by (cases "ca_state c") auto
  have "spent c \<Longrightarrow> \<not> delivering MPrepared c" by (auto simp: spent_def delivering_def split: option.splits)
  then show "keeps c (cancel_candidate c)" by (auto simp: keeps_def spent_def cancel_delivery)
  show "cancel_candidate c = c" if d: "delivering MDispatching c"
  proof -
    have "ca_delivery c \<noteq> None" using d by (auto simp: delivering_def split: option.splits)
    then have "ca_state c \<noteq> CaPending" using assms by (auto simp: cand_good_def matched_def split: option.splits)
    moreover have "\<not> delivering MPrepared c" using d by (auto simp: delivering_def split: option.splits)
    ultimately show ?thesis by (simp add: cancel_candidate_def)
  qed
qed

lemma digest_mem: "mon_ok_but env P s \<Longrightarrow> d \<in> set (kv_list (ms_digests s)) \<longleftrightarrow> dig s (dg_id d) = Some d"
  by (rule rows_list [OF mon_okD(3)])

lemma digest_ids_distinct: "mon_ok_but env P s \<Longrightarrow> distinct (map dg_id (kv_list (ms_digests s)))"
  by (rule mon_rows_distinct [OF mon_okD(3)])

lemma cancel_job_row_same:
  "ms_subs (cancel_job_row env now cur s) = ms_subs s" "ms_cands (cancel_job_row env now cur s) = ms_cands s"
  "ms_digests (cancel_job_row env now cur s) = ms_digests s"
  by (auto simp: cancel_job_row_def Let_def split: option.splits)

lemma withdraw_cases:
  assumes "withdraw env now i s = Inr (sub, s')"
  obtains "subm s i = Some sub" "su_state sub = SubCancelled" "s' = s"
  | cur where "subm s i = Some cur" "su_state cur \<noteq> SubCancelled" "sub = withdrawn_sub cur"
    "cancel_digests env i (cancel_candidates env i (cancel_job_row env now cur (put_sub env sub s))) = Inr s'"
proof -
  obtain cur where cur: "subm s i = Some cur" using assms by (auto simp: withdraw_def split: option.splits)
  show ?thesis
  proof (cases "su_state cur = SubCancelled")
    case True
    then have "sub = cur" "s' = s" using assms cur by (simp_all add: withdraw_def)
    then show ?thesis using that(1) cur True by blast
  next
    case False
    then have "sub = withdrawn_sub cur" "cancel_digests env i (cancel_candidates env i (cancel_job_row env now cur (put_sub env sub s))) = Inr s'"
      using assms cur by (auto simp: withdraw_def Let_def rbind_eq_Inr)
    then show ?thesis using that(2) cur False by blast
  qed
qed

lemma withdraw_ok:
  assumes "mon_ok env s" "withdraw env now i s = Inr (sub, s')"
  shows "mon_step_ok env X Y s s'"
proof (cases rule: withdraw_cases [OF assms(2)])
  case 1
  then show ?thesis using assms(1) by (simp add: mon_step_ok_refl)
next
  case (2 cur)
  let ?s1 = "put_sub env sub s"
  define s2 where "s2 = cancel_job_row env now cur ?s1"
  define s3 where "s3 = cancel_candidates env i s2"
  note w = cancel_job_row_same [of env now cur ?s1, folded s2_def]
  let ?P = "\<lambda>d. dg_sub d = i \<and> md_state (dg_delivery d) = MPrepared"
  have "mon_ok env ?s1 \<and> store_evolves X Y s ?s1"
    by (rule put_sub_ok [OF assms(1), of _ cur]) (use 2(1,3) mon_okD(9) [OF assms(1)] in \<open>simp_all add: withdrawn_sub_def sub_keeps_def\<close>)
  moreover from this have "mon_ok env s2 \<and> store_evolves X Y ?s1 s2" using other_rows_ok [OF _ w] by blast
  ultimately have two: "mon_ok env s2" "store_evolves X Y s s2" using store_evolves_trans by blast+
  have three: "mon_ok_but env ?P s3 \<and> store_evolves X Y s2 s3 \<and>
      cand s3 = (\<lambda>k. if k \<in> ca_id ` set (candidates env s2 i) then map_option cancel_candidate (cand s2 k) else cand s2 k) \<and>
      ms_subs s3 = ms_subs s2 \<and> ms_digests s3 = ms_digests s2"
    unfolding s3_def cancel_candidates_def
  proof (rule fold_put_ok [OF mon_ok_weaken [OF two(1)] candidates_distinct [OF two(1)]], intro ballI)
    fix c
    assume "c \<in> set (candidates env s2 i)"
    then have c: "cand s2 (ca_id c) = Some c" "ca_sub c = i" using candidates_iff [OF two(1)] by auto
    have "?P d" if "dig s2 k = Some d" "ca_id c \<in> set (dg_candidates d)" "delivering MPrepared c" for k d
      using mon_okD(5,6) [OF two(1) that(1)] that c in_digest_delivered(2) [OF two(1) that(1,2) c(1)]
      by (auto simp: digest_ok_def delivering_def)
    then show "cand s2 (ca_id c) = Some c \<and> cand_good env (cancel_candidate c) \<and> keeps c (cancel_candidate c) \<and>
        (delivering MDispatching c \<longrightarrow> cancel_candidate c = c \<or> ca_id c \<in> X) \<and>
        (ca_delivery (cancel_candidate c) = ca_delivery c \<or> (\<forall>k d. dig s2 k = Some d \<longrightarrow> ca_id c \<in> set (dg_candidates d) \<longrightarrow> ?P d))"
      using c cancel_candidate_ok [OF mon_okD(4) [OF two(1) c(1)]] cancel_delivery [of c] by blast
  qed
  note ok3 = conjunct1 [OF three]
  let ?ds = "map (set_digest_state MCancelled) (prepared_digests s3 i)"
  have ids: "map dg_id ?ds = map dg_id (prepared_digests s3 i)" by (simp add: set_digest_state_def)
  have "distinct (map dg_id (prepared_digests s3 i))"
    unfolding prepared_digests_def by (rule distinct_map_filter [OF digest_ids_distinct [OF ok3]])
  then have dist: "distinct (map dg_id ?ds)" using ids by metis
  have each: "\<forall>d \<in> set ?ds. \<exists>d0. dig s3 (dg_id d) = Some d0 \<and> digest_keeps d0 d \<and> mon_settles X s3 d \<and>
      (dg_id d \<notin> Y \<longrightarrow> md_state (dg_delivery d0) = MDispatching \<longrightarrow> d = d0)"
  proof
    fix d
    assume "d \<in> set ?ds"
    then obtain d0 where d0: "d = set_digest_state MCancelled d0" "dig s3 (dg_id d0) = Some d0" "?P d0"
      using digest_mem [OF ok3] by (auto simp: prepared_digests_def)
    have "delivering MCancelled c" if j: "j \<in> set (dg_candidates d)" "cand s3 j = Some c" for j c
    proof -
      have old: "dig s2 (dg_id d0) = Some d0" using d0(2) three by simp
      have mem: "j \<in> set (dg_candidates d0)" using j(1) by (simp add: d0(1) set_digest_state_def)
      then obtain c0 where c0: "cand s2 j = Some c0" "ca_sub c0 = i" using mon_okD(5) [OF two(1) old] d0(3) by (auto simp: digest_weak_def)
      then have "c0 \<in> set (candidates env s2 i)" "ca_id c0 = j" using candidates_iff [OF two(1)] mon_okD(7) [OF two(1) c0(1)] by auto
      then have "c = cancel_candidate c0" using three j(2) c0(1) by auto
      moreover have "delivering MPrepared c0" using mon_okD(6) [OF two(1) old] mem c0(1) d0(3) by (auto simp: digest_ok_def delivering_def)
      ultimately show ?thesis using delivering_cancel by blast
    qed
    then have "mon_settles X s3 d" using cancel_unspent unfolding mon_settles_def by blast
    then show "\<exists>d0. dig s3 (dg_id d) = Some d0 \<and> digest_keeps d0 d \<and> mon_settles X s3 d \<and>
        (dg_id d \<notin> Y \<longrightarrow> md_state (dg_delivery d0) = MDispatching \<longrightarrow> d = d0)"
      using d0 by (intro exI [of _ d0]) (simp add: set_digest_state_def digest_keeps_def)
  qed
  have "save_digests env ?ds s3 = Inr s'" using 2(4) by (simp add: s3_def s2_def cancel_digests_def)
  note four = save_digests_ok [OF ok3 dist each this]
  have "\<not> (?P e \<and> dg_id e \<notin> dg_id ` set ?ds)" if e: "dig s' k = Some e" for k e
  proof
    assume p: "?P e \<and> dg_id e \<notin> dg_id ` set ?ds"
    have "dg_id e = k" using mon_okD(8) [OF conjunct1 [OF four] e] .
    then have "dig s3 (dg_id e) = Some e" using four p e by auto
    then have "e \<in> set (prepared_digests s3 i)" using digest_mem [OF ok3] p by (simp add: prepared_digests_def)
    then show False using p ids by (metis image_eqI list.set_map)
  qed
  then have "mon_ok env s'" using mon_ok_finish [OF conjunct1 [OF four]] by blast
  then show ?thesis using four three two(2) store_evolves_trans unfolding mon_step_ok_def by blast
qed

lemma withdraw_each_ok:
  "mon_ok env s \<Longrightarrow> withdraw_each env now current subs s = Inr (ws, s') \<Longrightarrow> mon_step_ok env X Y s s'"
proof (induction subs arbitrary: s ws)
  case (Cons sub subs)
  show ?case
  proof (cases "su_state sub = SubCancelled \<or> (su_state sub \<noteq> SubCancelling \<and> current sub = Some True)")
    case True
    then show ?thesis using Cons.IH [OF Cons.prems(1)] Cons.prems(2) by simp
  next
    case False
    then obtain w t ws' where t: "withdraw env now (su_id sub) s = Inr (w, t)" "withdraw_each env now current subs t = Inr (ws', s')"
      using Cons.prems(2) unfolding withdraw_each.simps if_not_P [OF False] by (auto simp: rbind_eq_Inr)
    have "mon_step_ok env X Y s t" by (rule withdraw_ok [OF Cons.prems(1) t(1)])
    moreover from this have "mon_step_ok env X Y t s'" using Cons.IH [OF _ t(2)] unfolding mon_step_ok_def by blast
    ultimately show ?thesis by (rule mon_step_ok_trans)
  qed
qed (simp add: mon_step_ok_refl)

section \<open>Restart\<close>

definition restarted_alert :: "candidate \<Rightarrow> candidate" where
  "restarted_alert c = c\<lparr>ca_delivery := map_option (\<lambda>d. d\<lparr>md_state := MUnknown,
     md_reason := Some (js ''Process restarted during alert dispatch; independent reconciliation required'')\<rparr>) (ca_delivery c)\<rparr>"

lemma restart_alerts_fold:
  "restart_alerts env cs s = fold (\<lambda>c. put_cand env (restarted_alert c)) (filter (delivering MDispatching) cs) s"
  by (induction cs arbitrary: s) (auto simp: restarted_alert_def)

lemma restarted_alert_ok:
  assumes "cand_good env c" "delivering MDispatching c"
  shows "cand_good env (restarted_alert c)" "keeps c (restarted_alert c)" "delivering MUnknown (restarted_alert c)"
  using assms by (auto simp: restarted_alert_def cand_good_def matched_def keeps_def effect_of_def spent_def delivering_def split: option.splits)

lemma coordinator_start_ok:
  assumes "mon_ok env s" "coordinator_start env s = Inr s'"
  shows "mon_step_ok env UNIV UNIV s s'"
proof -
  let ?P = "\<lambda>d. md_state (dg_delivery d) = MDispatching"
  let ?cs = "filter (delivering MDispatching) (kv_list (ms_cands s))"
  define t where "t = restart_alerts env (kv_list (ms_cands s)) s"
  have mem: "c \<in> set (kv_list (ms_cands s)) \<longleftrightarrow> cand s (ca_id c) = Some c" for c by (rule rows_list [OF mon_okD(2) [OF assms(1)]])
  have one: "mon_ok_but env ?P t \<and> store_evolves UNIV UNIV s t \<and>
      cand t = (\<lambda>k. if k \<in> ca_id ` set ?cs then map_option restarted_alert (cand s k) else cand s k) \<and> ms_subs t = ms_subs s \<and> ms_digests t = ms_digests s"
    unfolding t_def restart_alerts_fold
  proof (rule fold_put_ok [OF mon_ok_weaken [OF assms(1)] distinct_map_filter [OF mon_rows_distinct [OF mon_okD(2) [OF assms(1)]]]], intro ballI)
    fix c
    assume "c \<in> set ?cs"
    then have c: "cand s (ca_id c) = Some c" "delivering MDispatching c" using mem by auto
    have "?P d" if "dig s k = Some d" "ca_id c \<in> set (dg_candidates d)" for k d
      using mon_okD(6) [OF assms(1) that(1)] that(2) c by (auto simp: digest_ok_def delivering_def)
    then show "cand s (ca_id c) = Some c \<and> cand_good env (restarted_alert c) \<and> keeps c (restarted_alert c) \<and>
        (delivering MDispatching c \<longrightarrow> restarted_alert c = c \<or> ca_id c \<in> UNIV) \<and>
        (ca_delivery (restarted_alert c) = ca_delivery c \<or> (\<forall>k d. dig s k = Some d \<longrightarrow> ca_id c \<in> set (dg_candidates d) \<longrightarrow> ?P d))"
      using c restarted_alert_ok [OF mon_okD(4) [OF assms(1) c(1)] c(2)] by blast
  qed
  note ok = conjunct1 [OF one]
  let ?ds = "map restarted_digest (filter ?P (kv_list (ms_digests t)))"
  have save: "save_digests env ?ds t = Inr s'" using assms(2) by (simp add: coordinator_start_def Let_def t_def)
  have ids: "map dg_id ?ds = map dg_id (filter ?P (kv_list (ms_digests t)))" by (simp add: restarted_digest_def)
  have "distinct (map dg_id (filter ?P (kv_list (ms_digests t))))" by (rule distinct_map_filter [OF digest_ids_distinct [OF ok]])
  then have dist: "distinct (map dg_id ?ds)" using ids by metis
  have each: "\<forall>d \<in> set ?ds. \<exists>d0. dig t (dg_id d) = Some d0 \<and> digest_keeps d0 d \<and> mon_settles UNIV t d \<and>
      (dg_id d \<notin> UNIV \<longrightarrow> md_state (dg_delivery d0) = MDispatching \<longrightarrow> d = d0)"
  proof
    fix d
    assume "d \<in> set ?ds"
    then obtain d0 where "d = restarted_digest d0" "dig t (dg_id d0) = Some d0" using digest_mem [OF ok] by auto
    then show "\<exists>d0. dig t (dg_id d) = Some d0 \<and> digest_keeps d0 d \<and> mon_settles UNIV t d \<and>
        (dg_id d \<notin> UNIV \<longrightarrow> md_state (dg_delivery d0) = MDispatching \<longrightarrow> d = d0)"
      by (intro exI [of _ d0]) (simp add: restarted_digest_def digest_keeps_def mon_settles_def)
  qed
  note two = save_digests_ok [OF ok dist each save]
  have "\<not> (?P e \<and> dg_id e \<notin> dg_id ` set ?ds)" if e: "dig s' k = Some e" for k e
  proof
    assume p: "?P e \<and> dg_id e \<notin> dg_id ` set ?ds"
    have "dg_id e = k" using mon_okD(8) [OF conjunct1 [OF two] e] .
    then have "dig t (dg_id e) = Some e" using two p e by auto
    then have "e \<in> set (filter ?P (kv_list (ms_digests t)))" using digest_mem [OF ok] p by simp
    then show False using p ids by (metis image_eqI list.set_map)
  qed
  then have "mon_ok env s'" using mon_ok_finish [OF conjunct1 [OF two]] by blast
  then show ?thesis using one two store_evolves_trans unfolding mon_step_ok_def by blast
qed

end
