(* ===== verification/MonitorRun.thy ===== *)
theory MonitorRun
  imports MonitorSends
begin

text \<open>
  Runs of the monitor coordinator: a step relation over its store and what is in flight, and the
  invariant that every candidate is handed to the host at most once.

  A step is one piece of code between two awaits. \<open>my_loaded\<close> are the subscriptions that \<open>load\<close> has
  returned to operations still running, \<open>my_alerts\<close> and \<open>my_digests\<close> the deliveries that await the
  host, \<open>my_summaries\<close> the digests between the two transactions of \<open>flushDigest\<close>; \<open>my_sent\<close> is a ghost:
  what was handed to the host, with the monitor and the effect identifier.
\<close>

section \<open>Steps\<close>

record mon_system =
  my_store :: mon_store
  my_loaded :: "subscription list"
  my_alerts :: "candidate list"
  my_summaries :: "(utext \<times> mon_digest) list"
  my_digests :: "mon_digest list"
  my_sent :: "(utext \<times> utext \<times> utext list) list"

text \<open>The operations that hand nothing to the delivery of alerts.\<close>

inductive quiet :: "mon_env \<Rightarrow> mon_store \<Rightarrow> mon_store \<Rightarrow> bool" for env where
  subscribe: "subscribe_enter env now gap scope p s = Inr (sub, s') \<Longrightarrow> quiet env s s'"
| baseline: "baseline_done env i complete s = Inr s' \<Longrightarrow> quiet env s s'"
| schedule: "schedule_enter env scope i s = Inr (k, s') \<Longrightarrow> quiet env s s'"
| created: "schedule_created env i r s = Inr (sub, s') \<Longrightarrow> quiet env s s'"
| activated: "activate env seen i s = Inr (sub, s') \<Longrightarrow> quiet env s s'"
| source: "read_source env sub src page gap cap s = Inr (cap', s') \<Longrightarrow> quiet env s s'"
| commit: "commit_collection env ctx i baseline cap c wr s = (Inr r, s') \<Longrightarrow> jr_id (wr_record wr) = monitor_key i \<Longrightarrow> quiet env s s'"
| gap: "mark_gap env i s = Inr s' \<Longrightarrow> quiet env s s'"
| collected: "collect_close env ctx i poll blocked s = Inr s' \<Longrightarrow> quiet env s s'"
| respond: "collect_respond env sub cur poll blocked s = Inr (v, out, s') \<Longrightarrow> quiet env s s'"
| read: "readCandidate env ctx i cid offset limit s = Inr (x, s') \<Longrightarrow> quiet env s s'"
| control: "control_enter env a i s = Inr (x, s') \<Longrightarrow> quiet env s s'"
| controlled: "su_state cur = reaching a \<Longrightarrow> control_end env a cur i s = Inr (sub, s') \<Longrightarrow> quiet env s s'"
| uncontrolled: "quiet env s (control_failed env a reason i s)"
| reschedule: "reschedule_enter env schedule i s = Inr (x, s') \<Longrightarrow> quiet env s s'"
| predecessor: "predecessor_done env r i s = Inr (sub, s') \<Longrightarrow> quiet env s s'"
| successor: "successor_created env r i s = Inr s' \<Longrightarrow> quiet env s s'"
| rescheduled: "reschedule_end env schedule i s = Inr (sub, s') \<Longrightarrow> quiet env s s'"
| withdrawn: "withdraw env now i s = Inr (sub, s') \<Longrightarrow> quiet env s s'"
| invalid: "withdrawInvalidSubscriptions env now current s = Inr (ws, s') \<Longrightarrow> quiet env s s'"
| cancelled: "cancelResult env st reason i s = Inr (sub, s') \<Longrightarrow> quiet env s s'"

inductive mon_step :: "mon_env \<Rightarrow> mon_system \<Rightarrow> mon_system \<Rightarrow> bool" for env where
  quiet: "quiet env (my_store y) s \<Longrightarrow> mon_step env y (y\<lparr>my_store := s\<rparr>)"
| load: "load_end (my_store y) ctx i inactive = Inr sub \<Longrightarrow> mon_step env y (y\<lparr>my_loaded := sub # my_loaded y\<rparr>)"
| decide: "sub \<in> set (my_loaded y) \<Longrightarrow> decide env now ctx sub ds (my_store y) = Inr (cs, s) \<Longrightarrow>
    mon_step env y (y\<lparr>my_store := s\<rparr>)"
| deliver: "sub \<in> set (my_loaded y) \<Longrightarrow> \<not> digest_mode (su_spec sub) \<Longrightarrow> cand (my_store y) cid = Some c0 \<Longrightarrow> ca_sub c0 = su_id sub \<Longrightarrow>
    deliver_begin env ctx (su_id sub) cid (my_store y) = Inr (Some c, s) \<Longrightarrow>
    mon_step env y (y\<lparr>my_store := s, my_alerts := c # my_alerts y, my_sent := my_sent y @ [(su_id sub, the (effect_of c), [cid])]\<rparr>)"
| delivered: "c \<in> set (my_alerts y) \<Longrightarrow>
    mon_step env y (y\<lparr>my_store := deliver_end env r c (my_store y), my_alerts := remove1 c (my_alerts y)\<rparr>)"
| summarise: "sub \<in> set (my_loaded y) \<Longrightarrow> digest_mode (su_spec sub) \<Longrightarrow> digest_ready env ctx sub (my_store y) \<Longrightarrow>
    digest_close env now ctx (su_id sub) (my_store y) = Inr (d, s) \<Longrightarrow>
    mon_step env y (y\<lparr>my_store := s, my_summaries := (case d of None \<Rightarrow> [] | Some e \<Rightarrow> [(su_id sub, e)]) @ my_summaries y\<rparr>)"
| admit: "(i, d) \<in> set (my_summaries y) \<Longrightarrow> md_state (dg_delivery d) = MPrepared \<Longrightarrow>
    digest_admit env ctx i d (my_store y) = Inr (Some d', s) \<Longrightarrow> digest_sendable env i d' s = Inr () \<Longrightarrow>
    mon_step env y (y\<lparr>my_store := s, my_digests := d' # my_digests y,
      my_sent := my_sent y @ [(i, md_effect (dg_delivery d'), dg_candidates d')]\<rparr>)"
| refused: "(i, d) \<in> set (my_summaries y) \<Longrightarrow> md_state (dg_delivery d) = MPrepared \<Longrightarrow>
    digest_admit env ctx i d (my_store y) = Inr (Some d', s) \<Longrightarrow> digest_sendable env i d' s = Inl m \<Longrightarrow>
    digest_end env (Inl m) d' s = Inr s' \<Longrightarrow> mon_step env y (y\<lparr>my_store := s'\<rparr>)"
| digested: "d \<in> set (my_digests y) \<Longrightarrow> digest_end env r d (my_store y) = Inr s \<Longrightarrow>
    mon_step env y (y\<lparr>my_store := s, my_digests := remove1 d (my_digests y)\<rparr>)"
| restart: "coordinator_start env (my_store y) = Inr s \<Longrightarrow>
    mon_step env y (y\<lparr>my_store := s, my_loaded := [], my_alerts := [], my_summaries := [], my_digests := []\<rparr>)"

inductive_cases mon_stepE: "mon_step env y y'"

definition empty_store :: mon_store where
  "empty_store = \<lparr>ms_subs = [], ms_jobs = [], ms_cands = [], ms_full = [], ms_digests = [], ms_cycles = []\<rparr>"

definition mon_start :: mon_system where
  "mon_start = \<lparr>my_store = empty_store, my_loaded = [], my_alerts = [], my_summaries = [], my_digests = [], my_sent = []\<rparr>"

abbreviation "mon_run env \<equiv> (mon_step env)\<^sup>*\<^sup>*"

section \<open>Quiet operations\<close>

lemma commit_saves:
  "commit_collection env ctx i baseline cap c wr s = (Inr r, s') \<Longrightarrow>
   save_collection env ctx i baseline cap s (wr_record wr) (wr_expected wr) = Inr (True, s')"
  by (auto simp: commit_collection_def split: sum.splits prod.splits bool.splits option.splits)

lemma subscribe_enter_cases:
  "subscribe_enter env now gap scope p s = Inr (sub, s') \<Longrightarrow> s' = s \<or> (subm s (su_id sub) = None \<and> s' = put_sub env sub s)"
  by (auto simp: subscribe_enter_def Let_def ensure_eq_Inr split: option.splits)

lemma read_source_cases:
  "read_source env sub src page gap cap s = Inr (cap', s') \<Longrightarrow> s' = s \<or> note_gap env (su_id sub) src (or_else gap []) s = Inr s'"
  by (auto simp: read_source_def rbind_eq_Inr split: if_splits)

lemma quiet_ok:
  assumes "quiet env s s'" "mon_ok env s" "hash_law env"
  shows "mon_step_ok env X Y s s'"
  using assms(1)
proof cases
  case (subscribe now gap scope p sub)
  then show ?thesis using subscribe_enter_cases assms(2) new_sub_ok mon_step_ok_refl by blast
next
  case (source sub src page gap cap cap')
  then show ?thesis using read_source_cases [OF source] mon_step_ok_refl [OF assms(2)]
      writes_sub_ok [OF writes_sub_operations(5) [OF assms(2)] assms(2)] by blast
next
  case (commit ctx i baseline cap c wr r)
  show ?thesis by (rule save_collection_ok [OF assms(2,3) commit_saves [OF commit(1)]])
next
  case (respond sub cur poll blocked v out)
  then show ?thesis using collect_respond_ok [OF assms(2)] by blast
next
  case (read ctx i cid offset limit x)
  then show ?thesis using readCandidate_ok [OF assms(2)] by blast
next
  case (withdrawn now i sub)
  then show ?thesis using withdraw_ok [OF assms(2)] by blast
next
  case (invalid now current ws)
  then show ?thesis using withdraw_each_ok [OF assms(2)] by (simp add: withdrawInvalidSubscriptions_def)
qed (auto intro: writes_sub_ok [OF _ assms(2)] writes_sub_operations [OF assms(2)])

section \<open>The invariant\<close>

definition sent_ids :: "mon_system \<Rightarrow> utext list" where
  "sent_ids y = concat (map (snd \<circ> snd) (my_sent y))"

definition delivered_as :: "mon_store \<Rightarrow> utext \<Rightarrow> utext \<Rightarrow> utext \<Rightarrow> bool" where
  "delivered_as s j e i \<longleftrightarrow> (\<exists>c. cand s i = Some c \<and> ca_sub c = j \<and> matched c \<and> spent c \<and> effect_of c = Some e)"

lemma mon_step_ok_evolves: "mon_step_ok env X Y s s' \<Longrightarrow> store_evolves UNIV UNIV s s'"
  unfolding mon_step_ok_def using store_evolves_mono by blast

definition loaded_ok :: "mon_store \<Rightarrow> subscription \<Rightarrow> bool" where
  "loaded_ok s sub \<longleftrightarrow> (\<exists>cur. subm s (su_id sub) = Some cur \<and> mp_mode (su_spec cur) = mp_mode (su_spec sub))"

definition alert_ok :: "mon_store \<Rightarrow> candidate \<Rightarrow> bool" where
  "alert_ok s c \<longleftrightarrow> cand s (ca_id c) = Some c \<and> delivering MDispatching c \<and> alone s c"

definition summary_ok :: "mon_store \<Rightarrow> mon_digest \<Rightarrow> bool" where
  "summary_ok s d \<longleftrightarrow> (\<exists>e. dig s (dg_id d) = Some e \<and> digest_keeps e d)"

definition flying_ok :: "mon_store \<Rightarrow> mon_digest \<Rightarrow> bool" where
  "flying_ok s d \<longleftrightarrow> dig s (dg_id d) = Some d \<and> md_state (dg_delivery d) = MDispatching"

definition mon_system_ok :: "mon_env \<Rightarrow> mon_system \<Rightarrow> bool" where
  "mon_system_ok env y \<longleftrightarrow>
     mon_ok env (my_store y) \<and> (\<forall>sub \<in> set (my_loaded y). loaded_ok (my_store y) sub) \<and>
     (\<forall>c \<in> set (my_alerts y). alert_ok (my_store y) c) \<and> distinct (map ca_id (my_alerts y)) \<and>
     (\<forall>(i, d) \<in> set (my_summaries y). summary_ok (my_store y) d) \<and>
     (\<forall>d \<in> set (my_digests y). flying_ok (my_store y) d) \<and> distinct (map dg_id (my_digests y)) \<and>
     distinct (sent_ids y) \<and> (\<forall>(j, e, is) \<in> set (my_sent y). \<forall>i \<in> set is. delivered_as (my_store y) j e i)"

lemma delivered_as_keep: "delivered_as s j e i \<Longrightarrow> cands_keep X s s' \<Longrightarrow> delivered_as s' j e i"
proof -
  assume "delivered_as s j e i" and keep: "cands_keep X s s'"
  then obtain c where c: "cand s i = Some c" "ca_sub c = j" "matched c" "spent c" "effect_of c = Some e" by (auto simp: delivered_as_def)
  obtain c' where c': "cand s' i = Some c'" "keeps c c'" using rows_keepD [OF keep [unfolded cands_keep_def] c(1)] by blast
  have "ca_delivery c \<noteq> None" "ca_decision c \<noteq> None" using c(3,5) by (auto simp: effect_of_def matched_def split: option.splits)
  then show ?thesis using c c' by (auto simp: delivered_as_def keeps_def matched_def)
qed

lemma loaded_ok_keep: "loaded_ok s sub \<Longrightarrow> subs_keep s s' \<Longrightarrow> loaded_ok s' sub"
  unfolding loaded_ok_def subs_keep_def by (fastforce dest: rows_keepD simp: sub_keeps_def)

lemma alone_keep: "alone s c \<Longrightarrow> subs_keep s s' \<Longrightarrow> alone s' c"
  unfolding alone_def subs_keep_def digest_mode_def by (fastforce dest: rows_keepD simp: sub_keeps_def)

lemma alert_ok_keep:
  assumes "alert_ok s c" "subs_keep s s'" "cands_keep X s s'" "ca_id c \<notin> X"
  shows "alert_ok s' c"
proof -
  have c: "cand s (ca_id c) = Some c" "delivering MDispatching c" "alone s c" using assms(1) by (auto simp: alert_ok_def)
  obtain c' where "cand s' (ca_id c) = Some c'" "ca_id c \<notin> X \<longrightarrow> delivering MDispatching c \<longrightarrow> c' = c"
    using rows_keepD [OF assms(3) [unfolded cands_keep_def] c(1)] by blast
  then show ?thesis using c assms(4) alone_keep [OF _ assms(2)] by (auto simp: alert_ok_def)
qed

lemma summary_ok_keep: "summary_ok s d \<Longrightarrow> digests_keep Y s s' \<Longrightarrow> summary_ok s' d"
  unfolding summary_ok_def digests_keep_def by (fastforce dest: rows_keepD simp: digest_keeps_def)

lemma flying_ok_keep: "flying_ok s d \<Longrightarrow> digests_keep Y s s' \<Longrightarrow> dg_id d \<notin> Y \<Longrightarrow> flying_ok s' d"
  unfolding flying_ok_def digests_keep_def by (fastforce dest: rows_keepD)

text \<open>A step of the store, with what is then in flight a part of what was.\<close>

lemma mon_system_ok_step:
  assumes "mon_system_ok env y" "mon_step_ok env X Y (my_store y) s"
    and "my_store y' = s" "set (my_loaded y') \<subseteq> set (my_loaded y)" "my_sent y' = my_sent y"
    and "set (my_alerts y') \<subseteq> set (my_alerts y)" "distinct (map ca_id (my_alerts y'))" "\<And>c. c \<in> set (my_alerts y') \<Longrightarrow> ca_id c \<notin> X"
    and "set (my_digests y') \<subseteq> set (my_digests y)" "distinct (map dg_id (my_digests y'))" "\<And>d. d \<in> set (my_digests y') \<Longrightarrow> dg_id d \<notin> Y"
    and "set (my_summaries y') \<subseteq> set (my_summaries y)"
  shows "mon_system_ok env y'"
proof -
  have ev: "subs_keep (my_store y) s" "cands_keep X (my_store y) s" "digests_keep Y (my_store y) s" "mon_ok env s"
    using assms(2) by (auto simp: mon_step_ok_def store_evolves_def)
  have "\<forall>c \<in> set (my_alerts y'). alert_ok s c" using assms(1,6,8) alert_ok_keep [OF _ ev(1,2)] unfolding mon_system_ok_def by blast
  moreover have "\<forall>sub \<in> set (my_loaded y'). loaded_ok s sub" using assms(1,4) loaded_ok_keep [OF _ ev(1)] unfolding mon_system_ok_def by blast
  moreover have "\<forall>(i, d) \<in> set (my_summaries y'). summary_ok s d" using assms(1,12) summary_ok_keep [OF _ ev(3)] unfolding mon_system_ok_def by blast
  moreover have "\<forall>d \<in> set (my_digests y'). flying_ok s d" using assms(1,9,11) flying_ok_keep [OF _ ev(3)] unfolding mon_system_ok_def by blast
  moreover have "\<forall>(j, e, is) \<in> set (my_sent y). \<forall>i \<in> set is. delivered_as s j e i"
    using assms(1) delivered_as_keep [OF _ ev(2)] unfolding mon_system_ok_def by blast
  moreover have "distinct (sent_ids y')" using assms(1,5) by (simp add: mon_system_ok_def sent_ids_def)
  ultimately show ?thesis using ev(4) assms(3,5,7,10) unfolding mon_system_ok_def by simp
qed

lemma unspent_unsent:
  assumes "mon_system_ok env y" "cand (my_store y) i = Some c" "\<not> spent c"
  shows "i \<notin> set (sent_ids y)"
  using assms by (fastforce simp: mon_system_ok_def sent_ids_def delivered_as_def)

text \<open>A step that hands candidates to the host.\<close>

lemma mon_system_ok_send:
  assumes "mon_system_ok env y" "mon_system_ok env y0" "my_store y0 = my_store y'" "my_sent y0 = my_sent y"
    and "my_loaded y' = my_loaded y0" "my_summaries y' = my_summaries y0" "my_sent y' = my_sent y @ [(j, e, ids)]" "distinct ids"
    and "\<And>i. i \<in> set ids \<Longrightarrow> (\<exists>c0. cand (my_store y) i = Some c0 \<and> \<not> spent c0) \<and> delivered_as (my_store y') j e i"
    and "\<forall>c \<in> set (my_alerts y'). alert_ok (my_store y') c" "distinct (map ca_id (my_alerts y'))"
    and "\<forall>d \<in> set (my_digests y'). flying_ok (my_store y') d" "distinct (map dg_id (my_digests y'))"
  shows "mon_system_ok env y'"
proof -
  have "i \<notin> set (sent_ids y)" if "i \<in> set ids" for i using unspent_unsent [OF assms(1)] assms(9) that by blast
  moreover have "sent_ids y' = sent_ids y @ ids" using assms(7) by (simp add: sent_ids_def)
  moreover have "distinct (sent_ids y)" using assms(1) by (simp add: mon_system_ok_def)
  ultimately have "distinct (sent_ids y')" using assms(8) by auto
  moreover have "\<forall>(j', e', is) \<in> set (my_sent y'). \<forall>i \<in> set is. delivered_as (my_store y') j' e' i"
    using assms(2,3,4,7,9) unfolding mon_system_ok_def by auto
  ultimately show ?thesis using assms unfolding mon_system_ok_def by simp
qed

lemma alert_outside:
  assumes "mon_system_ok env y" "c \<in> set (my_alerts y)" "dig (my_store y) k = Some d"
  shows "ca_id c \<notin> set (dg_candidates d)"
proof -
  have "mon_ok env (my_store y)" "alert_ok (my_store y) c" using assms(1,2) by (auto simp: mon_system_ok_def)
  then show ?thesis using alone_outside [OF _ _ _ assms(3)] by (auto simp: alert_ok_def)
qed

lemma admitted_grounded:
  assumes "mon_system_ok env y" "digest_admit env ctx i d (my_store y) = Inr (Some d', s)"
  shows "dg_id d' \<notin> dg_id ` set (my_digests y)"
proof
  assume "dg_id d' \<in> dg_id ` set (my_digests y)"
  then obtain e where e: "e \<in> set (my_digests y)" "dg_id e = dg_id d'" by auto
  have fly: "flying_ok (my_store y) e" using assms(1) e(1) by (auto simp: mon_system_ok_def)
  obtain saved where "dig (my_store y) (dg_id d) = Some saved" "md_state (dg_delivery saved) = MPrepared" "d' = set_digest_state MDispatching d"
    using digest_admit_cases [OF assms(2)] by metis
  then show False using fly e(2) by (simp add: flying_ok_def set_digest_state_def)
qed

lemma remove1_other: "distinct (map f xs) \<Longrightarrow> x \<in> set xs \<Longrightarrow> z \<in> set (remove1 x xs) \<Longrightarrow> f z \<noteq> f x"
  by (auto simp: distinct_map dest: inj_onD)

lemma mon_distinct_remove1: "distinct (map f xs) \<Longrightarrow> distinct (map f (remove1 x xs))"
  by (induction xs) (auto dest: notin_set_remove1 set_remove1_subset [THEN subsetD])

lemma step_keeps_system:
  assumes "mon_step env y y'" "mon_system_ok env y" "hash_law env"
  shows "mon_system_ok env y' \<and> store_evolves UNIV UNIV (my_store y) (my_store y')"
proof -
  have ok: "mon_ok env (my_store y)" and distinct: "distinct (map ca_id (my_alerts y))" "distinct (map dg_id (my_digests y))"
    using assms(2) by (auto simp: mon_system_ok_def)
  have plain: "mon_system_ok env (y\<lparr>my_store := s\<rparr>) \<and> store_evolves UNIV UNIV (my_store y) s" if "mon_step_ok env {} {} (my_store y) s" for s
    by (intro conjI mon_system_ok_step [OF assms(2) that] mon_step_ok_evolves [OF that]) (use distinct in auto)
  from assms(1) show ?thesis
  proof cases
    case (quiet s)
    then show ?thesis using plain [OF quiet_ok [OF _ ok assms(3)]] by simp
  next
    case (load ctx i inactive sub)
    then have "su_id sub = i" "subm (my_store y) i = Some sub"
      using mon_okD(9) [OF ok] by (auto simp: load_end_def rbind_eq_Inr ensure_eq_Inr split: option.splits)
    then have "loaded_ok (my_store y) sub" by (simp add: loaded_ok_def)
    then show ?thesis using assms(2) load(1) by (simp add: mon_system_ok_def sent_ids_def)
  next
    case (decide sub now ctx ds cs s)
    then show ?thesis using plain [OF decide_ok [OF ok]] by simp
  next
    case (deliver sub cid c0 ctx c s)
    have "loaded_ok (my_store y) sub" using assms(2) deliver(2) by (auto simp: mon_system_ok_def)
    then have "alone (my_store y) c0" using deliver(3,5) by (auto simp: loaded_ok_def alone_def digest_mode_def)
    then have started: "mon_step_ok env {} {} (my_store y) s \<and> cand s (ca_id c) = Some c \<and> delivering MDispatching c \<and> matched c \<and> ca_id c = cid \<and> alone s c \<and>
        (\<exists>c0. cand (my_store y) cid = Some c0 \<and> \<not> spent c0)"
      using deliver_begin_ok [OF ok deliver(6)] deliver(4) by auto
    then have sys: "mon_system_ok env (y\<lparr>my_store := s\<rparr>)" using plain by blast
    have sub: "ca_sub c = su_id sub"
      using deliver_begin_cases [OF deliver(6)] deliver(4,5) by (metis option.inject set_state_parts(2))
    have "delivered_as s (su_id sub) (the (effect_of c)) cid"
      using started sub by (auto simp: delivered_as_def spent_def delivering_def effect_of_def split: option.splits)
    moreover have "alert_ok s c" using started unfolding alert_ok_def by blast
    moreover have "ca_id a \<noteq> cid" if "a \<in> set (my_alerts y)" for a
    proof -
      have "cand (my_store y) (ca_id a) = Some a" "spent a"
        using assms(2) that by (auto simp: mon_system_ok_def alert_ok_def spent_def delivering_def split: option.splits)
      then show ?thesis using started by auto
    qed
    then have "cid \<notin> ca_id ` set (my_alerts y)" by blast
    ultimately show ?thesis using started distinct sys mon_step_ok_evolves [OF conjunct1 [OF started]] unfolding deliver(1)
      by (intro conjI mon_system_ok_send [OF assms(2) sys, where j = "su_id sub" and e = "the (effect_of c)" and ids = "[cid]"]) (auto simp: mon_system_ok_def)
  next
    case (delivered c r)
    then have c: "alert_ok (my_store y) c" using assms(2) by (auto simp: mon_system_ok_def)
    then have st: "mon_step_ok env {ca_id c} {} (my_store y) (deliver_end env r c (my_store y))"
      using deliver_end_ok [OF ok] by (simp add: alert_ok_def)
    show ?thesis unfolding delivered(1)
      by (intro conjI mon_system_ok_step [OF assms(2) st])
        (use mon_step_ok_evolves [OF st] distinct delivered(2) remove1_other [OF distinct(1) delivered(2)] in \<open>auto simp: mon_distinct_remove1 dest: set_remove1_subset [THEN subsetD]\<close>)
  next
    case (summarise sub ctx now d s)
    have "loaded_ok (my_store y) sub" using assms(2) summarise(2) by (auto simp: mon_system_ok_def)
    then have mode: "digest_mode (su_spec cur)" if "subm (my_store y) (su_id sub) = Some cur" for cur
      using that summarise(3) by (auto simp: loaded_ok_def digest_mode_def)
    have close: "mon_step_ok env {} {} (my_store y) s" "\<forall>e. d = Some e \<longrightarrow> dig s (dg_id e) = Some e"
      using digest_close_ok [OF ok summarise(5) mode] by blast+
    have "\<forall>e. d = Some e \<longrightarrow> summary_ok s e" using close(2) by (auto simp: summary_ok_def)
    then show ?thesis using plain [OF close(1)] unfolding summarise(1) by (auto simp: mon_system_ok_def sent_ids_def split: option.splits)
  next
    case (admit i d ctx d' s)
    have summary: "summary_ok (my_store y) d" using assms(2) admit(2) by (auto simp: mon_system_ok_def)
    then have admitted: "mon_step_ok env {} {} (my_store y) s \<and> dig s (dg_id d') = Some d' \<and> md_state (dg_delivery d') = MDispatching \<and>
        (\<forall>j \<in> set (dg_candidates d'). \<exists>c0 c. cand (my_store y) j = Some c0 \<and> \<not> spent c0 \<and> cand s j = Some c \<and> ca_delivery c = Some (dg_delivery d'))"
      using digest_admit_ok [OF ok admit(4)] by (auto simp: summary_ok_def)
    then have sys: "mon_system_ok env (y\<lparr>my_store := s\<rparr>)" and ok': "mon_ok env s" using plain by (auto simp: mon_step_ok_def)
    have weak: "digest_weak s d'" using mon_okD(5) [OF ok'] admitted by blast
    have members: "digest_member i d' (cand s j)" if "j \<in> set (dg_candidates d')" for j
      using admit(5) that by (auto simp: digest_sendable_def list_all_iff split: if_splits)
    have "delivered_as s i (md_effect (dg_delivery d')) j" if "j \<in> set (dg_candidates d')" for j
      using members [OF that] admitted that
      by (fastforce simp: delivered_as_def digest_member_def matched_def spent_def effect_of_def split: option.splits)
    moreover have "dg_id d' \<notin> dg_id ` set (my_digests y)" by (rule admitted_grounded [OF assms(2) admit(4)])
    moreover have "flying_ok s d'" using admitted by (simp add: flying_ok_def)
    ultimately show ?thesis using admitted weak distinct sys mon_step_ok_evolves [OF conjunct1 [OF admitted]] unfolding admit(1)
      by (intro conjI mon_system_ok_send [OF assms(2) sys, where j = i and e = "md_effect (dg_delivery d')" and ids = "dg_candidates d'"]) (auto simp: mon_system_ok_def digest_weak_def)
  next
    case (refused i d ctx d' s m s')
    have "summary_ok (my_store y) d" using assms(2) refused(2) by (auto simp: mon_system_ok_def)
    then have admitted: "mon_step_ok env {} {} (my_store y) s" "dig s (dg_id d') = Some d'"
      using digest_admit_ok [OF ok refused(4)] by (auto simp: summary_ok_def)
    then have sys: "mon_system_ok env (y\<lparr>my_store := s\<rparr>)" using plain by blast
    have ended: "mon_step_ok env (set (dg_candidates d')) {dg_id d'} s s'"
      using digest_end_ok [OF _ admitted(2) refused(6)] admitted(1) by (simp add: mon_step_ok_def)
    have "dg_id e \<noteq> dg_id d'" if "e \<in> set (my_digests y)" for e
      using admitted_grounded [OF assms(2) refused(4)] that by (metis image_eqI)
    then have "mon_system_ok env (y\<lparr>my_store := s, my_store := s'\<rparr>)"
      by (intro mon_system_ok_step [OF sys]) (use ended distinct alert_outside [OF sys _, of _ _ d'] admitted(2) in auto)
    then show ?thesis using store_evolves_trans [OF mon_step_ok_evolves [OF admitted(1)] mon_step_ok_evolves [OF ended]] unfolding refused(1) by simp
  next
    case (digested d r s)
    then have fly: "flying_ok (my_store y) d" using assms(2) by (auto simp: mon_system_ok_def)
    then have st: "mon_step_ok env (set (dg_candidates d)) {dg_id d} (my_store y) s"
      using digest_end_ok [OF ok _ digested(3)] by (simp add: flying_ok_def)
    show ?thesis unfolding digested(1)
      by (intro conjI mon_system_ok_step [OF assms(2) st])
        (use mon_step_ok_evolves [OF st] distinct fly alert_outside [OF assms(2), of _ _ d] remove1_other [OF distinct(2) digested(2)] in
          \<open>auto simp: mon_distinct_remove1 flying_ok_def dest: set_remove1_subset [THEN subsetD]\<close>)
  next
    case (restart s)
    have st: "mon_step_ok env UNIV UNIV (my_store y) s" by (rule coordinator_start_ok [OF ok restart(2)])
    show ?thesis unfolding restart(1) by (intro conjI mon_system_ok_step [OF assms(2) st]) (use mon_step_ok_evolves [OF st] in auto)
  qed
qed

lemma start_ok: "mon_system_ok env mon_start"
  by (simp add: mon_system_ok_def mon_start_def empty_store_def sent_ids_def mon_ok_but_def rows_ok_def kv_ok_def kv_get_def)

lemma mon_run_ok:
  assumes "mon_run env mon_start y" "hash_law env"
  shows "mon_system_ok env y"
  using assms(1) by (induction rule: rtranclp_induct) (use start_ok step_keeps_system [OF _ _ assms(2)] in blast)+

lemma run_evolves:
  assumes "mon_run env y y'" "mon_system_ok env y" "hash_law env"
  shows "mon_system_ok env y' \<and> store_evolves UNIV UNIV (my_store y) (my_store y')"
  using assms(1)
proof (induction rule: rtranclp_induct)
  case (step y1 y2)
  then show ?case using step_keeps_system [OF step(2) _ assms(3)] store_evolves_trans by blast
qed (simp add: assms(2))

end
