(* ===== verification/MonitorKeep.thy ===== *)
theory MonitorKeep
  imports MonitorRun
begin

text \<open>
  What a monitor retains: only a collection adds candidates, it adds one for every alert its job
  record keeps, and it stays within the bounds; and what a withdrawal stops for good.
\<close>

section \<open>Operations that add no candidate\<close>

definition no_new :: "mon_store \<Rightarrow> mon_store \<Rightarrow> bool" where
  "no_new s s' \<longleftrightarrow>
     (\<forall>k c'. cand s' k = Some c' \<longrightarrow>
       (\<exists>c. cand s k = Some c \<and> ca_sub c = ca_sub c' \<and> (ca_state c' = CaPending \<longrightarrow> ca_state c = CaPending)))"

definition closed :: "utext \<Rightarrow> mon_store \<Rightarrow> bool" where
  \<comment> \<open>Withdrawn for good.\<close>
  "closed i s \<longleftrightarrow> (case subm s i of None \<Rightarrow> False | Some sub \<Rightarrow> su_state sub \<in> {SubCancelling, SubCancelled})"

definition calm :: "mon_store \<Rightarrow> mon_store \<Rightarrow> bool" where
  "calm s s' \<longleftrightarrow> (\<forall>i. closed i s \<longrightarrow> closed i s') \<and>
     (\<forall>k r'. kv_get (ms_jobs s') k = Some r' \<longrightarrow>
       (\<exists>r. kv_get (ms_jobs s) k = Some r \<and> jr_id r = jr_id r' \<and> jr_log r = jr_log r')) \<and> no_new s s'"

lemma calm_refl [simp]: "calm s s"
  by (simp add: calm_def no_new_def)

lemma no_new_trans: "no_new a b \<Longrightarrow> no_new b c \<Longrightarrow> no_new a c"
  unfolding no_new_def by metis

lemma calm_trans: "calm a b \<Longrightarrow> calm b c \<Longrightarrow> calm a c"
proof -
  assume ab: "calm a b" and bc: "calm b c"
  have "\<exists>r. kv_get (ms_jobs a) k = Some r \<and> jr_id r = jr_id r' \<and> jr_log r = jr_log r'" if r': "kv_get (ms_jobs c) k = Some r'" for k r'
  proof -
    obtain q where q: "kv_get (ms_jobs b) k = Some q" "jr_id q = jr_id r'" "jr_log q = jr_log r'" using bc r' unfolding calm_def by blast
    then obtain r where "kv_get (ms_jobs a) k = Some r" "jr_id r = jr_id q" "jr_log r = jr_log q" using ab unfolding calm_def by blast
    then show ?thesis using q by simp
  qed
  then show ?thesis using ab bc no_new_trans unfolding calm_def by blast
qed

lemma calm_same: "ms_subs s' = ms_subs s \<Longrightarrow> ms_jobs s' = ms_jobs s \<Longrightarrow> ms_cands s' = ms_cands s \<Longrightarrow> calm s s'"
  by (simp add: calm_def no_new_def closed_def)

lemma calm_put:
  "cand s k = Some c0 \<Longrightarrow> ca_sub c = ca_sub c0 \<Longrightarrow> (ca_state c = CaPending \<Longrightarrow> ca_state c0 = CaPending) \<Longrightarrow>
   calm s (s\<lparr>ms_cands := kv_put (me_ix env) k c (ms_cands s)\<rparr>)"
  by (auto simp: calm_def no_new_def closed_def kv_get_put)

lemma calm_put_sub: "(closed (su_id sub) s \<Longrightarrow> su_state sub \<in> {SubCancelling, SubCancelled}) \<Longrightarrow> calm s (put_sub env sub s)"
  by (auto simp: calm_def no_new_def closed_def kv_get_put)

lemma calm_writes_sub: "writes_sub env s s' \<Longrightarrow> calm s s'"
  unfolding writes_sub_def by (auto simp: closed_def intro!: calm_put_sub)

lemma calm_show: "cand s (ca_id c) = Some c \<Longrightarrow> show_candidate env c full s = (c', s') \<Longrightarrow> calm s s'"
  by (auto simp: show_candidate_def Let_def split: option.splits prod.splits if_splits intro!: calm_put)

lemma calm_fill:
  assumes "mon_ok env s" "fill_batch env used first cs s = Inr (out, s')" "distinct (map ca_id cs)"
    "\<forall>c \<in> set cs. cand s (ca_id c) = Some c \<and> ca_state c = CaPending"
  shows "calm s s'"
  using assms
proof (induction env used first cs s arbitrary: out rule: fill_batch.induct)
  case (1 env used first s)
  then show ?case by simp
next
  case (2 env used first saved rest s)
  obtain c s1 where sh: "show_candidate env saved (kv_get (ms_full s) (ca_id saved)) s = (c, s1)" by (cases "show_candidate env saved (kv_get (ms_full s) (ca_id saved)) s")
  have s1: "mon_step_ok env {} {} s s1" "\<forall>k. k \<noteq> ca_id saved \<longrightarrow> cand s1 k = cand s k" "calm s s1"
    using show_candidate_ok [OF "2.prems"(1) _ _ sh] calm_show [OF _ sh] "2.prems"(4) by auto
  have "ca_id c \<noteq> ca_id saved" if "c \<in> set rest" for c using "2.prems"(3) that by (metis distinct.simps(2) image_eqI list.simps(9) list.set_map)
  then have rest1: "mon_ok env s1" "\<forall>c \<in> set rest. cand s1 (ca_id c) = Some c \<and> ca_state c = CaPending"
    using "2.prems"(4) s1 by (auto simp: mon_step_ok_def)
  show ?case
  proof (cases "me_budget env < used + candidate_bytes (whole_candidate saved (kv_get (ms_full s) (ca_id saved)))")
    case True
    show ?thesis
    proof (cases first)
      case False
      then show ?thesis using "2.prems"(1,2) True by (simp add: Let_def)
    next
      case first: True
      then show ?thesis using "2.prems" True "2.IH"(1) [OF refl refl True _ refl]
        by (auto simp: Let_def rbind_eq_Inr ensure_eq_Inr split: prod.splits)
    qed
  next
    case False
    then obtain out' where "fill_batch env (used + candidate_bytes (whole_candidate saved (kv_get (ms_full s) (ca_id saved)))) False rest s1 = Inr (out', s')"
      using "2.prems"(2) sh by (auto simp: Let_def rbind_eq_Inr)
    then have "calm s1 s'" using "2.IH"(2) [OF refl refl False sh [symmetric] rest1(1)] rest1(2) "2.prems"(3) by auto
    then show ?thesis using s1(3) calm_trans by blast
  qed
qed

lemma calm_respond:
  assumes "mon_ok env s" "collect_respond env sub cur poll blocked s = Inr (v, out, s')"
  shows "calm s s'"
proof -
  obtain used where fill: "fill_batch env used True (take 100 (pending_candidates env s (su_id sub))) s = Inr (out, s')"
    using assms(2) by (auto simp: collect_respond_def Let_def rbind_eq_Inr)
  show ?thesis
  proof (rule calm_fill [OF assms(1) fill])
    show "distinct (map ca_id (take 100 (pending_candidates env s (su_id sub))))"
      using candidates_distinct [OF assms(1)] by (simp add: pending_candidates_def distinct_map_filter distinct_take flip: take_map)
    show "\<forall>c \<in> set (take 100 (pending_candidates env s (su_id sub))). cand s (ca_id c) = Some c \<and> ca_state c = CaPending"
      using candidates_iff [OF assms(1)] by (auto simp: pending_candidates_def dest!: in_set_takeD)
  qed
qed

lemma calm_decide_one:
  assumes "mon_ok env s" "decide_one env now sub d s = Inr (c, s')"
  shows "calm s s'"
proof -
  obtain c0 where c0: "cand s (de_candidate d) = Some c0"
    using assms(2) by (auto simp: decide_one_def rbind_eq_Inr ensure_eq_Inr split: option.splits)
  have "s' = s \<or> (ca_id c = ca_id c0 \<and> ca_sub c = ca_sub c0 \<and> ca_state c = CaDecided \<and> s' = put_cand env c s)"
    using assms(2) c0 by (auto simp: decide_one_def rbind_eq_Inr ensure_eq_Inr Let_def split: option.splits)
  then show ?thesis using calm_put [of s "ca_id c" c0 c env] c0 mon_okD(7) [OF assms(1) c0] by auto
qed

lemma calm_decide_each: "mon_ok env s \<Longrightarrow> decide_each env now sub ds s = Inr (cs, s') \<Longrightarrow> calm s s'"
proof (induction ds arbitrary: s cs)
  case (Cons d ds)
  obtain c t cs' where t: "decide_one env now sub d s = Inr (c, t)" "decide_each env now sub ds t = Inr (cs', s')"
    using Cons.prems(2) by (auto simp: rbind_eq_Inr)
  have "mon_ok env t" using decide_one_ok [OF Cons.prems(1) t(1)] by (simp add: mon_step_ok_def)
  then have "calm t s'" using Cons.IH t(2) by blast
  then show ?case using calm_trans [OF calm_decide_one [OF Cons.prems(1) t(1)]] by blast
qed simp

lemma calm_decide: "mon_ok env s \<Longrightarrow> decide env now ctx sub ds s = Inr (cs, s') \<Longrightarrow> calm s s'"
  by (auto simp: decide_def rbind_eq_Inr ensure_eq_Inr intro: calm_decide_each)

lemma calm_read:
  assumes "mon_ok env s" "readCandidate env ctx i cid offset limit s = Inr (x, s')"
  shows "calm s s'"
proof -
  obtain c f where c: "cand s cid = Some c" "s' = put_cand env (c\<lparr>ca_full := Some f\<rparr>) s"
    using assms(2) by (auto simp: readCandidate_def Let_def rbind_eq_Inr ensure_eq_Inr split: option.splits)
  then show ?thesis using calm_put [of s "ca_id c" c "c\<lparr>ca_full := Some f\<rparr>" env] mon_okD(7) [OF assms(1) c(1)] by simp
qed

lemma calm_deliver_begin:
  assumes "mon_ok env s" "deliver_begin env ctx i cid s = Inr (Some c, s')"
  shows "calm s s'"
proof -
  obtain c0 where c0: "cand s cid = Some c0" "c = set_delivery_state MDispatching c0" "s' = put_cand env c s"
    using deliver_begin_cases [OF assms(2)] by metis
  then show ?thesis using calm_put [of s "ca_id c" c0 c env] mon_okD(7) [OF assms(1) c0(1)] by simp
qed

lemma calm_deliver_end: "cand s (ca_id c) = Some c \<Longrightarrow> calm s (deliver_end env r c s)"
  unfolding deliver_end_def
  using calm_put [of s "ca_id c" c "c\<lparr>ca_delivery := map_option (alert_settled r) (ca_delivery c)\<rparr>" env] by simp

lemma calm_deliveries: "put_deliveries env d is s = Inr s' \<Longrightarrow> calm s s'"
proof -
  assume save: "put_deliveries env d is s = Inr s'"
  show ?thesis unfolding calm_def no_new_def closed_def using put_deliveries_maps [OF save] by (auto split: if_splits)
qed

lemma calm_saveDigest: "saveDigest env d s = Inr s' \<Longrightarrow> calm s s'"
proof -
  assume "saveDigest env d s = Inr s'"
  then have "calm (put_digest env d s) s'" unfolding saveDigest_def by (rule calm_deliveries)
  then show ?thesis by (rule calm_trans [rotated]) (simp add: calm_same)
qed

lemma calm_save_digests: "save_digests env ds s = Inr s' \<Longrightarrow> calm s s'"
  by (induction ds arbitrary: s) (auto simp: rbind_eq_Inr intro: calm_trans calm_saveDigest)

lemma calm_fold:
  assumes "\<forall>c \<in> set cs. cand s (ca_id c) = Some c" "distinct (map ca_id cs)"
    "\<forall>c. ca_id (f c) = ca_id c \<and> ca_sub (f c) = ca_sub c \<and> (ca_state (f c) = CaPending \<longrightarrow> ca_state c = CaPending)"
  shows "calm s (fold (\<lambda>c. put_cand env (f c)) cs s)"
  using assms(1,2)
proof (induction cs arbitrary: s)
  case (Cons c cs)
  have "ca_id e \<noteq> ca_id c" if "e \<in> set cs" for e using Cons.prems(2) that by (metis distinct.simps(2) image_eqI list.simps(9) list.set_map)
  then have "\<forall>e \<in> set cs. cand (put_cand env (f c) s) (ca_id e) = Some e" using Cons.prems(1) assms(3) by (auto simp: kv_get_put)
  then have "calm (put_cand env (f c) s) (fold (\<lambda>c. put_cand env (f c)) cs (put_cand env (f c) s))" using Cons by simp
  moreover have "calm s (put_cand env (f c) s)" using calm_put [of s "ca_id c" c "f c" env] Cons.prems(1) assms(3) by simp
  ultimately show ?case using calm_trans by simp
qed simp

lemma calm_close_cycle: "close_cycle env now ctx i cid d s = (d', s') \<Longrightarrow> calm s s'"
  by (auto simp: close_cycle_def intro: calm_same)

lemma calm_digest_close:
  assumes "mon_ok env s" "digest_close env now ctx i s = Inr (d, s')"
  shows "calm s s'"
proof -
  let ?cid = "mon_hash env (JArr [JStr i, JStr (tc_run ctx)])"
  let ?ms = "filter matched_alone (candidates env s i)"
  let ?n = "new_digest now ctx i ?cid ?ms"
  let ?f = "\<lambda>c. c\<lparr>ca_delivery := Some (dg_delivery ?n)\<rparr>"
  let ?t = "put_digest env ?n (fold (\<lambda>c. put_cand env (?f c)) ?ms s)"
  have "calm s (fold (\<lambda>c. put_cand env (?f c)) ?ms s)"
    by (rule calm_fold) (use candidates_iff [OF assms(1)] distinct_map_filter [OF candidates_distinct [OF assms(1)]] in auto)
  then have new: "calm s ?t" using calm_trans [OF _ calm_same] by simp
  have "s' = s \<or> (\<exists>e. close_cycle env now ctx i ?cid e s = (d, s')) \<or> (\<exists>e. close_cycle env now ctx i ?cid e ?t = (d, s'))"
    using assms(2) unfolding digest_close_def Let_def
    by (auto simp: active_sub_def rbind_eq_Inr ensure_eq_Inr split: option.splits if_splits)
  then show ?thesis using calm_close_cycle calm_trans [OF new] by auto
qed

lemma calm_admit: "digest_admit env ctx i d s = Inr (Some d', s') \<Longrightarrow> calm s s'"
  using digest_admit_cases calm_saveDigest by metis

lemma calm_digest_end: "digest_end env r d s = Inr s' \<Longrightarrow> calm s s'"
  unfolding digest_end_def by (rule calm_saveDigest)

lemma calm_start:
  assumes "mon_ok env s" "coordinator_start env s = Inr s'"
  shows "calm s s'"
proof -
  have "calm s (restart_alerts env (kv_list (ms_cands s)) s)"
    unfolding restart_alerts_fold
    by (rule calm_fold)
      (use rows_list [OF mon_okD(2) [OF assms(1)]] distinct_map_filter [OF mon_rows_distinct [OF mon_okD(2) [OF assms(1)]]] in
        \<open>auto simp: restarted_alert_def\<close>)
  then show ?thesis using assms(2) calm_trans [OF _ calm_save_digests] by (simp add: coordinator_start_def Let_def)
qed

end
