(* ===== verification/MonitorHold.thy ===== *)
theory MonitorHold
  imports MonitorKeep
begin

text \<open>
  Runs of the coordinator, continued: the invariant that every alert a monitor's job record keeps has
  a candidate and that the candidates stay within the bounds, and that a withdrawn monitor stays so.
\<close>

section \<open>Withdrawal\<close>

lemma calm_job_row: "calm s (cancel_job_row env now cur s)"
proof -
  let ?k = "row_key (bi_task (su_binding cur)) (su_job cur)"
  have "calm s (s\<lparr>ms_jobs := kv_put (me_ix env) ?k (cancel_monitor_job now r) (ms_jobs s)\<rparr>)" if "kv_get (ms_jobs s) ?k = Some r" for r
    using that by (auto simp: calm_def closed_def no_new_def kv_get_put cancel_monitor_job_def)
  then show ?thesis by (auto simp: cancel_job_row_def Let_def split: option.splits)
qed

lemma calm_withdraw:
  assumes "mon_ok env s" "withdraw env now i s = Inr (sub, s')"
  shows "calm s s'"
proof (cases rule: withdraw_cases [OF assms(2)])
  case (2 cur)
  let ?s1 = "put_sub env sub s"
  define s2 where "s2 = cancel_job_row env now cur ?s1"
  note w = cancel_job_row_same [of env now cur ?s1, folded s2_def]
  have closing: "su_state sub = SubCancelling" by (simp add: 2(3) withdrawn_sub_def)
  have "mon_ok env ?s1 \<and> store_evolves {} {} s ?s1"
    by (rule put_sub_ok [OF assms(1), of _ cur]) (use 2(1,3) mon_okD(9) [OF assms(1)] in \<open>simp_all add: withdrawn_sub_def sub_keeps_def\<close>)
  then have "mon_ok env s2" using other_rows_ok [OF _ w] by blast
  then have "calm s2 (cancel_candidates env i s2)"
    unfolding cancel_candidates_def
    by (intro calm_fold candidates_distinct) (auto simp: candidates_iff cancel_candidate_def set_delivery_state_def Let_def)
  moreover have "calm s ?s1" by (rule calm_put_sub) (simp add: closing)
  moreover have "calm ?s1 s2" unfolding s2_def by (rule calm_job_row)
  moreover have "calm (cancel_candidates env i s2) s'"
    using 2(4) unfolding s2_def cancel_digests_def by (rule calm_save_digests)
  ultimately show ?thesis using calm_trans by blast
qed simp

lemma calm_withdraw_each: "mon_ok env s \<Longrightarrow> withdraw_each env now current subs s = Inr (ws, s') \<Longrightarrow> calm s s'"
proof (induction subs arbitrary: s ws)
  case (Cons sub subs)
  show ?case
  proof (cases "su_state sub = SubCancelled \<or> (su_state sub \<noteq> SubCancelling \<and> current sub = Some True)")
    case True
    then show ?thesis using Cons by (simp only: withdraw_each.simps if_P)
  next
    case False
    then obtain w t ws' where t: "withdraw env now (su_id sub) s = Inr (w, t)" "withdraw_each env now current subs t = Inr (ws', s')"
      using Cons.prems(2) unfolding withdraw_each.simps if_not_P [OF False] by (auto simp: rbind_eq_Inr)
    have "mon_ok env t" using withdraw_ok [OF Cons.prems(1) t(1)] by (simp add: mon_step_ok_def)
    then show ?thesis using calm_trans [OF calm_withdraw [OF Cons.prems(1) t(1)] Cons.IH [OF _ t(2)]] by blast
  qed
qed simp

lemma withdraw_closes: "mon_ok env s \<Longrightarrow> withdraw env now i s = Inr (sub, s') \<Longrightarrow> closed i s'"
proof -
  assume ok: "mon_ok env s" and w: "withdraw env now i s = Inr (sub, s')"
  show ?thesis
  proof (cases rule: withdraw_cases [OF w])
    case (2 cur)
    define s2 where "s2 = cancel_job_row env now cur (put_sub env sub s)"
    have id: "su_id sub = i" using 2(1,3) mon_okD(9) [OF ok] by (simp add: withdrawn_sub_def)
    have "mon_ok env (put_sub env sub s) \<and> store_evolves {} {} s (put_sub env sub s)"
      by (rule put_sub_ok [OF ok, of _ cur]) (use 2(1,3) mon_okD(9) [OF ok] in \<open>simp_all add: withdrawn_sub_def sub_keeps_def\<close>)
    then have "mon_ok env s2" using other_rows_ok [OF _ cancel_job_row_same] unfolding s2_def by blast
    then have "calm s2 (cancel_candidates env i s2)"
      unfolding cancel_candidates_def
      by (intro calm_fold candidates_distinct) (auto simp: candidates_iff cancel_candidate_def set_delivery_state_def Let_def)
    moreover have "calm (cancel_candidates env i s2) s'" using 2(4) unfolding s2_def cancel_digests_def by (rule calm_save_digests)
    moreover have "closed i s2" using id by (simp add: s2_def closed_def cancel_job_row_same kv_get_put 2(3) withdrawn_sub_def)
    ultimately show ?thesis unfolding calm_def by blast
  qed (simp add: closed_def)
qed

section \<open>Steps\<close>

definition saves :: "mon_env \<Rightarrow> mon_store \<Rightarrow> mon_store \<Rightarrow> bool" where
  "saves env s s' \<longleftrightarrow> (\<exists>ctx i baseline cap r v. save_collection env ctx i baseline cap s r v = Inr (True, s') \<and> jr_id r = monitor_key i)"

lemma quiet_calm:
  assumes "quiet env s s'" "mon_ok env s"
  shows "calm s s' \<or> saves env s s'"
  using assms(1)
proof cases
  case (subscribe now gap scope p sub)
  then show ?thesis using subscribe_enter_cases [OF subscribe] by (auto simp: closed_def intro!: calm_put_sub)
next
  case (source sub src page gap cap cap')
  then show ?thesis using read_source_cases [OF source] calm_writes_sub writes_sub_operations(5) [OF assms(2)] calm_refl by blast
next
  case (commit ctx i baseline cap c wr r)
  then show ?thesis using commit_saves [OF commit(1)] unfolding saves_def by blast
next
  case (respond sub cur poll blocked v out)
  then show ?thesis using calm_respond [OF assms(2)] by blast
next
  case (read ctx i cid offset limit x)
  then show ?thesis using calm_read [OF assms(2)] by blast
next
  case (withdrawn now i sub)
  then show ?thesis using calm_withdraw [OF assms(2)] by blast
next
  case (invalid now current ws)
  then show ?thesis using calm_withdraw_each [OF assms(2)] by (simp add: withdrawInvalidSubscriptions_def)
qed (auto intro: calm_writes_sub writes_sub_operations [OF assms(2)])

lemma step_calm:
  assumes "mon_step env y y'" "mon_system_ok env y"
  shows "calm (my_store y) (my_store y') \<or> saves env (my_store y) (my_store y')"
proof -
  have ok: "mon_ok env (my_store y)" using assms(2) by (simp add: mon_system_ok_def)
  from assms(1) show ?thesis
  proof cases
    case (quiet s)
    then show ?thesis using quiet_calm [OF _ ok] by simp
  next
    case (decide sub now ctx ds cs s)
    then show ?thesis using calm_decide [OF ok] by simp
  next
    case (deliver sub cid c0 ctx c s)
    then show ?thesis using calm_deliver_begin [OF ok] by simp
  next
    case (delivered c r)
    then have "alert_ok (my_store y) c" using assms(2) by (auto simp: mon_system_ok_def)
    then show ?thesis using delivered calm_deliver_end by (simp add: alert_ok_def)
  next
    case (summarise sub ctx now d s)
    then show ?thesis using calm_digest_close [OF ok] by simp
  next
    case (admit i d ctx d' s)
    then show ?thesis using calm_admit by simp
  next
    case (refused i d ctx d' s m s')
    then show ?thesis using calm_trans [OF calm_admit calm_digest_end] by simp
  next
    case (digested d r s)
    then show ?thesis using calm_digest_end by simp
  next
    case (restart s)
    then show ?thesis using calm_start [OF ok] by simp
  qed simp
qed

text \<open>A withdrawn monitor stays withdrawn, and nothing of it is handed to the host.\<close>

lemma closed_inactive: "closed i s \<Longrightarrow> active_sub s ctx i = Inl MonWithdrawn"
  by (auto simp: closed_def active_sub_def ensure_def split: option.splits)

lemma closed_unsaved: "closed i s \<Longrightarrow> save_collection env ctx i baseline cap s r v = Inl MonWithdrawn"
  by (auto simp: closed_def save_collection_def ensure_def split: option.splits)

lemma saves_closed: "mon_ok env s \<Longrightarrow> hash_law env \<Longrightarrow> saves env s s' \<Longrightarrow> ms_subs s' = ms_subs s"
proof -
  assume ok: "mon_ok env s" and hash: "hash_law env" and "saves env s s'"
  then obtain ctx i baseline cap r v where save: "save_collection env ctx i baseline cap s r v = Inr (True, s')" by (auto simp: saves_def)
  obtain t where t: "keep_alerts env i baseline cap (new_alerts env s i r) s = Inr t"
      "s' = t\<lparr>ms_jobs := kv_put (me_ix env) (row_key (bi_task (jr_binding r)) (jr_id r)) r (ms_jobs t)\<rparr>"
    using save_collection_cases [OF save] by metis
  then show ?thesis using keep_alerts_ok [OF ok t(1)] new_alerts_unseen [OF ok hash] by simp
qed

lemma step_closed:
  assumes "mon_step env y y'" "mon_system_ok env y" "hash_law env" "closed i (my_store y)"
  shows "closed i (my_store y') \<and> (\<exists>new. my_sent y' = my_sent y @ new \<and> i \<notin> fst ` set new)"
proof
  have ok: "mon_ok env (my_store y)" using assms(2) by (simp add: mon_system_ok_def)
  show "closed i (my_store y')"
    using step_calm [OF assms(1,2)] saves_closed [OF ok assms(3)] assms(4) by (auto simp: calm_def closed_def)
  show "\<exists>new. my_sent y' = my_sent y @ new \<and> i \<notin> fst ` set new"
    using assms(1)
  proof cases
    case (deliver sub cid c0 ctx c s)
    then have "su_id sub \<noteq> i" using closed_inactive [OF assms(4)] by (auto simp: deliver_begin_def)
    then show ?thesis using deliver(1) by simp
  next
    case (admit j d ctx d' s)
    then have "j \<noteq> i" using closed_inactive [OF assms(4)] by (auto simp: digest_admit_def)
    then show ?thesis using admit(1) by simp
  qed simp_all
qed

lemma run_closed:
  assumes "mon_run env y z" "mon_system_ok env y" "hash_law env" "closed i (my_store y)"
  shows "closed i (my_store z) \<and> (\<exists>new. my_sent z = my_sent y @ new \<and> i \<notin> fst ` set new)"
  using assms(1)
proof (induction rule: rtranclp_induct)
  case (step u z)
  obtain new where u: "closed i (my_store u)" "my_sent u = my_sent y @ new" "i \<notin> fst ` set new" using step.IH by blast
  have "mon_system_ok env u" using run_evolves [OF step(1) assms(2,3)] by blast
  from step_closed [OF step(2) this assms(3) u(1)] obtain more where
    z: "closed i (my_store z)" "my_sent z = my_sent u @ more" "i \<notin> fst ` set more" by blast
  then show ?case using u by (intro conjI exI [of _ "new @ more"]) auto
qed (simp add: assms(4))

section \<open>Retention\<close>

definition held :: "mon_store \<Rightarrow> utext \<Rightarrow> (candidate \<Rightarrow> bool) \<Rightarrow> utext set" where
  "held s i P = {k. \<exists>c. cand s k = Some c \<and> ca_sub c = i \<and> P c}"

abbreviation "anyone \<equiv> (\<lambda>c :: candidate. True)"
abbreviation "pending \<equiv> (\<lambda>c. ca_state c = CaPending)"

definition cands_within :: "mon_env \<Rightarrow> mon_store \<Rightarrow> bool" where
  "cands_within env s \<longleftrightarrow> (\<forall>i. int (card (held s i anyone)) \<le> me_retained env \<and> int (card (held s i pending)) \<le> me_pending env)"

definition listed :: "mon_env \<Rightarrow> mon_store \<Rightarrow> bool" where
  "listed env s \<longleftrightarrow> (\<forall>k r. kv_get (ms_jobs s) k = Some r \<longrightarrow>
     (\<exists>i. jr_id r = monitor_key i \<and> (\<forall>a \<in> set (jr_log r). candidate_id env i a \<in> held s i anyone)))"

lemma held_finite: "finite (held s i P)"
proof (rule finite_subset)
  show "held s i P \<subseteq> dom (map_of (ms_cands s))" by (auto simp: held_def kv_get_def)
qed (rule finite_dom_map_of)

lemma held_count: "mon_ok env s \<Longrightarrow> card (held s i P) = length (filter P (candidates env' s i))"
proof -
  assume ok: "mon_ok env s"
  have "held s i P = ca_id ` set (filter P (candidates env' s i))"
    using candidates_iff [OF ok, of _ env' i] mon_okD(7) [OF ok] by (auto simp: held_def image_iff)
  moreover have "distinct (map ca_id (filter P (candidates env' s i)))"
    by (rule distinct_map_filter [OF candidates_distinct [OF ok]])
  ultimately show ?thesis using distinct_card by (metis length_map set_map)
qed

lemma calm_held: "calm s s' \<Longrightarrow> held s' i anyone \<subseteq> held s i anyone \<and> held s' i pending \<subseteq> held s i pending"
  unfolding calm_def no_new_def held_def by fast

lemma calm_within: "calm s s' \<Longrightarrow> cands_within env s \<Longrightarrow> cands_within env s'"
proof -
  assume c: "calm s s'" and w: "cands_within env s"
  have "card (held s' i anyone) \<le> card (held s i anyone)" "card (held s' i pending) \<le> card (held s i pending)" for i
    using calm_held [OF c] by (simp_all add: card_mono held_finite)
  then show ?thesis using w unfolding cands_within_def by (meson of_nat_le_iff order_trans)
qed

lemma held_keep: "store_evolves X Y s s' \<Longrightarrow> held s i anyone \<subseteq> held s' i anyone"
  unfolding held_def store_evolves_def cands_keep_def keeps_def by (auto dest!: rows_keepD)

lemma calm_listed: "calm s s' \<Longrightarrow> store_evolves X Y s s' \<Longrightarrow> listed env s \<Longrightarrow> listed env s'"
proof -
  assume c: "calm s s'" and e: "store_evolves X Y s s'" and l: "listed env s"
  have "\<exists>i. jr_id r' = monitor_key i \<and> (\<forall>a \<in> set (jr_log r'). candidate_id env i a \<in> held s' i anyone)"
    if r': "kv_get (ms_jobs s') k = Some r'" for k r'
  proof -
    obtain r where r: "kv_get (ms_jobs s) k = Some r" "jr_id r = jr_id r'" "jr_log r = jr_log r'" using c r' unfolding calm_def by blast
    then show ?thesis using l held_keep [OF e] unfolding listed_def by (metis subsetD)
  qed
  then show ?thesis unfolding listed_def by blast
qed

text \<open>What a collection adds.\<close>

definition fits :: "bool \<Rightarrow> (candidate \<Rightarrow> bool) \<Rightarrow> bool" where
  "fits baseline P \<longleftrightarrow> (\<exists>c. P c \<and> ca_state c = (if baseline then CaBaseline else CaPending))"

lemma keep_alert_held:
  assumes "keep_alert env sub baseline cap a s = Inr s'"
  shows "held s' j P \<subseteq> held s j P \<union> (if j = sub \<and> fits baseline P then {candidate_id env sub a} else {})"
proof -
  obtain c t where s': "s' = put_cand env c t" and t: "ms_cands t = ms_cands s"
    and c: "ca_id c = candidate_id env sub a" "ca_sub c = sub" "ca_state c = (if baseline then CaBaseline else CaPending)"
    using keep_alert_cases [OF assms] by metis
  have "k \<in> held s j P \<or> (j = sub \<and> k = candidate_id env sub a \<and> P c)" if "k \<in> held s' j P" for k
    using that t c(1,2) by (cases "k = ca_id c") (auto simp: s' held_def kv_get_put)
  moreover have "P c \<Longrightarrow> fits baseline P" using c(3) by (auto simp: fits_def)
  ultimately show ?thesis by auto
qed

lemma keep_alerts_held:
  "keep_alerts env sub baseline cap as s = Inr s' \<Longrightarrow>
   held s' j P \<subseteq> held s j P \<union> (if j = sub \<and> fits baseline P then candidate_id env sub ` set as else {})"
proof (induction as arbitrary: s)
  case (Cons a as)
  obtain t where t: "keep_alert env sub baseline cap a s = Inr t" "keep_alerts env sub baseline cap as t = Inr s'"
    using Cons.prems by (auto simp: rbind_eq_Inr)
  show ?case using keep_alert_held [OF t(1), of j P] Cons.IH [OF t(2)] by (cases "j = sub \<and> fits baseline P") auto
qed simp

lemma card_added: "A \<subseteq> B \<union> f ` set xs \<Longrightarrow> finite B \<Longrightarrow> card A \<le> card B + length xs"
proof -
  assume a: "A \<subseteq> B \<union> f ` set xs" and b: "finite B"
  have "card A \<le> card (B \<union> f ` set xs)" using a b by (simp add: card_mono)
  also have "\<dots> \<le> card B + card (f ` set xs)" by (rule card_Un_le)
  also have "\<dots> \<le> card B + length xs" using card_length [of "map f xs"] by simp
  finally show ?thesis .
qed

lemma saves_within:
  assumes "mon_ok env s" "cands_within env s" "save_collection env ctx i baseline cap s r v = Inr (True, s')"
  shows "cands_within env s'"
proof -
  let ?added = "new_alerts env s i r"
  obtain t where cap: "capacity_ok env s i baseline ?added" and t: "keep_alerts env i baseline cap ?added s = Inr t" and
      s': "s' = t\<lparr>ms_jobs := kv_put (me_ix env) (row_key (bi_task (jr_binding r)) (jr_id r)) r (ms_jobs t)\<rparr>"
    using save_collection_cases [OF assms(3)] by metis
  have same: "held s' = held t" by (simp add: s' held_def fun_eq_iff)
  note sub = keep_alerts_held [OF t]
  have "int (card (held t j anyone)) \<le> me_retained env \<and> int (card (held t j pending)) \<le> me_pending env" for j
  proof (cases "j = i")
    case False
    have "held t j anyone \<subseteq> held s j anyone" "held t j pending \<subseteq> held s j pending"
      using sub [of j anyone] sub [of j pending] False by simp_all
    then have "card (held t j anyone) \<le> card (held s j anyone)" "card (held t j pending) \<le> card (held s j pending)"
      by (simp_all add: card_mono held_finite)
    then show ?thesis using assms(2) unfolding cands_within_def by (meson of_nat_le_iff order_trans)
  next
    case True
    have "held t i anyone \<subseteq> held s i anyone \<union> candidate_id env i ` set ?added" using sub [of i anyone] by (auto split: if_splits)
    then have all: "card (held t i anyone) \<le> length (candidates env s i) + length ?added"
      using card_added [OF _ held_finite] held_count [OF assms(1), of i anyone env] by (metis filter_True)
    have "int (card (held t i pending)) \<le> me_pending env"
    proof (cases baseline)
      case b: True
      then have "\<not> fits baseline pending" by (auto simp: fits_def)
      then have "held t i pending \<subseteq> held s i pending" using sub [of i pending] by simp
      then have "card (held t i pending) \<le> card (held s i pending)" by (simp add: card_mono held_finite)
      then show ?thesis using assms(2) unfolding cands_within_def by (meson of_nat_le_iff order_trans)
    next
      case b: False
      have "held t i pending \<subseteq> held s i pending \<union> candidate_id env i ` set ?added" using sub [of i pending] by (auto split: if_splits)
      then have "card (held t i pending) \<le> length (filter pending (candidates env s i)) + length ?added"
        using card_added [OF _ held_finite] held_count [OF assms(1), of i pending env] by metis
      then show ?thesis using cap b by (simp add: capacity_ok_def Let_def)
    qed
    then show ?thesis using cap all True by (simp add: capacity_ok_def Let_def)
  qed
  then show ?thesis by (simp add: cands_within_def same)
qed

lemma saves_listed:
  assumes "mon_ok env s" "hash_law env" "listed env s" "save_collection env ctx i baseline cap s r v = Inr (True, s')" "jr_id r = monitor_key i"
  shows "listed env s'"
proof -
  let ?added = "new_alerts env s i r"
  obtain t where t: "keep_alerts env i baseline cap ?added s = Inr t" and
      s': "s' = t\<lparr>ms_jobs := kv_put (me_ix env) (row_key (bi_task (jr_binding r)) (jr_id r)) r (ms_jobs t)\<rparr>"
    using save_collection_cases [OF assms(4)] by metis
  have kept: "mon_step_ok env {} {} s t" "\<forall>a \<in> set ?added. candidate_id env i a \<in> held t i anyone" "ms_jobs t = ms_jobs s"
    using keep_alerts_ok [OF assms(1) t] new_alerts_unseen [OF assms(1,2)] by (auto simp: held_def)
  then have ev: "store_evolves {} {} s t" by (simp add: mon_step_ok_def)
  then have keep: "held s j anyone \<subseteq> held t j anyone" for j by (rule held_keep)
  have same: "held s' = held t" by (simp add: s' held_def fun_eq_iff)
  have new: "candidate_id env i a \<in> held t i anyone" if "a \<in> set (jr_log r)" for a
  proof (cases "a \<in> set ?added")
    case False
    with that have "candidate_id env i a \<in> ca_id ` set (candidates env s i)" by (simp add: new_alerts_def)
    then obtain c where "c \<in> set (candidates env s i)" "ca_id c = candidate_id env i a" by auto
    then have "candidate_id env i a \<in> held s i anyone" using candidates_iff [OF assms(1)] by (auto simp: held_def)
    then show ?thesis using keep by blast
  qed (use kept in blast)
  have "\<exists>j. jr_id q = monitor_key j \<and> (\<forall>a \<in> set (jr_log q). candidate_id env j a \<in> held t j anyone)"
    if q: "kv_get (ms_jobs s') k = Some q" for k q
  proof -
    have "q = r \<or> kv_get (ms_jobs s) k = Some q" using q kept(3) by (auto simp: s' kv_get_put split: if_splits)
    then show ?thesis using assms(3,5) new keep unfolding listed_def by (metis subsetD)
  qed
  then show ?thesis by (simp add: listed_def same)
qed

lemma run_retained:
  assumes "mon_run env mon_start y" "hash_law env" "0 \<le> me_retained env" "0 \<le> me_pending env"
  shows "cands_within env (my_store y) \<and> listed env (my_store y)"
  using assms(1)
proof (induction rule: rtranclp_induct)
  case base
  show ?case using assms(3,4) by (simp add: cands_within_def listed_def held_def mon_start_def empty_store_def kv_get_def)
next
  case (step u z)
  have sys: "mon_system_ok env u" by (rule mon_run_ok [OF step(1) assms(2)])
  have ok: "mon_ok env (my_store u)" using sys by (simp add: mon_system_ok_def)
  have ev: "store_evolves UNIV UNIV (my_store u) (my_store z)" using step_keeps_system [OF step(2) sys assms(2)] by blast
  show ?case
    using step_calm [OF step(2) sys] step.IH calm_within calm_listed [OF _ ev] saves_within [OF ok] saves_listed [OF ok assms(2)]
    unfolding saves_def by blast
qed

end
