(* ===== verification/MonitorClaims.thy ===== *)
theory MonitorClaims
  imports MonitorHold "HOL-Library.Code_Target_Nat"
begin

text \<open>
  The properties of continuous monitors, over every interleaving of the coordinator's operations, of
  abandoned operations, of the host's answers and of restarts; with a concrete run for the witnesses.
\<close>

section \<open>A concrete run\<close>

definition demo_mon :: mon_env where
  "demo_mon = \<lparr>me_job = \<lparr>je_sha = (\<lambda>t. t), je_lower = (\<lambda>t. t), je_collate = (\<lambda>_ _. 0), je_compare = (\<lambda>_ _. 0),
       je_date = (\<lambda>_. Some 0), je_iso = (\<lambda>_. [])\<rparr>,
     me_ix = length, me_pending = 1000, me_retained = 10000, me_budget = 524288, me_digest = False, me_manage = False, me_owner = False\<rparr>"

definition demo_mon_ctx :: tool_context where
  "demo_mon_ctx = \<lparr>tc_task = js ''t'', tc_revision = 1, tc_grant = js ''g'', tc_grant_revision = 1, tc_run = js ''r''\<rparr>"

definition demo_mon_scope :: task_binding where
  "demo_mon_scope = \<lparr>bi_task = js ''t'', bi_intent = 1, bi_grant = js ''g'', bi_grant_revision = 1\<rparr>"

definition demo_mon_spec :: mon_spec where
  "demo_mon_spec = \<lparr>mp_key = js ''k'', mp_name = js ''n'', mp_sources = [\<lparr>so_id = js ''s'', so_kind = js ''web'', so_resource = js ''w''\<rparr>],
     mp_criteria = js ''c'', mp_schedule = js ''daily'', mp_page = None, mp_pages = None, mp_alerts = None, mp_tracked = None, mp_mode = None\<rparr>"

definition demo_mon_id :: utext where
  "demo_mon_id = subscription_id demo_mon demo_mon_scope demo_mon_spec"

definition demo_excerpt :: excerpt_meta where
  "demo_excerpt = \<lparr>em_limit = 9, em_original = 1, em_returned = 1, em_omitted = 0, em_truncated = False\<rparr>"

definition demo_mon_alert :: "string \<Rightarrow> monitor_alert" where
  "demo_mon_alert n = \<lparr>al_id = js n, al_key = JNull, al_job = monitor_key demo_mon_id, al_revision = 1, al_source = js ''s'', al_resource = js ''w'',
     al_item = js ''i'', al_kind = js ''new'', al_title = js ''h'', al_text = js ''x'', al_observed = js ''o'', al_rank = 0,
     al_excerpts = (demo_excerpt, demo_excerpt)\<rparr>"

definition demo_mon_job :: job_record where
  "demo_mon_job = \<lparr>jr_id = monitor_key demo_mon_id, jr_binding = demo_mon_scope, jr_name = js ''n'', jr_sources = mp_sources demo_mon_spec,
     jr_filter = \<lparr>fi_include = [], fi_exclude = []\<rparr>, jr_revision = 1, jr_version = 1, jr_active = True, jr_created = js ''o'', jr_updated = js ''o'',
     jr_limits = \<lparr>li_page = 10, li_pages = 1, li_alerts = 10, li_tracked = 10\<rparr>, jr_states = [], jr_next = 2,
     jr_log = [demo_mon_alert ''a'', demo_mon_alert ''b'']\<rparr>"

definition demo_mon_write :: job_write where
  "demo_mon_write = \<lparr>wr_record = demo_mon_job, wr_expected = None, wr_sources = None, wr_context = demo_mon_ctx, wr_conflict = JobStorageConflict\<rparr>"

definition demo_mon_call :: job_call where
  "demo_mon_call = \<lparr>jc_now = js ''o'', jc_valid = None\<rparr>"

definition demo_active :: mon_store where
  "demo_active =
     (let s1 = snd (projr (subscribe_enter demo_mon (js ''o'') False demo_mon_scope demo_mon_spec empty_store));
          s2 = snd (projr (schedule_enter demo_mon demo_mon_scope demo_mon_id s1));
          s3 = snd (projr (schedule_created demo_mon demo_mon_id \<lparr>sd_id = js ''z'', sd_job = Some (js ''j''), sd_state = js ''active''\<rparr> s2)) in
      snd (projr (activate demo_mon (the (subm s3 demo_mon_id)) demo_mon_id s3)))"

definition demo_mon_collected :: mon_store where
  "demo_mon_collected = snd (commit_collection demo_mon demo_mon_ctx demo_mon_id False [] demo_mon_call demo_mon_write demo_active)"

definition demo_cand :: "string \<Rightarrow> utext" where
  "demo_cand n = candidate_id demo_mon demo_mon_id (demo_mon_alert n)"

definition demo_decisions :: "decision list" where
  "demo_decisions = [\<lparr>de_candidate = demo_cand ''a'', de_match = True, de_reason = js ''y''\<rparr>,
     \<lparr>de_candidate = demo_cand ''b'', de_match = False, de_reason = js ''n''\<rparr>]"

definition demo_loaded :: subscription where
  "demo_loaded = projr (load_end demo_mon_collected demo_mon_ctx demo_mon_id False)"

definition demo_decided :: mon_store where
  "demo_decided = snd (projr (decide demo_mon (js ''o'') demo_mon_ctx demo_loaded demo_decisions demo_mon_collected))"

definition demo_mon_delivery :: "candidate option \<times> mon_store" where
  "demo_mon_delivery = projr (deliver_begin demo_mon demo_mon_ctx (su_id demo_loaded) (demo_cand ''a'') demo_decided)"

definition demo_deciding :: mon_system where
  "demo_deciding = mon_start\<lparr>my_store := demo_decided, my_loaded := [demo_loaded]\<rparr>"

definition demo_delivering :: mon_system where
  "demo_delivering = mon_start\<lparr>my_store := snd demo_mon_delivery, my_loaded := [demo_loaded], my_alerts := [the (fst demo_mon_delivery)],
     my_sent := [(su_id demo_loaded, the (effect_of (the (fst demo_mon_delivery))), [demo_cand ''a''])]\<rparr>"

lemma projr_pair: "\<not> isl x \<Longrightarrow> x = Inr (fst (projr x), snd (projr x))"
  by (cases x) auto

lemma quiet_run: "mon_run env mon_start y \<Longrightarrow> quiet env (my_store y) s \<Longrightarrow> mon_run env mon_start (y\<lparr>my_store := s\<rparr>)"
  by (rule rtranclp.rtrancl_into_rtrancl) (auto intro: mon_step.quiet)

lemma demo_hash: "hash_law demo_mon"
  by (simp add: hash_law_def demo_mon_def inj_def)

lemma demo_bounds: "monitor_bounds None None None = Inr (me_pending demo_mon, me_retained demo_mon, me_budget demo_mon)"
  by code_simp

lemma demo_active_run: "mon_run demo_mon mon_start (mon_start\<lparr>my_store := demo_active\<rparr>)"
proof -
  define s1 where "s1 = snd (projr (subscribe_enter demo_mon (js ''o'') False demo_mon_scope demo_mon_spec empty_store))"
  define s2 where "s2 = snd (projr (schedule_enter demo_mon demo_mon_scope demo_mon_id s1))"
  define s3 where "s3 = snd (projr (schedule_created demo_mon demo_mon_id \<lparr>sd_id = js ''z'', sd_job = Some (js ''j''), sd_state = js ''active''\<rparr> s2))"
  have "\<not> isl (subscribe_enter demo_mon (js ''o'') False demo_mon_scope demo_mon_spec empty_store)" by code_simp
  from projr_pair [OF this] have q1: "quiet demo_mon empty_store s1" unfolding s1_def by (rule quiet.subscribe)
  have "\<not> isl (schedule_enter demo_mon demo_mon_scope demo_mon_id s1)" unfolding s1_def by code_simp
  from projr_pair [OF this] have q2: "quiet demo_mon s1 s2" unfolding s2_def by (rule quiet.schedule)
  have "\<not> isl (schedule_created demo_mon demo_mon_id \<lparr>sd_id = js ''z'', sd_job = Some (js ''j''), sd_state = js ''active''\<rparr> s2)"
    unfolding s2_def s1_def by code_simp
  from projr_pair [OF this] have q3: "quiet demo_mon s2 s3" unfolding s3_def by (rule quiet.created)
  have "\<not> isl (activate demo_mon (the (subm s3 demo_mon_id)) demo_mon_id s3)" unfolding s3_def s2_def s1_def by code_simp
  from projr_pair [OF this] have q4: "quiet demo_mon s3 demo_active"
    unfolding demo_active_def Let_def s1_def [symmetric] s2_def [symmetric] s3_def [symmetric] by (rule quiet.activated)
  have "mon_run demo_mon mon_start (mon_start\<lparr>my_store := s1\<rparr>)" using quiet_run [OF rtranclp.rtrancl_refl] q1 by (simp add: mon_start_def)
  then show ?thesis using q2 q3 q4 by (fastforce dest: quiet_run)
qed

lemma demo_mon_collected_run: "mon_run demo_mon mon_start (mon_start\<lparr>my_store := demo_mon_collected\<rparr>)"
proof -
  have "\<not> isl (fst (commit_collection demo_mon demo_mon_ctx demo_mon_id False [] demo_mon_call demo_mon_write demo_active))" by code_simp
  then obtain r where "commit_collection demo_mon demo_mon_ctx demo_mon_id False [] demo_mon_call demo_mon_write demo_active = (Inr r, demo_mon_collected)"
    unfolding demo_mon_collected_def by (metis prod.collapse sum.collapse(2))
  then have "quiet demo_mon demo_active demo_mon_collected"
    by (rule quiet.commit) (simp add: demo_mon_write_def demo_mon_job_def)
  then show ?thesis using quiet_run [OF demo_active_run] by simp
qed

lemma demo_deciding_run: "mon_run demo_mon mon_start demo_deciding"
proof -
  have "\<not> isl (load_end demo_mon_collected demo_mon_ctx demo_mon_id False)" by code_simp
  then have "load_end demo_mon_collected demo_mon_ctx demo_mon_id False = Inr demo_loaded" unfolding demo_loaded_def by (simp add: sum.collapse(2))
  then have "mon_step demo_mon (mon_start\<lparr>my_store := demo_mon_collected\<rparr>) (mon_start\<lparr>my_store := demo_mon_collected, my_loaded := [demo_loaded]\<rparr>)"
    using mon_step.load [of "mon_start\<lparr>my_store := demo_mon_collected\<rparr>"] by (simp add: mon_start_def)
  then have run: "mon_run demo_mon mon_start (mon_start\<lparr>my_store := demo_mon_collected, my_loaded := [demo_loaded]\<rparr>)"
    by (rule rtranclp.rtrancl_into_rtrancl [OF demo_mon_collected_run])
  have "\<not> isl (decide demo_mon (js ''o'') demo_mon_ctx demo_loaded demo_decisions demo_mon_collected)" by code_simp
  from projr_pair [OF this] obtain cs where
    "decide demo_mon (js ''o'') demo_mon_ctx demo_loaded demo_decisions demo_mon_collected = Inr (cs, demo_decided)"
    unfolding demo_decided_def by blast
  then have "mon_step demo_mon (mon_start\<lparr>my_store := demo_mon_collected, my_loaded := [demo_loaded]\<rparr>) demo_deciding"
    using mon_step.decide [of demo_loaded "mon_start\<lparr>my_store := demo_mon_collected, my_loaded := [demo_loaded]\<rparr>" demo_mon "js ''o''" demo_mon_ctx demo_decisions]
    by (simp add: demo_deciding_def mon_start_def)
  then show ?thesis by (rule rtranclp.rtrancl_into_rtrancl [OF run])
qed

lemma demo_delivering_step: "mon_step demo_mon demo_deciding demo_delivering"
proof -
  have d: "\<not> isl (deliver_begin demo_mon demo_mon_ctx (su_id demo_loaded) (demo_cand ''a'') demo_decided)" "fst demo_mon_delivery \<noteq> None"
    and m: "\<not> digest_mode (su_spec demo_loaded)" and c: "cand demo_decided (demo_cand ''a'') \<noteq> None"
    "map_option ca_sub (cand demo_decided (demo_cand ''a'')) = Some (su_id demo_loaded)" by code_simp+
  have "deliver_begin demo_mon demo_mon_ctx (su_id demo_loaded) (demo_cand ''a'') demo_decided = Inr (Some (the (fst demo_mon_delivery)), snd demo_mon_delivery)"
    using projr_pair [OF d(1)] d(2) unfolding demo_mon_delivery_def by auto
  then show ?thesis
    using mon_step.deliver [of demo_loaded demo_deciding "demo_cand ''a''" "the (cand demo_decided (demo_cand ''a''))" demo_mon demo_mon_ctx] m c
    by (auto simp: demo_deciding_def demo_delivering_def mon_start_def)
qed

section \<open>Properties\<close>

text \<open>
  C37 Over every run of the monitor coordinator, with operations interleaved, abandoned, answered in
  any way and interrupted by restarts, no candidate is handed to the host twice, neither as an alert
  nor in a digest; each candidate that was handed over belongs to that monitor, was judged a match,
  carries the effect identifier it was sent under, and its delivery is past preparation for good.
\<close>
theorem monitor_delivers_once:
  assumes "hash_law env" "mon_run env mon_start y"
  shows "distinct (sent_ids y) \<and> (\<forall>(j, e, is) \<in> set (my_sent y). \<forall>i \<in> set is.
    \<exists>c v d. kv_get (ms_cands (my_store y)) i = Some c \<and> ca_sub c = j \<and> ca_decision c = Some v \<and> ve_match v \<and>
      ca_delivery c = Some d \<and> md_effect d = e \<and> md_state d \<noteq> MPrepared \<and> md_state d \<noteq> MCancelled)"
proof -
  have "mon_system_ok env y" by (rule mon_run_ok [OF assms(2,1)])
  moreover have "\<exists>c v d. kv_get (ms_cands (my_store y)) i = Some c \<and> ca_sub c = j \<and> ca_decision c = Some v \<and> ve_match v \<and>
      ca_delivery c = Some d \<and> md_effect d = e \<and> md_state d \<noteq> MPrepared \<and> md_state d \<noteq> MCancelled"
    if "delivered_as (my_store y) j e i" for i j e
    using that by (auto simp: delivered_as_def matched_def spent_def effect_of_def split: option.splits)
  ultimately show ?thesis unfolding mon_system_ok_def by fast
qed

theorem monitor_delivers_once_witness:
  "distinct (sent_ids demo_delivering) \<and> sent_ids demo_delivering = [demo_cand ''a'']"
proof -
  have "mon_run demo_mon mon_start demo_delivering" by (rule rtranclp.rtrancl_into_rtrancl [OF demo_deciding_run demo_delivering_step])
  moreover have "sent_ids demo_delivering = [demo_cand ''a'']" by (simp add: sent_ids_def demo_delivering_def)
  ultimately show ?thesis using monitor_delivers_once [OF demo_hash] by blast
qed

text \<open>
  C38 A verdict is final: through every further run, with restarts and withdrawals, the candidate keeps
  the verdict it was given, a later decision on it is refused unless it repeats the verdict, which then
  changes nothing, and a candidate judged not to match was read to the end of its retained source, is
  never handed to the host and gets no delivery record.
\<close>
theorem monitor_verdict_final:
  assumes "hash_law env" "mon_run env mon_start y" "kv_get (ms_cands (my_store y)) k = Some c" "ca_decision c = Some v"
    and "mon_run env y z"
  shows "\<exists>c'. kv_get (ms_cands (my_store z)) k = Some c' \<and> ca_decision c' = Some v \<and>
    (decide_one env now sub \<lparr>de_candidate = k, de_match = m, de_reason = r\<rparr> (my_store z) = Inr (x, s) \<longrightarrow>
      m = ve_match v \<and> r = ve_reason v \<and> x = c' \<and> s = my_store z) \<and>
    (\<not> ve_match v \<longrightarrow> ca_delivery c' = None \<and> k \<notin> set (sent_ids z) \<and>
      (\<forall>f. ca_full c' = Some f \<longrightarrow> fs_length f \<le> fs_read f))"
proof -
  have z: "mon_system_ok env z" and ev: "store_evolves UNIV UNIV (my_store y) (my_store z)"
    using run_evolves [OF assms(5) mon_run_ok [OF assms(2,1)] assms(1)] by blast+
  obtain c' where c': "kv_get (ms_cands (my_store z)) k = Some c'" "keeps c c'"
    using ev assms(3) unfolding store_evolves_def cands_keep_def by (blast dest: rows_keepD)
  have v: "ca_decision c' = Some v" using c'(2) assms(4) by (simp add: keeps_def)
  have good: "cand_good env c'" using z c'(1) mon_okD(4) unfolding mon_system_ok_def by blast
  have "m = ve_match v \<and> r = ve_reason v \<and> x = c' \<and> s = my_store z"
    if "decide_one env now sub \<lparr>de_candidate = k, de_match = m, de_reason = r\<rparr> (my_store z) = Inr (x, s)"
    using that c'(1) v by (auto simp: decide_one_def rbind_eq_Inr ensure_eq_Inr)
  moreover have "k \<notin> set (sent_ids z)" if "\<not> ve_match v"
    using z c'(1) v that unfolding mon_system_ok_def sent_ids_def by (fastforce simp: delivered_as_def matched_def)
  moreover have "ca_delivery c' = None" if "\<not> ve_match v" using good v that by (auto simp: cand_good_def matched_def)
  ultimately show ?thesis using c'(1) v good by (auto simp: cand_good_def)
qed

theorem monitor_verdict_final_witness:
  "\<exists>c v. kv_get (ms_cands (my_store demo_delivering)) (demo_cand ''b'') = Some c \<and> ca_decision c = Some v \<and> \<not> ve_match v \<and>
     demo_cand ''b'' \<notin> set (sent_ids demo_delivering)"
proof -
  have "map_option (\<lambda>c. map_option ve_match (ca_decision c)) (kv_get (ms_cands demo_decided) (demo_cand ''b'')) = Some (Some False)"
    by code_simp
  then obtain c v where c: "kv_get (ms_cands (my_store demo_deciding)) (demo_cand ''b'') = Some c" "ca_decision c = Some v" "\<not> ve_match v"
    by (auto simp: demo_deciding_def)
  have "mon_run demo_mon demo_deciding demo_delivering" using demo_delivering_step by blast
  from monitor_verdict_final [OF demo_hash demo_deciding_run c(1,2) this] c(3) show ?thesis by blast
qed

text \<open>
  C39 A withdrawn monitor is silent for good: once the withdrawal has been stored, whatever runs on,
  was begun before or is begun again, the monitor stays cancelling or cancelled, nothing of it is handed
  to the host any more, and no collection of it is saved.
\<close>
theorem withdrawn_monitor_silent:
  assumes "hash_law env" "mon_run env mon_start y" "withdraw env now i (my_store y) = Inr (sub, s)" "mon_run env (y\<lparr>my_store := s\<rparr>) z"
  shows "\<exists>cur new. kv_get (ms_subs (my_store z)) i = Some cur \<and> su_state cur \<in> {SubCancelling, SubCancelled} \<and>
    my_sent z = my_sent y @ new \<and> i \<notin> fst ` set new \<and>
    save_collection env ctx i baseline cap (my_store z) r version = Inl MonWithdrawn"
proof -
  have "mon_step env y (y\<lparr>my_store := s\<rparr>)" using assms(3) by (auto intro: mon_step.quiet quiet.withdrawn)
  moreover have y: "mon_system_ok env y" by (rule mon_run_ok [OF assms(2,1)])
  ultimately have "mon_system_ok env (y\<lparr>my_store := s\<rparr>)" using step_keeps_system assms(1) by blast
  moreover have "closed i (my_store (y\<lparr>my_store := s\<rparr>))" using withdraw_closes [OF _ assms(3)] y by (simp add: mon_system_ok_def)
  ultimately have "closed i (my_store z) \<and> (\<exists>new. my_sent z = my_sent (y\<lparr>my_store := s\<rparr>) @ new \<and> i \<notin> fst ` set new)"
    using run_closed [OF assms(4) _ assms(1)] by blast
  then show ?thesis using closed_unsaved [of i "my_store z" env ctx baseline cap r version]
    by (auto simp: closed_def split: option.splits)
qed

theorem withdrawn_monitor_silent_witness:
  "\<exists>sub s. withdraw demo_mon (js ''o'') demo_mon_id demo_decided = Inr (sub, s) \<and>
     save_collection demo_mon demo_mon_ctx demo_mon_id False [] s demo_mon_job (Some 1) = Inl MonWithdrawn"
proof -
  have "\<not> isl (withdraw demo_mon (js ''o'') demo_mon_id (my_store demo_deciding))" by code_simp
  from projr_pair [OF this] obtain sub s where w: "withdraw demo_mon (js ''o'') demo_mon_id (my_store demo_deciding) = Inr (sub, s)" by blast
  from withdrawn_monitor_silent [OF demo_hash demo_deciding_run w rtranclp.rtrancl_refl, of demo_mon_ctx False "[]" demo_mon_job "Some 1"]
  have "save_collection demo_mon demo_mon_ctx demo_mon_id False [] s demo_mon_job (Some 1) = Inl MonWithdrawn" by auto
  then show ?thesis using w by (auto simp: demo_deciding_def)
qed

text \<open>
  C40 No alert is lost between a monitor's job record and its candidates, and retention is bounded:
  in every state of a run each alert that a stored job record keeps is a candidate of that record's
  monitor, and no monitor has more candidates, or more pending ones, than the bounds accepted at start.
\<close>
theorem monitor_alerts_retained:
  assumes "hash_law env" "monitor_bounds p q b = Inr (me_pending env, me_retained env, me_budget env)" "mon_run env mon_start y"
    and "kv_get (ms_jobs (my_store y)) k = Some r" "a \<in> set (jr_log r)"
  shows "(\<exists>i. jr_id r = monitor_key i \<and> candidate_id env i a \<in> ca_id ` set (candidates env (my_store y) i)) \<and>
    int (length (candidates env (my_store y) j)) \<le> me_retained env \<and>
    int (length (pending_candidates env (my_store y) j)) \<le> me_pending env"
proof -
  have ok: "mon_ok env (my_store y)" using mon_run_ok [OF assms(3,1)] by (simp add: mon_system_ok_def)
  have "0 \<le> me_pending env" "0 \<le> me_retained env" using assms(2) by (auto simp: monitor_bounds_def Let_def ensure_eq_Inr)
  then have w: "cands_within env (my_store y)" and l: "listed env (my_store y)" using run_retained [OF assms(3,1)] by blast+
  obtain i where i: "jr_id r = monitor_key i" "candidate_id env i a \<in> held (my_store y) i anyone"
    using l assms(4,5) unfolding listed_def by blast
  then obtain c where "cand (my_store y) (candidate_id env i a) = Some c" "ca_sub c = i" by (auto simp: held_def)
  then have "c \<in> set (candidates env (my_store y) i)" "ca_id c = candidate_id env i a"
    using candidates_iff [OF ok] mon_okD(7) [OF ok] by metis+
  then have "candidate_id env i a \<in> ca_id ` set (candidates env (my_store y) i)" by (metis imageI)
  then show ?thesis
    using i(1) w held_count [OF ok, of j anyone env] held_count [OF ok, of j pending env] unfolding cands_within_def pending_candidates_def
    by (metis filter_True)
qed

theorem monitor_alerts_retained_witness:
  "candidate_id demo_mon demo_mon_id (demo_mon_alert ''b'') \<in> ca_id ` set (candidates demo_mon demo_mon_collected demo_mon_id) \<and>
   int (length (candidates demo_mon demo_mon_collected demo_mon_id)) \<le> 10000"
proof -
  have job: "kv_get (ms_jobs demo_mon_collected) (row_key (js ''t'') (monitor_key demo_mon_id)) = Some demo_mon_job" by code_simp
  have a: "demo_mon_alert ''b'' \<in> set (jr_log demo_mon_job)" by (simp add: demo_mon_job_def)
  have key: "monitor_key i = monitor_key demo_mon_id \<Longrightarrow> i = demo_mon_id" for i by (simp add: monitor_key_def)
  have stored: "kv_get (ms_jobs (my_store (mon_start\<lparr>my_store := demo_mon_collected\<rparr>))) (row_key (js ''t'') (monitor_key demo_mon_id)) = Some demo_mon_job"
    using job by simp
  have id: "jr_id demo_mon_job = monitor_key demo_mon_id" "me_retained demo_mon = 10000" by (simp_all add: demo_mon_job_def demo_mon_def)
  note claim = monitor_alerts_retained [OF demo_hash demo_bounds demo_mon_collected_run stored a, of demo_mon_id]
  obtain i where "jr_id demo_mon_job = monitor_key i"
      "candidate_id demo_mon i (demo_mon_alert ''b'') \<in> ca_id ` set (candidates demo_mon demo_mon_collected i)"
    using claim by auto
  moreover have "i = demo_mon_id" using key id(1) calculation(1) by metis
  ultimately show ?thesis using claim id(2) by simp
qed

end
