(* ===== verification/Spec2Isabelle.thy ===== *)
theory Spec2Isabelle
  imports Prelude StableSort JsText Json Store Contracts Broker BrokerProps CommandText
    AgentState Agent AgentProps AgentGate AgentReply Guard GuardProps Config Ingest IngestProps
    JsonShape AlertOutbox AlertProps AlertSize ObservedPage ObserverState ObserverBack ObserverProps ObserverRun
    Utf8 ProcessContract ProcessProps ProcessBytes ProcessSafe
    Jobs JobService JobProps JobRun JobClaims JobSafe JobCapacity JobPoll TaskMemory
    TextFormat TextAccept TextPieces TextRender
    Monitors MonitorControl MonitorDelivery MonitorProps MonitorSteps MonitorSends MonitorRun MonitorKeep MonitorHold MonitorClaims
begin

text \<open>
  Verification library of Neurobro: a personal agent that its owner commands over Telegram, a
  read-only gateway to Telegram, and the contract of a native process runner. Everything is
  translated from the TypeScript under \<open>src/packages\<close>. The agent's controller turns owner messages
  into tasks with capability grants; the broker executes a task's effects under these grants;
  controller, broker and monitor jobs keep their records in one encrypted store. The gateway reads
  messages through a request guard, exports them, watches one community and sends alerts.

  \<^bold>\<open>Parts, theories and sources\<close>

  \<^item> Language and data. \<open>Prelude\<close>: results of fallible code as sums (\<open>Inl\<close> the error), with their
    elimination rules. \<open>JsText\<close>: strings as lists of UTF-16 code units. \<open>Json\<close>: JSON values, the text
    \<open>JSON.stringify\<close> gives them, canonical JSON and its unambiguity. \<open>JsonShape\<close>: the checks on
    untrusted values. \<open>Utf8\<close>: encoding and strict decoding. \<open>StableSort\<close>: sorting by a comparison function.
  \<^item> Encrypted store (\<open>personal-agent/src/core/store.ts\<close>), \<open>Store\<close>: tables of sealed rows under
    key-derived locations, transactions with savepoints.
  \<^item> Broker (\<open>core/broker.ts\<close>, \<open>owner-account.ts\<close>; records of \<open>contracts.ts\<close> in \<open>Contracts\<close>), \<open>Broker\<close> and
    \<open>BrokerProps\<close>: grants, tokens, effects, settlement and recovery.
  \<^item> Controller (\<open>core/controller.ts\<close>, \<open>authority-text.ts\<close>): \<open>CommandText\<close> reads owner text, \<open>AgentState\<close> and
    \<open>Agent\<close> hold the operations; \<open>AgentProps\<close> shows what cancellation and correction do to authority,
    \<open>AgentGate\<close> who commands, \<open>AgentReply\<close> what leaves the agent.
  \<^item> Monitor jobs and task memory (\<open>capabilities/jobs.ts\<close>, \<open>encryptedJobStore\<close> of \<open>app.ts\<close>): \<open>Jobs\<close> (records, checks,
    the page reducer), \<open>JobService\<close> (service, polling loop, stores), \<open>JobProps\<close> (the compare-and-swap
    contract, a locale interpreted on the three stores), \<open>JobRun\<close> (runs: alerts once), \<open>JobClaims\<close>
    (bounded evidence, sequences of pages, tombstones), \<open>JobSafe\<close>, \<open>JobCapacity\<close>, \<open>JobPoll\<close> and
    \<open>TaskMemory\<close> (their properties).
  \<^item> Continuous monitors (\<open>observation/monitors.ts\<close>): \<open>Monitors\<close> (records, subscription, collection into
    candidates), \<open>MonitorControl\<close> (the collection's answer, verdicts, reading), \<open>MonitorDelivery\<close> (alerts,
    digests, the owner's control, withdrawal, restart); \<open>MonitorProps\<close>, \<open>MonitorSteps\<close> and \<open>MonitorSends\<close> (the
    store's invariant and that each operation keeps it), \<open>MonitorRun\<close> (runs over the store and what is in
    flight), \<open>MonitorKeep\<close>, \<open>MonitorHold\<close> (retention, withdrawal) and \<open>MonitorClaims\<close> (the properties). They
    use the jobs' records and service over the coordinator's own store.
  \<^item> Request guard, configuration and ingestor (\<open>telegram-gateway/src\<close>: \<open>guardrails.ts\<close>, \<open>errors.ts\<close>,
    \<open>config.ts\<close>, \<open>ingestor.ts\<close>, \<open>jsonl-sink.ts\<close>, \<open>state-store.ts\<close>, \<open>types.ts\<close>): \<open>Guard\<close>, \<open>GuardProps\<close>,
    \<open>Config\<close>, \<open>Ingest\<close>, \<open>IngestProps\<close>.
  \<^item> Community alert outbox (\<open>standing-community-alert-outbox.ts\<close>): \<open>AlertOutbox\<close>, \<open>AlertProps\<close>,
    \<open>AlertSize\<close>.
  \<^item> Community observer (\<open>standing-observed-source-reader.ts\<close>, \<open>standing-community-observer-state.ts\<close>):
    \<open>ObservedPage\<close>, \<open>ObserverState\<close>, \<open>ObserverBack\<close>, \<open>ObserverProps\<close>, \<open>ObserverRun\<close>.
  \<^item> Telegram text format (\<open>telegram-text-format.ts\<close>): \<open>TextFormat\<close> (entities and their check, the repair of overlaps, the
    conversions, the Markdown renderer), \<open>TextAccept\<close> (what the check accepts, the round trip, exact
    repair), \<open>TextPieces\<close> (what the repair leaves of entities that nest), \<open>TextRender\<close> (what the renderer yields).
  \<^item> Process contract (\<open>rm0032-phase3-runner/src/contract.ts\<close>): \<open>ProcessContract\<close>, \<open>ProcessProps\<close>,
    \<open>ProcessBytes\<close>, \<open>ProcessSafe\<close>.

  \<^bold>\<open>How code is read\<close>

  Classes are records with one definition per method, in the code's order of checks; a thrown error
  is a value. An asynchronous operation is split where it awaits, and an inductive step relation
  interleaves the pieces: what is in flight is part of the state, and crashes and restarts are steps
  (\<open>BrokerProps\<close>, \<open>AgentProps\<close>, \<open>JobRun\<close>, \<open>TaskMemory\<close>, \<open>MonitorRun\<close>, \<open>AlertProps\<close>, \<open>ObserverRun\<close>). Times are
  milliseconds. JavaScript numbers are \<open>int\<close> with the tests for safe integers written out; they
  stay within the safe range wherever the code checks it. Fields that only
  record what happened (the guard's request log, the outbox's wire log, the material of an alert's
  digest) are called ghosts where they are declared.

  What is not code of the repository is a parameter: the primitives of node's crypto (their contract is
  the hypothesis \<open>crypto_laws\<close> of the store, collision freedom a hypothesis of the properties that
  need it), case mapping, collation and date functions, URL and path normalisation, the Telegram
  client, the engine and the executor, whose answers are inputs of the steps.

  \<^bold>\<open>What the lemmas show\<close>

  Store: transactions are atomic, what is written is read back. Broker and controller: an effect is
  dispatched at most once and only under a live grant that permits it; only the owner commands; a
  cancelled or corrected task loses its authority; deliveries keep their order; and two windows in
  which a verified effect or a cancellation is overwritten. Jobs: no alert is given out twice over any
  interleaving, evidence is bounded, a full page can be taken after a revision, a poll ends, deletions
  and removals are final; and a restoration alert that is lost. Monitors: a candidate
  is handed over at most once, a verdict is final, a withdrawn monitor stays silent, and every alert kept
  by a job is a candidate within the bounds. Gateway: budgets and stops are respected, retries end, a
  synchronisation exports exactly the messages after its cursor; and a page that stalls it for good.
  Outbox and observer: an alert is on the wire at most once, files always reopen, no row is passed
  over. Text format: the entity check is the pairwise condition it stands for, the repair takes from
  styles exactly the code it keeps, and no markup is refused except a link in a link or a style twice
  over one span. Process contract: what is accepted is exactly what a declarative specification allows, and
  accepted bytes are canonical.

  \<^bold>\<open>Bounds and fuel\<close>

  Loops over finite data are recursive functions; the scanners and the renderer terminate by the distance to
  the end of their fragment. The retry loop of the guard has the budget the code
  gives it, and ends within it (\<open>retries_bounded\<close>); the polling loop takes the host's answers as a list,
  and as many as the page limit are enough (\<open>poll_returns\<close>); the synchronisation loop takes the pages
  of the client.

  \<^bold>\<open>Not modelled\<close>

  Adapters around libraries, files, processes, HTTP and the external engine (Telegram client, documents,
  artifacts, computer, GitHub, session files, WSL broker, application wiring), prompts and tool schemas: they
  compute little of their own. Long-term memory, outreach, owner controls, the
  pilot's outbox, the standing conversation and history services and the runner's controllers are
  logic of the program that is not modelled yet.
\<close>

end
